(* ===== verification/JS_Prelude.thy ===== *)
theory JS_Prelude
  imports Main "HOL-Library.Word" "HOL-Library.AList" "HOL-Library.Sublist" "HOL-Library.Code_Target_Nat"
begin

text \<open>
  The JavaScript values, strings and errors that every component of the development shares.

  \<^item> A dynamically typed value (a parsed JSON body, a field of an API row, an argument) is a
    \<open>jsval\<close>. An object is the association list of its own properties in insertion order, without
    duplicate keys. Numbers are \<open>NaN\<close>, an infinity or an integer: the modelled data (priorities,
    sizes, counts, time stamps) is integral.
  \<^item> A string is the list of its UTF-16 code units, for strings whose code units are below 256,
    which is what an Isabelle \<open>char\<close> holds; white space and the case mappings are those of
    ECMAScript on that range.
  \<^item> A \<open>Uint8Array\<close> is a list of 8-bit words.
  \<^item> A function that may throw returns a \<open>'a result\<close>: \<open>Inl\<close> is the exception, \<open>Inr\<close> the value.
    An awaited promise is the same type, rejection being the exception.
\<close>

section \<open>Collections\<close>

named_theorems js_eval \<open>definitions unfolded when a concrete term is evaluated\<close>
named_theorems js_str \<open>rewrite rules on the string operations\<close>

section \<open>Results\<close>

datatype exn =
    Error string       \<comment> \<open>\<open>new Error(message)\<close>\<close>
  | TypeError          \<comment> \<open>reading a property of \<open>null\<close> or \<open>undefined\<close>, calling a non-function\<close>
  | RangeError         \<comment> \<open>the call stack is exhausted\<close>
  | DOMError string    \<comment> \<open>an exception of the web platform (crypto, storage, atob)\<close>

type_synonym 'a result = "exn + 'a"

definition bindR :: "'a result \<Rightarrow> ('a \<Rightarrow> 'b result) \<Rightarrow> 'b result" where
  "bindR m f = (case m of Inl e \<Rightarrow> Inl e | Inr x \<Rightarrow> f x)"

lemma bindR_simps [simp]:
  "bindR (Inl e) f = Inl e"
  "bindR (Inr x) f = f x"
  by (simp_all add: bindR_def)

lemma bindR_eq_Inr: "bindR m f = Inr y \<longleftrightarrow> (\<exists>x. m = Inr x \<and> f x = Inr y)"
  by (cases m) auto

lemma bindR_eq_Inl: "bindR m f = Inl e \<longleftrightarrow> m = Inl e \<or> (\<exists>x. m = Inr x \<and> f x = Inl e)"
  by (cases m) auto

lemma bindR_cong [fundef_cong]:
  "m = m' \<Longrightarrow> (\<And>x. m' = Inr x \<Longrightarrow> f x = g x) \<Longrightarrow> bindR m f = bindR m' g"
  by (cases m') auto

text \<open>\<open>try { \<dots> } catch (_) { \<dots> }\<close> as an expression.\<close>

definition tryR :: "'a result \<Rightarrow> (exn \<Rightarrow> 'a result) \<Rightarrow> 'a result" where
  "tryR m h = (case m of Inl e \<Rightarrow> h e | Inr x \<Rightarrow> Inr x)"

lemma tryR_simps [simp]:
  "tryR (Inl e) h = h e"
  "tryR (Inr x) h = Inr x"
  by (simp_all add: tryR_def)

section \<open>Values\<close>

datatype jsnum = NaN | Inf bool | Fin int

datatype jsval =
    JUndef
  | JNull
  | JBool bool
  | JNum jsnum
  | JStr string
  | JArr "jsval list"
  | JObj "(string \<times> jsval) list"

abbreviation jint :: "int \<Rightarrow> jsval" where
  "jint n \<equiv> JNum (Fin n)"

fun truthy :: "jsval \<Rightarrow> bool" where
  "truthy JUndef = False"
| "truthy JNull = False"
| "truthy (JBool b) = b"
| "truthy (JNum NaN) = False"
| "truthy (JNum (Inf _)) = True"
| "truthy (JNum (Fin n)) = (n \<noteq> 0)"
| "truthy (JStr s) = (s \<noteq> [])"
| "truthy (JArr _) = True"
| "truthy (JObj _) = True"

text \<open>\<open>a || b\<close> and \<open>x == null\<close>.\<close>

definition js_or :: "jsval \<Rightarrow> jsval \<Rightarrow> jsval" where
  "js_or a b = (if truthy a then a else b)"

definition nullish :: "jsval \<Rightarrow> bool" where
  "nullish v = (v = JUndef \<or> v = JNull)"

declare js_or_def [js_eval] nullish_def [js_eval]

lemma nullish_simps [simp]:
  "nullish JUndef" "nullish JNull" "\<not> nullish (JBool b)" "\<not> nullish (JNum n)"
  "\<not> nullish (JStr s)" "\<not> nullish (JArr xs)" "\<not> nullish (JObj kvs)"
  by (simp_all add: nullish_def)

lemma js_or_simps [simp]:
  "js_or JUndef b = b" "js_or JNull b = b" "js_or (JStr []) b = b"
  "js_or (JStr (c # s)) b = JStr (c # s)"
  "js_or (JArr xs) b = JArr xs" "js_or (JObj kvs) b = JObj kvs"
  by (simp_all add: js_or_def)

fun isArray :: "jsval \<Rightarrow> bool" where
  "isArray (JArr _) = True"
| "isArray _ = False"

text \<open>\<open>typeof v === "object"\<close> (which \<open>null\<close> and arrays satisfy too) and \<open>"string"\<close>.\<close>

fun typeof_object :: "jsval \<Rightarrow> bool" where
  "typeof_object JNull = True"
| "typeof_object (JArr _) = True"
| "typeof_object (JObj _) = True"
| "typeof_object _ = False"

fun typeof_string :: "jsval \<Rightarrow> bool" where
  "typeof_string (JStr _) = True"
| "typeof_string _ = False"

text \<open>The elements of a value that the source has checked with \<open>Array.isArray(v) ? v : []\<close>.\<close>

fun js_elems :: "jsval \<Rightarrow> jsval list" where
  "js_elems (JArr xs) = xs"
| "js_elems _ = []"

section \<open>Strings\<close>

definition code_unit :: "char \<Rightarrow> nat" where
  "code_unit c = of_char c"

lemma code_unit_bound: "code_unit c < 256"
  by (simp add: code_unit_def)

definition is_space :: "char \<Rightarrow> bool" where
  "is_space c = (code_unit c \<in> {9, 10, 11, 12, 13, 32, 160})"

definition trim_start :: "string \<Rightarrow> string" where
  "trim_start s = dropWhile is_space s"

definition trim_end :: "string \<Rightarrow> string" where
  "trim_end s = rev (dropWhile is_space (rev s))"

definition trim :: "string \<Rightarrow> string" where
  "trim s = trim_end (trim_start s)"

definition lower_char :: "char \<Rightarrow> char" where
  "lower_char c =
     (let n = code_unit c in
      if 65 \<le> n \<and> n \<le> 90 \<or> 192 \<le> n \<and> n \<le> 222 \<and> n \<noteq> 215 then char_of (n + 32) else c)"

definition toLowerCase :: "string \<Rightarrow> string" where
  "toLowerCase s = map lower_char s"

text \<open>
  Upper case on the same range: sharp s becomes two letters; the two letters whose upper case
  lies above 255 (micro sign, y with diaeresis) are left as they are.
\<close>

definition upper_char :: "char \<Rightarrow> string" where
  "upper_char c =
     (let n = code_unit c in
      if n = 223 then ''SS''
      else if 97 \<le> n \<and> n \<le> 122 \<or> 224 \<le> n \<and> n \<le> 254 \<and> n \<noteq> 247 then [char_of (n - 32)]
      else [c])"

definition toUpperCase :: "string \<Rightarrow> string" where
  "toUpperCase s = concat (map upper_char s)"

fun find_sub :: "string \<Rightarrow> string \<Rightarrow> nat option" where
  "find_sub n [] = (if n = [] then Some 0 else None)"
| "find_sub n (c # h) = (if prefix n (c # h) then Some 0 else map_option Suc (find_sub n h))"

definition indexOf :: "string \<Rightarrow> string \<Rightarrow> int" where
  "indexOf h n = (case find_sub n h of None \<Rightarrow> -1 | Some i \<Rightarrow> int i)"

definition startsWith :: "string \<Rightarrow> string \<Rightarrow> bool" where
  "startsWith h n = prefix n h"

definition endsWith :: "string \<Rightarrow> string \<Rightarrow> bool" where
  "endsWith h n = suffix n h"

definition str_includes :: "string \<Rightarrow> string \<Rightarrow> bool" where
  "str_includes h n = (indexOf h n \<noteq> -1)"

text \<open>\<open>s.slice(i)\<close> and \<open>s.slice(i, j)\<close>, negative positions counting from the end.\<close>

definition slice_pos :: "int \<Rightarrow> nat \<Rightarrow> nat" where
  "slice_pos i len = (if i < 0 then nat (max 0 (i + int len)) else min (nat i) len)"

definition slice_from :: "int \<Rightarrow> 'a list \<Rightarrow> 'a list" where
  "slice_from i s = drop (slice_pos i (length s)) s"

definition slice :: "int \<Rightarrow> int \<Rightarrow> 'a list \<Rightarrow> 'a list" where
  "slice i j s =
     (let a = slice_pos i (length s); b = slice_pos j (length s) in take (b - a) (drop a s))"

declare code_unit_def [js_eval] is_space_def [js_eval] trim_start_def [js_eval]
  trim_end_def [js_eval] trim_def [js_eval] lower_char_def [js_eval] toLowerCase_def [js_eval]
  upper_char_def [js_eval] toUpperCase_def [js_eval] indexOf_def [js_eval]
  startsWith_def [js_eval] endsWith_def [js_eval] str_includes_def [js_eval]
  slice_pos_def [js_eval] slice_from_def [js_eval] slice_def [js_eval]

lemma find_sub_SomeD: "find_sub n h = Some i \<Longrightarrow> prefix n (drop i h) \<and> i + length n \<le> length h"
proof (induction h arbitrary: i)
  case Nil
  then show ?case by (auto split: if_splits)
next
  case (Cons c h)
  show ?case
  proof (cases "prefix n (c # h)")
    case True
    with Cons.prems show ?thesis by (auto dest: prefix_length_le)
  next
    case False
    with Cons.prems obtain j where "find_sub n h = Some j" "i = Suc j" by auto
    with Cons.IH show ?thesis by auto
  qed
qed

lemma find_sub_None: "find_sub n h = None \<longleftrightarrow> \<not> sublist n h"
  by (induction h) (auto simp: sublist_Cons_right)

lemma find_sub_first: "find_sub n h = Some i \<Longrightarrow> j < i \<Longrightarrow> \<not> prefix n (drop j h)"
proof (induction h arbitrary: i j)
  case Nil
  then show ?case by (auto split: if_splits)
next
  case (Cons c h)
  then show ?case by (cases j) (auto split: if_splits)
qed

lemma indexOf_neg [js_str]: "indexOf h n = -1 \<longleftrightarrow> \<not> sublist n h"
  by (auto simp: indexOf_def find_sub_None [symmetric] split: option.split)

lemma str_includes_sublist [js_str]: "str_includes h n \<longleftrightarrow> sublist n h"
  by (simp add: str_includes_def indexOf_neg)

lemma length_toLowerCase [simp]: "length (toLowerCase s) = length s"
  by (simp add: toLowerCase_def)

lemma toLowerCase_append [simp]: "toLowerCase (s @ t) = toLowerCase s @ toLowerCase t"
  by (simp add: toLowerCase_def)

lemma toLowerCase_Nil_iff [simp]: "toLowerCase s = [] \<longleftrightarrow> s = []"
  by (simp add: toLowerCase_def)

lemma lower_char_idem [simp]: "lower_char (lower_char c) = lower_char c"
  by (simp add: lower_char_def code_unit_def Let_def)

lemma toLowerCase_idem [simp]: "toLowerCase (toLowerCase s) = toLowerCase s"
  by (simp add: toLowerCase_def)

lemma is_space_lower_char [simp]: "is_space (lower_char c) = is_space c"
  by (auto simp: lower_char_def is_space_def code_unit_def Let_def)

lemma dropWhile_map_lower: "dropWhile is_space (map lower_char s) = map lower_char (dropWhile is_space s)"
  by (simp add: dropWhile_map comp_def)

lemma trim_toLowerCase: "trim (toLowerCase s) = toLowerCase (trim s)"
  by (simp add: trim_def trim_start_def trim_end_def toLowerCase_def dropWhile_map_lower
      rev_map)

lemma dropWhile_rev_dropWhile:
  "dropWhile P (rev (dropWhile P (rev (dropWhile P s)))) = rev (dropWhile P (rev (dropWhile P s)))"
proof (cases "dropWhile P s")
  case Nil
  show ?thesis unfolding Nil by simp
next
  case (Cons c t)
  then have nP: "\<not> P c"
    by (metis dropWhile_eq_Cons_conv)
  show ?thesis
    using nP by (simp add: Cons dropWhile_append)
qed

lemma trim_idem [simp]: "trim (trim s) = trim s"
  by (simp add: trim_def trim_start_def trim_end_def dropWhile_rev_dropWhile dropWhile_idem)

lemma length_trim: "length (trim s) \<le> length s"
  by (simp add: trim_def trim_start_def trim_end_def)
     (metis le_trans length_dropWhile_le length_rev)

section \<open>Numbers\<close>

definition digit_char :: "nat \<Rightarrow> char" where
  "digit_char d = (if d < 10 then char_of (48 + d) else char_of (87 + d))"

text \<open>The digits of \<open>n.toString(b)\<close> for a radix \<open>2 \<le> b \<le> 16\<close>.\<close>

function to_radix :: "nat \<Rightarrow> nat \<Rightarrow> string" where
  "to_radix b n = (if n < b \<or> b < 2 then [digit_char n] else to_radix b (n div b) @ [digit_char (n mod b)])"
  by pat_completeness auto
termination
  by (relation "measure snd") (auto intro: div_less_dividend)

declare to_radix.simps [simp del]

definition int_to_string :: "int \<Rightarrow> string" where
  "int_to_string n = (if n < 0 then CHR ''-'' # to_radix 10 (nat (- n)) else to_radix 10 (nat n))"

fun num_to_string :: "jsnum \<Rightarrow> string" where
  "num_to_string NaN = ''NaN''"
| "num_to_string (Inf True) = ''Infinity''"
| "num_to_string (Inf False) = ''-Infinity''"
| "num_to_string (Fin n) = int_to_string n"

definition is_digit :: "char \<Rightarrow> bool" where
  "is_digit c = (48 \<le> code_unit c \<and> code_unit c \<le> 57)"

definition digit_val :: "char \<Rightarrow> nat" where
  "digit_val c = code_unit c - 48"

definition decimal_val :: "string \<Rightarrow> nat" where
  "decimal_val s = foldl (\<lambda>n c. 10 * n + digit_val c) 0 s"

declare digit_char_def [js_eval] int_to_string_def [js_eval] is_digit_def [js_eval]
  digit_val_def [js_eval] decimal_val_def [js_eval]

lemma decimal_val_snoc: "decimal_val (s @ [c]) = 10 * decimal_val s + digit_val c"
  by (simp add: decimal_val_def)

lemma digit_char_digit: "d < 10 \<Longrightarrow> is_digit (digit_char d) \<and> digit_val (digit_char d) = d"
  by (simp add: digit_char_def is_digit_def digit_val_def code_unit_def)

lemma to_radix_nonempty [simp]: "to_radix b n \<noteq> []"
  by (subst to_radix.simps) simp

lemma to_radix_10: "(\<forall>c \<in> set (to_radix 10 n). is_digit c) \<and> decimal_val (to_radix 10 n) = n"
proof (induction n rule: less_induct)
  case (less n)
  show ?case
  proof (cases "n < 10")
    case True
    then show ?thesis
      by (subst (1 2) to_radix.simps) (simp add: decimal_val_def digit_char_digit)
  next
    case False
    then have "n div 10 < n" by simp
    from less [OF this] False show ?thesis
      by (subst (1 2) to_radix.simps) (auto simp: decimal_val_snoc digit_char_digit)
  qed
qed

lemma to_radix_10_hd: "hd (to_radix 10 n) = CHR ''0'' \<Longrightarrow> n = 0"
proof (induction n rule: less_induct)
  case (less n)
  show ?case
  proof (cases "n < 10")
    case True
    with less.prems have "digit_char n = CHR ''0''"
      by (simp add: to_radix.simps [of 10 n])
    then have "digit_val (digit_char n) = 0"
      by (simp add: digit_val_def code_unit_def)
    with True show ?thesis by (simp add: digit_char_digit)
  next
    case False
    then have lt: "n div 10 < n" by simp
    from False less.prems have "hd (to_radix 10 (n div 10)) = CHR ''0''"
      by (simp add: to_radix.simps [of 10 n])
    with less.IH [OF lt] False show ?thesis by simp
  qed
qed

section \<open>Properties\<close>

text \<open>The array index a property key denotes: a canonical decimal numeral.\<close>

definition array_index :: "string \<Rightarrow> nat option" where
  "array_index k =
     (if k \<noteq> [] \<and> (\<forall>c \<in> set k. is_digit c) \<and> to_radix 10 (decimal_val k) = k
      then Some (decimal_val k) else None)"

text \<open>
  Own properties. \<open>getp\<close> is \<open>o.k\<close> on a value that is neither \<open>null\<close> nor \<open>undefined\<close>;
  \<open>getR\<close> is \<open>o.k\<close> with the exception that those two raise. \<open>setp\<close> is \<open>o.k = v\<close>: the setter of
  \<open>__proto__\<close> replaces the prototype and leaves the own properties as they are; an array grows to
  reach the index; a property of an array that is no index is not kept, since no printed or
  enumerated form of the array shows it.
\<close>

fun getp :: "jsval \<Rightarrow> string \<Rightarrow> jsval" where
  "getp (JObj kvs) k = (case map_of kvs k of None \<Rightarrow> JUndef | Some v \<Rightarrow> v)"
| "getp (JArr xs) k =
     (if k = ''length'' then jint (int (length xs))
      else case array_index k of None \<Rightarrow> JUndef | Some i \<Rightarrow> if i < length xs then xs ! i else JUndef)"
| "getp (JStr s) k =
     (if k = ''length'' then jint (int (length s))
      else case array_index k of None \<Rightarrow> JUndef | Some i \<Rightarrow> if i < length s then JStr [s ! i] else JUndef)"
| "getp _ k = JUndef"

definition getR :: "jsval \<Rightarrow> string \<Rightarrow> jsval result" where
  "getR v k = (if nullish v then Inl TypeError else Inr (getp v k))"

fun setp :: "jsval \<Rightarrow> string \<Rightarrow> jsval \<Rightarrow> jsval" where
  "setp (JObj kvs) k v = (if k = ''__proto__'' then JObj kvs else JObj (AList.update k v kvs))"
| "setp (JArr xs) k v =
     (case array_index k of
        None \<Rightarrow> JArr xs
      | Some i \<Rightarrow> if i < length xs then JArr (xs[i := v])
                  else JArr (xs @ replicate (i - length xs) JUndef @ [v]))"
| "setp w k v = w"

text \<open>\<open>Object.prototype\<close> has these properties, all of them truthy: \<open>o[k]\<close> finds them on any plain object.\<close>

definition object_prototype_keys :: "string list" where
  "object_prototype_keys =
     [''constructor'', ''__proto__'', ''toString'', ''valueOf'', ''hasOwnProperty'', ''isPrototypeOf'',
      ''propertyIsEnumerable'', ''toLocaleString'', ''__defineGetter__'', ''__defineSetter__'',
      ''__lookupGetter__'', ''__lookupSetter__'']"

text \<open>Whether \<open>o[k]\<close> is truthy, for a plain object \<open>o\<close>.\<close>

definition lookup_truthy :: "(string \<times> jsval) list \<Rightarrow> string \<Rightarrow> bool" where
  "lookup_truthy kvs k =
     (case map_of kvs k of Some v \<Rightarrow> truthy v | None \<Rightarrow> k \<in> set object_prototype_keys)"

text \<open>The own enumerable properties that \<open>for (k in o)\<close> visits.\<close>

fun own_props :: "jsval \<Rightarrow> (string \<times> jsval) list" where
  "own_props (JObj kvs) = kvs"
| "own_props (JArr xs) = map (\<lambda>(i, x). (to_radix 10 i, x)) (enumerate 0 xs)"
| "own_props (JStr s) = map (\<lambda>(i, c). (to_radix 10 i, JStr [c])) (enumerate 0 s)"
| "own_props _ = []"

text \<open>\<open>a === b\<close>; objects and arrays that were built separately are never identical.\<close>

fun strict_eq :: "jsval \<Rightarrow> jsval \<Rightarrow> bool" where
  "strict_eq JUndef JUndef = True"
| "strict_eq JNull JNull = True"
| "strict_eq (JBool a) (JBool b) = (a = b)"
| "strict_eq (JNum a) (JNum b) = (a \<noteq> NaN \<and> a = b)"
| "strict_eq (JStr a) (JStr b) = (a = b)"
| "strict_eq _ _ = False"

declare getR_def [js_eval] array_index_def [js_eval] lookup_truthy_def [js_eval]
  object_prototype_keys_def [js_eval]

lemma getp_setp_same: "k \<noteq> ''__proto__'' \<Longrightarrow> getp (setp (JObj kvs) k v) k = v"
  by (simp add: update_conv)

lemma getp_setp_other: "k \<noteq> k' \<Longrightarrow> getp (setp (JObj kvs) k v) k' = getp (JObj kvs) k'"
  by (simp add: update_conv)

lemma strict_eq_imp_eq: "strict_eq a b \<Longrightarrow> a = b"
  by (induction a b rule: strict_eq.induct) auto

section \<open>Conversions to string\<close>

fun join :: "string \<Rightarrow> string list \<Rightarrow> string" where
  "join sep [] = []"
| "join sep [x] = x"
| "join sep (x # y # zs) = x @ sep @ join sep (y # zs)"

text \<open>\<open>String(v)\<close>; an array joins its elements with a comma, \<open>null\<close> and \<open>undefined\<close> being empty.\<close>

fun to_string :: "jsval \<Rightarrow> string" where
  "to_string JUndef = ''undefined''"
| "to_string JNull = ''null''"
| "to_string (JBool True) = ''true''"
| "to_string (JBool False) = ''false''"
| "to_string (JNum n) = num_to_string n"
| "to_string (JStr s) = s"
| "to_string (JArr xs) = join '','' (map (\<lambda>x. if nullish x then [] else to_string x) xs)"
| "to_string (JObj _) = ''[object Object]''"

text \<open>\<open>String(v || '')\<close> and \<open>v == null ? '' : String(v)\<close>, the two guards the code writes everywhere.\<close>

definition str_or_empty :: "jsval \<Rightarrow> string" where
  "str_or_empty v = to_string (js_or v (JStr []))"

definition str_nullish :: "jsval \<Rightarrow> string" where
  "str_nullish v = (if nullish v then [] else to_string v)"

declare str_or_empty_def [js_eval] str_nullish_def [js_eval]

lemma str_or_empty_simps [simp]:
  "str_or_empty JUndef = []" "str_or_empty JNull = []" "str_or_empty (JStr s) = s"
  by (simp_all add: str_or_empty_def js_or_def)

lemma str_nullish_simps [simp]:
  "str_nullish JUndef = []" "str_nullish JNull = []" "str_nullish (JStr s) = s"
  by (simp_all add: str_nullish_def)

section \<open>Interfaces\<close>

text \<open>
  A lossless encoding: what a store, a transport or an encryption layer promises its client.
  The JSON text, base64, the SRP integers and the wrapped key blobs are interpretations.
\<close>

locale codec =
  fixes enc :: "'a \<Rightarrow> 'b"
    and dec :: "'b \<Rightarrow> 'a option"
    and ok :: "'a \<Rightarrow> bool"
  assumes dec_enc: "ok v \<Longrightarrow> dec (enc v) = Some v"
begin

lemma enc_inject: "ok v \<Longrightarrow> ok w \<Longrightarrow> enc v = enc w \<longleftrightarrow> v = w"
  by (metis dec_enc option.inject)

lemma dec_not_None: "ok v \<Longrightarrow> dec (enc v) \<noteq> None"
  by (simp add: dec_enc)

end

text \<open>
  States reached from an initial state by a step relation, and the invariants of such a system.
\<close>

inductive reach :: "('s \<Rightarrow> bool) \<Rightarrow> ('s \<Rightarrow> 's \<Rightarrow> bool) \<Rightarrow> 's \<Rightarrow> bool" for init step where
  reach_init: "init s \<Longrightarrow> reach init step s"
| reach_step: "reach init step s \<Longrightarrow> step s t \<Longrightarrow> reach init step t"

locale invariant_system =
  fixes init :: "'s \<Rightarrow> bool"
    and step :: "'s \<Rightarrow> 's \<Rightarrow> bool"
    and inv :: "'s \<Rightarrow> bool"
  assumes inv_init: "init s \<Longrightarrow> inv s"
    and inv_step: "inv s \<Longrightarrow> step s t \<Longrightarrow> inv t"
begin

lemma reach_inv: "reach init step s \<Longrightarrow> inv s"
  by (induction rule: reach.induct) (auto intro: inv_init inv_step)

lemma steps_inv: "step\<^sup>*\<^sup>* s t \<Longrightarrow> inv s \<Longrightarrow> inv t"
  by (induction rule: rtranclp_induct) (auto intro: inv_step)

end

end
