(* ===== verification/JS_Json.thy ===== *)
theory JS_Json
  imports JS_Prelude
begin

text \<open>
  \<open>JSON.stringify\<close> and \<open>JSON.parse\<close> on the values of \<^theory_text>\<open>JS_Prelude\<close>: the filter ledger and
  the key vault keep their persistent state as JSON text in \<open>localStorage\<close>, and the filter
  engine hashes the JSON text of its rules. The printer writes what ECMAScript writes (no
  spaces, properties in insertion order, \<open>undefined\<close> properties dropped). The parser accepts the
  JSON grammar with integer numbers; a text it refuses is a \<open>SyntaxError\<close>, here \<open>None\<close>.
  The round trip \<open>json_parse_json_str\<close> is what the two stores rest on.
\<close>

section \<open>JSON.stringify\<close>

definition hex2 :: "nat \<Rightarrow> string" where
  "hex2 n = [digit_char (n div 16), digit_char (n mod 16)]"

definition json_escape :: "char \<Rightarrow> string" where
  "json_escape c =
     (let n = code_unit c in
      if n = 34 then [CHR 0x5C, CHR 0x22]
      else if n = 92 then [CHR 0x5C, CHR 0x5C]
      else if n = 8 then [CHR 0x5C, CHR ''b'']
      else if n = 12 then [CHR 0x5C, CHR ''f'']
      else if n = 10 then [CHR 0x5C, CHR ''n'']
      else if n = 13 then [CHR 0x5C, CHR ''r'']
      else if n = 9 then [CHR 0x5C, CHR ''t'']
      else if n < 32 then CHR 0x5C # ''u00'' @ hex2 n
      else [c])"

definition json_quote :: "string \<Rightarrow> string" where
  "json_quote s = CHR 0x22 # concat (map json_escape s) @ [CHR 0x22]"

text \<open>
  \<open>JSON.stringify\<close> of a value inside an array or at a property that is not \<open>undefined\<close>;
  \<open>NaN\<close>, the infinities and an \<open>undefined\<close> array element print as \<open>null\<close>.
\<close>

fun json_str :: "jsval \<Rightarrow> string" where
  "json_str JUndef = ''null''"
| "json_str JNull = ''null''"
| "json_str (JBool True) = ''true''"
| "json_str (JBool False) = ''false''"
| "json_str (JNum (Fin n)) = int_to_string n"
| "json_str (JNum _) = ''null''"
| "json_str (JStr s) = json_quote s"
| "json_str (JArr xs) = ''['' @ join '','' (map json_str xs) @ '']''"
| "json_str (JObj kvs) =
     ''{'' @ join '','' (map (\<lambda>(k, v). json_quote k @ '':'' @ json_str v)
                        (filter (\<lambda>(k, v). v \<noteq> JUndef) kvs)) @ ''}''"

section \<open>JSON.parse\<close>

definition json_ws :: "char \<Rightarrow> bool" where
  "json_ws c = (code_unit c \<in> {9, 10, 13, 32})"

definition skip_ws :: "string \<Rightarrow> string" where
  "skip_ws s = dropWhile json_ws s"

definition hex_val :: "char \<Rightarrow> nat option" where
  "hex_val c =
     (let n = code_unit c in
      if 48 \<le> n \<and> n \<le> 57 then Some (n - 48)
      else if 97 \<le> n \<and> n \<le> 102 then Some (n - 87)
      else if 65 \<le> n \<and> n \<le> 70 then Some (n - 55)
      else None)"

text \<open>A \<open>\u\<close> escape whose code unit lies above 255 is outside the model's strings and refused.\<close>

definition unescape_u :: "char \<Rightarrow> char \<Rightarrow> char \<Rightarrow> char \<Rightarrow> char option" where
  "unescape_u a b c d =
     (case (hex_val a, hex_val b, hex_val c, hex_val d) of
        (Some 0, Some 0, Some x, Some y) \<Rightarrow> Some (char_of (16 * x + y))
      | _ \<Rightarrow> None)"

definition unescape :: "char \<Rightarrow> char option" where
  "unescape e =
     (let n = code_unit e in
      if n = 34 \<or> n = 92 \<or> n = 47 then Some e
      else if n = 98 then Some (char_of (8::nat))
      else if n = 102 then Some (char_of (12::nat))
      else if n = 110 then Some (char_of (10::nat))
      else if n = 114 then Some (char_of (13::nat))
      else if n = 116 then Some (char_of (9::nat))
      else None)"

text \<open>The characters of a string literal after its opening quote, and the text after its closing one.\<close>

fun parse_chars :: "string \<Rightarrow> (string \<times> string) option" where
  "parse_chars [] = None"
| "parse_chars (c # cs) =
     (if code_unit c = 34 then Some ([], cs)
      else if code_unit c = 92 then
        (case cs of
           e # r \<Rightarrow>
             if code_unit e = 117 then
               (case r of
                  a # b # x # y # r' \<Rightarrow>
                    (case unescape_u a b x y of
                       None \<Rightarrow> None
                     | Some ch \<Rightarrow> map_option (\<lambda>(s, t). (ch # s, t)) (parse_chars r'))
                | _ \<Rightarrow> None)
             else
               (case unescape e of
                  None \<Rightarrow> None
                | Some ch \<Rightarrow> map_option (\<lambda>(s, t). (ch # s, t)) (parse_chars r))
         | [] \<Rightarrow> None)
      else if code_unit c < 32 then None
      else map_option (\<lambda>(s, t). (c # s, t)) (parse_chars cs))"

text \<open>An unsigned integer literal: no leading zero, not followed by a fraction or an exponent.\<close>

definition parse_nat :: "string \<Rightarrow> (nat \<times> string) option" where
  "parse_nat s =
     (let ds = takeWhile is_digit s; r = dropWhile is_digit s in
      if ds = [] then None
      else if hd ds = CHR ''0'' \<and> length ds \<noteq> 1 then None
      else if r \<noteq> [] \<and> hd r \<in> {CHR ''.'', CHR ''e'', CHR ''E''} then None
      else Some (decimal_val ds, r))"

definition parse_int :: "string \<Rightarrow> (int \<times> string) option" where
  "parse_int s =
     (case s of
        c # t \<Rightarrow> if c = CHR ''-'' then map_option (\<lambda>(n, r). (- int n, r)) (parse_nat t)
                 else map_option (\<lambda>(n, r). (int n, r)) (parse_nat s)
      | [] \<Rightarrow> None)"

definition expect :: "string \<Rightarrow> string \<Rightarrow> string option" where
  "expect w s = (if prefix w s then Some (drop (length w) s) else None)"

text \<open>
  Values, the elements of an array after its opening bracket and a comma, and the members of an
  object likewise. Fuel bounds the nesting: every call spends one unit and has read a character,
  so the length of the text is always enough.
\<close>

fun parse_val :: "nat \<Rightarrow> string \<Rightarrow> (jsval \<times> string) option"
  and parse_elems :: "nat \<Rightarrow> string \<Rightarrow> (jsval list \<times> string) option"
  and parse_members :: "nat \<Rightarrow> (string \<times> jsval) list \<Rightarrow> string \<Rightarrow> ((string \<times> jsval) list \<times> string) option"
where
  "parse_val 0 s = None"
| "parse_val (Suc n) s =
     (case skip_ws s of
        [] \<Rightarrow> None
      | c # t \<Rightarrow>
          if c = CHR 0x22 then map_option (\<lambda>(x, r). (JStr x, r)) (parse_chars t)
          else if c = CHR ''['' then
            (case skip_ws t of
               d # r \<Rightarrow> if d = CHR '']'' then Some (JArr [], r)
                        else map_option (\<lambda>(xs, r). (JArr xs, r)) (parse_elems n t)
             | [] \<Rightarrow> None)
          else if c = CHR ''{'' then
            (case skip_ws t of
               d # r \<Rightarrow> if d = CHR ''}'' then Some (JObj [], r)
                        else map_option (\<lambda>(kvs, r). (JObj kvs, r)) (parse_members n [] t)
             | [] \<Rightarrow> None)
          else if c = CHR ''n'' then map_option (\<lambda>r. (JNull, r)) (expect ''null'' (c # t))
          else if c = CHR ''t'' then map_option (\<lambda>r. (JBool True, r)) (expect ''true'' (c # t))
          else if c = CHR ''f'' then map_option (\<lambda>r. (JBool False, r)) (expect ''false'' (c # t))
          else map_option (\<lambda>(i, r). (jint i, r)) (parse_int (c # t)))"
| "parse_elems 0 s = None"
| "parse_elems (Suc n) s =
     (case parse_val n s of
        None \<Rightarrow> None
      | Some (v, t) \<Rightarrow>
          (case skip_ws t of
             [] \<Rightarrow> None
           | c # r \<Rightarrow>
               if c = CHR '']'' then Some ([v], r)
               else if c = CHR '','' then map_option (\<lambda>(vs, r'). (v # vs, r')) (parse_elems n r)
               else None))"
| "parse_members 0 acc s = None"
| "parse_members (Suc n) acc s =
     (case skip_ws s of
        q # s1 \<Rightarrow>
          if q \<noteq> CHR 0x22 then None
          else
            (case parse_chars s1 of
               None \<Rightarrow> None
             | Some (k, s2) \<Rightarrow>
                 (case skip_ws s2 of
                    c # s3 \<Rightarrow>
                      if c \<noteq> CHR '':'' then None
                      else
                        (case parse_val n s3 of
                           None \<Rightarrow> None
                         | Some (v, s4) \<Rightarrow>
                             (case skip_ws s4 of
                                [] \<Rightarrow> None
                              | d # r \<Rightarrow>
                                  if d = CHR ''}'' then Some (AList.update k v acc, r)
                                  else if d = CHR '','' then parse_members n (AList.update k v acc) r
                                  else None))
                  | [] \<Rightarrow> None))
      | [] \<Rightarrow> None)"

definition json_parse :: "string \<Rightarrow> jsval option" where
  "json_parse s =
     (case parse_val (Suc (length s)) s of
        None \<Rightarrow> None
      | Some (v, r) \<Rightarrow> if skip_ws r = [] then Some v else None)"

section \<open>The round trip\<close>

text \<open>Values JSON can carry: finite integers, no \<open>undefined\<close>, no repeated key.\<close>

fun json_ok :: "jsval \<Rightarrow> bool" where
  "json_ok JUndef = False"
| "json_ok (JNum NaN) = False"
| "json_ok (JNum (Inf _)) = False"
| "json_ok (JArr xs) = (\<forall>x \<in> set xs. json_ok x)"
| "json_ok (JObj kvs) = (distinct (map fst kvs) \<and> (\<forall>kv \<in> set kvs. json_ok (snd kv)))"
| "json_ok _ = True"

lemma json_ok_no_undef: "json_ok (JObj kvs) \<Longrightarrow> filter (\<lambda>(k, v). v \<noteq> JUndef) kvs = kvs"
  by (rule filter_True) auto

lemma char_of_code: "of_char c = (n::nat) \<Longrightarrow> c = char_of n"
  by auto

lemma code_34: "of_char c = (34::nat) \<longleftrightarrow> c = CHR 0x22"
  using of_char_eq_iff [of c "CHR 0x22", where 'a = nat] by simp

lemma code_92: "of_char c = (92::nat) \<longleftrightarrow> c = CHR 0x5C"
  using of_char_eq_iff [of c "CHR 0x5C", where 'a = nat] by simp

lemma hex2_unescape: "n < 256 \<Longrightarrow> unescape_u CHR ''0'' CHR ''0'' (digit_char (n div 16)) (digit_char (n mod 16)) = Some (char_of n)"
proof -
  have h: "hex_val (digit_char d) = Some d" if "d < 16" for d
    using that by (auto simp: hex_val_def digit_char_def code_unit_def Let_def)
  have z: "hex_val CHR ''0'' = Some 0"
    by (simp add: hex_val_def code_unit_def Let_def)
  assume "n < 256"
  then have "n div 16 < 16" "n mod 16 < 16" by auto
  then show ?thesis
    by (simp add: unescape_u_def h z)
qed

lemma parse_chars_escape:
  "parse_chars (json_escape c @ t) = map_option (\<lambda>(s, r). (c # s, r)) (parse_chars t)"
proof -
  have c: "c = char_of (code_unit c)" by (simp add: code_unit_def)
  show ?thesis
  proof (cases "code_unit c < 32")
    case True
    consider "code_unit c \<in> {8, 9, 10, 12, 13}" | "code_unit c \<notin> {8, 9, 10, 12, 13}" by blast
    then show ?thesis
    proof cases
      case 1
      then show ?thesis
        by (auto simp: json_escape_def unescape_def code_unit_def Let_def dest!: char_of_code)
    next
      case 2
      have u: "unescape_u CHR ''0'' CHR ''0'' (digit_char (code_unit c div 16)) (digit_char (code_unit c mod 16)) = Some c"
        using hex2_unescape [of "code_unit c"] c True by simp
      have "json_escape c = CHR 0x5C # ''u00'' @ hex2 (code_unit c)"
        using 2 True by (simp add: json_escape_def Let_def)
      then show ?thesis
        using u by (simp add: hex2_def code_unit_def)
    qed
  next
    case False
    then show ?thesis
      by (auto simp: json_escape_def unescape_def Let_def code_unit_def code_34 code_92)
  qed
qed

lemma parse_chars_quote: "parse_chars (concat (map json_escape s) @ CHR 0x22 # r) = Some (s, r)"
  by (induction s) (simp_all add: parse_chars_escape code_unit_def del: parse_chars.simps,
      simp_all add: code_unit_def)

lemma json_quote_parse: "parse_chars (tl (json_quote s) @ r) = Some (s, r)"
  by (simp add: json_quote_def parse_chars_quote del: parse_chars.simps)

lemma char_lits:
  "json_ws CHR ''n'' = False" "json_ws CHR ''t'' = False" "json_ws CHR ''f'' = False"
  "json_ws CHR 0x22 = False" "json_ws CHR ''['' = False" "json_ws CHR ''{'' = False"
  "json_ws CHR '']'' = False" "json_ws CHR ''}'' = False" "json_ws CHR '','' = False"
  "json_ws CHR '':'' = False" "json_ws CHR ''-'' = False"
  by (simp_all add: json_ws_def code_unit_def)

lemma skip_ws_lits [simp]:
  "skip_ws [] = []"
  "\<not> json_ws c \<Longrightarrow> skip_ws (c # s) = c # s"
  by (simp_all add: skip_ws_def)

declare char_lits [simp]

text \<open>What may follow a printed value: the end of the text, or a delimiter.\<close>

definition delim_ok :: "string \<Rightarrow> bool" where
  "delim_ok r = (r = [] \<or> hd r \<in> {CHR '','', CHR '']'', CHR ''}''})"

lemma delim_ok_simps [simp]:
  "delim_ok []" "delim_ok (CHR '','' # r)" "delim_ok (CHR '']'' # r)" "delim_ok (CHR ''}'' # r)"
  by (simp_all add: delim_ok_def)

lemma delim_not_digit: "delim_ok r \<Longrightarrow> takeWhile is_digit r = [] \<and> dropWhile is_digit r = r
    \<and> (r \<noteq> [] \<longrightarrow> hd r \<notin> {CHR ''.'', CHR ''e'', CHR ''E''})"
  by (cases r) (auto simp: delim_ok_def is_digit_def code_unit_def)

lemma parse_nat_digits: "delim_ok r \<Longrightarrow> parse_nat (to_radix 10 n @ r) = Some (n, r)"
proof -
  assume r: "delim_ok r"
  have all: "\<forall>c \<in> set (to_radix 10 n). is_digit c" and val: "decimal_val (to_radix 10 n) = n"
    using to_radix_10 by auto
  have zero: "length (to_radix 10 n) = 1" if "hd (to_radix 10 n) = CHR ''0''"
  proof -
    from that have "n = 0" by (rule to_radix_10_hd)
    then show ?thesis by (simp add: to_radix.simps)
  qed
  show ?thesis
    using all val zero delim_not_digit [OF r]
    by (auto simp: parse_nat_def Let_def takeWhile_append dropWhile_append)
qed

lemma to_radix_10_not_minus: "\<exists>c cs. to_radix 10 n = c # cs \<and> is_digit c"
proof (cases "to_radix 10 n")
  case Nil
  then show ?thesis by simp
next
  case (Cons c cs)
  with to_radix_10 [of n] show ?thesis by auto
qed

lemma parse_int_print: "delim_ok r \<Longrightarrow> parse_int (int_to_string i @ r) = Some (i, r)"
proof -
  assume r: "delim_ok r"
  obtain c cs where c: "to_radix 10 (nat i) = c # cs" "is_digit c"
    using to_radix_10_not_minus by blast
  then have "c \<noteq> CHR ''-''" by (auto simp: is_digit_def code_unit_def)
  with c parse_nat_digits [OF r, of "nat i"] parse_nat_digits [OF r, of "nat (- i)"] show ?thesis
    by (auto simp: parse_int_def int_to_string_def)
qed

lemma int_to_string_head:
  "\<exists>c cs. int_to_string i = c # cs \<and> \<not> json_ws c \<and>
     c \<notin> {CHR 0x22, CHR ''['', CHR ''{'', CHR ''n'', CHR ''t'', CHR ''f''}"
proof -
  have dig: "\<not> json_ws c \<and> c \<notin> {CHR 0x22, CHR ''['', CHR ''{'', CHR ''n'', CHR ''t'', CHR ''f''}"
    if "is_digit c" for c
    using that by (auto simp: is_digit_def json_ws_def code_unit_def)
  show ?thesis
    using to_radix_10_not_minus [of "nat i"] dig by (auto simp: int_to_string_def)
qed

lemma parse_val_int: "delim_ok r \<Longrightarrow> parse_val (Suc n) (int_to_string i @ r) = Some (jint i, r)"
proof -
  assume r: "delim_ok r"
  obtain c cs where c: "int_to_string i = c # cs" "\<not> json_ws c"
      "c \<notin> {CHR 0x22, CHR ''['', CHR ''{'', CHR ''n'', CHR ''t'', CHR ''f''}"
    using int_to_string_head by blast
  then show ?thesis
    using parse_int_print [OF r, of i] by simp
qed

lemma update_fresh: "k \<notin> fst ` set acc \<Longrightarrow> AList.update k v acc = acc @ [(k, v)]"
  by (induction acc) auto

lemma json_quote_Cons: "\<exists>cs. json_quote s = CHR 0x22 # cs"
  by (simp add: json_quote_def)

lemma json_str_head:
  "json_ok v \<Longrightarrow> \<exists>c cs. json_str v = c # cs \<and> \<not> json_ws c \<and> c \<noteq> CHR '']'' \<and> c \<noteq> CHR ''}''"
proof (cases v)
  case (JBool b)
  then show ?thesis by (cases b) simp_all
next
  case (JNum m)
  assume "json_ok v"
  with JNum obtain i where "m = Fin i" by (cases m) auto
  moreover have "c \<noteq> CHR '']'' \<and> c \<noteq> CHR ''}''" if "int_to_string i = c # cs" for c cs
  proof -
    from that have "is_digit c \<or> c = CHR ''-''"
      using to_radix_10_not_minus [of "nat i"] by (auto simp: int_to_string_def split: if_splits)
    then show ?thesis by (auto simp: is_digit_def code_unit_def)
  qed
  ultimately show ?thesis
    using JNum int_to_string_head [of i] by auto
qed (simp_all add: json_quote_def)

text \<open>The statement the induction carries: the printed value is read back and the rest is left.\<close>

definition reads_back :: "jsval \<Rightarrow> bool" where
  "reads_back v = (\<forall>n r. length (json_str v) \<le> n \<longrightarrow> delim_ok r \<longrightarrow> parse_val n (json_str v @ r) = Some (v, r))"

lemma reads_backD:
  "reads_back v \<Longrightarrow> length (json_str v) \<le> n \<Longrightarrow> delim_ok r \<Longrightarrow> parse_val n (json_str v @ r) = Some (v, r)"
  by (simp add: reads_back_def)

lemma parse_elems_print:
  assumes "xs \<noteq> []" and "\<And>x. x \<in> set xs \<Longrightarrow> reads_back x"
    and "length (join '','' (map json_str xs)) + 1 \<le> n"
  shows "parse_elems n (join '','' (map json_str xs) @ CHR '']'' # r) = Some (xs, r)"
  using assms
proof (induction xs arbitrary: n)
  case Nil
  then show ?case by simp
next
  case (Cons x xs)
  then obtain m where n: "n = Suc m" by (cases n) auto
  have x: "reads_back x" using Cons.prems by simp
  show ?case
  proof (cases xs)
    case Nil
    with Cons.prems n reads_backD [OF x, of m "CHR '']'' # r"] show ?thesis by simp
  next
    case (Cons y ys)
    let ?t = "join '','' (map json_str xs)"
    have eq: "join '','' (map json_str (x # xs)) = json_str x @ CHR '','' # ?t"
      using Cons by simp
    have len: "length (json_str x) \<le> m" "length ?t + 1 \<le> m"
      using Cons.prems(3) n eq by auto
    have "parse_val m (json_str x @ CHR '','' # ?t @ CHR '']'' # r) = Some (x, CHR '','' # ?t @ CHR '']'' # r)"
      using reads_backD [OF x len(1)] by simp
    moreover have "parse_elems m (?t @ CHR '']'' # r) = Some (xs, r)"
      using Cons.IH [of m] Cons.prems Cons len(2) by simp
    ultimately show ?thesis
      using n eq by simp
  qed
qed

abbreviation member_str :: "string \<times> jsval \<Rightarrow> string" where
  "member_str kv \<equiv> (case kv of (k, v) \<Rightarrow> json_quote k @ '':'' @ json_str v)"

lemma parse_members_step:
  assumes "reads_back v" and "length (member_str (k, v)) + 1 \<le> Suc m" and "delim_ok r"
  shows "parse_members (Suc m) acc (member_str (k, v) @ r) =
    (case skip_ws r of
       [] \<Rightarrow> None
     | d # r' \<Rightarrow>
         if d = CHR ''}'' then Some (AList.update k v acc, r')
         else if d = CHR '','' then parse_members m (AList.update k v acc) r'
         else None)"
proof -
  obtain q where q: "json_quote k = CHR 0x22 # q" using json_quote_Cons by blast
  have key: "parse_chars (q @ CHR '':'' # json_str v @ r) = Some (k, CHR '':'' # json_str v @ r)"
    using json_quote_parse [of k "CHR '':'' # json_str v @ r"] q by simp
  have val: "parse_val m (json_str v @ r) = Some (v, r)"
    using reads_backD [OF assms(1)] assms(2,3) by simp
  show ?thesis
    using q key val by (simp del: parse_chars.simps)
qed

lemma parse_members_print:
  assumes "kvs \<noteq> []" and "\<And>kv. kv \<in> set kvs \<Longrightarrow> reads_back (snd kv)"
    and "distinct (map fst (acc @ kvs))"
    and "length (join '','' (map member_str kvs)) + 1 \<le> n"
  shows "parse_members n acc (join '','' (map member_str kvs) @ CHR ''}'' # r) = Some (acc @ kvs, r)"
  using assms
proof (induction kvs arbitrary: n acc)
  case Nil
  then show ?case by simp
next
  case (Cons kv kvs)
  obtain k v where kv: "kv = (k, v)" by (cases kv)
  obtain m where n: "n = Suc m" using Cons.prems(4) by (cases n) auto
  have v: "reads_back v" using Cons.prems(2) [of kv] kv by simp
  have upd: "AList.update k v acc = acc @ [(k, v)]"
    using Cons.prems(3) kv by (intro update_fresh) auto
  show ?case
  proof (cases kvs)
    case Nil
    with Cons.prems n kv parse_members_step [OF v, of k m "CHR ''}'' # r" acc] upd
    show ?thesis by simp
  next
    case (Cons y ys)
    let ?t = "join '','' (map member_str kvs)"
    have eq: "join '','' (map member_str (kv # kvs)) = member_str (k, v) @ CHR '','' # ?t"
      using Cons kv by simp
    have len: "length (member_str (k, v)) + 1 \<le> Suc m" "length ?t + 1 \<le> m"
      using Cons.prems(4) n eq by auto
    have "parse_members m (acc @ [(k, v)]) (?t @ CHR ''}'' # r) = Some ((acc @ [(k, v)]) @ kvs, r)"
      using Cons.IH [of "acc @ [(k, v)]" m] Cons.prems Cons len(2) kv by simp
    then show ?thesis
      using parse_members_step [OF v len(1), of "CHR '','' # ?t @ CHR ''}'' # r" acc] n eq kv upd
      by simp
  qed
qed

lemma json_quote_length: "2 \<le> length (json_quote s)"
  by (simp add: json_quote_def)

lemma join_map_Cons: "\<exists>rest. join '','' (map f (x # xs)) = f x @ rest"
  by (cases xs) auto

lemma reads_back_array:
  assumes "\<And>x. x \<in> set xs \<Longrightarrow> reads_back x" and "\<And>x. x \<in> set xs \<Longrightarrow> json_ok x"
  shows "reads_back (JArr xs)"
  unfolding reads_back_def
proof (intro allI impI)
  fix n r
  assume n: "length (json_str (JArr xs)) \<le> n"
  show "parse_val n (json_str (JArr xs) @ r) = Some (JArr xs, r)"
  proof (cases xs)
    case Nil
    with n show ?thesis by (cases n) auto
  next
    case (Cons x ys)
    let ?t = "join '','' (map json_str xs)"
    obtain m where m: "n = Suc m" "length ?t + 1 \<le> m" using n by (cases n) auto
    obtain c cs where c: "json_str x = c # cs" "\<not> json_ws c" "c \<noteq> CHR '']''"
      using json_str_head assms(2) Cons by force
    then obtain rest where "?t = c # rest" using join_map_Cons [of json_str x ys] Cons by auto
    then show ?thesis
      using parse_elems_print [of xs m r] Cons assms(1) m c by simp
  qed
qed

lemma reads_back_object:
  assumes "\<And>kv. kv \<in> set kvs \<Longrightarrow> reads_back (snd kv)" and "json_ok (JObj kvs)"
  shows "reads_back (JObj kvs)"
  unfolding reads_back_def
proof (intro allI impI)
  fix n r
  assume n: "length (json_str (JObj kvs)) \<le> n"
  note flt = json_ok_no_undef [OF assms(2)]
  show "parse_val n (json_str (JObj kvs) @ r) = Some (JObj kvs, r)"
  proof (cases kvs)
    case Nil
    with n show ?thesis by (cases n) auto
  next
    case (Cons kv ys)
    let ?t = "join '','' (map member_str kvs)"
    obtain m where m: "n = Suc m" "length ?t + 1 \<le> m" using n flt by (cases n) auto
    obtain k v where kv: "kv = (k, v)" by (cases kv)
    obtain rest where "?t = CHR 0x22 # rest"
      using join_map_Cons [of member_str kv ys] json_quote_Cons [of k] Cons kv by auto
    then show ?thesis
      using parse_members_print [of kvs "[]" m r] Cons assms m flt by simp
  qed
qed

lemma parse_val_quote: "parse_val (Suc n) (json_quote s @ r) = Some (JStr s, r)"
  using json_quote_parse [of s r] json_quote_Cons [of s] by (auto simp del: parse_chars.simps)

lemma reads_backI:
  assumes "\<And>n r. delim_ok r \<Longrightarrow> parse_val (Suc n) (json_str v @ r) = Some (v, r)"
    and "json_str v \<noteq> []"
  shows "reads_back v"
  unfolding reads_back_def
proof (intro allI impI)
  fix n r
  assume "length (json_str v) \<le> n" and r: "delim_ok r"
  with assms(2) obtain m where "n = Suc m" by (cases n) auto
  with assms(1) [OF r] show "parse_val n (json_str v @ r) = Some (v, r)" by blast
qed

lemma json_ok_reads_back: "json_ok v \<Longrightarrow> reads_back v"
proof (induction v)
  case (JBool b)
  show ?case by (cases b) (simp_all add: reads_backI expect_def)
next
  case JNull
  show ?case by (simp add: reads_backI expect_def)
next
  case (JNum m)
  then obtain i where i: "m = Fin i" by (cases m) auto
  have "int_to_string i \<noteq> []" using int_to_string_head [of i] by auto
  then show ?case
    using i parse_val_int by (intro reads_backI) (simp_all del: parse_val.simps)
next
  case (JStr s)
  show ?case
    using parse_val_quote json_quote_Cons [of s]
    by (intro reads_backI) (auto simp del: parse_val.simps)
next
  case (JArr xs)
  then show ?case by (intro reads_back_array) auto
next
  case (JObj kvs)
  show ?case
  proof (rule reads_back_object)
    fix kv assume "kv \<in> set kvs"
    with JObj show "reads_back (snd kv)"
      by (cases kv) (fastforce simp: snds.simps)
  qed (rule JObj.prems)
qed simp

theorem json_parse_json_str: "json_ok v \<Longrightarrow> json_parse (json_str v) = Some v"
  using reads_backD [OF json_ok_reads_back, of v "Suc (length (json_str v))" "[]"]
  by (simp add: json_parse_def skip_ws_def del: parse_val.simps)

interpretation json: codec json_str json_parse json_ok
  by unfold_locales (rule json_parse_json_str)

section \<open>What the parser returns\<close>

lemma set_update_subset: "set (AList.update k v acc) \<subseteq> insert (k, v) (set acc)"
  by (induction acc) auto

lemma parse_json_ok:
  "(\<forall>s v r. parse_val n s = Some (v, r) \<longrightarrow> json_ok v)
   \<and> (\<forall>s vs r. parse_elems n s = Some (vs, r) \<longrightarrow> json_ok (JArr vs))
   \<and> (\<forall>acc s kvs r. parse_members n acc s = Some (kvs, r) \<longrightarrow> json_ok (JObj acc) \<longrightarrow> json_ok (JObj kvs))"
proof (induction n)
  case 0
  then show ?case by simp
next
  case (Suc n)
  then have val: "parse_val n s = Some (v, r) \<Longrightarrow> json_ok v"
    and elems: "parse_elems n s = Some (vs, r) \<Longrightarrow> json_ok (JArr vs)"
    and members: "parse_members n acc s = Some (kvs, r) \<Longrightarrow> json_ok (JObj acc) \<Longrightarrow> json_ok (JObj kvs)"
    for s v r vs acc kvs by blast+
  have upd: "json_ok (JObj (AList.update k v acc))" if "json_ok v" "json_ok (JObj acc)" for k v acc
    using that set_update_subset [of k v acc] by (fastforce simp: distinct_update)
  have nil: "json_ok (JObj [])" "json_ok (JArr [])" by simp_all
  show ?case
  proof (intro conjI allI impI)
    fix s v r assume "parse_val (Suc n) s = Some (v, r)"
    then show "json_ok v"
      by (auto simp del: json_ok.simps(4,5) split: list.splits if_splits
          intro: elems members nil)
  next
    fix s vs r assume "parse_elems (Suc n) s = Some (vs, r)"
    then show "json_ok (JArr vs)"
      by (auto split: list.splits if_splits option.splits) (fastforce dest: val elems)+
  next
    fix acc s kvs r assume "parse_members (Suc n) acc s = Some (kvs, r)" "json_ok (JObj acc)"
    then show "json_ok (JObj kvs)"
      by (auto simp del: json_ok.simps(5) parse_chars.simps split: list.splits if_splits option.splits)
         (blast intro: upd members dest: val)+
  qed
qed

lemma json_parse_ok: "json_parse s = Some v \<Longrightarrow> json_ok v"
  by (auto simp: json_parse_def simp del: parse_val.simps split: option.splits if_splits
      dest: conjunct1 [OF parse_json_ok, rule_format])

end
