(* ===== verification/JS_Numbers.thy ===== *)
theory JS_Numbers
  imports JS_Json
begin

text \<open>The conversions of values to numbers: \<open>Number\<close>, \<open>parseInt\<close> and comparison.\<close>

section \<open>Numbers read from JSON\<close>

text \<open>
  \<open>Number(v)\<close>: integer literals with an optional sign, hexadecimal literals, \<open>Infinity\<close>; every
  other string is \<open>NaN\<close>.
\<close>

definition unsigned_of_string :: "string \<Rightarrow> jsnum" where
  "unsigned_of_string s =
     (if s = ''Infinity'' then Inf True
      else if s \<noteq> [] \<and> (\<forall>c \<in> set s. is_digit c) then Fin (int (decimal_val s))
      else NaN)"

fun num_neg :: "jsnum \<Rightarrow> jsnum" where
  "num_neg NaN = NaN"
| "num_neg (Inf b) = Inf (\<not> b)"
| "num_neg (Fin n) = Fin (- n)"

definition hex_string_val :: "string \<Rightarrow> jsnum" where
  "hex_string_val s =
     (if s \<noteq> [] \<and> (\<forall>c \<in> set s. hex_val c \<noteq> None)
      then Fin (int (foldl (\<lambda>n c. 16 * n + the (hex_val c)) 0 s)) else NaN)"

definition number_of_string :: "string \<Rightarrow> jsnum" where
  "number_of_string raw =
     (let s = trim raw in
      if s = [] then Fin 0
      else if startsWith s ''-'' then num_neg (unsigned_of_string (tl s))
      else if startsWith s ''+'' then unsigned_of_string (tl s)
      else if startsWith s ''0x'' \<or> startsWith s ''0X'' then hex_string_val (drop 2 s)
      else unsigned_of_string s)"

fun to_number :: "jsval \<Rightarrow> jsnum" where
  "to_number JUndef = NaN"
| "to_number JNull = Fin 0"
| "to_number (JBool b) = Fin (if b then 1 else 0)"
| "to_number (JNum n) = n"
| "to_number (JStr s) = number_of_string s"
| "to_number (JArr xs) = number_of_string (to_string (JArr xs))"
| "to_number (JObj _) = NaN"

text \<open>\<open>parseInt(s, 10)\<close>: leading white space, a sign, then the longest run of digits.\<close>

definition parseInt10 :: "string \<Rightarrow> jsnum" where
  "parseInt10 raw =
     (let s = trim_start raw;
          neg = startsWith s ''-'';
          t = (if neg \<or> startsWith s ''+'' then tl s else s);
          ds = takeWhile is_digit t
      in if ds = [] then NaN else Fin ((if neg then -1 else 1) * int (decimal_val ds)))"

definition num_or_zero :: "jsnum \<Rightarrow> jsnum" where
  "num_or_zero n = (if truthy (JNum n) then n else Fin 0)"

fun num_less :: "jsnum \<Rightarrow> jsnum \<Rightarrow> bool" where
  "num_less (Fin a) (Fin b) = (a < b)"
| "num_less (Inf a) (Inf b) = (\<not> a \<and> b)"
| "num_less (Fin _) (Inf b) = b"
| "num_less (Inf a) (Fin _) = (\<not> a)"
| "num_less _ _ = False"

declare unsigned_of_string_def [js_eval] hex_string_val_def [js_eval] number_of_string_def [js_eval]
  parseInt10_def [js_eval] num_or_zero_def [js_eval]

end
