(* ===== verification/Web_Storage.thy ===== *)
theory Web_Storage
  imports JS_Json
begin

text \<open>
  \<open>localStorage\<close> and \<open>sessionStorage\<close>: string items under string keys. Reading or writing may
  throw (private mode, a full quota); the two flags say whether it does.
\<close>

record web_storage =
  items :: "string \<rightharpoonup> string"
  readable :: bool
  writable :: bool

definition getItem :: "web_storage \<Rightarrow> string \<Rightarrow> string option result" where
  "getItem w k = (if readable w then Inr (items w k) else Inl (DOMError ''SecurityError''))"

definition setItem :: "web_storage \<Rightarrow> string \<Rightarrow> string \<Rightarrow> web_storage result" where
  "setItem w k v =
     (if writable w then Inr (w\<lparr>items := (items w)(k \<mapsto> v)\<rparr>) else Inl (DOMError ''QuotaExceededError''))"

definition removeItem :: "web_storage \<Rightarrow> string \<Rightarrow> web_storage result" where
  "removeItem w k =
     (if readable w then Inr (w\<lparr>items := (items w)(k := None)\<rparr>) else Inl (DOMError ''SecurityError''))"

declare getItem_def [js_eval] setItem_def [js_eval] removeItem_def [js_eval]

text \<open>What a client of the storage relies on: an item written is the item read.\<close>

locale item_store =
  fixes get :: "'w \<Rightarrow> string \<Rightarrow> string option result"
    and set :: "'w \<Rightarrow> string \<Rightarrow> string \<Rightarrow> 'w result"
    and available :: "'w \<Rightarrow> bool"
  assumes get_set_same: "available w \<Longrightarrow> set w k v = Inr w' \<Longrightarrow> get w' k = Inr (Some v)"
    and get_set_other: "available w \<Longrightarrow> set w k v = Inr w' \<Longrightarrow> k' \<noteq> k \<Longrightarrow> get w' k' = get w k'"
    and set_available: "available w \<Longrightarrow> \<exists>w'. set w k v = Inr w' \<and> available w'"
begin

lemma set_get_frame:
  "available w \<Longrightarrow> set w k v = Inr w' \<Longrightarrow> get w' k' = (if k' = k then Inr (Some v) else get w k')"
  by (simp add: get_set_same get_set_other)

end

definition available :: "web_storage \<Rightarrow> bool" where
  "available w = (readable w \<and> writable w)"

interpretation web: item_store getItem setItem available
  by unfold_locales (auto simp: getItem_def setItem_def available_def)

end
