(* ===== verification/Filter_Ledger.thy ===== *)
theory Filter_Ledger
  imports Web_Storage
begin

text \<open>
  \<^verbatim>\<open>static/mail/mail-filter-ledger.js\<close>: the record, kept as JSON text in \<open>localStorage\<close>, of which
  filter actions were already applied to which message. Each operation reads the text, works on
  the parsed object and writes it back. The abstract ledger is the rules hash with a partial map
  from message ids to the entry recorded for them; the lemmas show that the operations implement
  it, garbage in the storage included.
\<close>

section \<open>Reading and writing the store\<close>

definition STORAGE_KEY :: string where
  "STORAGE_KEY = ''elvish_mail_filter_ledger_v1''"

definition safeParse :: "string \<Rightarrow> jsval" where
  "safeParse raw = (case json_parse raw of Some v \<Rightarrow> v | None \<Rightarrow> JNull)"

text \<open>
  The parsed object with its two fields: \<open>st_obj\<close> is the object as parsed, \<open>rulesHash\<close> and
  \<open>entries\<close> its fields after the type checks of \<open>readStore\<close>.
\<close>

record ledger_store =
  st_obj :: jsval
  rulesHash :: string
  entries :: jsval

definition empty_store :: ledger_store where
  "empty_store =
     \<lparr>st_obj = JObj [(''rulesHash'', JStr []), (''entries'', JObj [])], rulesHash = [], entries = JObj []\<rparr>"

definition readStore :: "web_storage \<Rightarrow> ledger_store" where
  "readStore w =
     (case getItem w STORAGE_KEY of
        Inl _ \<Rightarrow> empty_store
      | Inr raw \<Rightarrow>
          (let p = (case raw of Some r \<Rightarrow> if r \<noteq> [] then safeParse r else JNull | None \<Rightarrow> JNull) in
           if \<not> truthy p \<or> \<not> typeof_object p then empty_store
           else
             \<lparr>st_obj = p,
              rulesHash = (case getp p ''rulesHash'' of JStr h \<Rightarrow> h | _ \<Rightarrow> []),
              entries =
                (let e = getp p ''entries'' in
                 if \<not> truthy e \<or> \<not> typeof_object e then JObj [] else e)\<rparr>))"

definition store_value :: "ledger_store \<Rightarrow> jsval" where
  "store_value st = setp (setp (st_obj st) ''rulesHash'' (JStr (rulesHash st))) ''entries'' (entries st)"

definition writeStore :: "web_storage \<Rightarrow> ledger_store \<Rightarrow> web_storage" where
  "writeStore w st =
     (case setItem w STORAGE_KEY (json_str (store_value st)) of Inl _ \<Rightarrow> w | Inr w' \<Rightarrow> w')"

definition ensureRulesHash :: "web_storage \<Rightarrow> ledger_store \<Rightarrow> string \<Rightarrow> web_storage \<times> ledger_store" where
  "ensureRulesHash w st h =
     (if rulesHash st \<noteq> h then
        (let st' = st\<lparr>rulesHash := h, entries := JObj []\<rparr> in (writeStore w st', st'))
      else (w, st))"

section \<open>The operations\<close>

definition syncRulesHash :: "web_storage \<Rightarrow> string \<Rightarrow> web_storage" where
  "syncRulesHash w h = fst (ensureRulesHash w (readStore w) h)"

definition alreadyApplied :: "web_storage \<Rightarrow> string \<Rightarrow> jsval \<Rightarrow> string \<Rightarrow> string \<Rightarrow> bool" where
  "alreadyApplied w messageId ruleId fp h =
     (if messageId = [] \<or> \<not> truthy ruleId \<or> h = [] then False
      else
        (let st = readStore w in
         if rulesHash st \<noteq> h then False
         else
           (let e = getp (entries st) messageId in
            if \<not> truthy e then False
            else strict_eq (getp e ''ruleId'') ruleId
                 \<and> strict_eq (getp e ''actionFingerprint'') (JStr fp)
                 \<and> strict_eq (getp e ''rulesHash'') (JStr h))))"

definition ledger_entry :: "jsval \<Rightarrow> string \<Rightarrow> string \<Rightarrow> jsval" where
  "ledger_entry ruleId fp h =
     JObj [(''ruleId'', ruleId), (''actionFingerprint'', JStr fp), (''rulesHash'', JStr h)]"

definition record_applied :: "web_storage \<Rightarrow> string \<Rightarrow> jsval \<Rightarrow> string \<Rightarrow> string \<Rightarrow> web_storage" where
  "record_applied w messageId ruleId fp h =
     (if messageId = [] \<or> \<not> truthy ruleId \<or> h = [] then w
      else
        (let (w1, st) = ensureRulesHash w (readStore w) h in
         writeStore w1 (st\<lparr>entries := setp (entries st) messageId (ledger_entry ruleId fp h)\<rparr>)))"

text \<open>\<open>messageIdsSet\<close> is the plain object the engine builds, given by its own properties.\<close>

definition pruneMissing :: "web_storage \<Rightarrow> (string \<times> jsval) list \<Rightarrow> web_storage" where
  "pruneMissing w messageIdsSet =
     (let st = readStore w;
          next = foldl (\<lambda>o' (k, v). if lookup_truthy messageIdsSet k then setp o' k v else o')
                   (JObj []) (own_props (entries st))
      in writeStore w (st\<lparr>entries := next\<rparr>))"

declare STORAGE_KEY_def [js_eval] safeParse_def [js_eval] empty_store_def [js_eval]
  readStore_def [js_eval] store_value_def [js_eval] writeStore_def [js_eval]
  ensureRulesHash_def [js_eval] syncRulesHash_def [js_eval] alreadyApplied_def [js_eval]
  ledger_entry_def [js_eval] record_applied_def [js_eval] pruneMissing_def [js_eval]

section \<open>The invariant\<close>

text \<open>
  The storage can be used, and what is stored there is no array and holds no array of entries
  (a JSON array would lose the fields the ledger sets on it). Any other text is accepted.
\<close>

fun is_obj :: "jsval \<Rightarrow> bool" where
  "is_obj (JObj _) = True"
| "is_obj _ = False"

definition ledger_ok :: "web_storage \<Rightarrow> bool" where
  "ledger_ok w = (available w \<and> is_obj (st_obj (readStore w)) \<and> is_obj (entries (readStore w)))"

definition store_ok :: "ledger_store \<Rightarrow> bool" where
  "store_ok st = (is_obj (st_obj st) \<and> is_obj (entries st) \<and> json_ok (st_obj st) \<and> json_ok (entries st))"

lemma is_obj_cases: "is_obj v \<Longrightarrow> (\<And>kvs. v = JObj kvs \<Longrightarrow> P) \<Longrightarrow> P"
  by (cases v) auto

lemma json_ok_getp: "json_ok (JObj kvs) \<Longrightarrow> getp (JObj kvs) k \<noteq> JUndef \<Longrightarrow> json_ok (getp (JObj kvs) k)"
  by (auto split: option.splits dest!: map_of_SomeD)

lemma json_ok_setp: "json_ok (JObj kvs) \<Longrightarrow> json_ok v \<Longrightarrow> json_ok (setp (JObj kvs) k v)"
  using set_update_subset [of k v kvs] by (fastforce simp: distinct_update)

lemma safeParse_ok: "safeParse r = v \<Longrightarrow> json_ok v"
  by (auto simp: safeParse_def json_parse_ok split: option.splits)

lemma readStore_ok: "ledger_ok w \<Longrightarrow> store_ok (readStore w)"
proof -
  assume ok: "ledger_ok w"
  have e: "store_ok empty_store" by (simp add: store_ok_def empty_store_def)
  show ?thesis
  proof (cases "readStore w = empty_store")
    case True
    with e show ?thesis by simp
  next
    case False
    then obtain r where r: "items w STORAGE_KEY = Some r" "r \<noteq> []"
        "truthy (safeParse r)" "typeof_object (safeParse r)" "readable w"
      by (auto simp: readStore_def getItem_def Let_def split: option.splits if_splits)
    then have st: "st_obj (readStore w) = safeParse r"
      and en: "entries (readStore w) =
        (let e = getp (safeParse r) ''entries'' in if \<not> truthy e \<or> \<not> typeof_object e then JObj [] else e)"
      by (simp_all add: readStore_def getItem_def Let_def)
    from ok st obtain kvs where kvs: "safeParse r = JObj kvs"
      by (auto simp: ledger_ok_def elim: is_obj_cases)
    have kok: "json_ok (JObj kvs)" using safeParse_ok [OF kvs] .
    let ?e = "getp (JObj kvs) ''entries''"
    have "json_ok ?e" if "truthy ?e"
      using that by (intro json_ok_getp [OF kok]) auto
    then have "json_ok (entries (readStore w))"
      by (simp add: en kvs Let_def del: getp.simps)
    with ok kok show ?thesis
      by (simp add: store_ok_def ledger_ok_def st kvs del: json_ok.simps)
  qed
qed

lemma store_value_obj:
  assumes "store_ok st"
  obtains kvs where "store_value st = JObj kvs" and "json_ok (JObj kvs)"
    and "getp (JObj kvs) ''rulesHash'' = JStr (rulesHash st)"
    and "getp (JObj kvs) ''entries'' = entries st"
proof -
  from assms obtain kvs where o: "st_obj st = JObj kvs"
    by (auto simp: store_ok_def elim: is_obj_cases)
  let ?o1 = "AList.update ''rulesHash'' (JStr (rulesHash st)) kvs"
  have v: "store_value st = JObj (AList.update ''entries'' (entries st) ?o1)"
    by (simp add: store_value_def o)
  have "json_ok (JObj ?o1)"
    using json_ok_setp [of kvs "JStr (rulesHash st)" "''rulesHash''"] assms o by (simp add: store_ok_def)
  then have "json_ok (JObj (AList.update ''entries'' (entries st) ?o1))"
    using json_ok_setp [of ?o1 "entries st" "''entries''"] assms by (simp add: store_ok_def)
  moreover have "getp (JObj (AList.update ''entries'' (entries st) ?o1)) ''rulesHash'' = JStr (rulesHash st)"
    "getp (JObj (AList.update ''entries'' (entries st) ?o1)) ''entries'' = entries st"
    by (simp_all add: update_conv')
  ultimately show thesis
    using v by (intro that) simp_all
qed

lemma readStore_writeStore:
  assumes "available w" and "store_ok st"
  shows "available (writeStore w st)"
    and "rulesHash (readStore (writeStore w st)) = rulesHash st"
    and "entries (readStore (writeStore w st)) = entries st"
    and "ledger_ok (writeStore w st)"
proof -
  obtain w' where w': "setItem w STORAGE_KEY (json_str (store_value st)) = Inr w'" "available w'"
    using web.set_available [OF assms(1)] by blast
  have get: "getItem w' STORAGE_KEY = Inr (Some (json_str (store_value st)))"
    using web.get_set_same [OF assms(1) w'(1)] .
  obtain kvs where kvs: "store_value st = JObj kvs" "json_ok (JObj kvs)"
      "getp (JObj kvs) ''rulesHash'' = JStr (rulesHash st)" "getp (JObj kvs) ''entries'' = entries st"
    using store_value_obj [OF assms(2)] by blast
  have nonempty: "json_str (store_value st) \<noteq> []" by (simp add: kvs(1))
  have parse: "safeParse (json_str (store_value st)) = JObj kvs"
    using json.dec_enc [OF kvs(2)] kvs(1) by (simp add: safeParse_def del: json_str.simps)
  obtain es where es: "entries st = JObj es"
    using assms(2) by (auto simp: store_ok_def elim: is_obj_cases)
  have rd: "readStore w' = \<lparr>st_obj = JObj kvs, rulesHash = rulesHash st, entries = entries st\<rparr>"
    using get nonempty parse kvs(3,4) es by (simp add: readStore_def Let_def del: getp.simps json_str.simps)
  have eq: "writeStore w st = w'" by (simp add: writeStore_def w'(1))
  show "available (writeStore w st)" by (simp add: eq w'(2))
  show "rulesHash (readStore (writeStore w st)) = rulesHash st"
    "entries (readStore (writeStore w st)) = entries st" by (simp_all add: eq rd)
  show "ledger_ok (writeStore w st)" by (simp add: ledger_ok_def eq rd w'(2) es)
qed

section \<open>The abstract ledger\<close>

type_synonym abs_ledger = "string \<times> (string \<rightharpoonup> jsval)"

definition ledger_abs :: "web_storage \<Rightarrow> abs_ledger" where
  "ledger_abs w =
     (let st = readStore w in
      (rulesHash st, \<lambda>m. let e = getp (entries st) m in if truthy e then Some e else None))"

definition abs_sync :: "string \<Rightarrow> abs_ledger \<Rightarrow> abs_ledger" where
  "abs_sync h l = (if fst l = h then l else (h, Map.empty))"

definition abs_record :: "string \<Rightarrow> jsval \<Rightarrow> string \<Rightarrow> string \<Rightarrow> abs_ledger \<Rightarrow> abs_ledger" where
  "abs_record m r fp h l = (h, (snd (abs_sync h l))(m \<mapsto> ledger_entry r fp h))"

definition abs_prune :: "string set \<Rightarrow> abs_ledger \<Rightarrow> abs_ledger" where
  "abs_prune keep l = (fst l, snd l |` keep)"

text \<open>A message id, a rule id and a hash that \<open>record\<close> and \<open>alreadyApplied\<close> do not turn away.\<close>

definition recordable :: "string \<Rightarrow> jsval \<Rightarrow> string \<Rightarrow> bool" where
  "recordable m r h = (m \<noteq> [] \<and> m \<noteq> ''__proto__'' \<and> truthy r \<and> strict_eq r r \<and> h \<noteq> [])"

lemma strict_eq_self_json_ok: "truthy r \<Longrightarrow> strict_eq r r \<Longrightarrow> json_ok r \<or> (\<exists>b. r = JNum (Inf b))"
  by (cases r; auto) (metis json_ok.simps jsnum.exhaust)

lemma ledger_entry_ok: "json_ok r \<Longrightarrow> json_ok (ledger_entry r fp h)"
  by (simp add: ledger_entry_def)

lemma ensureRulesHash_refines:
  assumes "ledger_ok w" and "ensureRulesHash w (readStore w) h = (w', st)"
  shows "available w'" and "store_ok st" and "ledger_ok w'" and "rulesHash st = h"
    and "ledger_abs w' = abs_sync h (ledger_abs w)"
    and "rulesHash (readStore w') = h" and "entries (readStore w') = entries st"
proof -
  let ?s = "(readStore w)\<lparr>rulesHash := h, entries := JObj []\<rparr>"
  have rd: "store_ok (readStore w)" and av: "available w"
    using assms(1) readStore_ok by (auto simp: ledger_ok_def)
  have s: "store_ok ?s" using rd by (simp add: store_ok_def)
  note wr = readStore_writeStore [OF av s]
  have "available w' \<and> store_ok st \<and> ledger_ok w' \<and> rulesHash st = h
    \<and> ledger_abs w' = abs_sync h (ledger_abs w)
    \<and> rulesHash (readStore w') = h \<and> entries (readStore w') = entries st"
  proof (cases "rulesHash (readStore w) = h")
    case True
    with assms(2) have eq: "w' = w" "st = readStore w"
      by (auto simp: ensureRulesHash_def)
    from True assms(1) rd av show ?thesis
      by (simp add: eq ledger_abs_def abs_sync_def Let_def)
  next
    case False
    with assms(2) have eq: "w' = writeStore w ?s" "st = ?s"
      by (auto simp: ensureRulesHash_def Let_def)
    from False wr s show ?thesis
      by (simp add: eq ledger_abs_def abs_sync_def Let_def)
  qed
  then show "available w'" "store_ok st" "ledger_ok w'" "rulesHash st = h"
    "ledger_abs w' = abs_sync h (ledger_abs w)"
    "rulesHash (readStore w') = h" "entries (readStore w') = entries st" by simp_all
qed

lemma syncRulesHash_refines:
  assumes "ledger_ok w"
  shows "ledger_ok (syncRulesHash w h)" and "ledger_abs (syncRulesHash w h) = abs_sync h (ledger_abs w)"
  using ensureRulesHash_refines [OF assms prod.collapse [symmetric], of h]
  by (simp_all add: syncRulesHash_def)

lemma record_refines:
  assumes "ledger_ok w" and "recordable m r h" and "json_ok r"
  shows "ledger_ok (record_applied w m r fp h)"
    and "ledger_abs (record_applied w m r fp h) = abs_record m r fp h (ledger_abs w)"
proof -
  obtain w1 st where e: "ensureRulesHash w (readStore w) h = (w1, st)" by fastforce
  note en = ensureRulesHash_refines [OF assms(1) e]
  let ?s = "st\<lparr>entries := setp (entries st) m (ledger_entry r fp h)\<rparr>"
  obtain es where es: "entries st = JObj es"
    using en(2) by (auto simp: store_ok_def elim: is_obj_cases)
  have m: "m \<noteq> ''__proto__''" "m \<noteq> []" "truthy r" "h \<noteq> []" using assms(2) by (auto simp: recordable_def)
  have "json_ok (setp (JObj es) m (ledger_entry r fp h))"
    using en(2) es assms(3) by (intro json_ok_setp) (auto simp: store_ok_def ledger_entry_ok)
  then have s: "store_ok ?s"
    using en(2) m(1) by (simp add: store_ok_def es del: json_ok.simps)
  have eq: "record_applied w m r fp h = writeStore w1 ?s"
    using m by (simp add: record_applied_def e)
  note wr = readStore_writeStore [OF en(1) s]
  show "ledger_ok (record_applied w m r fp h)" by (simp add: eq wr(4))
  have "ledger_abs (writeStore w1 ?s) = (h, (snd (ledger_abs w1))(m \<mapsto> ledger_entry r fp h))"
    using wr(2,3) en(4,6,7) m(1)
    by (auto simp: ledger_abs_def Let_def es fun_eq_iff update_conv' ledger_entry_def)
  then show "ledger_abs (record_applied w m r fp h) = abs_record m r fp h (ledger_abs w)"
    by (simp add: eq abs_record_def en(5))
qed

lemma prune_loop:
  assumes "distinct (map fst (acc @ kvs))"
  shows "foldl (\<lambda>o' (k, v). if P k then setp o' k v else o') (JObj acc) kvs =
    JObj (acc @ AList.restrict {k. P k \<and> k \<noteq> ''__proto__''} kvs)"
  using assms
proof (induction kvs arbitrary: acc)
  case Nil
  then show ?case by simp
next
  case (Cons kv kvs)
  obtain k v where kv: "kv = (k, v)" by (cases kv)
  have upd: "AList.update k v acc = acc @ [(k, v)]"
    using Cons.prems kv by (intro update_fresh) auto
  show ?case
    using Cons.prems Cons.IH [of acc] Cons.IH [of "acc @ [(k, v)]"] kv upd by (auto simp: AList.restrict_eq)
qed

lemma pruneMissing_refines:
  assumes "ledger_ok w"
  shows "ledger_ok (pruneMissing w ids)"
    and "ledger_abs (pruneMissing w ids) =
      abs_prune {k. lookup_truthy ids k \<and> k \<noteq> ''__proto__''} (ledger_abs w)"
proof -
  let ?K = "{k. lookup_truthy ids k \<and> k \<noteq> ''__proto__''}"
  have rd: "store_ok (readStore w)" and av: "available w"
    using assms readStore_ok by (auto simp: ledger_ok_def)
  obtain es where es: "entries (readStore w) = JObj es" "json_ok (JObj es)"
    using rd by (auto simp: store_ok_def elim: is_obj_cases)
  let ?s = "(readStore w)\<lparr>entries := JObj (AList.restrict ?K es)\<rparr>"
  have eq: "pruneMissing w ids = writeStore w ?s"
    using es prune_loop [of "[]" es "lookup_truthy ids"]
    by (simp add: pruneMissing_def Let_def)
  have "json_ok (JObj (AList.restrict ?K es))"
    using es(2) by (auto simp: AList.restrict_eq distinct_map_filter)
  then have s: "store_ok ?s" using rd by (simp add: store_ok_def)
  note wr = readStore_writeStore [OF av s]
  show "ledger_ok (pruneMissing w ids)" by (simp add: eq wr(4))
  show "ledger_abs (pruneMissing w ids) = abs_prune ?K (ledger_abs w)"
    using wr(2,3)
    by (auto simp: eq ledger_abs_def abs_prune_def Let_def es(1) restr_conv' fun_eq_iff restrict_map_def)
qed

lemma alreadyApplied_abs:
  assumes "recordable m r h"
  shows "alreadyApplied w m r fp h \<longleftrightarrow>
    fst (ledger_abs w) = h \<and>
    (\<exists>e. snd (ledger_abs w) m = Some e \<and> strict_eq (getp e ''ruleId'') r
       \<and> strict_eq (getp e ''actionFingerprint'') (JStr fp) \<and> strict_eq (getp e ''rulesHash'') (JStr h))"
  using assms by (auto simp: alreadyApplied_def ledger_abs_def recordable_def Let_def)

section \<open>The interface of the filter engine\<close>

text \<open>
  What the filter pass relies on: a pair recorded under a rules hash is found under that hash,
  records of other messages do not disturb it, and a new hash forgets everything.
\<close>

locale applied_ledger =
  fixes sync :: "'w \<Rightarrow> string \<Rightarrow> 'w"
    and applied :: "'w \<Rightarrow> string \<Rightarrow> jsval \<Rightarrow> string \<Rightarrow> string \<Rightarrow> bool"
    and rec :: "'w \<Rightarrow> string \<Rightarrow> jsval \<Rightarrow> string \<Rightarrow> string \<Rightarrow> 'w"
    and good :: "'w \<Rightarrow> bool"
    and valid :: "string \<Rightarrow> jsval \<Rightarrow> string \<Rightarrow> bool"
  assumes good_sync: "good w \<Longrightarrow> good (sync w h)"
    and good_rec: "good w \<Longrightarrow> valid m r h \<Longrightarrow> good (rec w m r fp h)"
    and applied_rec: "good w \<Longrightarrow> valid m r h \<Longrightarrow> applied (rec w m r fp h) m r fp h"
    and applied_rec_other:
      "good w \<Longrightarrow> valid m r h \<Longrightarrow> valid m' r' h \<Longrightarrow> m' \<noteq> m \<Longrightarrow>
       applied (rec w m r fp h) m' r' fp' h = applied w m' r' fp' h"
    and applied_sync:
      "good w \<Longrightarrow> valid m r h \<Longrightarrow> applied (sync w h') m r fp h = (h = h' \<and> applied w m r fp h)"
begin

text \<open>After any sequence of records for distinct messages, each of them is found.\<close>

lemma applied_records:
  assumes "good w" and "\<forall>(m, r, fp) \<in> set ps. valid m r h" and "distinct (map fst ps)"
    and "(m, r, fp) \<in> set ps"
  shows "applied (fold (\<lambda>(m, r, fp) w. rec w m r fp h) ps w) m r fp h"
proof -
  let ?run = "\<lambda>ps w. fold (\<lambda>(m, r, fp) w. rec w m r fp h) ps w"
  have keep: "good w \<Longrightarrow> \<forall>(m, r, fp) \<in> set ps. valid m r h \<Longrightarrow> valid m r h \<Longrightarrow> m \<notin> fst ` set ps \<Longrightarrow>
      applied (?run ps w) m r fp h = applied w m r fp h" for ps w m r fp
  proof (induction ps arbitrary: w)
    case (Cons p ps)
    obtain m' r' fp' where "p = (m', r', fp')" by (cases p)
    with Cons show ?case by (simp add: good_rec applied_rec_other)
  qed simp
  show ?thesis
    using assms
  proof (induction ps arbitrary: w)
    case (Cons p ps)
    obtain m' r' fp' where p: "p = (m', r', fp')" by (cases p)
    have good: "good (rec w m' r' fp' h)" using Cons.prems p by (intro good_rec) auto
    show ?case
    proof (cases "(m, r, fp) = p")
      case True
      with Cons.prems p good show ?thesis by (simp add: keep applied_rec)
    next
      case False
      with Cons.prems Cons.IH [OF good] p show ?thesis by auto
    qed
  qed simp
qed

text \<open>Synchronising twice with the same rules keeps what was recorded in between.\<close>

lemma sync_keeps:
  "good w \<Longrightarrow> valid m r h \<Longrightarrow> applied (sync (rec w m r fp h) h) m r fp h"
  by (simp add: applied_sync good_rec applied_rec)

end

definition ledger_key :: "string \<Rightarrow> jsval \<Rightarrow> string \<Rightarrow> bool" where
  "ledger_key m r h = (recordable m r h \<and> json_ok r)"

lemma entry_matches:
  assumes "ledger_key m r h"
  shows "strict_eq (getp (ledger_entry r fp h) ''ruleId'') r
    \<and> strict_eq (getp (ledger_entry r fp h) ''actionFingerprint'') (JStr fp)
    \<and> strict_eq (getp (ledger_entry r fp h) ''rulesHash'') (JStr h)"
  using assms by (simp add: ledger_key_def recordable_def ledger_entry_def)

interpretation ledger: applied_ledger syncRulesHash alreadyApplied record_applied ledger_ok ledger_key
proof (unfold_locales, goal_cases)
  case (1 w h)
  then show ?case by (rule syncRulesHash_refines)
next
  case (2 w m r h fp)
  then show ?case by (intro record_refines) (simp_all add: ledger_key_def)
next
  case (3 w m r h fp)
  then show ?case
    using entry_matches [OF 3(2)] record_refines(2) [of w m r h fp]
    by (simp add: ledger_key_def alreadyApplied_abs abs_record_def del: getp.simps)
next
  case (4 w m r h m' r' fp fp')
  then show ?case
    using record_refines(2) [of w m r h fp]
    by (auto simp: ledger_key_def alreadyApplied_abs abs_record_def abs_sync_def simp del: getp.simps)
next
  case (5 w m r h h' fp)
  then show ?case
    using syncRulesHash_refines(2) [of w h']
    by (auto simp: ledger_key_def alreadyApplied_abs abs_sync_def simp del: getp.simps)
qed

section \<open>Properties\<close>

text \<open>
  What \<open>record\<close> writes, \<open>alreadyApplied\<close> finds, through the JSON text in \<open>localStorage\<close>: for
  a usable storage, whatever text it held before (an array excepted), a recorded message, rule,
  action fingerprint and rules hash is reported as applied, and the storage stays usable.
\<close>

theorem record_then_applied:
  assumes "ledger_ok w" and "recordable m r h" and "json_ok r"
  shows "alreadyApplied (record_applied w m r fp h) m r fp h \<and> ledger_ok (record_applied w m r fp h)"
  using assms by (simp add: ledger.applied_rec ledger.good_rec ledger_key_def)

definition demo_storage :: web_storage where
  "demo_storage =
     \<lparr>items = [STORAGE_KEY \<mapsto> ''{not json''], readable = True, writable = True\<rparr>"

theorem record_then_applied_witness:
  "alreadyApplied (record_applied demo_storage ''m1'' (JStr ''rule-7'') ''[]'' ''r1f'') ''m1'' (JStr ''rule-7'') ''[]'' ''r1f''
   \<and> ledger_ok (record_applied demo_storage ''m1'' (JStr ''rule-7'') ''[]'' ''r1f'')"
proof (rule record_then_applied)
  have "json_parse ''{not json'' = None" by code_simp
  then show "ledger_ok demo_storage"
    by (simp add: ledger_ok_def demo_storage_def available_def readStore_def getItem_def
        safeParse_def empty_store_def Let_def)
  show "recordable ''m1'' (JStr ''rule-7'') ''r1f''" by (simp add: recordable_def)
  show "json_ok (JStr ''rule-7'')" by simp
qed

text \<open>
  C12. The ledger operations implement the abstract ledger: reading a storage as a rules hash with a
  map from message ids to entries, \<open>record\<close> updates that map at one id (after forgetting the
  entries of another rules hash), and \<open>pruneMissing\<close> restricts it to the ids of the inbox.
\<close>

theorem ledger_refinement:
  assumes "ledger_ok w" and "recordable m r h" and "json_ok r"
  shows "ledger_abs (syncRulesHash w h) = abs_sync h (ledger_abs w)
    \<and> ledger_abs (record_applied w m r fp h) = abs_record m r fp h (ledger_abs w)
    \<and> ledger_abs (pruneMissing w ids) =
        abs_prune {k. lookup_truthy ids k \<and> k \<noteq> ''__proto__''} (ledger_abs w)"
  using assms by (simp add: syncRulesHash_refines record_refines pruneMissing_refines)

theorem ledger_refinement_witness:
  "ledger_abs (syncRulesHash demo_storage ''r1f'') = abs_sync ''r1f'' (ledger_abs demo_storage)
   \<and> ledger_abs (record_applied demo_storage ''m1'' (JStr ''rule-7'') ''[]'' ''r1f'') =
       abs_record ''m1'' (JStr ''rule-7'') ''[]'' ''r1f'' (ledger_abs demo_storage)
   \<and> ledger_abs (pruneMissing demo_storage [(''m1'', JBool True)]) =
       abs_prune {k. lookup_truthy [(''m1'', JBool True)] k \<and> k \<noteq> ''__proto__''} (ledger_abs demo_storage)"
proof (rule ledger_refinement)
  have "json_parse ''{not json'' = None" by code_simp
  then show "ledger_ok demo_storage"
    by (simp add: ledger_ok_def demo_storage_def available_def readStore_def getItem_def
        safeParse_def empty_store_def Let_def)
  show "recordable ''m1'' (JStr ''rule-7'') ''r1f''" by (simp add: recordable_def)
  show "json_ok (JStr ''rule-7'')" by simp
qed

end
