(* ===== verification/Stable_Sort.thy ===== *)
theory Stable_Sort
  imports Main "HOL-Library.Multiset"
begin

text \<open>
  \<open>Array.prototype.sort\<close> with a comparison function: ECMAScript fixes its result for a consistent
  comparison, as the stable sorted permutation. It is modelled by insertion, with
  \<open>le a b\<close> for \<open>compare(a, b) <= 0\<close>; the locale states when that is the result the language
  promises, and proves the promise.
\<close>

fun insert_by :: "('a \<Rightarrow> 'a \<Rightarrow> bool) \<Rightarrow> 'a \<Rightarrow> 'a list \<Rightarrow> 'a list" where
  "insert_by le x [] = [x]"
| "insert_by le x (y # ys) = (if le x y then x # y # ys else y # insert_by le x ys)"

definition sort_by :: "('a \<Rightarrow> 'a \<Rightarrow> bool) \<Rightarrow> 'a list \<Rightarrow> 'a list" where
  "sort_by le xs = foldr (insert_by le) xs []"

lemma sort_by_simps [simp]:
  "sort_by le [] = []"
  "sort_by le (x # xs) = insert_by le x (sort_by le xs)"
  by (simp_all add: sort_by_def)

lemma mset_insert_by [simp]: "mset (insert_by le x ys) = add_mset x (mset ys)"
  by (induction ys) auto

lemma set_insert_by: "set (insert_by le x ys) = insert x (set ys)"
  by (induction ys) auto

lemma mset_sort_by [simp]: "mset (sort_by le xs) = mset xs"
  by (induction xs) auto

lemma set_sort_by [simp]: "set (sort_by le xs) = set xs"
  using mset_eq_setD [OF mset_sort_by] .

lemma length_sort_by [simp]: "length (sort_by le xs) = length xs"
  using mset_eq_length [OF mset_sort_by] .

locale total_preorder =
  fixes le :: "'a \<Rightarrow> 'a \<Rightarrow> bool"
  assumes total: "le a b \<or> le b a"
    and trans: "le a b \<Longrightarrow> le b c \<Longrightarrow> le a c"
begin

lemma refl: "le a a"
  using total by blast

lemma sorted_insert_by: "sorted_wrt le ys \<Longrightarrow> sorted_wrt le (insert_by le x ys)"
proof (induction ys)
  case (Cons y ys)
  show ?case
  proof (cases "le x y")
    case True
    with Cons.prems trans show ?thesis by auto
  next
    case False
    then have yx: "le y x" using total by blast
    with False Cons show ?thesis by (auto simp: set_insert_by)
  qed
qed simp

lemma sorted_sort_by: "sorted_wrt le (sort_by le xs)"
  by (induction xs) (simp_all add: sorted_insert_by)

text \<open>Stability: the elements equivalent to any \<open>z\<close> keep their order.\<close>

lemma filter_insert_by:
  assumes "sorted_wrt le ys"
  shows "filter (\<lambda>y. le y z \<and> le z y) (insert_by le x ys) =
    filter (\<lambda>y. le y z \<and> le z y) [x] @ filter (\<lambda>y. le y z \<and> le z y) ys"
  using assms
proof (induction ys)
  case (Cons y ys)
  show ?case
  proof (cases "le x y")
    case False
    then have "le y x" using total by blast
    with False have "\<not> (le x z \<and> le z x \<and> le y z \<and> le z y)"
      using trans by blast
    with False Cons show ?thesis by auto
  qed simp
qed simp

lemma stable_sort_by:
  "filter (\<lambda>y. le y z \<and> le z y) (sort_by le xs) = filter (\<lambda>y. le y z \<and> le z y) xs"
  by (induction xs) (simp_all add: filter_insert_by sorted_sort_by)

end

end
