(* ===== verification/Filter_Engine.thy ===== *)
theory Filter_Engine
  imports JS_Numbers Filter_Ledger Stable_Sort "HOL-Library.Char_ord" "HOL-Library.List_Lexorder"
begin

text \<open>
  \<^verbatim>\<open>static/mail/mail-filter-engine.js\<close>, the pure part: normalising the rules the API returns,
  hashing them, building the context of a message and matching conditions and rules against it.
  The comparison of \<open>created_at\<close> strings uses \<open>String.prototype.localeCompare\<close>, which depends on
  the browser's locale: it is a parameter \<open>loc\<close>, and the ordering lemmas assume of it what
  ECMAScript requires, that it is a consistent comparison.
\<close>

unbundle bit_operations_syntax

section \<open>Constants\<close>

definition RULES_CAP :: nat where
  "RULES_CAP = 50"

definition SUPPORTED_CONDITION_TYPES :: "(string \<times> jsval) list" where
  "SUPPORTED_CONDITION_TYPES =
     [(''sender'', JBool True), (''subject'', JBool True), (''recipient'', JBool True),
      (''body'', JBool True), (''attachment'', JBool True), (''size'', JBool True),
      (''header'', JBool False)]"

definition SUPPORTED_ACTION_TYPES :: "(string \<times> jsval) list" where
  "SUPPORTED_ACTION_TYPES =
     [(''move'', JBool True), (''mark_read'', JBool True), (''delete'', JBool True),
      (''mark_important'', JBool False), (''label'', JBool False), (''forward'', JBool False)]"

declare RULES_CAP_def [js_eval] SUPPORTED_CONDITION_TYPES_def [js_eval]
  SUPPORTED_ACTION_TYPES_def [js_eval]

section \<open>Rules\<close>

definition norm :: "jsval \<Rightarrow> string" where
  "norm v = toLowerCase (trim (str_nullish v))"

text \<open>The hash: a 32-bit \<open>h = (h * 33) ^ c\<close> over the JSON text of the slimmed rules.\<close>

definition slim_rule :: "jsval \<Rightarrow> jsval" where
  "slim_rule r =
     JObj [(''id'', getp r ''id''),
           (''enabled'', JBool (truthy (getp r ''enabled''))),
           (''priority'', JNum (num_or_zero (to_number (getp r ''priority'')))),
           (''conditions'', js_or (getp r ''conditions'') (JArr [])),
           (''actions'', js_or (getp r ''actions'') (JArr []))]"

definition hash_step :: "32 word \<Rightarrow> char \<Rightarrow> 32 word" where
  "hash_step h c = (h * 33) XOR of_nat (code_unit c)"

definition stableRulesHash :: "jsval list \<Rightarrow> string" where
  "stableRulesHash rules =
     (if \<exists>r \<in> set rules. nullish r then ''r0''
      else
        (let json = json_str (JArr (map slim_rule rules));
             h = foldl hash_step 5381 json
         in ''r'' @ to_radix 16 (unat h)))"

definition rule_priority :: "jsval \<Rightarrow> jsnum" where
  "rule_priority r = num_or_zero (to_number (getp r ''priority''))"

definition rule_created :: "jsval \<Rightarrow> string" where
  "rule_created r = str_or_empty (getp r ''created_at'')"

text \<open>\<open>cmp(a, b) \<le> 0\<close> for the comparison function of \<open>normalizeRules\<close>.\<close>

definition rule_le :: "(string \<Rightarrow> string \<Rightarrow> int) \<Rightarrow> jsval \<Rightarrow> jsval \<Rightarrow> bool" where
  "rule_le loc a b =
     (let pa = rule_priority a; pb = rule_priority b in
      if pb \<noteq> pa then num_less pb pa
      else loc (rule_created a) (rule_created b) \<le> 0)"

definition keep_rule :: "jsval \<Rightarrow> bool" where
  "keep_rule r =
     (truthy r \<and> getp r ''enabled'' \<noteq> JBool False \<and> trim (str_or_empty (getp r ''id'')) \<noteq> [])"

definition normalizeRules :: "(string \<Rightarrow> string \<Rightarrow> int) \<Rightarrow> jsval \<Rightarrow> jsval list" where
  "normalizeRules loc rawList =
     (let list = sort_by (rule_le loc) (filter keep_rule (js_elems rawList))
      in if length list > RULES_CAP then take RULES_CAP list else list)"

section \<open>The context of a message\<close>

record filter_ctx =
  ctx_subject :: string
  ctx_from :: string
  ctx_to :: "string list"
  ctx_bodyText :: "string option"
  ctx_hasAttachments :: bool
  ctx_sizeBytes :: "jsnum option"

fun as_string_option :: "jsval \<Rightarrow> string option" where
  "as_string_option (JStr s) = Some s"
| "as_string_option _ = None"

fun as_number_option :: "jsval \<Rightarrow> jsnum option" where
  "as_number_option (JNum n) = Some n"
| "as_number_option _ = None"

text \<open>\<open>message\<close> is a truthy value; \<open>opts\<close> may be \<open>undefined\<close>.\<close>

definition buildContext :: "jsval \<Rightarrow> jsval \<Rightarrow> filter_ctx" where
  "buildContext message opts0 =
     (let opts = js_or opts0 (JObj []);
          to = map str_or_empty (js_elems (getp message ''to_addrs''));
          hasAtt = truthy (getp message ''has_attachments'')
                   \<or> js_elems (getp message ''attachments'') \<noteq> []
      in \<lparr>ctx_subject = str_or_empty (getp message ''subject''),
          ctx_from = str_or_empty (getp message ''from_addr''),
          ctx_to = to,
          ctx_bodyText = as_string_option (getp opts ''bodyText''),
          ctx_hasAttachments = hasAtt,
          ctx_sizeBytes = as_number_option (getp opts ''sizeBytes'')\<rparr>)"

section \<open>Matching\<close>

definition matchString :: "string \<Rightarrow> string \<Rightarrow> string \<Rightarrow> bool" where
  "matchString hay needle operator =
     (let h = norm (JStr hay); n = norm (JStr needle) in
      if n = [] \<and> operator \<noteq> ''equals'' then False
      else if operator = ''equals'' then h = n
      else if operator = ''starts_with'' then startsWith h n
      else if operator = ''ends_with'' then endsWith h n
      else if operator = ''matches'' \<or> operator = ''contains'' then n \<noteq> [] \<and> indexOf h n \<noteq> -1
      else False)"

definition size_matches :: "jsnum option \<Rightarrow> string \<Rightarrow> string \<Rightarrow> bool" where
  "size_matches sizeBytes val op =
     (case sizeBytes of
        Some (Fin sz) \<Rightarrow>
          (case parseInt10 val of
             Fin num \<Rightarrow>
               if op = ''greater_than'' then sz > num
               else if op = ''less_than'' then sz < num
               else if op = ''equals'' then sz = num
               else False
           | _ \<Rightarrow> False)
      | _ \<Rightarrow> False)"

definition cond_type :: "jsval \<Rightarrow> string" where
  "cond_type cond = toLowerCase (trim (str_or_empty (getp cond ''type'')))"

definition conditionMatches :: "jsval \<Rightarrow> filter_ctx \<Rightarrow> bool" where
  "conditionMatches cond ctx =
     (if \<not> truthy cond \<or> \<not> typeof_object cond then True
      else
        (let type = cond_type cond;
             op = toLowerCase (trim (to_string (js_or (getp cond ''operator'') (JStr ''contains''))));
             val = str_nullish (getp cond ''value'')
         in
         if \<not> lookup_truthy SUPPORTED_CONDITION_TYPES type then False
         else if type = ''header'' then False
         else if type = ''sender'' then matchString (ctx_from ctx) val op
         else if type = ''subject'' then matchString (ctx_subject ctx) val op
         else if type = ''recipient'' then list_ex (\<lambda>a. matchString a val op) (ctx_to ctx)
         else if type = ''body'' then
           (case ctx_bodyText ctx of
              None \<Rightarrow> False
            | Some b \<Rightarrow> if b = [] then False else matchString b val op)
         else if type = ''attachment'' then
           (let want = norm (JStr val) in
            if want = ''0'' \<or> want = ''false'' \<or> want = ''no'' then \<not> ctx_hasAttachments ctx
            else ctx_hasAttachments ctx)
         else if type = ''size'' then size_matches (ctx_sizeBytes ctx) val op
         else False))"

definition ruleMatches :: "jsval \<Rightarrow> filter_ctx \<Rightarrow> bool" where
  "ruleMatches rule ctx =
     (let conds = js_elems (getp rule ''conditions'') in
      if conds = [] then False else list_all (\<lambda>c. conditionMatches c ctx) conds)"

fun pickFirstMatchingRule :: "jsval list \<Rightarrow> filter_ctx \<Rightarrow> jsval option" where
  "pickFirstMatchingRule [] ctx = None"
| "pickFirstMatchingRule (r # rs) ctx = (if ruleMatches r ctx then Some r else pickFirstMatchingRule rs ctx)"

section \<open>Actions\<close>

text \<open>Both functions read a property of each action and throw when one is \<open>null\<close>.\<close>

fun mapR :: "('a \<Rightarrow> 'b result) \<Rightarrow> 'a list \<Rightarrow> 'b list result" where
  "mapR f [] = Inr []"
| "mapR f (x # xs) = bindR (f x) (\<lambda>y. bindR (mapR f xs) (\<lambda>ys. Inr (y # ys)))"

definition slim_action :: "jsval \<Rightarrow> jsval result" where
  "slim_action a =
     bindR (getR a ''type'') (\<lambda>t.
       Inr (JObj [(''type'', JStr (str_or_empty t)), (''value'', JStr (str_nullish (getp a ''value'')))]))"

definition actionFingerprint :: "jsval \<Rightarrow> string result" where
  "actionFingerprint actions =
     bindR (mapR slim_action (js_elems actions)) (\<lambda>slim. Inr (json_str (JArr slim)))"

definition action_type :: "jsval \<Rightarrow> string" where
  "action_type a = toLowerCase (trim (str_or_empty (getp a ''type'')))"

definition filterSupportedActions :: "jsval \<Rightarrow> jsval list result" where
  "filterSupportedActions actions =
     (let acts = js_elems actions in
      if \<exists>a \<in> set acts. nullish a then Inl TypeError
      else Inr (filter (\<lambda>a. lookup_truthy SUPPORTED_ACTION_TYPES (action_type a)) acts))"

declare norm_def [js_eval] slim_rule_def [js_eval] hash_step_def [js_eval] stableRulesHash_def [js_eval]
  rule_priority_def [js_eval] rule_created_def [js_eval] rule_le_def [js_eval] sort_by_def [js_eval]
  keep_rule_def [js_eval] normalizeRules_def [js_eval] buildContext_def [js_eval]
  matchString_def [js_eval] size_matches_def [js_eval] cond_type_def [js_eval] conditionMatches_def [js_eval]
  ruleMatches_def [js_eval] slim_action_def [js_eval] actionFingerprint_def [js_eval]
  action_type_def [js_eval] filterSupportedActions_def [js_eval]

section \<open>The order of the rules\<close>

text \<open>What ECMAScript requires of \<open>localeCompare\<close>: a consistent comparison.\<close>

definition consistent_comparison :: "(string \<Rightarrow> string \<Rightarrow> int) \<Rightarrow> bool" where
  "consistent_comparison loc =
     ((\<forall>a b. loc a b \<le> 0 \<or> loc b a \<le> 0) \<and>
      (\<forall>a b c. loc a b \<le> 0 \<longrightarrow> loc b c \<le> 0 \<longrightarrow> loc a c \<le> 0))"

lemma num_or_zero_not_NaN [simp]: "num_or_zero n \<noteq> NaN"
  by (cases n) (auto simp: num_or_zero_def)

lemma rule_priority_not_NaN [simp]: "rule_priority r \<noteq> NaN"
  by (simp add: rule_priority_def)

lemma num_less_total: "a \<noteq> NaN \<Longrightarrow> b \<noteq> NaN \<Longrightarrow> a \<noteq> b \<Longrightarrow> num_less a b \<or> num_less b a"
  by (cases a; cases b) auto

lemma num_less_trans: "num_less a b \<Longrightarrow> num_less b c \<Longrightarrow> num_less a c"
  by (cases a; cases b; cases c) auto

lemma num_less_irrefl: "\<not> num_less a a"
  by (cases a) auto

lemma rule_le_total_preorder: "consistent_comparison loc \<Longrightarrow> total_preorder (rule_le loc)"
proof unfold_locales
  fix a b assume c: "consistent_comparison loc"
  show "rule_le loc a b \<or> rule_le loc b a"
    using c num_less_total [of "rule_priority a" "rule_priority b"]
    by (auto simp: rule_le_def Let_def consistent_comparison_def)
next
  fix a b d assume c: "consistent_comparison loc" and ab: "rule_le loc a b" and bd: "rule_le loc b d"
  show "rule_le loc a d"
    using c ab bd num_less_trans [of "rule_priority d" "rule_priority b" "rule_priority a"]
      num_less_irrefl
    by (auto simp: rule_le_def Let_def consistent_comparison_def split: if_splits)
qed

text \<open>Code unit order, the comparison of a browser without locale data.\<close>

definition codeunit_compare :: "string \<Rightarrow> string \<Rightarrow> int" where
  "codeunit_compare a b = (if a < b then -1 else if a = b then 0 else 1)"

lemma codeunit_compare_consistent: "consistent_comparison codeunit_compare"
  by (auto simp: consistent_comparison_def codeunit_compare_def split: if_splits)

interpretation rules: total_preorder "rule_le codeunit_compare"
  by (rule rule_le_total_preorder [OF codeunit_compare_consistent])

lemma normalizeRules_take:
  "normalizeRules loc raw = take RULES_CAP (sort_by (rule_le loc) (filter keep_rule (js_elems raw)))"
  by (simp add: normalizeRules_def Let_def)

lemma pickFirst_SomeD:
  "pickFirstMatchingRule rs ctx = Some r \<Longrightarrow>
   \<exists>pre post. rs = pre @ r # post \<and> ruleMatches r ctx \<and> (\<forall>s \<in> set pre. \<not> ruleMatches s ctx)"
proof (induction rs)
  case (Cons x rs)
  show ?case
  proof (cases "ruleMatches x ctx")
    case True
    with Cons.prems show ?thesis by (intro exI [of _ "[]"] exI [of _ rs]) auto
  next
    case False
    with Cons obtain pre post where "rs = pre @ r # post" "ruleMatches r ctx" "\<forall>s \<in> set pre. \<not> ruleMatches s ctx"
      by auto
    with False show ?thesis by (intro exI [of _ "x # pre"] exI [of _ post]) auto
  qed
qed simp

lemma pickFirst_None: "pickFirstMatchingRule rs ctx = None \<longleftrightarrow> (\<forall>s \<in> set rs. \<not> ruleMatches s ctx)"
  by (induction rs) auto

lemma sorted_take_drop: "sorted_wrt P xs \<Longrightarrow> a \<in> set (take n xs) \<Longrightarrow> b \<in> set (drop n xs) \<Longrightarrow> P a b"
  by (metis append_take_drop_id sorted_wrt_append)

section \<open>Hash format\<close>

lemma length_to_radix_16: "n < 16 ^ k \<Longrightarrow> 0 < k \<Longrightarrow> length (to_radix 16 n) \<le> k"
proof (induction k arbitrary: n)
  case (Suc k)
  show ?case
  proof (cases "n < 16")
    case True
    then show ?thesis by (simp add: to_radix.simps [of 16 n])
  next
    case False
    with Suc.prems have "k \<noteq> 0" by (cases k) auto
    moreover have "n div 16 < 16 ^ k" using Suc.prems(1) by (simp add: less_mult_imp_div_less mult.commute)
    ultimately have "length (to_radix 16 (n div 16)) \<le> k" using Suc.IH by simp
    with False show ?thesis by (simp add: to_radix.simps [of 16 n])
  qed
qed simp

lemma to_radix_16_hex: "c \<in> set (to_radix 16 n) \<Longrightarrow> hex_val c \<noteq> None"
proof (induction n rule: less_induct)
  case (less n)
  have hex: "hex_val (digit_char d) \<noteq> None" if "d < 16" for d
    using that by (auto simp: hex_val_def digit_char_def code_unit_def Let_def)
  show ?case
  proof (cases "n < 16")
    case True
    with less.prems hex show ?thesis by (simp add: to_radix.simps [of 16 n])
  next
    case False
    then have lt: "n div 16 < n" by simp
    from False less.prems have "c \<in> set (to_radix 16 (n div 16)) \<or> c = digit_char (n mod 16)"
      by (simp add: to_radix.simps [of 16 n]) blast
    with less.IH [OF lt] hex [of "n mod 16"] show ?thesis by auto
  qed
qed

section \<open>Matching lemmas\<close>

lemma norm_JStr: "norm (JStr s) = toLowerCase (trim s)"
  by (simp add: norm_def)

lemma matchString_normalised:
  "matchString (toLowerCase (trim hay)) (toLowerCase (trim needle)) op = matchString hay needle op"
  by (simp add: matchString_def norm_JStr trim_toLowerCase)

lemma supported_condition_types:
  "lookup_truthy SUPPORTED_CONDITION_TYPES t \<Longrightarrow>
   t \<in> {''sender'', ''subject'', ''recipient'', ''body'', ''attachment'', ''size''} \<union> set object_prototype_keys"
  by (auto simp: lookup_truthy_def SUPPORTED_CONDITION_TYPES_def split: if_splits)

lemma conditionMatches_unsupported:
  assumes "truthy c" and "typeof_object c"
    and "cond_type c \<notin> {''sender'', ''subject'', ''recipient'', ''body'', ''attachment'', ''size''}"
  shows "\<not> conditionMatches c ctx"
  using assms by (simp add: conditionMatches_def Let_def)

lemma conditionMatches_size_unknown:
  assumes "truthy c" and "typeof_object c" and "cond_type c = ''size''" and "ctx_sizeBytes ctx = None"
  shows "\<not> conditionMatches c ctx"
  using assms by (simp add: conditionMatches_def size_matches_def Let_def)

lemma ruleMatches_conditions:
  "ruleMatches rule ctx \<longleftrightarrow>
   js_elems (getp rule ''conditions'') \<noteq> [] \<and> (\<forall>c \<in> set (js_elems (getp rule ''conditions'')). conditionMatches c ctx)"
  by (simp add: ruleMatches_def Let_def list_all_iff)

section \<open>Properties\<close>

text \<open>
  The rule that a message triggers is an enabled rule of the API's list that matches it, and it
  comes first among the normalised rules that match: no matching one has a higher priority, or the
  same priority and an earlier creation time.
\<close>

theorem picked_rule_is_first:
  assumes "consistent_comparison loc"
    and "pickFirstMatchingRule (normalizeRules loc raw) ctx = Some r"
  shows "r \<in> set (js_elems raw) \<and> keep_rule r \<and> ruleMatches r ctx
    \<and> (\<forall>s \<in> set (normalizeRules loc raw). ruleMatches s ctx \<longrightarrow> rule_le loc r s)"
proof -
  note pre = rule_le_total_preorder [OF assms(1)]
  obtain pre post where split: "normalizeRules loc raw = pre @ r # post" and m: "ruleMatches r ctx"
    and none: "\<forall>s \<in> set pre. \<not> ruleMatches s ctx"
    using pickFirst_SomeD [OF assms(2)] by blast
  have "sorted_wrt (rule_le loc) (normalizeRules loc raw)"
    by (simp add: normalizeRules_take sorted_wrt_take total_preorder.sorted_sort_by [OF pre])
  then have post: "\<forall>s \<in> set post. rule_le loc r s"
    by (simp add: split sorted_wrt_append)
  have "r \<in> set (normalizeRules loc raw)" by (simp add: split)
  then have "r \<in> set (filter keep_rule (js_elems raw))"
    unfolding normalizeRules_take by (metis in_set_takeD set_sort_by)
  with m none post total_preorder.refl [OF pre] show ?thesis
    by (auto simp: split)
qed

definition demo_rule :: "string \<Rightarrow> int \<Rightarrow> jsval" where
  "demo_rule i p =
     JObj [(''id'', JStr i), (''enabled'', JBool True), (''priority'', jint p),
           (''conditions'', JArr [JObj [(''type'', JStr ''subject''), (''operator'', JStr ''contains''), (''value'', JStr ''z'')]]),
           (''actions'', JArr [JObj [(''type'', JStr ''mark_read'')]])]"

definition demo_rules :: jsval where
  "demo_rules = JArr [demo_rule ''1'' 50, demo_rule ''2'' 100]"

definition demo_ctx :: filter_ctx where
  "demo_ctx = buildContext (JObj [(''subject'', JStr ''aZ''), (''from_addr'', JStr []), (''to_addrs'', JArr [])]) (JObj [])"

theorem picked_rule_is_first_witness:
  "demo_rule ''2'' 100 \<in> set (js_elems demo_rules) \<and> keep_rule (demo_rule ''2'' 100)
   \<and> ruleMatches (demo_rule ''2'' 100) demo_ctx
   \<and> rule_le codeunit_compare (demo_rule ''2'' 100) (demo_rule ''1'' 50)"
proof -
  have pick: "pickFirstMatchingRule (normalizeRules codeunit_compare demo_rules) demo_ctx = Some (demo_rule ''2'' 100)"
    by code_simp
  have "demo_rule ''1'' 50 \<in> set (normalizeRules codeunit_compare demo_rules)" by code_simp
  moreover have "ruleMatches (demo_rule ''1'' 50) demo_ctx" by code_simp
  ultimately show ?thesis
    using picked_rule_is_first [OF codeunit_compare_consistent pick] by blast
qed

text \<open>
  \<open>normalizeRules\<close> returns at most 50 rules, ordered by descending priority and then by creation
  time, and nothing but enabled rules of the list: together with the ones it drops they are exactly
  those. A rule is dropped only when 50 rules were kept, each of them at least as good, and rules
  that compare equal keep the order of the API.
\<close>

theorem normalizeRules_spec:
  assumes "consistent_comparison loc"
  shows "length (normalizeRules loc raw) \<le> 50
    \<and> sorted_wrt (rule_le loc) (normalizeRules loc raw)
    \<and> (\<exists>dropped. mset (normalizeRules loc raw @ dropped) = mset (filter keep_rule (js_elems raw))
         \<and> (\<forall>a \<in> set (normalizeRules loc raw). \<forall>d \<in> set dropped. rule_le loc a d)
         \<and> (dropped \<noteq> [] \<longrightarrow> length (normalizeRules loc raw) = 50))
    \<and> (\<forall>z. prefix (filter (\<lambda>y. rule_le loc y z \<and> rule_le loc z y) (normalizeRules loc raw))
                  (filter (\<lambda>y. rule_le loc y z \<and> rule_le loc z y) (filter keep_rule (js_elems raw))))"
proof -
  note pre = rule_le_total_preorder [OF assms]
  let ?all = "filter keep_rule (js_elems raw)"
  let ?l = "sort_by (rule_le loc) ?all"
  have n: "normalizeRules loc raw = take 50 ?l" by (simp add: normalizeRules_take RULES_CAP_def)
  have sorted: "sorted_wrt (rule_le loc) ?l" by (rule total_preorder.sorted_sort_by [OF pre])
  have "prefix (filter P (take 50 ?l)) (filter P ?l)" for P
    by (metis append_take_drop_id filter_append prefixI)
  then have stable: "prefix (filter (\<lambda>y. rule_le loc y z \<and> rule_le loc z y) (take 50 ?l))
      (filter (\<lambda>y. rule_le loc y z \<and> rule_le loc z y) ?all)" for z
    using total_preorder.stable_sort_by [OF pre, of z ?all] by metis
  have "mset (take 50 ?l @ drop 50 ?l) = mset ?all" by (simp only: append_take_drop_id mset_sort_by)
  then have "\<exists>dropped. mset (take 50 ?l @ dropped) = mset ?all
      \<and> (\<forall>a \<in> set (take 50 ?l). \<forall>d \<in> set dropped. rule_le loc a d)
      \<and> (dropped \<noteq> [] \<longrightarrow> length (take 50 ?l) = 50)"
    using sorted_take_drop [OF sorted, of _ 50] by (intro exI [of _ "drop 50 ?l"]) auto
  with sorted stable show ?thesis
    unfolding n by (simp add: sorted_wrt_take)
qed

theorem normalizeRules_spec_witness:
  "length (normalizeRules codeunit_compare demo_rules) \<le> 50
   \<and> sorted_wrt (rule_le codeunit_compare) (normalizeRules codeunit_compare demo_rules)
   \<and> (\<exists>dropped. mset (normalizeRules codeunit_compare demo_rules @ dropped) = mset (filter keep_rule (js_elems demo_rules)))"
  using normalizeRules_spec [OF codeunit_compare_consistent, of demo_rules] by blast

text \<open>
  The operators of a string condition are ordered by strength, for a needle that is not blank:
  \<open>equals\<close> implies \<open>starts_with\<close> and \<open>ends_with\<close>, each of which implies \<open>contains\<close>; \<open>contains\<close>
  and its synonym \<open>matches\<close> hold exactly when the normalised needle occurs in the normalised text.
\<close>

theorem matchString_operators:
  assumes "trim needle \<noteq> []"
  shows "(matchString hay needle ''equals'' \<longrightarrow>
       matchString hay needle ''starts_with'' \<and> matchString hay needle ''ends_with'')
    \<and> (matchString hay needle ''starts_with'' \<or> matchString hay needle ''ends_with'' \<longrightarrow>
       matchString hay needle ''contains'')
    \<and> (matchString hay needle ''contains'' \<longleftrightarrow> sublist (norm (JStr needle)) (norm (JStr hay)))
    \<and> matchString hay needle ''matches'' = matchString hay needle ''contains''"
proof -
  have "norm (JStr needle) \<noteq> []" using assms by (simp add: norm_JStr)
  then show ?thesis
    by (auto simp: matchString_def Let_def startsWith_def endsWith_def indexOf_neg
        intro: prefix_imp_sublist suffix_imp_sublist)
qed

theorem matchString_operators_witness:
  "matchString ''INVOICE'' '' Invoice '' ''starts_with'' \<and> matchString ''INVOICE'' '' Invoice '' ''ends_with''
   \<and> matchString ''INVOICE'' '' Invoice '' ''contains''"
proof -
  have t: "trim '' Invoice '' \<noteq> []" by code_simp
  have "matchString ''INVOICE'' '' Invoice '' ''equals''" by code_simp
  with matchString_operators [OF t, of "''INVOICE''"] show ?thesis by blast
qed

text \<open>
  A rule with one condition of a type the engine does not evaluate (\<open>header\<close>, an unknown name, or
  a name inherited from \<open>Object.prototype\<close>) never matches, whatever its other conditions are.
\<close>

theorem unsupported_condition_disables_rule:
  assumes "c \<in> set (js_elems (getp rule ''conditions''))" and "truthy c" and "typeof_object c"
    and "cond_type c \<notin> {''sender'', ''subject'', ''recipient'', ''body'', ''attachment'', ''size''}"
  shows "\<not> ruleMatches rule ctx"
  using assms conditionMatches_unsupported by (auto simp: ruleMatches_conditions)

theorem unsupported_condition_disables_rule_witness:
  "\<not> ruleMatches (JObj [(''conditions'', JArr [JObj [(''type'', JStr ''constructor'')]])]) demo_ctx"
proof (rule unsupported_condition_disables_rule)
  show "JObj [(''type'', JStr ''constructor'')]
      \<in> set (js_elems (getp (JObj [(''conditions'', JArr [JObj [(''type'', JStr ''constructor'')]])]) ''conditions''))"
    by simp
  have "cond_type (JObj [(''type'', JStr ''constructor'')]) = ''constructor''" by code_simp
  then show "cond_type (JObj [(''type'', JStr ''constructor'')])
      \<notin> {''sender'', ''subject'', ''recipient'', ''body'', ''attachment'', ''size''}" by simp
qed simp_all

text \<open>
  The rules hash is always the letter r followed by one to eight hexadecimal digits, so it is
  never the empty string that the ledger turns away.
\<close>

theorem stableRulesHash_format:
  "\<exists>ds. stableRulesHash rules = CHR ''r'' # ds \<and> 1 \<le> length ds \<and> length ds \<le> 8
     \<and> list_all (\<lambda>c. hex_val c \<noteq> None) ds"
proof (cases "\<exists>r \<in> set rules. nullish r")
  case True
  then show ?thesis by (auto simp: stableRulesHash_def hex_val_def code_unit_def)
next
  case False
  let ?h = "foldl hash_step 5381 (json_str (JArr (map slim_rule rules)))"
  have "unat ?h < 2 ^ LENGTH(32)" by (rule unsigned_less)
  then have "unat ?h < 16 ^ 8" by simp
  then have "length (to_radix 16 (unat ?h)) \<le> 8" by (rule length_to_radix_16) simp
  moreover have "1 \<le> length (to_radix 16 (unat ?h))"
    by (simp add: Suc_le_eq)
  moreover have "list_all (\<lambda>c. hex_val c \<noteq> None) (to_radix 16 (unat ?h))"
    by (auto simp: list_all_iff dest: to_radix_16_hex)
  ultimately show ?thesis
    using False by (auto simp: stableRulesHash_def Let_def simp del: json_str.simps)
qed

end
