(* ===== verification/Filter_Pass.thy ===== *)
theory Filter_Pass
  imports Filter_Engine
begin

text \<open>
  \<^verbatim>\<open>static/mail/mail-filter-engine.js\<close>, the stateful part: \<open>applyActions\<close> and
  \<open>runInboxFilterPass\<close>. A pass is a state machine. Its state holds the variables of the closure
  (queue, inFlight, reloadPending), the local variables of every invocation of \<open>pump\<close> (they are
  declared with \<open>var\<close>, so the promise callbacks of one invocation share them), the tasks that wait
  for an API call, and the storage of the ledger. A step is one microtask: an API promise settles,
  the \<open>then\<close> callback of \<open>applyActions\<close> runs, or the last callback runs and pumps again. The API
  calls may succeed or fail and finish in any order.
\<close>

section \<open>API calls of one message\<close>

datatype api_call =
    MoveMessage string string
  | SetMessageRead string bool
  | DeleteMessage string bool     \<comment> \<open>the flag is \<open>permanent\<close>\<close>

text \<open>The step of \<open>run(idx)\<close>: the call it issues, or none, and what it adds to \<open>skipped\<close>.\<close>

definition action_step :: "string \<Rightarrow> jsval \<Rightarrow> api_call list \<times> string list" where
  "action_step messageId a =
     (let t = action_type a; v = str_nullish (getp a ''value'') in
      if t = ''move'' then
        (let folder = norm (JStr v) in
         if folder = [] then ([], []) else ([MoveMessage messageId folder], []))
      else if t = ''mark_read'' then ([SetMessageRead messageId True], [])
      else if t = ''delete'' then ([DeleteMessage messageId False], [])
      else ([], [t]))"

text \<open>
  \<open>run\<close> against an API whose answer to a call may depend on the calls before it: the calls made,
  and the list \<open>skipped\<close> or the exception of the first call that failed.
\<close>

fun run :: "(api_call list \<Rightarrow> api_call \<Rightarrow> unit result) \<Rightarrow> string \<Rightarrow> api_call list \<Rightarrow> string list
            \<Rightarrow> jsval list \<Rightarrow> api_call list \<times> string list result" where
  "run api messageId made skipped [] = (made, Inr skipped)"
| "run api messageId made skipped (a # acts) =
     (case action_step messageId a of
        (c # _, _) \<Rightarrow>
          (case api made c of
             Inl e \<Rightarrow> (made @ [c], Inl e)
           | Inr _ \<Rightarrow> run api messageId (made @ [c]) skipped acts)
      | ([], sk) \<Rightarrow> run api messageId made (skipped @ sk) acts)"

record apply_outcome =
  applied :: bool
  skipped :: "string list option"

definition applyActions ::
  "bool \<Rightarrow> (api_call list \<Rightarrow> api_call \<Rightarrow> unit result) \<Rightarrow> string \<Rightarrow> jsval
   \<Rightarrow> api_call list \<times> apply_outcome result" where
  "applyActions hasManifest api messageId actions =
     (if \<not> hasManifest \<or> messageId = [] then ([], Inr \<lparr>applied = False, skipped = None\<rparr>)
      else
        (case filterSupportedActions actions of
           Inl e \<Rightarrow> ([], Inl e)
         | Inr acts \<Rightarrow>
             if acts = [] then ([], Inr \<lparr>applied = False, skipped = None\<rparr>)
             else
               (case run api messageId [] [] acts of
                  (made, Inl e) \<Rightarrow> (made, Inl e)
                | (made, Inr sk) \<Rightarrow>
                    (made, Inr \<lparr>applied = True, skipped = (if sk = [] then None else Some sk)\<rparr>))))"

text \<open>The calls \<open>applyActions\<close> makes when none of them fails.\<close>

definition planned_calls :: "string \<Rightarrow> jsval list \<Rightarrow> api_call list" where
  "planned_calls messageId acts = concat (map (\<lambda>a. fst (action_step messageId a)) acts)"

section \<open>The state of a pass\<close>

text \<open>\<open>fr_hit\<close> is \<open>None\<close> for \<open>null\<close> and \<open>undefined\<close>.\<close>

record frame =
  fr_msg :: jsval
  fr_hit :: "jsval option"
  fr_fp :: string

definition new_frame :: frame where
  "new_frame = \<lparr>fr_msg = JUndef, fr_hit = None, fr_fp = []\<rparr>"

text \<open>
  A task is one promise chain of \<open>pump\<close>: \<open>Calling cs\<close> waits for the first call of \<open>cs\<close> (for none:
  \<open>applyActions\<close> is fulfilled and its \<open>then\<close> callback is due), \<open>Handled\<close> has only the callback
  left that decrements \<open>inFlight\<close>.
\<close>

datatype phase = Calling "api_call list" | Handled

record task =
  t_frame :: nat
  t_phase :: phase

datatype outcome = Pending | Resolved | Rejected exn

record pass_state =
  ps_queue :: "jsval list"
  ps_inFlight :: nat
  ps_reloadPending :: bool
  ps_store :: web_storage
  ps_frames :: "frame list"
  ps_tasks :: "task list"
  ps_calls :: "api_call list"
  ps_reloads :: nat
  ps_outcome :: outcome

record pass_env =
  pe_rules :: "jsval list"
  pe_rh :: string
  pe_bodyById :: jsval
  pe_hasLedger :: bool
  pe_hasManifest :: bool
  pe_hasOnReload :: bool

definition maxConcurrent :: nat where
  "maxConcurrent = 3"

section \<open>Pumping\<close>

definition msg_id :: "jsval \<Rightarrow> string" where
  "msg_id msg = str_or_empty (getp msg ''id'')"

definition pass_ctx :: "pass_env \<Rightarrow> jsval \<Rightarrow> filter_ctx" where
  "pass_ctx env msg =
     (let bodyText = getp (pe_bodyById env) (msg_id msg) in
      buildContext msg (JObj [(''bodyText'', if nullish bodyText then JNull else bodyText)]))"

definition rule_actions :: "jsval \<Rightarrow> jsval" where
  "rule_actions hit = js_or (getp hit ''actions'') (JArr [])"

text \<open>Starting the promise chain: \<open>applyActions\<close> issues its first call at once.\<close>

definition start_task :: "pass_env \<Rightarrow> string \<Rightarrow> jsval list \<Rightarrow> pass_state \<Rightarrow> pass_state" where
  "start_task env messageId acts s =
     (let cs = (if pe_hasManifest env then planned_calls messageId acts else []) in
      s\<lparr>ps_inFlight := ps_inFlight s + 1,
        ps_calls := ps_calls s @ take 1 cs,
        ps_tasks := ps_tasks s @ [\<lparr>t_frame = length (ps_frames s), t_phase = Calling cs\<rparr>]\<rparr>)"

text \<open>The \<open>while\<close> loop: the exception that leaves it, the state and the local variables.\<close>

fun pump_loop :: "pass_env \<Rightarrow> pass_state \<Rightarrow> frame \<Rightarrow> jsval list \<Rightarrow> exn option \<times> pass_state \<times> frame" where
  "pump_loop env s fr [] = (None, s\<lparr>ps_queue := []\<rparr>, fr)"
| "pump_loop env s fr (msg # q) =
     (if maxConcurrent \<le> ps_inFlight s then (None, s\<lparr>ps_queue := msg # q\<rparr>, fr)
      else
        (let fr1 = fr\<lparr>fr_msg := msg\<rparr> in
         if \<not> truthy msg \<or> msg_id msg = [] then pump_loop env s fr1 q
         else
           (let hit = pickFirstMatchingRule (pe_rules env) (pass_ctx env msg);
                fr2 = fr1\<lparr>fr_hit := hit\<rparr> in
            case hit of
              None \<Rightarrow> pump_loop env s fr2 q
            | Some r \<Rightarrow>
                (case filterSupportedActions (rule_actions r) of
                   Inl e \<Rightarrow> (Some e, s\<lparr>ps_queue := q\<rparr>, fr2)
                 | Inr acts \<Rightarrow>
                     if acts = [] then pump_loop env s fr2 q
                     else
                       (case actionFingerprint (JArr acts) of
                          Inl e \<Rightarrow> (Some e, s\<lparr>ps_queue := q\<rparr>, fr2)
                        | Inr fp \<Rightarrow>
                            (let fr3 = fr2\<lparr>fr_fp := fp\<rparr> in
                             if pe_hasLedger env
                                \<and> alreadyApplied (ps_store s) (msg_id msg) (getp r ''id'') fp (pe_rh env)
                             then pump_loop env s fr3 q
                             else pump_loop env (start_task env (msg_id msg) acts s) fr3 q))))))"

definition finish_pass :: "pass_env \<Rightarrow> pass_state \<Rightarrow> pass_state" where
  "finish_pass env s =
     s\<lparr>ps_reloads := (if ps_reloadPending s \<and> pe_hasOnReload env then ps_reloads s + 1 else ps_reloads s),
       ps_outcome := (if ps_outcome s = Pending then Resolved else ps_outcome s)\<rparr>"

definition pump :: "pass_env \<Rightarrow> pass_state \<Rightarrow> exn option \<times> pass_state" where
  "pump env s =
     (case pump_loop env s new_frame (ps_queue s) of
        (ex, s1, fr) \<Rightarrow>
          (let s2 = s1\<lparr>ps_frames := ps_frames s1 @ [fr]\<rparr> in
           case ex of
             Some e \<Rightarrow> (Some e, s2)
           | None \<Rightarrow>
               (None, if ps_inFlight s2 = 0 \<and> ps_queue s2 = [] then finish_pass env s2 else s2)))"

section \<open>Callbacks\<close>

text \<open>
  The \<open>then\<close> callback. It reads \<open>msg.id\<close> and \<open>hit.id\<close> of the invocation of \<open>pump\<close> it belongs to; on
  \<open>null\<close> or \<open>undefined\<close> that throws, and the \<open>catch\<close> behind it drops the exception.
\<close>

definition on_applied :: "pass_env \<Rightarrow> frame \<Rightarrow> pass_state \<Rightarrow> pass_state" where
  "on_applied env fr s =
     (if pe_hasLedger env then
        (if nullish (fr_msg fr) then s
         else
           (case fr_hit fr of
              None \<Rightarrow> s
            | Some hit \<Rightarrow>
                s\<lparr>ps_store := record_applied (ps_store s) (msg_id (fr_msg fr)) (getp hit ''id'') (fr_fp fr) (pe_rh env),
                  ps_reloadPending := True\<rparr>))
      else s\<lparr>ps_reloadPending := True\<rparr>)"

text \<open>The last callback: the task is gone; what \<open>pump\<close> throws here nobody catches.\<close>

definition on_settled :: "pass_env \<Rightarrow> nat \<Rightarrow> pass_state \<Rightarrow> pass_state" where
  "on_settled env i s =
     snd (pump env (s\<lparr>ps_tasks := take i (ps_tasks s) @ drop (Suc i) (ps_tasks s),
                     ps_inFlight := ps_inFlight s - 1\<rparr>))"

definition set_phase :: "nat \<Rightarrow> phase \<Rightarrow> pass_state \<Rightarrow> pass_state" where
  "set_phase i p s = s\<lparr>ps_tasks := (ps_tasks s)[i := (ps_tasks s ! i)\<lparr>t_phase := p\<rparr>]\<rparr>"

text \<open>One microtask of task \<open>i\<close>; \<open>ok\<close> says whether the call it waits for succeeds.\<close>

definition task_step :: "pass_env \<Rightarrow> nat \<Rightarrow> bool \<Rightarrow> pass_state \<Rightarrow> pass_state" where
  "task_step env i ok s =
     (case t_phase (ps_tasks s ! i) of
        Calling [] \<Rightarrow> set_phase i Handled (on_applied env (ps_frames s ! t_frame (ps_tasks s ! i)) s)
      | Calling (c # cs) \<Rightarrow>
          if ok then set_phase i (Calling cs) (s\<lparr>ps_calls := ps_calls s @ take 1 cs\<rparr>)
          else set_phase i Handled s
      | Handled \<Rightarrow> on_settled env i s)"

inductive pass_step :: "pass_env \<Rightarrow> pass_state \<Rightarrow> pass_state \<Rightarrow> bool" for env where
  pass_step: "i < length (ps_tasks s) \<Longrightarrow> pass_step env s (task_step env i ok s)"

inductive_cases pass_stepE: "pass_step env s t"

section \<open>Starting a pass\<close>

definition idSet :: "jsval list \<Rightarrow> jsval" where
  "idSet messages =
     foldl (\<lambda>o' m. if truthy m \<and> msg_id m \<noteq> [] then setp o' (msg_id m) (JBool True) else o')
       (JObj []) messages"

definition pass_setup ::
  "(string \<Rightarrow> string \<Rightarrow> int) \<Rightarrow> jsval \<Rightarrow> jsval \<Rightarrow> bool \<Rightarrow> bool \<Rightarrow> bool \<Rightarrow> pass_env" where
  "pass_setup loc rawRules bodyById hasLedger hasManifest hasOnReload =
     (let rules = normalizeRules loc (js_or rawRules (JArr [])) in
      \<lparr>pe_rules = rules, pe_rh = stableRulesHash rules,
       pe_bodyById = js_or bodyById (JObj []), pe_hasLedger = hasLedger,
       pe_hasManifest = hasManifest, pe_hasOnReload = hasOnReload\<rparr>)"

definition initial_state :: "pass_env \<Rightarrow> web_storage \<Rightarrow> jsval list \<Rightarrow> pass_state" where
  "initial_state env w messages =
     (let w1 = (if pe_hasLedger env then syncRulesHash w (pe_rh env) else w);
          w2 = (if pe_hasLedger env then pruneMissing w1 (own_props (idSet messages)) else w1)
      in \<lparr>ps_queue = messages, ps_inFlight = 0, ps_reloadPending = False, ps_store = w2,
          ps_frames = [], ps_tasks = [], ps_calls = [], ps_reloads = 0, ps_outcome = Pending\<rparr>)"

text \<open>The first \<open>pump\<close> runs in the executor of the promise, so an exception there rejects it.\<close>

definition runInboxFilterPass :: "pass_env \<Rightarrow> web_storage \<Rightarrow> jsval list \<Rightarrow> pass_state" where
  "runInboxFilterPass env w messages =
     (case pump env (initial_state env w messages) of
        (Some e, s) \<Rightarrow> s\<lparr>ps_outcome := Rejected e\<rparr>
      | (None, s) \<Rightarrow> s)"

text \<open>A schedule: which task moves next and whether the call it waits for succeeds.\<close>

fun run_schedule :: "pass_env \<Rightarrow> (nat \<times> bool) list \<Rightarrow> pass_state \<Rightarrow> pass_state" where
  "run_schedule env [] s = s"
| "run_schedule env ((i, ok) # sch) s =
     (if i < length (ps_tasks s) then run_schedule env sch (task_step env i ok s) else run_schedule env sch s)"

declare action_step_def [js_eval] applyActions_def [js_eval] planned_calls_def [js_eval]
  new_frame_def [js_eval] maxConcurrent_def [js_eval] msg_id_def [js_eval] pass_ctx_def [js_eval]
  rule_actions_def [js_eval] start_task_def [js_eval] finish_pass_def [js_eval] pump_def [js_eval]
  on_applied_def [js_eval] on_settled_def [js_eval] set_phase_def [js_eval] task_step_def [js_eval]
  idSet_def [js_eval] pass_setup_def [js_eval] initial_state_def [js_eval] runInboxFilterPass_def [js_eval]

section \<open>applyActions\<close>

lemma action_step_cases:
  obtains (call) c where "action_step m a = ([c], [])"
  | (skip) sk where "action_step m a = ([], sk)"
  by (cases "fst (action_step m a)") (auto simp: action_step_def Let_def split: if_splits)

lemma run_success:
  "run (\<lambda>_ _. Inr ()) m made sk acts =
    (made @ planned_calls m acts, Inr (sk @ concat (map (\<lambda>a. snd (action_step m a)) acts)))"
proof (induction acts arbitrary: made sk)
  case (Cons a acts)
  show ?case
    by (cases rule: action_step_cases [of m a]) (simp_all add: Cons.IH planned_calls_def)
qed (simp add: planned_calls_def)

text \<open>Whatever fails, the calls made are those of the plan, in its order, up to the failure.\<close>

lemma run_prefix: "\<exists>n. fst (run api m made sk acts) = made @ take n (planned_calls m acts)"
proof (induction acts arbitrary: made sk)
  case Nil
  show ?case by (simp add: planned_calls_def)
next
  case (Cons a acts)
  show ?case
  proof (cases rule: action_step_cases [of m a])
    case (call c)
    show ?thesis
    proof (cases "api made c")
      case (Inl e)
      have "fst (run api m made sk (a # acts)) = made @ take 1 (planned_calls m (a # acts))"
        by (simp add: call Inl planned_calls_def)
      then show ?thesis by blast
    next
      case (Inr u)
      from Cons.IH [of "made @ [c]" sk] obtain n
        where "fst (run api m (made @ [c]) sk acts) = (made @ [c]) @ take n (planned_calls m acts)" by blast
      then have "fst (run api m made sk (a # acts)) = made @ take (Suc n) (planned_calls m (a # acts))"
        by (simp add: call Inr planned_calls_def)
      then show ?thesis by blast
    qed
  next
    case (skip sk')
    then show ?thesis using Cons.IH [of made "sk @ sk'"] by (simp add: planned_calls_def)
  qed
qed

lemma length_planned_calls: "length (planned_calls m acts) \<le> length acts"
proof (induction acts)
  case (Cons a acts)
  then show ?case by (cases rule: action_step_cases [of m a]) (auto simp: planned_calls_def)
qed (simp add: planned_calls_def)

section \<open>The rules a pass can choose\<close>

lemma pickFirst_mem: "pickFirstMatchingRule rs ctx = Some r \<Longrightarrow> r \<in> set rs"
  by (auto dest: pickFirst_SomeD)

text \<open>No rule holds a \<open>null\<close> action, which is where \<open>filterSupportedActions\<close> throws.\<close>

definition rules_ok :: "jsval list \<Rightarrow> bool" where
  "rules_ok rs = list_all (\<lambda>r. list_all (\<lambda>a. \<not> nullish a) (js_elems (rule_actions r))) rs"

lemma filterSupportedActions_ok:
  "rules_ok rs \<Longrightarrow> r \<in> set rs \<Longrightarrow> \<exists>acts. filterSupportedActions (rule_actions r) = Inr acts"
  by (auto simp: rules_ok_def filterSupportedActions_def list_all_iff)

lemma filterSupportedActions_InrD:
  assumes "filterSupportedActions x = Inr acts"
  shows "set acts \<subseteq> set (js_elems x)" and "length acts \<le> length (js_elems x)"
    and "\<forall>a \<in> set acts. \<not> nullish a"
  using assms by (auto simp: filterSupportedActions_def Let_def split: if_splits)

lemma mapR_total: "(\<And>x. x \<in> set xs \<Longrightarrow> \<exists>y. f x = Inr y) \<Longrightarrow> \<exists>ys. mapR f xs = Inr ys"
proof (induction xs)
  case (Cons x xs)
  from Cons.prems [of x] obtain y where y: "f x = Inr y" by auto
  from Cons.IH Cons.prems obtain ys where "mapR f xs = Inr ys" by auto
  with y show ?case by simp
qed simp

lemma actionFingerprint_total:
  "\<forall>a \<in> set acts. \<not> nullish a \<Longrightarrow> \<exists>fp. actionFingerprint (JArr acts) = Inr fp"
  using mapR_total [of acts slim_action]
  by (auto simp: actionFingerprint_def slim_action_def getR_def)

definition call_bound :: "pass_env \<Rightarrow> nat" where
  "call_bound env = sum_list (map (\<lambda>r. length (js_elems (rule_actions r))) (pe_rules env))"

lemma planned_calls_bound:
  assumes "pickFirstMatchingRule (pe_rules env) ctx = Some r"
    and "filterSupportedActions (rule_actions r) = Inr acts"
  shows "length (planned_calls m acts) \<le> call_bound env"
proof -
  have "length (js_elems (rule_actions r)) \<le> call_bound env"
    unfolding call_bound_def
    using pickFirst_mem [OF assms(1)] by (intro member_le_sum_list) auto
  with length_planned_calls [of m acts] filterSupportedActions_InrD(2) [OF assms(2)]
  show ?thesis by linarith
qed

text \<open>A call is justified by the first rule that matches a message of the pass.\<close>

definition justified :: "pass_env \<Rightarrow> jsval list \<Rightarrow> api_call \<Rightarrow> bool" where
  "justified env msgs c =
     (\<exists>msg \<in> set msgs. \<exists>r acts.
        truthy msg \<and> msg_id msg \<noteq> []
        \<and> pickFirstMatchingRule (pe_rules env) (pass_ctx env msg) = Some r
        \<and> filterSupportedActions (rule_actions r) = Inr acts
        \<and> c \<in> set (planned_calls (msg_id msg) acts))"

fun phase_calls :: "phase \<Rightarrow> api_call list" where
  "phase_calls (Calling cs) = cs"
| "phase_calls Handled = []"

section \<open>The loop of pump\<close>

definition loop_inv :: "pass_env \<Rightarrow> jsval list \<Rightarrow> nat \<Rightarrow> pass_state \<Rightarrow> bool" where
  "loop_inv env msgs k s =
     (ps_inFlight s = length (ps_tasks s) \<and> ps_inFlight s \<le> maxConcurrent
      \<and> (\<forall>t \<in> set (ps_tasks s). t_frame t < k \<and> list_all (justified env msgs) (phase_calls (t_phase t)))
      \<and> list_all (justified env msgs) (ps_calls s))"

lemma start_task_inv:
  assumes "loop_inv env msgs (Suc (length (ps_frames s))) s" and "ps_inFlight s < maxConcurrent"
    and "list_all (justified env msgs) (planned_calls m acts)"
  shows "loop_inv env msgs (Suc (length (ps_frames s))) (start_task env m acts s)"
  using assms by (auto simp: loop_inv_def start_task_def Let_def list_all_iff dest: in_set_takeD)

lemma start_task_frame [simp]:
  "ps_frames (start_task env m acts s) = ps_frames s"
  "ps_store (start_task env m acts s) = ps_store s"
  "ps_reloadPending (start_task env m acts s) = ps_reloadPending s"
  "ps_reloads (start_task env m acts s) = ps_reloads s"
  "ps_outcome (start_task env m acts s) = ps_outcome s"
  by (simp_all add: start_task_def Let_def)

text \<open>What one turn of the loop can do; the proofs about the loop are inductions over these cases.\<close>

lemma pump_loop_turn:
  obtains
    (full) "maxConcurrent \<le> ps_inFlight s" and "pump_loop env s fr (msg # q) = (None, s\<lparr>ps_queue := msg # q\<rparr>, fr)"
  | (skip) fr1 where "ps_inFlight s < maxConcurrent" and "pump_loop env s fr (msg # q) = pump_loop env s fr1 q"
  | (throw) e fr1 where "\<not> rules_ok (pe_rules env)"
      and "pump_loop env s fr (msg # q) = (Some e, s\<lparr>ps_queue := q\<rparr>, fr1)"
  | (start) fr1 r acts where "ps_inFlight s < maxConcurrent" and "truthy msg" and "msg_id msg \<noteq> []"
      and "pickFirstMatchingRule (pe_rules env) (pass_ctx env msg) = Some r"
      and "filterSupportedActions (rule_actions r) = Inr acts"
      and "pump_loop env s fr (msg # q) = pump_loop env (start_task env (msg_id msg) acts s) fr1 q"
proof -
  let ?hit = "pickFirstMatchingRule (pe_rules env) (pass_ctx env msg)"
  consider "maxConcurrent \<le> ps_inFlight s"
    | "ps_inFlight s < maxConcurrent" "\<not> truthy msg \<or> msg_id msg = []"
    | "ps_inFlight s < maxConcurrent" "truthy msg" "msg_id msg \<noteq> []" "?hit = None"
    | r where "ps_inFlight s < maxConcurrent" "truthy msg" "msg_id msg \<noteq> []" "?hit = Some r"
    by (cases ?hit) fastforce+
  then show thesis
  proof cases
    case 1
    then show thesis by (intro full) simp_all
  next
    case 2
    then show thesis by (intro skip [of "fr\<lparr>fr_msg := msg\<rparr>"]) auto
  next
    case 3
    then show thesis by (intro skip [of "fr\<lparr>fr_msg := msg, fr_hit := None\<rparr>"]) (simp_all add: Let_def)
  next
    case (4 r)
    let ?fr2 = "fr\<lparr>fr_msg := msg, fr_hit := Some r\<rparr>"
    show thesis
    proof (cases "filterSupportedActions (rule_actions r)")
      case (Inl e)
      with filterSupportedActions_ok pickFirst_mem [OF 4(4)] have "\<not> rules_ok (pe_rules env)" by fastforce
      with 4 Inl show thesis by (intro throw [of e ?fr2]) (simp_all add: Let_def)
    next
      case (Inr acts)
      obtain fp where fp: "actionFingerprint (JArr acts) = Inr fp"
        using actionFingerprint_total filterSupportedActions_InrD(3) [OF Inr] by blast
      show thesis
      proof (cases "acts = [] \<or> pe_hasLedger env
          \<and> alreadyApplied (ps_store s) (msg_id msg) (getp r ''id'') fp (pe_rh env)")
        case True
        then show thesis
          using 4 Inr fp by (cases "acts = []")
            (auto intro: skip [of ?fr2] skip [of "?fr2\<lparr>fr_fp := fp\<rparr>"] simp: Let_def)
      next
        case False
        then show thesis
          using 4 Inr fp by (intro start [of r acts "?fr2\<lparr>fr_fp := fp\<rparr>"]) (auto simp: Let_def)
      qed
    qed
  qed
qed

lemma pump_loop_frame:
  assumes "pump_loop env s fr q = (ex, s', fr')"
  shows "ps_frames s' = ps_frames s \<and> ps_store s' = ps_store s
    \<and> ps_reloadPending s' = ps_reloadPending s
    \<and> ps_reloads s' = ps_reloads s \<and> ps_outcome s' = ps_outcome s"
  using assms
proof (induction q arbitrary: s fr)
  case (Cons msg q)
  show ?case
  proof (cases rule: pump_loop_turn [of s env fr msg q, case_names full skip throw start])
    case full
    with Cons.prems show ?thesis by auto
  next
    case (skip fr1)
    with Cons.prems Cons.IH [of s fr1] show ?thesis by (auto simp del: pump_loop.simps)
  next
    case (throw e fr1)
    with Cons.prems show ?thesis by (auto simp del: pump_loop.simps)
  next
    case (start fr1 r acts)
    with Cons.prems Cons.IH [of "start_task env (msg_id msg) acts s" fr1]
    show ?thesis by (auto simp del: pump_loop.simps)
  qed
qed auto

lemma pump_loop_inv:
  assumes "pump_loop env s fr q = (ex, s', fr')"
    and "loop_inv env msgs (Suc (length (ps_frames s))) s" and "set q \<subseteq> set msgs"
  shows "loop_inv env msgs (Suc (length (ps_frames s))) s' \<and> set (ps_queue s') \<subseteq> set q
    \<and> (ex = None \<longrightarrow> ps_queue s' = [] \<or> maxConcurrent \<le> ps_inFlight s')
    \<and> (rules_ok (pe_rules env) \<longrightarrow> ex = None)"
  using assms
proof (induction q arbitrary: s fr)
  case Nil
  then show ?case by (auto simp: loop_inv_def)
next
  case (Cons msg q)
  show ?case
  proof (cases rule: pump_loop_turn [of s env fr msg q, case_names full skip throw start])
    case full
    with Cons.prems show ?thesis by (auto simp: loop_inv_def)
  next
    case (skip fr1)
    with Cons.prems Cons.IH [of s fr1] show ?thesis by (auto simp del: pump_loop.simps)
  next
    case (throw e fr1)
    with Cons.prems show ?thesis by (auto simp: loop_inv_def simp del: pump_loop.simps)
  next
    case (start fr1 r acts)
    have "list_all (justified env msgs) (planned_calls (msg_id msg) acts)"
      using Cons.prems(3) start by (auto simp: list_all_iff justified_def)
    with start Cons.prems Cons.IH [of "start_task env (msg_id msg) acts s" fr1] start_task_inv [of env msgs s]
    show ?thesis by (auto simp del: pump_loop.simps)
  qed
qed

section \<open>Termination measure\<close>

fun phase_weight :: "phase \<Rightarrow> nat" where
  "phase_weight (Calling cs) = length cs + 2"
| "phase_weight Handled = 1"

definition task_weights :: "task list \<Rightarrow> nat" where
  "task_weights ts = sum_list (map (\<lambda>t. phase_weight (t_phase t)) ts)"

definition pass_measure :: "pass_env \<Rightarrow> pass_state \<Rightarrow> nat" where
  "pass_measure env s = task_weights (ps_tasks s) + (call_bound env + 2) * length (ps_queue s)"

lemma task_weights_append [simp]: "task_weights (ts @ us) = task_weights ts + task_weights us"
  by (simp add: task_weights_def)

lemma task_weights_split:
  "i < length ts \<Longrightarrow> task_weights ts = task_weights (take i ts) + phase_weight (t_phase (ts ! i)) + task_weights (drop (Suc i) ts)"
  by (subst id_take_nth_drop [of i ts]) (simp_all add: task_weights_def)

lemma task_weights_update:
  "i < length ts \<Longrightarrow>
   task_weights (ts[i := t]) = task_weights (take i ts) + phase_weight (t_phase t) + task_weights (drop (Suc i) ts)"
  by (simp add: upd_conv_take_nth_drop task_weights_def)

lemma pump_loop_measure:
  assumes "pump_loop env s fr q = (ex, s', fr')"
  shows "pass_measure env s' \<le> task_weights (ps_tasks s) + (call_bound env + 2) * length q"
  using assms
proof (induction q arbitrary: s fr)
  case Nil
  then show ?case by (auto simp: pass_measure_def)
next
  case (Cons msg q)
  show ?case
  proof (cases rule: pump_loop_turn [of s env fr msg q, case_names full skip throw start])
    case full
    with Cons.prems show ?thesis by (auto simp: pass_measure_def)
  next
    case (skip fr1)
    with Cons.prems Cons.IH [of s fr1] show ?thesis by (auto simp del: pump_loop.simps)
  next
    case (throw e fr1)
    with Cons.prems show ?thesis by (auto simp: pass_measure_def simp del: pump_loop.simps)
  next
    case (start fr1 r acts)
    have "task_weights (ps_tasks (start_task env (msg_id msg) acts s))
        \<le> task_weights (ps_tasks s) + (call_bound env + 2)"
      using planned_calls_bound [OF start(4,5), of "msg_id msg"]
      by (simp add: start_task_def Let_def task_weights_def)
    moreover have "pump_loop env (start_task env (msg_id msg) acts s) fr1 q = (ex, s', fr')"
      using Cons.prems start(6) by simp
    note Cons.IH [OF this]
    ultimately show ?thesis by simp
  qed
qed

section \<open>The invariant of a pass\<close>

definition pass_inv :: "pass_env \<Rightarrow> jsval list \<Rightarrow> pass_state \<Rightarrow> bool" where
  "pass_inv env msgs s =
     (loop_inv env msgs (length (ps_frames s)) s \<and> set (ps_queue s) \<subseteq> set msgs
      \<and> (ps_outcome s \<noteq> Resolved \<or> ps_tasks s = [] \<and> ps_queue s = [])
      \<and> (ps_reloads s = 0 \<or> ps_reloads s = 1 \<and> ps_tasks s = [])
      \<and> (rules_ok (pe_rules env) \<longrightarrow>
           ps_outcome s = Pending \<and> ps_tasks s \<noteq> [] \<or> ps_outcome s = Resolved))"

definition pump_pre :: "pass_env \<Rightarrow> jsval list \<Rightarrow> pass_state \<Rightarrow> bool" where
  "pump_pre env msgs s =
     (loop_inv env msgs (length (ps_frames s)) s \<and> set (ps_queue s) \<subseteq> set msgs
      \<and> ps_reloads s = 0 \<and> ps_outcome s \<noteq> Resolved
      \<and> (rules_ok (pe_rules env) \<longrightarrow> ps_outcome s = Pending))"

lemma loop_inv_mono: "loop_inv env msgs k s \<Longrightarrow> k \<le> k' \<Longrightarrow> loop_inv env msgs k' s"
  by (fastforce simp: loop_inv_def)

lemma loop_inv_cong:
  "ps_inFlight s' = ps_inFlight s \<Longrightarrow> ps_tasks s' = ps_tasks s \<Longrightarrow> ps_calls s' = ps_calls s \<Longrightarrow>
   loop_inv env msgs k s' = loop_inv env msgs k s"
  by (simp add: loop_inv_def)

lemma pump_inv:
  assumes "pump_pre env msgs s" and "pump env s = (ex, s')"
  shows "pass_inv env msgs s' \<and> (rules_ok (pe_rules env) \<longrightarrow> ex = None)"
proof -
  obtain ex1 s1 fr where l: "pump_loop env s new_frame (ps_queue s) = (ex1, s1, fr)"
    by (cases "pump_loop env s new_frame (ps_queue s)") auto
  have li: "loop_inv env msgs (Suc (length (ps_frames s))) s"
    using assms(1) by (auto simp: pump_pre_def intro: loop_inv_mono)
  have q: "set (ps_queue s) \<subseteq> set msgs" using assms(1) by (simp add: pump_pre_def)
  note inv = pump_loop_inv [OF l li q] and frame = pump_loop_frame [OF l]
  have ex: "ex = ex1" using assms(2) l by (auto simp: pump_def Let_def split: option.splits)
  have fields: "ps_inFlight s' = ps_inFlight s1" "ps_tasks s' = ps_tasks s1" "ps_calls s' = ps_calls s1"
      "ps_queue s' = ps_queue s1" "ps_frames s' = ps_frames s @ [fr]"
    using assms(2) l frame by (auto simp: pump_def Let_def finish_pass_def split: option.splits if_splits)
  have li': "loop_inv env msgs (length (ps_frames s')) s'"
    using inv loop_inv_cong [OF fields(1-3)] by (simp add: fields(5))
  have len: "ps_inFlight s1 = length (ps_tasks s1)" using inv by (simp add: loop_inv_def)
  have out: "ps_outcome s' \<noteq> Resolved \<or> ps_tasks s' = [] \<and> ps_queue s' = []"
      "ps_reloads s' = 0 \<or> ps_reloads s' = 1 \<and> ps_tasks s' = []"
    using assms l frame len
    by (auto simp: pump_def pump_pre_def Let_def finish_pass_def split: option.splits if_splits)
  have good: "ps_outcome s' = Pending \<and> ps_tasks s' \<noteq> [] \<or> ps_outcome s' = Resolved"
    if "rules_ok (pe_rules env)"
  proof -
    have none: "ex1 = None" using inv that by blast
    with inv have "ps_queue s1 = [] \<or> maxConcurrent \<le> ps_inFlight s1" by blast
    with none assms that l frame len show ?thesis
      by (auto simp: pump_def pump_pre_def Let_def finish_pass_def maxConcurrent_def split: if_splits)
  qed
  show ?thesis
    using li' out good inv q ex unfolding pass_inv_def by (auto simp: fields(4))
qed

lemma set_phase_fields [simp]:
  "ps_queue (set_phase i p s) = ps_queue s" "ps_inFlight (set_phase i p s) = ps_inFlight s"
  "ps_frames (set_phase i p s) = ps_frames s" "ps_calls (set_phase i p s) = ps_calls s"
  "ps_reloads (set_phase i p s) = ps_reloads s" "ps_outcome (set_phase i p s) = ps_outcome s"
  "ps_store (set_phase i p s) = ps_store s"
  "ps_tasks (set_phase i p s) = (ps_tasks s)[i := (ps_tasks s ! i)\<lparr>t_phase := p\<rparr>]"
  by (simp_all add: set_phase_def)

lemma on_applied_fields [simp]:
  "ps_queue (on_applied env fr s) = ps_queue s" "ps_inFlight (on_applied env fr s) = ps_inFlight s"
  "ps_frames (on_applied env fr s) = ps_frames s" "ps_calls (on_applied env fr s) = ps_calls s"
  "ps_reloads (on_applied env fr s) = ps_reloads s" "ps_outcome (on_applied env fr s) = ps_outcome s"
  "ps_tasks (on_applied env fr s) = ps_tasks s"
  by (auto simp: on_applied_def split: option.splits)

lemma ball_set_update: "\<forall>x \<in> set xs. P x \<Longrightarrow> P y \<Longrightarrow> \<forall>x \<in> set (xs[i := y]). P x"
  using set_update_subset_insert [of xs i y] by blast

lemma set_phase_loop_inv:
  assumes "loop_inv env msgs k s" and "i < length (ps_tasks s)"
    and "list_all (justified env msgs) (phase_calls p)"
  shows "loop_inv env msgs k (set_phase i p s)"
proof -
  let ?P = "\<lambda>t. t_frame t < k \<and> list_all (justified env msgs) (phase_calls (t_phase t))"
  have ts: "\<forall>t \<in> set (ps_tasks s). ?P t" using assms(1) by (simp add: loop_inv_def)
  then have "?P ((ps_tasks s ! i)\<lparr>t_phase := p\<rparr>)" using assms(2,3) by simp
  from ball_set_update [OF ts this] assms(1) show ?thesis by (simp add: loop_inv_def)
qed

lemma set_phase_inv:
  assumes "pass_inv env msgs s" and "i < length (ps_tasks s)"
    and "list_all (justified env msgs) (phase_calls p)"
  shows "pass_inv env msgs (set_phase i p s)"
  using assms set_phase_loop_inv [of env msgs "length (ps_frames s)" s i p] by (simp add: pass_inv_def)

lemma pass_inv_task:
  "pass_inv env msgs s \<Longrightarrow> i < length (ps_tasks s) \<Longrightarrow>
   list_all (justified env msgs) (phase_calls (t_phase (ps_tasks s ! i)))"
  by (auto simp: pass_inv_def loop_inv_def)

lemma task_step_inv:
  assumes inv: "pass_inv env msgs s" and i: "i < length (ps_tasks s)"
  shows "pass_inv env msgs (task_step env i ok s)"
proof (cases "t_phase (ps_tasks s ! i)")
  case (Calling cs)
  note just = pass_inv_task [OF inv i]
  show ?thesis
  proof (cases cs)
    case Nil
    let ?s = "on_applied env (ps_frames s ! t_frame (ps_tasks s ! i)) s"
    have "pass_inv env msgs ?s"
      using inv loop_inv_cong [of ?s s] by (simp add: pass_inv_def)
    with i show ?thesis by (simp add: task_step_def Calling Nil set_phase_inv)
  next
    case (Cons c cs')
    have just': "list_all (justified env msgs) cs'" using just by (simp add: Calling Cons)
    then have "list_all (justified env msgs) (take 1 cs')" by (cases cs') simp_all
    then have "pass_inv env msgs (s\<lparr>ps_calls := ps_calls s @ take 1 cs'\<rparr>)"
      using inv by (simp add: pass_inv_def loop_inv_def)
    with inv i just' show ?thesis by (simp add: task_step_def Calling Cons set_phase_inv)
  qed
next
  case Handled
  let ?s = "s\<lparr>ps_tasks := take i (ps_tasks s) @ drop (Suc i) (ps_tasks s), ps_inFlight := ps_inFlight s - 1\<rparr>"
  have ne: "ps_tasks s \<noteq> []" using i by auto
  have "set (ps_tasks ?s) \<subseteq> set (ps_tasks s)" by (auto dest: in_set_takeD in_set_dropD)
  moreover have "length (ps_tasks ?s) = length (ps_tasks s) - 1" using i by simp
  ultimately have "loop_inv env msgs (length (ps_frames s)) ?s"
    using inv unfolding pass_inv_def loop_inv_def by (auto dest: in_set_takeD in_set_dropD)
  then have "pump_pre env msgs ?s"
    using inv ne by (auto simp: pass_inv_def pump_pre_def)
  then show ?thesis
    using pump_inv [of env msgs ?s] by (cases "pump env ?s") (simp add: task_step_def Handled on_settled_def)
qed

lemma initial_pump_pre: "pump_pre env msgs (initial_state env w msgs)"
  by (simp add: pump_pre_def loop_inv_def initial_state_def Let_def)

lemma runInboxFilterPass_inv: "pass_inv env msgs (runInboxFilterPass env w msgs)"
proof -
  obtain ex s where p: "pump env (initial_state env w msgs) = (ex, s)" by (cases "pump env (initial_state env w msgs)")
  note inv = pump_inv [OF initial_pump_pre p]
  then show ?thesis
    by (cases ex) (auto simp: runInboxFilterPass_def p pass_inv_def loop_inv_def)
qed

interpretation pass: invariant_system
  "\<lambda>s. \<exists>w. s = runInboxFilterPass env w msgs" "pass_step env" "pass_inv env msgs" for env msgs
  by unfold_locales (auto simp: runInboxFilterPass_inv elim!: pass_stepE intro: task_step_inv)

lemma pass_run_inv: "(pass_step env)\<^sup>*\<^sup>* (runInboxFilterPass env w msgs) s \<Longrightarrow> pass_inv env msgs s"
  using pass.steps_inv runInboxFilterPass_inv by blast

lemma task_step_measure:
  assumes "i < length (ps_tasks s)"
  shows "pass_measure env (task_step env i ok s) < pass_measure env s"
proof (cases "t_phase (ps_tasks s ! i)")
  case (Calling cs)
  then show ?thesis
    using assms task_weights_split [OF assms]
    by (cases cs) (auto simp: task_step_def pass_measure_def task_weights_update)
next
  case Handled
  let ?s = "s\<lparr>ps_tasks := take i (ps_tasks s) @ drop (Suc i) (ps_tasks s), ps_inFlight := ps_inFlight s - 1\<rparr>"
  obtain ex s1 fr where l: "pump_loop env ?s new_frame (ps_queue ?s) = (ex, s1, fr)"
    by (cases "pump_loop env ?s new_frame (ps_queue ?s)") auto
  have "pass_measure env (task_step env i ok s) = pass_measure env s1"
    using l by (auto simp: task_step_def Handled on_settled_def pump_def Let_def finish_pass_def
        pass_measure_def split: option.splits)
  with pump_loop_measure [OF l] task_weights_split [OF assms] Handled
  show ?thesis by (simp add: pass_measure_def)
qed

lemma pass_step_bound: "(pass_step env ^^ n) s t \<Longrightarrow> n + pass_measure env t \<le> pass_measure env s"
proof (induction n arbitrary: t)
  case (Suc n)
  then obtain u where u: "(pass_step env ^^ n) s u" "pass_step env u t" by auto
  from u(2) have "pass_measure env t < pass_measure env u"
    by (auto elim!: pass_stepE intro: task_step_measure)
  with Suc.IH [OF u(1)] show ?case by simp
qed simp

lemma initial_measure:
  "pass_measure env (runInboxFilterPass env w msgs) \<le> (call_bound env + 2) * length msgs"
proof -
  let ?s = "initial_state env w msgs"
  obtain ex s1 fr where l: "pump_loop env ?s new_frame (ps_queue ?s) = (ex, s1, fr)"
    by (cases "pump_loop env ?s new_frame (ps_queue ?s)") auto
  have "pass_measure env (runInboxFilterPass env w msgs) = pass_measure env s1"
    using l by (auto simp: runInboxFilterPass_def pump_def Let_def finish_pass_def
        pass_measure_def split: option.splits)
  with pump_loop_measure [OF l] show ?thesis
    by (simp add: initial_state_def Let_def task_weights_def)
qed

lemma no_step_no_tasks: "(\<nexists>t. pass_step env s t) \<longleftrightarrow> ps_tasks s = []"
  by (auto elim!: pass_stepE intro: pass_step.intros [where i = 0])

lemma run_schedule_steps: "(pass_step env)\<^sup>*\<^sup>* s (run_schedule env sch s)"
proof (induction sch arbitrary: s)
  case (Cons p sch)
  obtain i ok where p: "p = (i, ok)" by (cases p)
  show ?case
    using Cons.IH by (auto simp: p intro: converse_rtranclp_into_rtranclp [where r = "pass_step env"] pass_step.intros)
qed simp

section \<open>One message\<close>

text \<open>With one message in the inbox no variable is shared, and the pass does what it should.\<close>

definition one_task :: "pass_state \<Rightarrow> api_call list \<Rightarrow> pass_state" where
  "one_task s cs = s\<lparr>ps_tasks := [\<lparr>t_frame = 0, t_phase = Calling cs\<rparr>]\<rparr>"

lemma one_task_calls:
  "run_schedule env (replicate (length cs) (0, True) @ sch) (one_task s cs) =
   run_schedule env sch (one_task (s\<lparr>ps_calls := ps_calls s @ tl cs\<rparr>) [])"
proof (induction cs arbitrary: s)
  case (Cons c cs)
  have "task_step env 0 True (one_task s (c # cs)) = one_task (s\<lparr>ps_calls := ps_calls s @ take 1 cs\<rparr>) cs"
    by (simp add: task_step_def one_task_def set_phase_def)
  then have "run_schedule env (replicate (length (c # cs)) (0, True) @ sch) (one_task s (c # cs)) =
      run_schedule env sch (one_task (s\<lparr>ps_calls := (ps_calls s @ take 1 cs) @ tl cs\<rparr>) [])"
    using Cons.IH [of "s\<lparr>ps_calls := ps_calls s @ take 1 cs\<rparr>"] by (simp add: one_task_def)
  moreover have "take 1 cs @ tl cs = cs" by (cases cs) simp_all
  ultimately show ?case by simp
qed (simp add: one_task_def)

definition one_match :: "pass_env \<Rightarrow> jsval \<Rightarrow> jsval \<Rightarrow> jsval list \<Rightarrow> string \<Rightarrow> bool" where
  "one_match env msg r acts fp =
     (truthy msg \<and> pe_hasLedger env \<and> pe_hasManifest env
      \<and> pickFirstMatchingRule (pe_rules env) (pass_ctx env msg) = Some r
      \<and> filterSupportedActions (rule_actions r) = Inr acts \<and> acts \<noteq> []
      \<and> actionFingerprint (JArr acts) = Inr fp
      \<and> ledger_key (msg_id msg) (getp r ''id'') (pe_rh env))"

lemma one_match_id: "one_match env msg r acts fp \<Longrightarrow> msg_id msg \<noteq> []"
  by (simp add: one_match_def ledger_key_def recordable_def)

lemma one_message_start:
  assumes m: "one_match env msg r acts fp"
    and new: "\<not> alreadyApplied (ps_store (initial_state env w [msg])) (msg_id msg) (getp r ''id'') fp (pe_rh env)"
  shows "runInboxFilterPass env w [msg] =
    one_task ((initial_state env w [msg])\<lparr>ps_queue := [], ps_inFlight := 1,
        ps_calls := take 1 (planned_calls (msg_id msg) acts),
        ps_frames := [\<lparr>fr_msg = msg, fr_hit = Some r, fr_fp = fp\<rparr>]\<rparr>)
      (planned_calls (msg_id msg) acts)"
  using assms one_match_id [OF m]
  by (simp add: one_match_def runInboxFilterPass_def pump_def initial_state_def Let_def maxConcurrent_def
      start_task_def new_frame_def one_task_def)

lemma one_task_finish:
  assumes "pe_hasLedger env" and "ps_queue s = []" and "ps_inFlight s = 1" and "ps_outcome s = Pending"
    and "ps_frames s = [\<lparr>fr_msg = msg, fr_hit = Some r, fr_fp = fp\<rparr>]" and "truthy msg"
  shows "ps_outcome (run_schedule env [(0, True), (0, True)] (one_task s [])) = Resolved"
    and "ps_calls (run_schedule env [(0, True), (0, True)] (one_task s [])) = ps_calls s"
    and "ps_store (run_schedule env [(0, True), (0, True)] (one_task s [])) =
      record_applied (ps_store s) (msg_id msg) (getp r ''id'') fp (pe_rh env)"
  using assms
  by (auto simp: one_task_def task_step_def on_applied_def set_phase_def on_settled_def pump_def
      finish_pass_def Let_def nullish_def)

lemma lookup_idSet: "msg_id msg \<noteq> [] \<Longrightarrow> msg_id msg \<noteq> ''__proto__'' \<Longrightarrow> truthy msg \<Longrightarrow>
    lookup_truthy (own_props (idSet [msg])) (msg_id msg)"
  by (simp add: idSet_def lookup_truthy_def)

lemma initial_store_applied:
  assumes ok: "ledger_ok w" and m: "one_match env msg r acts fp"
    and app: "alreadyApplied w (msg_id msg) (getp r ''id'') fp (pe_rh env)"
  shows "alreadyApplied (ps_store (initial_state env w [msg])) (msg_id msg) (getp r ''id'') fp (pe_rh env)"
proof -
  let ?w = "syncRulesHash w (pe_rh env)"
  have key: "ledger_key (msg_id msg) (getp r ''id'') (pe_rh env)"
    and rec: "recordable (msg_id msg) (getp r ''id'') (pe_rh env)"
    and led: "pe_hasLedger env" and t: "truthy msg"
    using m by (simp_all add: one_match_def ledger_key_def)
  have "alreadyApplied ?w (msg_id msg) (getp r ''id'') fp (pe_rh env)"
    using ledger.applied_sync [OF ok key] app by blast
  moreover have "lookup_truthy (own_props (idSet [msg])) (msg_id msg)"
    using rec t lookup_idSet by (simp add: recordable_def)
  ultimately have "alreadyApplied (pruneMissing ?w (own_props (idSet [msg]))) (msg_id msg) (getp r ''id'') fp (pe_rh env)"
    using rec pruneMissing_refines(2) [OF ledger.good_sync [OF ok]]
    by (simp add: alreadyApplied_abs abs_prune_def recordable_def)
  then show ?thesis by (simp add: initial_state_def Let_def led)
qed

lemma one_message_skip:
  assumes "one_match env msg r acts fp"
    and "alreadyApplied (ps_store (initial_state env w [msg])) (msg_id msg) (getp r ''id'') fp (pe_rh env)"
  shows "ps_calls (runInboxFilterPass env w [msg]) = []"
  using assms one_match_id [OF assms(1)]
  by (simp add: one_match_def runInboxFilterPass_def pump_def initial_state_def Let_def maxConcurrent_def
      finish_pass_def)

section \<open>A concrete inbox\<close>

definition pass_rule :: jsval where
  "pass_rule =
     JObj [(''id'', JStr ''a''),
           (''conditions'', JArr [JObj [(''type'', JStr ''sender''), (''value'', JStr ''news'')]]),
           (''actions'', JArr [JObj [(''type'', JStr ''delete'')]])]"

definition pass_msg :: "string \<Rightarrow> jsval" where
  "pass_msg i = JObj [(''id'', JStr i), (''from_addr'', JStr ''news@x'')]"

definition demo_env :: pass_env where
  "demo_env = \<lparr>pe_rules = [pass_rule], pe_rh = ''r1'', pe_bodyById = JObj [], pe_hasLedger = True,
     pe_hasManifest = True, pe_hasOnReload = True\<rparr>"

definition fresh_storage :: web_storage where
  "fresh_storage = \<lparr>items = (\<lambda>_. None), readable = True, writable = True\<rparr>"

definition demo_run :: pass_state where
  "demo_run = run_schedule demo_env (replicate 6 (0, True))
     (runInboxFilterPass demo_env fresh_storage [pass_msg ''m1'', pass_msg ''m2''])"

lemma demo_run_steps:
  "(pass_step demo_env)\<^sup>*\<^sup>* (runInboxFilterPass demo_env fresh_storage [pass_msg ''m1'', pass_msg ''m2'']) demo_run"
  unfolding demo_run_def by (rule run_schedule_steps)

section \<open>Properties\<close>

text \<open>
  C11. Whatever the API answers and in whatever order: at every moment of a pass \<open>inFlight\<close> is the
  number of promise chains under way and never more than three, the pass calls \<open>onReload\<close> at most
  once, and once its promise is resolved nothing is queued or under way any more.
\<close>

theorem pass_concurrency:
  assumes "(pass_step env)\<^sup>*\<^sup>* (runInboxFilterPass env w msgs) s"
  shows "ps_inFlight s = length (ps_tasks s) \<and> ps_inFlight s \<le> 3 \<and> ps_reloads s \<le> 1
    \<and> (ps_outcome s = Resolved \<longrightarrow> ps_tasks s = [] \<and> ps_queue s = [])"
  using pass_run_inv [OF assms] by (auto simp: pass_inv_def loop_inv_def maxConcurrent_def)

theorem pass_concurrency_witness:
  "ps_inFlight demo_run = length (ps_tasks demo_run) \<and> ps_inFlight demo_run \<le> 3 \<and> ps_reloads demo_run \<le> 1
   \<and> ps_tasks demo_run = [] \<and> ps_queue demo_run = []"
proof -
  have "ps_outcome demo_run = Resolved" by code_simp
  with pass_concurrency [OF demo_run_steps] show ?thesis by blast
qed

text \<open>
  C1. A pass always comes to its end: when no rule holds a \<open>null\<close> action, every run takes at most
  \<open>(n + 2) * m\<close> microtasks for \<open>m\<close> messages and \<open>n\<close> actions in the rules, and a run that cannot go
  on has resolved its promise. (A \<open>null\<close> action makes \<open>pump\<close> throw.)
\<close>

theorem pass_terminates:
  assumes "rules_ok (pe_rules env)" and "(pass_step env ^^ n) (runInboxFilterPass env w msgs) s"
  shows "n \<le> (call_bound env + 2) * length msgs \<and> ((\<nexists>t. pass_step env s t) \<longrightarrow> ps_outcome s = Resolved)"
proof
  show "n \<le> (call_bound env + 2) * length msgs"
    using pass_step_bound [OF assms(2)] initial_measure [of env w msgs] by linarith
  have "pass_inv env msgs s" using pass_run_inv assms(2) by (blast intro: relpowp_imp_rtranclp)
  with assms(1) show "(\<nexists>t. pass_step env s t) \<longrightarrow> ps_outcome s = Resolved"
    unfolding no_step_no_tasks by (auto simp: pass_inv_def)
qed

theorem pass_terminates_witness:
  "\<exists>n \<le> (call_bound demo_env + 2) * 2. (pass_step demo_env ^^ n)
      (runInboxFilterPass demo_env fresh_storage [pass_msg ''m1'', pass_msg ''m2'']) demo_run
    \<and> ps_outcome demo_run = Resolved"
proof -
  obtain n where n: "(pass_step demo_env ^^ n)
      (runInboxFilterPass demo_env fresh_storage [pass_msg ''m1'', pass_msg ''m2'']) demo_run"
    using demo_run_steps by (blast dest: rtranclp_imp_relpowp)
  have "rules_ok (pe_rules demo_env)" by code_simp
  note bound = pass_terminates [OF this n]
  have "ps_tasks demo_run = []" by code_simp
  then have "\<nexists>t. pass_step demo_env demo_run t" unfolding no_step_no_tasks .
  with bound have "n \<le> (call_bound demo_env + 2) * 2" "ps_outcome demo_run = Resolved" by simp_all
  with n show ?thesis by blast
qed

text \<open>
  Every API call a pass issues is one of the calls that the supported actions of a rule plan
  for a message of the inbox, the rule being the first that matches that message.
\<close>

theorem pass_calls_justified:
  assumes "(pass_step env)\<^sup>*\<^sup>* (runInboxFilterPass env w msgs) s" and "c \<in> set (ps_calls s)"
  shows "\<exists>msg \<in> set msgs. \<exists>r acts. pickFirstMatchingRule (pe_rules env) (pass_ctx env msg) = Some r
    \<and> filterSupportedActions (rule_actions r) = Inr acts \<and> c \<in> set (planned_calls (msg_id msg) acts)"
  using pass_run_inv [OF assms(1)] assms(2)
  unfolding pass_inv_def loop_inv_def list_all_iff justified_def by blast

theorem pass_calls_justified_witness:
  "\<exists>msg \<in> {pass_msg ''m1'', pass_msg ''m2''}. \<exists>r acts.
     pickFirstMatchingRule (pe_rules demo_env) (pass_ctx demo_env msg) = Some r
     \<and> filterSupportedActions (rule_actions r) = Inr acts
     \<and> DeleteMessage ''m2'' False \<in> set (planned_calls (msg_id msg) acts)"
proof -
  have "list_ex (\<lambda>c. c = DeleteMessage ''m2'' False) (ps_calls demo_run)" by code_simp
  then have "DeleteMessage ''m2'' False \<in> set (ps_calls demo_run)" by (auto simp: list_ex_iff)
  from pass_calls_justified [OF demo_run_steps this] show ?thesis by simp
qed

text \<open>
  \<open>applyActions\<close> makes its calls one after the other: against any API the calls made are an
  initial part of the planned ones, and when no call fails they are all of them and the result
  says that the actions were applied.
\<close>

theorem applyActions_sequential:
  assumes "filterSupportedActions actions = Inr acts" and "acts \<noteq> []" and "m \<noteq> []"
  shows "(\<exists>n. fst (applyActions True api m actions) = take n (planned_calls m acts))
    \<and> fst (applyActions True (\<lambda>_ _. Inr ()) m actions) = planned_calls m acts
    \<and> (\<exists>sk. snd (applyActions True (\<lambda>_ _. Inr ()) m actions) = Inr \<lparr>applied = True, skipped = sk\<rparr>)"
proof (intro conjI)
  obtain n where "fst (run api m [] [] acts) = take n (planned_calls m acts)"
    using run_prefix [of api m "[]" "[]" acts] by auto
  then show "\<exists>n. fst (applyActions True api m actions) = take n (planned_calls m acts)"
    using assms by (auto simp: applyActions_def split: prod.splits sum.splits)
qed (use assms in \<open>simp_all add: applyActions_def run_success\<close>)

theorem applyActions_sequential_witness:
  "fst (applyActions True (\<lambda>_ _. Inr ()) ''m1'' (JArr [JObj [(''type'', JStr ''mark_read'')]])) =
     [SetMessageRead ''m1'' True]"
proof -
  let ?acts = "[JObj [(''type'', JStr ''mark_read'')]]"
  have supp: "filterSupportedActions (JArr ?acts) = Inr ?acts" by code_simp
  have "planned_calls ''m1'' ?acts = [SetMessageRead ''m1'' True]" by code_simp
  with applyActions_sequential [OF supp, of "''m1''"] show ?thesis by simp
qed

text \<open>
  A pass never supplies the size of a message, so a rule with a \<open>size\<close> condition is never
  chosen by it, although \<open>SUPPORTED_CONDITION_TYPES\<close> lists \<open>size\<close> as supported.
\<close>

theorem size_rules_never_fire:
  assumes "cond \<in> set (js_elems (getp r ''conditions''))" and "truthy cond" and "typeof_object cond"
    and "cond_type cond = ''size''"
  shows "pickFirstMatchingRule (pe_rules env) (pass_ctx env msg) \<noteq> Some r"
proof
  assume "pickFirstMatchingRule (pe_rules env) (pass_ctx env msg) = Some r"
  then have "ruleMatches r (pass_ctx env msg)" by (auto dest: pickFirst_SomeD)
  then have "conditionMatches cond (pass_ctx env msg)"
    using assms(1) by (auto simp: ruleMatches_def Let_def list_all_iff split: if_splits)
  moreover have "ctx_sizeBytes (pass_ctx env msg) = None"
    by (simp add: pass_ctx_def buildContext_def Let_def)
  ultimately show False
    using assms(2-4) by (simp add: conditionMatches_def size_matches_def Let_def split: if_splits)
qed

theorem size_rules_never_fire_witness:
  "pickFirstMatchingRule (pe_rules demo_env) (pass_ctx demo_env (pass_msg ''m1''))
     \<noteq> Some (JObj [(''conditions'', JArr [JObj [(''type'', JStr ''Size'')]])])"
proof (rule size_rules_never_fire)
  show "JObj [(''type'', JStr ''Size'')]
      \<in> set (js_elems (getp (JObj [(''conditions'', JArr [JObj [(''type'', JStr ''Size'')]])]) ''conditions''))"
    by simp
  show "cond_type (JObj [(''type'', JStr ''Size'')]) = ''size''" by code_simp
qed simp_all

text \<open>
  A pass over an inbox of one message is idempotent: when the message matches a rule, is not yet
  in the ledger and no call fails, the pass issues exactly the planned calls in order, resolves its
  promise, and another pass over the same inbox with the storage it leaves issues no call.
\<close>

theorem single_message_idempotent:
  assumes "one_match env msg r acts fp" and "ledger_ok (ps_store (initial_state env w [msg]))"
    and "\<not> alreadyApplied (ps_store (initial_state env w [msg])) (msg_id msg) (getp r ''id'') fp (pe_rh env)"
  shows "\<exists>n. let s = run_schedule env (replicate n (0, True)) (runInboxFilterPass env w [msg]) in
    ps_outcome s = Resolved \<and> ps_calls s = planned_calls (msg_id msg) acts
    \<and> ps_calls (runInboxFilterPass env (ps_store s) [msg]) = []"
proof -
  let ?cs = "planned_calls (msg_id msg) acts"
  let ?fr = "\<lparr>fr_msg = msg, fr_hit = Some r, fr_fp = fp\<rparr>"
  let ?full = "(initial_state env w [msg])\<lparr>ps_queue := [], ps_inFlight := 1, ps_calls := ?cs, ps_frames := [?fr]\<rparr>"
  let ?s = "run_schedule env (replicate (length ?cs + 2) (0, True)) (runInboxFilterPass env w [msg])"
  have led: "pe_hasLedger env" "truthy msg" using assms(1) by (simp_all add: one_match_def)
  have cs: "take 1 ?cs @ tl ?cs = ?cs" by (cases ?cs) simp_all
  have sch: "replicate (length ?cs + 2) (0 :: nat, True) = replicate (length ?cs) (0, True) @ [(0, True), (0, True)]"
    by (simp only: replicate_add) (simp add: numeral_2_eq_2)
  let ?first = "?full\<lparr>ps_calls := take 1 ?cs\<rparr>"
  have start: "runInboxFilterPass env w [msg] = one_task ?first ?cs"
    by (subst one_message_start [OF assms(1,3)]) (simp add: one_task_def)
  have "?first\<lparr>ps_calls := ps_calls ?first @ tl ?cs\<rparr> = ?full" using cs by simp
  with one_task_calls [of env ?cs "[(0, True), (0, True)]" ?first]
  have s: "?s = run_schedule env [(0, True), (0, True)] (one_task ?full [])"
    unfolding start sch by (simp only:)
  have fin: "ps_outcome ?s = Resolved" "ps_calls ?s = ?cs"
      "ps_store ?s = record_applied (ps_store (initial_state env w [msg])) (msg_id msg) (getp r ''id'') fp (pe_rh env)"
    unfolding s using one_task_finish [OF led(1) _ _ _ _ led(2), of ?full r fp]
    by (simp_all add: initial_state_def Let_def del: run_schedule.simps)
  have key: "ledger_key (msg_id msg) (getp r ''id'') (pe_rh env)" using assms(1) by (simp add: one_match_def)
  have "ps_calls (runInboxFilterPass env (ps_store ?s) [msg]) = []"
    using ledger.applied_rec [OF assms(2) key, of fp] ledger.good_rec [OF assms(2) key, of fp]
    by (intro one_message_skip [OF assms(1)] initial_store_applied [OF _ assms(1)]) (simp_all only: fin(3))
  with fin(1,2) show ?thesis unfolding Let_def by blast
qed

theorem single_message_idempotent_witness:
  "\<exists>n. let s = run_schedule demo_env (replicate n (0, True)) (runInboxFilterPass demo_env fresh_storage [pass_msg ''m1'']) in
    ps_outcome s = Resolved \<and> ps_calls s = planned_calls (msg_id (pass_msg ''m1'')) [JObj [(''type'', JStr ''delete'')]]
    \<and> ps_calls (runInboxFilterPass demo_env (ps_store s) [pass_msg ''m1'']) = []"
proof (rule single_message_idempotent)
  have "ledger_ok fresh_storage"
    by (simp add: ledger_ok_def fresh_storage_def available_def readStore_def getItem_def empty_store_def Let_def)
  then show "ledger_ok (ps_store (initial_state demo_env fresh_storage [pass_msg ''m1'']))"
    by (simp add: initial_state_def Let_def syncRulesHash_refines pruneMissing_refines)
  show "one_match demo_env (pass_msg ''m1'') pass_rule [JObj [(''type'', JStr ''delete'')]]
      ''[{\"type\":\"delete\",\"value\":\"\"}]''" by code_simp
  show "\<not> alreadyApplied (ps_store (initial_state demo_env fresh_storage [pass_msg ''m1'']))
     (msg_id (pass_msg ''m1'')) (getp pass_rule ''id'') ''[{\"type\":\"delete\",\"value\":\"\"}]'' (pe_rh demo_env)"
    by code_simp
qed

text \<open>
  The local variables of \<open>pump\<close> are shared by all promise chains one invocation starts: when two
  messages match in the same invocation and every API call succeeds, the ledger records the second
  message only. The first one is not known as applied, and the next pass over the same inbox, with
  the same rules, issues its calls again.
\<close>

theorem ledger_misses_earlier_messages:
  "ps_outcome demo_run = Resolved
   \<and> list_all (\<lambda>c. c \<in> set (ps_calls demo_run))
       [DeleteMessage ''m1'' False, DeleteMessage ''m2'' False]
   \<and> ps_calls (runInboxFilterPass demo_env (ps_store demo_run) [pass_msg ''m1'', pass_msg ''m2''])
       = [DeleteMessage ''m1'' False]"
proof (intro conjI)
  show "ps_outcome demo_run = Resolved" by code_simp
  show "list_all (\<lambda>c. c \<in> set (ps_calls demo_run))
       [DeleteMessage ''m1'' False, DeleteMessage ''m2'' False]"
    by code_simp
  show "ps_calls (runInboxFilterPass demo_env (ps_store demo_run) [pass_msg ''m1'', pass_msg ''m2''])
       = [DeleteMessage ''m1'' False]" by code_simp
qed

end
