(* ===== verification/JS_Bytes.thy ===== *)
theory JS_Bytes
  imports JS_Json
begin

text \<open>
  Byte arrays and their text forms: UTF-8 as \<open>TextEncoder\<close> and \<open>TextDecoder\<close> produce and read it
  (for strings of code units below 256), and base64 as \<open>btoa\<close> and \<open>atob\<close> define it, white space and
  missing padding included. The lemmas are the round trips the wire formats of the other components
  rest on.
\<close>

type_synonym byte = "8 word"
type_synonym bytes = "byte list"

section \<open>Bytes and Latin-1 characters\<close>

definition char_of_byte :: "byte \<Rightarrow> char" where
  "char_of_byte b = char_of (unat b)"

definition byte_of_char :: "char \<Rightarrow> byte" where
  "byte_of_char c = of_nat (code_unit c)"

declare char_of_byte_def [js_eval] byte_of_char_def [js_eval]

lemma unat_byte_less: "unat (b :: byte) < 256"
  using unsigned_less [of b] by simp

lemma byte_of_char_of_byte [simp]: "byte_of_char (char_of_byte b) = b"
  using unat_byte_less [of b]
  by (simp add: byte_of_char_def char_of_byte_def code_unit_def unsigned_of_nat take_bit_nat_def)

lemma char_of_byte_of_char [simp]: "char_of_byte (byte_of_char c) = c"
  using code_unit_bound [of c]
  by (simp add: byte_of_char_def char_of_byte_def unsigned_of_nat take_bit_nat_def)
     (simp add: code_unit_def)

lemma map_byte_char [simp]: "map byte_of_char (map char_of_byte bs) = bs"
  by (induction bs) simp_all

lemma map_char_byte [simp]: "map char_of_byte (map byte_of_char s) = s"
  by (induction s) simp_all

section \<open>UTF-8\<close>

definition utf8_char :: "char \<Rightarrow> bytes" where
  "utf8_char c =
     (let n = code_unit c in
      if n < 128 then [of_nat n] else [of_nat (192 + n div 64), of_nat (128 + n mod 64)])"

definition utf8_encode :: "string \<Rightarrow> bytes" where
  "utf8_encode s = concat (map utf8_char s)"

text \<open>
  Decoding: one byte below 128, or a two-byte sequence for a code unit below 256. Other sequences
  denote characters outside the modelled range or are malformed; the decoder gives \<open>None\<close>.
\<close>

fun utf8_decode :: "bytes \<Rightarrow> string option" where
  "utf8_decode [] = Some []"
| "utf8_decode (b # bs) =
     (if unat b < 128 then map_option (Cons (char_of (unat b))) (utf8_decode bs)
      else
        (case bs of
           [] \<Rightarrow> None
         | b' # bs' \<Rightarrow>
             if unat b \<in> {194, 195} \<and> 128 \<le> unat b' \<and> unat b' < 192
             then map_option (Cons (char_of ((unat b - 192) * 64 + (unat b' - 128)))) (utf8_decode bs')
             else None))"

declare utf8_char_def [js_eval] utf8_encode_def [js_eval]

lemma unat_of_nat_byte: "n < 256 \<Longrightarrow> unat (of_nat n :: byte) = n"
  by (simp add: unsigned_of_nat take_bit_nat_def)

lemma utf8_decode_char: "utf8_decode (utf8_char c @ bs) = map_option (Cons c) (utf8_decode bs)"
proof -
  define n where "n = code_unit c"
  have n: "n < 256" "char_of n = c"
    by (simp_all add: n_def code_unit_bound) (simp add: code_unit_def)
  show ?thesis
  proof (cases "n < 128")
    case True
    then show ?thesis
      by (simp add: utf8_char_def Let_def n_def [symmetric] unat_of_nat_byte n(2))
  next
    case False
    have "2 \<le> n div 64" using False by (simp add: less_eq_div_iff_mult_less_eq)
    moreover have "n div 64 < 4" using n(1) by (simp add: less_mult_imp_div_less)
    ultimately have two: "n div 64 = 2 \<or> n div 64 = 3" by linarith
    then have hi: "unat (of_nat (192 + n div 64) :: byte) = 192 + n div 64" by (intro unat_of_nat_byte) auto
    have lo: "unat (of_nat (128 + n mod 64) :: byte) = 128 + n mod 64"
      using mod_less_divisor [of 64 n] by (intro unat_of_nat_byte) simp
    have "n div 64 * 64 + n mod 64 = n" by simp
    with two hi lo False show ?thesis
      by (auto simp: utf8_char_def Let_def n_def [symmetric] n(2) simp del: of_nat_add)
  qed
qed

lemma utf8_decode_encode: "utf8_decode (utf8_encode s) = Some s"
  by (induction s) (simp_all add: utf8_encode_def utf8_decode_char)

interpretation utf8: codec utf8_encode utf8_decode "\<lambda>_. True"
  by unfold_locales (rule utf8_decode_encode)

section \<open>Base64\<close>

definition b64_alphabet :: string where
  "b64_alphabet = ''ABCDEFGHIJKLMNOPQRSTUVWXYZabcdefghijklmnopqrstuvwxyz0123456789+/''"

definition b64_char :: "nat \<Rightarrow> char" where
  "b64_char k =
     char_of (if k < 26 then k + 65 else if k < 52 then k + 71 else if k < 62 then k - 4
              else if k = 62 then 43 else 47)"

definition b64_val :: "char \<Rightarrow> nat option" where
  "b64_val c =
     (let n = code_unit c in
      if 65 \<le> n \<and> n \<le> 90 then Some (n - 65)
      else if 97 \<le> n \<and> n \<le> 122 then Some (n - 71)
      else if 48 \<le> n \<and> n \<le> 57 then Some (n + 4)
      else if n = 43 then Some 62
      else if n = 47 then Some 63
      else None)"

text \<open>The four sextets of a 24-bit group, and back.\<close>

definition sextets :: "nat \<Rightarrow> nat list" where
  "sextets n = [n div 262144, n div 4096 mod 64, n div 64 mod 64, n mod 64]"

definition group_val :: "byte \<Rightarrow> byte \<Rightarrow> byte \<Rightarrow> nat" where
  "group_val a b c = unat a * 65536 + unat b * 256 + unat c"

definition group_bytes :: "nat \<Rightarrow> bytes" where
  "group_bytes n = [of_nat (n div 65536), of_nat (n div 256 mod 256), of_nat (n mod 256)]"

fun b64_encode :: "bytes \<Rightarrow> string" where
  "b64_encode (a # b # c # r) = map b64_char (sextets (group_val a b c)) @ b64_encode r"
| "b64_encode [a, b] = map b64_char (take 3 (sextets (group_val a b 0))) @ ''=''"
| "b64_encode [a] = map b64_char (take 2 (sextets (group_val a 0 0))) @ ''==''"
| "b64_encode [] = []"

text \<open>\<open>btoa\<close> takes a binary string, one code unit per byte.\<close>

definition btoa :: "string \<Rightarrow> string" where
  "btoa s = b64_encode (map byte_of_char s)"

fun b64_decode :: "nat list \<Rightarrow> bytes option" where
  "b64_decode (p # q # r # s # t) =
     map_option ((@) (group_bytes (p * 262144 + q * 4096 + r * 64 + s))) (b64_decode t)"
| "b64_decode [p, q, r] = Some (take 2 (group_bytes (p * 262144 + q * 4096 + r * 64)))"
| "b64_decode [p, q] = Some (take 1 (group_bytes (p * 262144 + q * 4096)))"
| "b64_decode [p] = None"
| "b64_decode [] = Some []"

definition ascii_space :: "char \<Rightarrow> bool" where
  "ascii_space c = (code_unit c \<in> {9, 10, 12, 13, 32})"

text \<open>When the length is a multiple of four, at most two trailing \<open>=\<close> are dropped.\<close>

definition strip_pad :: "string \<Rightarrow> string" where
  "strip_pad s =
     (if length s mod 4 = 0 then
        (if endsWith s ''=='' then take (length s - 2) s
         else if endsWith s ''='' then take (length s - 1) s else s)
      else s)"

fun opt_all :: "'a option list \<Rightarrow> 'a list option" where
  "opt_all [] = Some []"
| "opt_all (x # xs) = (case x of None \<Rightarrow> None | Some y \<Rightarrow> map_option (Cons y) (opt_all xs))"

definition atob_bytes :: "string \<Rightarrow> bytes option" where
  "atob_bytes s =
     (case opt_all (map b64_val (strip_pad (filter (\<lambda>c. \<not> ascii_space c) s))) of
        None \<Rightarrow> None
      | Some ks \<Rightarrow> b64_decode ks)"

definition atob :: "string \<Rightarrow> string result" where
  "atob s =
     (case atob_bytes s of
        None \<Rightarrow> Inl (DOMError ''InvalidCharacterError'')
      | Some bs \<Rightarrow> Inr (map char_of_byte bs))"

declare b64_alphabet_def [js_eval] b64_char_def [js_eval] b64_val_def [js_eval] sextets_def [js_eval]
  group_val_def [js_eval] group_bytes_def [js_eval] btoa_def [js_eval] ascii_space_def [js_eval]
  strip_pad_def [js_eval] atob_bytes_def [js_eval] atob_def [js_eval]

lemma b64_val_char: "k < 64 \<Longrightarrow> b64_val (b64_char k) = Some k"
  by (auto simp: b64_val_def b64_char_def code_unit_def Let_def)

lemma b64_char_plain: "k < 64 \<Longrightarrow> \<not> ascii_space (b64_char k) \<and> b64_char k \<noteq> CHR ''=''"
  using b64_val_char [of k] by (auto simp: b64_val_def ascii_space_def code_unit_def Let_def)

lemma group_val_less: "group_val a b c < 16777216"
  using unat_byte_less [of a] unat_byte_less [of b] unat_byte_less [of c]
  by (simp add: group_val_def)

lemma sextets_less: "n < 16777216 \<Longrightarrow> k \<in> set (sextets n) \<Longrightarrow> k < 64"
  by (auto simp: sextets_def)

lemma sextets_val: "n div 262144 * 262144 + n div 4096 mod 64 * 4096 + n div 64 mod 64 * 64 + n mod 64 = (n :: nat)"
proof -
  have "n div 64 = n div 4096 * 64 + n div 64 mod 64"
    using div_mult_mod_eq [of "n div 64" 64] by (simp add: div_mult2_eq [symmetric])
  moreover have "n div 4096 = n div 262144 * 64 + n div 4096 mod 64"
    using div_mult_mod_eq [of "n div 4096" 64] by (simp add: div_mult2_eq [symmetric])
  moreover have "n = n div 64 * 64 + n mod 64" by simp
  ultimately show ?thesis by linarith
qed

lemma group_bytes_val: "group_bytes (group_val a b c) = [a, b, c]"
proof -
  let ?x = "unat a" and ?y = "unat b" and ?z = "unat c"
  have less: "?x < 256" "?y < 256" "?z < 256" by (rule unat_byte_less)+
  have v: "group_val a b c = ?z + (?y + ?x * 256) * 256" by (simp add: group_val_def)
  have q: "group_val a b c div 256 = ?y + ?x * 256" and m: "group_val a b c mod 256 = ?z"
    unfolding v using less(3) by (simp_all only: div_mult_self1 mod_mult_self1 numeral_eq_iff) simp_all
  have "group_val a b c div 256 mod 256 = ?y" "group_val a b c div 256 div 256 = ?x"
    unfolding q using less(2) by simp_all
  with m show ?thesis by (simp add: group_bytes_def div_mult2_eq [symmetric])
qed

lemma group_val_mult:
  "group_val a b 0 mod 64 = 0" "group_val a 0 0 div 64 mod 64 = 0" "group_val a 0 0 mod 64 = 0"
proof -
  have "group_val a b 0 = 64 * (unat a * 1024 + unat b * 4)" by (simp add: group_val_def)
  then show "group_val a b 0 mod 64 = 0" by simp
  have "group_val a 0 0 = 64 * (64 * (unat a * 16))" by (simp add: group_val_def)
  then show "group_val a 0 0 div 64 mod 64 = 0" "group_val a 0 0 mod 64 = 0" by simp_all
qed

text \<open>The sextets of a byte array, before they are written as characters and padded.\<close>

fun b64_digits :: "bytes \<Rightarrow> nat list" where
  "b64_digits (a # b # c # r) = sextets (group_val a b c) @ b64_digits r"
| "b64_digits [a, b] = take 3 (sextets (group_val a b 0))"
| "b64_digits [a] = take 2 (sextets (group_val a 0 0))"
| "b64_digits [] = []"

lemma b64_digits_less: "k \<in> set (b64_digits bs) \<Longrightarrow> k < 64"
  by (induction bs rule: b64_digits.induct) (auto dest: sextets_less [OF group_val_less] in_set_takeD)

lemma b64_decode_digits: "b64_decode (b64_digits bs) = Some bs"
proof (induction bs rule: b64_digits.induct)
  case (1 a b c r)
  then show ?case
    using sextets_val [of "group_val a b c"] by (simp add: sextets_def group_bytes_val)
next
  case (2 a b)
  then show ?case
    using sextets_val [of "group_val a b 0"] group_val_mult(1) [of a b]
    by (simp add: sextets_def numeral_3_eq_3 group_bytes_val)
next
  case (3 a)
  then show ?case
    using sextets_val [of "group_val a 0 0"] group_val_mult(2,3) [of a]
    by (simp add: sextets_def numeral_2_eq_2 group_bytes_val)
qed simp

definition b64_padding :: "bytes \<Rightarrow> nat" where
  "b64_padding bs = (3 - length bs mod 3) mod 3"

lemma b64_encode_digits:
  "b64_encode bs = map b64_char (b64_digits bs) @ replicate (b64_padding bs) (CHR ''='')
   \<and> 4 dvd length (b64_encode bs)"
proof (induction bs rule: b64_encode.induct)
  case (1 a b c r)
  have "b64_padding (a # b # c # r) = b64_padding r" by (simp add: b64_padding_def)
  moreover have "4 dvd length (b64_encode (a # b # c # r))"
  proof -
    have "length (b64_encode (a # b # c # r)) = 4 + length (b64_encode r)" by (simp add: sextets_def)
    with 1 show ?thesis by (metis dvd_add dvd_refl)
  qed
  ultimately show ?case using 1 by (simp add: sextets_def)
next
  case (2 a b)
  have "b64_padding [a, b] = 1" by (simp add: b64_padding_def)
  then show ?case by (simp add: sextets_def) presburger
next
  case (3 a)
  have "b64_padding [a] = Suc (Suc 0)" by (simp add: b64_padding_def)
  then show ?case by (simp add: sextets_def) presburger
qed (simp add: b64_padding_def)

lemma strip_pad_encode: "strip_pad (b64_encode bs) = map b64_char (b64_digits bs)"
proof -
  let ?d = "map b64_char (b64_digits bs)"
  have enc: "b64_encode bs = ?d @ replicate (b64_padding bs) (CHR ''='')" and len: "length (b64_encode bs) mod 4 = 0"
    using b64_encode_digits [of bs] by auto
  have last: "\<not> endsWith ?d ''=''"
  proof
    assume "endsWith ?d ''=''"
    then obtain zs where "?d = zs @ ''=''" by (auto simp: endsWith_def suffix_def)
    then have "CHR ''='' \<in> set ?d" by (metis in_set_conv_decomp)
    then show False using b64_digits_less b64_char_plain by fastforce
  qed
  have "b64_padding bs < 3" by (simp add: b64_padding_def)
  then consider "b64_padding bs = 0" | "b64_padding bs = 1" | "b64_padding bs = 2" by linarith
  then show ?thesis
  proof cases
    case 1
    moreover have "\<not> endsWith ?d ''==''"
      using last by (auto simp: endsWith_def suffix_def)
    ultimately show ?thesis using enc len last by (simp add: strip_pad_def)
  next
    case 2
    moreover have "\<not> endsWith (?d @ ''='') ''==''"
      using last by (auto simp: endsWith_def suffix_def append_eq_append_conv2 Cons_eq_append_conv)
    ultimately show ?thesis using enc len by (simp add: strip_pad_def endsWith_def)
  next
    case 3
    then show ?thesis using enc len by (simp add: strip_pad_def endsWith_def numeral_2_eq_2 suffix_def)
  qed
qed

lemma opt_all_map: "(\<And>x. x \<in> set xs \<Longrightarrow> f (g x) = Some x) \<Longrightarrow> opt_all (map f (map g xs)) = Some xs"
  by (induction xs) auto

lemma atob_bytes_encode: "atob_bytes (b64_encode bs) = Some bs"
proof -
  have "filter (\<lambda>c. \<not> ascii_space c) (b64_encode bs) = b64_encode bs"
    using b64_encode_digits [of bs] b64_digits_less b64_char_plain
    by (auto simp: filter_id_conv ascii_space_def code_unit_def)
  then show ?thesis
    using opt_all_map [of "b64_digits bs" b64_val b64_char]
    by (simp add: atob_bytes_def strip_pad_encode b64_val_char b64_digits_less b64_decode_digits)
qed

interpretation b64: codec b64_encode atob_bytes "\<lambda>_. True"
  by unfold_locales (rule atob_bytes_encode)

lemma atob_btoa: "atob (btoa s) = Inr s"
  by (simp add: atob_def btoa_def b64.dec_enc del: map_map)

end
