(* ===== verification/Http.thy ===== *)
theory Http
  imports JS_Bytes
begin

text \<open>
  What the browser code uses of \<open>fetch\<close> and of URLs. The network and the server behind it are a
  parameter: a function from its state and a request to an answer (or the rejection of a network
  error) and its next state. A function of the client that talks to the server is a computation
  \<open>('s, 'a) io\<close>; \<open>bindI\<close> is \<open>await\<close> followed by the rest of the function.
\<close>

section \<open>Requests and responses\<close>

datatype http_method = GET | POST | PUT | PATCH | DELETE

text \<open>
  Requests send credentials (those of the protected-link page do not); \<open>rq_body\<close> is the text of a JSON body, which
  goes with the \<open>content-type: application/json\<close> header.
\<close>

record http_request =
  rq_method :: http_method
  rq_url :: string
  rq_body :: "string option"

record http_response =
  rs_status :: nat
  rs_body :: bytes

definition resp_ok :: "http_response \<Rightarrow> bool" where
  "resp_ok r = (200 \<le> rs_status r \<and> rs_status r \<le> 299)"

text \<open>\<open>resp.json()\<close> decodes the body and parses it; both may fail.\<close>

definition resp_json :: "http_response \<Rightarrow> jsval result" where
  "resp_json r =
     (case utf8_decode (rs_body r) of
        None \<Rightarrow> Inl (DOMError ''SyntaxError'')
      | Some t \<Rightarrow> (case json_parse t of None \<Rightarrow> Inl (DOMError ''SyntaxError'') | Some v \<Rightarrow> Inr v))"

text \<open>\<open>await resp.json().catch(() => ({}))\<close>.\<close>

definition resp_json_or_empty :: "http_response \<Rightarrow> jsval" where
  "resp_json_or_empty r = (case resp_json r of Inl _ \<Rightarrow> JObj [] | Inr v \<Rightarrow> v)"

definition status_string :: "http_response \<Rightarrow> string" where
  "status_string r = to_radix 10 (rs_status r)"

declare resp_ok_def [js_eval] resp_json_def [js_eval] resp_json_or_empty_def [js_eval] status_string_def [js_eval]

section \<open>Computations\<close>

type_synonym 's server = "'s \<Rightarrow> http_request \<Rightarrow> http_response result \<times> 's"
type_synonym ('s, 'a) io = "'s \<Rightarrow> 'a result \<times> 's"

definition returnI :: "'a \<Rightarrow> ('s, 'a) io" where
  "returnI x s = (Inr x, s)"

definition throwI :: "exn \<Rightarrow> ('s, 'a) io" where
  "throwI e s = (Inl e, s)"

definition bindI :: "('s, 'a) io \<Rightarrow> ('a \<Rightarrow> ('s, 'b) io) \<Rightarrow> ('s, 'b) io" where
  "bindI m f s = (case m s of (Inl e, s') \<Rightarrow> (Inl e, s') | (Inr x, s') \<Rightarrow> f x s')"

definition liftI :: "'a result \<Rightarrow> ('s, 'a) io" where
  "liftI r s = (r, s)"

text \<open>\<open>try { \<dots> } catch (e) { \<dots> }\<close>.\<close>

definition catchI :: "('s, 'a) io \<Rightarrow> (exn \<Rightarrow> ('s, 'a) io) \<Rightarrow> ('s, 'a) io" where
  "catchI m h s = (case m s of (Inl e, s') \<Rightarrow> h e s' | (Inr x, s') \<Rightarrow> (Inr x, s'))"

declare returnI_def [js_eval] throwI_def [js_eval] bindI_def [js_eval] liftI_def [js_eval] catchI_def [js_eval]

lemma bindI_returnI [simp]: "bindI (returnI x) f = f x"
  by (simp add: fun_eq_iff bindI_def returnI_def)

lemma bindI_throwI [simp]: "bindI (throwI e) f = throwI e"
  by (simp add: fun_eq_iff bindI_def throwI_def)

lemma bindI_liftI [simp]:
  "bindI (liftI (Inl e)) f = throwI e" "bindI (liftI (Inr x)) f = f x"
  by (simp_all add: fun_eq_iff bindI_def liftI_def throwI_def)

lemma bindI_assoc: "bindI (bindI m f) g = bindI m (\<lambda>x. bindI (f x) g)"
  by (auto simp: fun_eq_iff bindI_def split: prod.splits sum.splits)

lemma bindI_InrD:
  assumes "bindI m f s = (Inr y, t)"
  obtains x u where "m s = (Inr x, u)" and "f x u = (Inr y, t)"
  using assms by (auto simp: bindI_def split: prod.splits sum.splits)

lemma bindI_InlD:
  assumes "bindI m f s = (Inl e, t)"
  obtains "m s = (Inl e, t)" | x u where "m s = (Inr x, u)" and "f x u = (Inl e, t)"
  using assms by (auto simp: bindI_def split: prod.splits sum.splits)

lemma returnI_eq [simp]: "returnI x s = (r, t) \<longleftrightarrow> r = Inr x \<and> t = s"
  by (auto simp: returnI_def)

lemma throwI_eq [simp]: "throwI e s = (r, t) \<longleftrightarrow> r = Inl e \<and> t = s"
  by (auto simp: throwI_def)

lemma liftI_eq [simp]: "liftI x s = (r, t) \<longleftrightarrow> x = r \<and> t = s"
  by (auto simp: liftI_def)

text \<open>Computations that keep a property of the state, however they end.\<close>

definition keeps :: "('s \<Rightarrow> bool) \<Rightarrow> ('s, 'a) io \<Rightarrow> bool" where
  "keeps I m = (\<forall>s r t. m s = (r, t) \<longrightarrow> I s \<longrightarrow> I t)"

named_theorems keeps_intros

lemma keeps_basic [keeps_intros]:
  "keeps I (returnI x)" "keeps I (throwI e)" "keeps I (liftI m)"
  by (auto simp: keeps_def)

lemma keeps_bindI [keeps_intros]: "keeps I m \<Longrightarrow> (\<And>x. keeps I (f x)) \<Longrightarrow> keeps I (bindI m f)"
  unfolding keeps_def bindI_def by (auto split: prod.splits sum.splits)

lemma keeps_pure: "keeps I (\<lambda>st. if b st then m st else m' st)" if "keeps I m" "keeps I m'"
  using that by (auto simp: keeps_def)

lemma keepsD: "keeps I m \<Longrightarrow> m s = (r, t) \<Longrightarrow> I s \<Longrightarrow> I t"
  by (simp add: keeps_def)

lemma keepsI: "(\<And>s r t. m s = (r, t) \<Longrightarrow> I s \<Longrightarrow> I t) \<Longrightarrow> keeps I m"
  by (auto simp: keeps_def)

definition fetch :: "'s server \<Rightarrow> http_request \<Rightarrow> ('s, http_response) io" where
  "fetch srv rq s = srv s rq"

definition get_request :: "string \<Rightarrow> http_request" where
  "get_request url = \<lparr>rq_method = GET, rq_url = url, rq_body = None\<rparr>"

definition plain_request :: "http_method \<Rightarrow> string \<Rightarrow> http_request" where
  "plain_request m url = \<lparr>rq_method = m, rq_url = url, rq_body = None\<rparr>"

definition json_request :: "http_method \<Rightarrow> string \<Rightarrow> jsval \<Rightarrow> http_request" where
  "json_request m url body = \<lparr>rq_method = m, rq_url = url, rq_body = Some (json_str body)\<rparr>"

text \<open>A server that also keeps the requests it was sent, for statements about what is sent.\<close>

definition recording :: "'s server \<Rightarrow> ('s \<times> http_request list) server" where
  "recording srv s rq = (case srv (fst s) rq of (r, s') \<Rightarrow> (r, (s', snd s @ [rq])))"

declare fetch_def [js_eval] get_request_def [js_eval] plain_request_def [js_eval] json_request_def [js_eval]

section \<open>URLs\<close>

definition percent :: "byte \<Rightarrow> string" where
  "percent b = [CHR ''%'', hd (toUpperCase [digit_char (unat b div 16)]), hd (toUpperCase [digit_char (unat b mod 16)])]"

definition is_alnum :: "char \<Rightarrow> bool" where
  "is_alnum c = (is_digit c \<or> 65 \<le> code_unit c \<and> code_unit c \<le> 90 \<or> 97 \<le> code_unit c \<and> code_unit c \<le> 122)"

text \<open>The characters \<open>encodeURIComponent\<close> leaves as they are, and those the form encoding does.\<close>

definition uri_unreserved :: "char \<Rightarrow> bool" where
  "uri_unreserved c = (is_alnum c \<or> c \<in> set ''-_.!~*'' \<or> c \<in> {CHR 0x27, CHR ''('', CHR '')''})"

definition encodeURIComponent :: "string \<Rightarrow> string" where
  "encodeURIComponent s =
     concat (map (\<lambda>c. if uri_unreserved c then [c] else concat (map percent (utf8_char c))) s)"

definition form_encode :: "string \<Rightarrow> string" where
  "form_encode s =
     concat (map (\<lambda>c. if is_alnum c \<or> c \<in> set ''*-._'' then [c]
                     else if c = CHR '' '' then ''+''
                     else concat (map percent (utf8_char c))) s)"

text \<open>\<open>new URL(path, origin)\<close> with \<open>searchParams.set\<close> for each pair, then \<open>toString()\<close>.\<close>

definition url_with_params :: "string \<Rightarrow> string \<Rightarrow> (string \<times> string) list \<Rightarrow> string" where
  "url_with_params origin path params =
     origin @ path @
     (if params = [] then []
      else ''?'' @ join ''&'' (map (\<lambda>(k, v). form_encode k @ ''='' @ form_encode v) params))"

declare percent_def [js_eval] is_alnum_def [js_eval] uri_unreserved_def [js_eval]
  encodeURIComponent_def [js_eval] form_encode_def [js_eval] url_with_params_def [js_eval]

text \<open>How a server reads an encoded component back.\<close>

fun percent_decode :: "string \<Rightarrow> bytes option" where
  "percent_decode [] = Some []"
| "percent_decode (c # s) =
     (if c = CHR ''%'' then
        (case s of
           x # y # s' \<Rightarrow>
             (case (hex_val x, hex_val y) of
                (Some h, Some l) \<Rightarrow> map_option (Cons (of_nat (16 * h + l))) (percent_decode s')
              | _ \<Rightarrow> None)
         | _ \<Rightarrow> None)
      else map_option (Cons (byte_of_char c)) (percent_decode s))"

definition decodeURIComponent :: "string \<Rightarrow> string option" where
  "decodeURIComponent s = Option.bind (percent_decode s) utf8_decode"

lemma upper_hex_digit:
  "d < 16 \<Longrightarrow> hex_val (hd (toUpperCase [digit_char d])) = Some d
     \<and> is_alnum (hd (toUpperCase [digit_char d]))"
  by (auto simp: hex_val_def digit_char_def toUpperCase_def upper_char_def code_unit_def Let_def
      is_alnum_def is_digit_def)

lemma percent_decode_percent: "percent_decode (percent b @ s) = map_option (Cons b) (percent_decode s)"
proof -
  have "unat b div 16 < 16" using unat_byte_less [of b] by (simp add: less_mult_imp_div_less)
  then show ?thesis
    using upper_hex_digit [of "unat b div 16"] upper_hex_digit [of "unat b mod 16"] by (simp add: percent_def)
qed

lemma percent_decode_percents:
  "percent_decode (concat (map percent bs) @ s) = map_option ((@) bs) (percent_decode s)"
  by (induction bs) (simp_all add: percent_decode_percent option.map_comp comp_def option.map_ident)

lemma unreserved_utf8: "uri_unreserved c \<Longrightarrow> c \<noteq> CHR ''%'' \<and> utf8_char c = [byte_of_char c]"
  by (auto simp: uri_unreserved_def is_alnum_def is_digit_def utf8_char_def byte_of_char_def code_unit_def Let_def)

lemma percent_decode_encode: "percent_decode (encodeURIComponent s) = Some (utf8_encode s)"
proof (induction s)
  case (Cons c s)
  have enc: "encodeURIComponent (c # s) =
      (if uri_unreserved c then [c] else concat (map percent (utf8_char c))) @ encodeURIComponent s"
    by (simp add: encodeURIComponent_def)
  show ?case
    using Cons.IH unreserved_utf8 [of c]
    by (simp add: enc percent_decode_percents utf8_encode_def)
qed (simp add: encodeURIComponent_def utf8_encode_def)

interpretation uri: codec encodeURIComponent decodeURIComponent "\<lambda>_. True"
  by unfold_locales (simp add: decodeURIComponent_def percent_decode_encode utf8.dec_enc)

lemma encodeURIComponent_chars:
  "c \<in> set (encodeURIComponent s) \<Longrightarrow> uri_unreserved c \<or> c = CHR ''%''"
proof -
  have p: "x \<in> set (percent b) \<Longrightarrow> uri_unreserved x \<or> x = CHR ''%''" for x b
    using upper_hex_digit [of "unat b div 16"] upper_hex_digit [of "unat b mod 16"] unat_byte_less [of b]
    by (auto simp: percent_def uri_unreserved_def less_mult_imp_div_less)
  show "c \<in> set (encodeURIComponent s) \<Longrightarrow> uri_unreserved c \<or> c = CHR ''%''"
    using p by (auto simp: encodeURIComponent_def split: if_splits)
qed

text \<open>An encoded component has no character that ends a path segment or starts a query.\<close>

lemma encodeURIComponent_segment:
  "c \<in> set (encodeURIComponent s) \<Longrightarrow> c \<notin> set ''/?#&=''"
  using encodeURIComponent_chars [of c s]
  by (auto simp: uri_unreserved_def is_alnum_def is_digit_def code_unit_def)

end
