(* ===== verification/Srp.thy ===== *)
theory Srp
  imports Http
begin

text \<open>
  \<^verbatim>\<open>static/auth/srp.js\<close>: the browser side of the SRP-6a login, and the server side of the same
  exchange, \<^verbatim>\<open>internal/pake/srp.go\<close>. SHA-256 is a parameter \<open>sha\<close>; random bytes are arguments.
  The lemmas show that the square-and-multiply loop computes powers, that the byte encodings are
  those of the server, and that client and server arrive at the same proofs.
\<close>

unbundle bit_operations_syntax

section \<open>Constants and encodings\<close>

definition GROUP_NAME :: string where
  "GROUP_NAME = ''rfc5054-2048''"

definition HASH_NAME :: string where
  "HASH_NAME = ''sha256''"

definition N_HEX :: string where
  "N_HEX = ''AC6BDB41324A9A9BF166DE5E1389582FAF72B6651987EE07FC3192943DB56050A37329CBB4A099ED8193E0757767A13DD52312AB4B03310DCD7F48A9DA04FD50E8083969EDB767B0CF6096BEECFB71744F9A5B7CDBD7B3E8C94BBE117577A615D6C770988C0BAD946E208E24FA074E5AB3143DB5BFCE0FD108E4B82D120A93AD2CAFFFFFFFFFFFFFFFF''"

definition hex_to_nat :: "string \<Rightarrow> nat" where
  "hex_to_nat s = foldl (\<lambda>n c. 16 * n + (case hex_val c of Some d \<Rightarrow> d | None \<Rightarrow> 0)) 0 s"

definition N :: nat where
  "N = hex_to_nat N_HEX"

definition G :: nat where
  "G = 2"

definition PAD_LEN :: nat where
  "PAD_LEN = (length N_HEX + 1) div 2"

definition padStart :: "nat \<Rightarrow> char \<Rightarrow> string \<Rightarrow> string" where
  "padStart n c s = replicate (n - length s) c @ s"

definition concatBytes :: "bytes list \<Rightarrow> bytes" where
  "concatBytes parts = concat parts"

definition sha256 :: "(bytes \<Rightarrow> bytes) \<Rightarrow> bytes list \<Rightarrow> bytes" where
  "sha256 sha parts = sha (concatBytes parts)"

definition bytesToB64 :: "bytes \<Rightarrow> string" where
  "bytesToB64 bs = btoa (map char_of_byte bs)"

definition b64ToBytes :: "jsval \<Rightarrow> bytes result" where
  "b64ToBytes b64 = bindR (atob (str_or_empty b64)) (\<lambda>bin. Inr (map byte_of_char bin))"

definition bytesToBigInt :: "bytes \<Rightarrow> nat" where
  "bytesToBigInt bs =
     (let hex = concat (map (\<lambda>b. padStart 2 (CHR ''0'') (to_radix 16 (unat b))) bs) in
      hex_to_nat (if hex = [] then ''00'' else hex))"

text \<open>\<open>parseInt(hex.slice(i * 2, i * 2 + 2), 16)\<close> for each \<open>i\<close>.\<close>

fun hex_pairs :: "string \<Rightarrow> bytes" where
  "hex_pairs (x # y # r) = of_nat (hex_to_nat [x, y]) # hex_pairs r"
| "hex_pairs _ = []"

text \<open>\<open>padLen\<close> is 0 where the source passes none.\<close>

definition bigIntToBytes :: "nat \<Rightarrow> nat \<Rightarrow> bytes" where
  "bigIntToBytes num padLen =
     (let hex = to_radix 16 num;
          hex' = (if length hex mod 2 = 1 then CHR ''0'' # hex else hex);
          raw = hex_pairs hex'
      in if padLen = 0 \<or> padLen \<le> length raw then raw
         else replicate (padLen - length raw) 0 @ raw)"

section \<open>Modular powers\<close>

text \<open>\<open>%\<close> on \<open>BigInt\<close> takes the sign of the dividend.\<close>

definition big_rem :: "int \<Rightarrow> int \<Rightarrow> int" where
  "big_rem a b = sgn a * (\<bar>a\<bar> mod \<bar>b\<bar>)"

function modPow_loop :: "int \<Rightarrow> int \<Rightarrow> nat \<Rightarrow> int \<Rightarrow> int" where
  "modPow_loop result b e m =
     (if e > 0 then
        modPow_loop (if e AND 1 = 1 then big_rem (result * b) m else result) (big_rem (b * b) m) (drop_bit 1 e) m
      else result)"
  by pat_completeness auto
termination
  by (relation "measure (\<lambda>(_, _, e, _). e)") (auto simp: drop_bit_Suc)

declare modPow_loop.simps [simp del]

definition modPow :: "int \<Rightarrow> nat \<Rightarrow> int \<Rightarrow> int" where
  "modPow base exp m = modPow_loop 1 (big_rem (big_rem base m + m) m) exp m"

section \<open>The protocol\<close>

definition multiplier :: "(bytes \<Rightarrow> bytes) \<Rightarrow> nat" where
  "multiplier sha = bytesToBigInt (sha256 sha [bigIntToBytes N PAD_LEN, bigIntToBytes G PAD_LEN])"

definition computeX :: "(bytes \<Rightarrow> bytes) \<Rightarrow> string \<Rightarrow> string \<Rightarrow> bytes \<Rightarrow> nat" where
  "computeX sha username password saltBytes =
     (let inner = sha256 sha [utf8_encode (username @ '':'' @ password)] in
      bytesToBigInt (sha256 sha [saltBytes, inner]))"

record srp_registration =
  srp_salt_b64 :: string
  srp_verifier_b64 :: string
  srp_group :: string
  srp_hash :: string

text \<open>\<open>salt\<close> stands for \<open>randomBytes(16)\<close>.\<close>

definition createRegistration :: "(bytes \<Rightarrow> bytes) \<Rightarrow> bytes \<Rightarrow> string \<Rightarrow> string \<Rightarrow> srp_registration" where
  "createRegistration sha salt username password =
     (let x = computeX sha username password salt;
          verifier = modPow (int G) x (int N)
      in \<lparr>srp_salt_b64 = bytesToB64 salt,
          srp_verifier_b64 = bytesToB64 (bigIntToBytes (nat verifier) PAD_LEN),
          srp_group = GROUP_NAME,
          srp_hash = HASH_NAME\<rparr>)"

record srp_state =
  ss_username :: string
  ss_password :: string
  ss_a :: nat
  ss_A :: int
  ss_client_public_b64 :: string

text \<open>\<open>rnd\<close> stands for \<open>randomBytes(32)\<close>.\<close>

definition begin_session :: "bytes \<Rightarrow> string \<Rightarrow> string \<Rightarrow> srp_state" where
  "begin_session rnd username password =
     (let a = bytesToBigInt rnd; A = modPow (int G) a (int N) in
      \<lparr>ss_username = username, ss_password = password, ss_a = a, ss_A = A,
       ss_client_public_b64 = bytesToB64 (bigIntToBytes (nat A) PAD_LEN)\<rparr>)"

definition xor_bytes :: "bytes \<Rightarrow> bytes \<Rightarrow> bytes" where
  "xor_bytes hN hG = map2 (\<lambda>a b. a XOR b) hN hG"

record srp_proof =
  client_proof_b64 :: string
  expected_server_proof_b64 :: string

definition clientProof :: "(bytes \<Rightarrow> bytes) \<Rightarrow> srp_state \<Rightarrow> bytes \<Rightarrow> bytes \<Rightarrow> srp_proof" where
  "clientProof sha state saltBytes serverPublicBytes =
     (let B = bytesToBigInt serverPublicBytes;
          A = nat (ss_A state);
          k = multiplier sha;
          u = bytesToBigInt (sha256 sha [bigIntToBytes A PAD_LEN, bigIntToBytes B PAD_LEN]);
          x = computeX sha (ss_username state) (ss_password state) saltBytes;
          gx = modPow (int G) x (int N);
          base0 = big_rem (int B - int k * gx) (int N);
          base = (if base0 < 0 then base0 + int N else base0);
          exp = ss_a state + u * x;
          S = modPow base exp (int N);
          K = sha256 sha [bigIntToBytes (nat S) PAD_LEN];
          hN = sha256 sha [bigIntToBytes N PAD_LEN];
          hG = sha256 sha [bigIntToBytes G PAD_LEN];
          xor = xor_bytes hN hG;
          M1 = sha256 sha [xor, sha256 sha [utf8_encode (ss_username state)], saltBytes,
                           bigIntToBytes A PAD_LEN, bigIntToBytes B PAD_LEN, K];
          M2 = sha256 sha [bigIntToBytes A 0, M1, K]
      in \<lparr>client_proof_b64 = bytesToB64 M1, expected_server_proof_b64 = bytesToB64 M2\<rparr>)"

text \<open>\<open>Object.assign({}, extra || {}, fields)\<close>.\<close>

definition object_assign :: "jsval \<Rightarrow> (string \<times> jsval) list \<Rightarrow> jsval" where
  "object_assign extra newProps =
     JObj (fold (\<lambda>(k, v) o'. AList.update k v o') newProps (own_props (js_or extra (JObj []))))"

text \<open>\<open>throw new Error(json.error || label)\<close>, with the exception of reading a property of \<open>null\<close>.\<close>

definition server_error :: "jsval \<Rightarrow> string \<Rightarrow> exn" where
  "server_error j label =
     (case getR j ''error'' of Inl e \<Rightarrow> e | Inr v \<Rightarrow> Error (to_string (js_or v (JStr label))))"

definition exchange ::
  "(bytes \<Rightarrow> bytes) \<Rightarrow> 's server \<Rightarrow> bytes \<Rightarrow> string \<Rightarrow> string \<Rightarrow> string \<Rightarrow> string \<Rightarrow> jsval \<Rightarrow> jsval
   \<Rightarrow> ('s, jsval) io" where
  "exchange sha srv rnd beginUrl finishUrl username password extraFinishPayload extraBeginPayload =
     (let state = begin_session rnd username password in
      bindI (fetch srv (json_request POST beginUrl
               (object_assign extraBeginPayload
                  [(''username'', JStr username),
                   (''client_public_b64'', JStr (ss_client_public_b64 state)),
                   (''company'', JStr [])]))) (\<lambda>beginRes.
      let beginJSON = resp_json_or_empty beginRes in
      if \<not> resp_ok beginRes then throwI (server_error beginJSON ''SRP begin failed'')
      else
      bindI (liftI (bindR (getR beginJSON ''salt_b64'') b64ToBytes)) (\<lambda>saltBytes.
      bindI (liftI (bindR (getR beginJSON ''server_public_b64'') b64ToBytes)) (\<lambda>serverPublicBytes.
      let proof = clientProof sha state saltBytes serverPublicBytes in
      bindI (fetch srv (json_request POST finishUrl
               (object_assign extraFinishPayload
                  [(''session_id'', getp beginJSON ''session_id''),
                   (''client_proof_b64'', JStr (client_proof_b64 proof)),
                   (''company'', JStr [])]))) (\<lambda>finishRes.
      let finishJSON = resp_json_or_empty finishRes in
      if \<not> resp_ok finishRes then throwI (server_error finishJSON ''SRP finish failed'')
      else if expected_server_proof_b64 proof \<noteq> [] then
        bindI (liftI (getR finishJSON ''server_proof_b64'')) (\<lambda>sp.
          if truthy sp \<and> \<not> strict_eq (JStr (expected_server_proof_b64 proof)) sp
          then throwI (Error ''SRP server proof mismatch'')
          else returnI finishJSON)
      else returnI finishJSON)))))"

section \<open>The server\<close>

text \<open>\<open>n.Bytes()\<close>: the big-endian bytes without leading zeros, none for 0.\<close>

fun go_bytes :: "nat \<Rightarrow> bytes" where
  "go_bytes n = (if n = 0 then [] else go_bytes (n div 256) @ [of_nat (n mod 256)])"

declare go_bytes.simps [simp del]

definition setBytes :: "bytes \<Rightarrow> nat" where
  "setBytes bs = foldl (\<lambda>n b. 256 * n + unat b) 0 bs"

definition trimLeadingZeroes :: "bytes \<Rightarrow> bytes" where
  "trimLeadingZeroes b = (let r = dropWhile (\<lambda>x. x = 0) b in if r = [] then [0] else r)"

definition padBytes :: "bytes \<Rightarrow> nat \<Rightarrow> bytes" where
  "padBytes b len = (if len \<le> length b then b else replicate (len - length b) 0 @ b)"

definition padBig :: "nat \<Rightarrow> nat \<Rightarrow> bytes" where
  "padBig n len = padBytes (trimLeadingZeroes (go_bytes n)) len"

definition go_padLen :: nat where
  "go_padLen = length (go_bytes N)"

definition clientProofBytes :: "(bytes \<Rightarrow> bytes) \<Rightarrow> string \<Rightarrow> bytes \<Rightarrow> nat \<Rightarrow> nat \<Rightarrow> bytes \<Rightarrow> bytes" where
  "clientProofBytes sha username salt A B key =
     (let hN = sha (padBig N go_padLen); hG = sha (padBig G go_padLen) in
      sha (xor_bytes hN hG @ sha (utf8_encode username) @ salt @ padBig A go_padLen @ padBig B go_padLen @ key))"

definition serverProofBytes :: "(bytes \<Rightarrow> bytes) \<Rightarrow> nat \<Rightarrow> bytes \<Rightarrow> bytes \<Rightarrow> bytes" where
  "serverProofBytes sha A proof key = sha (trimLeadingZeroes (go_bytes A) @ proof @ key)"

record srp_server_session =
  sv_B :: nat
  sv_expectedClientM1 :: bytes
  sv_serverM2 :: bytes

text \<open>\<open>b\<close> stands for the random scalar.\<close>

definition newServerSession ::
  "(bytes \<Rightarrow> bytes) \<Rightarrow> nat \<Rightarrow> string \<Rightarrow> bytes \<Rightarrow> bytes \<Rightarrow> bytes \<Rightarrow> srp_server_session option" where
  "newServerSession sha b username salt verifier clientPublic =
     (let A = setBytes clientPublic in
      if A = 0 \<or> A mod N = 0 then None
      else
        (let v = setBytes verifier;
             k = setBytes (sha (padBig N go_padLen @ padBig G go_padLen));
             gb = G ^ b mod N;
             B = (k * v + gb) mod N;
             u = setBytes (sha (padBig A go_padLen @ padBig B go_padLen))
         in if u = 0 then None
            else
              (let vu = v ^ u mod N;
                   S = ((A * vu) ^ b mod N) mod N;
                   K = sha (padBig S go_padLen)
               in Some \<lparr>sv_B = B,
                        sv_expectedClientM1 = clientProofBytes sha username salt A B K,
                        sv_serverM2 = serverProofBytes sha A (clientProofBytes sha username salt A B K) K\<rparr>)))"

definition serverPublic :: "srp_server_session \<Rightarrow> bytes" where
  "serverPublic s = padBig (sv_B s) go_padLen"

section \<open>Encodings\<close>

lemma hex_to_nat_append: "hex_to_nat (s @ t) = 16 ^ length t * hex_to_nat s + hex_to_nat t"
proof (induction t rule: rev_induct)
  case (snoc c t)
  then show ?case by (simp add: hex_to_nat_def algebra_simps)
qed (simp add: hex_to_nat_def)

lemma hex_digit_char: "d < 16 \<Longrightarrow> hex_val (digit_char d) = Some d"
  by (auto simp: hex_val_def digit_char_def code_unit_def Let_def)

lemma hex_to_nat_to_radix: "hex_to_nat (to_radix 16 n) = n"
proof (induction n rule: less_induct)
  case (less n)
  show ?case
  proof (cases "n < 16")
    case True
    then show ?thesis by (subst to_radix.simps) (simp add: hex_to_nat_def hex_digit_char)
  next
    case False
    then have "n div 16 < n" by simp
    from less [OF this] False show ?thesis
      by (subst to_radix.simps) (simp add: hex_to_nat_append, simp add: hex_to_nat_def hex_digit_char)
  qed
qed

lemma to_radix_16_byte:
  "n < 256 \<Longrightarrow> to_radix 16 n = (if n < 16 then [digit_char n] else [digit_char (n div 16), digit_char (n mod 16)])"
  by (subst to_radix.simps) (auto simp: to_radix.simps [of 16 "n div 16"] less_mult_imp_div_less)

text \<open>The value of a byte array, most significant byte first.\<close>

lemma setBytes_append: "setBytes (bs @ cs) = 256 ^ length cs * setBytes bs + setBytes cs"
proof (induction cs rule: rev_induct)
  case (snoc c cs)
  then show ?case by (simp add: setBytes_def algebra_simps)
qed (simp add: setBytes_def)

lemma hex_byte_padded:
  "hex_to_nat (padStart 2 (CHR ''0'') (to_radix 16 (unat (b :: byte)))) = unat b
   \<and> length (padStart 2 (CHR ''0'') (to_radix 16 (unat b))) = 2"
proof -
  have zero: "hex_to_nat (CHR ''0'' # s) = hex_to_nat s" for s
    by (simp add: hex_to_nat_def hex_val_def code_unit_def)
  show ?thesis
  proof (cases "unat b < 16")
    case True
    then have "length (to_radix 16 (unat b)) = 1" by (simp add: to_radix_16_byte)
    then have "padStart 2 (CHR ''0'') (to_radix 16 (unat b)) = CHR ''0'' # to_radix 16 (unat b)"
      by (simp add: padStart_def)
    with \<open>length (to_radix 16 (unat b)) = 1\<close> show ?thesis by (simp add: zero hex_to_nat_to_radix)
  next
    case False
    then have "length (to_radix 16 (unat b)) = 2" using unat_byte_less [of b] by (simp add: to_radix_16_byte)
    then show ?thesis by (simp add: padStart_def hex_to_nat_to_radix)
  qed
qed

lemma bytesToBigInt_setBytes: "bytesToBigInt bs = setBytes bs"
proof -
  let ?h = "\<lambda>b :: byte. padStart 2 (CHR ''0'') (to_radix 16 (unat b))"
  have "hex_to_nat (concat (map ?h bs)) = setBytes bs"
  proof (induction bs rule: rev_induct)
    case (snoc b bs)
    then show ?case
      using hex_byte_padded [of b] by (simp add: hex_to_nat_append setBytes_append, simp add: setBytes_def)
  qed (simp add: hex_to_nat_def setBytes_def)
  moreover have "hex_to_nat ''00'' = 0" by (simp add: hex_to_nat_def hex_val_def code_unit_def)
  moreover have "hex_to_nat [] = 0" by (simp add: hex_to_nat_def)
  ultimately show ?thesis
    by (cases "concat (map ?h bs) = []") (auto simp: bytesToBigInt_def Let_def)
qed

lemma go_bytes_0 [simp]: "go_bytes 0 = []"
  by (simp add: go_bytes.simps)

lemma setBytes_go_bytes: "setBytes (go_bytes n) = n"
proof (induction n rule: less_induct)
  case (less n)
  show ?case
  proof (cases "n = 0")
    case False
    then have "n div 256 < n" by simp
    from less [OF this] False show ?thesis
      by (subst go_bytes.simps) (simp add: setBytes_append unat_of_nat_byte, simp add: setBytes_def unat_of_nat_byte)
  qed (simp add: setBytes_def)
qed

lemma setBytes_zeros [simp]: "setBytes (replicate k 0 @ bs) = setBytes bs"
proof -
  have "setBytes (replicate k 0) = 0" by (induction k) (simp_all add: setBytes_def)
  then show ?thesis by (simp add: setBytes_append)
qed

lemma setBytes_padBytes [simp]: "setBytes (padBytes b len) = setBytes b"
  by (simp add: padBytes_def)

lemma hex_pairs_append: "even (length s) \<Longrightarrow> hex_pairs (s @ t) = hex_pairs s @ hex_pairs t"
  by (induction s rule: hex_pairs.induct) auto

definition even_hex :: "nat \<Rightarrow> string" where
  "even_hex n = (let h = to_radix 16 n in if length h mod 2 = 1 then CHR ''0'' # h else h)"

lemma even_hex_step:
  assumes "256 \<le> n"
  shows "even_hex n = even_hex (n div 256) @ [digit_char (n div 16 mod 16), digit_char (n mod 16)]"
proof -
  have "16 \<le> n div 16" using assms by (simp add: less_eq_div_iff_mult_less_eq)
  then have "to_radix 16 n = to_radix 16 (n div 256) @ [digit_char (n div 16 mod 16), digit_char (n mod 16)]"
    using assms by (simp add: to_radix.simps [of 16 n] to_radix.simps [of 16 "n div 16"] div_mult2_eq [symmetric])
  then show ?thesis by (auto simp: even_hex_def Let_def)
qed

lemma even_hex_even: "even (length (even_hex n))"
  by (auto simp: even_hex_def Let_def odd_iff_mod_2_eq_one)

lemma hex_pairs_even_hex: "hex_pairs (even_hex n) = (if n = 0 then [0] else go_bytes n)"
proof (induction n rule: less_induct)
  case (less n)
  have z: "hex_val CHR ''0'' = Some 0" by (simp add: hex_val_def code_unit_def)
  show ?case
  proof (cases "n < 256")
    case True
    then have "n div 16 < 16" by (simp add: less_mult_imp_div_less)
    then have "hex_pairs (even_hex n) = [of_nat n]"
      using True by (auto simp: even_hex_def Let_def to_radix_16_byte hex_to_nat_def hex_digit_char z)
    with True show ?thesis by (simp add: go_bytes.simps [of n])
  next
    case False
    then have lt: "n div 256 < n" and nz: "n div 256 \<noteq> 0" by (simp_all add: div_eq_0_iff)
    have "hex_to_nat [digit_char (n div 16 mod 16), digit_char (n mod 16)] = n mod 256"
    proof -
      have "n mod 256 = 16 * (n div 16 mod 16) + n mod 16"
        using mod_mult2_eq [of n 16 16] by simp
      then show ?thesis by (simp add: hex_to_nat_def hex_digit_char)
    qed
    with less.IH [OF lt] nz False show ?thesis
      using hex_pairs_append [OF even_hex_even, of "n div 256"] even_hex_step [of n]
      by (simp add: go_bytes.simps [of n])
  qed
qed

lemma go_bytes_hd: "n > 0 \<Longrightarrow> go_bytes n \<noteq> [] \<and> hd (go_bytes n) \<noteq> 0"
proof (induction n rule: less_induct)
  case (less n)
  show ?case
  proof (cases "n < 256")
    case True
    then have "unat (of_nat n :: byte) = n" by (rule unat_of_nat_byte)
    with less.prems True show ?thesis by (subst (1 2) go_bytes.simps) (auto simp: unat_eq_0)
  next
    case False
    then have lt: "n div 256 < n" and "0 < n div 256" by (simp_all add: div_greater_zero_iff)
    with less.IH show ?thesis by (subst (1 2) go_bytes.simps) simp
  qed
qed

lemma trimLeadingZeroes_go_bytes: "trimLeadingZeroes (go_bytes n) = (if n = 0 then [0] else go_bytes n)"
proof (cases "n = 0")
  case False
  then obtain b bs where "go_bytes n = b # bs" "b \<noteq> 0"
    using go_bytes_hd [of n] by (cases "go_bytes n") auto
  with False show ?thesis by (simp add: trimLeadingZeroes_def)
qed (simp add: trimLeadingZeroes_def)

text \<open>The client encodes an integer exactly as the server does.\<close>

lemma bigIntToBytes_raw:
  "bigIntToBytes n len =
     (let raw = trimLeadingZeroes (go_bytes n) in
      if len = 0 \<or> len \<le> length raw then raw else replicate (len - length raw) 0 @ raw)"
  unfolding trimLeadingZeroes_go_bytes hex_pairs_even_hex [symmetric]
  by (simp only: bigIntToBytes_def even_hex_def Let_def)

lemma bigIntToBytes_padBig: "0 < len \<Longrightarrow> bigIntToBytes n len = padBig n len"
  by (simp add: bigIntToBytes_raw padBig_def padBytes_def Let_def)

lemma bigIntToBytes_unpadded: "bigIntToBytes n 0 = trimLeadingZeroes (go_bytes n)"
  by (simp add: bigIntToBytes_raw Let_def)

lemma setBytes_padBig: "setBytes (padBig n len) = n"
  by (simp add: padBig_def trimLeadingZeroes_go_bytes setBytes_go_bytes) (simp add: setBytes_def)

lemma bytesToBigInt_bigIntToBytes: "bytesToBigInt (bigIntToBytes n len) = n"
proof (cases "len = 0")
  case True
  then show ?thesis
    by (simp add: bytesToBigInt_setBytes bigIntToBytes_unpadded trimLeadingZeroes_go_bytes setBytes_go_bytes)
       (simp add: setBytes_def)
qed (simp add: bytesToBigInt_setBytes bigIntToBytes_padBig setBytes_padBig)

interpretation bigint: codec "\<lambda>n. bigIntToBytes n PAD_LEN" "\<lambda>bs. Some (bytesToBigInt bs)" "\<lambda>_. True"
  by unfold_locales (simp add: bytesToBigInt_bigIntToBytes)

lemma b64ToBytes_bytesToB64: "b64ToBytes (JStr (bytesToB64 bs)) = Inr bs"
  by (simp add: b64ToBytes_def bytesToB64_def atob_btoa del: map_map)

section \<open>Powers\<close>

lemma big_rem_nonneg: "0 \<le> a \<Longrightarrow> 0 < m \<Longrightarrow> big_rem a m = a mod m"
  by (cases "a = 0") (simp_all add: big_rem_def)

lemma big_rem_bounds: "0 < m \<Longrightarrow> - m < big_rem a m \<and> big_rem a m < m"
proof -
  assume "0 < m"
  then have "0 \<le> \<bar>a\<bar> mod \<bar>m\<bar>" "\<bar>a\<bar> mod \<bar>m\<bar> < m" by simp_all
  moreover have "sgn a = 0 \<or> sgn a = 1 \<or> sgn a = -1" by (simp add: sgn_if)
  ultimately show ?thesis using \<open>0 < m\<close> unfolding big_rem_def by (elim disjE) (simp_all only:, linarith+)
qed

lemma big_rem_cong: "0 < m \<Longrightarrow> big_rem a m mod m = a mod m"
  by (auto simp: big_rem_def sgn_if mod_minus_eq)

lemma big_rem_normalised: "0 < m \<Longrightarrow> big_rem (big_rem a m + m) m = a mod m"
  using big_rem_bounds [of m a] by (simp add: big_rem_nonneg big_rem_cong)

lemma modPow_loop_power:
  assumes "1 < m" and "0 \<le> r" and "r < m" and "0 \<le> b"
  shows "modPow_loop r b e m = r * b ^ e mod m"
  using assms
proof (induction e arbitrary: r b rule: less_induct)
  case (less e)
  show ?case
  proof (cases "e = 0")
    case True
    with less.prems show ?thesis by (simp add: modPow_loop.simps)
  next
    case False
    let ?r = "if odd e then r * b mod m else r"
    let ?b = "b * b mod m"
    have half: "drop_bit (Suc 0) e = e div 2" by (simp add: drop_bit_Suc)
    have odd: "e mod 2 = Suc 0 \<longleftrightarrow> odd e" by (simp add: odd_iff_mod_2_eq_one)
    have "modPow_loop r b e m = modPow_loop ?r ?b (e div 2) m"
      using False less.prems by (subst modPow_loop.simps) (simp add: half odd and_one_eq big_rem_nonneg)
    also have "\<dots> = ?r * ?b ^ (e div 2) mod m"
      using False less.prems by (intro less.IH) auto
    also have "\<dots> = ?r * (b * b) ^ (e div 2) mod m" by (metis mod_mult_right_eq power_mod)
    also have "\<dots> = r * b ^ e mod m"
    proof (cases "odd e")
      case True
      then have "b ^ e = b * (b * b) ^ (e div 2)"
        by (metis odd_two_times_div_two_succ power_Suc power_mult power2_eq_square Suc_eq_plus1)
      with True show ?thesis by (simp add: mod_mult_left_eq mult.assoc)
    next
      case False
      then have "b ^ e = (b * b) ^ (e div 2)"
        by (metis dvd_mult_div_cancel power_mult power2_eq_square)
      with False show ?thesis by simp
    qed
    finally show ?thesis .
  qed
qed

lemma modPow_power: "1 < m \<Longrightarrow> modPow base exp m = base ^ exp mod m"
  by (simp add: modPow_def big_rem_normalised modPow_loop_power power_mod)

text \<open>The modulus as a number.\<close>

lemma N_val: "N = 0xAC6BDB41324A9A9BF166DE5E1389582FAF72B6651987EE07FC3192943DB56050A37329CBB4A099ED8193E0757767A13DD52312AB4B03310DCD7F48A9DA04FD50E8083969EDB767B0CF6096BEECFB71744F9A5B7CDBD7B3E8C94BBE117577A615D6C770988C0BAD946E208E24FA074E5AB3143DB5BFCE0FD108E4B82D120A93AD2CAFFFFFFFFFFFFFFFF"
  by code_simp

lemma N_gt_1: "1 < N"
  by (simp add: N_val)

lemma modPow_G: "modPow (int G) e (int N) = int (G ^ e mod N)"
  using N_gt_1 by (simp add: modPow_power zmod_int)

lemma length_go_bytes: "256 ^ k \<le> n \<Longrightarrow> n < 256 ^ Suc k \<Longrightarrow> length (go_bytes n) = Suc k"
proof (induction k arbitrary: n)
  case 0
  then show ?case by (simp add: go_bytes.simps [of n])
next
  case (Suc k)
  have "256 ^ k \<le> n div 256" using Suc.prems(1) by (simp add: less_eq_div_iff_mult_less_eq mult.commute)
  moreover have "n div 256 < 256 ^ Suc k" using Suc.prems(2) by (simp add: less_mult_imp_div_less mult.commute)
  ultimately have "length (go_bytes (n div 256)) = Suc k" by (rule Suc.IH)
  moreover have "n \<noteq> 0"
  proof
    assume "n = 0"
    with Suc.prems(1) show False by simp
  qed
  ultimately show ?case by (simp add: go_bytes.simps [of n])
qed

lemma PAD_LEN_val: "PAD_LEN = 138"
  by (simp add: PAD_LEN_def N_HEX_def)

lemma go_padLen_val: "go_padLen = 138"
proof -
  have "length (go_bytes N) = Suc 137"
    by (rule length_go_bytes) (simp_all add: N_val)
  then show ?thesis by (simp add: go_padLen_def)
qed

lemma bigIntToBytes_server: "bigIntToBytes n PAD_LEN = padBig n go_padLen"
  by (simp add: bigIntToBytes_padBig PAD_LEN_val go_padLen_val)

section \<open>Agreement\<close>

lemma sub_mod_nonneg:
  assumes "0 < m"
  shows "(let r = big_rem d m in if r < 0 then r + m else r) = d mod m"
proof (cases "big_rem d m < 0")
  case True
  then have "(big_rem d m + m) mod m = big_rem d m + m"
    using big_rem_bounds [OF assms, of d] by (intro mod_pos_pos_trivial) linarith+
  with True show ?thesis by (simp add: Let_def big_rem_cong [OF assms])
next
  case False
  then have "big_rem d m mod m = big_rem d m"
    using big_rem_bounds [OF assms, of d] by (intro mod_pos_pos_trivial) linarith+
  with False show ?thesis by (simp add: Let_def big_rem_cong [OF assms])
qed

text \<open>The secret both sides compute.\<close>

lemma shared_secret:
  fixes g n a b u x k :: nat
  assumes "1 < n"
  defines "v \<equiv> g ^ x mod n"
  defines "B \<equiv> (k * v + g ^ b mod n) mod n"
  shows "modPow ((int B - int k * int v) mod int n) (a + u * x) (int n) =
    int ((g ^ a mod n * (v ^ u mod n)) ^ b mod n)"
proof -
  have "(int B - int k * int v) mod int n = (int (g ^ b)) mod int n"
    unfolding B_def by (simp add: zmod_int mod_diff_left_eq mod_add_right_eq)
  then have "modPow ((int B - int k * int v) mod int n) (a + u * x) (int n) = int (g ^ b) ^ (a + u * x) mod int n"
    using assms(1) by (simp add: modPow_power power_mod)
  also have "\<dots> = int ((g ^ b) ^ (a + u * x) mod n)" by (simp add: zmod_int)
  also have "(g ^ b) ^ (a + u * x) = (g ^ a * (g ^ x) ^ u) ^ b"
    by (simp add: power_mult [symmetric] power_add [symmetric] algebra_simps)
  also have "(g ^ a * (g ^ x) ^ u) ^ b mod n = (g ^ a mod n * (v ^ u mod n)) ^ b mod n"
    unfolding v_def by (metis mod_mult_eq power_mod)
  finally show ?thesis .
qed

lemma begin_session_A: "nat (ss_A (begin_session rnd u p)) = G ^ bytesToBigInt rnd mod N"
  by (simp add: begin_session_def Let_def modPow_G)

lemma client_public_bytes:
  "b64ToBytes (JStr (ss_client_public_b64 (begin_session rnd u p))) = Inr (padBig (G ^ bytesToBigInt rnd mod N) go_padLen)"
  by (simp add: begin_session_def Let_def b64ToBytes_bytesToB64 modPow_G bigIntToBytes_server)

lemma verifier_bytes:
  "b64ToBytes (JStr (srp_verifier_b64 (createRegistration sha salt u p))) =
     Inr (padBig (G ^ computeX sha u p salt mod N) go_padLen)"
  by (simp add: createRegistration_def Let_def b64ToBytes_bytesToB64 modPow_G bigIntToBytes_server)

lemma sha256_parts [simp]: "sha256 sha parts = sha (concat parts)"
  by (simp add: sha256_def concatBytes_def)

lemma client_matches_server:
  assumes "newServerSession sha b u salt (padBig (G ^ computeX sha u p salt mod N) go_padLen)
      (padBig (G ^ bytesToBigInt rnd mod N) go_padLen) = Some sv"
  shows "clientProof sha (begin_session rnd u p) salt (serverPublic sv) =
    \<lparr>client_proof_b64 = bytesToB64 (sv_expectedClientM1 sv),
     expected_server_proof_b64 = bytesToB64 (sv_serverM2 sv)\<rparr>"
proof -
  define x where "x = computeX sha u p salt"
  define A where "A = G ^ bytesToBigInt rnd mod N"
  define v where "v = G ^ x mod N"
  define k where "k = multiplier sha"
  define B where "B = (k * v + G ^ b mod N) mod N"
  define w where "w = setBytes (sha (padBig A go_padLen @ padBig B go_padLen))"
  define S where "S = (A * (v ^ w mod N)) ^ b mod N"
  define K where "K = sha (padBig S go_padLen)"
  have k: "setBytes (sha (padBig N go_padLen @ padBig G go_padLen)) = k"
    by (simp add: k_def multiplier_def bytesToBigInt_setBytes bigIntToBytes_server)
  have sv: "sv = \<lparr>sv_B = B, sv_expectedClientM1 = clientProofBytes sha u salt A B K,
      sv_serverM2 = serverProofBytes sha A (clientProofBytes sha u salt A B K) K\<rparr>"
    using assms unfolding newServerSession_def setBytes_padBig Let_def
      x_def [symmetric] A_def [symmetric] v_def [symmetric] k B_def [symmetric] w_def [symmetric]
      mod_mod_trivial S_def [symmetric] K_def [symmetric]
    by (simp split: if_splits)
  have secret: "modPow ((int B - int k * int v) mod int N) (bytesToBigInt rnd + w * x) (int N) = int S"
    unfolding B_def v_def S_def A_def by (rule shared_secret [OF N_gt_1])
  have base: "(let r = big_rem (int B - int k * int v) (int N) in if r < 0 then r + int N else r)
      = (int B - int k * int v) mod int N"
    using N_gt_1 by (intro sub_mod_nonneg) simp
  have Bb: "bytesToBigInt (serverPublic sv) = B"
    by (simp add: bytesToBigInt_setBytes serverPublic_def sv setBytes_padBig)
  have st: "ss_username (begin_session rnd u p) = u" "ss_password (begin_session rnd u p) = p"
      "ss_a (begin_session rnd u p) = bytesToBigInt rnd"
    by (simp_all add: begin_session_def Let_def)
  have A: "nat (ss_A (begin_session rnd u p)) = A" by (simp add: begin_session_A A_def)
  have w: "bytesToBigInt (sha (padBig A go_padLen @ padBig B go_padLen)) = w"
    by (simp add: w_def bytesToBigInt_setBytes)
  have M: "sv_expectedClientM1 sv = clientProofBytes sha u salt A B K"
      "sv_serverM2 sv = serverProofBytes sha A (clientProofBytes sha u salt A B K) K"
    by (simp_all add: sv)
  show ?thesis
    unfolding clientProof_def sha256_parts concat.simps append_Nil2 bigIntToBytes_server bigIntToBytes_unpadded
      Bb st A x_def [symmetric] k_def [symmetric] modPow_G v_def [symmetric] Let_def w base [unfolded Let_def]
      secret nat_int K_def [symmetric] M clientProofBytes_def serverProofBytes_def
    by simp
qed

lemma bytesToB64_nonempty: "bs \<noteq> [] \<Longrightarrow> bytesToB64 bs \<noteq> []"
  using b64ToBytes_bytesToB64 [of bs] b64ToBytes_bytesToB64 [of "[]"]
  by (auto simp: bytesToB64_def btoa_def)

lemma expected_proof_nonempty:
  "(\<And>x. sha x \<noteq> []) \<Longrightarrow> expected_server_proof_b64 (clientProof sha st salt B) \<noteq> []"
  by (simp add: clientProof_def Let_def bytesToB64_nonempty)

section \<open>Properties\<close>

text \<open>
  C4. Client and server agree: when the server holds the verifier that \<open>createRegistration\<close> made for
  a user name and a password, and the client starts a session with the same two, the proof the
  client sends is the one the server session expects, and the proof the client expects back is the
  one the server session computes, for all random values on both sides and any hash function.
\<close>

theorem srp_agreement:
  assumes "b64ToBytes (JStr (srp_verifier_b64 (createRegistration sha salt username password))) = Inr verifier"
    and "b64ToBytes (JStr (ss_client_public_b64 (begin_session rnd username password))) = Inr clientPublic"
    and "newServerSession sha b username salt verifier clientPublic = Some sv"
  shows "clientProof sha (begin_session rnd username password) salt (serverPublic sv) =
    \<lparr>client_proof_b64 = bytesToB64 (sv_expectedClientM1 sv),
     expected_server_proof_b64 = bytesToB64 (sv_serverM2 sv)\<rparr>"
  using assms client_matches_server [of sha b username salt password rnd sv]
  by (simp add: verifier_bytes client_public_bytes)

theorem srp_agreement_witness:
  "\<exists>verifier clientPublic sv.
     newServerSession (\<lambda>_. [1]) 5 ''u'' [7] verifier clientPublic = Some sv
     \<and> clientProof (\<lambda>_. [1]) (begin_session [1] ''u'' ''p'') [7] (serverPublic sv) =
        \<lparr>client_proof_b64 = bytesToB64 (sv_expectedClientM1 sv),
         expected_server_proof_b64 = bytesToB64 (sv_serverM2 sv)\<rparr>"
proof -
  let ?sha = "\<lambda>_ :: bytes. [1 :: byte]"
  let ?v = "padBig (G ^ computeX ?sha ''u'' ''p'' [7] mod N) go_padLen"
  let ?A = "padBig (G ^ bytesToBigInt [1] mod N) go_padLen"
  have "G ^ bytesToBigInt [1] mod N = 2" "setBytes [1 :: byte] = 1"
    by (simp_all add: bytesToBigInt_setBytes setBytes_def G_def N_val)
  then have "newServerSession ?sha 5 ''u'' [7] ?v ?A \<noteq> None"
    by (simp add: newServerSession_def Let_def setBytes_padBig) (simp add: N_val)
  then obtain sv where sv: "newServerSession ?sha 5 ''u'' [7] ?v ?A = Some sv" by auto
  with srp_agreement [OF verifier_bytes client_public_bytes sv] show ?thesis by blast
qed

text \<open>
  \<open>modPow\<close>, the square-and-multiply loop over \<open>BigInt\<close>, ends and computes the power modulo \<open>m\<close>
  for every base, negative ones included, and every modulus above 1.
\<close>

theorem modPow_correct:
  assumes "1 < m"
  shows "modPow base exp m = base ^ exp mod m \<and> 0 \<le> modPow base exp m \<and> modPow base exp m < m"
  using assms by (simp add: modPow_power)

theorem modPow_correct_witness: "modPow (-3) 5 7 = (-3) ^ 5 mod 7 \<and> 0 \<le> modPow (-3) 5 7 \<and> modPow (-3) 5 7 < 7"
  by (rule modPow_correct) simp

text \<open>
  Integers survive the wire: decoding what \<open>bytesToB64(bigIntToBytes(n, PAD_LEN))\<close> wrote gives \<open>n\<close>
  back, and the bytes are those the server's \<open>padBig\<close> produces.
\<close>

theorem bigint_wire_roundtrip:
  "bindR (b64ToBytes (JStr (bytesToB64 (bigIntToBytes n PAD_LEN)))) (\<lambda>bs. Inr (bytesToBigInt bs)) = Inr n
   \<and> bigIntToBytes n PAD_LEN = padBig n go_padLen"
  using bytesToBigInt_bigIntToBytes [of n PAD_LEN] by (simp add: b64ToBytes_bytesToB64 bigIntToBytes_server)

text \<open>
  The modulus of the group that the code calls \<open>rfc5054-2048\<close> has 1100 bits and is divisible by
  13, so it is not a prime of 2048 bits.
\<close>

theorem srp_modulus_is_not_a_2048_bit_prime:
  "GROUP_NAME = ''rfc5054-2048'' \<and> 2 ^ 1099 \<le> N \<and> N < 2 ^ 1100 \<and> 13 dvd N"
  by (simp add: GROUP_NAME_def N_val)

text \<open>
  The client authenticates the server only when the server chooses to: \<open>exchange\<close> succeeds
  against a server that answers every request with status 200 and an empty object, for every user
  name, password and random value, although that server has proved nothing.
\<close>

theorem exchange_accepts_silent_server:
  "fst (exchange sha (\<lambda>s rq. (Inr \<lparr>rs_status = 200, rs_body = utf8_encode ''{}''\<rparr>, s))
     rnd beginUrl finishUrl username password extraFinish extraBegin s) = Inr (JObj [])"
proof -
  have j: "resp_json \<lparr>rs_status = 200, rs_body = utf8_encode ''{}''\<rparr> = Inr (JObj [])" by code_simp
  have b: "b64ToBytes JUndef = Inr []" by code_simp
  show ?thesis
    by (simp add: exchange_def fetch_def bindI_def liftI_def returnI_def resp_json_or_empty_def j resp_ok_def
        getR_def b Let_def)
qed

text \<open>
  When the answer to the second request does carry a server proof, \<open>exchange\<close> returns only if that
  proof is the one the client computed from the salt and the server value of the first answer.
\<close>

theorem exchange_checks_server_proof:
  assumes "exchange sha srv rnd beginUrl finishUrl username password extraFinish extraBegin s = (Inr j, s')"
    and "truthy (getp j ''server_proof_b64'')" and "\<forall>x. sha x \<noteq> []"
  shows "\<exists>beginRq beginRes salt B. fst (srv s beginRq) = Inr beginRes
    \<and> b64ToBytes (getp (resp_json_or_empty beginRes) ''salt_b64'') = Inr salt
    \<and> b64ToBytes (getp (resp_json_or_empty beginRes) ''server_public_b64'') = Inr B
    \<and> getp j ''server_proof_b64'' =
        JStr (expected_server_proof_b64 (clientProof sha (begin_session rnd username password) salt B))"
proof -
  let ?pr = "clientProof sha (begin_session rnd username password)"
  from assms(1) obtain rq beginRes u salt B where r: "fetch srv rq s = (Inr beginRes, u)"
      "b64ToBytes (getp (resp_json_or_empty beginRes) ''salt_b64'') = Inr salt"
      "b64ToBytes (getp (resp_json_or_empty beginRes) ''server_public_b64'') = Inr B"
      "strict_eq (JStr (expected_server_proof_b64 (?pr salt B))) (getp j ''server_proof_b64'')"
    using assms(2) expected_proof_nonempty [of sha, OF assms(3) [rule_format]]
    by (auto simp: exchange_def Let_def getR_def elim!: bindI_InrD split: if_splits simp del: strict_eq.simps)
  from r(1) have "fst (srv s rq) = Inr beginRes" by (simp add: fetch_def)
  with r strict_eq_imp_eq [OF r(4)] show ?thesis by metis
qed

definition parrot_server :: "nat server" where
  "parrot_server s rq = (Inr \<lparr>rs_status = 200, rs_body = utf8_encode ''{\"server_proof_b64\":\"AA==\"}''\<rparr>, Suc s)"

theorem exchange_checks_server_proof_witness:
  "\<exists>beginRq beginRes salt B. fst (parrot_server 0 beginRq) = Inr beginRes
    \<and> b64ToBytes (getp (resp_json_or_empty beginRes) ''salt_b64'') = Inr salt
    \<and> b64ToBytes (getp (resp_json_or_empty beginRes) ''server_public_b64'') = Inr B
    \<and> getp (JObj [(''server_proof_b64'', JStr ''AA=='')]) ''server_proof_b64'' =
        JStr (expected_server_proof_b64 (clientProof (\<lambda>_. [0]) (begin_session [] ''u'' ''p'') salt B))"
proof (rule exchange_checks_server_proof)
  have j: "resp_json \<lparr>rs_status = 200, rs_body = utf8_encode ''{\"server_proof_b64\":\"AA==\"}''\<rparr>
      = Inr (JObj [(''server_proof_b64'', JStr ''AA=='')])" by code_simp
  have b: "b64ToBytes JUndef = Inr []" by code_simp
  have e: "expected_server_proof_b64 (clientProof (\<lambda>_. [0]) st salt B) = ''AA==''" for st salt B
  proof -
    have "bytesToB64 [0] = ''AA==''" by code_simp
    then show ?thesis by (simp add: clientProof_def Let_def)
  qed
  show "exchange (\<lambda>_. [0]) parrot_server [] ''/b'' ''/f'' ''u'' ''p'' JUndef JUndef 0
      = (Inr (JObj [(''server_proof_b64'', JStr ''AA=='')]), Suc (Suc 0))"
    by (simp add: exchange_def fetch_def bindI_def liftI_def returnI_def resp_json_or_empty_def
        parrot_server_def j resp_ok_def getR_def b e Let_def)
qed simp_all

end
