(* ===== verification/Keygen.thy ===== *)
theory Keygen
  imports Srp JS_Numbers
begin

text \<open>
  \<^verbatim>\<open>static/auth/keygen.js\<close>: the two-layer key hierarchy. The account key is wrapped with AES-GCM
  under a key derived from the password, the identity key is encrypted to the account key. WebCrypto,
  argon2 and openpgp are the fields of a record \<open>crypto\<close> that the operations take as a parameter;
  \<open>crypto_ok\<close> states what is documented of them. Random bytes are arguments.
\<close>

section \<open>The libraries\<close>

record pgp_keypair =
  kp_public :: string
  kp_private :: string
  kp_revocation :: string

record crypto =
  cr_argon2_defined :: bool       \<comment> \<open>\<open>typeof argon2 !== "undefined"\<close>\<close>
  cr_argon2_usable :: bool        \<comment> \<open>\<open>argon2 && typeof argon2.hash === "function"\<close>\<close>
  cr_argon2id :: "bytes \<Rightarrow> bytes \<Rightarrow> jsnum \<Rightarrow> jsnum \<Rightarrow> jsnum \<Rightarrow> nat \<Rightarrow> bytes result"
  cr_pbkdf2 :: "bytes \<Rightarrow> bytes \<Rightarrow> nat \<Rightarrow> nat \<Rightarrow> bytes result"
  cr_importKey :: "bytes \<Rightarrow> bytes result"
  cr_encrypt :: "bytes \<Rightarrow> bytes \<Rightarrow> bytes \<Rightarrow> bytes result"   \<comment> \<open>key, iv, plain text\<close>
  cr_decrypt :: "bytes \<Rightarrow> bytes \<Rightarrow> bytes \<Rightarrow> bytes result"
  cr_openpgp_defined :: bool
  cr_generateKey :: "string \<Rightarrow> string \<Rightarrow> pgp_keypair result"   \<comment> \<open>name and email of the user id\<close>
  cr_pgp_encrypt :: "string \<Rightarrow> string \<Rightarrow> string result"        \<comment> \<open>armored public key, text\<close>
  cr_getFingerprint :: "string \<Rightarrow> string result"

text \<open>
  AES-GCM decrypts what it encrypted under the same key and nonce, and an encryption with a valid
  key succeeds.
\<close>

definition crypto_ok :: "crypto \<Rightarrow> bool" where
  "crypto_ok cr = (\<forall>k iv p c. cr_encrypt cr k iv p = Inr c \<longrightarrow> cr_decrypt cr k iv c = Inr p)"

section \<open>Constants and encodings\<close>

definition KDF_ARGON2ID :: string where
  "KDF_ARGON2ID = ''argon2id''"

definition KDF_PBKDF2 :: string where
  "KDF_PBKDF2 = ''pbkdf2-sha256''"

definition KDF_PBKDF2_LEGACY :: string where
  "KDF_PBKDF2_LEGACY = ''pbkdf2-sha256-600k''"

definition isPbkdf2Sha256Kdf :: "jsval \<Rightarrow> bool" where
  "isPbkdf2Sha256Kdf hint = (strict_eq hint (JStr KDF_PBKDF2) \<or> strict_eq hint (JStr KDF_PBKDF2_LEGACY))"

definition PBKDF2_ITERATIONS :: nat where
  "PBKDF2_ITERATIONS = 600000"

definition ARGON2_TIME :: int where
  "ARGON2_TIME = 3"

definition ARGON2_MEM_KIB :: int where
  "ARGON2_MEM_KIB = 64 * 1024"

definition ARGON2_PARALLELISM :: int where
  "ARGON2_PARALLELISM = 1"

definition KEK_BYTES :: nat where
  "KEK_BYTES = 32"

definition kg_bytesToB64 :: "bytes \<Rightarrow> string" where
  "kg_bytesToB64 bs = btoa (map char_of_byte bs)"

text \<open>Here \<open>atob\<close> is given the value itself, which it converts to a string.\<close>

definition kg_b64ToBytes :: "jsval \<Rightarrow> bytes result" where
  "kg_b64ToBytes b64 = bindR (atob (to_string b64)) (\<lambda>bin. Inr (map byte_of_char bin))"

section \<open>Key derivation\<close>

record derived =
  d_kdf :: string
  d_key :: bytes
  d_params :: jsval

definition deriveKEKWithPBKDF2 :: "crypto \<Rightarrow> string \<Rightarrow> bytes \<Rightarrow> bytes result" where
  "deriveKEKWithPBKDF2 cr password salt = cr_pbkdf2 cr (utf8_encode password) salt PBKDF2_ITERATIONS KEK_BYTES"

definition importKEKFromBytes :: "crypto \<Rightarrow> bytes \<Rightarrow> bytes result" where
  "importKEKFromBytes cr bs = cr_importKey cr bs"

text \<open>\<open>Number((paramsHint && paramsHint.k) || d)\<close>.\<close>

definition argon2_param :: "jsval \<Rightarrow> string \<Rightarrow> int \<Rightarrow> jsnum" where
  "argon2_param paramsHint k d =
     to_number (js_or (if truthy paramsHint then getp paramsHint k else paramsHint) (jint d))"

definition deriveKEKWithArgon2id :: "crypto \<Rightarrow> string \<Rightarrow> bytes \<Rightarrow> jsval \<Rightarrow> (bytes \<times> jsval) result" where
  "deriveKEKWithArgon2id cr password saltBytes paramsHint =
     (if \<not> cr_argon2_defined cr \<or> \<not> cr_argon2_usable cr then Inl (Error ''argon2 runtime not loaded'')
      else
        (let time = argon2_param paramsHint ''time'' ARGON2_TIME;
             mem = argon2_param paramsHint ''mem'' ARGON2_MEM_KIB;
             parallelism = argon2_param paramsHint ''parallelism'' ARGON2_PARALLELISM
         in
         bindR (cr_argon2id cr (utf8_encode password) saltBytes time mem parallelism KEK_BYTES) (\<lambda>hash.
         bindR (importKEKFromBytes cr hash) (\<lambda>key.
         Inr (key, JObj [(''time'', JNum time), (''mem'', JNum mem),
                         (''parallelism'', JNum parallelism), (''hash_len'', jint (int KEK_BYTES))])))))"

definition deriveKEK :: "crypto \<Rightarrow> string \<Rightarrow> bytes \<Rightarrow> jsval \<Rightarrow> jsval \<Rightarrow> derived result" where
  "deriveKEK cr password saltBytes kdfHint kdfParams =
     (let parsedParams = js_or kdfParams JNull;
          from_hint = \<not> truthy parsedParams \<and> truthy kdfHint \<and> typeof_object kdfHint;
          params = (if from_hint then kdfHint else parsedParams);
          hint = (if from_hint then js_or (js_or (getp kdfHint ''kdf'') (getp kdfHint ''name'')) (JStr []) else kdfHint)
      in
      if strict_eq hint (JStr KDF_ARGON2ID) \<or> \<not> truthy hint \<and> cr_argon2_defined cr then
        bindR (deriveKEKWithArgon2id cr password saltBytes params) (\<lambda>(key, ps).
          Inr \<lparr>d_kdf = KDF_ARGON2ID, d_key = key, d_params = ps\<rparr>)
      else if truthy hint \<and> \<not> isPbkdf2Sha256Kdf hint then
        Inl (Error (''unsupported KDF: '' @ to_string hint))
      else
        bindR (deriveKEKWithPBKDF2 cr password saltBytes) (\<lambda>key.
          Inr \<lparr>d_kdf = KDF_PBKDF2, d_key = key,
               d_params = JObj [(''iterations'', jint (int PBKDF2_ITERATIONS)), (''hash'', JStr ''SHA-256'')]\<rparr>))"

section \<open>Wrapping\<close>

text \<open>\<open>nonce\<close> stands for \<open>randomBytes(12)\<close>.\<close>

definition aesWrap :: "crypto \<Rightarrow> bytes \<Rightarrow> bytes \<Rightarrow> bytes \<Rightarrow> bytes result" where
  "aesWrap cr nonce kek plaintextBytes =
     bindR (cr_encrypt cr kek nonce plaintextBytes) (\<lambda>ct. Inr (nonce @ ct))"

definition aesUnwrap :: "crypto \<Rightarrow> bytes \<Rightarrow> bytes \<Rightarrow> bytes result" where
  "aesUnwrap cr kek wrapped =
     (if length wrapped < 12 then Inl (Error ''wrapped blob too short'')
      else cr_decrypt cr kek (slice 0 12 wrapped) (slice_from 12 wrapped))"

section \<open>PGP keys\<close>

record account_key =
  ak_armoredPub :: string
  ak_armoredPriv :: string
  ak_revocationCertificate :: string

definition generateAccountKey :: "crypto \<Rightarrow> string \<Rightarrow> account_key result" where
  "generateAccountKey cr email =
     (if \<not> cr_openpgp_defined cr then Inl (Error ''openpgp.js not loaded'')
      else
        bindR (cr_generateKey cr (''elvish-account:'' @ email) email) (\<lambda>kp.
          Inr \<lparr>ak_armoredPub = kp_public kp, ak_armoredPriv = kp_private kp,
               ak_revocationCertificate = kp_revocation kp\<rparr>))"

definition generateIdentityKey :: "crypto \<Rightarrow> string \<Rightarrow> pgp_keypair result" where
  "generateIdentityKey cr email = cr_generateKey cr email email"

definition pgpWrapToAccount :: "crypto \<Rightarrow> string \<Rightarrow> string \<Rightarrow> string result" where
  "pgpWrapToAccount cr armoredPlain armoredAccountPub = cr_pgp_encrypt cr armoredAccountPub armoredPlain"

definition pgpFingerprint :: "crypto \<Rightarrow> string \<Rightarrow> string result" where
  "pgpFingerprint cr armoredKey = bindR (cr_getFingerprint cr armoredKey) (\<lambda>fp. Inr (toUpperCase fp))"

section \<open>Bootstrap and password change\<close>

record bootstrap_account =
  ba_fingerprint :: string
  ba_armored_public :: string
  ba_wrapped_secret_b64 :: string
  ba_kdf :: string
  ba_kdf_salt_b64 :: string
  ba_kdf_params :: jsval

record bootstrap_identity =
  bi_email :: string
  bi_fingerprint :: string
  bi_armored_public :: string
  bi_wrapped_secret_armored :: string

definition bootstrap ::
  "crypto \<Rightarrow> bytes \<Rightarrow> bytes \<Rightarrow> string \<Rightarrow> string \<Rightarrow> (bootstrap_account \<times> bootstrap_identity) result" where
  "bootstrap cr salt nonce email password =
     (if email = [] \<or> password = [] then Inl (Error ''email and password required'')
      else
        bindR (generateAccountKey cr email) (\<lambda>account.
        bindR (generateIdentityKey cr email) (\<lambda>ident.
        bindR (deriveKEK cr password salt JUndef JUndef) (\<lambda>d.
        bindR (aesWrap cr nonce (d_key d) (utf8_encode (ak_armoredPriv account))) (\<lambda>wrappedAccountSecret.
        bindR (pgpWrapToAccount cr (kp_private ident) (ak_armoredPub account)) (\<lambda>wrappedIdentitySecret.
        bindR (pgpFingerprint cr (ak_armoredPub account)) (\<lambda>accountFingerprint.
        bindR (pgpFingerprint cr (kp_public ident)) (\<lambda>identityFingerprint.
        Inr (\<lparr>ba_fingerprint = accountFingerprint,
              ba_armored_public = ak_armoredPub account,
              ba_wrapped_secret_b64 = kg_bytesToB64 wrappedAccountSecret,
              ba_kdf = d_kdf d,
              ba_kdf_salt_b64 = kg_bytesToB64 salt,
              ba_kdf_params = d_params d\<rparr>,
             \<lparr>bi_email = email,
              bi_fingerprint = identityFingerprint,
              bi_armored_public = kp_public ident,
              bi_wrapped_secret_armored = wrappedIdentitySecret\<rparr>)))))))))"

record rewrapped =
  rw_wrapped_secret_b64 :: string
  rw_kdf :: string
  rw_kdf_salt_b64 :: string
  rw_kdf_params_json :: string

text \<open>\<open>JSON.parse(me.kdf_params_json || "{}")\<close>, and \<open>{}\<close> when that throws.\<close>

definition parse_kdf_params :: "jsval \<Rightarrow> jsval" where
  "parse_kdf_params v =
     (case json_parse (to_string (js_or v (JStr ''{}''))) of Some p \<Rightarrow> p | None \<Rightarrow> JObj [])"

definition rewrapAccountForNewPassword ::
  "crypto \<Rightarrow> bytes \<Rightarrow> bytes \<Rightarrow> jsval \<Rightarrow> string \<Rightarrow> string \<Rightarrow> rewrapped result" where
  "rewrapAccountForNewPassword cr newSalt nonce me oldPassword newPassword =
     (if \<not> truthy me \<or> \<not> truthy (getp me ''bootstrapped'') then Inl (Error ''account key not bootstrapped'')
      else
        bindR (kg_b64ToBytes (getp me ''kdf_salt_b64'')) (\<lambda>saltBytes.
        let oldParams = parse_kdf_params (getp me ''kdf_params_json'') in
        bindR (deriveKEK cr oldPassword saltBytes (getp me ''kdf'') oldParams) (\<lambda>oldDerived.
        bindR (kg_b64ToBytes (getp me ''wrapped_secret_b64'')) (\<lambda>wrapped.
        bindR (aesUnwrap cr (d_key oldDerived) wrapped) (\<lambda>privArmoredUtf8.
        bindR (deriveKEK cr newPassword newSalt (JStr KDF_ARGON2ID) JUndef) (\<lambda>newDerived.
        bindR (aesWrap cr nonce (d_key newDerived) privArmoredUtf8) (\<lambda>newWrapped.
        Inr \<lparr>rw_wrapped_secret_b64 = kg_bytesToB64 newWrapped,
             rw_kdf = d_kdf newDerived,
             rw_kdf_salt_b64 = kg_bytesToB64 newSalt,
             rw_kdf_params_json = json_str (js_or (d_params newDerived) (JObj []))\<rparr>)))))))"

declare KDF_ARGON2ID_def [js_eval] KDF_PBKDF2_def [js_eval] KDF_PBKDF2_LEGACY_def [js_eval]
  isPbkdf2Sha256Kdf_def [js_eval] PBKDF2_ITERATIONS_def [js_eval] ARGON2_TIME_def [js_eval]
  ARGON2_MEM_KIB_def [js_eval] ARGON2_PARALLELISM_def [js_eval] KEK_BYTES_def [js_eval]
  argon2_param_def [js_eval]

section \<open>Lemmas\<close>

lemma kg_b64_roundtrip: "kg_b64ToBytes (JStr (kg_bytesToB64 bs)) = Inr bs"
  by (simp add: kg_b64ToBytes_def kg_bytesToB64_def atob_btoa del: map_map)

lemma aesUnwrap_aesWrap:
  assumes "crypto_ok cr" and "length nonce = 12" and "aesWrap cr nonce kek p = Inr w"
  shows "aesUnwrap cr kek w = Inr p"
  using assms
  by (auto simp: aesWrap_def aesUnwrap_def bindR_eq_Inr slice_def slice_from_def slice_pos_def crypto_ok_def)

text \<open>A key stored in wrapped form is a lossless encoding of its bytes.\<close>

lemma aes_codec:
  assumes "crypto_ok cr" and "length nonce = 12"
  shows "codec (aesWrap cr nonce kek)
    (\<lambda>r. case r of Inr w \<Rightarrow> (case aesUnwrap cr kek w of Inr p \<Rightarrow> Some p | Inl _ \<Rightarrow> None) | Inl _ \<Rightarrow> None)
    (\<lambda>p. \<exists>w. aesWrap cr nonce kek p = Inr w)"
  by unfold_locales (auto simp: aesUnwrap_aesWrap [OF assms])

lemma parse_kdf_params_stored: "json_ok (JObj kvs) \<Longrightarrow> parse_kdf_params (JStr (json_str (JObj kvs))) = JObj kvs"
proof -
  assume ok: "json_ok (JObj kvs)"
  have "json_str (JObj kvs) \<noteq> []" by simp
  with json.dec_enc [OF ok] show ?thesis
    by (simp add: parse_kdf_params_def js_or_def del: json_str.simps)
qed

text \<open>The parameters a fresh derivation reports, and that they select the same derivation again.\<close>

definition default_argon2_params :: jsval where
  "default_argon2_params =
     JObj [(''time'', jint 3), (''mem'', jint 65536), (''parallelism'', jint 1), (''hash_len'', jint 32)]"

lemma argon2_param_default [simp]:
  "argon2_param JUndef k d = Fin d" "argon2_param JNull k d = Fin d"
  by (simp_all add: argon2_param_def)

lemma argon2_param_stored:
  "argon2_param default_argon2_params ''time'' ARGON2_TIME = Fin ARGON2_TIME"
  "argon2_param default_argon2_params ''mem'' ARGON2_MEM_KIB = Fin ARGON2_MEM_KIB"
  "argon2_param default_argon2_params ''parallelism'' ARGON2_PARALLELISM = Fin ARGON2_PARALLELISM"
  by (simp_all add: argon2_param_def default_argon2_params_def ARGON2_TIME_def ARGON2_MEM_KIB_def
      ARGON2_PARALLELISM_def js_or_def)

lemma argon2_default:
  assumes "deriveKEKWithArgon2id cr pw salt JNull = Inr (key, ps)"
  shows "ps = default_argon2_params" and "deriveKEKWithArgon2id cr pw salt default_argon2_params = Inr (key, ps)"
proof -
  show "ps = default_argon2_params"
    using assms by (auto simp: deriveKEKWithArgon2id_def default_argon2_params_def bindR_eq_Inr Let_def
        ARGON2_TIME_def ARGON2_MEM_KIB_def ARGON2_PARALLELISM_def KEK_BYTES_def split: if_splits)
  have "deriveKEKWithArgon2id cr pw salt default_argon2_params = deriveKEKWithArgon2id cr pw salt JNull"
    by (simp add: deriveKEKWithArgon2id_def argon2_param_stored)
  with assms show "deriveKEKWithArgon2id cr pw salt default_argon2_params = Inr (key, ps)" by simp
qed

lemma parse_default_params:
  "parse_kdf_params (JStr (json_str default_argon2_params)) = default_argon2_params"
  unfolding default_argon2_params_def by (rule parse_kdf_params_stored) simp

lemma deriveKEK_argon2_again:
  assumes "deriveKEK cr pw salt (JStr KDF_ARGON2ID) JUndef = Inr d"
  shows "d_kdf d = KDF_ARGON2ID \<and> d_params d = default_argon2_params
    \<and> deriveKEK cr pw salt (JStr KDF_ARGON2ID) default_argon2_params = Inr d"
proof -
  obtain key ps where kp: "deriveKEKWithArgon2id cr pw salt JNull = Inr (key, ps)"
      "d = \<lparr>d_kdf = KDF_ARGON2ID, d_key = key, d_params = ps\<rparr>"
    using assms by (auto simp: deriveKEK_def bindR_eq_Inr Let_def js_or_def)
  note again = argon2_default [OF kp(1)]
  have "truthy default_argon2_params" by (simp add: default_argon2_params_def)
  with kp(2) again show ?thesis by (simp add: deriveKEK_def Let_def js_or_def)
qed

lemma deriveKEK_pbkdf2:
  "isPbkdf2Sha256Kdf hint \<Longrightarrow> deriveKEK cr pw salt hint ps =
     bindR (deriveKEKWithPBKDF2 cr pw salt) (\<lambda>key.
       Inr \<lparr>d_kdf = KDF_PBKDF2, d_key = key,
            d_params = JObj [(''iterations'', jint 600000), (''hash'', JStr ''SHA-256'')]\<rparr>)"
  by (auto simp: isPbkdf2Sha256Kdf_def deriveKEK_def Let_def KDF_ARGON2ID_def KDF_PBKDF2_def KDF_PBKDF2_LEGACY_def
      PBKDF2_ITERATIONS_def dest!: strict_eq_imp_eq)

lemma isPbkdf2_label: "isPbkdf2Sha256Kdf (JStr KDF_PBKDF2)"
  by (simp add: isPbkdf2Sha256Kdf_def)

text \<open>What is stored of a derivation without hints derives the same key again.\<close>

lemma deriveKEK_rederive:
  assumes "deriveKEK cr pw salt JUndef JUndef = Inr d"
  shows "deriveKEK cr pw salt (JStr (d_kdf d)) (parse_kdf_params (JStr (json_str (d_params d)))) = Inr d"
proof (cases "cr_argon2_defined cr")
  case True
  with assms have "deriveKEK cr pw salt (JStr KDF_ARGON2ID) JUndef = Inr d"
    by (simp add: deriveKEK_def Let_def js_or_def)
  from deriveKEK_argon2_again [OF this] show ?thesis by (simp add: parse_default_params)
next
  case False
  with assms have "d_kdf d = KDF_PBKDF2" "deriveKEK cr pw salt (JStr KDF_PBKDF2) JUndef = Inr d"
    by (auto simp: deriveKEK_pbkdf2 [OF isPbkdf2_label])
       (auto simp: deriveKEK_def Let_def js_or_def bindR_eq_Inr PBKDF2_ITERATIONS_def)
  then show ?thesis by (simp add: deriveKEK_pbkdf2 [OF isPbkdf2_label])
qed

text \<open>What a bootstrapped account row holds.\<close>

lemma bootstrapD:
  assumes "crypto_ok cr" and "length nonce = 12" and "bootstrap cr salt nonce email password = Inr (acc, ident)"
  obtains account d w where "generateAccountKey cr email = Inr account"
    and "deriveKEK cr password salt (JStr (ba_kdf acc)) (parse_kdf_params (JStr (json_str (ba_kdf_params acc)))) = Inr d"
    and "ba_wrapped_secret_b64 acc = kg_bytesToB64 w" and "ba_kdf_salt_b64 acc = kg_bytesToB64 salt"
    and "aesUnwrap cr (d_key d) w = Inr (utf8_encode (ak_armoredPriv account))"
    and "ba_armored_public acc = ak_armoredPub account"
    and "pgpFingerprint cr (ak_armoredPub account) = Inr (ba_fingerprint acc)"
proof -
  obtain account d w where acc: "generateAccountKey cr email = Inr account"
      "deriveKEK cr password salt JUndef JUndef = Inr d"
      "aesWrap cr nonce (d_key d) (utf8_encode (ak_armoredPriv account)) = Inr w"
      "ba_armored_public acc = ak_armoredPub account" "ba_wrapped_secret_b64 acc = kg_bytesToB64 w"
      "ba_kdf acc = d_kdf d" "ba_kdf_salt_b64 acc = kg_bytesToB64 salt" "ba_kdf_params acc = d_params d"
      "pgpFingerprint cr (ak_armoredPub account) = Inr (ba_fingerprint acc)"
    using assms(3) by (auto simp: bootstrap_def bindR_eq_Inr split: if_splits)
  show ?thesis
    using that [OF acc(1) _ acc(5,7) _ acc(4,9), of d] deriveKEK_rederive [OF acc(2)] aesUnwrap_aesWrap [OF assms(1,2) acc(3)]
    by (simp add: acc(6,8))
qed

section \<open>Properties\<close>

text \<open>
  A bootstrapped account can be opened again from what is sent to the server: deriving the key
  with the stored salt, the stored label and the stored parameters (as JSON text) and unwrapping the
  stored secret gives back the armored private account key, for any cryptographic library that
  decrypts what it encrypted.
\<close>

theorem bootstrap_recoverable:
  assumes "crypto_ok cr" and "length nonce = 12"
    and "bootstrap cr salt nonce email password = Inr (acc, ident)"
  shows "\<exists>account d wrapped. generateAccountKey cr email = Inr account
    \<and> ba_armored_public acc = ak_armoredPub account
    \<and> kg_b64ToBytes (JStr (ba_kdf_salt_b64 acc)) = Inr salt
    \<and> deriveKEK cr password salt (JStr (ba_kdf acc)) (parse_kdf_params (JStr (json_str (ba_kdf_params acc)))) = Inr d
    \<and> kg_b64ToBytes (JStr (ba_wrapped_secret_b64 acc)) = Inr wrapped
    \<and> aesUnwrap cr (d_key d) wrapped = Inr (utf8_encode (ak_armoredPriv account))"
proof -
  obtain account d w where acc: "generateAccountKey cr email = Inr account"
      "deriveKEK cr password salt (JStr (ba_kdf acc)) (parse_kdf_params (JStr (json_str (ba_kdf_params acc)))) = Inr d"
      "ba_wrapped_secret_b64 acc = kg_bytesToB64 w" "ba_kdf_salt_b64 acc = kg_bytesToB64 salt"
      "aesUnwrap cr (d_key d) w = Inr (utf8_encode (ak_armoredPriv account))" "ba_armored_public acc = ak_armoredPub account"
    using bootstrapD [OF assms] by metis
  then show ?thesis by (simp add: kg_b64_roundtrip)
qed

definition demo_crypto :: crypto where
  "demo_crypto =
     \<lparr>cr_argon2_defined = True, cr_argon2_usable = True,
      cr_argon2id = (\<lambda>pass salt t m p n. Inr (pass @ salt)),
      cr_pbkdf2 = (\<lambda>pass salt it n. Inr (salt @ pass)),
      cr_importKey = Inr,
      cr_encrypt = (\<lambda>k iv p. Inr (k @ p)),
      cr_decrypt = (\<lambda>k iv c. if take (length k) c = k then Inr (drop (length k) c) else Inl (DOMError ''OperationError'')),
      cr_openpgp_defined = True,
      cr_generateKey = (\<lambda>name email. Inr \<lparr>kp_public = ''pub:'' @ name, kp_private = ''priv:'' @ name, kp_revocation = []\<rparr>),
      cr_pgp_encrypt = (\<lambda>pub t. Inr (pub @ t)),
      cr_getFingerprint = (\<lambda>k. Inr k)\<rparr>"

lemma demo_crypto_ok: "crypto_ok demo_crypto"
  by (auto simp: crypto_ok_def demo_crypto_def)

theorem bootstrap_recoverable_witness:
  "\<exists>acc ident account d wrapped. bootstrap demo_crypto [1] (replicate 12 7) ''a@b'' ''pw'' = Inr (acc, ident)
    \<and> generateAccountKey demo_crypto ''a@b'' = Inr account
    \<and> deriveKEK demo_crypto ''pw'' [1] (JStr (ba_kdf acc)) (parse_kdf_params (JStr (json_str (ba_kdf_params acc)))) = Inr d
    \<and> kg_b64ToBytes (JStr (ba_wrapped_secret_b64 acc)) = Inr wrapped
    \<and> aesUnwrap demo_crypto (d_key d) wrapped = Inr (utf8_encode (ak_armoredPriv account))"
proof -
  have "\<exists>acc ident. bootstrap demo_crypto [1] (replicate 12 7) ''a@b'' ''pw'' = Inr (acc, ident)"
    by (simp add: bootstrap_def generateAccountKey_def generateIdentityKey_def deriveKEK_def
        deriveKEKWithArgon2id_def importKEKFromBytes_def aesWrap_def pgpWrapToAccount_def pgpFingerprint_def
        demo_crypto_def Let_def)
  then obtain acc ident where b: "bootstrap demo_crypto [1] (replicate 12 7) ''a@b'' ''pw'' = Inr (acc, ident)" by blast
  show ?thesis using b bootstrap_recoverable [OF demo_crypto_ok _ b] by auto
qed

text \<open>
  C39. Changing the password keeps the account key: whatever row \<open>rewrapAccountForNewPassword\<close> was
  given, the row it returns is opened by the new password and holds the secret that the old password
  opened in the old row.
\<close>

theorem rewrap_preserves_secret:
  assumes "crypto_ok cr" and "length nonce = 12"
    and "rewrapAccountForNewPassword cr newSalt nonce me oldPassword newPassword = Inr row"
  shows "\<exists>secret oldSalt oldD oldW newD newW.
      kg_b64ToBytes (getp me ''kdf_salt_b64'') = Inr oldSalt
    \<and> deriveKEK cr oldPassword oldSalt (getp me ''kdf'') (parse_kdf_params (getp me ''kdf_params_json'')) = Inr oldD
    \<and> kg_b64ToBytes (getp me ''wrapped_secret_b64'') = Inr oldW
    \<and> aesUnwrap cr (d_key oldD) oldW = Inr secret
    \<and> kg_b64ToBytes (JStr (rw_kdf_salt_b64 row)) = Inr newSalt
    \<and> deriveKEK cr newPassword newSalt (JStr (rw_kdf row)) (parse_kdf_params (JStr (rw_kdf_params_json row))) = Inr newD
    \<and> kg_b64ToBytes (JStr (rw_wrapped_secret_b64 row)) = Inr newW
    \<and> aesUnwrap cr (d_key newD) newW = Inr secret"
proof -
  obtain oldSalt oldD oldW secret newD w where r:
      "kg_b64ToBytes (getp me ''kdf_salt_b64'') = Inr oldSalt"
      "deriveKEK cr oldPassword oldSalt (getp me ''kdf'') (parse_kdf_params (getp me ''kdf_params_json'')) = Inr oldD"
      "kg_b64ToBytes (getp me ''wrapped_secret_b64'') = Inr oldW"
      "aesUnwrap cr (d_key oldD) oldW = Inr secret"
      "deriveKEK cr newPassword newSalt (JStr KDF_ARGON2ID) JUndef = Inr newD"
      "aesWrap cr nonce (d_key newD) secret = Inr w"
      "row = \<lparr>rw_wrapped_secret_b64 = kg_bytesToB64 w, rw_kdf = d_kdf newD, rw_kdf_salt_b64 = kg_bytesToB64 newSalt,
              rw_kdf_params_json = json_str (js_or (d_params newD) (JObj []))\<rparr>"
    using assms(3) by (auto simp: rewrapAccountForNewPassword_def bindR_eq_Inr Let_def split: if_splits)
  note again = deriveKEK_argon2_again [OF r(5)]
  have "js_or (d_params newD) (JObj []) = default_argon2_params"
    using again by (simp add: js_or_def default_argon2_params_def)
  then have "deriveKEK cr newPassword newSalt (JStr (rw_kdf row)) (parse_kdf_params (JStr (rw_kdf_params_json row))) = Inr newD"
    using again by (simp add: r(7) parse_default_params)
  with r aesUnwrap_aesWrap [OF assms(1,2) r(6)] show ?thesis by (simp add: kg_b64_roundtrip)
qed

definition demo_row :: jsval where
  "demo_row = JObj [(''bootstrapped'', JBool True), (''kdf'', JStr ''pbkdf2-sha256-600k''),
     (''kdf_salt_b64'', JStr ''BQ==''), (''wrapped_secret_b64'', JStr ''AAAAAAAAAAAAAAAABXB3Kg=='')]"

theorem rewrap_preserves_secret_witness:
  "\<exists>row newD newW. rewrapAccountForNewPassword demo_crypto [9] (replicate 12 7) demo_row ''pw'' ''new'' = Inr row
    \<and> deriveKEK demo_crypto ''new'' [9] (JStr (rw_kdf row)) (parse_kdf_params (JStr (rw_kdf_params_json row))) = Inr newD
    \<and> kg_b64ToBytes (JStr (rw_wrapped_secret_b64 row)) = Inr newW
    \<and> aesUnwrap demo_crypto (d_key newD) newW = Inr [42]"
proof -
  have facts: "kg_b64ToBytes (getp demo_row ''kdf_salt_b64'') = Inr [5]"
      "kg_b64ToBytes (getp demo_row ''wrapped_secret_b64'') = Inr (replicate 12 0 @ [5, 112, 119, 42])"
      "parse_kdf_params (getp demo_row ''kdf_params_json'') = JObj []"
      "utf8_encode ''pw'' = [112, 119]" "getp demo_row ''kdf'' = JStr KDF_PBKDF2_LEGACY"
      "truthy demo_row" "truthy (getp demo_row ''bootstrapped'')"
    by code_simp+
  have old: "deriveKEK demo_crypto ''pw'' [5] (JStr KDF_PBKDF2_LEGACY) (JObj []) =
      Inr \<lparr>d_kdf = KDF_PBKDF2, d_key = [5, 112, 119], d_params = JObj [(''iterations'', jint 600000), (''hash'', JStr ''SHA-256'')]\<rparr>"
    by (subst deriveKEK_pbkdf2)
       (simp_all add: isPbkdf2Sha256Kdf_def deriveKEKWithPBKDF2_def demo_crypto_def facts(4))
  have un: "aesUnwrap demo_crypto [5, 112, 119] (replicate 12 0 @ [5, 112, 119, 42]) = Inr [42]"
    by (simp add: aesUnwrap_def slice_def slice_from_def slice_pos_def demo_crypto_def)
  have new: "\<exists>d. deriveKEK demo_crypto ''new'' [9] (JStr KDF_ARGON2ID) JUndef = Inr d"
    by (simp add: deriveKEK_def deriveKEKWithArgon2id_def importKEKFromBytes_def demo_crypto_def Let_def)
  have wrap: "aesWrap demo_crypto n k q = Inr (n @ k @ q)" for n k q
    by (simp add: aesWrap_def demo_crypto_def)
  have "\<exists>row. rewrapAccountForNewPassword demo_crypto [9] (replicate 12 7) demo_row ''pw'' ''new'' = Inr row"
    using facts(6,7) new unfolding rewrapAccountForNewPassword_def facts(1-3,5)
    by (auto simp: old un wrap Let_def simp del: json_str.simps)
  then obtain row where row: "rewrapAccountForNewPassword demo_crypto [9] (replicate 12 7) demo_row ''pw'' ''new'' = Inr row" by blast
  show ?thesis
    using row rewrap_preserves_secret [OF demo_crypto_ok _ row] by (auto simp: facts old un)
qed

text \<open>
  A row of the PBKDF2 kind is always opened with 600000 iterations: the iteration count that the
  row's own parameters name has no influence on the derived key, under both labels.
\<close>

theorem pbkdf2_ignores_stored_iterations:
  assumes "hint = JStr KDF_PBKDF2 \<or> hint = JStr KDF_PBKDF2_LEGACY"
  shows "deriveKEK cr pw salt hint (JObj [(''iterations'', jint n)]) =
    bindR (cr_pbkdf2 cr (utf8_encode pw) salt 600000 32) (\<lambda>key.
      Inr \<lparr>d_kdf = ''pbkdf2-sha256'', d_key = key,
           d_params = JObj [(''iterations'', jint 600000), (''hash'', JStr ''SHA-256'')]\<rparr>)"
proof -
  have "isPbkdf2Sha256Kdf hint" using assms by (auto simp: isPbkdf2Sha256Kdf_def)
  from deriveKEK_pbkdf2 [OF this] show ?thesis
    by (simp add: deriveKEKWithPBKDF2_def PBKDF2_ITERATIONS_def KEK_BYTES_def KDF_PBKDF2_def)
qed

theorem pbkdf2_ignores_stored_iterations_witness:
  "deriveKEK demo_crypto ''pw'' [1] (JStr KDF_PBKDF2_LEGACY) (JObj [(''iterations'', jint 10)]) =
    bindR (cr_pbkdf2 demo_crypto (utf8_encode ''pw'') [1] 600000 32) (\<lambda>key.
      Inr \<lparr>d_kdf = ''pbkdf2-sha256'', d_key = key,
           d_params = JObj [(''iterations'', jint 600000), (''hash'', JStr ''SHA-256'')]\<rparr>)"
  by (rule pbkdf2_ignores_stored_iterations) simp

end
