(* ===== verification/Mail_Text.thy ===== *)
theory Mail_Text
  imports JS_Numbers JS_Bytes
begin

text \<open>
  Small helpers of the mail client: \<^verbatim>\<open>static/mail/html-plaintext.js\<close> (plain text of an HTML body,
  with the browser's \<open>DOMParser\<close> as a parameter), \<^verbatim>\<open>static/mail/crypto/envelope.js\<close> (validation of
  an envelope manifest) and the three files under \<^verbatim>\<open>static/mail/lib\<close> (addresses, fingerprints,
  encryption labels, sizes).
\<close>

section \<open>Regular expressions of the code\<close>

text \<open>
  \<open>s.replace(/<[^>]+>/g, r)\<close>: a \<open><\<close>, at least one character other than \<open>>\<close>, and the next \<open>>\<close>. A
  \<open><\<close> that starts no match is kept.
\<close>

function replace_tags :: "string \<Rightarrow> string \<Rightarrow> string" where
  "replace_tags r [] = []"
| "replace_tags r (c # s) =
     (let u = takeWhile (\<lambda>x. x \<noteq> CHR ''>'') s; v = dropWhile (\<lambda>x. x \<noteq> CHR ''>'') s in
      if c = CHR ''<'' \<and> u \<noteq> [] \<and> v \<noteq> [] then r @ replace_tags r (tl v)
      else c # replace_tags r s)"
  by pat_completeness auto
termination
proof (relation "measure (length \<circ> snd)", goal_cases)
  case (2 r c s u v)
  have "length v \<le> length s" unfolding 2(2) by (rule length_dropWhile_le)
  then show ?case by (cases v) auto
qed auto

declare replace_tags.simps [simp del]

text \<open>\<open>s.replace(/\<s>+/g, " ")\<close> for a class \<open>P\<close> of characters: each maximal run becomes \<open>r\<close>.\<close>

function replace_runs :: "(char \<Rightarrow> bool) \<Rightarrow> string \<Rightarrow> string \<Rightarrow> string" where
  "replace_runs P r [] = []"
| "replace_runs P r (c # s) =
     (if P c then r @ replace_runs P r (dropWhile P s) else c # replace_runs P r s)"
  by pat_completeness auto
termination
  by (relation "measure (\<lambda>(_, _, s). length s)") (auto simp: le_imp_less_Suc length_dropWhile_le)

declare replace_runs.simps [simp del]

text \<open>\<open>s.replace(/[ \t]+\n/g, "\n")\<close>: blanks are dropped when a line feed follows them.\<close>

definition is_blank :: "char \<Rightarrow> bool" where
  "is_blank c = (c = CHR '' '' \<or> code_unit c = 9)"

definition is_lf :: "char \<Rightarrow> bool" where
  "is_lf c = (code_unit c = 10)"

function trim_line_ends :: "string \<Rightarrow> string" where
  "trim_line_ends [] = []"
| "trim_line_ends (c # s) =
     (let v = dropWhile is_blank s in
      if is_blank c \<and> v \<noteq> [] \<and> is_lf (hd v) then hd v # trim_line_ends (tl v)
      else c # trim_line_ends s)"
  by pat_completeness auto
termination
proof (relation "measure length", goal_cases)
  case (2 c s v)
  have "length v \<le> length s" unfolding 2(1) by (rule length_dropWhile_le)
  then show ?case by (cases v) auto
qed auto

declare trim_line_ends.simps [simp del]

text \<open>\<open>s.replace(/\n{3,}/g, "\n\n")\<close>: a run of at least three line feeds becomes two.\<close>

function squeeze_lf :: "string \<Rightarrow> string" where
  "squeeze_lf [] = []"
| "squeeze_lf (c # s) =
     (if is_lf c then
        (let u = takeWhile is_lf s; v = dropWhile is_lf s in
         (if 2 \<le> length u then [c, c] else c # u) @ squeeze_lf v)
      else c # squeeze_lf s)"
  by pat_completeness auto
termination
  by (relation "measure length") (auto simp: le_imp_less_Suc length_dropWhile_le)

declare squeeze_lf.simps [simp del]

text \<open>
  \<open>s.replace(/<(br|\/p|\/div|\/li|\/tr|\/h[1-6])\b[^>]*>/gi, "\n")\<close>: one of the names, a word boundary
  (the next character is not a word character), and everything up to the next \<open>>\<close>.
\<close>

definition is_word :: "char \<Rightarrow> bool" where
  "is_word c = (is_digit c \<or> 65 \<le> code_unit c \<and> code_unit c \<le> 90 \<or> 97 \<le> code_unit c \<and> code_unit c \<le> 122 \<or> c = CHR ''_'')"

definition break_names :: "string list" where
  "break_names = [''br'', ''/p'', ''/div'', ''/li'', ''/tr'', ''/h1'', ''/h2'', ''/h3'', ''/h4'', ''/h5'', ''/h6'']"

definition break_tag_at :: "string \<Rightarrow> bool" where
  "break_tag_at s =
     list_ex (\<lambda>n. take (length n) (toLowerCase s) = n
        \<and> (let rest = drop (length n) s in rest \<noteq> [] \<and> \<not> is_word (hd rest) \<and> CHR ''>'' \<in> set rest)) break_names"

function replace_breaks :: "string \<Rightarrow> string" where
  "replace_breaks [] = []"
| "replace_breaks (c # s) =
     (if c = CHR ''<'' \<and> break_tag_at s
      then char_of (10 :: nat) # replace_breaks (tl (dropWhile (\<lambda>x. x \<noteq> CHR ''>'') s))
      else c # replace_breaks s)"
  by pat_completeness auto
termination
proof (relation "measure length", goal_cases)
  case (2 c s)
  have "length (dropWhile (\<lambda>x. x \<noteq> CHR ''>'') s) \<le> length s" by (rule length_dropWhile_le)
  then show ?case by auto
qed auto

declare replace_breaks.simps [simp del]

section \<open>html-plaintext.js\<close>

text \<open>
  The two uses of \<open>DOMParser\<close>: the inner HTML of the body after the \<open>script\<close> and \<open>style\<close> elements
  are removed, and the text content of the document. \<open>None\<close>: the environment has no \<open>DOMParser\<close>.
\<close>

record dom_parser =
  dp_strip_blocks :: "string \<Rightarrow> string"
  dp_text_content :: "string \<Rightarrow> string"

definition stripHtmlBlocks :: "dom_parser option \<Rightarrow> string \<Rightarrow> string" where
  "stripHtmlBlocks dp raw =
     (case dp of None \<Rightarrow> replace_tags '' '' raw | Some p \<Rightarrow> dp_strip_blocks p raw)"

definition decodeHtmlEntities :: "dom_parser option \<Rightarrow> string \<Rightarrow> string" where
  "decodeHtmlEntities dp raw = (case dp of Some p \<Rightarrow> dp_text_content p raw | None \<Rightarrow> raw)"

definition innerPlain :: "dom_parser option \<Rightarrow> string \<Rightarrow> string" where
  "innerPlain dp fragment = trim (decodeHtmlEntities dp (replace_tags '' '' fragment))"

definition htmlToDisplayText :: "dom_parser option \<Rightarrow> string \<Rightarrow> string" where
  "htmlToDisplayText dp html =
     (let t0 = stripHtmlBlocks dp html;
          t1 = replace_tags '' '' (replace_breaks t0);
          t2 = decodeHtmlEntities dp t1
      in trim (squeeze_lf (trim_line_ends (filter (\<lambda>c. code_unit c \<noteq> 13) t2))))"

definition htmlToPlainSearchText :: "dom_parser option \<Rightarrow> string \<Rightarrow> string" where
  "htmlToPlainSearchText dp html =
     trim (replace_runs is_space '' '' (decodeHtmlEntities dp (replace_tags '' '' (stripHtmlBlocks dp html))))"

definition alnum_chars :: string where
  "alnum_chars = ''abcdefghijklmnopqrstuvwxyz0123456789''"

text \<open>The argument stands for the random bytes.\<close>

definition randomAlphanumeric :: "bytes \<Rightarrow> string" where
  "randomAlphanumeric bs = map (\<lambda>b. alnum_chars ! (unat b mod length alnum_chars)) bs"

text \<open>
  A parsed URL; \<open>parse\<close> is the \<open>URL\<close> constructor with its base. The second check of the code parses
  the base itself.
\<close>

record url =
  u_origin :: string
  u_pathname :: string
  u_href :: string

definition validatedSameOriginScriptURL ::
  "(string \<Rightarrow> string \<Rightarrow> url result) \<Rightarrow> (string \<Rightarrow> url result) \<Rightarrow> string \<Rightarrow> string \<Rightarrow> string \<Rightarrow> string result" where
  "validatedSameOriginScriptURL parse parse_abs selfHref raw baseHref =
     (let base = (if baseHref \<noteq> [] then baseHref else selfHref) in
      bindR (parse raw base) (\<lambda>u.
      bindR (parse_abs base) (\<lambda>b.
      if u_origin u \<noteq> u_origin b then Inl (Error ''script URL must be same-origin'')
      else if \<not> startsWith (u_pathname u) ''/static/'' then Inl (Error ''script URL path not allowed'')
      else Inr (u_href u))))"

section \<open>envelope.js\<close>

definition Version_V1 :: string where
  "Version_V1 = ''v1''"

definition Mode :: "string list" where
  "Mode = [''native-encrypted'', ''already-encrypted'']"

definition BodyCipher :: "string list" where
  "BodyCipher = [''xchacha20-poly1305'', ''aes-256-gcm'', ''openpgp-message'']"

definition WrapAlgorithm :: "string list" where
  "WrapAlgorithm = [''ml-kem-768'', ''ml-kem-1024'', ''openpgp'', ''none'']"

definition SignatureAlgorithm :: "string list" where
  "SignatureAlgorithm = [''none'', ''ml-dsa-65'', ''openpgp'']"

definition Provenance :: "string list" where
  "Provenance = [''native_encrypted'', ''already_encrypted'', ''compatibility_bridge'']"

definition values_include :: "string list \<Rightarrow> jsval \<Rightarrow> bool" where
  "values_include vs v = list_ex (\<lambda>s. strict_eq (JStr s) v) vs"

definition validateManifest :: "jsval \<Rightarrow> bool result" where
  "validateManifest manifest =
     (if \<not> truthy manifest \<or> \<not> strict_eq (getp manifest ''version'') (JStr Version_V1)
      then Inl (Error ''unsupported envelope version'')
      else if \<not> values_include Mode (getp manifest ''mode'') then Inl (Error ''unsupported envelope mode'')
      else if \<not> values_include Provenance (getp manifest ''provenance'') then Inl (Error ''unsupported envelope provenance'')
      else if \<not> values_include BodyCipher (getp manifest ''body_cipher'') then Inl (Error ''unsupported body cipher'')
      else if \<not> truthy (getp manifest ''body_blob_ref'') then Inl (Error ''body_blob_ref required'')
      else if strict_eq (getp manifest ''mode'') (JStr ''native-encrypted'')
              \<and> (\<not> isArray (getp manifest ''recipient_wraps'') \<or> js_elems (getp manifest ''recipient_wraps'') = [])
      then Inl (Error ''native-encrypted envelope requires recipient_wraps'')
      else Inr True)"

section \<open>lib/mail-address.js\<close>

text \<open>
  \<open>raw.match(/<\s*([^<>\s@]+@[^<>\s@]+)\s*>/)\<close>: the address in the first angle brackets that hold
  one. The classes exclude each other, so at each \<open><\<close> there is one way to match.
\<close>

definition addr_char :: "char \<Rightarrow> bool" where
  "addr_char c = (c \<notin> set ''<>@'' \<and> \<not> is_space c)"

definition bracket_at :: "string \<Rightarrow> string option" where
  "bracket_at s =
     (let s1 = dropWhile is_space s;
          l = takeWhile addr_char s1; s2 = dropWhile addr_char s1;
          d = takeWhile addr_char (tl s2); s3 = dropWhile is_space (dropWhile addr_char (tl s2))
      in if l \<noteq> [] \<and> startsWith s2 ''@'' \<and> d \<noteq> [] \<and> startsWith s3 ''>'' then Some (l @ ''@'' @ d) else None)"

fun bracketMatch :: "string \<Rightarrow> string option" where
  "bracketMatch [] = None"
| "bracketMatch (c # s) =
     (case (if c = CHR ''<'' then bracket_at s else None) of
        Some a \<Rightarrow> Some a
      | None \<Rightarrow> bracketMatch s)"

text \<open>
  \<open>raw.match(/([A-Z0-9.!#$%&'*+/=?^_`{|}~-]+@[A-Z0-9.-]+\.[A-Z]{2,})/i)\<close>. After the \<open>@\<close> the engine
  takes as many domain characters as it can and gives them back until a dot is followed by at least
  two letters: the last such dot, not counting one right after the \<open>@\<close>.
\<close>

definition is_letter :: "char \<Rightarrow> bool" where
  "is_letter c = (65 \<le> code_unit c \<and> code_unit c \<le> 90 \<or> 97 \<le> code_unit c \<and> code_unit c \<le> 122)"

definition local_char :: "char \<Rightarrow> bool" where
  "local_char c = (is_letter c \<or> is_digit c \<or> c \<in> set ''.!#$%&*+/=?^_{|}~-'' \<or> code_unit c = 39 \<or> code_unit c = 96)"

definition domain_char :: "char \<Rightarrow> bool" where
  "domain_char c = (is_letter c \<or> is_digit c \<or> c = CHR ''.'' \<or> c = CHR ''-'')"

fun domain_match :: "nat \<Rightarrow> string \<Rightarrow> string option" where
  "domain_match 0 d = None"
| "domain_match (Suc i) d =
     (let letters = takeWhile is_letter (drop (Suc (Suc i)) d) in
      if Suc i < length d \<and> d ! Suc i = CHR ''.'' \<and> 2 \<le> length letters
      then Some (take (Suc (Suc i)) d @ letters)
      else domain_match i d)"

definition email_at :: "string \<Rightarrow> string option" where
  "email_at s =
     (let l = takeWhile local_char s; r = dropWhile local_char s in
      if l \<noteq> [] \<and> startsWith r ''@'' then
        (let d = takeWhile domain_char (tl r) in
         map_option (\<lambda>m. l @ ''@'' @ m) (domain_match (length d) d))
      else None)"

fun emailMatch :: "string \<Rightarrow> string option" where
  "emailMatch [] = None"
| "emailMatch (c # s) = (case email_at (c # s) of Some a \<Rightarrow> Some a | None \<Rightarrow> emailMatch s)"

definition canonicalizeSenderId :: "jsval \<Rightarrow> string" where
  "canonicalizeSenderId fromValue =
     (let raw = trim (str_or_empty fromValue) in
      if raw = [] then []
      else
        (case bracketMatch raw of
           Some a \<Rightarrow> toLowerCase (trim a)
         | None \<Rightarrow>
             (case emailMatch raw of
                Some a \<Rightarrow> toLowerCase (trim a)
              | None \<Rightarrow> toLowerCase (replace_runs is_space '' '' raw))))"

definition extractArmoredPublicKey :: "jsval \<Rightarrow> string" where
  "extractArmoredPublicKey rec =
     (if \<not> truthy rec \<or> \<not> typeof_object rec then []
      else
        (let pick = (\<lambda>k rest. case getp rec k of JStr s \<Rightarrow> if trim s \<noteq> [] then trim s else rest | _ \<Rightarrow> rest) in
         pick ''armored_public'' (pick ''armoredPub'' (pick ''armored'' []))))"

definition is_upper_hex :: "char \<Rightarrow> bool" where
  "is_upper_hex c = (is_digit c \<or> 65 \<le> code_unit c \<and> code_unit c \<le> 70)"

definition normalizeFingerprintHex :: "jsval \<Rightarrow> string" where
  "normalizeFingerprintHex s = filter is_upper_hex (toUpperCase (str_or_empty s))"

definition fingerprintsMatch :: "jsval \<Rightarrow> jsval \<Rightarrow> bool" where
  "fingerprintsMatch a b =
     (let x = normalizeFingerprintHex a; y = normalizeFingerprintHex b in
      if x = [] \<or> y = [] then False
      else if x = y then True
      else 16 \<le> length x \<and> 16 \<le> length y
           \<and> (endsWith x (slice_from (-16) y) \<or> endsWith y (slice_from (-16) x)))"

section \<open>lib/mail-encryption-labels.js\<close>

record enc_label =
  el_id :: string
  el_label :: string
  el_title :: string
  el_flagClass :: string

definition messageEncryptionDisplay :: "jsval \<Rightarrow> enc_label" where
  "messageEncryptionDisplay provenance =
     (let p = trim (str_or_empty provenance) in
      if p = ''client_encrypted'' then
        \<lparr>el_id = ''e2ee'', el_label = ''E2EE encrypted'',
         el_title = ''Encrypted end-to-end by the Elvish client before upload. Strongest when both sides use Elvish; the server only stores ciphertext.'',
         el_flagClass = ''mail-enc-e2ee''\<rparr>
      else if p = ''already_encrypted'' \<or> p = ''sender_pgp_mime'' then
        \<lparr>el_id = ''pgp'', el_label = ''PGP encrypted'',
         el_title =
           (if p = ''already_encrypted'' then ''Arrived over SMTP already wrapped in OpenPGP for your key.''
            else ''Body is stored as OpenPGP-encrypted mail (e.g. external PGP or a PGP-wrapped SMTP submission).''),
         el_flagClass = ''mail-enc-pgp''\<rparr>
      else if p = ''smtp_gateway_encrypted'' then
        \<lparr>el_id = ''stored'', el_label = ''Stored encrypted'',
         el_title = ''Plaintext reached the gateway and was wrapped to your identity key before storage (legacy inbound SMTP path).'',
         el_flagClass = ''mail-enc-stored''\<rparr>
      else
        \<lparr>el_id = ''unknown'', el_label = ''Encrypted'',
         el_title = (if p \<noteq> [] then ''Encrypted payload (server provenance: '' @ p @ '').''
                     else ''Encrypted payload; provenance not reported.''),
         el_flagClass = ''mail-enc-unknown''\<rparr>)"

section \<open>lib/mail-format-helpers.js\<close>

text \<open>
  \<open>formatAttachmentSize\<close> divides by 1024, exactly in binary floating point; the current value is the
  fraction \<open>n / d\<close>. \<open>toFixed\<close> rounds half up.
\<close>

definition size_units :: "string list" where
  "size_units = [''B'', ''KB'', ''MB'', ''GB'']"

function size_scale :: "nat \<Rightarrow> nat \<Rightarrow> nat \<Rightarrow> nat \<times> nat" where
  "size_scale n d idx =
     (if 1024 * d \<le> n \<and> idx < 3 then size_scale n (d * 1024) (idx + 1) else (d, idx))"
  by pat_completeness auto
termination
  by (relation "measure (\<lambda>(_, _, idx). 3 - idx)") auto

declare size_scale.simps [simp del]

definition toFixed0 :: "nat \<Rightarrow> nat \<Rightarrow> string" where
  "toFixed0 n d = to_radix 10 ((2 * n + d) div (2 * d))"

definition toFixed1 :: "nat \<Rightarrow> nat \<Rightarrow> string" where
  "toFixed1 n d = (let t = (20 * n + d) div (2 * d) in to_radix 10 (t div 10) @ ''.'' @ to_radix 10 (t mod 10))"

definition size_argument :: "jsval \<Rightarrow> jsnum" where
  "size_argument v =
     to_number (if truthy v \<and> truthy (getp v ''length'') then getp v ''length'' else js_or v (jint 0))"

definition formatAttachmentSize :: "jsval \<Rightarrow> string" where
  "formatAttachmentSize v =
     (case size_argument v of
        Fin m \<Rightarrow>
          if m \<le> 0 then ''0 B''
          else
            (let n = nat m; (d, idx) = size_scale n 1 0 in
             (if 10 * d \<le> n \<or> idx = 0 then toFixed0 n d else toFixed1 n d) @ '' '' @ size_units ! idx)
      | _ \<Rightarrow> ''0 B'')"

section \<open>Tags\<close>

text \<open>A text has a tag when the expression \<open>/<[^>]+>/\<close> matches somewhere in it.\<close>

definition has_tag :: "string \<Rightarrow> bool" where
  "has_tag t = (\<exists>a u b. t = a @ CHR ''<'' # u @ CHR ''>'' # b \<and> u \<noteq> [] \<and> CHR ''>'' \<notin> set u)"

lemma has_tag_Cons:
  "has_tag (c # t) \<longleftrightarrow>
   has_tag t \<or> c = CHR ''<'' \<and> t \<noteq> [] \<and> hd t \<noteq> CHR ''>'' \<and> CHR ''>'' \<in> set t"
proof
  assume "has_tag (c # t)"
  then obtain a u b where e: "c # t = a @ CHR ''<'' # u @ CHR ''>'' # b" "u \<noteq> []" "CHR ''>'' \<notin> set u"
    by (auto simp: has_tag_def)
  show "has_tag t \<or> c = CHR ''<'' \<and> t \<noteq> [] \<and> hd t \<noteq> CHR ''>'' \<and> CHR ''>'' \<in> set t"
  proof (cases a)
    case Nil
    with e show ?thesis by (cases u) auto
  next
    case (Cons x a')
    with e show ?thesis by (auto simp: has_tag_def)
  qed
next
  assume r: "has_tag t \<or> c = CHR ''<'' \<and> t \<noteq> [] \<and> hd t \<noteq> CHR ''>'' \<and> CHR ''>'' \<in> set t"
  then show "has_tag (c # t)"
  proof
    assume "has_tag t"
    then obtain a u b where "t = a @ CHR ''<'' # u @ CHR ''>'' # b" "u \<noteq> []" "CHR ''>'' \<notin> set u"
      by (auto simp: has_tag_def)
    then show ?thesis unfolding has_tag_def by (intro exI [of _ "c # a"] exI [of _ u] exI [of _ b]) simp
  next
    assume t: "c = CHR ''<'' \<and> t \<noteq> [] \<and> hd t \<noteq> CHR ''>'' \<and> CHR ''>'' \<in> set t"
    then have "CHR ''>'' \<in> set t" by simp
    from split_list_first [OF this] obtain u b where "t = u @ CHR ''>'' # b" "CHR ''>'' \<notin> set u" by blast
    with t have "c # t = [] @ CHR ''<'' # u @ CHR ''>'' # b" "u \<noteq> []" by (cases u; auto)+
    with \<open>CHR ''>'' \<notin> set u\<close> show ?thesis unfolding has_tag_def by blast
  qed
qed

lemma has_tag_Nil [simp]: "\<not> has_tag []"
  by (simp add: has_tag_def)

lemma replace_tags_no_gt: "CHR ''>'' \<notin> set s \<Longrightarrow> replace_tags r s = s"
proof (induction s)
  case (Cons c s)
  then have "dropWhile (\<lambda>x. x \<noteq> CHR ''>'') s = []" by (auto simp: dropWhile_eq_Nil_conv)
  with Cons show ?case by (simp add: replace_tags.simps Let_def)
qed (simp add: replace_tags.simps)

lemma replace_tags_hd: "s \<noteq> [] \<Longrightarrow> hd s = CHR ''>'' \<Longrightarrow> hd (replace_tags r s) = CHR ''>''"
  by (cases s) (simp_all add: replace_tags.simps Let_def)

lemma replace_tags_has_tag: "\<not> has_tag (replace_tags '' '' s)"
proof (induction "'' ''" s rule: replace_tags.induct)
  case 1
  show ?case by (simp add: replace_tags.simps)
next
  case (2 c s)
  let ?u = "takeWhile (\<lambda>x. x \<noteq> CHR ''>'') s" and ?v = "dropWhile (\<lambda>x. x \<noteq> CHR ''>'') s"
  show ?case
  proof (cases "c = CHR ''<'' \<and> ?u \<noteq> [] \<and> ?v \<noteq> []")
    case True
    with 2(1) [OF refl refl True] show ?thesis by (simp add: replace_tags.simps Let_def has_tag_Cons)
  next
    case False
    have IH: "\<not> has_tag (replace_tags '' '' s)" using 2(2) [OF refl refl False] .
    have step: "replace_tags '' '' (c # s) = c # replace_tags '' '' s"
      using False by (simp add: replace_tags.simps Let_def)
    have "hd (replace_tags '' '' s) = CHR ''>''"
      if "c = CHR ''<''" "CHR ''>'' \<in> set (replace_tags '' '' s)"
    proof -
      have "CHR ''>'' \<in> set s" using that(2) replace_tags_no_gt [of s "'' ''"] by metis
      then have "?v \<noteq> []" by (simp add: dropWhile_eq_Nil_conv)
      with False that(1) have "?u = []" by blast
      then have "s \<noteq> [] \<and> hd s = CHR ''>''" using \<open>?v \<noteq> []\<close> by (cases s) (auto split: if_splits)
      then show ?thesis by (simp add: replace_tags_hd)
    qed
    with IH step show ?thesis by (auto simp: has_tag_Cons)
  qed
qed

section \<open>Fingerprints\<close>

lemma suffix_slice16: "16 \<le> length y \<Longrightarrow> suffix (slice_from (-16) y) y \<and> length (slice_from (-16) y) = 16"
  by (simp add: slice_from_def slice_pos_def suffix_drop)

lemma suffix_same_length: "suffix a x \<Longrightarrow> suffix b x \<Longrightarrow> length a = length b \<Longrightarrow> a = b"
  by (auto simp: suffix_def)

lemma endsWith_slice16:
  assumes "16 \<le> length x" and "16 \<le> length y"
  shows "endsWith x (slice_from (-16) y) \<longleftrightarrow> slice_from (-16) x = slice_from (-16) y"
  using suffix_slice16 [OF assms(1)] suffix_slice16 [OF assms(2)] suffix_same_length
  unfolding endsWith_def by metis

section \<open>Letter case\<close>

lemma lower_char_cases:
  "is_letter (lower_char c) = is_letter c" "is_digit (lower_char c) = is_digit c"
  "code_unit c < 65 \<Longrightarrow> lower_char c = c"
  by (auto simp: is_letter_def is_digit_def lower_char_def code_unit_def Let_def)

lemma lower_char_eq: "code_unit d < 65 \<or> 91 \<le> code_unit d \<and> code_unit d < 97 \<or> 123 \<le> code_unit d \<and> code_unit d < 128 \<Longrightarrow> lower_char c = d \<longleftrightarrow> c = d"
  by (auto simp: lower_char_def code_unit_def Let_def)

lemma lower_char_special:
  "lower_char c = CHR ''<'' \<longleftrightarrow> c = CHR ''<''" "lower_char c = CHR ''>'' \<longleftrightarrow> c = CHR ''>''"
  "lower_char c = CHR ''@'' \<longleftrightarrow> c = CHR ''@''" "lower_char c = CHR ''.'' \<longleftrightarrow> c = CHR ''.''"
  "lower_char c = CHR ''-'' \<longleftrightarrow> c = CHR ''-''"
  by (simp_all add: lower_char_eq code_unit_def)

lemma space_lower: "is_space \<circ> lower_char = is_space"
  by (simp add: fun_eq_iff)

lemma addr_char_lower: "addr_char \<circ> lower_char = addr_char"
  by (simp add: fun_eq_iff addr_char_def lower_char_special)

lemma domain_char_lower: "domain_char \<circ> lower_char = domain_char"
  by (simp add: fun_eq_iff domain_char_def lower_char_cases lower_char_special)

lemma local_char_lower: "local_char \<circ> lower_char = local_char"
proof -
  have "lower_char c \<in> set ''.!#$%&*+/=?^_{|}~-'' \<longleftrightarrow> c \<in> set ''.!#$%&*+/=?^_{|}~-''" for c
    by (simp add: lower_char_eq code_unit_def)
  moreover have "code_unit (lower_char c) = n \<longleftrightarrow> code_unit c = n" if "n = 39 \<or> n = 96" for c n
    using that by (auto simp: lower_char_def code_unit_def Let_def)
  ultimately show ?thesis by (simp add: fun_eq_iff local_char_def lower_char_cases del: set_simps list.set)
qed

lemma letter_lower: "is_letter \<circ> lower_char = is_letter"
  by (simp add: fun_eq_iff lower_char_cases)

lemma takeWhile_lower:
  "P \<circ> lower_char = P \<Longrightarrow> takeWhile P (toLowerCase s) = toLowerCase (takeWhile P s)"
  "P \<circ> lower_char = P \<Longrightarrow> dropWhile P (toLowerCase s) = toLowerCase (dropWhile P s)"
  by (simp_all add: toLowerCase_def takeWhile_map dropWhile_map)

lemmas lower_runs =
  takeWhile_lower(1) [OF space_lower] takeWhile_lower(2) [OF space_lower]
  takeWhile_lower(1) [OF addr_char_lower] takeWhile_lower(2) [OF addr_char_lower]
  takeWhile_lower(1) [OF domain_char_lower] takeWhile_lower(2) [OF domain_char_lower]
  takeWhile_lower(1) [OF local_char_lower] takeWhile_lower(2) [OF local_char_lower]
  takeWhile_lower(1) [OF letter_lower] takeWhile_lower(2) [OF letter_lower]

lemma toLowerCase_simps:
  "tl (toLowerCase s) = toLowerCase (tl s)" "drop n (toLowerCase s) = toLowerCase (drop n s)"
  "take n (toLowerCase s) = toLowerCase (take n s)"
  by (simp_all add: toLowerCase_def map_tl drop_map take_map)

lemma startsWith_char: "startsWith s [c] \<longleftrightarrow> s \<noteq> [] \<and> hd s = c"
  by (cases s) (auto simp: startsWith_def)

lemma startsWith_lower:
  "startsWith (toLowerCase s) ''@'' = startsWith s ''@''" "startsWith (toLowerCase s) ''>'' = startsWith s ''>''"
  by (cases s; simp only: startsWith_char toLowerCase_def list.map list.sel lower_char_special list.distinct)+

lemma toLowerCase_at: "toLowerCase (CHR ''@'' # d) = CHR ''@'' # toLowerCase d"
  by (simp add: toLowerCase_def lower_char_def code_unit_def)

lemma toLowerCase_Cons: "toLowerCase (c # s) = lower_char c # toLowerCase s"
  by (simp add: toLowerCase_def)

lemma bracket_at_lower: "bracket_at (toLowerCase s) = map_option toLowerCase (bracket_at s)"
  by (simp add: bracket_at_def Let_def lower_runs toLowerCase_simps startsWith_lower toLowerCase_at)

lemma bracketMatch_lower: "bracketMatch (toLowerCase s) = map_option toLowerCase (bracketMatch s)"
proof (induction s)
  case (Cons c s)
  have "bracketMatch (toLowerCase (c # s)) =
      (case (if c = CHR ''<'' then bracket_at (toLowerCase s) else None) of
        Some a \<Rightarrow> Some a | None \<Rightarrow> bracketMatch (toLowerCase s))"
    by (simp add: toLowerCase_Cons lower_char_special)
  then show ?case by (simp add: bracket_at_lower Cons.IH split: option.split)
qed (simp add: toLowerCase_def)

lemma domain_match_lower: "domain_match i (toLowerCase d) = map_option toLowerCase (domain_match i d)"
proof (induction i)
  case (Suc i)
  have "Suc i < length d \<Longrightarrow> toLowerCase d ! Suc i = CHR ''.'' \<longleftrightarrow> d ! Suc i = CHR ''.''"
    by (simp add: toLowerCase_def lower_char_special)
  with Suc show ?case
    by (auto simp: Let_def lower_runs toLowerCase_simps)
qed simp

lemma email_at_lower: "email_at (toLowerCase s) = map_option toLowerCase (email_at s)"
  by (simp add: email_at_def Let_def lower_runs toLowerCase_simps startsWith_lower
      domain_match_lower option.map_comp comp_def toLowerCase_at)

lemma emailMatch_lower: "emailMatch (toLowerCase s) = map_option toLowerCase (emailMatch s)"
proof (induction s)
  case (Cons c s)
  have "emailMatch (toLowerCase (c # s)) =
      (case email_at (toLowerCase (c # s)) of Some a \<Rightarrow> Some a | None \<Rightarrow> emailMatch (toLowerCase s))"
    by (simp add: toLowerCase_Cons)
  then show ?case by (simp add: email_at_lower Cons.IH split: option.split del: toLowerCase_append)
qed (simp add: toLowerCase_def)

lemma replace_runs_lower:
  "toLowerCase (replace_runs is_space '' '' (toLowerCase s)) = toLowerCase (replace_runs is_space '' '' s)"
proof (induction "is_space" "'' ''" s rule: replace_runs.induct)
  case (2 c s)
  then show ?case by (simp add: replace_runs.simps lower_runs toLowerCase_Cons)
qed (simp add: replace_runs.simps toLowerCase_def)

section \<open>Properties\<close>

text \<open>
  The regular expression that removes tags leaves none behind: whatever the input (nested or
  unclosed brackets included), no text matching \<open><[^>]+>\<close> is left, so in an environment without
  \<open>DOMParser\<close> the search text of an HTML body has no tag.
\<close>

theorem tags_are_stripped:
  "\<not> has_tag (replace_tags '' '' s) \<and> \<not> has_tag (stripHtmlBlocks None s)"
  by (simp add: stripHtmlBlocks_def replace_tags_has_tag)

text \<open>
  Two fingerprints match exactly when their hexadecimal digits are not empty and are the same, or
  have at least sixteen digits each and the same last sixteen; matching is symmetric.
\<close>

theorem fingerprintsMatch_iff:
  "(fingerprintsMatch a b \<longleftrightarrow>
     (let x = normalizeFingerprintHex a; y = normalizeFingerprintHex b in
      x \<noteq> [] \<and> y \<noteq> [] \<and>
      (x = y \<or> 16 \<le> length x \<and> 16 \<le> length y \<and> slice_from (-16) x = slice_from (-16) y)))
   \<and> fingerprintsMatch a b = fingerprintsMatch b a"
  unfolding fingerprintsMatch_def Let_def by (auto simp: endsWith_slice16)

text \<open>
  The canonical sender id does not depend on letter case: upper and lower case spellings of a
  \<open>From\<close> value, with or without a display name, have the same id.
\<close>

theorem canonicalizeSenderId_case_insensitive:
  "canonicalizeSenderId (JStr (toLowerCase s)) = canonicalizeSenderId (JStr s)"
  by (simp add: canonicalizeSenderId_def Let_def trim_toLowerCase bracketMatch_lower emailMatch_lower
      replace_runs_lower split: option.split)

end
