(* ===== verification/Mail_Api.thy ===== *)
theory Mail_Api
  imports Keygen Mail_Text
begin

text \<open>
  \<^verbatim>\<open>static/mail/mail-manifest.js\<close>: the client of the mail API. Each function builds a request, sends
  it and turns the answer into a value or an exception; the server is a parameter \<open>srv\<close>, the origin
  of the page a parameter where the code builds an absolute URL. Arguments that the code only passes
  on into a JSON body are values; ids, names and addresses are strings.
\<close>

section \<open>Answers\<close>

text \<open>The three ways the code reads an answer.\<close>

definition status_label :: "string \<Rightarrow> http_response \<Rightarrow> string" where
  "status_label label resp = label @ '' '' @ status_string resp"

definition json_or_status :: "string \<Rightarrow> http_response \<Rightarrow> jsval result" where
  "json_or_status label resp =
     (if \<not> resp_ok resp then Inl (Error (status_label label resp)) else resp_json resp)"

definition json_or_error :: "string \<Rightarrow> http_response \<Rightarrow> jsval result" where
  "json_or_error label resp =
     (if \<not> resp_ok resp then Inl (server_error (resp_json_or_empty resp) (status_label label resp))
      else resp_json resp)"

definition body_or_error :: "string \<Rightarrow> http_response \<Rightarrow> jsval result" where
  "body_or_error label resp =
     (let body = resp_json_or_empty resp in
      if \<not> resp_ok resp then Inl (server_error body (status_label label resp)) else Inr body)"

definition call :: "'s server \<Rightarrow> http_request \<Rightarrow> (http_response \<Rightarrow> 'a result) \<Rightarrow> ('s, 'a) io" where
  "call srv rq read = bindI (fetch srv rq) (\<lambda>resp. liftI (read resp))"

declare status_label_def [js_eval] json_or_status_def [js_eval] json_or_error_def [js_eval]
  body_or_error_def [js_eval] call_def [js_eval]

definition API :: string where
  "API = ''/api/v1/mail''"

definition message_path :: "string \<Rightarrow> string" where
  "message_path i = API @ ''/messages/'' @ encodeURIComponent i"

section \<open>Messages\<close>

definition manifests_error :: "http_response \<Rightarrow> exn" where
  "manifests_error resp =
     (case getR (resp_json_or_empty resp) ''error'' of
        Inl e \<Rightarrow> e
      | Inr v \<Rightarrow>
          (let detail = (case v of JStr d \<Rightarrow> d | _ \<Rightarrow> []) in
           Error (''mail messages '' @ status_string resp @ (if detail \<noteq> [] then '': '' @ detail else []))))"

definition fetchManifests ::
  "'s server \<Rightarrow> string \<Rightarrow> string option \<Rightarrow> int option \<Rightarrow> string option \<Rightarrow> ('s, jsval) io" where
  "fetchManifests srv origin folder limit before =
     (let params = [(''folder'', case folder of None \<Rightarrow> ''inbox'' | Some f \<Rightarrow> f),
                    (''limit'', int_to_string (case limit of None \<Rightarrow> 50 | Some n \<Rightarrow> n))]
                   @ (case before of None \<Rightarrow> [] | Some b \<Rightarrow> if b \<noteq> [] then [(''before'', b)] else [])
      in call srv (get_request (url_with_params origin (API @ ''/messages'') params))
           (\<lambda>resp. if \<not> resp_ok resp then Inl (manifests_error resp) else resp_json resp))"

definition fetchManifest :: "'s server \<Rightarrow> string \<Rightarrow> ('s, jsval) io" where
  "fetchManifest srv i = call srv (get_request (message_path i)) (json_or_status ''mail manifest'')"

definition fetchBlob :: "'s server \<Rightarrow> string \<Rightarrow> ('s, bytes) io" where
  "fetchBlob srv i =
     call srv (get_request (message_path i @ ''/blob''))
       (\<lambda>resp. if \<not> resp_ok resp then Inl (Error (status_label ''mail blob'' resp)) else Inr (rs_body resp))"

definition setMessageRead :: "'s server \<Rightarrow> string \<Rightarrow> bool \<Rightarrow> ('s, jsval) io" where
  "setMessageRead srv i read =
     call srv (json_request PATCH (message_path i) (JObj [(''read'', JBool read)])) (json_or_error ''mail patch'')"

definition moveMessage :: "'s server \<Rightarrow> string \<Rightarrow> string \<Rightarrow> ('s, jsval) io" where
  "moveMessage srv i folder =
     call srv (json_request PATCH (message_path i) (JObj [(''folder'', JStr folder)])) (json_or_error ''mail move'')"

definition refreshMessageHeader :: "'s server \<Rightarrow> string \<Rightarrow> jsval \<Rightarrow> ('s, jsval) io" where
  "refreshMessageHeader srv i headerCiphertextB64 =
     call srv (json_request PATCH (message_path i) (JObj [(''header_ciphertext_b64'', headerCiphertextB64)]))
       (json_or_error ''mail header refresh'')"

definition deleteMessage :: "'s server \<Rightarrow> string \<Rightarrow> string \<Rightarrow> bool \<Rightarrow> ('s, jsval) io" where
  "deleteMessage srv origin i permanent =
     call srv (plain_request DELETE
         (url_with_params origin (message_path i) (if permanent then [(''mode'', ''permanent'')] else [])))
       (json_or_error ''mail delete'')"

record encrypted_message =
  em_recipient :: jsval
  em_headerCiphertextB64 :: jsval
  em_bodyCiphertextB64 :: jsval
  em_senderHeaderCiphertextB64 :: jsval
  em_senderBodyCiphertextB64 :: jsval
  em_fromAddr :: jsval
  em_toAddrs :: jsval

definition postEncryptedMessage :: "'s server \<Rightarrow> encrypted_message \<Rightarrow> ('s, jsval) io" where
  "postEncryptedMessage srv m =
     call srv (json_request POST (API @ ''/messages'')
         (JObj [(''recipient'', em_recipient m),
                (''header_ciphertext_b64'', em_headerCiphertextB64 m),
                (''body_ciphertext_b64'', em_bodyCiphertextB64 m),
                (''sender_header_ciphertext_b64'', js_or (em_senderHeaderCiphertextB64 m) (JStr [])),
                (''sender_body_ciphertext_b64'', js_or (em_senderBodyCiphertextB64 m) (JStr [])),
                (''from_addr'', js_or (em_fromAddr m) JNull),
                (''to_addrs'', js_or (em_toAddrs m) (JArr []))]))
       (json_or_status ''mail post'')"

definition postOutbox :: "'s server \<Rightarrow> jsval \<Rightarrow> jsval \<Rightarrow> jsval \<Rightarrow> jsval \<Rightarrow> jsval \<Rightarrow> ('s, jsval) io" where
  "postOutbox srv payloadCiphertextB64 recipientSummary senderHeaderCiphertextB64 senderBodyCiphertextB64 fromAddr =
     call srv (json_request POST (API @ ''/outbox'')
         (JObj [(''payload_ciphertext_b64'', payloadCiphertextB64),
                (''recipient_summary'', js_or recipientSummary (JArr [])),
                (''sender_header_ciphertext_b64'', js_or senderHeaderCiphertextB64 (JStr [])),
                (''sender_body_ciphertext_b64'', js_or senderBodyCiphertextB64 (JStr [])),
                (''from_addr'', js_or fromAddr (JStr []))]))
       (json_or_status ''mail outbox'')"

definition getOutbox :: "'s server \<Rightarrow> string \<Rightarrow> ('s, jsval) io" where
  "getOutbox srv i = call srv (get_request (API @ ''/outbox/'' @ encodeURIComponent i)) (json_or_status ''outbox get'')"

definition getMailSettings :: "'s server \<Rightarrow> ('s, jsval) io" where
  "getMailSettings srv = call srv (get_request (API @ ''/settings'')) (json_or_status ''mail settings'')"

definition setMailSettings :: "'s server \<Rightarrow> jsval \<Rightarrow> ('s, jsval) io" where
  "setMailSettings srv body =
     call srv (json_request POST (API @ ''/settings'') body) (json_or_error ''mail settings save'')"

section \<open>Keys and identities\<close>

definition mirror_armored :: "jsval \<Rightarrow> jsval" where
  "mirror_armored hit =
     (if truthy hit \<and> typeof_object hit then
        (let hit1 = (if truthy (getp hit ''armored'') \<and> \<not> truthy (getp hit ''armored_public'')
                     then setp hit ''armored_public'' (getp hit ''armored'') else hit)
         in if truthy (getp hit1 ''armored_public'') \<and> \<not> truthy (getp hit1 ''armored'')
            then setp hit1 ''armored'' (getp hit1 ''armored_public'') else hit1)
      else hit)"

definition lookupKey :: "'s server \<Rightarrow> string \<Rightarrow> string \<Rightarrow> ('s, jsval) io" where
  "lookupKey srv origin email =
     call srv (get_request (url_with_params origin ''/api/v1/keys/lookup'' [(''email'', email)]))
       (\<lambda>resp.
          if rs_status resp = 404 then Inr JNull
          else if \<not> resp_ok resp then Inl (Error (status_label ''keys lookup'' resp))
          else bindR (resp_json resp) (\<lambda>hit. Inr (mirror_armored hit)))"

definition listIdentities :: "'s server \<Rightarrow> ('s, jsval) io" where
  "listIdentities srv = call srv (get_request ''/api/v1/identities'') (json_or_status ''identities list'')"

definition setDefaultIdentity :: "'s server \<Rightarrow> string \<Rightarrow> ('s, jsval) io" where
  "setDefaultIdentity srv fingerprint =
     call srv (plain_request POST (''/api/v1/identities/'' @ encodeURIComponent fingerprint @ ''/default''))
       (json_or_status ''identity default'')"

definition deleteIdentity :: "'s server \<Rightarrow> string \<Rightarrow> ('s, jsval) io" where
  "deleteIdentity srv fingerprint =
     call srv (plain_request DELETE (''/api/v1/identities/'' @ encodeURIComponent fingerprint))
       (json_or_status ''identity delete'')"

definition updateIdentityProfile :: "'s server \<Rightarrow> string \<Rightarrow> jsval \<Rightarrow> ('s, jsval) io" where
  "updateIdentityProfile srv fingerprint payload =
     call srv (json_request PATCH (''/api/v1/identities/'' @ encodeURIComponent fingerprint) (js_or payload (JObj [])))
       (json_or_error ''identity update'')"

definition lookupVisibleIdentityProfile :: "'s server \<Rightarrow> string \<Rightarrow> jsval \<Rightarrow> ('s, jsval) io" where
  "lookupVisibleIdentityProfile srv origin email =
     call srv (get_request (url_with_params origin ''/api/v1/identities/visible-profile''
                              [(''email'', trim (str_or_empty email))]))
       (json_or_error ''identity visible profile'')"

definition base64ToBytes :: "string \<Rightarrow> bytes result" where
  "base64ToBytes s = bindR (atob s) (\<lambda>bin. Inr (map byte_of_char bin))"

definition bytesToBase64 :: "bytes \<Rightarrow> string" where
  "bytesToBase64 b = btoa (map char_of_byte b)"

text \<open>\<open>decrypt\<close> is \<open>vault.decryptForIdentity\<close>, \<open>None\<close> standing for a missing vault.\<close>

definition decryptHeader ::
  "(jsval \<Rightarrow> bytes \<Rightarrow> string result) option \<Rightarrow> string \<Rightarrow> jsval \<Rightarrow> jsval" where
  "decryptHeader vault headerCiphertextB64 identityFingerprint =
     (case vault of
        None \<Rightarrow> JNull
      | Some decrypt \<Rightarrow>
          if headerCiphertextB64 = [] then JNull
          else
            (case bindR (base64ToBytes headerCiphertextB64) (\<lambda>cipher. decrypt identityFingerprint cipher) of
               Inl _ \<Rightarrow> JNull
             | Inr t \<Rightarrow> (case json_parse t of None \<Rightarrow> JNull | Some v \<Rightarrow> v)))"

definition postOutboxPlain :: "'s server \<Rightarrow> jsval \<Rightarrow> jsval \<Rightarrow> jsval \<Rightarrow> jsval \<Rightarrow> ('s, jsval) io" where
  "postOutboxPlain srv fromAddr toAddrs subject bodyText =
     call srv (json_request POST (API @ ''/outbox-plain'')
         (JObj [(''from_addr'', fromAddr), (''to_addrs'', js_or toAddrs (JArr [])),
                (''subject'', js_or subject (JStr [])), (''body_text'', js_or bodyText (JStr []))]))
       (json_or_error ''outbox-plain'')"

definition createProtectedLink :: "'s server \<Rightarrow> jsval \<Rightarrow> ('s, jsval) io" where
  "createProtectedLink srv body =
     call srv (json_request POST (API @ ''/protected-links'') body) (json_or_error ''protected-links'')"

definition getContactKey :: "'s server \<Rightarrow> string \<Rightarrow> ('s, jsval) io" where
  "getContactKey srv email =
     call srv (get_request (''/api/v1/keys/contacts/'' @ encodeURIComponent email))
       (\<lambda>resp. if rs_status resp = 404 then Inr JNull else json_or_status ''contacts get'' resp)"

definition contact_body :: "jsval \<Rightarrow> jsval \<Rightarrow> jsval \<Rightarrow> jsval \<Rightarrow> jsval" where
  "contact_body email armoredPublic source trusted =
     (let body = JObj [(''email'', email), (''armored_public'', armoredPublic), (''source'', js_or source (JStr ''manual''))];
          body1 = (if strict_eq trusted (JBool False) then setp body ''trusted'' (JBool False) else body)
      in if strict_eq trusted (JBool True) then setp body1 ''trusted'' (JBool True) else body1)"

definition putContactKey :: "'s server \<Rightarrow> jsval \<Rightarrow> jsval \<Rightarrow> jsval \<Rightarrow> jsval \<Rightarrow> ('s, jsval) io" where
  "putContactKey srv email armoredPublic source trusted =
     call srv (json_request POST ''/api/v1/keys/contacts'' (contact_body email armoredPublic source trusted))
       (json_or_error ''contacts put'')"

definition deleteContactKey :: "'s server \<Rightarrow> string \<Rightarrow> string \<Rightarrow> ('s, jsval) io" where
  "deleteContactKey srv email fingerprint =
     (let q = (if fingerprint \<noteq> [] then ''?fingerprint='' @ encodeURIComponent fingerprint else []) in
      call srv (plain_request DELETE (''/api/v1/keys/contacts/'' @ encodeURIComponent email @ q))
        (json_or_error ''contacts delete''))"

definition listContactKeys :: "'s server \<Rightarrow> jsval \<Rightarrow> ('s, jsval) io" where
  "listContactKeys srv opts =
     (let q = (if truthy opts \<and> truthy (getp opts ''trustedOnly'') then ''?trusted=1'' else []) in
      call srv (get_request (''/api/v1/keys/contacts'' @ q)) (json_or_status ''contacts list''))"

section \<open>The account\<close>

text \<open>\<open>auth && auth.user && auth.user.username\<close>; the server sends it as a string.\<close>

definition auth_username :: "jsval \<Rightarrow> string" where
  "auth_username auth =
     (if truthy auth \<and> truthy (getp auth ''user'') then str_or_empty (getp (getp auth ''user'') ''username'') else [])"

definition fetch_username :: "'s server \<Rightarrow> ('s, string) io" where
  "fetch_username srv =
     bindI (call srv (get_request ''/api/auth/me'') (json_or_status ''auth me'')) (\<lambda>auth.
     let username = auth_username auth in
     if username = [] then throwI (Error ''missing auth username'') else returnI username)"

text \<open>The random values of a password change.\<close>

record password_randoms =
  pr_newSalt :: bytes
  pr_nonce :: bytes
  pr_srpSalt :: bytes
  pr_a :: bytes

text \<open>\<open>hasKeygen\<close> and \<open>hasSRP\<close> say whether the other two scripts are loaded.\<close>

definition changePassword ::
  "crypto \<Rightarrow> (bytes \<Rightarrow> bytes) \<Rightarrow> bool \<Rightarrow> bool \<Rightarrow> password_randoms \<Rightarrow> 's server \<Rightarrow> string \<Rightarrow> string \<Rightarrow> ('s, jsval) io" where
  "changePassword cr sha hasKeygen hasSRP rnd srv currentPassword newPassword =
     bindI (call srv (get_request ''/api/v1/account-key/me'') (json_or_status ''account key'')) (\<lambda>me.
     bindI (fetch_username srv) (\<lambda>username.
     if \<not> hasKeygen then throwI (Error ''crypto not loaded'')
     else if \<not> hasSRP then throwI (Error ''SRP not loaded'')
     else
     bindI (liftI (rewrapAccountForNewPassword cr (pr_newSalt rnd) (pr_nonce rnd) me currentPassword newPassword)) (\<lambda>ak.
     let srp = createRegistration sha (pr_srpSalt rnd) username newPassword in
     exchange sha srv (pr_a rnd) ''/api/auth/password/begin'' ''/api/auth/password/finish'' username currentPassword
       (JObj [(''new_srp_salt_b64'', JStr (srp_salt_b64 srp)),
              (''new_srp_verifier_b64'', JStr (srp_verifier_b64 srp)),
              (''new_srp_group'', JStr (srp_group srp)),
              (''new_srp_hash'', JStr (srp_hash srp)),
              (''account_key'',
                 JObj [(''wrapped_secret_b64'', JStr (rw_wrapped_secret_b64 ak)),
                       (''kdf'', JStr (rw_kdf ak)),
                       (''kdf_salt_b64'', JStr (rw_kdf_salt_b64 ak)),
                       (''kdf_params_json'', JStr (rw_kdf_params_json ak))])])
       JUndef)))"

definition runAccountDeleteAction ::
  "(bytes \<Rightarrow> bytes) \<Rightarrow> bool \<Rightarrow> bytes \<Rightarrow> 's server \<Rightarrow> string \<Rightarrow> jsval \<Rightarrow> string \<Rightarrow> ('s, jsval) io" where
  "runAccountDeleteAction sha hasSRP a srv password confirmation finishPath =
     bindI (fetch_username srv) (\<lambda>username.
     if \<not> hasSRP then throwI (Error ''SRP not loaded'')
     else exchange sha srv a ''/api/auth/account-delete/begin'' finishPath username password
            (JObj [(''confirmation'', confirmation)]) JUndef)"

definition deleteAccount ::
  "(bytes \<Rightarrow> bytes) \<Rightarrow> bool \<Rightarrow> bytes \<Rightarrow> 's server \<Rightarrow> string \<Rightarrow> jsval \<Rightarrow> ('s, jsval) io" where
  "deleteAccount sha hasSRP a srv password confirmation =
     runAccountDeleteAction sha hasSRP a srv password confirmation ''/api/auth/account-delete/now''"

definition scheduleAccountDeletion ::
  "(bytes \<Rightarrow> bytes) \<Rightarrow> bool \<Rightarrow> bytes \<Rightarrow> 's server \<Rightarrow> string \<Rightarrow> jsval \<Rightarrow> ('s, jsval) io" where
  "scheduleAccountDeletion sha hasSRP a srv password confirmation =
     runAccountDeleteAction sha hasSRP a srv password confirmation ''/api/auth/account-delete/schedule''"

definition cancelAccountDeletion :: "'s server \<Rightarrow> ('s, jsval) io" where
  "cancelAccountDeletion srv =
     call srv (plain_request POST ''/api/auth/account-delete/cancel'') (body_or_error ''account delete cancel'')"

definition getDeletePolicy :: "'s server \<Rightarrow> ('s, jsval) io" where
  "getDeletePolicy srv = call srv (get_request ''/api/v1/account/delete-policy'') (body_or_error ''delete policy'')"

definition setDeletePolicy :: "'s server \<Rightarrow> jsval \<Rightarrow> ('s, jsval) io" where
  "setDeletePolicy srv payload =
     call srv (json_request PUT ''/api/v1/account/delete-policy'' payload) (body_or_error ''delete policy save'')"

definition getBillingStatus :: "'s server \<Rightarrow> ('s, jsval) io" where
  "getBillingStatus srv = call srv (get_request ''/api/v1/billing/status'') (json_or_status ''billing'')"

section \<open>New identities\<close>

definition createIdentity :: "'s server \<Rightarrow> jsval \<Rightarrow> ('s, jsval) io" where
  "createIdentity srv payload =
     call srv (json_request POST ''/api/v1/identities'' payload) (json_or_error ''identity create'')"

definition parseAccountAddress :: "jsval \<Rightarrow> (string \<times> string) result" where
  "parseAccountAddress accountEmail =
     (let email = toLowerCase (trim (str_or_empty accountEmail));
          at = indexOf email ''@'';
          localPart = (if at > 0 then slice 0 at email else []);
          domain = (if at > 0 then slice_from (at + 1) email else [])
      in if localPart = [] \<or> domain = [] then Inl (Error ''Invalid account email'') else Inr (localPart, domain))"

definition resolveIdentityDomain :: "jsval \<Rightarrow> jsval \<Rightarrow> string result" where
  "resolveIdentityDomain domain accountEmail =
     (let d = toLowerCase (trim (str_or_empty domain)) in
      if d \<noteq> [] then Inr d
      else
        (case parseAccountAddress accountEmail of
           Inr (_, ad) \<Rightarrow> if ad \<noteq> [] then Inr ad else Inl (Error ''Choose a mail domain'')
         | Inl _ \<Rightarrow> Inl (Error ''Choose a mail domain'')))"

definition local_part_char :: "char \<Rightarrow> bool" where
  "local_part_char c = (97 \<le> code_unit c \<and> code_unit c \<le> 122 \<or> is_digit c \<or> c \<in> set ''._-'')"

definition validateMailboxLocalPartForIdentity :: "jsval \<Rightarrow> string result" where
  "validateMailboxLocalPartForIdentity local =
     (let s = toLowerCase (trim (str_or_empty local)) in
      if length s < 3 \<or> length s > 64 then Inl (Error ''Local part must be 3-64 characters'')
      else if str_includes s ''..'' then Inl (Error ''Local part cannot contain consecutive dots'')
      else if startsWith s ''.'' \<or> endsWith s ''.'' then Inl (Error ''Local part cannot start or end with a dot'')
      else if \<not> (s \<noteq> [] \<and> list_all local_part_char s)
      then Inl (Error ''Use only letters, digits, dots, hyphens, and underscores in the local part'')
      else Inr s)"

definition tag_char :: "char \<Rightarrow> bool" where
  "tag_char c = (97 \<le> code_unit c \<and> code_unit c \<le> 122 \<or> is_digit c \<or> c = CHR ''_'' \<or> c = CHR ''-'')"

definition validatePlusTagFromName :: "jsval \<Rightarrow> string result" where
  "validatePlusTagFromName name =
     (let tag = slice 0 30 (filter tag_char (toLowerCase (trim (str_or_empty name)))) in
      if tag = [] then Inl (Error ''Plus tag required (letters, digits, hyphens, underscores)'') else Inr tag)"

text \<open>\<open>rnd\<close> are the 14 random bytes, \<open>isoText\<close> is the ISO text of a time, \<open>now\<close> is \<open>Date.now()\<close>.\<close>

definition buildGeneratedIdentityAddress ::
  "bytes \<Rightarrow> (int \<Rightarrow> string) \<Rightarrow> int \<Rightarrow> string \<Rightarrow> jsval \<Rightarrow> jsval \<Rightarrow> jsval \<Rightarrow> (string \<times> string) result" where
  "buildGeneratedIdentityAddress rnd isoText now type domain localPart name =
     (let dm = toLowerCase (trim (str_or_empty domain)) in
      if dm = [] then Inl (Error ''Choose a domain'')
      else if type = ''alias'' then
        bindR (validateMailboxLocalPartForIdentity localPart) (\<lambda>local. Inr (local @ ''@'' @ dm, []))
      else if type = ''plus'' then
        bindR (validateMailboxLocalPartForIdentity localPart) (\<lambda>base.
        bindR (validatePlusTagFromName name) (\<lambda>tag. Inr (base @ ''+'' @ tag @ ''@'' @ dm, [])))
      else Inr (''d_'' @ randomAlphanumeric rnd @ ''@'' @ dm, isoText (now + 30 * 86400000)))"

definition object_spread :: "jsval \<Rightarrow> (string \<times> jsval) list \<Rightarrow> jsval" where
  "object_spread v newProps = JObj (fold (\<lambda>(k, x) o'. AList.update k x o') newProps (own_props v))"

text \<open>\<open>loaded\<close>: \<open>window.openpgp && window.ElvishKeygen\<close>.\<close>

definition createGeneratedIdentity ::
  "crypto \<Rightarrow> bool \<Rightarrow> bytes \<Rightarrow> (int \<Rightarrow> string) \<Rightarrow> int \<Rightarrow> 's server \<Rightarrow> jsval \<Rightarrow> string \<Rightarrow> jsval \<Rightarrow> jsval \<Rightarrow> jsval
   \<Rightarrow> ('s, jsval) io" where
  "createGeneratedIdentity cr loaded rnd isoText now srv accountEmail type name domainOpt localPart =
     (if \<not> loaded then throwI (Error ''OpenPGP / keygen not loaded - refresh the page'')
      else
      bindI (call srv (get_request ''/api/v1/account-key/me'')
        (\<lambda>resp. if \<not> resp_ok resp
           then Inl (Error (''Could not load account key ('' @ status_string resp @ '')''))
           else resp_json resp)) (\<lambda>me.
      bindI (liftI (getR me ''bootstrapped'')) (\<lambda>boot.
      if \<not> truthy boot then throwI (Error ''Generate or unlock account keys first (unlock mail)'')
      else
      bindI (liftI (resolveIdentityDomain domainOpt accountEmail)) (\<lambda>domain.
      bindI (liftI
        (if type = ''plus'' \<and> trim (str_or_empty localPart) = [] then
           (case parseAccountAddress accountEmail of
              Inr (lp, _) \<Rightarrow> Inr (JStr lp)
            | Inl _ \<Rightarrow> Inl (Error ''Local part (before +) is required for plus addresses''))
         else Inr localPart)) (\<lambda>lp.
      bindI (liftI (buildGeneratedIdentityAddress rnd isoText now type (JStr domain) lp name)) (\<lambda>(email, expiresAt).
      bindI (liftI (cr_generateKey cr email email)) (\<lambda>idKp.
      bindI (liftI (pgpWrapToAccount cr (kp_private idKp) (to_string (getp me ''armored_public'')))) (\<lambda>wrappedArmored.
      let wrappedB64 = kg_bytesToB64 (utf8_encode wrappedArmored);
          payload = [(''email'', JStr email),
                     (''armored_public'', JStr (kp_public idKp)),
                     (''algorithm'', JStr ''openpgp-ecc-curve25519''),
                     (''primary_uid'', JStr email),
                     (''wrapped_secret_b64'', JStr wrappedB64),
                     (''is_default'', JBool False)]
                    @ (if expiresAt \<noteq> [] then [(''expires_at'', JStr expiresAt)] else [])
      in
      bindI (createIdentity srv (JObj payload)) (\<lambda>result.
      returnI (object_spread result
        [(''email'', JStr email),
         (''expires_at'', if expiresAt \<noteq> [] then JStr expiresAt else JNull)]))))))))))"

section \<open>Folders, filters, domains, SMTP credentials\<close>

definition listMailboxFolders :: "'s server \<Rightarrow> ('s, jsval) io" where
  "listMailboxFolders srv = call srv (get_request ''/api/v1/mailbox/folders'') (json_or_status ''folders'')"

definition createMailboxFolder :: "'s server \<Rightarrow> jsval \<Rightarrow> ('s, jsval) io" where
  "createMailboxFolder srv name =
     call srv (json_request POST ''/api/v1/mailbox/folders'' (JObj [(''name'', name)])) (json_or_error ''folder create'')"

definition deleteMailboxFolder :: "'s server \<Rightarrow> string \<Rightarrow> ('s, jsval) io" where
  "deleteMailboxFolder srv name =
     call srv (plain_request DELETE (''/api/v1/mailbox/folders/'' @ encodeURIComponent name)) (json_or_error ''folder delete'')"

definition listFilters :: "'s server \<Rightarrow> ('s, jsval) io" where
  "listFilters srv = call srv (get_request ''/api/v1/filters'') (json_or_status ''filters'')"

definition createFilter :: "'s server \<Rightarrow> jsval \<Rightarrow> ('s, jsval) io" where
  "createFilter srv body = call srv (json_request POST ''/api/v1/filters'' body) (json_or_error ''filter create'')"

definition updateFilter :: "'s server \<Rightarrow> string \<Rightarrow> jsval \<Rightarrow> ('s, jsval) io" where
  "updateFilter srv i body =
     call srv (json_request PUT (''/api/v1/filters/'' @ encodeURIComponent i) body) (json_or_error ''filter update'')"

definition deleteFilter :: "'s server \<Rightarrow> string \<Rightarrow> ('s, jsval) io" where
  "deleteFilter srv i =
     call srv (plain_request DELETE (''/api/v1/filters/'' @ encodeURIComponent i)) (json_or_error ''filter delete'')"

definition listCustomDomains :: "'s server \<Rightarrow> ('s, jsval) io" where
  "listCustomDomains srv = call srv (get_request ''/api/v1/custom-domains'') (json_or_status ''domains'')"

definition listUsableDomains :: "'s server \<Rightarrow> ('s, jsval) io" where
  "listUsableDomains srv = call srv (get_request ''/api/v1/mail/usable-domains'') (json_or_status ''usable-domains'')"

definition addCustomDomain :: "'s server \<Rightarrow> jsval \<Rightarrow> ('s, jsval) io" where
  "addCustomDomain srv domain =
     call srv (json_request POST ''/api/v1/custom-domains'' (JObj [(''domain'', domain)])) (json_or_error ''domain add'')"

definition deleteCustomDomain :: "'s server \<Rightarrow> string \<Rightarrow> ('s, jsval) io" where
  "deleteCustomDomain srv domain =
     call srv (plain_request DELETE (''/api/v1/custom-domains/'' @ encodeURIComponent domain)) (json_or_error ''domain delete'')"

definition verifyCustomDomain :: "'s server \<Rightarrow> string \<Rightarrow> ('s, jsval) io" where
  "verifyCustomDomain srv domain =
     call srv (plain_request POST (''/api/v1/custom-domains/'' @ encodeURIComponent domain @ ''/verify''))
       (json_or_error ''domain verify'')"

definition setDomainCatchall :: "'s server \<Rightarrow> string \<Rightarrow> jsval \<Rightarrow> ('s, jsval) io" where
  "setDomainCatchall srv domain identityFingerprint =
     (let body = (if nullish identityFingerprint \<or> strict_eq identityFingerprint (JStr [])
                  then JObj [(''identity_fingerprint'', JNull)]
                  else JObj [(''identity_fingerprint'', identityFingerprint)]) in
      call srv (json_request PUT (''/api/v1/custom-domains/'' @ encodeURIComponent domain @ ''/catchall'') body)
        (json_or_error ''catchall''))"

definition listSMTPCredentials :: "'s server \<Rightarrow> ('s, jsval) io" where
  "listSMTPCredentials srv = call srv (get_request ''/api/v1/smtp-submission'') (json_or_status ''smtp list'')"

definition createSMTPCredential :: "'s server \<Rightarrow> jsval \<Rightarrow> ('s, jsval) io" where
  "createSMTPCredential srv body =
     call srv (json_request POST ''/api/v1/smtp-submission'' body) (json_or_error ''smtp create'')"

definition regenerateSMTPCredential :: "'s server \<Rightarrow> string \<Rightarrow> ('s, jsval) io" where
  "regenerateSMTPCredential srv i =
     call srv (plain_request POST (''/api/v1/smtp-submission/'' @ encodeURIComponent i @ ''/regenerate''))
       (json_or_error ''smtp regenerate'')"

definition deleteSMTPCredential :: "'s server \<Rightarrow> string \<Rightarrow> ('s, jsval) io" where
  "deleteSMTPCredential srv i =
     call srv (plain_request DELETE (''/api/v1/smtp-submission/'' @ encodeURIComponent i)) (json_or_error ''smtp delete'')"

section \<open>Two-factor authentication\<close>

definition getTwoFactorStatus :: "'s server \<Rightarrow> ('s, jsval) io" where
  "getTwoFactorStatus srv = call srv (get_request ''/api/auth/2fa'') (json_or_error ''2fa status'')"

definition beginTOTPSetup :: "'s server \<Rightarrow> jsval \<Rightarrow> ('s, jsval) io" where
  "beginTOTPSetup srv label =
     call srv (json_request POST ''/api/auth/2fa/totp/begin'' (JObj [(''label'', js_or label (JStr []))]))
       (body_or_error ''totp begin'')"

definition confirmTOTPSetup :: "'s server \<Rightarrow> jsval \<Rightarrow> jsval \<Rightarrow> ('s, jsval) io" where
  "confirmTOTPSetup srv setupId code =
     call srv (json_request POST ''/api/auth/2fa/totp/confirm'' (JObj [(''setup_id'', setupId), (''code'', code)]))
       (body_or_error ''totp confirm'')"

definition verifyTwoFactorTOTP :: "'s server \<Rightarrow> jsval \<Rightarrow> ('s, jsval) io" where
  "verifyTwoFactorTOTP srv code =
     call srv (json_request POST ''/api/auth/2fa/verify/totp'' (JObj [(''code'', code)])) (body_or_error ''totp verify'')"

definition verifyTwoFactorRecovery :: "'s server \<Rightarrow> jsval \<Rightarrow> ('s, jsval) io" where
  "verifyTwoFactorRecovery srv code =
     call srv (json_request POST ''/api/auth/2fa/verify/recovery'' (JObj [(''code'', code)]))
       (body_or_error ''recovery verify'')"

definition regenerateRecoveryCodes :: "'s server \<Rightarrow> ('s, jsval) io" where
  "regenerateRecoveryCodes srv =
     call srv (plain_request POST ''/api/auth/2fa/recovery/regenerate'') (body_or_error ''recovery regenerate'')"

definition beginWebAuthnRegistration :: "'s server \<Rightarrow> ('s, jsval) io" where
  "beginWebAuthnRegistration srv =
     call srv (plain_request POST ''/api/auth/2fa/webauthn/register/begin'') (body_or_error ''webauthn begin register'')"

definition finishWebAuthnRegistration :: "'s server \<Rightarrow> jsval \<Rightarrow> jsval \<Rightarrow> jsval \<Rightarrow> ('s, jsval) io" where
  "finishWebAuthnRegistration srv challengeId credential label =
     call srv (json_request POST ''/api/auth/2fa/webauthn/register/finish''
         (JObj [(''challenge_id'', challengeId), (''credential'', credential), (''label'', js_or label (JStr []))]))
       (body_or_error ''webauthn finish register'')"

definition beginWebAuthnVerification :: "'s server \<Rightarrow> ('s, jsval) io" where
  "beginWebAuthnVerification srv =
     call srv (plain_request POST ''/api/auth/2fa/verify/webauthn/begin'') (body_or_error ''webauthn begin verify'')"

definition finishWebAuthnVerification :: "'s server \<Rightarrow> jsval \<Rightarrow> jsval \<Rightarrow> ('s, jsval) io" where
  "finishWebAuthnVerification srv challengeId credential =
     call srv (json_request POST ''/api/auth/2fa/verify/webauthn/finish''
         (JObj [(''challenge_id'', challengeId), (''credential'', credential)]))
       (body_or_error ''webauthn finish verify'')"

definition deleteTOTPFactor :: "'s server \<Rightarrow> string \<Rightarrow> ('s, jsval) io" where
  "deleteTOTPFactor srv i =
     call srv (plain_request DELETE (''/api/auth/2fa/totp/'' @ encodeURIComponent i)) (body_or_error ''totp delete'')"

definition deleteWebAuthnCredential :: "'s server \<Rightarrow> string \<Rightarrow> ('s, jsval) io" where
  "deleteWebAuthnCredential srv i =
     call srv (plain_request DELETE (''/api/auth/2fa/webauthn/'' @ encodeURIComponent i)) (body_or_error ''webauthn delete'')"

section \<open>Lemmas\<close>

lemma call_Inl: "srv s rq = (Inl e, t) \<Longrightarrow> call srv rq read s = (Inl e, t)"
  by (simp add: call_def bindI_def fetch_def)

lemma call_Inr: "srv s rq = (Inr resp, t) \<Longrightarrow> call srv rq read s = (read resp, t)"
  by (simp add: call_def bindI_def fetch_def liftI_def)

lemma resp_json_text: "rs_body resp = utf8_encode t \<Longrightarrow>
    resp_json resp = (case json_parse t of None \<Rightarrow> Inl (DOMError ''SyntaxError'') | Some v \<Rightarrow> Inr v)"
  by (simp add: resp_json_def utf8.dec_enc)

text \<open>A JSON body arrives as the value that was sent.\<close>

lemma json_request_body: "json_ok v \<Longrightarrow> Option.bind (rq_body (json_request m u v)) json_parse = Some v"
  by (simp add: json_request_def json.dec_enc)

text \<open>A path segment made from an arbitrary string.\<close>

definition one_segment :: "string \<Rightarrow> string \<Rightarrow> bool" where
  "one_segment i seg = (decodeURIComponent seg = Some i \<and> set seg \<inter> set ''/?#'' = {})"

lemma one_segment_encode: "one_segment i (encodeURIComponent i)"
  using encodeURIComponent_segment [of _ i] by (auto simp: one_segment_def uri.dec_enc)

subsection \<open>Addresses\<close>

definition good_local :: "string \<Rightarrow> bool" where
  "good_local l = (l \<noteq> [] \<and> list_all (\<lambda>c. local_part_char c \<or> c = CHR ''+'') l
     \<and> \<not> sublist ''..'' l \<and> hd l \<noteq> CHR ''.'' \<and> last l \<noteq> CHR ''.'')"

lemma validate_local_Inr:
  assumes "validateMailboxLocalPartForIdentity v = Inr s"
  shows "3 \<le> length s" and "length s \<le> 64" and "list_all local_part_char s" and "\<not> sublist ''..'' s"
    and "hd s \<noteq> CHR ''.''" and "last s \<noteq> CHR ''.''"
proof -
  have r: "3 \<le> length s" "length s \<le> 64" "list_all local_part_char s" "\<not> sublist ''..'' s"
      "\<not> startsWith s ''.''" "\<not> endsWith s ''.''"
    using assms by (auto simp: validateMailboxLocalPartForIdentity_def Let_def str_includes_sublist split: if_splits)
  then show "3 \<le> length s" "length s \<le> 64" "list_all local_part_char s" "\<not> sublist ''..'' s" by auto
  show "hd s \<noteq> CHR ''.''" using r(1,5) by (cases s) (auto simp: startsWith_def)
  show "last s \<noteq> CHR ''.''" using r(1,6) by (cases s rule: rev_cases) (auto simp: endsWith_def suffix_def)
qed

lemma validate_tag_Inr:
  assumes "validatePlusTagFromName v = Inr tag"
  shows "tag \<noteq> []" and "length tag \<le> 30" and "list_all tag_char tag"
proof -
  have "tag = take 30 (filter tag_char (toLowerCase (trim (str_or_empty v))))" "tag \<noteq> []"
    using assms by (auto simp: validatePlusTagFromName_def Let_def slice_def slice_pos_def min_def split: if_splits)
  then show "tag \<noteq> []" "length tag \<le> 30" "list_all tag_char tag"
    by (auto simp: list_all_iff dest: in_set_takeD)
qed

lemma tag_char_local: "tag_char c \<Longrightarrow> local_part_char c \<and> c \<noteq> CHR ''.''"
  by (auto simp: tag_char_def local_part_char_def is_digit_def code_unit_def)

lemma no_dot_no_dots: "CHR ''.'' \<notin> set s \<Longrightarrow> \<not> sublist ''..'' s"
  by (auto simp: sublist_def)

lemma alnum_chars_nonempty: "0 < length alnum_chars"
  by (simp add: alnum_chars_def)

lemma randomAlphanumeric_chars: "c \<in> set (randomAlphanumeric bs) \<Longrightarrow> tag_char c"
proof -
  assume "c \<in> set (randomAlphanumeric bs)"
  then have "\<exists>n < length alnum_chars. c = alnum_chars ! n"
    by (auto simp: randomAlphanumeric_def) (metis alnum_chars_nonempty mod_less_divisor)
  then have "c \<in> set alnum_chars" by (metis nth_mem)
  moreover have "list_all tag_char alnum_chars" by code_simp
  ultimately show "tag_char c" by (simp add: list_all_iff)
qed

lemma good_local_tag: "l \<noteq> [] \<Longrightarrow> list_all tag_char l \<Longrightarrow> good_local l"
  using tag_char_local no_dot_no_dots [of l] hd_in_set [of l] last_in_set [of l]
  by (auto simp: good_local_def list_all_iff)

lemma sublist_dots_append:
  assumes "sublist ''..'' (s @ CHR ''+'' # t)"
  shows "sublist ''..'' s \<or> sublist ''..'' t"
proof -
  from assms obtain p q where e: "s @ CHR ''+'' # t = p @ ''..'' @ q" by (auto simp: sublist_def)
  then consider u where "s = p @ u" "u @ CHR ''+'' # t = ''..'' @ q" | u where "p = s @ u" "CHR ''+'' # t = u @ ''..'' @ q"
    by (auto simp: append_eq_append_conv2)
  then show ?thesis
  proof cases
    case (1 u)
    then have "prefix ''..'' u" by (cases u; cases "tl u") (auto simp: prefix_def)
    with 1(1) show ?thesis by (auto simp: sublist_def prefix_def)
  next
    case (2 u)
    then obtain u' where "t = u' @ ''..'' @ q" by (cases u) auto
    then show ?thesis by (auto simp: sublist_def)
  qed
qed

lemma good_local_plus:
  assumes "validateMailboxLocalPartForIdentity v = Inr b" and "validatePlusTagFromName w = Inr t"
  shows "good_local (b @ CHR ''+'' # t)"
proof -
  note b = validate_local_Inr [OF assms(1)] and t = validate_tag_Inr [OF assms(2)]
  have "\<not> sublist ''..'' t" using t(3) tag_char_local by (intro no_dot_no_dots) (auto simp: list_all_iff)
  then have "\<not> sublist ''..'' (b @ CHR ''+'' # t)" using b(4) sublist_dots_append by blast
  moreover have "last t \<noteq> CHR ''.''" using t tag_char_local last_in_set [of t] by (auto simp: list_all_iff)
  moreover have "b \<noteq> []" using b(1) by auto
  ultimately show ?thesis
    using b t tag_char_local by (auto simp: good_local_def list_all_iff)
qed

section \<open>Properties\<close>

text \<open>
  A generated address is well formed: whatever type, domain, local part, name and random bytes,
  it is a non-empty local part, an \<open>@\<close> and the normalised domain, and the local part has only
  lower-case letters, digits, dots, hyphens, underscores and plus signs, no two dots in a row and
  no dot at either end. An alias keeps the limit of 64 characters, a plus address may reach 95.
\<close>

theorem generated_address_wellformed:
  assumes "buildGeneratedIdentityAddress rnd isoText now type domain localPart name = Inr (email, expires)"
    and "rnd \<noteq> []"
  shows "\<exists>local. email = local @ ''@'' @ toLowerCase (trim (str_or_empty domain)) \<and> good_local local
    \<and> CHR ''@'' \<notin> set local
    \<and> (type = ''alias'' \<longrightarrow> length local \<le> 64) \<and> (type = ''plus'' \<longrightarrow> length local \<le> 95)"
proof -
  let ?d = "toLowerCase (trim (str_or_empty domain))"
  have good: "good_local l \<Longrightarrow> CHR ''@'' \<notin> set l" for l
    by (auto simp: good_local_def list_all_iff local_part_char_def is_digit_def code_unit_def)
  consider (named) l where "type = ''alias''" "validateMailboxLocalPartForIdentity localPart = Inr l" "email = l @ ''@'' @ ?d"
    | (plus) b t where "type = ''plus''" "validateMailboxLocalPartForIdentity localPart = Inr b"
        "validatePlusTagFromName name = Inr t" "email = (b @ CHR ''+'' # t) @ ''@'' @ ?d"
    | (disp) "type \<noteq> ''alias''" "type \<noteq> ''plus''" "email = (''d_'' @ randomAlphanumeric rnd) @ ''@'' @ ?d"
    using assms(1) by (auto simp: buildGeneratedIdentityAddress_def Let_def bindR_eq_Inr split: if_splits)
  then show ?thesis
  proof cases
    case named
    note v = validate_local_Inr [OF named(2)]
    then have "good_local l" by (auto simp: good_local_def list_all_iff)
    with named v good show ?thesis by auto
  next
    case plus
    note g = good_local_plus [OF plus(2,3)]
    from plus g good [OF g] validate_local_Inr(2) [OF plus(2)] validate_tag_Inr(2) [OF plus(3)]
    show ?thesis by (intro exI [of _ "b @ CHR ''+'' # t"]) auto
  next
    case disp
    have "list_all tag_char (''d_'' @ randomAlphanumeric rnd)"
      using randomAlphanumeric_chars by (auto simp: list_all_iff tag_char_def code_unit_def)
    then have g: "good_local (''d_'' @ randomAlphanumeric rnd)" by (intro good_local_tag) simp_all
    with disp good [OF g] show ?thesis by (intro exI [of _ "''d_'' @ randomAlphanumeric rnd"]) auto
  qed
qed

theorem generated_address_wellformed_witness:
  "\<exists>local. ''team+news@example.org'' = local @ ''@'' @ toLowerCase (trim (str_or_empty (JStr ''Example.org '')))
    \<and> good_local local \<and> length local \<le> 95"
proof -
  have "buildGeneratedIdentityAddress [1] (\<lambda>_. []) 0 ''plus'' (JStr ''Example.org '') (JStr ''Team'') (JStr ''n.e.w.s'')
      = Inr (''team+news@example.org'', [])" by code_simp
  from generated_address_wellformed [OF this] show ?thesis by auto
qed

text \<open>
  A message id cannot escape its place in the URL: for every id, the requests that the filter
  engine makes through this client (move, mark as read, delete) go to one path segment below
  \<open>/api/v1/mail/messages\<close>, which has no slash, question mark or hash and which the server decodes to
  the same id, and the JSON body the server parses is the one the client meant.
\<close>

theorem message_requests_exact:
  "\<exists>seg. one_segment i seg
    \<and> moveMessage srv i folder = call srv \<lparr>rq_method = PATCH, rq_url = ''/api/v1/mail/messages/'' @ seg,
         rq_body = Some (json_str (JObj [(''folder'', JStr folder)]))\<rparr> (json_or_error ''mail move'')
    \<and> json_parse (json_str (JObj [(''folder'', JStr folder)])) = Some (JObj [(''folder'', JStr folder)])
    \<and> setMessageRead srv i True = call srv \<lparr>rq_method = PATCH, rq_url = ''/api/v1/mail/messages/'' @ seg,
         rq_body = Some (json_str (JObj [(''read'', JBool True)]))\<rparr> (json_or_error ''mail patch'')
    \<and> deleteMessage srv origin i False = call srv \<lparr>rq_method = DELETE, rq_url = origin @ ''/api/v1/mail/messages/'' @ seg,
         rq_body = None\<rparr> (json_or_error ''mail delete'')"
proof -
  have "json_parse (json_str (JObj [(''folder'', JStr folder)])) = Some (JObj [(''folder'', JStr folder)])"
    by (rule json.dec_enc) simp
  then show ?thesis
    by (intro exI [of _ "encodeURIComponent i"])
       (simp add: one_segment_encode moveMessage_def setMessageRead_def deleteMessage_def message_path_def API_def
         json_request_def plain_request_def url_with_params_def del: json_str.simps)
qed

text \<open>
  Failures carry the server's words: when the answer to a move has an error status, the promise
  is rejected with the \<open>error\<close> text of the JSON body, or with the status when the body is no JSON,
  and never resolved.
\<close>

theorem moveMessage_reports_errors:
  assumes "srv s (json_request PATCH (message_path i) (JObj [(''folder'', JStr folder)])) = (Inr resp, s')"
    and "\<not> resp_ok resp"
  shows "(resp_json resp = Inr (JObj [(''error'', JStr msg)]) \<longrightarrow> msg \<noteq> [] \<longrightarrow>
           moveMessage srv i folder s = (Inl (Error msg), s'))
    \<and> ((\<exists>e. resp_json resp = Inl e) \<longrightarrow>
           moveMessage srv i folder s = (Inl (Error (''mail move '' @ status_string resp)), s'))
    \<and> (\<exists>e. fst (moveMessage srv i folder s) = Inl e)"
proof -
  have "moveMessage srv i folder s = (json_or_error ''mail move'' resp, s')"
    unfolding moveMessage_def using assms(1) by (rule call_Inr)
  with assms(2) show ?thesis
    by (auto simp: json_or_error_def server_error_def getR_def resp_json_or_empty_def status_label_def js_or_def)
qed

definition demo_error_server :: "nat server" where
  "demo_error_server s rq = (Inr \<lparr>rs_status = 409, rs_body = utf8_encode ''{\"error\":\"locked\"}''\<rparr>, Suc s)"

theorem moveMessage_reports_errors_witness:
  "moveMessage demo_error_server ''m1'' ''archive'' 0 = (Inl (Error ''locked''), Suc 0)"
proof -
  let ?r = "\<lparr>rs_status = 409, rs_body = utf8_encode ''{\"error\":\"locked\"}''\<rparr>"
  have "resp_json ?r = Inr (JObj [(''error'', JStr ''locked'')])" by code_simp
  moreover have "\<not> resp_ok ?r" by (simp add: resp_ok_def)
  moreover have "demo_error_server 0 (json_request PATCH (message_path ''m1'') (JObj [(''folder'', JStr ''archive'')])) = (Inr ?r, Suc 0)"
    by (simp add: demo_error_server_def)
  ultimately show ?thesis using moveMessage_reports_errors [of demo_error_server 0 "''m1''" "''archive''" ?r "Suc 0" "''locked''"] by simp
qed

text \<open>
  A password change with a wrong current password changes nothing: when the account key cannot be
  rewrapped, the server has received the two reading requests and nothing else, and the caller gets
  the exception of the failed decryption.
\<close>

theorem changePassword_aborts_before_writing:
  assumes "call srv (get_request ''/api/v1/account-key/me'') (json_or_status ''account key'') s0 = (Inr me, s1)"
    and "fetch_username srv s1 = (Inr username, s2)"
    and "rewrapAccountForNewPassword cr (pr_newSalt rnd) (pr_nonce rnd) me currentPassword newPassword = Inl e"
  shows "changePassword cr sha True True rnd srv currentPassword newPassword s0 = (Inl e, s2)"
  using assms by (simp add: changePassword_def bindI_def liftI_def)

definition demo_account_server :: "nat server" where
  "demo_account_server s rq =
     (Inr \<lparr>rs_status = 200,
          rs_body = utf8_encode (if rq_url rq = ''/api/auth/me'' then ''{\"user\":{\"username\":\"u\"}}''
                                 else ''{\"bootstrapped\":true,\"kdf_salt_b64\":\"BQ==\",\"kdf\":\"scrypt\"}'')\<rparr>, Suc s)"

definition demo_me :: jsval where
  "demo_me = JObj [(''bootstrapped'', JBool True), (''kdf_salt_b64'', JStr ''BQ==''), (''kdf'', JStr ''scrypt'')]"

definition demo_auth :: jsval where
  "demo_auth = JObj [(''user'', JObj [(''username'', JStr ''u'')])]"

lemma demo_account_calls:
  "call demo_account_server (get_request ''/api/v1/account-key/me'') (json_or_status ''account key'') 0 = (Inr demo_me, Suc 0)"
  "call demo_account_server (get_request ''/api/auth/me'') (json_or_status ''auth me'') (Suc 0) = (Inr demo_auth, Suc (Suc 0))"
  by code_simp+

theorem changePassword_aborts_before_writing_witness:
  "changePassword demo_crypto (\<lambda>x. x) True True \<lparr>pr_newSalt = [], pr_nonce = [], pr_srpSalt = [], pr_a = []\<rparr>
     demo_account_server ''x'' ''y'' 0 = (Inl (Error ''unsupported KDF: scrypt''), Suc (Suc 0))"
proof (rule changePassword_aborts_before_writing [OF demo_account_calls(1)])
  show "fetch_username demo_account_server (Suc 0) = (Inr ''u'', Suc (Suc 0))"
    unfolding fetch_username_def bindI_def demo_account_calls
    by (simp add: auth_username_def demo_auth_def Let_def)
  have "kg_b64ToBytes (JStr ''BQ=='') = Inr [5]" by code_simp
  then show "rewrapAccountForNewPassword demo_crypto (pr_newSalt \<lparr>pr_newSalt = [], pr_nonce = [], pr_srpSalt = [], pr_a = []\<rparr>)
      (pr_nonce \<lparr>pr_newSalt = [], pr_nonce = [], pr_srpSalt = [], pr_a = []\<rparr>) demo_me ''x'' ''y'' =
      Inl (Error ''unsupported KDF: scrypt'')"
    by (simp add: demo_me_def rewrapAccountForNewPassword_def deriveKEK_def Let_def isPbkdf2Sha256Kdf_def KDF_ARGON2ID_def
        KDF_PBKDF2_def KDF_PBKDF2_LEGACY_def)
qed

end
