(* ===== verification/Vault_Mime.thy ===== *)
theory Vault_Mime
  imports Mail_Text
begin

text \<open>
  \<^verbatim>\<open>static/auth/unlock.js\<close>, the text part: finding OpenPGP material in mail. Armored blocks, MIME
  headers, boundaries and parts, transfer encodings, and the choice of what is given to openpgp. The
  lossy UTF-8 decoder of the browser is a parameter \<open>td\<close>; regular expressions are written out as the
  functions they denote.
\<close>

section \<open>Searching and splitting\<close>

definition lf :: char where
  "lf = char_of (10 :: nat)"

definition cr_char :: char where
  "cr_char = char_of (13 :: nat)"

text \<open>The first position where one of the markers starts, and the length of that marker.\<close>

definition marker_at :: "string list \<Rightarrow> string \<Rightarrow> nat option" where
  "marker_at ms s = map_option length (find (\<lambda>m. prefix m s) ms)"

fun find_any :: "string list \<Rightarrow> string \<Rightarrow> (nat \<times> nat) option" where
  "find_any ms [] = None"
| "find_any ms (c # s) =
     (case marker_at ms (c # s) of
        Some l \<Rightarrow> Some (0, l)
      | None \<Rightarrow> map_option (\<lambda>(i, l). (Suc i, l)) (find_any ms s))"

text \<open>\<open>/BEGIN[\s\S]*?END/\<close>: the first begin marker and the first end marker behind it, trimmed.\<close>

definition block_between :: "string list \<Rightarrow> string list \<Rightarrow> string \<Rightarrow> string" where
  "block_between begins ends s =
     (case find_any begins s of
        None \<Rightarrow> []
      | Some (i, l) \<Rightarrow>
          (case find_any ends (drop (i + l) s) of
             None \<Rightarrow> []
           | Some (j, k) \<Rightarrow> trim (take (l + j + k) (drop i s))))"

text \<open>\<open>s.split(sep)\<close> for a separator that is not empty.\<close>

function split_str :: "string \<Rightarrow> string \<Rightarrow> string list" where
  "split_str sep s =
     (case find_sub sep s of
        None \<Rightarrow> [s]
      | Some i \<Rightarrow> if sep = [] then [s] else take i s # split_str sep (drop (i + length sep) s))"
  by pat_completeness auto
termination
proof (relation "measure (length \<circ> snd)", goal_cases)
  case (2 sep s i)
  then have "i + length sep \<le> length s" by (auto dest: find_sub_SomeD)
  with 2 show ?case by (cases sep) auto
qed simp

declare split_str.simps [simp del]

fun replace_crlf :: "string \<Rightarrow> string" where
  "replace_crlf [] = []"
| "replace_crlf [c] = [c]"
| "replace_crlf (c # d # s) =
     (if c = cr_char \<and> d = lf then lf # replace_crlf s else c # replace_crlf (d # s))"

declare lf_def [js_eval] cr_char_def [js_eval] marker_at_def [js_eval] block_between_def [js_eval]

section \<open>Armored blocks\<close>

definition BEGIN_MESSAGE :: string where
  "BEGIN_MESSAGE = ''-----BEGIN PGP MESSAGE-----''"

definition BEGIN_SIGNED :: string where
  "BEGIN_SIGNED = ''-----BEGIN PGP SIGNED MESSAGE-----''"

definition BEGIN_SIGNATURE :: string where
  "BEGIN_SIGNATURE = ''-----BEGIN PGP SIGNATURE-----''"

definition END_MESSAGE :: string where
  "END_MESSAGE = ''-----END PGP MESSAGE-----''"

definition END_SIGNATURE :: string where
  "END_SIGNATURE = ''-----END PGP SIGNATURE-----''"

definition looksLikeArmoredMessage :: "string \<Rightarrow> bool" where
  "looksLikeArmoredMessage s =
     (let r = dropWhile is_space s in startsWith r BEGIN_MESSAGE \<or> startsWith r BEGIN_SIGNED)"

definition extractArmoredBlock :: "string \<Rightarrow> string" where
  "extractArmoredBlock s = block_between [BEGIN_MESSAGE, BEGIN_SIGNED] [END_MESSAGE, END_SIGNATURE] s"

definition extractArmoredCleartextSignedBlock :: "string \<Rightarrow> string" where
  "extractArmoredCleartextSignedBlock s = block_between [BEGIN_SIGNED] [END_SIGNATURE] s"

definition extractArmoredDetachedSignatureBlob :: "string \<Rightarrow> string" where
  "extractArmoredDetachedSignatureBlob s = block_between [BEGIN_SIGNATURE] [END_SIGNATURE] s"

section \<open>Headers and parts\<close>

text \<open>\<open>/^content-type:\s*(.+)$/i\<close> on a trimmed line; a dot matches no line terminator.\<close>

definition content_type_of_line :: "string \<Rightarrow> string option" where
  "content_type_of_line line =
     (let l = trim line; rest = dropWhile is_space (drop 13 l) in
      if toLowerCase (take 13 l) = ''content-type:'' \<and> rest \<noteq> [] \<and> list_all (\<lambda>c. c \<noteq> cr_char \<and> c \<noteq> lf) rest
      then Some (trim rest) else None)"

fun first_some :: "('a \<Rightarrow> 'b option) \<Rightarrow> 'a list \<Rightarrow> 'b option" where
  "first_some f [] = None"
| "first_some f (x # xs) = (case f x of Some y \<Rightarrow> Some y | None \<Rightarrow> first_some f xs)"

definition extractContentTypeValue :: "string \<Rightarrow> string" where
  "extractContentTypeValue headerText =
     (case first_some content_type_of_line (split_str [lf] (replace_crlf headerText)) of Some v \<Rightarrow> v | None \<Rightarrow> [])"

text \<open>\<open>/boundary="?(P+)"?/i\<close>: the first occurrence with a non-empty run of the class \<open>P\<close>.\<close>

definition quote :: char where
  "quote = char_of (34 :: nat)"

definition boundary_at :: "(char \<Rightarrow> bool) \<Rightarrow> string \<Rightarrow> string option" where
  "boundary_at P s =
     (if toLowerCase (take 9 s) = ''boundary='' then
        (let r = drop 9 s; r1 = (if r \<noteq> [] \<and> hd r = quote then tl r else r); u = takeWhile P r1 in
         if u \<noteq> [] then Some u else None)
      else None)"

fun find_boundary :: "(char \<Rightarrow> bool) \<Rightarrow> string \<Rightarrow> string option" where
  "find_boundary P [] = None"
| "find_boundary P (c # s) = (case boundary_at P (c # s) of Some b \<Rightarrow> Some b | None \<Rightarrow> find_boundary P s)"

definition extractMimeBoundary :: "string \<Rightarrow> string" where
  "extractMimeBoundary v =
     (case find_boundary (\<lambda>c. c \<noteq> quote \<and> c \<noteq> CHR '';'' \<and> \<not> is_space c) v of Some b \<Rightarrow> trim b | None \<Rightarrow> [])"

text \<open>\<open>p.replace(/--[\r\n]*$/, "").trimEnd()\<close>.\<close>

definition strip_final_dashes :: "string \<Rightarrow> string" where
  "strip_final_dashes p =
     (let q = rev (dropWhile (\<lambda>c. c = cr_char \<or> c = lf) (rev p)) in
      trim_end (if endsWith q ''--'' then take (length q - 2) q else p))"

definition strip_leading_newline :: "string \<Rightarrow> string" where
  "strip_leading_newline p =
     (if startsWith p [cr_char, lf] then drop 2 p else if startsWith p [lf] then drop 1 p else p)"

definition splitMimePartsLoose :: "string \<Rightarrow> string \<Rightarrow> string list" where
  "splitMimePartsLoose body boundary =
     (let b = trim boundary in
      if b = [] then []
      else filter (\<lambda>p. p \<noteq> [])
             (map (\<lambda>p. strip_final_dashes (strip_leading_newline p)) (tl (split_str (''--'' @ b) body))))"

definition header_char :: "char \<Rightarrow> bool" where
  "header_char c = (is_letter c \<or> is_digit c \<or> c = CHR ''-'')"

text \<open>\<open>/^([A-Za-z0-9-]+):\s*(.*)$/\<close>.\<close>

definition header_line :: "string \<Rightarrow> (string \<times> string) option" where
  "header_line line =
     (let n = takeWhile header_char line; r = dropWhile header_char line; v = dropWhile is_space (tl r) in
      if n \<noteq> [] \<and> startsWith r '':'' \<and> list_all (\<lambda>c. c \<noteq> cr_char \<and> c \<noteq> lf) v then Some (n, v) else None)"

fun parse_header_lines :: "string list \<Rightarrow> string \<Rightarrow> (string \<times> string) list \<Rightarrow> (string \<times> string) list option" where
  "parse_header_lines [] current headers = Some headers"
| "parse_header_lines (line # ls) current headers =
     (if line = [] then None
      else if is_blank (hd line) then
        (if current = [] then None
         else parse_header_lines ls current
                (AList.update current ((case map_of headers current of Some v \<Rightarrow> v | None \<Rightarrow> []) @ '' '' @ trim line) headers))
      else
        (case header_line line of
           None \<Rightarrow> None
         | Some (n, v) \<Rightarrow> parse_header_lines ls (toLowerCase n) (AList.update (toLowerCase n) v headers)))"

definition parseMimeHeaders :: "string \<Rightarrow> (string \<times> string) list option" where
  "parseMimeHeaders headerBlock = parse_header_lines (split_str [lf] headerBlock) [] []"

definition header_value :: "(string \<times> string) list \<Rightarrow> string \<Rightarrow> string" where
  "header_value hs k = (case map_of hs k of Some v \<Rightarrow> v | None \<Rightarrow> [])"

section \<open>Transfer encodings\<close>

definition mime_base64ToBytes :: "string \<Rightarrow> bytes result" where
  "mime_base64ToBytes raw =
     bindR (atob (filter (\<lambda>c. \<not> is_space c) raw)) (\<lambda>bin. Inr (map byte_of_char bin))"

text \<open>\<open>s.replace(/=\r?\n/g, "")\<close>.\<close>

fun drop_soft_breaks :: "string \<Rightarrow> string" where
  "drop_soft_breaks [] = []"
| "drop_soft_breaks (c # s) =
     (if c = CHR ''='' \<and> startsWith s [lf] then drop_soft_breaks (drop 1 s)
      else if c = CHR ''='' \<and> startsWith s [cr_char, lf] then drop_soft_breaks (drop 2 s)
      else c # drop_soft_breaks s)"

fun qp_bytes :: "string \<Rightarrow> bytes" where
  "qp_bytes [] = []"
| "qp_bytes (c # s) =
     (case (if c = CHR ''='' then s else []) of
        x # y # r \<Rightarrow>
          (case (hex_val x, hex_val y) of
             (Some h, Some l) \<Rightarrow> of_nat (16 * h + l) # qp_bytes (drop 2 s)
           | _ \<Rightarrow> byte_of_char c # qp_bytes s)
      | _ \<Rightarrow> byte_of_char c # qp_bytes s)"

definition quotedPrintableToBytes :: "string \<Rightarrow> bytes" where
  "quotedPrintableToBytes raw = qp_bytes (drop_soft_breaks raw)"

definition decodeTransferBytes :: "string \<Rightarrow> string \<Rightarrow> bytes result" where
  "decodeTransferBytes body transferEncoding =
     (let encoding = toLowerCase (trim transferEncoding) in
      if encoding = ''base64'' then mime_base64ToBytes body
      else if encoding = ''quoted-printable'' then Inr (quotedPrintableToBytes body)
      else Inr (utf8_encode body))"

section \<open>The encrypted payload\<close>

definition icontains :: "string \<Rightarrow> string \<Rightarrow> bool" where
  "icontains s n = str_includes (toLowerCase s) n"

text \<open>\<open>/version:\s*1/i\<close>.\<close>

fun has_version_1 :: "string \<Rightarrow> bool" where
  "has_version_1 [] = False"
| "has_version_1 (c # s) =
     (toLowerCase (take 8 (c # s)) = ''version:'' \<and> startsWith (dropWhile is_space (drop 8 (c # s))) ''1''
      \<or> has_version_1 s)"

definition strip_newlines :: "string \<Rightarrow> string" where
  "strip_newlines s = rev (dropWhile is_lf (rev (dropWhile is_lf s)))"

text \<open>What the loop over the parts does with one part: \<open>None\<close> is \<open>continue\<close>.\<close>

definition payload_of_part :: "(bytes \<Rightarrow> string) \<Rightarrow> string \<Rightarrow> bytes result option" where
  "payload_of_part td rawPart =
     (let p0 = trim rawPart in
      if p0 = [] \<or> p0 = ''--'' then None
      else
        (let part = (if endsWith p0 ''--'' then trim (slice 0 (-2) p0) else p0);
             partSeparator = indexOf part [lf, lf] in
         if partSeparator \<le> 0 then None
         else
           (case parseMimeHeaders (slice 0 partSeparator part) of
              None \<Rightarrow> None
            | Some hs \<Rightarrow>
                (let partBody = strip_newlines (slice_from (partSeparator + 2) part);
                     partType = header_value hs ''content-type'' in
                 if icontains partType ''application/pgp-encrypted'' \<and> has_version_1 partBody then None
                 else if icontains partType ''application/octet-stream''
                         \<or> icontains partType ''application/pgp-encrypted''
                         \<or> looksLikeArmoredMessage partBody
                 then Some (bindR (decodeTransferBytes partBody (header_value hs ''content-transfer-encoding'')) (\<lambda>decoded.
                        let armored = extractArmoredBlock (td decoded) in
                        Inr (if armored \<noteq> [] then utf8_encode armored else decoded)))
                 else None))))"

definition extractPGPMimePayload :: "(bytes \<Rightarrow> string) \<Rightarrow> bytes \<Rightarrow> bytes option result" where
  "extractPGPMimePayload td bs =
     (let normalized = replace_crlf (td bs); separatorIndex = indexOf normalized [lf, lf] in
      if separatorIndex \<le> 0 then Inr None
      else
        (case parseMimeHeaders (slice 0 separatorIndex normalized) of
           None \<Rightarrow> Inr None
         | Some headers \<Rightarrow>
             (let contentType = header_value headers ''content-type'' in
              case find_boundary (\<lambda>c. c \<noteq> quote \<and> c \<noteq> CHR '';'' \<and> c \<noteq> lf) contentType of
                None \<Rightarrow> Inr None
              | Some b \<Rightarrow>
                  if \<not> icontains contentType ''multipart/encrypted'' then Inr None
                  else
                    (let body = slice_from (separatorIndex + 2) normalized in
                     case first_some (payload_of_part td) (split_str (''--'' @ b) body) of
                       None \<Rightarrow> Inr None
                     | Some r \<Rightarrow> bindR r (\<lambda>p. Inr (Some p))))))"

datatype pgp_input = ArmoredMessage string | BinaryMessage bytes

text \<open>A ciphertext is a string or bytes.\<close>

datatype ciphertext = CText string | CBytes bytes

definition input_of_bytes :: "(bytes \<Rightarrow> string) \<Rightarrow> bytes \<Rightarrow> pgp_input result" where
  "input_of_bytes td bs =
     (if looksLikeArmoredMessage (td (take 160 bs)) then Inr (ArmoredMessage (td bs))
      else
        (let embeddedArmored = extractArmoredBlock (td bs) in
         if embeddedArmored \<noteq> [] then Inr (ArmoredMessage embeddedArmored)
         else
           bindR (extractPGPMimePayload td bs) (\<lambda>payload.
             case payload of
               Some p \<Rightarrow>
                 if p \<noteq> [] then
                   (let armored = extractArmoredBlock (td p) in
                    Inr (if armored \<noteq> [] then ArmoredMessage armored else BinaryMessage p))
                 else Inr (BinaryMessage bs)
             | None \<Rightarrow> Inr (BinaryMessage bs))))"

definition readEncryptedMessage_input :: "(bytes \<Rightarrow> string) \<Rightarrow> ciphertext \<Rightarrow> pgp_input result" where
  "readEncryptedMessage_input td ct =
     (case ct of
        CText s \<Rightarrow>
          (let armored = extractArmoredBlock s in
           if armored \<noteq> [] then Inr (ArmoredMessage armored) else input_of_bytes td (utf8_encode s))
      | CBytes bs \<Rightarrow> input_of_bytes td bs)"

section \<open>Lemmas\<close>

lemma find_any_SomeD:
  assumes "find_any ms s = Some (i, l)"
  shows "\<exists>m \<in> set ms. length m = l \<and> prefix m (drop i s)"
  using assms
proof (induction s arbitrary: i)
  case (Cons c s)
  show ?case
  proof (cases "marker_at ms (c # s)")
    case None
    with Cons show ?thesis by auto
  next
    case (Some k)
    then obtain m where "find (\<lambda>m. prefix m (c # s)) ms = Some m" "length m = k"
      by (auto simp: marker_at_def)
    with Some Cons.prems show ?thesis by (auto simp: find_Some_iff)
  qed
qed simp

lemma marker_at_mem: "marker_at ms s = None \<longleftrightarrow> (\<forall>m \<in> set ms. \<not> prefix m s)"
  by (auto simp: marker_at_def find_None_iff)

lemma find_any_first: "find_any ms s = Some (i, l) \<Longrightarrow> j < i \<Longrightarrow> m \<in> set ms \<Longrightarrow> \<not> prefix m (drop j s)"
proof (induction s arbitrary: i j)
  case (Cons c s)
  show ?case
  proof (cases "marker_at ms (c # s)")
    case None
    with Cons show ?thesis by (cases j) (auto simp: marker_at_mem)
  next
    case (Some k)
    with Cons.prems show ?thesis by simp
  qed
qed simp

lemma trim_tight: "s \<noteq> [] \<Longrightarrow> \<not> is_space (hd s) \<Longrightarrow> \<not> is_space (last s) \<Longrightarrow> trim s = s"
proof -
  assume a: "s \<noteq> []" "\<not> is_space (hd s)" "\<not> is_space (last s)"
  have "dropWhile is_space s = s" using a(1,2) by (cases s) simp_all
  moreover have "dropWhile is_space (rev s) = rev s" using a(1,3) by (cases s rule: rev_cases) simp_all
  ultimately show ?thesis by (simp add: trim_def trim_start_def trim_end_def)
qed

text \<open>A marker that neither starts nor ends with white space.\<close>

definition tight :: "string \<Rightarrow> bool" where
  "tight m = (m \<noteq> [] \<and> \<not> is_space (hd m) \<and> \<not> is_space (last m))"

lemma block_between_found:
  assumes "block_between bs es s \<noteq> []" and "\<forall>m \<in> set bs \<union> set es. tight m"
  shows "\<exists>b \<in> set bs. \<exists>e \<in> set es. \<exists>mid pre post. block_between bs es s = b @ mid @ e \<and> s = pre @ (b @ mid @ e) @ post
    \<and> (\<forall>b' \<in> set bs. \<forall>j < length pre. \<not> prefix b' (drop j s))"
proof -
  obtain i l j k where f: "find_any bs s = Some (i, l)" "find_any es (drop (i + l) s) = Some (j, k)"
    "block_between bs es s = trim (take (l + j + k) (drop i s))"
    using assms(1) by (auto simp: block_between_def split: option.splits)
  obtain b where b: "b \<in> set bs" "length b = l" "prefix b (drop i s)" using find_any_SomeD [OF f(1)] by blast
  obtain e where e: "e \<in> set es" "length e = k" "prefix e (drop j (drop (i + l) s))" using find_any_SomeD [OF f(2)] by blast
  obtain r where r: "drop i s = b @ r" using b(3) by (auto simp: prefix_def)
  have "drop (i + l) s = drop l (drop i s)" by (simp add: add.commute)
  then have dr: "drop (i + l) s = r" using r b(2) by simp
  obtain t where t: "drop j r = e @ t" using e(3) dr by (auto simp: prefix_def)
  define mid where "mid = take j r"
  have "r = mid @ e @ t" using t append_take_drop_id [of j r] by (simp add: mid_def)
  moreover have "j \<le> length r"
  proof (rule ccontr)
    assume "\<not> j \<le> length r"
    then have "e = []" using t by simp
    with assms(2) e(1) show False by (auto simp: tight_def)
  qed
  ultimately have tk: "take (l + j + k) (drop i s) = b @ mid @ e"
    using b(2) e(2) t by (simp add: r mid_def take_add)
  have tb: "tight b" "tight e" using assms(2) b(1) e(1) by auto
  have "trim (b @ mid @ e) = b @ mid @ e" using tb by (intro trim_tight) (auto simp: tight_def)
  then have blk: "block_between bs es s = b @ mid @ e" using f(3) tk by simp
  have "i \<le> length s"
  proof (rule ccontr)
    assume "\<not> i \<le> length s"
    then have "b = []" using r by simp
    with tb(1) show False by (simp add: tight_def)
  qed
  then have s: "s = take i s @ (b @ mid @ e) @ t" "length (take i s) = i"
    using r \<open>r = mid @ e @ t\<close> append_take_drop_id [of i s] by simp_all
  have first: "\<forall>b' \<in> set bs. \<forall>j' < length (take i s). \<not> prefix b' (drop j' s)"
    using find_any_first [OF f(1)] s(2) by auto
  show ?thesis using b(1) e(1) blk s(1) first by blast
qed

lemma tight_markers: "\<forall>m \<in> set [BEGIN_MESSAGE, BEGIN_SIGNED] \<union> set [END_MESSAGE, END_SIGNATURE]. tight m"
  by (simp add: tight_def BEGIN_MESSAGE_def BEGIN_SIGNED_def END_MESSAGE_def END_SIGNATURE_def is_space_def code_unit_def)

lemma join_split_str: "sep \<noteq> [] \<Longrightarrow> join sep (split_str sep s) = s"
proof (induction sep s rule: split_str.induct)
  case (1 sep s)
  show ?case
  proof (cases "find_sub sep s")
    case None
    then show ?thesis by (simp add: split_str.simps)
  next
    case (Some i)
    note IH = "1.IH" [OF Some 1(2) 1(2)]
    have "prefix sep (drop i s)" using find_sub_SomeD [OF Some] by blast
    then have "s = take i s @ sep @ drop (i + length sep) s"
      by (metis append_take_drop_id prefix_def append_eq_conv_conj drop_drop add.commute)
    moreover have "split_str sep (drop (i + length sep) s) \<noteq> []"
      by (subst split_str.simps) (simp split: option.split)
    then obtain y zs where "split_str sep (drop (i + length sep) s) = y # zs" by (cases "split_str sep (drop (i + length sep) s)") auto
    ultimately show ?thesis
      using IH Some 1(2) by (subst split_str.simps) simp
  qed
qed

section \<open>Properties\<close>

text \<open>
  What \<open>extractArmoredBlock\<close> finds in a text is a contiguous part of it that starts with a begin
  marker and ends with an end marker, and no begin marker stands before it.
\<close>

theorem armored_block_is_part:
  assumes "extractArmoredBlock s \<noteq> []"
  shows "\<exists>b \<in> {BEGIN_MESSAGE, BEGIN_SIGNED}. \<exists>e \<in> {END_MESSAGE, END_SIGNATURE}. \<exists>mid pre post.
    extractArmoredBlock s = b @ mid @ e \<and> s = pre @ extractArmoredBlock s @ post
    \<and> (\<forall>j < length pre. \<not> prefix BEGIN_MESSAGE (drop j s) \<and> \<not> prefix BEGIN_SIGNED (drop j s))"
proof -
  obtain b e mid pre post where r: "b \<in> set [BEGIN_MESSAGE, BEGIN_SIGNED]" "e \<in> set [END_MESSAGE, END_SIGNATURE]"
      "block_between [BEGIN_MESSAGE, BEGIN_SIGNED] [END_MESSAGE, END_SIGNATURE] s = b @ mid @ e"
      "s = pre @ (b @ mid @ e) @ post"
      "\<forall>b' \<in> set [BEGIN_MESSAGE, BEGIN_SIGNED]. \<forall>j < length pre. \<not> prefix b' (drop j s)"
    using block_between_found [OF assms [unfolded extractArmoredBlock_def] tight_markers] by blast
  show ?thesis
    unfolding extractArmoredBlock_def r(3)
    by (rule bexI [of _ b], rule bexI [of _ e], intro exI conjI) (use r in auto)
qed

definition demo_mail :: string where
  "demo_mail = ''hi '' @ BEGIN_MESSAGE @ ''x'' @ END_MESSAGE @ '' bye''"

theorem armored_block_is_part_witness:
  "extractArmoredBlock demo_mail = BEGIN_MESSAGE @ ''x'' @ END_MESSAGE
   \<and> (\<exists>pre post. demo_mail = pre @ extractArmoredBlock demo_mail @ post)"
proof -
  have e: "extractArmoredBlock demo_mail = BEGIN_MESSAGE @ ''x'' @ END_MESSAGE" by code_simp
  then have "extractArmoredBlock demo_mail \<noteq> []" by (simp add: BEGIN_MESSAGE_def)
  from armored_block_is_part [OF this] e show ?thesis by blast
qed

end
