(* ===== verification/Protected_Open.thy ===== *)
theory Protected_Open
  imports Mail_Api Vault_Mime
begin

text \<open>
  \<^verbatim>\<open>static/protected/open.js\<close>: the page on which the recipient of a protected link opens the message.
  First the MIME reader, a recursion on nested parts that stops at depth eight, then the two requests
  and the decryption, then the page itself: what it shows is a record \<open>page\<close>, and loading the page and
  submitting the form are computations over the page and the server. The \<open>DOMParser\<close>, the HTML
  sanitiser, the lossy UTF-8 decoder, the date formatter and the cryptography are fields of \<open>open_env\<close>.
\<close>

section \<open>The environment\<close>

record open_env =
  oe_pathname :: string
  oe_body_text :: "(string \<Rightarrow> string) option"   \<comment> \<open>\<open>DOMParser\<close>: body text without scripts and styles\<close>
  oe_purify :: "(string \<Rightarrow> string) option"      \<comment> \<open>\<open>window.DOMPurify\<close>\<close>
  oe_keygen :: bool                             \<comment> \<open>\<open>window.ElvishKeygen\<close> is loaded\<close>
  oe_cr :: crypto
  oe_td :: "bytes \<Rightarrow> string"
  oe_localeString :: "jsval \<Rightarrow> string"

definition open_utf8 :: "string \<Rightarrow> bytes" where
  "open_utf8 s = utf8_encode s"

definition bytesToUtf8 :: "open_env \<Rightarrow> bytes \<Rightarrow> string" where
  "bytesToUtf8 env b = oe_td env b"

definition open_b64ToBytes :: "jsval \<Rightarrow> bytes result" where
  "open_b64ToBytes s = bindR (atob (to_string s)) (\<lambda>bin. Inr (map byte_of_char bin))"

text \<open>\<open>path.slice(i + 3).replace(/\/+$/, "")\<close>.\<close>

definition readToken :: "open_env \<Rightarrow> string" where
  "readToken env =
     (let i = indexOf (oe_pathname env) ''/m/'' in
      if i < 0 then []
      else rev (dropWhile (\<lambda>c. c = CHR ''/'') (rev (slice_from (i + 3) (oe_pathname env)))))"

definition formatBytes :: "nat \<Rightarrow> string" where
  "formatBytes n =
     (if n = 0 then ''0 B''
      else
        (let (d, idx) = size_scale n 1 0 in
         (if 10 * d \<le> n \<or> idx = 0 then toFixed0 n d else toFixed1 n d) @ '' '' @ size_units ! idx))"

section \<open>MIME\<close>

definition parseHeaderBlock :: "string \<Rightarrow> (string \<times> string) list option" where
  "parseHeaderBlock headerBlock = parse_header_lines (split_str [lf] headerBlock) [] []"

definition open_htmlToDisplayText :: "open_env \<Rightarrow> string \<Rightarrow> string" where
  "open_htmlToDisplayText env html =
     (case oe_body_text env of
        None \<Rightarrow> trim (replace_runs is_space '' '' (replace_tags '' '' html))
      | Some f \<Rightarrow> trim (squeeze_lf (trim_line_ends (filter (\<lambda>c. c \<noteq> cr_char) (f html)))))"

text \<open>\<open>s.replace(/=([0-9A-F]{2})/gi, \<dots>)\<close>: every escape becomes the character of that code.\<close>

fun qp_chars :: "string \<Rightarrow> string" where
  "qp_chars [] = []"
| "qp_chars (c # s) =
     (case (if c = CHR ''='' then s else []) of
        x # y # r \<Rightarrow>
          (case (hex_val x, hex_val y) of
             (Some h, Some l) \<Rightarrow> char_of (16 * h + l) # qp_chars (drop 2 s)
           | _ \<Rightarrow> c # qp_chars s)
      | _ \<Rightarrow> c # qp_chars s)"

definition decodeMailBody :: "open_env \<Rightarrow> string \<Rightarrow> string \<Rightarrow> string result" where
  "decodeMailBody env body transferEncoding =
     (let encoding = toLowerCase (trim transferEncoding) in
      if encoding = [] \<or> encoding = ''7bit'' \<or> encoding = ''8bit'' \<or> encoding = ''binary'' then Inr body
      else if encoding = ''quoted-printable'' then Inr (qp_chars (drop_soft_breaks body))
      else if encoding = ''base64'' then
        bindR (open_b64ToBytes (JStr (filter (\<lambda>c. \<not> is_space c) body))) (\<lambda>bs. Inr (bytesToUtf8 env bs))
      else Inr body)"

definition decodeAttachmentBytes :: "string \<Rightarrow> string \<Rightarrow> bytes result" where
  "decodeAttachmentBytes body transferEncoding =
     (if toLowerCase (trim transferEncoding) = ''base64'' then open_b64ToBytes (JStr (filter (\<lambda>c. \<not> is_space c) body))
      else Inr (map byte_of_char body))"

text \<open>One raw part of a multipart body: \<open>None\<close> when it is skipped.\<close>

definition clean_part :: "string \<Rightarrow> string option" where
  "clean_part rawPart =
     (let p0 = trim rawPart in
      if p0 = [] \<or> p0 = ''--'' then None
      else
        (let part = (if endsWith p0 ''--'' then trim (slice 0 (-2) p0) else p0) in
         if part = [] then None else Some part))"

definition splitMultipartBody :: "string \<Rightarrow> string \<Rightarrow> string list" where
  "splitMultipartBody body boundary = List.map_filter clean_part (split_str (''--'' @ boundary) body)"

text \<open>\<open>contentType.split(";")[0].trim().toLowerCase()\<close>.\<close>

definition media_type :: "string \<Rightarrow> string" where
  "media_type contentType = toLowerCase (trim (takeWhile (\<lambda>c. c \<noteq> CHR '';'') contentType))"

definition scoreBodyText :: "string \<Rightarrow> string \<Rightarrow> nat" where
  "scoreBodyText contentType bodyText =
     (let kind = media_type contentType in
      if trim bodyText = [] then 0
      else if kind = ''text/plain'' then 3
      else if kind = ''text/html'' then 2
      else if startsWith kind ''text/'' then 1
      else 0)"

text \<open>\<open>/k"?([^"]+)"?/i\<close> for a keyword that ends in an equals sign.\<close>

definition param_at :: "string \<Rightarrow> string \<Rightarrow> string option" where
  "param_at k s =
     (if toLowerCase (take (length k) s) = k then
        (let r = drop (length k) s; r1 = (if r \<noteq> [] \<and> hd r = quote then tl r else r); u = takeWhile (\<lambda>c. c \<noteq> quote) r1 in
         if u \<noteq> [] then Some u else None)
      else None)"

fun find_param :: "string \<Rightarrow> string \<Rightarrow> string option" where
  "find_param k [] = None"
| "find_param k (c # s) = (case param_at k (c # s) of Some v \<Rightarrow> Some v | None \<Rightarrow> find_param k s)"

text \<open>\<open>/protocol\s*=\s*"?([^";\s]+)"?/i\<close>.\<close>

definition protocol_at :: "string \<Rightarrow> string option" where
  "protocol_at s =
     (let r = dropWhile is_space (drop 8 s) in
      if toLowerCase (take 8 s) = ''protocol'' \<and> startsWith r ''='' then
        (let r0 = dropWhile is_space (tl r); r1 = (if r0 \<noteq> [] \<and> hd r0 = quote then tl r0 else r0);
             u = takeWhile (\<lambda>c. c \<noteq> quote \<and> c \<noteq> CHR '';'' \<and> \<not> is_space c) r1 in
         if u \<noteq> [] then Some u else None)
      else None)"

fun find_protocol :: "string \<Rightarrow> string option" where
  "find_protocol [] = None"
| "find_protocol (c # s) = (case protocol_at (c # s) of Some v \<Rightarrow> Some v | None \<Rightarrow> find_protocol s)"

definition pgp_signature_protocol :: "string \<Rightarrow> bool" where
  "pgp_signature_protocol contentType =
     (let protocol = (case find_protocol contentType of Some p \<Rightarrow> toLowerCase (trim p) | None \<Rightarrow> []) in
      icontains protocol ''application/pgp-signature'' \<or> icontains protocol ''application/x-pgp-signature'')"

record attachment =
  at_fileName :: string
  at_contentType :: string
  at_bytes :: bytes

record mime_entity =
  me_bodyText :: string
  me_bodyHtml :: string
  me_bodyScore :: nat
  me_attachments :: "attachment list"

definition empty_entity :: mime_entity where
  "empty_entity = \<lparr>me_bodyText = [], me_bodyHtml = [], me_bodyScore = 0, me_attachments = []\<rparr>"

definition part_filename :: "string \<Rightarrow> string \<Rightarrow> string" where
  "part_filename disposition contentType =
     (case find_param ''filename='' disposition of
        Some f \<Rightarrow> f
      | None \<Rightarrow> (case find_param ''name='' contentType of Some f \<Rightarrow> f | None \<Rightarrow> []))"

definition is_attachment :: "string \<Rightarrow> string \<Rightarrow> string \<Rightarrow> bool" where
  "is_attachment kind disposition filename =
     (kind \<noteq> ''application/pgp-signature'' \<and> kind \<noteq> ''application/x-pgp-signature''
      \<and> (icontains disposition ''attachment''
         \<or> filename \<noteq> [] \<and> \<not> startsWith kind ''multipart/'' \<and> kind \<noteq> ''text/plain'' \<and> kind \<noteq> ''text/html''))"

text \<open>A part is read when it has a blank line that is not at its start and its headers parse.\<close>

definition part_headers :: "string \<Rightarrow> ((string \<times> string) list \<times> string) option" where
  "part_headers part =
     (let partSep = indexOf part [lf, lf] in
      if partSep \<le> 0 then None
      else map_option (\<lambda>hs. (hs, slice_from (partSep + 2) part)) (parseHeaderBlock (slice 0 partSep part)))"

type_synonym entity_reader = "(string \<times> string) list \<Rightarrow> string \<Rightarrow> mime_entity result"

text \<open>What the loop over the parts does with the entity of one part.\<close>

definition merge_child :: "mime_entity \<Rightarrow> mime_entity \<Rightarrow> mime_entity" where
  "merge_child acc child =
     \<lparr>me_bodyText = (if me_bodyScore acc < me_bodyScore child then me_bodyText child else me_bodyText acc),
      me_bodyHtml = (if me_bodyHtml child \<noteq> [] \<and> trim (me_bodyHtml child) \<noteq> [] then me_bodyHtml child else me_bodyHtml acc),
      me_bodyScore = max (me_bodyScore acc) (me_bodyScore child),
      me_attachments = me_attachments acc @ me_attachments child\<rparr>"

fun read_parts :: "entity_reader \<Rightarrow> string list \<Rightarrow> mime_entity \<Rightarrow> mime_entity result" where
  "read_parts rd [] acc = Inr acc"
| "read_parts rd (part # ps) acc =
     (case part_headers part of
        None \<Rightarrow> read_parts rd ps acc
      | Some (hs, body) \<Rightarrow> bindR (rd hs body) (\<lambda>child. read_parts rd ps (merge_child acc child)))"

definition read_multipart :: "entity_reader \<Rightarrow> string \<Rightarrow> string \<Rightarrow> string \<Rightarrow> string \<Rightarrow> mime_entity result" where
  "read_multipart rd kind contentType boundary body =
     (let parts = splitMultipartBody body boundary in
      if kind = ''multipart/signed'' \<and> pgp_signature_protocol contentType then
        (case parts of
           [] \<Rightarrow> Inr empty_entity
         | first # _ \<Rightarrow> (case part_headers first of None \<Rightarrow> Inr empty_entity | Some (hs, b) \<Rightarrow> rd hs b))
      else read_parts rd parts empty_entity)"

definition read_leaf :: "open_env \<Rightarrow> string \<Rightarrow> string \<Rightarrow> string \<Rightarrow> mime_entity result" where
  "read_leaf env kind body transferEncoding =
     bindR (decodeMailBody env body transferEncoding) (\<lambda>decodedBody.
       if kind = ''text/html'' then
         (let t = open_htmlToDisplayText env decodedBody in
          Inr \<lparr>me_bodyText = t, me_bodyHtml = decodedBody, me_bodyScore = scoreBodyText kind t, me_attachments = []\<rparr>)
       else if startsWith kind ''text/'' \<or> kind = [] then
         Inr \<lparr>me_bodyText = decodedBody, me_bodyHtml = [],
              me_bodyScore = scoreBodyText (if kind = [] then ''text/plain'' else kind) decodedBody, me_attachments = []\<rparr>
       else Inr empty_entity)"

text \<open>The body of \<open>parseMimeEntity\<close>; \<open>nested\<close> reads the entities of the parts, as long as \<open>depth < 8\<close>.\<close>

definition entity_body :: "open_env \<Rightarrow> entity_reader option \<Rightarrow> entity_reader" where
  "entity_body env nested headers body =
     (let contentType = header_value headers ''content-type'';
          disposition = header_value headers ''content-disposition'';
          transferEncoding = header_value headers ''content-transfer-encoding'';
          kind = media_type contentType;
          filename = part_filename disposition contentType;
          boundary = find_boundary (\<lambda>c. c \<noteq> quote \<and> c \<noteq> CHR '';'' \<and> c \<noteq> lf) contentType
      in
      if is_attachment kind disposition filename then
        bindR (decodeAttachmentBytes body transferEncoding) (\<lambda>bs.
          Inr (empty_entity\<lparr>me_attachments :=
            [\<lparr>at_fileName = (if filename = [] then ''attachment.bin'' else filename),
              at_contentType = (if kind = [] then ''application/octet-stream'' else kind), at_bytes = bs\<rparr>]\<rparr>))
      else
        (case (nested, boundary) of
           (Some rd, Some b) \<Rightarrow>
             if startsWith kind ''multipart/'' then read_multipart rd kind contentType b body
             else read_leaf env kind body transferEncoding
         | _ \<Rightarrow> read_leaf env kind body transferEncoding))"

primrec entity_levels :: "open_env \<Rightarrow> nat \<Rightarrow> entity_reader" where
  "entity_levels env 0 = entity_body env None"
| "entity_levels env (Suc n) = entity_body env (Some (entity_levels env n))"

definition parseMimeEntity :: "open_env \<Rightarrow> (string \<times> string) list \<Rightarrow> string \<Rightarrow> nat \<Rightarrow> mime_entity result" where
  "parseMimeEntity env headers body depth = entity_levels env (8 - depth) headers body"

text \<open>The object it returns has no score, which is zero in the record.\<close>

definition parseMimeEnvelope :: "open_env \<Rightarrow> string \<Rightarrow> mime_entity result" where
  "parseMimeEnvelope env t =
     (let normalized = replace_crlf t; separatorIndex = indexOf normalized [lf, lf] in
      if separatorIndex \<le> 0 then Inr (empty_entity\<lparr>me_bodyText := t\<rparr>)
      else
        (case parseHeaderBlock (slice 0 separatorIndex normalized) of
           None \<Rightarrow> Inr (empty_entity\<lparr>me_bodyText := t\<rparr>)
         | Some headers \<Rightarrow>
             (let body = slice_from (separatorIndex + 2) normalized in
              bindR (parseMimeEntity env headers body 0) (\<lambda>envelope.
                if 0 < me_bodyScore envelope \<or> me_attachments envelope \<noteq> []
                   \<or> startsWith (toLowerCase (header_value headers ''content-type'')) ''multipart/''
                then Inr (envelope\<lparr>me_bodyScore := 0\<rparr>)
                else bindR (decodeMailBody env body (header_value headers ''content-transfer-encoding'')) (\<lambda>b.
                       Inr (empty_entity\<lparr>me_bodyText := b\<rparr>))))))"

section \<open>Requests and decryption\<close>

definition open_deriveKEK :: "open_env \<Rightarrow> string \<Rightarrow> bytes \<Rightarrow> jsval \<Rightarrow> jsval \<Rightarrow> bytes result" where
  "open_deriveKEK env password salt kdfHint params =
     (if oe_keygen env then
        bindR (deriveKEK (oe_cr env) password salt kdfHint (js_or params (JObj []))) (\<lambda>d. Inr (d_key d))
      else Inl (Error ''crypto runtime not loaded''))"

definition open_aesUnwrap :: "open_env \<Rightarrow> bytes \<Rightarrow> bytes \<Rightarrow> bytes result" where
  "open_aesUnwrap env kek wrappedBytes =
     (if length wrappedBytes < 12 then Inl (Error ''wrapped key too short'')
      else cr_decrypt (oe_cr env) kek (slice 0 12 wrappedBytes) (slice_from 12 wrappedBytes))"

definition aesOpen :: "open_env \<Rightarrow> bytes \<Rightarrow> bytes \<Rightarrow> bytes result" where
  "aesOpen env msgKeyBytes payloadBytes =
     (if length payloadBytes < 12 then Inl (Error ''ciphertext too short'')
      else
        bindR (cr_importKey (oe_cr env) msgKeyBytes) (\<lambda>key.
          cr_decrypt (oe_cr env) key (slice 0 12 payloadBytes) (slice_from 12 payloadBytes)))"

definition link_path :: "string \<Rightarrow> string \<Rightarrow> string" where
  "link_path token operation = ''/api/v1/protected-links/'' @ encodeURIComponent token @ operation"

definition loadMeta :: "'s server \<Rightarrow> string \<Rightarrow> ('s, jsval) io" where
  "loadMeta srv token =
     bindI (fetch srv (get_request (link_path token ''/meta''))) (\<lambda>resp.
       if rs_status resp = 404 then throwI (Error ''link not found'')
       else if rs_status resp = 410 then throwI (Error ''link expired'')
       else if \<not> resp_ok resp then throwI (Error (''HTTP '' @ status_string resp))
       else liftI (resp_json resp))"

text \<open>
  \<open>params\<close>: the stored parameters, parsed when they are a string; a text that does not parse leaves
  the empty object.
\<close>

definition link_params :: "jsval \<Rightarrow> jsval" where
  "link_params j =
     (case getp j ''kdf_params_json'' of
        JStr s \<Rightarrow> if s = [] then JStr [] else (case json_parse s of Some p \<Rightarrow> p | None \<Rightarrow> JObj [])
      | v \<Rightarrow> v)"

record unlocked =
  ul_text :: string
  ul_viewsRemaining :: jsval
  ul_burned :: jsval

text \<open>From the answer to the plain text; the password is used here and nowhere else.\<close>

definition decrypt_link :: "open_env \<Rightarrow> string \<Rightarrow> jsval \<Rightarrow> unlocked result" where
  "decrypt_link env password j =
     bindR (bindR (getR j ''kdf_salt_b64'') open_b64ToBytes) (\<lambda>salt.
     bindR (open_b64ToBytes (getp j ''wrapped_msg_key_b64'')) (\<lambda>wrapped.
     bindR (open_b64ToBytes (getp j ''ciphertext_b64'')) (\<lambda>cipher.
     bindR (open_deriveKEK env password salt (getp j ''kdf'') (link_params j)) (\<lambda>kek.
     bindR (open_aesUnwrap env kek wrapped) (\<lambda>msgKey.
     bindR (aesOpen env msgKey cipher) (\<lambda>plain.
     Inr \<lparr>ul_text = bytesToUtf8 env plain, ul_viewsRemaining = getp j ''views_remaining'', ul_burned = getp j ''burned''\<rparr>))))))"

text \<open>The em dash of the message for status 429 is written as a hyphen.\<close>

definition open_answer :: "http_response \<Rightarrow> jsval result" where
  "open_answer resp =
     (if rs_status resp = 410 then Inl (Error ''link expired or all views consumed'')
      else if rs_status resp = 404 then Inl (Error ''link not found'')
      else if rs_status resp = 429 then Inl (Error ''too many attempts - slow down'')
      else if \<not> resp_ok resp then Inl (Error (''HTTP '' @ status_string resp))
      else resp_json resp)"

definition open_request :: "string \<Rightarrow> http_request" where
  "open_request token = \<lparr>rq_method = POST, rq_url = link_path token ''/open'', rq_body = Some ''{}''\<rparr>"

definition unlockAndDecrypt :: "open_env \<Rightarrow> 's server \<Rightarrow> string \<Rightarrow> string \<Rightarrow> ('s, unlocked) io" where
  "unlockAndDecrypt env srv token password =
     bindI (fetch srv (open_request token)) (\<lambda>resp.
     bindI (liftI (open_answer resp)) (\<lambda>j. liftI (decrypt_link env password j)))"

section \<open>The page\<close>

text \<open>
  The text of the status line. \<open>Loading\<close> is the text the document comes with.
\<close>

datatype page_status =
  Loading | StatusError | Burned | Locked | Decrypting | BurnedLastView | ViewsRemain string | Decrypted

record page =
  pg_status :: page_status
  pg_err :: string
  pg_meta_hidden :: bool
  pg_subject :: string
  pg_expires :: string
  pg_views_hidden :: bool
  pg_views :: string
  pg_locked_hidden :: bool
  pg_burned_hidden :: bool
  pg_burned_msg :: "string option"             \<comment> \<open>\<open>None\<close>: the text of the document\<close>
  pg_decrypted_hidden :: bool
  pg_pre_hidden :: bool
  pg_pre :: string
  pg_host_hidden :: bool
  pg_frame :: "string option"                  \<comment> \<open>the document of the sandboxed frame\<close>
  pg_attachments_hidden :: bool
  pg_attachments :: "(string \<times> string) list"  \<comment> \<open>name and description of each row\<close>
  pg_btn_disabled :: bool
  pg_listening :: bool                         \<comment> \<open>the form has its submit handler\<close>

definition initial_page :: page where
  "initial_page =
     \<lparr>pg_status = Loading, pg_err = [], pg_meta_hidden = True, pg_subject = [], pg_expires = [], pg_views_hidden = True,
      pg_views = [], pg_locked_hidden = False, pg_burned_hidden = True, pg_burned_msg = None, pg_decrypted_hidden = True,
      pg_pre_hidden = False, pg_pre = [], pg_host_hidden = True, pg_frame = None, pg_attachments_hidden = True,
      pg_attachments = [], pg_btn_disabled = False, pg_listening = False\<rparr>"

definition error_message :: "exn \<Rightarrow> string" where
  "error_message e = (case e of Error m \<Rightarrow> (if m \<noteq> [] then m else ''Error'') | TypeError \<Rightarrow> ''TypeError''
     | RangeError \<Rightarrow> ''RangeError'' | DOMError n \<Rightarrow> n)"

definition setStatus :: "page_status \<Rightarrow> page \<Rightarrow> page" where
  "setStatus s p = p\<lparr>pg_status := s\<rparr>"

definition setErr :: "string \<Rightarrow> page \<Rightarrow> page" where
  "setErr s p = p\<lparr>pg_err := s\<rparr>"

text \<open>\<open>FRAME_HEAD\<close> is the constant head of the frame's document, with its content security policy.\<close>

definition apostrophe :: string where
  "apostrophe = [char_of (39 :: nat)]"

definition FRAME_HEAD :: string where
  "FRAME_HEAD =
     ''<!DOCTYPE html><meta charset=\"utf-8\"><meta http-equiv=\"Content-Security-Policy\" content=\"default-src ''
     @ apostrophe @ ''none'' @ apostrophe @ ''; style-src '' @ apostrophe @ ''unsafe-inline'' @ apostrophe
     @ ''; img-src data: https:; base-uri '' @ apostrophe @ ''none'' @ apostrophe
     @ ''\"><style>body{font-family:system-ui,Segoe UI,sans-serif;margin:12px;line-height:1.45;word-break:break-word;}</style>''"

definition renderDecryptedBody :: "open_env \<Rightarrow> mime_entity \<Rightarrow> page \<Rightarrow> page" where
  "renderDecryptedBody env envelope p =
     (let htmlTrim = trim (me_bodyHtml envelope);
          plain = p\<lparr>pg_host_hidden := True, pg_frame := None, pg_pre_hidden := False, pg_pre := me_bodyText envelope\<rparr> in
      case oe_purify env of
        None \<Rightarrow> plain
      | Some sanitize \<Rightarrow>
          if htmlTrim = [] then plain
          else p\<lparr>pg_pre_hidden := True, pg_pre := [], pg_host_hidden := False,
                 pg_frame := Some (FRAME_HEAD @ sanitize htmlTrim)\<rparr>)"

definition attachment_row :: "attachment \<Rightarrow> string \<times> string" where
  "attachment_row a =
     (if at_fileName a \<noteq> [] then at_fileName a else ''attachment.bin'',
      (if at_contentType a \<noteq> [] then at_contentType a else ''application/octet-stream'')
        @ '' '' @ [char_of (183 :: nat)] @ '' '' @ formatBytes (length (at_bytes a)))"

definition renderAttachments :: "attachment list \<Rightarrow> page \<Rightarrow> page" where
  "renderAttachments atts p = p\<lparr>pg_attachments_hidden := (atts = []), pg_attachments := map attachment_row atts\<rparr>"

text \<open>\<open>renderMeta\<close> shows the block first, and throws on a \<open>null\<close> answer after that.\<close>

definition typeof_number :: "jsval \<Rightarrow> bool" where
  "typeof_number v = (case v of JNum _ \<Rightarrow> True | _ \<Rightarrow> False)"

definition renderMeta :: "open_env \<Rightarrow> jsval \<Rightarrow> page \<Rightarrow> unit result \<times> page" where
  "renderMeta env meta p =
     (let p0 = p\<lparr>pg_meta_hidden := False\<rparr> in
      if nullish meta then (Inl TypeError, p0)
      else
        (let views = getp meta ''views_remaining'';
             p1 = p0\<lparr>pg_subject := to_string (js_or (getp meta ''subject_hint'') (JStr ''(no subject)''))\<rparr>;
             p2 = (if truthy (getp meta ''expires_at'') then p1\<lparr>pg_expires := oe_localeString env (getp meta ''expires_at'')\<rparr> else p1);
             p3 = (if typeof_number views
                   then p2\<lparr>pg_views_hidden := False, pg_views := to_string views @ '' of '' @ to_string (getp meta ''max_views'')\<rparr>
                   else p2)
         in (Inr (), if truthy (getp meta ''expired'')
                     then setStatus Burned (p3\<lparr>pg_locked_hidden := True, pg_burned_hidden := False\<rparr>)
                     else setStatus Locked p3)))"

definition load_failed :: "exn \<Rightarrow> page \<Rightarrow> page" where
  "load_failed e p =
     (setStatus StatusError p)\<lparr>pg_locked_hidden := True, pg_burned_hidden := False,
        pg_burned_msg := Some (error_message e)\<rparr>"

definition open_init :: "open_env \<Rightarrow> 's server \<Rightarrow> page \<times> 's \<Rightarrow> page \<times> 's" where
  "open_init env srv st =
     (let token = readToken env; (p, s) = st in
      if token = [] then (setErr ''no token in URL'' (setStatus StatusError p), s)
      else
        (case loadMeta srv token s of
           (Inl e, s') \<Rightarrow> (load_failed e p, s')
         | (Inr meta, s') \<Rightarrow>
             (case renderMeta env meta p of
                (Inl e, p') \<Rightarrow> (load_failed e p', s')
              | (Inr _, p') \<Rightarrow> (p'\<lparr>pg_listening := True\<rparr>, s'))))"

text \<open>The status after a successful opening.\<close>

definition opened_status :: "unlocked \<Rightarrow> page_status" where
  "opened_status r =
     (if truthy (ul_burned r) then BurnedLastView
      else if typeof_number (ul_viewsRemaining r) \<and> \<not> num_less (to_number (ul_viewsRemaining r)) (Fin 0)
              \<and> to_number (ul_viewsRemaining r) \<noteq> NaN
      then ViewsRemain (to_string (ul_viewsRemaining r))
      else Decrypted)"

definition show_message :: "open_env \<Rightarrow> unlocked \<Rightarrow> mime_entity \<Rightarrow> page \<Rightarrow> page" where
  "show_message env r envelope p =
     setStatus (opened_status r)
       (renderAttachments (me_attachments envelope)
         (renderDecryptedBody env envelope (p\<lparr>pg_locked_hidden := True, pg_decrypted_hidden := False\<rparr>)))"

definition on_submit :: "open_env \<Rightarrow> 's server \<Rightarrow> string \<Rightarrow> page \<times> 's \<Rightarrow> page \<times> 's" where
  "on_submit env srv pw st =
     (let (p, s) = st in
      if pw = [] then (setErr ''password required'' p, s)
      else
        (let p0 = setStatus Decrypting (setErr [] (p\<lparr>pg_btn_disabled := True\<rparr>));
             failed = (\<lambda>e. (setErr (error_message e) (setStatus Locked p0))\<lparr>pg_btn_disabled := False\<rparr>)
         in
         case unlockAndDecrypt env srv (readToken env) pw s of
           (Inl e, s') \<Rightarrow> (failed e, s')
         | (Inr r, s') \<Rightarrow>
             (case parseMimeEnvelope env (ul_text r) of
                Inl e \<Rightarrow> (failed e, s')
              | Inr envelope \<Rightarrow> ((show_message env r envelope p0)\<lparr>pg_btn_disabled := False\<rparr>, s'))))"

end
