(* ===== verification/Key_Vault.thy ===== *)
theory Key_Vault
  imports Keygen Vault_Mime Web_Storage
begin

text \<open>
  \<^verbatim>\<open>static/auth/unlock.js\<close>: the key vault. Its state is the object \<open>state\<close> of the source together with
  the two storages of the browser; operations that only change it are functions on it, operations
  that also fetch are computations over the vault and the server. openpgp, WebCrypto and the text
  decoder are parameters; \<open>now\<close> stands for \<open>Date.now()\<close>. The functions \<open>storage\<close> and
  \<open>readTrustedDeviceFlag\<close> call each other without end, so they are modelled with the number of stack
  frames that are left: with none left a call throws \<open>RangeError\<close>, as the engine does.
\<close>

section \<open>Libraries\<close>

text \<open>
  A signature as openpgp returns it: its key id, if it has one, and its promise \<open>verified\<close>: missing,
  fulfilled, or rejected with an exception.
\<close>

datatype verified = NoPromise | Fulfilled | RejectedWith exn

record pgp_signature =
  sg_keyID :: "string option"
  sg_verified :: verified

text \<open>Keys and messages are handles; a private key handle can be read, armored and used to decrypt.\<close>

record pgp =
  pg_readPrivateKey :: "string \<Rightarrow> string result"
  pg_readKey :: "string \<Rightarrow> string result"
  pg_readKeys :: "(string \<Rightarrow> string list result) option"     \<comment> \<open>missing in old versions\<close>
  pg_privFingerprint :: "string \<Rightarrow> string"
  pg_keyFingerprint :: "string \<Rightarrow> string result"
  pg_armor :: "string \<Rightarrow> string"
  pg_encryptKey :: "string \<Rightarrow> string \<Rightarrow> string result"        \<comment> \<open>key, passphrase\<close>
  pg_readMessage :: "pgp_input \<Rightarrow> string result"
  pg_decrypt :: "string \<Rightarrow> string \<Rightarrow> string list \<Rightarrow> (string \<times> pgp_signature list) result"
  pg_encrypt :: "ciphertext \<Rightarrow> string \<Rightarrow> string option \<Rightarrow> string result"   \<comment> \<open>plain text, recipient, signer\<close>
  pg_verifyDetached :: "string \<Rightarrow> bytes \<Rightarrow> string list \<Rightarrow> pgp_signature list result"
  pg_verifyCleartext :: "(string \<Rightarrow> string list \<Rightarrow> pgp_signature list result) option"

record vault_env =
  ve_cr :: crypto
  ve_pg :: pgp
  ve_td :: "bytes \<Rightarrow> string"
  ve_sha :: "bytes \<Rightarrow> bytes"
  ve_depth :: nat     \<comment> \<open>free stack frames, beyond the three every call has\<close>

section \<open>State\<close>

definition DEFAULT_IDLE_MS :: int where
  "DEFAULT_IDLE_MS = 15 * 60 * 1000"

definition TRUSTED_IDLE_MS :: int where
  "TRUSTED_IDLE_MS = 14 * 24 * 60 * 60 * 1000"

definition PERSIST_KEY :: string where
  "PERSIST_KEY = ''elvish-keyvault-account-v1''"

definition TRUSTED_DEVICE_KEY :: string where
  "TRUSTED_DEVICE_KEY = ''elvish-trusted-device-v1''"

record vault_ident =
  vi_email :: jsval
  vi_privateKey :: string
  vi_publicKey :: string
  vi_armoredPub :: string
  vi_armoredPriv :: string

text \<open>\<open>v_timer\<close> is the time at which the pending timer fires, \<open>v_purges\<close> counts purges of the mail cache.\<close>

record vault =
  v_accountPrivateKey :: "string option"
  v_accountPublicKey :: "string option"
  v_accountArmoredPriv :: string
  v_accountFingerprint :: string
  v_identities :: "(string \<times> vault_ident) list"
  v_defaultIdentityFingerprint :: string
  v_lastTouchMs :: int
  v_idleMs :: int
  v_timer :: "int option"
  v_session :: "web_storage option"
  v_local :: "web_storage option"
  v_purges :: nat

definition initial_vault :: "web_storage option \<Rightarrow> web_storage option \<Rightarrow> vault" where
  "initial_vault ses loc =
     \<lparr>v_accountPrivateKey = None, v_accountPublicKey = None, v_accountArmoredPriv = [],
      v_accountFingerprint = [], v_identities = [], v_defaultIdentityFingerprint = [],
      v_lastTouchMs = 0, v_idleMs = DEFAULT_IDLE_MS, v_timer = None,
      v_session = ses, v_local = loc, v_purges = 0\<rparr>"

section \<open>Storage and the trusted-device flag\<close>

datatype area = Session | Local

definition area_store :: "vault \<Rightarrow> area \<Rightarrow> web_storage option" where
  "area_store v a = (case a of Session \<Rightarrow> v_session v | Local \<Rightarrow> v_local v)"

definition set_area :: "area \<Rightarrow> web_storage \<Rightarrow> vault \<Rightarrow> vault" where
  "set_area a w v = (case a of Session \<Rightarrow> v\<lparr>v_session := Some w\<rparr> | Local \<Rightarrow> v\<lparr>v_local := Some w\<rparr>)"

definition flag_in :: "vault \<Rightarrow> area \<Rightarrow> bool" where
  "flag_in v a =
     (case area_store v a of
        None \<Rightarrow> False
      | Some w \<Rightarrow> (case getItem w TRUSTED_DEVICE_KEY of Inl _ \<Rightarrow> False | Inr x \<Rightarrow> x = Some ''1''))"

fun storage :: "vault \<Rightarrow> nat \<Rightarrow> area option result"
  and readTrustedDeviceFlag :: "vault \<Rightarrow> nat \<Rightarrow> bool result" where
  "storage v 0 = Inl RangeError"
| "storage v (Suc n) =
     (case readTrustedDeviceFlag v n of
        Inl _ \<Rightarrow> Inr None
      | Inr b \<Rightarrow>
          Inr (if b then (if v_local v = None then None else Some Local)
               else (if v_session v = None then None else Some Session)))"
| "readTrustedDeviceFlag v 0 = Inl RangeError"
| "readTrustedDeviceFlag v (Suc n) =
     (case storage v n of
        Inl e \<Rightarrow> Inl e
      | Inr None \<Rightarrow> Inr False
      | Inr (Some a) \<Rightarrow> Inr (flag_in v a))"

definition the_storage :: "vault_env \<Rightarrow> vault \<Rightarrow> area option" where
  "the_storage env v = (case storage v (ve_depth env + 3) of Inr a \<Rightarrow> a | Inl _ \<Rightarrow> None)"

definition isTrustedDevice :: "vault_env \<Rightarrow> vault \<Rightarrow> bool" where
  "isTrustedDevice env v = (case readTrustedDeviceFlag v (ve_depth env + 3) of Inr b \<Rightarrow> b | Inl _ \<Rightarrow> False)"

text \<open>\<open>try { s.setItem(k, x) } catch (_) {}\<close> and the same with \<open>removeItem\<close>.\<close>

definition try_set :: "area \<Rightarrow> string \<Rightarrow> string \<Rightarrow> vault \<Rightarrow> vault" where
  "try_set a k x v =
     (case area_store v a of
        None \<Rightarrow> v
      | Some w \<Rightarrow> (case setItem w k x of Inl _ \<Rightarrow> v | Inr w' \<Rightarrow> set_area a w' v))"

definition try_remove :: "area \<Rightarrow> string \<Rightarrow> vault \<Rightarrow> vault" where
  "try_remove a k v =
     (case area_store v a of
        None \<Rightarrow> v
      | Some w \<Rightarrow> (case removeItem w k of Inl _ \<Rightarrow> v | Inr w' \<Rightarrow> set_area a w' v))"

definition clearAllPersistedCaches :: "vault \<Rightarrow> vault" where
  "clearAllPersistedCaches v = try_remove Local PERSIST_KEY (try_remove Session PERSIST_KEY v)"

definition clearPersistedAccountCache :: "vault \<Rightarrow> vault" where
  "clearPersistedAccountCache v = clearAllPersistedCaches v"

definition normalizeEmail :: "jsval \<Rightarrow> string" where
  "normalizeEmail email = toLowerCase (trim (str_or_empty email))"

definition account_cache :: "vault_env \<Rightarrow> int \<Rightarrow> vault \<Rightarrow> jsval \<Rightarrow> string \<Rightarrow> jsval" where
  "account_cache env now v sessionEmail accountArmoredPub =
     JObj [(''version'', jint 1),
           (''sessionEmail'', JStr (normalizeEmail sessionEmail)),
           (''accountArmoredPriv'', JStr (v_accountArmoredPriv v)),
           (''accountArmoredPub'', JStr accountArmoredPub),
           (''accountFingerprint'', JStr (v_accountFingerprint v)),
           (''storedAtMs'', jint now),
           (''trustedDevice'', JBool (isTrustedDevice env v))]"

definition persistAccountCache :: "vault_env \<Rightarrow> int \<Rightarrow> jsval \<Rightarrow> string \<Rightarrow> vault \<Rightarrow> vault" where
  "persistAccountCache env now sessionEmail accountArmoredPub v =
     (case the_storage env v of
        None \<Rightarrow> v
      | Some a \<Rightarrow>
          if v_accountArmoredPriv v = [] \<or> accountArmoredPub = [] then v
          else try_set a PERSIST_KEY (json_str (account_cache env now v sessionEmail accountArmoredPub)) v)"

definition clearTrustedDeviceFlag :: "vault_env \<Rightarrow> vault \<Rightarrow> vault" where
  "clearTrustedDeviceFlag env v =
     (case the_storage env v of None \<Rightarrow> v | Some a \<Rightarrow> try_remove a TRUSTED_DEVICE_KEY v)"

section \<open>Idle time and locking\<close>

definition touch :: "int \<Rightarrow> vault \<Rightarrow> vault" where
  "touch now v = v\<lparr>v_lastTouchMs := now, v_timer := Some (now + v_idleMs v)\<rparr>"

definition vault_zero :: "vault_env \<Rightarrow> bool \<Rightarrow> bool \<Rightarrow> bool \<Rightarrow> vault \<Rightarrow> vault" where
  "vault_zero env hasMailCache clearPersisted clearTrusted v =
     (let v1 = v\<lparr>v_accountPrivateKey := None, v_accountPublicKey := None, v_accountArmoredPriv := [],
               v_accountFingerprint := [], v_identities := [], v_defaultIdentityFingerprint := [],
               v_lastTouchMs := 0, v_timer := None\<rparr>;
          v2 = (if clearPersisted then
                  (let v' = clearPersistedAccountCache v1 in
                   if clearTrusted then clearTrustedDeviceFlag env v' else v')
                else v1)
      in if clearPersisted \<and> hasMailCache then v2\<lparr>v_purges := v_purges v2 + 1\<rparr> else v2)"

definition setIdleMs :: "int \<Rightarrow> vault \<Rightarrow> vault" where
  "setIdleMs ms v = v\<lparr>v_idleMs := max (60 * 1000) (if ms = 0 then DEFAULT_IDLE_MS else ms)\<rparr>"

definition applyTrustedIdlePreference :: "vault_env \<Rightarrow> int \<Rightarrow> vault \<Rightarrow> vault" where
  "applyTrustedIdlePreference env now v =
     (let v1 = setIdleMs (if isTrustedDevice env v then TRUSTED_IDLE_MS else DEFAULT_IDLE_MS) v in
      if v_accountPrivateKey v1 \<noteq> None then touch now v1 else v1)"

definition setTrustedDevice :: "vault_env \<Rightarrow> int \<Rightarrow> bool \<Rightarrow> vault \<Rightarrow> vault" where
  "setTrustedDevice env now enabled v =
     (let v1 = (case the_storage env v of
                  None \<Rightarrow> v
                | Some a \<Rightarrow> if enabled then try_set a TRUSTED_DEVICE_KEY ''1'' v
                            else try_remove a TRUSTED_DEVICE_KEY v)
      in applyTrustedIdlePreference env now v1)"

definition getKeyVaultIdleMs :: "vault \<Rightarrow> int" where
  "getKeyVaultIdleMs v = v_idleMs v"

text \<open>The timer that \<open>touch\<close> set fires.\<close>

definition idle_timeout :: "vault_env \<Rightarrow> vault \<Rightarrow> vault" where
  "idle_timeout env v = vault_zero env True False False v"

section \<open>The persisted account\<close>

definition cache_in :: "vault \<Rightarrow> area \<Rightarrow> jsval option" where
  "cache_in v a =
     (case area_store v a of
        None \<Rightarrow> None
      | Some w \<Rightarrow>
          (case getItem w PERSIST_KEY of
             Inl _ \<Rightarrow> None
           | Inr None \<Rightarrow> None
           | Inr (Some raw) \<Rightarrow>
               if raw = [] then None
               else
                 (case json_parse raw of
                    None \<Rightarrow> None
                  | Some parsed \<Rightarrow>
                      if \<not> truthy parsed \<or> \<not> strict_eq (getp parsed ''version'') (jint 1) then None
                      else if \<not> truthy (getp parsed ''accountArmoredPriv'') \<or> \<not> truthy (getp parsed ''accountArmoredPub'')
                      then None
                      else Some parsed)))"

definition readPersistedAccountCache :: "vault_env \<Rightarrow> vault \<Rightarrow> jsval option \<times> vault" where
  "readPersistedAccountCache env v =
     (let stores = (if isTrustedDevice env v then [Local, Session] else [Session, Local]) in
      case first_some (cache_in v) stores of
        Some parsed \<Rightarrow> (Some parsed, v)
      | None \<Rightarrow> (None, clearAllPersistedCaches v))"

section \<open>Fingerprints\<close>

definition normalizeFingerprint :: "jsval \<Rightarrow> string" where
  "normalizeFingerprint fp = toUpperCase (filter (\<lambda>c. \<not> is_space c) (str_or_empty fp))"

definition fingerprintKeyId16 :: "jsval \<Rightarrow> string" where
  "fingerprintKeyId16 fp =
     (let x = normalizeFingerprint fp in
      if x = [] then [] else if length x \<le> 16 then x else slice_from (-16) x)"

definition fingerprintsEquivalent :: "jsval \<Rightarrow> jsval \<Rightarrow> bool" where
  "fingerprintsEquivalent a b =
     (let x = normalizeFingerprint a; y = normalizeFingerprint b in
      if x = [] \<or> y = [] then False
      else if x = y then True
      else fingerprintKeyId16 (JStr x) = fingerprintKeyId16 (JStr y))"

section \<open>Unlocking the account\<close>

definition incorrect_password :: exn where
  "incorrect_password = Error ''Incorrect password.''"

definition hydrateUnlockedAccount ::
  "vault_env \<Rightarrow> int \<Rightarrow> string \<Rightarrow> string \<Rightarrow> jsval \<Rightarrow> vault \<Rightarrow> string result \<times> vault" where
  "hydrateUnlockedAccount env now armoredPriv armoredPub expectedFingerprint v =
     (if \<not> cr_openpgp_defined (ve_cr env) then (Inl (Error ''openpgp.js not loaded''), v)
      else
        (case pg_readPrivateKey (ve_pg env) armoredPriv of
           Inl _ \<Rightarrow> (Inl incorrect_password, v)
         | Inr priv \<Rightarrow>
             (case pgpFingerprint (ve_cr env) armoredPub of
                Inl e \<Rightarrow> (Inl e, v)
              | Inr fp \<Rightarrow>
                  (let fpPub = normalizeFingerprint (JStr fp) in
                   if truthy expectedFingerprint \<and> \<not> fingerprintsEquivalent expectedFingerprint (JStr fpPub)
                   then (Inl (Error ''Account key metadata mismatch.''), v)
                   else
                     (let privFp = normalizeFingerprint (JStr (pg_privFingerprint (ve_pg env) priv)) in
                      if fpPub = [] \<or> privFp \<noteq> fpPub then (Inl incorrect_password, v)
                      else
                        (let v1 = v\<lparr>v_accountPrivateKey := Some priv\<rparr> in
                         case pg_readKey (ve_pg env) armoredPub of
                           Inl e \<Rightarrow> (Inl e, v1)
                         | Inr pub \<Rightarrow>
                             (Inr fpPub,
                              touch now (v1\<lparr>v_accountPublicKey := Some pub, v_accountArmoredPriv := armoredPriv,
                                           v_accountFingerprint := fpPub, v_identities := [],
                                           v_defaultIdentityFingerprint := []\<rparr>))))))))"

definition unwrap_account :: "vault_env \<Rightarrow> jsval \<Rightarrow> string \<Rightarrow> string result" where
  "unwrap_account env meRow password =
     (let cr = ve_cr env; kdfParams = parse_kdf_params (getp meRow ''kdf_params_json'') in
      bindR (kg_b64ToBytes (getp meRow ''kdf_salt_b64'')) (\<lambda>salt.
      bindR (deriveKEK cr password salt (getp meRow ''kdf'') kdfParams) (\<lambda>k.
      bindR (kg_b64ToBytes (getp meRow ''wrapped_secret_b64'')) (\<lambda>wrapped.
      case aesUnwrap cr (d_key k) wrapped of
        Inl _ \<Rightarrow> Inl incorrect_password
      | Inr p \<Rightarrow> Inr (ve_td env p)))))"

text \<open>\<open>sessionEmail\<close> is \<open>opts && opts.sessionEmail\<close>.\<close>

definition unlockAccount ::
  "vault_env \<Rightarrow> int \<Rightarrow> jsval \<Rightarrow> string \<Rightarrow> jsval \<Rightarrow> vault \<Rightarrow> string result \<times> vault" where
  "unlockAccount env now meRow password sessionEmail v =
     (if \<not> cr_openpgp_defined (ve_cr env) then (Inl (Error ''openpgp.js not loaded''), v)
      else if nullish meRow then (Inl TypeError, v)
      else
        (case unwrap_account env meRow password of
           Inl e \<Rightarrow> (Inl e, v)
         | Inr armoredPriv \<Rightarrow>
             (let pub = to_string (getp meRow ''armored_public'') in
              case hydrateUnlockedAccount env now armoredPriv pub (getp meRow ''fingerprint'') v of
                (Inl e, v1) \<Rightarrow> (Inl e, v1)
              | (Inr fp, v1) \<Rightarrow>
                  (Inr fp, persistAccountCache env now sessionEmail (str_or_empty (getp meRow ''armored_public'')) v1))))"

definition tryRestoreAccountFromSession ::
  "vault_env \<Rightarrow> int \<Rightarrow> jsval \<Rightarrow> vault \<Rightarrow> bool \<times> vault" where
  "tryRestoreAccountFromSession env now sessionEmail v =
     (case readPersistedAccountCache env v of
        (None, v1) \<Rightarrow> (False, v1)
      | (Some cached, v1) \<Rightarrow>
          (let expectedEmail = normalizeEmail sessionEmail in
           if expectedEmail \<noteq> [] \<and> \<not> strict_eq (getp cached ''sessionEmail'') (JStr expectedEmail)
           then (False, clearPersistedAccountCache v1)
           else
             (case hydrateUnlockedAccount env now (to_string (getp cached ''accountArmoredPriv''))
                     (to_string (getp cached ''accountArmoredPub'')) (getp cached ''accountFingerprint'') v1 of
                (Inr _, v2) \<Rightarrow> (True, v2)
              | (Inl _, v2) \<Rightarrow> (False, vault_zero env True False False (clearPersistedAccountCache v2)))))"

definition isUnlocked :: "vault \<Rightarrow> bool" where
  "isUnlocked v = (v_accountPrivateKey v \<noteq> None)"

definition vault_fingerprint :: "vault \<Rightarrow> string" where
  "vault_fingerprint v = v_accountFingerprint v"

section \<open>Identities\<close>

text \<open>\<open>idRow.wrapped_secret_armored || ""\<close>, or the decoded \<open>wrapped_secret_b64\<close>.\<close>

definition wrapped_armored :: "vault_env \<Rightarrow> jsval \<Rightarrow> string result" where
  "wrapped_armored env idRow =
     (let a = str_or_empty (getp idRow ''wrapped_secret_armored'') in
      if a = [] \<and> truthy (getp idRow ''wrapped_secret_b64'') then
        bindR (kg_b64ToBytes (getp idRow ''wrapped_secret_b64'')) (\<lambda>bs. Inr (ve_td env bs))
      else Inr a)"

text \<open>Everything of \<open>unlockIdentity\<close> that may throw: the key of the map and the entry for it.\<close>

definition open_identity :: "vault_env \<Rightarrow> string \<Rightarrow> jsval \<Rightarrow> (string \<times> vault_ident) result" where
  "open_identity env accountKey idRow =
     (let pg = ve_pg env; pub = to_string (getp idRow ''armored_public'') in
      bindR (wrapped_armored env idRow) (\<lambda>armoredWrapped.
      if armoredWrapped = [] then Inl (Error ''identity has no wrapped private key'')
      else
      bindR (pg_readMessage pg (ArmoredMessage armoredWrapped)) (\<lambda>message.
      bindR (pg_decrypt pg message accountKey []) (\<lambda>(armoredPriv, _).
      bindR (pg_readPrivateKey pg armoredPriv) (\<lambda>privateKey.
      bindR (pg_readKey pg pub) (\<lambda>publicKey.
      bindR (pgpFingerprint (ve_cr env) pub) (\<lambda>fp.
      let idPubFp = normalizeFingerprint (JStr fp) in
      if truthy (getp idRow ''fingerprint'') \<and> \<not> fingerprintsEquivalent (getp idRow ''fingerprint'') (JStr idPubFp)
      then Inl (Error ''identity metadata mismatch'')
      else
        (let idPrivFp = normalizeFingerprint (JStr (pg_privFingerprint pg privateKey)) in
         if idPubFp = [] \<or> idPrivFp \<noteq> idPubFp then Inl (Error ''identity key does not match encrypted blob'')
         else Inr (fingerprintKeyId16 (JStr idPubFp),
                   \<lparr>vi_email = getp idRow ''email'', vi_privateKey = privateKey, vi_publicKey = publicKey,
                    vi_armoredPub = pub, vi_armoredPriv = armoredPriv\<rparr>)))))))))"

definition unlockIdentity :: "vault_env \<Rightarrow> int \<Rightarrow> jsval \<Rightarrow> vault \<Rightarrow> string result \<times> vault" where
  "unlockIdentity env now idRow v =
     (case v_accountPrivateKey v of
        None \<Rightarrow> (Inl (Error ''account locked''), v)
      | Some acc \<Rightarrow>
          if nullish idRow then (Inl TypeError, v)
          else
            (case open_identity env acc idRow of
               Inl e \<Rightarrow> (Inl e, v)
             | Inr (fpKey, ident) \<Rightarrow>
                 (let v1 = v\<lparr>v_identities := AList.update fpKey ident (v_identities v)\<rparr>;
                      v2 = (if truthy (getp idRow ''is_default'') \<or> v_defaultIdentityFingerprint v1 = []
                            then v1\<lparr>v_defaultIdentityFingerprint := fpKey\<rparr> else v1)
                  in (Inr fpKey, touch now v2))))"

definition getIdentity :: "int \<Rightarrow> jsval \<Rightarrow> vault \<Rightarrow> vault_ident option \<times> vault" where
  "getIdentity now fingerprint v =
     (let v1 = touch now v;
          fp = (if truthy fingerprint then to_string fingerprint else v_defaultIdentityFingerprint v1) in
      if fp = [] then (None, v1)
      else
        (let kid = fingerprintKeyId16 (JStr (toUpperCase fp)) in
         (if kid = [] then None else map_of (v_identities v1) kid, v1)))"

fun find_email :: "string \<Rightarrow> (string \<times> vault_ident) list \<Rightarrow> (string \<times> vault_ident) option" where
  "find_email target [] = None"
| "find_email target ((fp, ident) # r) =
     (if normalizeEmail (vi_email ident) \<noteq> target then find_email target r else Some (fp, ident))"

definition getIdentityByEmail :: "int \<Rightarrow> jsval \<Rightarrow> vault \<Rightarrow> (string \<times> vault_ident) option \<times> vault" where
  "getIdentityByEmail now email v =
     (let v1 = touch now v; target = normalizeEmail email in
      (if target = [] then None else find_email target (v_identities v1), v1))"

definition vault_listIdentities :: "int \<Rightarrow> vault \<Rightarrow> (string \<times> jsval \<times> string) list \<times> vault" where
  "vault_listIdentities now v =
     (let v1 = touch now v in (map (\<lambda>(fp, i). (fp, vi_email i, vi_armoredPub i)) (v_identities v1), v1))"

section \<open>Seeds\<close>

definition labelled_digest :: "vault_env \<Rightarrow> string \<Rightarrow> string \<Rightarrow> bytes" where
  "labelled_digest env label body = ve_sha env (utf8_encode label @ utf8_encode body)"

definition deriveIdentitySearchSeed :: "vault_env \<Rightarrow> int \<Rightarrow> jsval \<Rightarrow> vault \<Rightarrow> bytes result \<times> vault" where
  "deriveIdentitySearchSeed env now fingerprint v =
     (case getIdentity now fingerprint v of
        (None, v1) \<Rightarrow> (Inl (Error ''identity not unlocked''), v1)
      | (Some ident, v1) \<Rightarrow>
          if vi_armoredPriv ident = [] then (Inl (Error ''identity not unlocked''), v1)
          else (Inr (labelled_digest env ''elvish-search-seed-v1:'' (vi_armoredPriv ident)), touch now v1))"

definition account_seed :: "vault_env \<Rightarrow> int \<Rightarrow> string \<Rightarrow> vault \<Rightarrow> bytes result \<times> vault" where
  "account_seed env now label v =
     (if v_accountPrivateKey v = None \<or> v_accountArmoredPriv v = [] then (Inl (Error ''account not unlocked''), v)
      else (Inr (labelled_digest env label (v_accountArmoredPriv v)), touch now v))"

definition deriveAccountSenderIconSeed :: "vault_env \<Rightarrow> int \<Rightarrow> vault \<Rightarrow> bytes result \<times> vault" where
  "deriveAccountSenderIconSeed env now v = account_seed env now ''elvish-sender-icon-seed-v1:'' v"

definition deriveAccountMailCacheSeed :: "vault_env \<Rightarrow> int \<Rightarrow> vault \<Rightarrow> bytes result \<times> vault" where
  "deriveAccountMailCacheSeed env now v = account_seed env now ''elvish-mail-cache-seed-v1:'' v"

section \<open>Operations that fetch\<close>

text \<open>The state of a computation: the vault and the server.\<close>

type_synonym ('s, 'a) vio = "(vault \<times> 's, 'a) io"

definition with_vault :: "(vault \<Rightarrow> 'a result \<times> vault) \<Rightarrow> ('s, 'a) vio" where
  "with_vault f st = (case f (fst st) of (r, v) \<Rightarrow> (r, (v, snd st)))"

definition read_vault :: "(vault \<Rightarrow> 'a \<times> vault) \<Rightarrow> ('s, 'a) vio" where
  "read_vault f st = (case f (fst st) of (x, v) \<Rightarrow> (Inr x, (v, snd st)))"

definition fetch_v :: "'s server \<Rightarrow> http_request \<Rightarrow> ('s, http_response) vio" where
  "fetch_v srv rq st = (case srv (snd st) rq of (r, s) \<Rightarrow> (r, (fst st, s)))"

definition fetchIdentityRows :: "'s server \<Rightarrow> ('s, jsval list) vio" where
  "fetchIdentityRows srv =
     bindI (fetch_v srv (get_request ''/api/v1/identities'')) (\<lambda>r.
     if \<not> resp_ok r then throwI (Error (''identities fetch failed ('' @ status_string r @ '')''))
     else bindI (liftI (bindR (resp_json r) (\<lambda>j. getR j ''identities''))) (\<lambda>ids. returnI (js_elems ids)))"

definition get_rows :: "'s server \<Rightarrow> jsval list option \<Rightarrow> ('s, jsval list) vio" where
  "get_rows srv rowsOptional = (case rowsOptional of Some rows \<Rightarrow> returnI rows | None \<Rightarrow> fetchIdentityRows srv)"

text \<open>\<open>rows.find(f)\<close> where \<open>f\<close> may throw.\<close>

fun find_row :: "(jsval \<Rightarrow> bool result) \<Rightarrow> jsval list \<Rightarrow> jsval option result" where
  "find_row f [] = Inr None"
| "find_row f (x # xs) = bindR (f x) (\<lambda>b. if b then Inr (Some x) else find_row f xs)"

definition unlock_row :: "vault_env \<Rightarrow> int \<Rightarrow> jsval option \<Rightarrow> ('s, string) vio" where
  "unlock_row env now row =
     (case row of
        None \<Rightarrow> throwI (Error ''identity not found'')
      | Some r \<Rightarrow>
          if \<not> truthy (getp r ''armored_public'')
             \<or> \<not> truthy (getp r ''wrapped_secret_b64'') \<and> \<not> truthy (getp r ''wrapped_secret_armored'')
          then throwI (Error ''identity has no wrapped secret'')
          else with_vault (unlockIdentity env now r))"

definition ensureIdentityUnlocked ::
  "vault_env \<Rightarrow> 's server \<Rightarrow> int \<Rightarrow> jsval \<Rightarrow> jsval list option \<Rightarrow> ('s, unit) vio" where
  "ensureIdentityUnlocked env srv now fingerprint rowsOptional st =
     (if \<not> isUnlocked (fst st) then throwI (Error ''account locked'') st
      else
        (let fpNorm = toUpperCase (str_or_empty fingerprint) in
         if fpNorm = [] then throwI (Error ''missing identity fingerprint'') st
         else
           (let kid = fingerprintKeyId16 (JStr fpNorm) in
            if kid \<noteq> [] \<and> map_of (v_identities (fst st)) kid \<noteq> None then returnI () st
            else
              bindI (get_rows srv rowsOptional) (\<lambda>rows.
              bindI (liftI (find_row (\<lambda>x. bindR (getR x ''fingerprint'') (\<lambda>fp.
                       Inr (fingerprintsEquivalent fp (JStr fpNorm)))) rows)) (\<lambda>row.
              bindI (unlock_row env now row) (\<lambda>_. returnI ()))) st)))"

definition ensureIdentityUnlockedByEmail ::
  "vault_env \<Rightarrow> 's server \<Rightarrow> int \<Rightarrow> jsval \<Rightarrow> jsval list option \<Rightarrow> ('s, string) vio" where
  "ensureIdentityUnlockedByEmail env srv now email rowsOptional st =
     (if \<not> isUnlocked (fst st) then throwI (Error ''account locked'') st
      else
        (let target = normalizeEmail email in
         if target = [] then throwI (Error ''missing identity email'') st
         else
           bindI (read_vault (getIdentityByEmail now (JStr target))) (\<lambda>existing.
           case existing of
             Some (fp, _) \<Rightarrow>
               if fp \<noteq> [] then returnI fp
               else bindI (get_rows srv rowsOptional) (\<lambda>rows. unlock_row env now
                      (List.find (\<lambda>x. normalizeEmail (if truthy x then getp x ''email'' else x) = target) rows))
           | None \<Rightarrow>
               bindI (get_rows srv rowsOptional) (\<lambda>rows. unlock_row env now
                 (List.find (\<lambda>x. normalizeEmail (if truthy x then getp x ''email'' else x) = target) rows))) st))"

definition exportIdentityPrivateKeyArmored ::
  "vault_env \<Rightarrow> 's server \<Rightarrow> int \<Rightarrow> jsval \<Rightarrow> jsval \<Rightarrow> ('s, string) vio" where
  "exportIdentityPrivateKeyArmored env srv now fingerprint passphraseOpt =
     (if \<not> cr_openpgp_defined (ve_cr env) then throwI (Error ''OpenPGP not loaded'')
      else
        (let fpNorm = JStr (toUpperCase (str_or_empty fingerprint)) in
         bindI (ensureIdentityUnlocked env srv now fpNorm None) (\<lambda>_.
         bindI (read_vault (getIdentity now fpNorm)) (\<lambda>found.
         case found of
           None \<Rightarrow> throwI (Error ''identity private key not available'')
         | Some ident \<Rightarrow>
             (let passphrase = trim (str_nullish passphraseOpt) in
              if passphrase \<noteq> [] then
                (if length passphrase < 8 then throwI (Error ''Export passphrase must be at least 8 characters.'')
                 else bindI (liftI (pg_encryptKey (ve_pg env) (vi_privateKey ident) passphrase)) (\<lambda>encrypted.
                      bindI (read_vault (\<lambda>v. ((), touch now v))) (\<lambda>_. returnI encrypted)))
              else
                bindI (read_vault (\<lambda>v. ((), touch now v))) (\<lambda>_.
                  returnI (if vi_armoredPriv ident \<noteq> [] then vi_armoredPriv ident
                           else pg_armor (ve_pg env) (vi_privateKey ident))))))))"

section \<open>Encryption and decryption\<close>

definition encryptToRecipient :: "vault_env \<Rightarrow> int \<Rightarrow> string \<Rightarrow> ciphertext \<Rightarrow> ('s, string) vio" where
  "encryptToRecipient env now armoredRecipientPub plaintext =
     bindI (read_vault (\<lambda>v. ((), touch now v))) (\<lambda>_.
     bindI (liftI (pg_readKey (ve_pg env) armoredRecipientPub)) (\<lambda>recipient.
     liftI (pg_encrypt (ve_pg env) plaintext recipient None)))"

definition encryptAndSignToRecipient ::
  "vault_env \<Rightarrow> 's server \<Rightarrow> int \<Rightarrow> string \<Rightarrow> ciphertext \<Rightarrow> jsval \<Rightarrow> ('s, string) vio" where
  "encryptAndSignToRecipient env srv now armoredRecipientPub plaintext signerFingerprint =
     (let fpNorm = JStr (toUpperCase (str_or_empty signerFingerprint)) in
      bindI (read_vault (\<lambda>v. ((), touch now v))) (\<lambda>_.
      bindI (ensureIdentityUnlocked env srv now fpNorm None) (\<lambda>_.
      bindI (read_vault (getIdentity now fpNorm)) (\<lambda>found.
      case found of
        None \<Rightarrow> throwI (Error ''no unlocked signing identity'')
      | Some ident \<Rightarrow>
          bindI (liftI (pg_readKey (ve_pg env) armoredRecipientPub)) (\<lambda>recipient.
          liftI (pg_encrypt (ve_pg env) plaintext recipient (Some (vi_privateKey ident))))))))"

definition readVerificationKeys :: "vault_env \<Rightarrow> jsval \<Rightarrow> string list result" where
  "readVerificationKeys env armoredPublicKeys =
     (let source = (if isArray armoredPublicKeys
                    then join [lf] (map to_string (filter truthy (js_elems armoredPublicKeys)))
                    else str_or_empty armoredPublicKeys);
          trimmed = trim source in
      if trimmed = [] then Inr []
      else
        (case pg_readKeys (ve_pg env) of
           Some readKeys \<Rightarrow> readKeys trimmed
         | None \<Rightarrow> bindR (pg_readKey (ve_pg env) trimmed) (\<lambda>k. Inr [k])))"

definition signatureKeyIDHex :: "pgp_signature \<Rightarrow> string" where
  "signatureKeyIDHex s = (case sg_keyID s of Some h \<Rightarrow> toUpperCase h | None \<Rightarrow> [])"

fun fingerprintFromVerificationKeys :: "vault_env \<Rightarrow> string list \<Rightarrow> string list \<Rightarrow> string" where
  "fingerprintFromVerificationKeys env [] ids = []"
| "fingerprintFromVerificationKeys env (key # keys) ids =
     (case pg_keyFingerprint (ve_pg env) key of
        Inl _ \<Rightarrow> fingerprintFromVerificationKeys env keys ids
      | Inr f \<Rightarrow>
          (let fp = normalizeFingerprint (JStr f); ids' = filter (\<lambda>i. i \<noteq> []) ids in
           if fp \<noteq> [] \<and> (ids' = [] \<or> fingerprintKeyId16 (JStr fp) \<in> set ids') then fp
           else fingerprintFromVerificationKeys env keys ids))"

record verification =
  vf_status :: string
  vf_signed :: bool
  vf_signerKeyIDs :: "string list"
  vf_signerFingerprint :: string
  vf_error :: string

fun exn_message :: "exn \<Rightarrow> string" where
  "exn_message (Error m) = (if m \<noteq> [] then m else ''Error'')"
| "exn_message TypeError = ''TypeError''"
| "exn_message RangeError = ''RangeError''"
| "exn_message (DOMError n) = n"

text \<open>The loop over the signatures: \<open>None\<close> when one of them counts as verified, else the first error.\<close>

fun signature_loop :: "pgp_signature list \<Rightarrow> exn option \<Rightarrow> exn option option" where
  "signature_loop [] firstErr = Some firstErr"
| "signature_loop (s # ss) firstErr =
     (case sg_verified s of
        NoPromise \<Rightarrow> None
      | Fulfilled \<Rightarrow> None
      | RejectedWith e \<Rightarrow> signature_loop ss (case firstErr of None \<Rightarrow> Some e | Some x \<Rightarrow> Some x))"

definition summarizeSignatureVerification ::
  "vault_env \<Rightarrow> pgp_signature list \<Rightarrow> string list \<Rightarrow> verification" where
  "summarizeSignatureVerification env signatures verificationKeys =
     (let signerKeyIDs = filter (\<lambda>i. i \<noteq> []) (map signatureKeyIDHex signatures) in
      if signatures = [] then
        \<lparr>vf_status = ''unsigned'', vf_signed = False, vf_signerKeyIDs = [], vf_signerFingerprint = [], vf_error = []\<rparr>
      else if verificationKeys = [] then
        \<lparr>vf_status = ''missing_public_key'', vf_signed = True, vf_signerKeyIDs = signerKeyIDs,
         vf_signerFingerprint = [], vf_error = ''signing key unavailable''\<rparr>
      else
        (let fp = fingerprintFromVerificationKeys env verificationKeys signerKeyIDs in
         case signature_loop signatures None of
           None \<Rightarrow>
             \<lparr>vf_status = ''verified'', vf_signed = True, vf_signerKeyIDs = signerKeyIDs,
              vf_signerFingerprint = fp, vf_error = []\<rparr>
         | Some firstErr \<Rightarrow>
             \<lparr>vf_status = ''bad_signature'', vf_signed = True, vf_signerKeyIDs = signerKeyIDs,
              vf_signerFingerprint = fp,
              vf_error = (case firstErr of Some e \<Rightarrow> exn_message e | None \<Rightarrow> ''signature verification failed'')\<rparr>))"

definition bad_signature :: "string \<Rightarrow> verification" where
  "bad_signature err =
     \<lparr>vf_status = ''bad_signature'', vf_signed = True, vf_signerKeyIDs = [], vf_signerFingerprint = [], vf_error = err\<rparr>"

text \<open>Header and body of an RFC 822 text, at the first empty line.\<close>

definition split_rfc822 :: "string \<Rightarrow> (string \<times> string) option" where
  "split_rfc822 s =
     (let dbl = indexOf s [cr_char, lf, cr_char, lf] in
      if 0 \<le> dbl then Some (slice 0 dbl s, slice_from (dbl + 4) s)
      else
        (let dbln = indexOf s [lf, lf] in
         if dbln < 0 then None else Some (slice 0 dbln s, slice_from (dbln + 2) s)))"

definition verify_multipart_signed :: "vault_env \<Rightarrow> string list \<Rightarrow> string \<Rightarrow> string \<Rightarrow> verification" where
  "verify_multipart_signed env keys ctValue body =
     (let boundary = extractMimeBoundary ctValue in
      if boundary = [] then bad_signature ''multipart/signed missing boundary''
      else
        (case splitMimePartsLoose body boundary of
           signedPart # sigPartRaw # _ \<Rightarrow>
             (case split_rfc822 sigPartRaw of
                None \<Rightarrow> bad_signature ''signature part malformed''
              | Some (_, sigBody) \<Rightarrow>
                  (let sigArmored = extractArmoredDetachedSignatureBlob sigBody in
                   if sigArmored = [] then bad_signature ''missing detached signature''
                   else
                     (case pg_verifyDetached (ve_pg env) sigArmored (utf8_encode signedPart) keys of
                        Inl e \<Rightarrow> bad_signature (exn_message e)
                      | Inr sigs \<Rightarrow> summarizeSignatureVerification env sigs keys)))
         | _ \<Rightarrow> bad_signature ''multipart/signed missing parts''))"

definition verifyNestedSignedPayloadAfterDecrypt ::
  "vault_env \<Rightarrow> string \<Rightarrow> jsval \<Rightarrow> verification option result" where
  "verifyNestedSignedPayloadAfterDecrypt env decryptedRfc822 armoredPublicKeys =
     (if \<not> cr_openpgp_defined (ve_cr env) then Inr None
      else
        bindR (readVerificationKeys env armoredPublicKeys) (\<lambda>keys.
        if keys = [] then Inr None
        else
          (case split_rfc822 decryptedRfc822 of
             None \<Rightarrow> Inr None
           | Some (headerText, body) \<Rightarrow>
               (let ctValue = extractContentTypeValue headerText;
                    mimeRoot = toLowerCase (trim (hd (split_str '';'' ctValue))) in
                if mimeRoot = ''multipart/signed''
                   \<and> (icontains ctValue ''application/pgp-signature'' \<or> icontains ctValue ''application/x-pgp-signature'')
                then Inr (Some (verify_multipart_signed env keys ctValue body))
                else
                  (let cleartextArmored = extractArmoredCleartextSignedBlock (trim_start body) in
                   case (if cleartextArmored \<noteq> [] then pg_verifyCleartext (ve_pg env) else None) of
                     None \<Rightarrow> Inr None
                   | Some verify \<Rightarrow>
                       (case verify cleartextArmored keys of
                          Inl e \<Rightarrow> Inr (Some (bad_signature (exn_message e)))
                        | Inr sigs \<Rightarrow> Inr (Some (summarizeSignatureVerification env sigs keys))))))))"

definition decryptToResult ::
  "vault_env \<Rightarrow> 's server \<Rightarrow> int \<Rightarrow> ciphertext \<Rightarrow> jsval \<Rightarrow> jsval list option \<Rightarrow> jsval
   \<Rightarrow> ('s, string \<times> verification) vio" where
  "decryptToResult env srv now ct fingerprint rowsOptional armoredPublicKeys =
     (let fpNorm = JStr (toUpperCase (str_or_empty fingerprint)) in
      bindI (ensureIdentityUnlocked env srv now fpNorm rowsOptional) (\<lambda>_.
      bindI (read_vault (getIdentity now fpNorm)) (\<lambda>found.
      case found of
        None \<Rightarrow> throwI (Error ''no unlocked identity'')
      | Some ident \<Rightarrow>
          bindI (liftI (bindR (readEncryptedMessage_input (ve_td env) ct) (pg_readMessage (ve_pg env)))) (\<lambda>message.
          bindI (liftI (readVerificationKeys env armoredPublicKeys)) (\<lambda>verificationKeys.
          bindI (liftI (pg_decrypt (ve_pg env) message (vi_privateKey ident) verificationKeys)) (\<lambda>(data, signatures).
          bindI (read_vault (\<lambda>v. ((), touch now v))) (\<lambda>_.
          returnI (data, summarizeSignatureVerification env signatures verificationKeys))))))))"

definition decryptToString ::
  "vault_env \<Rightarrow> 's server \<Rightarrow> int \<Rightarrow> ciphertext \<Rightarrow> jsval \<Rightarrow> jsval list option \<Rightarrow> ('s, string) vio" where
  "decryptToString env srv now ct fingerprint rowsOptional =
     bindI (decryptToResult env srv now ct fingerprint rowsOptional JUndef) (\<lambda>res. returnI (fst res))"

definition decryptForIdentity ::
  "vault_env \<Rightarrow> 's server \<Rightarrow> int \<Rightarrow> jsval \<Rightarrow> bytes \<Rightarrow> ('s, string) vio" where
  "decryptForIdentity env srv now fingerprint ciphertextBytes =
     decryptToString env srv now (CBytes ciphertextBytes) fingerprint None"

definition decryptForIdentityResult ::
  "vault_env \<Rightarrow> 's server \<Rightarrow> int \<Rightarrow> jsval \<Rightarrow> bytes \<Rightarrow> jsval list option \<Rightarrow> jsval \<Rightarrow> ('s, string \<times> verification) vio" where
  "decryptForIdentityResult env srv now fingerprint ciphertextBytes rowsOptional armoredPublicKeys =
     decryptToResult env srv now (CBytes ciphertextBytes) fingerprint rowsOptional armoredPublicKeys"

text \<open>\<open>const i = fps.indexOf(x); if (i > 0) { fps.splice(i, 1); fps.unshift(x); }\<close>\<close>

definition move_to_front :: "string \<Rightarrow> string list \<Rightarrow> string list" where
  "move_to_front x fps = (if x \<in> set fps then x # remove1 x fps else fps)"

definition usable_row :: "jsval \<Rightarrow> bool" where
  "usable_row r =
     (truthy r \<and> truthy (getp r ''armored_public'')
      \<and> (truthy (getp r ''wrapped_secret_b64'') \<or> truthy (getp r ''wrapped_secret_armored'')))"

definition row_fingerprint :: "jsval \<Rightarrow> string" where
  "row_fingerprint r = toUpperCase (str_or_empty (getp r ''fingerprint''))"

definition decrypt_order :: "jsval list \<Rightarrow> vault \<Rightarrow> string list" where
  "decrypt_order rows v =
     (let usable = filter usable_row rows;
          fps = filter (\<lambda>f. f \<noteq> []) (map row_fingerprint usable);
          defFp = (case List.find (\<lambda>r. truthy (getp r ''is_default'')) usable of
                     Some r \<Rightarrow> row_fingerprint r | None \<Rightarrow> []);
          fps1 = (if defFp \<noteq> [] then move_to_front defFp fps else fps)
      in if fps1 = [] then
           (let ks = map fst (v_identities v); d = v_defaultIdentityFingerprint v in
            if d \<noteq> [] then move_to_front d ks else ks)
         else fps1)"

fun try_decrypt :: "vault_env \<Rightarrow> 's server \<Rightarrow> int \<Rightarrow> ciphertext \<Rightarrow> jsval list \<Rightarrow> string list \<Rightarrow> exn option
                    \<Rightarrow> ('s, string \<times> string) vio" where
  "try_decrypt env srv now ct rows [] lastErr =
     throwI (case lastErr of Some e \<Rightarrow> e | None \<Rightarrow> Error ''no identity decrypts message'')"
| "try_decrypt env srv now ct rows (fp # fps) lastErr =
     (\<lambda>st. case decryptToString env srv now ct (JStr fp) (Some rows) st of
        (Inr d, st') \<Rightarrow> (Inr (d, fp), st')
      | (Inl e, st') \<Rightarrow> try_decrypt env srv now ct rows fps (Some e) st')"

definition tryDefaultDecrypt :: "vault_env \<Rightarrow> 's server \<Rightarrow> int \<Rightarrow> ciphertext \<Rightarrow> ('s, string \<times> string) vio" where
  "tryDefaultDecrypt env srv now ct st =
     (if \<not> isUnlocked (fst st) then throwI (Error ''locked'') st
      else
        bindI (fetchIdentityRows srv) (\<lambda>rows.
        (\<lambda>st1. try_decrypt env srv now ct rows (decrypt_order rows (fst st1)) None st1)) st)"

end
