(* ===== verification/Compose.thy ===== *)
theory Compose
  imports Key_Vault Mail_Api
begin

text \<open>
  \<^verbatim>\<open>static/mail/compose.jsx\<close> without its user interface: recipients, headers, the two MIME messages,
  and the two ways of sending, PGP direct and protected link. Random bytes, the clock and the date text
  are arguments. Strings that the form leaves out are empty.
\<close>

section \<open>Passwords\<close>

text \<open>The label of the empty password, an em dash in the source, is a hyphen here.\<close>

definition strength_score :: "string \<Rightarrow> nat" where
  "strength_score pw =
     of_bool (12 \<le> length pw) + of_bool (16 \<le> length pw)
     + of_bool (list_ex (\<lambda>c. is_letter c \<and> code_unit c \<le> 90) pw \<and> list_ex (\<lambda>c. is_letter c \<and> 97 \<le> code_unit c) pw)
     + of_bool (list_ex is_digit pw)
     + of_bool (list_ex (\<lambda>c. \<not> is_letter c \<and> \<not> is_digit c) pw)"

definition passwordStrength :: "string \<Rightarrow> nat \<times> string" where
  "passwordStrength pw =
     (if pw = [] then (0, ''-'')
      else
        (let s = strength_score pw in
         (s, [''weak'', ''weak'', ''ok'', ''good'', ''strong'', ''strong''] ! min s 5)))"

section \<open>Recipients\<close>

definition compose_bytesToB64 :: "bytes \<Rightarrow> string" where
  "compose_bytesToB64 b = btoa (map char_of_byte b)"

text \<open>\<open>cur.replace(/\s+/g, " ").trim()\<close>.\<close>

definition squeeze_space :: "string \<Rightarrow> string" where
  "squeeze_space s = trim (replace_runs is_space '' '' s)"

text \<open>The loop over the characters; a quotation mark is copied without further effect.\<close>

fun address_loop :: "string \<Rightarrow> nat \<Rightarrow> string \<Rightarrow> string list \<Rightarrow> string list" where
  "address_loop [] depth cur parts = (let t = squeeze_space cur in if t \<noteq> [] then parts @ [t] else parts)"
| "address_loop (c # s) depth cur parts =
     (if c = quote then address_loop s depth (cur @ [c]) parts
      else
        (let depth' = (if c = CHR ''<'' then depth + 1 else if c = CHR ''>'' then depth - 1 else depth) in
         if (c = CHR '','' \<or> c = CHR '';'') \<and> depth' = 0 then
           (let t = squeeze_space cur in address_loop s depth' [] (if t \<noteq> [] then parts @ [t] else parts))
         else address_loop s depth' (cur @ [c]) parts))"

definition lf_to_space :: "string \<Rightarrow> string" where
  "lf_to_space s = map (\<lambda>c. if c = lf then CHR '' '' else c) s"

definition splitAddressList :: "string \<Rightarrow> string list" where
  "splitAddressList value = address_loop (trim (lf_to_space (replace_crlf value))) 0 [] []"

text \<open>\<open>/([A-Z0-9._%+-]+@[A-Z0-9.-]+\.[A-Z]{2,})/i\<close>.\<close>

definition bare_char :: "char \<Rightarrow> bool" where
  "bare_char c = (is_letter c \<or> is_digit c \<or> c \<in> set ''._%+-'')"

definition bare_at :: "string \<Rightarrow> string option" where
  "bare_at s =
     (let l = takeWhile bare_char s; r = dropWhile bare_char s in
      if l \<noteq> [] \<and> startsWith r ''@'' then
        (let d = takeWhile domain_char (tl r) in map_option (\<lambda>m. l @ ''@'' @ m) (domain_match (length d) d))
      else None)"

fun bareMatch :: "string \<Rightarrow> string option" where
  "bareMatch [] = None"
| "bareMatch (c # s) = (case bare_at (c # s) of Some a \<Rightarrow> Some a | None \<Rightarrow> bareMatch s)"

definition found_email :: "string \<Rightarrow> string option" where
  "found_email raw =
     map_option (\<lambda>a. toLowerCase (trim a)) (case bracketMatch raw of Some a \<Rightarrow> Some a | None \<Rightarrow> bareMatch raw)"

definition canonicalEmailToken :: "string \<Rightarrow> string" where
  "canonicalEmailToken display =
     (let raw = trim display in
      if raw = [] then [] else (case found_email raw of Some a \<Rightarrow> a | None \<Rightarrow> toLowerCase raw))"

definition toRecipientsForPGP :: "string \<Rightarrow> string list" where
  "toRecipientsForPGP toField = filter (\<lambda>a. a \<noteq> []) (map canonicalEmailToken (splitAddressList toField))"

definition singleComposeRecipient :: "string \<Rightarrow> string" where
  "singleComposeRecipient toField = (case toRecipientsForPGP toField of [x] \<Rightarrow> x | _ \<Rightarrow> [])"

section \<open>Headers\<close>

definition jstrs :: "string list \<Rightarrow> jsval" where
  "jstrs xs = JArr (map JStr xs)"

definition buildHeaderStub ::
  "string \<Rightarrow> string list \<Rightarrow> string list \<Rightarrow> string list \<Rightarrow> string \<Rightarrow> jsval list \<Rightarrow> string \<Rightarrow> string \<Rightarrow> jsval" where
  "buildHeaderStub from to cc bcc subject attachmentSummaries inReplyTo references =
     JObj ([(''subject'', JStr subject), (''from'', JStr from), (''to'', jstrs to), (''cc'', jstrs cc)]
       @ (if bcc \<noteq> [] then [(''bcc'', jstrs bcc)] else [])
       @ (if inReplyTo \<noteq> [] then [(''in_reply_to'', JStr (trim inReplyTo))] else [])
       @ (if references \<noteq> [] then [(''references'', JStr (trim references))] else [])
       @ (if attachmentSummaries \<noteq> [] then [(''attachments'', JArr attachmentSummaries)] else []))"

definition extractPrimaryEmailForFilename :: "string \<Rightarrow> string" where
  "extractPrimaryEmailForFilename fromValue =
     (case found_email (trim fromValue) of Some a \<Rightarrow> a | None \<Rightarrow> ''sender'')"

text \<open>\<open>email.replace(/[^a-z0-9._-]+/gi, "_")\<close>.\<close>

definition publicKeyAscFilename :: "string \<Rightarrow> string" where
  "publicKeyAscFilename fromValue =
     ''public-''
     @ replace_runs (\<lambda>c. \<not> (is_letter c \<or> is_digit c \<or> c \<in> set ''._-'')) ''_'' (extractPrimaryEmailForFilename fromValue)
     @ ''.asc''"

definition cr_to_lf :: "string \<Rightarrow> string" where
  "cr_to_lf s = map (\<lambda>c. if c = cr_char then lf else c) s"

definition lf_to_crlf :: "string \<Rightarrow> string" where
  "lf_to_crlf s = concat (map (\<lambda>c. if c = lf then [cr_char, lf] else [c]) s)"

definition normalizeCRLF :: "string \<Rightarrow> string" where
  "normalizeCRLF s = lf_to_crlf (cr_to_lf (replace_crlf s))"

definition crlf :: string where
  "crlf = [cr_char, lf]"

definition buildSenderPublicKeyAttachmentSummary :: "string \<Rightarrow> string \<Rightarrow> jsval option" where
  "buildSenderPublicKeyAttachmentSummary fromValue armoredPub =
     (let arm = trim armoredPub in
      if arm = [] then None
      else Some (JObj [(''file_name'', JStr (publicKeyAscFilename fromValue)),
             (''content_type'', JStr ''application/pgp-keys''),
             (''size_bytes'', jint (int (length (utf8_encode (normalizeCRLF arm @ crlf)))))]))"

text \<open>\<open>rnd\<close> stands for the bytes that \<open>crypto.getRandomValues\<close> fills in.\<close>

definition randomHex :: "bytes \<Rightarrow> string" where
  "randomHex rnd = concat (map (\<lambda>b. padStart 2 (CHR ''0'') (to_radix 16 (unat b))) rnd)"

text \<open>\<open>/^[^<>\s@]+@([^<>\s@]+)$/\<close>.\<close>

definition direct_domain :: "string \<Rightarrow> string option" where
  "direct_domain raw =
     (let l = takeWhile addr_char raw; r = dropWhile addr_char raw; d = tl r in
      if l \<noteq> [] \<and> startsWith r ''@'' \<and> d \<noteq> [] \<and> list_all addr_char d then Some d else None)"

definition compose_extractDomain :: "string \<Rightarrow> string" where
  "compose_extractDomain from =
     (let raw = trim from in
      case bracketMatch raw of
        Some a \<Rightarrow> toLowerCase (tl (dropWhile (\<lambda>c. c \<noteq> CHR ''@'') a))
      | None \<Rightarrow> (case direct_domain raw of Some d \<Rightarrow> toLowerCase d | None \<Rightarrow> ''elvish.local''))"

section \<open>Messages\<close>

record compose_env =
  ce_now :: nat            \<comment> \<open>\<open>Date.now()\<close>\<close>
  ce_utc :: string         \<comment> \<open>\<open>new Date().toUTCString()\<close>\<close>
  ce_boundary :: bytes     \<comment> \<open>random bytes of the boundaries\<close>
  ce_messageId :: bytes

definition or_anonymous :: "string \<Rightarrow> string" where
  "or_anonymous from = (if from \<noteq> [] then from else ''anonymous'')"

definition strip_final_crlf :: "string \<Rightarrow> string" where
  "strip_final_crlf s = (if endsWith s crlf then take (length s - 2) s else s)"

definition quoted :: "string \<Rightarrow> string" where
  "quoted s = [quote] @ s @ [quote]"

definition opt_line :: "string \<Rightarrow> string \<Rightarrow> string list" where
  "opt_line name v = (if v \<noteq> [] then [name @ '': '' @ v] else [])"

definition non_empty :: "string list \<Rightarrow> string list" where
  "non_empty xs = filter (\<lambda>x. x \<noteq> []) xs"

text \<open>The header lines that depend on the form, and the lines around the ciphertext.\<close>

definition pgp_headers ::
  "compose_env \<Rightarrow> string \<Rightarrow> string list \<Rightarrow> string list \<Rightarrow> string \<Rightarrow> string \<Rightarrow> string \<Rightarrow> string list" where
  "pgp_headers env from to cc subject inReplyTo references =
     [''Message-ID: <'' @ to_radix 10 (ce_now env) @ ''.'' @ randomHex (ce_messageId env) @ ''@'' @ compose_extractDomain from @ ''>'',
      ''Date: '' @ ce_utc env,
      ''From: '' @ or_anonymous from,
      ''To: '' @ join '', '' to]
     @ opt_line ''Cc'' (join '', '' (non_empty cc))
     @ opt_line ''Subject'' subject
     @ opt_line ''In-Reply-To'' (trim inReplyTo)
     @ opt_line ''References'' (trim references)"

definition pgp_preamble :: "string \<Rightarrow> string list" where
  "pgp_preamble boundary =
     [''Content-Type: multipart/encrypted; protocol='' @ quoted ''application/pgp-encrypted''
        @ ''; boundary='' @ quoted boundary,
      ''MIME-Version: 1.0'',
      [],
      ''This is an OpenPGP/MIME encrypted message.'',
      ''--'' @ boundary,
      ''Content-Type: application/pgp-encrypted'',
      ''Content-Description: PGP/MIME version identification'',
      [],
      ''Version: 1'',
      ''--'' @ boundary,
      ''Content-Type: application/octet-stream; name='' @ quoted ''encrypted.asc'',
      ''Content-Disposition: inline; filename='' @ quoted ''encrypted.asc'',
      ''Content-Transfer-Encoding: 7bit'',
      []]"

definition buildPGPMIMEMessage ::
  "compose_env \<Rightarrow> string \<Rightarrow> string list \<Rightarrow> string list \<Rightarrow> string \<Rightarrow> string \<Rightarrow> string \<Rightarrow> string \<Rightarrow> string" where
  "buildPGPMIMEMessage env from to cc subject armoredCiphertext inReplyTo references =
     (let boundary = ''=_elvish_'' @ randomHex (ce_boundary env);
          normalizedCiphertext = strip_final_crlf (normalizeCRLF armoredCiphertext)
      in join crlf
          (pgp_headers env from to cc subject inReplyTo references
           @ pgp_preamble boundary
           @ [normalizedCiphertext, ''--'' @ boundary @ ''--'', []]))"

record rfc_opts =
  ro_attachPublicKey :: bool
  ro_senderArmoredPublic :: string
  ro_ccDisplay :: "string list"
  ro_bccDisplay :: "string list"
  ro_inReplyTo :: string
  ro_references :: string

definition address_headers :: "string list \<Rightarrow> string \<Rightarrow> rfc_opts \<Rightarrow> string list" where
  "address_headers to subject opts =
     [''To: '' @ join '', '' to]
     @ opt_line ''Cc'' (join '', '' (non_empty (ro_ccDisplay opts)))
     @ opt_line ''Bcc'' (join '', '' (non_empty (ro_bccDisplay opts)))
     @ [''Subject: '' @ (if subject \<noteq> [] then subject else ''(no subject)'')]
     @ opt_line ''In-Reply-To'' (trim (ro_inReplyTo opts))
     @ opt_line ''References'' (trim (ro_references opts))"

definition text_plain_header :: string where
  "text_plain_header = ''Content-Type: text/plain; charset='' @ quoted ''utf-8'' @ ''; protected-headers='' @ quoted ''v1''"

definition buildRFC5322 :: "compose_env \<Rightarrow> string \<Rightarrow> string list \<Rightarrow> string \<Rightarrow> string \<Rightarrow> rfc_opts \<Rightarrow> bytes" where
  "buildRFC5322 env from to subject body opts =
     (let head = [''Date: '' @ ce_utc env, ''From: '' @ or_anonymous from] @ address_headers to subject opts in
      if \<not> (ro_attachPublicKey opts \<and> trim (ro_senderArmoredPublic opts) \<noteq> []) then
        utf8_encode (join crlf
          (head @ [text_plain_header, ''Content-Transfer-Encoding: 8bit'', ''MIME-Version: 1.0'', [], body]))
      else
        (let fn = publicKeyAscFilename from;
             boundary = ''=_elvish_mix_'' @ randomHex (ce_boundary env);
             keyBody = strip_final_crlf (normalizeCRLF (trim (ro_senderArmoredPublic opts)))
         in utf8_encode (join crlf
          (head @
           [''MIME-Version: 1.0'',
            ''Content-Type: multipart/mixed; boundary='' @ quoted boundary,
            [],
            ''--'' @ boundary,
            text_plain_header,
            ''Content-Transfer-Encoding: 8bit'',
            [],
            body,
            [],
            ''--'' @ boundary,
            ''Content-Type: application/pgp-keys; name='' @ quoted fn,
            ''Content-Disposition: attachment; filename='' @ quoted fn,
            ''Content-Transfer-Encoding: 7bit'',
            [],
            keyBody,
            [],
            ''--'' @ boundary @ ''--'',
            []]))))"

section \<open>PGP direct\<close>

text \<open>The copies are given as a list or as the text of the field.\<close>

datatype address_arg = AddrList "string list" | AddrText string

fun address_list :: "address_arg \<Rightarrow> string list" where
  "address_list (AddrList xs) = non_empty xs"
| "address_list (AddrText s) = splitAddressList s"

record pgp_form =
  pf_from :: string
  pf_recipient :: string
  pf_subject :: string
  pf_body :: string
  pf_recipientArmored :: string
  pf_senderArmored :: string
  pf_senderFingerprint :: string
  pf_localDelivery :: bool
  pf_attachPublicKey :: bool
  pf_cc :: address_arg
  pf_bcc :: address_arg
  pf_inReplyTo :: string
  pf_references :: string

definition on_server :: "('s, 'a) io \<Rightarrow> ('s, 'a) vio" where
  "on_server m st = (case m (snd st) of (r, s) \<Rightarrow> (r, (fst st, s)))"

definition want_attach :: "pgp_form \<Rightarrow> bool" where
  "want_attach m = (pf_attachPublicKey m \<and> trim (pf_senderArmored m) \<noteq> [])"

definition header_payload :: "pgp_form \<Rightarrow> jsval" where
  "header_payload m =
     buildHeaderStub (pf_from m) [pf_recipient m]
       (non_empty (map canonicalEmailToken (address_list (pf_cc m))))
       (non_empty (map canonicalEmailToken (address_list (pf_bcc m))))
       (pf_subject m)
       (if want_attach m
        then (case buildSenderPublicKeyAttachmentSummary (pf_from m) (pf_senderArmored m) of Some a \<Rightarrow> [a] | None \<Rightarrow> [])
        else [])
       (trim (pf_inReplyTo m)) (trim (pf_references m))"

definition inner_message :: "compose_env \<Rightarrow> pgp_form \<Rightarrow> bytes" where
  "inner_message env m =
     buildRFC5322 env (pf_from m) [pf_recipient m] (pf_subject m) (pf_body m)
       \<lparr>ro_attachPublicKey = want_attach m, ro_senderArmoredPublic = pf_senderArmored m,
        ro_ccDisplay = address_list (pf_cc m), ro_bccDisplay = address_list (pf_bcc m),
        ro_inReplyTo = trim (pf_inReplyTo m), ro_references = trim (pf_references m)\<rparr>"

text \<open>
  \<open>loaded\<close>: openpgp and the vault are there. \<open>inner\<close> and \<open>outer\<close> give clock and random bytes to the
  signed message and to the PGP/MIME message around it.
\<close>

definition sendPGPDirect ::
  "bool \<Rightarrow> vault_env \<Rightarrow> 's server \<Rightarrow> int \<Rightarrow> compose_env \<Rightarrow> compose_env \<Rightarrow> pgp_form \<Rightarrow> ('s, jsval) vio" where
  "sendPGPDirect loaded env srv now inner outer m =
     (if \<not> loaded then throwI (Error ''crypto subsystem not loaded'')
      else
        (let recipients = [pf_recipient m];
             ccList = address_list (pf_cc m);
             headerText = CText (json_str (header_payload m));
             rfc822 = CBytes (inner_message inner m);
             fp = JStr (pf_senderFingerprint m);
             b64 = (\<lambda>t. JStr (compose_bytesToB64 (utf8_encode t)))
         in
         bindI (encryptAndSignToRecipient env srv now (pf_recipientArmored m) rfc822 fp) (\<lambda>armoredBody.
         bindI (if pf_senderArmored m \<noteq> [] then
                  bindI (encryptAndSignToRecipient env srv now (pf_senderArmored m) rfc822 fp) (\<lambda>senderArmoredBody.
                  bindI (encryptToRecipient env now (pf_senderArmored m) headerText) (\<lambda>senderHeader.
                  returnI (b64 senderArmoredBody, b64 senderHeader)))
                else returnI (JStr [], JStr [])) (\<lambda>(senderBodyB64, senderHeaderB64).
         if pf_localDelivery m then
           bindI (encryptToRecipient env now (pf_recipientArmored m) headerText) (\<lambda>headerCiphertext.
           on_server (postEncryptedMessage srv
             \<lparr>em_recipient = JStr (pf_recipient m), em_headerCiphertextB64 = b64 headerCiphertext,
              em_bodyCiphertextB64 = b64 armoredBody, em_senderHeaderCiphertextB64 = senderHeaderB64,
              em_senderBodyCiphertextB64 = senderBodyB64, em_fromAddr = JStr (pf_from m), em_toAddrs = jstrs recipients\<rparr>))
         else
           on_server (postOutbox srv
             (b64 (buildPGPMIMEMessage outer (pf_from m) recipients ccList (pf_subject m) armoredBody
                     (trim (pf_inReplyTo m)) (trim (pf_references m))))
             (jstrs recipients) senderHeaderB64 senderBodyB64 (JStr (pf_from m)))))))"

section \<open>Protected links\<close>

record link_form =
  lk_from :: string
  lk_to :: string
  lk_cc :: string
  lk_subject :: string
  lk_body :: string
  lk_password :: string
  lk_ttlSeconds :: int
  lk_maxViews :: int
  lk_notify :: bool

text \<open>The four calls of \<open>randomBytes\<close>; the last is the one inside \<open>aesWrap\<close>.\<close>

record link_random =
  lr_msgKey :: bytes
  lr_msgNonce :: bytes
  lr_salt :: bytes
  lr_wrapNonce :: bytes

text \<open>The loop with the set of addresses seen.\<close>

fun unique_recipients :: "string list \<Rightarrow> string list \<Rightarrow> string list" where
  "unique_recipients [] recipients = recipients"
| "unique_recipients (disp # ds) recipients =
     (let c = canonicalEmailToken disp in
      unique_recipients ds (if c = [] \<or> c \<in> set recipients then recipients else recipients @ [c]))"

definition link_recipients :: "link_form \<Rightarrow> string list" where
  "link_recipients m = unique_recipients (splitAddressList (lk_to m) @ splitAddressList (lk_cc m)) []"

definition link_text :: "link_form \<Rightarrow> string" where
  "link_text m =
     ''From: '' @ or_anonymous (lk_from m) @ crlf
     @ ''Subject: '' @ (if lk_subject m \<noteq> [] then lk_subject m else ''(no subject)'') @ crlf @ crlf @ lk_body m"

definition link_request_body :: "crypto \<Rightarrow> link_random \<Rightarrow> link_form \<Rightarrow> jsval result" where
  "link_request_body cr rnd m =
     bindR (cr_importKey cr (lr_msgKey rnd)) (\<lambda>msgKey.
     bindR (cr_encrypt cr msgKey (lr_msgNonce rnd) (utf8_encode (link_text m))) (\<lambda>ct.
     bindR (deriveKEK cr (lk_password m) (lr_salt rnd) JUndef JUndef) (\<lambda>d.
     bindR (aesWrap cr (lr_wrapNonce rnd) (d_key d) (lr_msgKey rnd)) (\<lambda>wrapped.
     Inr (JObj
       [(''subject_hint'', JStr (lk_subject m)),
        (''recipient_emails'', jstrs (link_recipients m)),
        (''notify_recipients'', JBool (lk_notify m)),
        (''notify_from_addr'', JStr (lk_from m)),
        (''ttl_seconds'', jint (lk_ttlSeconds m)),
        (''max_views'', jint (lk_maxViews m)),
        (''kdf'', JStr (d_kdf d)),
        (''kdf_salt_b64'', JStr (compose_bytesToB64 (lr_salt rnd))),
        (''kdf_params_json'', JStr (json_str (js_or (d_params d) (JObj [])))),
        (''wrapped_msg_key_b64'', JStr (compose_bytesToB64 wrapped)),
        (''body_ciphertext_b64'', JStr (compose_bytesToB64 (lr_msgNonce rnd @ ct)))])))))"

definition sendProtectedLink :: "bool \<Rightarrow> crypto \<Rightarrow> link_random \<Rightarrow> 's server \<Rightarrow> link_form \<Rightarrow> ('s, jsval) io" where
  "sendProtectedLink loaded cr rnd srv m =
     (if \<not> loaded then throwI (Error ''crypto subsystem not loaded'')
      else bindI (liftI (link_request_body cr rnd m)) (createProtectedLink srv))"

end
