(* ===== verification/Mime_Lines.thy ===== *)
theory Mime_Lines
  imports Vault_Mime
begin

text \<open>
  Lemmas on texts made of lines, shared by the writers and readers of MIME messages: joining and
  splitting, line ends, the blank line that ends a header block, and header fields.
\<close>

section \<open>Lines\<close>

definition no_breaks :: "string \<Rightarrow> bool" where
  "no_breaks s = (cr_char \<notin> set s \<and> lf \<notin> set s)"

lemma no_breaks_append [simp]: "no_breaks (s @ t) \<longleftrightarrow> no_breaks s \<and> no_breaks t"
  by (auto simp: no_breaks_def)

lemma no_breaks_Nil [simp]: "no_breaks []"
  by (simp add: no_breaks_def)

lemma cr_neq_lf [simp]: "cr_char \<noteq> lf" "lf \<noteq> cr_char"
  by (simp_all add: cr_char_def lf_def)

lemma replace_crlf_append:
  "cr_char \<notin> set s \<Longrightarrow> replace_crlf (s @ t) = s @ replace_crlf t"
proof (induction s)
  case (Cons c s)
  then show ?case by (cases "s @ t") auto
qed simp

lemma replace_crlf_id: "cr_char \<notin> set s \<Longrightarrow> replace_crlf s = s"
  using replace_crlf_append [of s "[]"] by simp

lemma replace_crlf_pair: "replace_crlf (cr_char # lf # t) = lf # replace_crlf t"
  by simp

lemma split_lf_line:
  assumes "lf \<notin> set s"
  shows "split_str [lf] s = [s]" and "split_str [lf] (s @ lf # t) = s # split_str [lf] t"
proof -
  have "find_sub [lf] s = None" using assms by (simp add: find_sub_None sublist_def) (metis in_set_conv_decomp)
  then show "split_str [lf] s = [s]" by (simp add: split_str.simps)
  have "find_sub [lf] (s @ lf # t) = Some (length s)" using assms by (induction s) (auto simp: prefix_def)
  then show "split_str [lf] (s @ lf # t) = s # split_str [lf] t" by (simp add: split_str.simps)
qed

lemma split_join_lf:
  "ls \<noteq> [] \<Longrightarrow> \<forall>l \<in> set ls. lf \<notin> set l \<Longrightarrow> split_str [lf] (join [lf] ls) = ls"
proof (induction "[lf]" ls rule: join.induct)
  case (3 x y ys)
  then show ?case by (simp add: split_lf_line)
qed (simp_all add: split_lf_line)

text \<open>The first blank line behind a block of lines that are not empty.\<close>

lemma find_blank_skip:
  "lf \<notin> set s \<Longrightarrow> find_sub [lf, lf] (s @ t) = map_option ((+) (length s)) (find_sub [lf, lf] t)"
proof (induction s)
  case Nil
  then show ?case by (simp add: option.map_ident)
next
  case (Cons c s)
  then show ?case by (auto simp: prefix_def option.map_comp comp_def)
qed

lemma find_blank_line:
  "ls \<noteq> [] \<Longrightarrow> \<forall>l \<in> set ls. l \<noteq> [] \<and> lf \<notin> set l \<Longrightarrow>
   find_sub [lf, lf] (join [lf] ls @ lf # lf # t) = Some (length (join [lf] ls))"
proof (induction "[lf]" ls rule: join.induct)
  case (2 x)
  then show ?case by (simp add: find_blank_skip)
next
  case (3 x y ys)
  let ?r = "join [lf] (y # ys) @ lf # lf # t"
  obtain c z where y: "y = c # z" "c \<noteq> lf" using "3.prems" by (cases y) auto
  obtain r' where "?r = c # r'" using y(1) by (cases ys) auto
  then have "\<not> prefix [lf, lf] (lf # ?r)" using y(2) by simp
  with 3 show ?case by (simp add: find_blank_skip)
qed simp

lemma indexOf_blank_line:
  "ls \<noteq> [] \<Longrightarrow> \<forall>l \<in> set ls. l \<noteq> [] \<and> lf \<notin> set l \<Longrightarrow>
   indexOf (join [lf] ls @ lf # lf # t) [lf, lf] = int (length (join [lf] ls))"
  by (simp add: indexOf_def find_blank_line)

lemma slice_head: "slice 0 (int (length h)) (h @ t) = h"
  by (simp add: slice_def slice_pos_def)

lemma slice_behind_blank: "slice_from (int (length h) + 2) (h @ lf # lf # t) = t"
  by (simp add: slice_from_def slice_pos_def nat_add_distrib min_def)

section \<open>Header fields\<close>

definition field :: "string \<Rightarrow> string \<Rightarrow> string" where
  "field n v = n @ '': '' @ v"

definition field_ok :: "string \<times> string \<Rightarrow> bool" where
  "field_ok f = (fst f \<noteq> [] \<and> list_all header_char (fst f) \<and> no_breaks (snd f))"

lemma is_space_blank: "is_space (CHR '' '')"
  by (simp add: is_space_def code_unit_def)

lemma header_char_not_blank: "header_char c \<Longrightarrow> \<not> is_blank c"
  by (auto simp: header_char_def is_letter_def is_digit_def is_blank_def code_unit_def)

lemma colon_not_header: "\<not> header_char (CHR '':'')"
  by (simp add: header_char_def is_letter_def is_digit_def code_unit_def)

lemma header_line_field:
  assumes "field_ok (n, v)"
  shows "header_line (field n v) = Some (n, dropWhile is_space v)"
proof -
  have all: "\<forall>c \<in> set n. header_char c" using assms by (simp add: field_ok_def list_all_iff)
  have tw: "takeWhile header_char (field n v) = n" "dropWhile header_char (field n v) = '': '' @ v"
    using all by (simp_all add: field_def colon_not_header)
  have "list_all (\<lambda>c. c \<noteq> cr_char \<and> c \<noteq> lf) (dropWhile is_space v)"
    using assms by (auto simp: field_ok_def no_breaks_def list_all_iff dest: set_dropWhileD)
  then show ?thesis
    using assms by (simp add: header_line_def Let_def tw is_space_blank startsWith_def field_ok_def)
qed

lemma field_ok_line:
  assumes "field_ok (n, v)"
  shows "field n v \<noteq> []" and "lf \<notin> set (field n v)" and "\<not> is_blank (hd (field n v))"
proof -
  show "field n v \<noteq> []" by (simp add: field_def)
  obtain c m where n: "n = c # m" "header_char c" using assms by (cases n) (auto simp: field_ok_def)
  show "\<not> is_blank (hd (field n v))" using n by (simp add: field_def header_char_not_blank)
  have "\<not> header_char lf" by (simp add: header_char_def is_letter_def is_digit_def lf_def code_unit_def char_of_def)
  then show "lf \<notin> set (field n v)"
    using assms by (auto simp: field_def field_ok_def list_all_iff no_breaks_def lf_def char_of_def)
qed

text \<open>Reading a block of fields gives the fields, the last one of a name winning.\<close>

definition put_field :: "string \<times> string \<Rightarrow> (string \<times> string) list \<Rightarrow> (string \<times> string) list" where
  "put_field f hs = AList.update (toLowerCase (fst f)) (dropWhile is_space (snd f)) hs"

lemma parse_field_lines:
  "\<forall>f \<in> set fs. field_ok f \<Longrightarrow>
   parse_header_lines (map (\<lambda>(n, v). field n v) fs) cur hs = Some (fold put_field fs hs)"
proof (induction fs arbitrary: cur hs)
  case (Cons f fs)
  obtain n v where f: "f = (n, v)" by (cases f)
  then have ok: "field_ok (n, v)" using Cons.prems by simp
  show ?case
    using Cons field_ok_line [OF ok] header_line_field [OF ok] by (simp add: f put_field_def)
qed simp

lemma parse_fields:
  assumes "fs \<noteq> []" and "\<forall>f \<in> set fs. field_ok f"
  shows "parse_header_lines (split_str [lf] (join [lf] (map (\<lambda>(n, v). field n v) fs))) [] [] = Some (fold put_field fs [])"
proof -
  have "\<forall>l \<in> set (map (\<lambda>(n, v). field n v) fs). lf \<notin> set l" using assms(2) field_ok_line(2) by fastforce
  then have "split_str [lf] (join [lf] (map (\<lambda>(n, v). field n v) fs)) = map (\<lambda>(n, v). field n v) fs"
    using assms(1) by (intro split_join_lf) auto
  then show ?thesis using parse_field_lines [OF assms(2)] by simp
qed

lemma header_value_put_other:
  "k \<notin> toLowerCase ` fst ` set fs \<Longrightarrow> header_value (fold put_field fs hs) k = header_value hs k"
proof (induction fs arbitrary: hs)
  case (Cons f fs)
  then have "header_value (put_field f hs) k = header_value hs k"
    by (auto simp: header_value_def put_field_def update_conv)
  with Cons show ?case by simp
qed simp

lemma header_value_put:
  "k = toLowerCase n \<Longrightarrow> k \<notin> toLowerCase ` fst ` set gs \<Longrightarrow>
   header_value (fold put_field (fs @ (n, v) # gs) hs) k = dropWhile is_space v"
proof -
  assume a: "k = toLowerCase n" "k \<notin> toLowerCase ` fst ` set gs"
  have "header_value (fold put_field (fs @ (n, v) # gs) hs) k = header_value (put_field (n, v) (fold put_field fs hs)) k"
    using header_value_put_other [OF a(2)] by simp
  then show ?thesis using a(1) by (simp add: header_value_def put_field_def update_conv)
qed

end
