(* ===== verification/Message_View.thy ===== *)
theory Message_View
  imports Protected_Open Compose Mime_Lines
begin

text \<open>
  \<^verbatim>\<open>static/mail/mail-app.jsx\<close>, the reading of a decrypted message: transfer encodings, the header block, the
  MIME entities, what is displayed, and the metadata that is recovered from the inner headers. The loop
  over the parts of a multipart body is, word for word, the one of the page of protected links, and its
  definitions are used here; the leaves differ. What the composer writes is what the reader shows.
\<close>

section \<open>Transfer encodings\<close>

text \<open>The decoder \<open>new TextDecoder()\<close>, which never throws, and the \<open>DOMParser\<close>, if there is one.\<close>

record app_env =
  ap_td :: "bytes \<Rightarrow> string"
  ap_dp :: "dom_parser option"

definition decodeQuotedPrintable :: "app_env \<Rightarrow> string \<Rightarrow> string" where
  "decodeQuotedPrintable env t =
     (if CHR ''='' \<notin> set t then t else ap_td env (qp_bytes (drop_soft_breaks t)))"

definition app_decodeMailBody :: "app_env \<Rightarrow> string \<Rightarrow> string \<Rightarrow> string" where
  "app_decodeMailBody env body transferEncoding =
     (let encoding = toLowerCase (trim transferEncoding) in
      if encoding = [] \<or> encoding = ''7bit'' \<or> encoding = ''8bit'' \<or> encoding = ''binary'' then body
      else if encoding = ''quoted-printable'' then decodeQuotedPrintable env body
      else if encoding = ''base64'' then
        (case mime_base64ToBytes body of Inr bs \<Rightarrow> ap_td env bs | Inl _ \<Rightarrow> body)
      else body)"

definition app_decodeAttachmentBytes :: "string \<Rightarrow> string \<Rightarrow> bytes result" where
  "app_decodeAttachmentBytes body transferEncoding =
     (if toLowerCase (trim transferEncoding) = ''base64'' then mime_base64ToBytes body
      else Inr (map byte_of_char body))"

section \<open>The header block\<close>

record header_block =
  hb_headers :: "(string \<times> string) list option"
  hb_total :: nat
  hb_known :: nat

definition no_header_block :: header_block where
  "no_header_block = \<lparr>hb_headers = None, hb_total = 0, hb_known = 0\<rparr>"

definition known_headers :: "string list" where
  "known_headers =
     [''from'', ''to'', ''cc'', ''subject'', ''date'', ''message-id'', ''in-reply-to'', ''references'', ''reply-to'',
      ''mime-version'', ''content-type'', ''content-transfer-encoding'', ''content-disposition'']"

fun header_loop :: "string list \<Rightarrow> string \<Rightarrow> (string \<times> string) list \<Rightarrow> nat \<Rightarrow> nat \<Rightarrow> header_block" where
  "header_loop [] currentHeader headers t k = \<lparr>hb_headers = Some headers, hb_total = t, hb_known = k\<rparr>"
| "header_loop (line # ls) currentHeader headers t k =
     (if line = [] then no_header_block
      else if is_blank (hd line) then
        (if currentHeader = [] then no_header_block
         else header_loop ls currentHeader
                (AList.update currentHeader (header_value headers currentHeader @ '' '' @ trim line) headers) t k)
      else
        (case header_line line of
           None \<Rightarrow> no_header_block
         | Some (n, v) \<Rightarrow>
             (let c = toLowerCase n in
              header_loop ls c (AList.update c v headers) (t + 1) (if c \<in> set known_headers then k + 1 else k))))"

definition app_parseHeaderBlock :: "string \<Rightarrow> header_block" where
  "app_parseHeaderBlock headerBlock = header_loop (split_str [lf] headerBlock) [] [] 0 0"

definition block_headers :: "header_block \<Rightarrow> (string \<times> string) list" where
  "block_headers parsed = (case hb_headers parsed of Some hs \<Rightarrow> hs | None \<Rightarrow> [])"

definition looksLikeFullMessageHeaders :: "header_block \<Rightarrow> bool" where
  "looksLikeFullMessageHeaders parsed = (hb_headers parsed \<noteq> None \<and> 2 \<le> hb_total parsed \<and> 2 \<le> hb_known parsed)"

definition looksLikeMimeEntityHeaders :: "header_block \<Rightarrow> bool" where
  "looksLikeMimeEntityHeaders parsed =
     (case hb_headers parsed of
        None \<Rightarrow> False
      | Some headers \<Rightarrow>
          (let value = (\<lambda>k. toLowerCase (trim (header_value headers k)));
               contentType = value ''content-type'';
               transferEncoding = value ''content-transfer-encoding'';
               disposition = value ''content-disposition''
           in contentType \<noteq> []
              \<and> (startsWith contentType ''multipart/'' \<or> startsWith contentType ''text/''
                 \<or> str_includes disposition ''attachment'' \<or> transferEncoding = ''base64''
                 \<or> transferEncoding = ''quoted-printable'')))"

definition looksLikeDisplayableEnvelope :: "header_block \<Rightarrow> bool" where
  "looksLikeDisplayableEnvelope parsed = (looksLikeFullMessageHeaders parsed \<or> looksLikeMimeEntityHeaders parsed)"

section \<open>Entities\<close>

definition app_read_leaf :: "app_env \<Rightarrow> string \<Rightarrow> string \<Rightarrow> string \<Rightarrow> mime_entity" where
  "app_read_leaf env kind body transferEncoding =
     (let decodedBody = app_decodeMailBody env body transferEncoding in
      if kind = ''text/html'' then
        (let t = htmlToDisplayText (ap_dp env) decodedBody in
         \<lparr>me_bodyText = t, me_bodyHtml = decodedBody, me_bodyScore = scoreBodyText kind t, me_attachments = []\<rparr>)
      else if startsWith kind ''text/'' \<or> kind = [] then
        \<lparr>me_bodyText = decodedBody, me_bodyHtml = [],
         me_bodyScore = scoreBodyText (if kind = [] then ''text/plain'' else kind) decodedBody, me_attachments = []\<rparr>
      else empty_entity)"

definition app_entity_body :: "app_env \<Rightarrow> entity_reader option \<Rightarrow> entity_reader" where
  "app_entity_body env nested headers body =
     (let contentType = header_value headers ''content-type'';
          disposition = header_value headers ''content-disposition'';
          transferEncoding = header_value headers ''content-transfer-encoding'';
          kind = media_type contentType;
          filename = part_filename disposition contentType;
          boundary = find_boundary (\<lambda>c. c \<noteq> quote \<and> c \<noteq> CHR '';'' \<and> c \<noteq> lf) contentType
      in
      if is_attachment kind disposition filename then
        bindR (app_decodeAttachmentBytes body transferEncoding) (\<lambda>bs.
          Inr (empty_entity\<lparr>me_attachments :=
            [\<lparr>at_fileName = (if filename = [] then ''attachment.bin'' else filename),
              at_contentType = (if kind = [] then ''application/octet-stream'' else kind), at_bytes = bs\<rparr>]\<rparr>))
      else
        (case (nested, boundary) of
           (Some rd, Some b) \<Rightarrow>
             if startsWith kind ''multipart/'' then read_multipart rd kind contentType b body
             else Inr (app_read_leaf env kind body transferEncoding)
         | _ \<Rightarrow> Inr (app_read_leaf env kind body transferEncoding)))"

primrec app_entity_levels :: "app_env \<Rightarrow> nat \<Rightarrow> entity_reader" where
  "app_entity_levels env 0 = app_entity_body env None"
| "app_entity_levels env (Suc n) = app_entity_body env (Some (app_entity_levels env n))"

definition app_parseMimeEntity :: "app_env \<Rightarrow> (string \<times> string) list \<Rightarrow> string \<Rightarrow> nat \<Rightarrow> mime_entity result" where
  "app_parseMimeEntity env headers body depth = app_entity_levels env (8 - depth) headers body"

text \<open>The displayed envelope has no score, which is zero in the record.\<close>

definition plain_envelope :: "string \<Rightarrow> mime_entity" where
  "plain_envelope t = empty_entity\<lparr>me_bodyText := t\<rparr>"

definition extractDisplayEnvelope :: "app_env \<Rightarrow> string \<Rightarrow> mime_entity result" where
  "extractDisplayEnvelope env t =
     (let normalized = replace_crlf t;
          separatorIndex = indexOf normalized [lf, lf];
          headerBlock = slice 0 separatorIndex normalized;
          parsed = app_parseHeaderBlock headerBlock
      in
      if t = [] \<or> separatorIndex \<le> 0 then Inr (plain_envelope t)
      else if headerBlock = [] \<or> 32 * 1024 < length headerBlock then Inr (plain_envelope t)
      else if \<not> looksLikeDisplayableEnvelope parsed then Inr (plain_envelope t)
      else
        (let body = slice_from (separatorIndex + 2) normalized; headers = block_headers parsed in
         bindR (app_parseMimeEntity env headers body 0) (\<lambda>envelope.
           if 0 < me_bodyScore envelope \<or> me_attachments envelope \<noteq> []
              \<or> startsWith (toLowerCase (header_value headers ''content-type'')) ''multipart/''
           then Inr (envelope\<lparr>me_bodyScore := 0\<rparr>)
           else Inr (plain_envelope (app_decodeMailBody env body (header_value headers ''content-transfer-encoding''))))))"

definition extractDisplayBody :: "app_env \<Rightarrow> string \<Rightarrow> string result" where
  "extractDisplayBody env t = bindR (extractDisplayEnvelope env t) (\<lambda>e. Inr (me_bodyText e))"

section \<open>Metadata\<close>

definition makePreviewSnippet :: "string \<Rightarrow> string" where
  "makePreviewSnippet t = take 240 (squeeze_space t)"

text \<open>Unlike the composer's list of addresses, this one is split at commas only.\<close>

fun mail_address_loop :: "string \<Rightarrow> nat \<Rightarrow> string \<Rightarrow> string list \<Rightarrow> string list" where
  "mail_address_loop [] depth cur parts = (let t = squeeze_space cur in if t \<noteq> [] then parts @ [t] else parts)"
| "mail_address_loop (c # s) depth cur parts =
     (if c = quote then mail_address_loop s depth (cur @ [c]) parts
      else
        (let depth' = (if c = CHR ''<'' then depth + 1 else if c = CHR ''>'' then depth - 1 else depth) in
         if c = CHR '','' \<and> depth' = 0 then
           (let t = squeeze_space cur in mail_address_loop s depth' [] (if t \<noteq> [] then parts @ [t] else parts))
         else mail_address_loop s depth' (cur @ [c]) parts))"

definition splitMailAddressListHeader :: "string \<Rightarrow> string list" where
  "splitMailAddressListHeader value = mail_address_loop (trim (lf_to_space (replace_crlf value))) 0 [] []"

definition normalizeAngleMessageId :: "string \<Rightarrow> string" where
  "normalizeAngleMessageId mid =
     (let s = trim mid in
      if s \<noteq> [] \<and> \<not> startsWith s ''<'' \<and> CHR ''@'' \<in> set s then ''<'' @ s @ ''>'' else s)"

record metadata =
  md_subject :: string
  md_from_addr :: string
  md_to_addrs :: "string list"
  md_cc_addrs :: "string list"
  md_rfc_message_id :: string
  md_in_reply_to :: string
  md_references :: string
  md_reply_to :: string
  md_preview :: string
  md_attachments :: "attachment list"

definition metadata_of :: "(string \<times> string) list \<Rightarrow> mime_entity \<Rightarrow> metadata" where
  "metadata_of headers envelope =
     (let sq = (\<lambda>k. squeeze_space (header_value headers k));
          toParts = splitMailAddressListHeader (sq ''to'')
      in \<lparr>md_subject = trim (header_value headers ''subject''),
          md_from_addr = sq ''from'',
          md_to_addrs = (if toParts \<noteq> [] then toParts else if sq ''to'' \<noteq> [] then [sq ''to''] else []),
          md_cc_addrs = splitMailAddressListHeader (sq ''cc''),
          md_rfc_message_id = normalizeAngleMessageId (header_value headers ''message-id''),
          md_in_reply_to = sq ''in-reply-to'',
          md_references = sq ''references'',
          md_reply_to = sq ''reply-to'',
          md_preview = makePreviewSnippet (me_bodyText envelope),
          md_attachments = me_attachments envelope\<rparr>)"

definition extractDecryptedMessageMetadata :: "app_env \<Rightarrow> string \<Rightarrow> mime_entity option \<Rightarrow> metadata option result" where
  "extractDecryptedMessageMetadata env t envelopeOptional =
     (let normalized = replace_crlf t;
          separatorIndex = indexOf normalized [lf, lf];
          parsed = app_parseHeaderBlock (slice 0 separatorIndex normalized)
      in
      if t = [] \<or> separatorIndex \<le> 0 \<or> \<not> looksLikeFullMessageHeaders parsed then Inr None
      else
        bindR (case envelopeOptional of Some e \<Rightarrow> Inr e | None \<Rightarrow> extractDisplayEnvelope env t) (\<lambda>envelope.
          Inr (Some (metadata_of (block_headers parsed) envelope))))"

section \<open>Decryption\<close>

text \<open>\<open>lastErr || new Error(\<dots>)\<close> at the end: an error is never falsy, so the last one is thrown.\<close>

fun try_fingerprints ::
  "vault_env \<Rightarrow> 's server \<Rightarrow> int \<Rightarrow> ciphertext \<Rightarrow> jsval list \<Rightarrow> exn \<Rightarrow> ('s, string \<times> jsval) vio" where
  "try_fingerprints env srv now blob [] lastErr st = (Inl lastErr, st)"
| "try_fingerprints env srv now blob (fp # fps) lastErr st =
     (case decryptToString env srv now blob fp None st of
        (Inr t, st1) \<Rightarrow> (Inr (t, fp), st1)
      | (Inl er, st1) \<Rightarrow> try_fingerprints env srv now blob fps er st1)"

definition decryptMessageBlobLocally ::
  "bool \<Rightarrow> vault_env \<Rightarrow> 's server \<Rightarrow> int \<Rightarrow> ciphertext \<Rightarrow> jsval list \<Rightarrow> ('s, string \<times> jsval) vio" where
  "decryptMessageBlobLocally loaded env srv now blob identities st =
     (if \<not> loaded then (Inl (Error ''key vault unavailable''), st)
      else
        (case tryDefaultDecrypt env srv now blob st of
           (Inr (t, fp), st1) \<Rightarrow> (Inr (t, JStr fp), st1)
         | (Inl e, st1) \<Rightarrow> try_fingerprints env srv now blob (map (\<lambda>i. getp i ''fingerprint'') identities) e st1))"

end
