(* ===== verification/Index_Db.thy ===== *)
theory Index_Db
  imports Keygen
begin

text \<open>
  \<^verbatim>\<open>static/mail/search/db.js\<close> and \<^verbatim>\<open>static/mail/search/key.js\<close>: the IndexedDB database of the mail client, and
  the sealed JSON values kept in it.

  A computation on the database has the open transaction in its state. As the IndexedDB standard has
  it, a transaction is active until the task that placed its last request ends: the completion of a
  request keeps it active, while waiting for anything else (WebCrypto, the network) ends it, and it
  commits. A request on a transaction that has ended throws \<open>TransactionInactiveError\<close>.
\<close>

section \<open>The database\<close>

type_synonym store = "(string \<times> jsval) list"

definition STORE_META :: string where "STORE_META = ''meta''"
definition STORE_HEADERS :: string where "STORE_HEADERS = ''headers''"
definition STORE_TERMS :: string where "STORE_TERMS = ''terms''"
definition STORE_DOCS :: string where "STORE_DOCS = ''docs''"
definition STORE_MAIL_META :: string where "STORE_MAIL_META = ''mail_meta''"
definition STORE_MAIL_HEADERS :: string where "STORE_MAIL_HEADERS = ''mail_headers''"
definition STORE_MAIL_ENVELOPES :: string where "STORE_MAIL_ENVELOPES = ''mail_envelopes''"

lemmas store_names = STORE_META_def STORE_HEADERS_def STORE_TERMS_def STORE_DOCS_def STORE_MAIL_META_def
  STORE_MAIL_HEADERS_def STORE_MAIL_ENVELOPES_def

text \<open>\<open>idb_stores\<close>: the object stores by name; \<open>idb_tx\<close>: the stores of the active transaction, and whether it may write.\<close>

record idb =
  idb_stores :: "(string \<times> store) list"
  idb_tx :: "(string list \<times> bool) option"

definition empty_idb :: idb where
  "empty_idb = \<lparr>idb_stores = [], idb_tx = None\<rparr>"

definition all_stores :: "string list" where
  "all_stores = [STORE_META, STORE_HEADERS, STORE_TERMS, STORE_DOCS, STORE_MAIL_META, STORE_MAIL_HEADERS, STORE_MAIL_ENVELOPES]"

text \<open>\<open>onupgradeneeded\<close> creates the stores that are missing; waiting for the request ends other transactions.\<close>

definition openDB :: "(idb, unit) io" where
  "openDB d =
     (Inr (), d\<lparr>idb_stores := fold (\<lambda>n ss. if map_of ss n = None then ss @ [(n, [])] else ss) all_stores (idb_stores d),
               idb_tx := None\<rparr>)"

definition inactive :: exn where
  "inactive = DOMError ''TransactionInactiveError''"

definition tx :: "string list \<Rightarrow> bool \<Rightarrow> (idb, unit) io" where
  "tx stores readwrite d =
     (if list_all (\<lambda>n. map_of (idb_stores d) n \<noteq> None) stores then (Inr (), d\<lparr>idb_tx := Some (stores, readwrite)\<rparr>)
      else (Inl (DOMError ''NotFoundError''), d))"

text \<open>Waiting for something other than a request of the transaction.\<close>

definition await_other :: "'a result \<Rightarrow> (idb, 'a) io" where
  "await_other r d = (r, d\<lparr>idb_tx := None\<rparr>)"

definition store_of :: "idb \<Rightarrow> string \<Rightarrow> store" where
  "store_of d n = (case map_of (idb_stores d) n of Some s \<Rightarrow> s | None \<Rightarrow> [])"

definition set_store :: "string \<Rightarrow> store \<Rightarrow> idb \<Rightarrow> idb" where
  "set_store n s d = d\<lparr>idb_stores := AList.update n s (idb_stores d)\<rparr>"

text \<open>\<open>t.objectStore(n)\<close> and a request on it: \<open>None\<close> when the request may proceed.\<close>

definition request_error :: "idb \<Rightarrow> string \<Rightarrow> bool \<Rightarrow> exn option" where
  "request_error d n writes =
     (case idb_tx d of
        None \<Rightarrow> Some inactive
      | Some (names, readwrite) \<Rightarrow>
          if n \<notin> set names then Some (DOMError ''NotFoundError'')
          else if writes \<and> \<not> readwrite then Some (DOMError ''ReadOnlyError'')
          else None)"

definition db_put :: "string \<Rightarrow> string \<Rightarrow> jsval \<Rightarrow> (idb, unit) io" where
  "db_put n k v d =
     (case request_error d n True of
        Some e \<Rightarrow> (Inl e, d)
      | None \<Rightarrow> (Inr (), set_store n (AList.update k v (store_of d n)) d))"

definition db_get :: "string \<Rightarrow> string \<Rightarrow> (idb, jsval option) io" where
  "db_get n k d =
     (case request_error d n False of
        Some e \<Rightarrow> (Inl e, d)
      | None \<Rightarrow> (Inr (map_of (store_of d n) k), d))"

definition db_del :: "string \<Rightarrow> string \<Rightarrow> (idb, unit) io" where
  "db_del n k d =
     (case request_error d n True of
        Some e \<Rightarrow> (Inl e, d)
      | None \<Rightarrow> (Inr (), set_store n (AList.delete k (store_of d n)) d))"

text \<open>A transaction that clears the given stores, until it is complete.\<close>

definition clear_stores :: "string list \<Rightarrow> (idb, unit) io" where
  "clear_stores names =
     bindI (tx names True) (\<lambda>_ d. (Inr (), (fold (\<lambda>n. set_store n []) names d)\<lparr>idb_tx := None\<rparr>))"

definition clearAll :: "(idb, unit) io" where
  "clearAll = clear_stores [STORE_META, STORE_HEADERS, STORE_TERMS, STORE_DOCS]"

text \<open>\<open>t.oncomplete\<close>: the transaction has ended.\<close>

definition txComplete :: "(idb, unit) io" where
  "txComplete = await_other (Inr ())"

section \<open>Keys and sealed values\<close>

record key_env =
  ke_cr :: crypto
  ke_hkdf :: "bytes \<Rightarrow> bytes \<Rightarrow> bytes \<Rightarrow> bytes result"   \<comment> \<open>seed, salt, info\<close>
  ke_td :: "bytes \<Rightarrow> string"     \<comment> \<open>the text decoder\<close>

text \<open>AES-GCM decrypts what it encrypted, and the text decoder decodes what the text encoder encoded.\<close>

definition key_env_ok :: "key_env \<Rightarrow> bool" where
  "key_env_ok ke = (crypto_ok (ke_cr ke) \<and> (\<forall>s. ke_td ke (utf8_encode s) = s))"

definition SALT_V1 :: bytes where
  "SALT_V1 = utf8_encode ''elvish-search-v1''"

definition INFO :: bytes where
  "INFO = utf8_encode ''search''"

definition deriveScopedKey :: "key_env \<Rightarrow> bytes \<Rightarrow> bytes \<Rightarrow> bytes \<Rightarrow> bytes result" where
  "deriveScopedKey ke seedBytes salt info =
     (if seedBytes = [] then Inl (Error ''search/key: empty seed'') else ke_hkdf ke seedBytes salt info)"

definition deriveIndexKey :: "key_env \<Rightarrow> bytes \<Rightarrow> bytes result" where
  "deriveIndexKey ke identitySearchSeed = deriveScopedKey ke identitySearchSeed SALT_V1 INFO"

definition deriveScopedKeyFromLabel :: "key_env \<Rightarrow> bytes \<Rightarrow> string \<Rightarrow> bytes result" where
  "deriveScopedKeyFromLabel ke seedBytes label =
     (let labelBytes = utf8_encode label in deriveScopedKey ke seedBytes labelBytes labelBytes)"

definition b64encode :: "bytes \<Rightarrow> string" where
  "b64encode bs = btoa (map char_of_byte bs)"

definition b64decode :: "string \<Rightarrow> bytes result" where
  "b64decode s = bindR (atob s) (\<lambda>bin. Inr (map byte_of_char bin))"

definition sealJSON :: "key_env \<Rightarrow> bytes \<Rightarrow> bytes \<Rightarrow> jsval \<Rightarrow> jsval result" where
  "sealJSON ke nonce key v =
     bindR (cr_encrypt (ke_cr ke) key nonce (utf8_encode (json_str v))) (\<lambda>ct.
       Inr (JObj [(''nonce_b64'', JStr (b64encode nonce)), (''ciphertext_b64'', JStr (b64encode ct))]))"

definition openJSON :: "key_env \<Rightarrow> bytes \<Rightarrow> jsval \<Rightarrow> jsval result" where
  "openJSON ke key envelope =
     (if \<not> truthy envelope then Inr JNull
      else
        (case (getp envelope ''nonce_b64'', getp envelope ''ciphertext_b64'') of
           (JStr n, JStr c) \<Rightarrow>
             bindR (b64decode n) (\<lambda>nonce.
             bindR (b64decode c) (\<lambda>ct.
             bindR (cr_decrypt (ke_cr ke) key nonce ct) (\<lambda>pt.
             case json_parse (ke_td ke pt) of Some v \<Rightarrow> Inr v | None \<Rightarrow> Inl (Error ''SyntaxError''))))
         | _ \<Rightarrow> Inr JNull))"

text \<open>\<open>await openJSON(key, env).catch(() => null)\<close>.\<close>

definition openJSON_or_null :: "key_env \<Rightarrow> bytes \<Rightarrow> jsval \<Rightarrow> jsval" where
  "openJSON_or_null ke key envelope = (case openJSON ke key envelope of Inr v \<Rightarrow> v | Inl _ \<Rightarrow> JNull)"

section \<open>Lemmas\<close>

lemma b64_roundtrip [simp]: "b64decode (b64encode bs) = Inr bs"
  by (simp add: b64decode_def b64encode_def atob_btoa del: map_map)

lemma openJSON_sealJSON:
  assumes "key_env_ok ke" and "json_ok v" and "sealJSON ke nonce key v = Inr env"
  shows "openJSON ke key env = Inr v"
proof -
  obtain ct where ct: "cr_encrypt (ke_cr ke) key nonce (utf8_encode (json_str v)) = Inr ct"
      "env = JObj [(''nonce_b64'', JStr (b64encode nonce)), (''ciphertext_b64'', JStr (b64encode ct))]"
    using assms(3) by (auto simp: sealJSON_def bindR_eq_Inr)
  have "cr_decrypt (ke_cr ke) key nonce ct = Inr (utf8_encode (json_str v))"
    using assms(1) ct(1) by (auto simp: key_env_ok_def crypto_ok_def)
  then show ?thesis
    using assms(1,2) by (simp add: ct(2) openJSON_def key_env_ok_def json.dec_enc)
qed

lemma sealed_truthy: "sealJSON ke nonce key v = Inr env \<Longrightarrow> truthy env"
  by (auto simp: sealJSON_def bindR_eq_Inr)

text \<open>
  What is sealed under a key is opened by that key: for every value that JSON can represent, every
  nonce and every key, \<open>openJSON\<close> gives back the value that \<open>sealJSON\<close> was given.
\<close>

theorem open_seal:
  assumes "key_env_ok ke" and "json_ok v" and "sealJSON ke nonce key v = Inr env"
  shows "openJSON ke key env = Inr v"
  using assms by (rule openJSON_sealJSON)

definition demo_keys :: key_env where
  "demo_keys = \<lparr>ke_cr = demo_crypto, ke_hkdf = (\<lambda>seed salt info. Inr seed),
     ke_td = (\<lambda>bs. case utf8_decode bs of Some s \<Rightarrow> s | None \<Rightarrow> [])\<rparr>"

lemma demo_keys_ok: "key_env_ok demo_keys"
  by (simp add: key_env_ok_def demo_keys_def demo_crypto_ok utf8_decode_encode)

theorem open_seal_witness:
  "\<exists>env. sealJSON demo_keys [1, 2] [3] (JObj [(''a'', JStr ''b'')]) = Inr env
     \<and> openJSON demo_keys [3] env = Inr (JObj [(''a'', JStr ''b'')])"
proof -
  obtain env where env: "sealJSON demo_keys [1, 2] [3] (JObj [(''a'', JStr ''b'')]) = Inr env"
    by (simp add: sealJSON_def demo_keys_def demo_crypto_def)
  then show ?thesis using open_seal [OF demo_keys_ok _ env] by simp
qed

text \<open>The stores a computation leaves, and where it leaves the transaction.\<close>

lemma store_of_set [simp]: "store_of (set_store n s d) m = (if n = m then s else store_of d m)"
  by (simp add: store_of_def set_store_def update_conv)

lemma set_store_tx [simp]: "idb_tx (set_store n s d) = idb_tx d"
  by (simp add: set_store_def)

lemma has_store_set [simp]: "map_of (idb_stores (set_store n s d)) m = None \<longleftrightarrow> n \<noteq> m \<and> map_of (idb_stores d) m = None"
  by (simp add: set_store_def update_conv)

lemma store_of_tx [simp]: "store_of (d\<lparr>idb_tx := t\<rparr>) n = store_of d n"
  by (simp add: store_of_def)

lemma store_of_fold_clear: "store_of (fold (\<lambda>n. set_store n []) names d) m = (if m \<in> set names then [] else store_of d m)"
  by (induction names arbitrary: d) auto

lemma fold_clear_has:
  "map_of (idb_stores (fold (\<lambda>n. set_store n []) names d)) m = None \<longleftrightarrow> m \<notin> set names \<and> map_of (idb_stores d) m = None"
  by (induction names arbitrary: d) auto

definition db_opened :: "idb \<Rightarrow> bool" where
  "db_opened d = list_all (\<lambda>n. map_of (idb_stores d) n \<noteq> None) all_stores"

lemma fold_create_keeps:
  "store_of \<lparr>idb_stores = fold (\<lambda>n ss. if map_of ss n = None then ss @ [(n, [])] else ss) names ss, idb_tx = t\<rparr> m
     = store_of \<lparr>idb_stores = ss, idb_tx = t\<rparr> m"
  by (induction names arbitrary: ss) (auto simp: store_of_def map_add_def map_of_append split: option.split)

lemma fold_create_has:
  "n \<in> set names \<or> map_of ss n \<noteq> None \<Longrightarrow> map_of (fold (\<lambda>n ss. if map_of ss n = None then ss @ [(n, [])] else ss) names ss) n \<noteq> None"
  by (induction names arbitrary: ss) (auto simp: map_of_append map_add_def split: option.splits)

lemma openDB_result:
  assumes "openDB d = (Inr (), d')"
  shows "store_of d' n = store_of d n" and "db_opened d'" and "idb_tx d' = None"
proof -
  have d': "d' = d\<lparr>idb_stores := fold (\<lambda>n ss. if map_of ss n = None then ss @ [(n, [])] else ss) all_stores (idb_stores d), idb_tx := None\<rparr>"
    using assms by (simp add: openDB_def)
  show "store_of d' n = store_of d n" "idb_tx d' = None"
    using fold_create_keeps [of all_stores "idb_stores d" "idb_tx d" n] by (simp_all add: d' store_of_def)
  have "map_of (idb_stores d') m \<noteq> None" if "m \<in> set all_stores" for m
    unfolding d' using that fold_create_has [of m all_stores "idb_stores d"] by simp
  then show "db_opened d'" by (simp add: db_opened_def list_all_iff)
qed

end
