(* ===== verification/Mail_Cache.thy ===== *)
theory Mail_Cache
  imports Index_Db
begin

text \<open>
  \<^verbatim>\<open>static/mail/mail-cache.js\<close>: the encrypted cache of mail headers and envelopes. The fields of the
  singleton \<open>MailCache\<close> and the database are the state of a computation; \<open>now\<close> is the text of
  \<open>new Date().toISOString()\<close>, and every sealing is given its nonce.
\<close>

section \<open>State\<close>

definition META_KEY :: string where
  "META_KEY = ''v1''"

definition CACHE_LABEL :: string where
  "CACHE_LABEL = ''elvish-mail-cache-v1''"

record mail_cache =
  mc_db :: bool                 \<comment> \<open>\<open>this.db\<close> is set\<close>
  mc_cacheKey :: "bytes option"
  mc_accountFingerprint :: string
  mc_idb :: idb

definition new_MailCache :: "idb \<Rightarrow> mail_cache" where
  "new_MailCache d = \<lparr>mc_db = False, mc_cacheKey = None, mc_accountFingerprint = [], mc_idb = d\<rparr>"

text \<open>A computation on the database, as one on the cache.\<close>

definition on_db :: "(idb, 'a) io \<Rightarrow> (mail_cache, 'a) io" where
  "on_db m c = (case m (mc_idb c) of (r, d) \<Rightarrow> (r, c\<lparr>mc_idb := d\<rparr>))"

definition modify :: "(mail_cache \<Rightarrow> mail_cache) \<Rightarrow> (mail_cache, unit) io" where
  "modify f c = (Inr (), f c)"

section \<open>Operations\<close>

definition clearStores :: "(mail_cache, unit) io" where
  "clearStores c =
     (if \<not> mc_db c then (Inr (), c)
      else on_db (clear_stores [STORE_MAIL_META, STORE_MAIL_HEADERS, STORE_MAIL_ENVELOPES]) c)"

definition cache_meta :: "string \<Rightarrow> string \<Rightarrow> jsval" where
  "cache_meta fp now =
     JObj [(''schema_version'', jint 1), (''account_fingerprint'', JStr fp), (''updated_at'', JStr now)]"

definition stale_meta :: "string \<Rightarrow> jsval \<Rightarrow> bool" where
  "stale_meta fp existing =
     (truthy existing \<and> truthy (getp existing ''account_fingerprint'')
      \<and> \<not> strict_eq (getp existing ''account_fingerprint'') (JStr fp))"

definition ensureMeta :: "key_env \<Rightarrow> string \<Rightarrow> bytes \<Rightarrow> (mail_cache, unit) io" where
  "ensureMeta ke now nonce c =
     (case mc_cacheKey c of
        None \<Rightarrow> (Inr (), c)
      | Some key \<Rightarrow>
          if \<not> mc_db c then (Inr (), c)
          else
            (let fp = mc_accountFingerprint c in
             bindI (on_db (tx [STORE_MAIL_META] False)) (\<lambda>_.
             bindI (on_db (db_get STORE_MAIL_META META_KEY)) (\<lambda>existingEnv.
             bindI (on_db (case existingEnv of
                             None \<Rightarrow> returnI JNull
                           | Some env \<Rightarrow> await_other (Inr (openJSON_or_null ke key env)))) (\<lambda>existing.
             bindI (if stale_meta fp existing then clearStores else returnI ()) (\<lambda>_.
             bindI (on_db (await_other (sealJSON ke nonce key (cache_meta fp now)))) (\<lambda>sealed.
             bindI (on_db (tx [STORE_MAIL_META] True)) (\<lambda>_.
             bindI (on_db (db_put STORE_MAIL_META META_KEY sealed)) (\<lambda>_.
             on_db txComplete))))))) c))"

definition mc_start :: "key_env \<Rightarrow> string \<Rightarrow> bytes \<Rightarrow> jsval \<Rightarrow> bytes \<Rightarrow> (mail_cache, unit) io" where
  "mc_start ke now nonce accountFingerprint mailCacheSeed =
     (if mailCacheSeed = [] then throwI (Error ''mail cache requires mailCacheSeed'')
      else
        bindI (on_db openDB) (\<lambda>_.
        bindI (modify (\<lambda>c. c\<lparr>mc_db := True\<rparr>)) (\<lambda>_.
        bindI (on_db (await_other (deriveScopedKeyFromLabel ke mailCacheSeed CACHE_LABEL))) (\<lambda>key.
        bindI (modify (\<lambda>c. c\<lparr>mc_cacheKey := Some key,
                            mc_accountFingerprint := toUpperCase (trim (str_or_empty accountFingerprint))\<rparr>)) (\<lambda>_.
        ensureMeta ke now nonce)))))"

definition mc_purge :: "(mail_cache, unit) io" where
  "mc_purge c =
     (if mc_db c then clearStores c
      else bindI (on_db openDB) (\<lambda>_. bindI (modify (\<lambda>c. c\<lparr>mc_db := True\<rparr>)) (\<lambda>_. clearStores)) c)"

text \<open>The loop over the ids inside the transaction: the keys that have an entry, and the entries.\<close>

fun fetch_entries :: "jsval list \<Rightarrow> (idb, (string \<times> jsval) list) io" where
  "fetch_entries [] = returnI []"
| "fetch_entries (messageID # ids) =
     (let key = trim (str_or_empty messageID) in
      if key = [] then fetch_entries ids
      else
        bindI (db_get STORE_MAIL_HEADERS key) (\<lambda>env.
        bindI (fetch_entries ids) (\<lambda>rest.
        returnI (case env of Some e \<Rightarrow> (if truthy e then (key, e) # rest else rest) | None \<Rightarrow> rest))))"

text \<open>\<open>out[key] = opened\<close> for the entries that open to something truthy.\<close>

definition open_entries :: "key_env \<Rightarrow> bytes \<Rightarrow> (string \<times> jsval) list \<Rightarrow> jsval" where
  "open_entries ke key entries =
     fold (\<lambda>(k, env) out. let v = openJSON_or_null ke key env in if truthy v then setp out k v else out) entries (JObj [])"

definition getHeaders :: "key_env \<Rightarrow> jsval \<Rightarrow> (mail_cache, jsval) io" where
  "getHeaders ke messageIDs c =
     (case mc_cacheKey c of
        None \<Rightarrow> (Inr (JObj []), c)
      | Some key \<Rightarrow>
          if \<not> mc_db c \<or> \<not> isArray messageIDs \<or> js_elems messageIDs = [] then (Inr (JObj []), c)
          else
            bindI (on_db (tx [STORE_MAIL_HEADERS] False)) (\<lambda>_.
            bindI (on_db (fetch_entries (js_elems messageIDs))) (\<lambda>entries.
            if entries = [] then returnI (JObj [])
            else on_db (await_other (Inr (open_entries ke key entries))))) c)"

definition versioned :: "jsval \<Rightarrow> jsval \<Rightarrow> string \<Rightarrow> jsval" where
  "versioned version payload now =
     JObj [(''version'', JStr (str_or_empty version)), (''payload'', payload), (''cached_at'', JStr now)]"

definition put_sealed :: "string \<Rightarrow> key_env \<Rightarrow> string \<Rightarrow> bytes \<Rightarrow> jsval \<Rightarrow> jsval \<Rightarrow> jsval \<Rightarrow> (mail_cache, unit) io" where
  "put_sealed st ke now nonce messageID version payload c =
     (case mc_cacheKey c of
        None \<Rightarrow> (Inr (), c)
      | Some key \<Rightarrow>
          if \<not> mc_db c \<or> \<not> truthy messageID \<or> \<not> truthy payload then (Inr (), c)
          else
            bindI (on_db (await_other (sealJSON ke nonce key (versioned version payload now)))) (\<lambda>sealed.
            bindI (on_db (tx [st] True)) (\<lambda>_.
            bindI (on_db (db_put st (to_string messageID) sealed)) (\<lambda>_.
            on_db txComplete))) c)"

definition putHeader :: "key_env \<Rightarrow> string \<Rightarrow> bytes \<Rightarrow> jsval \<Rightarrow> jsval \<Rightarrow> jsval \<Rightarrow> (mail_cache, unit) io" where
  "putHeader ke now nonce messageID version payload = put_sealed STORE_MAIL_HEADERS ke now nonce messageID version payload"

definition putEnvelope :: "key_env \<Rightarrow> string \<Rightarrow> bytes \<Rightarrow> jsval \<Rightarrow> jsval \<Rightarrow> jsval \<Rightarrow> (mail_cache, unit) io" where
  "putEnvelope ke now nonce messageID version payload = put_sealed STORE_MAIL_ENVELOPES ke now nonce messageID version payload"

definition getEnvelope :: "key_env \<Rightarrow> jsval \<Rightarrow> (mail_cache, jsval) io" where
  "getEnvelope ke messageID c =
     (case mc_cacheKey c of
        None \<Rightarrow> (Inr JNull, c)
      | Some key \<Rightarrow>
          if \<not> mc_db c \<or> \<not> truthy messageID then (Inr JNull, c)
          else
            bindI (on_db (tx [STORE_MAIL_ENVELOPES] False)) (\<lambda>_.
            bindI (on_db (db_get STORE_MAIL_ENVELOPES (to_string messageID))) (\<lambda>env.
            case env of
              None \<Rightarrow> returnI JNull
            | Some e \<Rightarrow> if \<not> truthy e then returnI JNull
                        else on_db (await_other (Inr (openJSON_or_null ke key e))))) c)"

definition extractVersion :: "jsval \<Rightarrow> string" where
  "extractVersion message =
     (if \<not> truthy message then []
      else join '':'' (map (\<lambda>k. str_or_empty (getp message k))
             [''id'', ''body_blob_ref'', ''body_size_bytes'', ''header_ciphertext_b64'']))"

definition unwrapVersionedPayload :: "jsval \<Rightarrow> jsval \<Rightarrow> jsval" where
  "unwrapVersionedPayload entry version =
     (if \<not> truthy entry \<or> \<not> strict_eq (getp entry ''version'') (JStr (str_or_empty version))
         \<or> \<not> truthy (getp entry ''payload'') then JNull
      else getp entry ''payload'')"

section \<open>Lemmas\<close>

text \<open>A started cache: the database is open and a key is set.\<close>

definition started :: "mail_cache \<Rightarrow> bytes \<Rightarrow> bool" where
  "started c key = (mc_db c \<and> mc_cacheKey c = Some key \<and> db_opened (mc_idb c))"

lemma opened_names:
  "db_opened d \<Longrightarrow> map_of (idb_stores d) STORE_MAIL_META \<noteq> None"
  "db_opened d \<Longrightarrow> map_of (idb_stores d) STORE_MAIL_HEADERS \<noteq> None"
  "db_opened d \<Longrightarrow> map_of (idb_stores d) STORE_MAIL_ENVELOPES \<noteq> None"
  by (simp_all add: db_opened_def all_stores_def)

lemma opened_set_store [simp]: "db_opened d \<Longrightarrow> db_opened (set_store n s d)"
  by (auto simp: db_opened_def list_all_iff simp del: not_None_eq)

lemma opened_tx [simp]: "db_opened (d\<lparr>idb_tx := t\<rparr>) = db_opened d"
  by (simp add: db_opened_def)

lemma set_store_idb_tx: "set_store n s (d\<lparr>idb_tx := t\<rparr>) = (set_store n s d)\<lparr>idb_tx := t\<rparr>"
  by (simp add: set_store_def)

text \<open>One put into one store: the store is updated, and no transaction stays open.\<close>

lemma put_sealed_result:
  assumes "started c key" and "st = STORE_MAIL_HEADERS \<or> st = STORE_MAIL_ENVELOPES"
    and "truthy messageID" and "truthy payload" and "sealJSON ke nonce key (versioned version payload now) = Inr env"
  shows "put_sealed st ke now nonce messageID version payload c =
    (Inr (), c\<lparr>mc_idb := (set_store st (AList.update (to_string messageID) env (store_of (mc_idb c) st)) (mc_idb c))\<lparr>idb_tx := None\<rparr>\<rparr>)"
proof -
  have "map_of (idb_stores (mc_idb c)) st \<noteq> None" using assms(1,2) opened_names by (auto simp: started_def)
  then show ?thesis
    using assms by (simp add: started_def put_sealed_def bindI_def on_db_def await_other_def tx_def db_put_def request_error_def
        txComplete_def set_store_idb_tx)
qed

lemma getEnvelope_result:
  assumes "started c key" and "truthy messageID" and "map_of (store_of (mc_idb c) STORE_MAIL_ENVELOPES) (to_string messageID) = Some env"
    and "truthy env"
  shows "fst (getEnvelope ke messageID c) = Inr (openJSON_or_null ke key env)"
  using assms opened_names(3) [of "mc_idb c"]
  by (simp add: started_def getEnvelope_def bindI_def on_db_def tx_def db_get_def request_error_def await_other_def)

lemma envelope_entry:
  assumes "key_env_ok ke" and "started c key" and "truthy messageID" and "truthy payload" and "json_ok payload"
    and "putEnvelope ke now nonce messageID version payload c = (Inr (), c')"
  shows "fst (getEnvelope ke messageID c') = Inr (versioned version payload now)" and "started c' key"
proof -
  have ok: "json_ok (versioned version payload now)" using assms(5) by (simp add: versioned_def)
  obtain env where env: "sealJSON ke nonce key (versioned version payload now) = Inr env"
    using assms(2,3,4,6)
    by (cases "sealJSON ke nonce key (versioned version payload now)")
       (auto simp: putEnvelope_def put_sealed_def started_def bindI_def on_db_def await_other_def)
  have c': "c' = c\<lparr>mc_idb := (set_store STORE_MAIL_ENVELOPES (AList.update (to_string messageID) env
      (store_of (mc_idb c) STORE_MAIL_ENVELOPES)) (mc_idb c))\<lparr>idb_tx := None\<rparr>\<rparr>"
    using assms(6) put_sealed_result [OF assms(2) _ assms(3,4) env] by (simp add: putEnvelope_def)
  show started: "started c' key" using assms(2) by (simp add: c' started_def)
  have "map_of (store_of (mc_idb c') STORE_MAIL_ENVELOPES) (to_string messageID) = Some env"
    by (simp add: c' update_conv)
  then have "fst (getEnvelope ke messageID c') = Inr (openJSON_or_null ke key env)"
    using started assms(3) sealed_truthy [OF env] by (intro getEnvelope_result)
  then show "fst (getEnvelope ke messageID c') = Inr (versioned version payload now)"
    using openJSON_sealJSON [OF assms(1) ok env] by (simp add: openJSON_or_null_def)
qed

text \<open>
  What the cache stores, it returns: after \<open>putEnvelope\<close> on a started cache, \<open>getEnvelope\<close> of the same
  id returns an entry from which \<open>unwrapVersionedPayload\<close> takes the payload for the same version, and
  nothing for another version.
\<close>

theorem envelope_roundtrip:
  assumes "key_env_ok ke" and "started c key" and "truthy messageID" and "truthy payload" and "json_ok payload"
    and "putEnvelope ke now nonce messageID version payload c = (Inr (), c')"
  shows "\<exists>entry. fst (getEnvelope ke messageID c') = Inr entry
    \<and> unwrapVersionedPayload entry version = payload
    \<and> (unwrapVersionedPayload entry other = JNull \<or> str_or_empty other = str_or_empty version)"
  using envelope_entry(1) [OF assms] assms(4) by (auto simp: versioned_def unwrapVersionedPayload_def)

definition demo_cache :: mail_cache where
  "demo_cache = \<lparr>mc_db = True, mc_cacheKey = Some [9], mc_accountFingerprint = ''F'', mc_idb = snd (openDB empty_idb)\<rparr>"

lemma demo_cache_started: "started demo_cache [9]"
proof -
  have "openDB empty_idb = (Inr (), snd (openDB empty_idb))" by (simp add: openDB_def)
  from openDB_result(2) [OF this] show ?thesis by (simp add: demo_cache_def started_def)
qed

lemma demo_seal: "\<exists>env. sealJSON demo_keys nonce key v = Inr env"
  by (simp add: sealJSON_def demo_keys_def demo_crypto_def)

theorem envelope_roundtrip_witness:
  "\<exists>c' entry. putEnvelope demo_keys ''t'' [1] (JStr ''m1'') (JStr ''v1'') (JStr ''body'') demo_cache = (Inr (), c')
    \<and> fst (getEnvelope demo_keys (JStr ''m1'') c') = Inr entry
    \<and> unwrapVersionedPayload entry (JStr ''v1'') = JStr ''body''
    \<and> unwrapVersionedPayload entry (JStr ''v2'') = JNull"
proof -
  obtain env where "sealJSON demo_keys [1] [9] (versioned (JStr ''v1'') (JStr ''body'') ''t'') = Inr env" using demo_seal by blast
  from put_sealed_result [OF demo_cache_started _ _ _ this, of STORE_MAIL_ENVELOPES "JStr ''m1''"] obtain c' where
      put: "putEnvelope demo_keys ''t'' [1] (JStr ''m1'') (JStr ''v1'') (JStr ''body'') demo_cache = (Inr (), c')"
    by (auto simp: putEnvelope_def)
  from envelope_roundtrip [OF demo_keys_ok demo_cache_started _ _ _ put, of "JStr ''v2''"] put
  show ?thesis by auto
qed

lemma clearStores_result:
  assumes "mc_db c" and "db_opened (mc_idb c)"
  shows "clearStores c = (Inr (), c\<lparr>mc_idb := (fold (\<lambda>n. set_store n []) [STORE_MAIL_META, STORE_MAIL_HEADERS, STORE_MAIL_ENVELOPES]
      ((mc_idb c)\<lparr>idb_tx := Some ([STORE_MAIL_META, STORE_MAIL_HEADERS, STORE_MAIL_ENVELOPES], True)\<rparr>))\<lparr>idb_tx := None\<rparr>\<rparr>)"
  using assms opened_names [of "mc_idb c"]
  by (simp add: clearStores_def on_db_def clear_stores_def bindI_def tx_def)

text \<open>
  Purging erases the cached mail and nothing else: on a cache that was never started as on a
  started one, \<open>purge\<close> succeeds, leaves the three stores of the cache empty, and keeps the other
  stores of the database as they were.
\<close>

theorem purge_erases_mail:
  assumes "db_opened (mc_idb c) \<or> \<not> mc_db c"
  shows "\<exists>c'. mc_purge c = (Inr (), c')
    \<and> (\<forall>n. store_of (mc_idb c') n =
           (if n \<in> {STORE_MAIL_META, STORE_MAIL_HEADERS, STORE_MAIL_ENVELOPES} then [] else store_of (mc_idb c) n))"
proof -
  have "\<exists>c0. mc_purge c = clearStores c0 \<and> mc_db c0 \<and> db_opened (mc_idb c0) \<and> (\<forall>n. store_of (mc_idb c0) n = store_of (mc_idb c) n)"
  proof (cases "mc_db c")
    case True
    then show ?thesis using assms by (auto simp: mc_purge_def)
  next
    case False
    obtain d' where d': "openDB (mc_idb c) = (Inr (), d')" by (simp add: openDB_def)
    show ?thesis using False openDB_result [OF d']
      by (auto simp: mc_purge_def bindI_def on_db_def modify_def d' intro!: exI [of _ "c\<lparr>mc_idb := d', mc_db := True\<rparr>"])
  qed
  then obtain c0 where c0: "mc_purge c = clearStores c0" "mc_db c0" "db_opened (mc_idb c0)"
      "\<And>n. store_of (mc_idb c0) n = store_of (mc_idb c) n" by blast
  show ?thesis
    using clearStores_result [OF c0(2,3)] c0(4) by (auto simp: c0(1))
qed

theorem purge_erases_mail_witness:
  "\<exists>c'. mc_purge demo_cache = (Inr (), c') \<and> store_of (mc_idb c') STORE_MAIL_HEADERS = []"
proof -
  have "db_opened (mc_idb demo_cache) \<or> \<not> mc_db demo_cache" using demo_cache_started by (simp add: started_def)
  from purge_erases_mail [OF this] show ?thesis by auto
qed

lemma fetch_entries_result:
  "idb_tx d = Some ([STORE_MAIL_HEADERS], rw) \<Longrightarrow> \<exists>es. fetch_entries ids d = (Inr es, d)"
proof (induction ids)
  case (Cons i ids)
  then obtain es where "fetch_entries ids d = (Inr es, d)" by blast
  with Cons.prems show ?case by (auto simp: Let_def bindI_def db_get_def request_error_def returnI_def)
qed (simp add: returnI_def)

lemma getHeaders_total: "started c key \<Longrightarrow> \<exists>v. fst (getHeaders ke ids c) = Inr v"
  using fetch_entries_result [of "(mc_idb c)\<lparr>idb_tx := Some ([STORE_MAIL_HEADERS], False)\<rparr>" False "js_elems ids"]
    opened_names(2) [of "mc_idb c"]
  by (auto simp: getHeaders_def started_def bindI_def on_db_def tx_def await_other_def returnI_def)

lemma getEnvelope_total: "started c key \<Longrightarrow> \<exists>v. fst (getEnvelope ke i c) = Inr v"
  using opened_names(3) [of "mc_idb c"]
  by (auto simp: getEnvelope_def started_def bindI_def on_db_def tx_def db_get_def request_error_def await_other_def returnI_def
      split: option.split)

lemma put_sealed_total:
  assumes "started c key" and "st = STORE_MAIL_HEADERS \<or> st = STORE_MAIL_ENVELOPES"
    and "sealJSON ke nonce key (versioned version payload now) = Inr env"
  shows "fst (put_sealed st ke now nonce i version payload c) = Inr ()"
proof (cases "truthy i \<and> truthy payload")
  case True
  then show ?thesis using put_sealed_result [OF assms(1,2) _ _ assms(3)] by simp
next
  case False
  then show ?thesis using assms(1) by (auto simp: put_sealed_def started_def)
qed

lemma ensureMeta_total:
  assumes "started c key" and "sealJSON ke nonce key (cache_meta (mc_accountFingerprint c) now) = Inr env"
  shows "fst (ensureMeta ke now nonce c) = Inr ()"
proof -
  have has: "map_of (idb_stores (mc_idb c)) STORE_MAIL_META \<noteq> None" using assms(1) opened_names by (simp add: started_def)
  have clr: "clearStores (c\<lparr>mc_idb := (mc_idb c)\<lparr>idb_tx := t\<rparr>\<rparr>) =
      (Inr (), c\<lparr>mc_idb := (fold (\<lambda>n. set_store n []) [STORE_MAIL_META, STORE_MAIL_HEADERS, STORE_MAIL_ENVELOPES]
        ((mc_idb c)\<lparr>idb_tx := Some ([STORE_MAIL_META, STORE_MAIL_HEADERS, STORE_MAIL_ENVELOPES], True)\<rparr>))\<lparr>idb_tx := None\<rparr>\<rparr>)" for t
    using assms(1) clearStores_result [of "c\<lparr>mc_idb := (mc_idb c)\<lparr>idb_tx := t\<rparr>\<rparr>"] by (simp add: started_def)
  show ?thesis
    using assms has
    by (auto simp: ensureMeta_def started_def Let_def bindI_def on_db_def tx_def db_get_def db_put_def request_error_def
        await_other_def returnI_def txComplete_def clr split: option.split)
qed

text \<open>
  C33. The cache never uses a transaction that has ended: on a started cache, reading headers and
  envelopes always succeeds, and writing a header, an envelope or the metadata succeeds whenever the
  value can be sealed.
\<close>

theorem cache_respects_transactions:
  assumes "started c key" and "\<And>v. \<exists>env. sealJSON ke nonce key v = Inr env"
  shows "(\<exists>v. fst (getHeaders ke ids c) = Inr v) \<and> (\<exists>v. fst (getEnvelope ke i c) = Inr v)
    \<and> fst (putHeader ke now nonce i version payload c) = Inr ()
    \<and> fst (putEnvelope ke now nonce i version payload c) = Inr ()
    \<and> fst (ensureMeta ke now nonce c) = Inr ()"
  using assms getHeaders_total getEnvelope_total put_sealed_total ensureMeta_total
  unfolding putHeader_def putEnvelope_def by (metis (no_types, lifting))

theorem cache_respects_transactions_witness:
  "fst (putHeader demo_keys ''t'' [1] (JStr ''m'') (JStr ''v'') (JStr ''x'') demo_cache) = Inr ()
   \<and> fst (ensureMeta demo_keys ''t'' [1] demo_cache) = Inr ()"
  using cache_respects_transactions [OF demo_cache_started demo_seal, of "JArr []" "JStr ''m''" "''t''" "[1]" "JStr ''v''" "JStr ''x''"]
  by blast

end
