(* ===== verification/Vault_Account.thy ===== *)
theory Vault_Account
  imports Key_Vault
begin

text \<open>
  The account key of the vault: how the storages and the trusted-device flag behave, how unlocking
  binds the password to the published key, and what locking, idling and restoring leave.
\<close>

section \<open>Lemmas: storage\<close>

named_theorems vault_simps

lemma set_area_sel [vault_simps]:
  "area_store (set_area a w v) b = (if a = b then Some w else area_store v b)"
  "v_accountPrivateKey (set_area a w v) = v_accountPrivateKey v"
  "v_accountPublicKey (set_area a w v) = v_accountPublicKey v"
  "v_accountArmoredPriv (set_area a w v) = v_accountArmoredPriv v"
  "v_accountFingerprint (set_area a w v) = v_accountFingerprint v"
  "v_identities (set_area a w v) = v_identities v"
  "v_defaultIdentityFingerprint (set_area a w v) = v_defaultIdentityFingerprint v"
  "v_lastTouchMs (set_area a w v) = v_lastTouchMs v"
  "v_idleMs (set_area a w v) = v_idleMs v"
  "v_timer (set_area a w v) = v_timer v"
  by (cases a; cases b; simp add: set_area_def area_store_def)+

lemma area_store_touch [vault_simps]: "area_store (touch now v) a = area_store v a"
  by (cases a) (simp_all add: area_store_def touch_def)

text \<open>The part of the vault in memory.\<close>

definition vault_memory :: "vault \<Rightarrow> string option \<times> string option \<times> string \<times> string \<times> (string \<times> vault_ident) list \<times> string" where
  "vault_memory v = (v_accountPrivateKey v, v_accountPublicKey v, v_accountArmoredPriv v, v_accountFingerprint v,
     v_identities v, v_defaultIdentityFingerprint v)"

lemma try_set_frame [vault_simps]:
  "vault_memory (try_set a k x v) = vault_memory v"
  "v_idleMs (try_set a k x v) = v_idleMs v" "v_timer (try_set a k x v) = v_timer v"
  "v_lastTouchMs (try_set a k x v) = v_lastTouchMs v"
  by (auto simp: try_set_def vault_memory_def vault_simps split: option.split sum.split)

lemma try_remove_frame [vault_simps]:
  "vault_memory (try_remove a k v) = vault_memory v"
  "v_idleMs (try_remove a k v) = v_idleMs v" "v_timer (try_remove a k v) = v_timer v"
  "v_lastTouchMs (try_remove a k v) = v_lastTouchMs v"
  by (auto simp: try_remove_def vault_memory_def vault_simps split: option.split sum.split)

lemma clear_frame [vault_simps]:
  "vault_memory (clearAllPersistedCaches v) = vault_memory v"
  "v_idleMs (clearAllPersistedCaches v) = v_idleMs v" "v_timer (clearAllPersistedCaches v) = v_timer v"
  "v_lastTouchMs (clearAllPersistedCaches v) = v_lastTouchMs v"
  by (simp_all add: clearAllPersistedCaches_def vault_simps)

lemma persist_frame [vault_simps]:
  "vault_memory (persistAccountCache env now se pub v) = vault_memory v"
  "v_idleMs (persistAccountCache env now se pub v) = v_idleMs v"
  "v_timer (persistAccountCache env now se pub v) = v_timer v"
  by (auto simp: persistAccountCache_def vault_simps split: option.split)

text \<open>An item of an area, as \<open>getItem\<close> in a \<open>try\<close> sees it.\<close>

definition area_item :: "vault \<Rightarrow> area \<Rightarrow> string \<Rightarrow> string option" where
  "area_item v a k =
     (case area_store v a of
        None \<Rightarrow> None
      | Some w \<Rightarrow> (case getItem w k of Inl _ \<Rightarrow> None | Inr x \<Rightarrow> x))"

lemma flag_in_item: "flag_in v a = (area_item v a TRUSTED_DEVICE_KEY = Some ''1'')"
  by (simp add: flag_in_def area_item_def split: option.split sum.split)

lemma area_item_remove:
  "area_item (try_remove a k v) b k' = (if a = b \<and> k = k' then None else area_item v b k')"
  by (cases "area_store v a")
     (auto simp: area_item_def try_remove_def vault_simps removeItem_def getItem_def split: option.split)

lemma area_item_set_other: "k \<noteq> k' \<or> a \<noteq> b \<Longrightarrow> area_item (try_set a k x v) b k' = area_item v b k'"
  by (cases "area_store v a")
     (auto simp: area_item_def try_set_def vault_simps setItem_def getItem_def split: option.split)

lemma area_item_set_same:
  "area_store v a = Some w \<Longrightarrow> available w \<Longrightarrow> area_item (try_set a k x v) a k = Some x"
  by (auto simp: area_item_def try_set_def vault_simps setItem_def getItem_def available_def)

lemma area_item_clear: "area_item (clearAllPersistedCaches v) a k = (if k = PERSIST_KEY then None else area_item v a k)"
  by (cases a) (auto simp: clearAllPersistedCaches_def area_item_remove)

text \<open>
  The mutual recursion of \<open>storage\<close> and \<open>readTrustedDeviceFlag\<close>, solved. Without the flag in the
  session storage every depth gives the same answer.
\<close>

lemma flag_recursion_untrusted:
  assumes "\<not> flag_in v Session"
  shows "readTrustedDeviceFlag v (n + 3) = Inr False
    \<and> storage v (n + 3) = Inr (if v_session v = None then None else Some Session)"
proof (induction n rule: less_induct)
  case (less n)
  show ?case
  proof (cases "n < 2")
    case True
    then have "n = 0 \<or> n = 1" by arith
    then show ?thesis using assms by (auto simp: numeral_3_eq_3)
  next
    case False
    then obtain m where n: "n = m + 2" by (metis add.commute le_add_diff_inverse not_less)
    have "readTrustedDeviceFlag v (m + 3) = Inr False"
      "storage v (m + 3) = Inr (if v_session v = None then None else Some Session)"
      using less [of m] n by auto
    moreover have "readTrustedDeviceFlag v (m + 4) = Inr False"
      "storage v (m + 4) = Inr (if v_session v = None then None else Some Session)"
      using less [of "m + 1"] n by (auto simp: add.commute)
    ultimately show ?thesis using assms n by (auto simp: numeral_eq_Suc)
  qed
qed

text \<open>With the flag in the session storage only, the answer alternates with the depth.\<close>

lemma flag_recursion_alternates:
  assumes "flag_in v Session" and "\<not> flag_in v Local" and "v_local v \<noteq> None"
  shows "readTrustedDeviceFlag v (n + 3) = Inr (n mod 4 = 1 \<or> n mod 4 = 2)
    \<and> storage v (n + 3) = Inr (Some (if n mod 4 = 2 \<or> n mod 4 = 3 then Local else Session))"
proof -
  have ses: "v_session v \<noteq> None" using assms(1) by (cases "v_session v") (auto simp: flag_in_def area_store_def)
  show ?thesis
  proof (induction n)
    case 0
    show ?case using ses by (simp add: numeral_3_eq_3)
  next
    case (Suc n)
    have "n mod 4 = 0 \<or> n mod 4 = 1 \<or> n mod 4 = 2 \<or> n mod 4 = 3" by arith
    moreover have "Suc n + 3 = Suc (n + 3)" by simp
    ultimately show ?case using Suc.IH assms ses
      unfolding \<open>Suc n + 3 = Suc (n + 3)\<close> storage.simps(2) readTrustedDeviceFlag.simps(2)
      by (elim disjE) (simp_all add: mod_Suc)
  qed
qed

lemma untrusted_storage:
  "\<not> flag_in v Session \<Longrightarrow> the_storage env v = (if v_session v = None then None else Some Session)"
  "\<not> flag_in v Session \<Longrightarrow> \<not> isTrustedDevice env v"
  using flag_recursion_untrusted [of v "ve_depth env"] by (simp_all add: the_storage_def isTrustedDevice_def)

section \<open>Lemmas: fingerprints\<close>

lemma upper_char_cases: "upper_char c = [c] \<or> code_unit c = 223 \<or> (\<exists>d. upper_char c = [d] \<and> code_unit d = code_unit c - 32
    \<and> (97 \<le> code_unit c \<and> code_unit c \<le> 122 \<or> 224 \<le> code_unit c \<and> code_unit c \<le> 254 \<and> code_unit c \<noteq> 247))"
  by (auto simp: upper_char_def Let_def code_unit_def)

lemma upper_char_idem: "d \<in> set (upper_char c) \<Longrightarrow> upper_char d = [d]"
  using upper_char_cases [of c] by (auto simp: upper_char_def Let_def code_unit_def split: if_splits)

lemma upper_char_nonspace: "d \<in> set (upper_char c) \<Longrightarrow> \<not> is_space c \<Longrightarrow> \<not> is_space d"
  using upper_char_cases [of c] by (auto simp: upper_char_def is_space_def Let_def code_unit_def split: if_splits)

lemma upper_char_nonempty [simp]: "upper_char c \<noteq> []"
  by (auto simp: upper_char_def Let_def)

lemma toUpperCase_Nil_iff [simp]: "toUpperCase s = [] \<longleftrightarrow> s = []"
  by (cases s) (simp_all add: toUpperCase_def)

lemma toUpperCase_fixed: "\<forall>c \<in> set s. upper_char c = [c] \<Longrightarrow> toUpperCase s = s"
  by (induction s) (simp_all add: toUpperCase_def)

lemma toUpperCase_idem [simp]: "toUpperCase (toUpperCase s) = toUpperCase s"
  by (rule toUpperCase_fixed) (auto simp: toUpperCase_def dest: upper_char_idem)

lemma normalizeFingerprint_idem [simp]: "normalizeFingerprint (JStr (normalizeFingerprint fp)) = normalizeFingerprint fp"
proof -
  have "filter (\<lambda>c. \<not> is_space c) (normalizeFingerprint fp) = normalizeFingerprint fp"
    by (rule filter_True) (auto simp: normalizeFingerprint_def toUpperCase_def dest: upper_char_nonspace)
  then have "normalizeFingerprint (JStr (normalizeFingerprint fp)) = toUpperCase (normalizeFingerprint fp)"
    by (simp add: normalizeFingerprint_def [of "JStr _"])
  then show ?thesis by (simp add: normalizeFingerprint_def)
qed

lemma fingerprintKeyId16_Nil_iff [simp]: "fingerprintKeyId16 fp = [] \<longleftrightarrow> normalizeFingerprint fp = []"
  by (auto simp: fingerprintKeyId16_def Let_def slice_from_def slice_pos_def)

lemma fingerprintKeyId16_cong:
  "normalizeFingerprint a = normalizeFingerprint b \<Longrightarrow> fingerprintKeyId16 a = fingerprintKeyId16 b"
  by (simp add: fingerprintKeyId16_def)

lemma fingerprintKeyId16_suffix: "suffix (fingerprintKeyId16 fp) (normalizeFingerprint fp)"
  by (auto simp: fingerprintKeyId16_def Let_def slice_from_def suffix_drop)

lemma length_fingerprintKeyId16: "length (fingerprintKeyId16 fp) \<le> 16"
  by (auto simp: fingerprintKeyId16_def Let_def slice_from_def slice_pos_def)

lemma fingerprintKeyId16_normalize [simp]:
  "fingerprintKeyId16 (JStr (normalizeFingerprint fp)) = fingerprintKeyId16 fp"
  by (simp add: fingerprintKeyId16_def)

lemma fingerprintsEquivalent_alt:
  "fingerprintsEquivalent a b \<longleftrightarrow> normalizeFingerprint a \<noteq> [] \<and> fingerprintKeyId16 a = fingerprintKeyId16 b"
proof (cases "normalizeFingerprint a = normalizeFingerprint b")
  case True
  then have "fingerprintKeyId16 a = fingerprintKeyId16 b" by (rule fingerprintKeyId16_cong)
  with True show ?thesis by (simp add: fingerprintsEquivalent_def Let_def)
next
  case False
  have "normalizeFingerprint a \<noteq> [] \<Longrightarrow> fingerprintKeyId16 a = fingerprintKeyId16 b \<Longrightarrow> normalizeFingerprint b \<noteq> []"
    using fingerprintKeyId16_Nil_iff [of a] fingerprintKeyId16_Nil_iff [of b] by simp
  with False show ?thesis by (auto simp: fingerprintsEquivalent_def Let_def)
qed

section \<open>Lemmas: the account\<close>

text \<open>
  \<open>ElvishKeygen.pgpFingerprint\<close> reads the key with \<open>openpgp.readKey\<close>, which accepts a key every
  time it is given or never.
\<close>

definition pgp_ok :: "vault_env \<Rightarrow> bool" where
  "pgp_ok env = (\<forall>pub fp. cr_getFingerprint (ve_cr env) pub = Inr fp \<longrightarrow> (\<exists>k. pg_readKey (ve_pg env) pub = Inr k))"

text \<open>The private key belongs to the published key.\<close>

definition key_matches :: "vault_env \<Rightarrow> string \<Rightarrow> string \<Rightarrow> string \<Rightarrow> bool" where
  "key_matches env priv pub fp =
     (fp \<noteq> [] \<and> normalizeFingerprint (JStr (pg_privFingerprint (ve_pg env) priv)) = fp
      \<and> (case pgpFingerprint (ve_cr env) pub of Inl _ \<Rightarrow> False | Inr f \<Rightarrow> normalizeFingerprint (JStr f) = fp))"

definition hydrated :: "string \<Rightarrow> string \<Rightarrow> string \<Rightarrow> string \<Rightarrow> vault \<Rightarrow> vault" where
  "hydrated priv pubKey armoredPriv fp v =
     v\<lparr>v_accountPrivateKey := Some priv, v_accountPublicKey := Some pubKey, v_accountArmoredPriv := armoredPriv,
       v_accountFingerprint := fp, v_identities := [], v_defaultIdentityFingerprint := []\<rparr>"

lemma hydrate_cases:
  assumes "pgp_ok env" and "hydrateUnlockedAccount env now armoredPriv armoredPub ef v = (r, v')"
  obtains (error) e where "r = Inl e" "v' = v"
  | (unlocked) fp priv pubKey where "r = Inr fp" "cr_openpgp_defined (ve_cr env)"
      "pg_readPrivateKey (ve_pg env) armoredPriv = Inr priv" "pg_readKey (ve_pg env) armoredPub = Inr pubKey"
      "key_matches env priv armoredPub fp" "truthy ef \<Longrightarrow> fingerprintsEquivalent ef (JStr fp)"
      "v' = touch now (hydrated priv pubKey armoredPriv fp v)"
proof (cases r)
  case (Inl e)
  have "v' = v"
    using assms by (auto simp: Inl hydrateUnlockedAccount_def Let_def pgp_ok_def pgpFingerprint_def bindR_eq_Inr
        split: if_splits sum.splits)
  with Inl show ?thesis by (rule error)
next
  case (Inr fp)
  obtain priv where priv: "pg_readPrivateKey (ve_pg env) armoredPriv = Inr priv"
    using assms(2) Inr by (auto simp: hydrateUnlockedAccount_def split: if_splits sum.splits)
  obtain f where f: "pgpFingerprint (ve_cr env) armoredPub = Inr f"
    using assms(2) Inr priv by (auto simp: hydrateUnlockedAccount_def split: if_splits sum.splits)
  then obtain pubKey where pub: "pg_readKey (ve_pg env) armoredPub = Inr pubKey"
    using assms(1) by (auto simp: pgp_ok_def pgpFingerprint_def bindR_eq_Inr)
  show ?thesis
    using assms(2) Inr
    by (intro unlocked [OF Inr _ priv pub])
       (auto simp: hydrateUnlockedAccount_def key_matches_def hydrated_def Let_def priv f pub split: if_splits)
qed

lemma hydrate_ok:
  assumes "cr_openpgp_defined (ve_cr env)" and "pg_readPrivateKey (ve_pg env) armoredPriv = Inr priv"
    and "pg_readKey (ve_pg env) armoredPub = Inr pubKey" and "key_matches env priv armoredPub fp"
    and "truthy ef \<Longrightarrow> fingerprintsEquivalent ef (JStr fp)"
  shows "hydrateUnlockedAccount env now armoredPriv armoredPub ef v = (Inr fp, touch now (hydrated priv pubKey armoredPriv fp v))"
  using assms(4) by (cases "pgpFingerprint (ve_cr env) armoredPub")
    (auto simp: hydrateUnlockedAccount_def key_matches_def hydrated_def Let_def assms(1-3) dest: assms(5))

lemma key_matches_normal: "key_matches env priv pub fp \<Longrightarrow> normalizeFingerprint (JStr fp) = fp"
  using normalizeFingerprint_idem [of "JStr (pg_privFingerprint (ve_pg env) priv)"] by (simp add: key_matches_def)

lemma touch_sel [vault_simps]:
  "vault_memory (touch now v) = vault_memory v" "v_idleMs (touch now v) = v_idleMs v"
  "v_timer (touch now v) = Some (now + v_idleMs v)"
  "v_session (touch now v) = v_session v" "v_local (touch now v) = v_local v"
  by (simp_all add: vault_memory_def touch_def)

lemma touch_fields [vault_simps]:
  "v_accountPrivateKey (touch now v) = v_accountPrivateKey v"
  "v_accountArmoredPriv (touch now v) = v_accountArmoredPriv v"
  "v_accountFingerprint (touch now v) = v_accountFingerprint v"
  "v_identities (touch now v) = v_identities v"
  "v_defaultIdentityFingerprint (touch now v) = v_defaultIdentityFingerprint v"
  by (simp_all add: touch_def)

lemma hydrated_sel [vault_simps]:
  "vault_memory (hydrated priv pk ap fp v) = (Some priv, Some pk, ap, fp, [], [])"
  "v_accountArmoredPriv (hydrated priv pk ap fp v) = ap" "v_accountFingerprint (hydrated priv pk ap fp v) = fp"
  "v_idleMs (hydrated priv pk ap fp v) = v_idleMs v"
  "area_store (hydrated priv pk ap fp v) a = area_store v a"
  "v_session (hydrated priv pk ap fp v) = v_session v"
  by (cases a; simp add: hydrated_def vault_memory_def area_store_def)+

lemma vault_memory_fields:
  "vault_memory v = (a, b, c, d, e, f) \<longleftrightarrow> v_accountPrivateKey v = a \<and> v_accountPublicKey v = b
    \<and> v_accountArmoredPriv v = c \<and> v_accountFingerprint v = d \<and> v_identities v = e \<and> v_defaultIdentityFingerprint v = f"
  by (simp add: vault_memory_def)

lemma flag_in_cong: "(\<And>a. area_store v a = area_store v' a) \<Longrightarrow> flag_in v a = flag_in v' a"
  by (simp add: flag_in_def)

text \<open>
  C10. Unlocking binds the password to the account: when \<open>unlockAccount\<close> returns, the vault holds the
  private key that the password opened in the row, its fingerprint is that of the row's published key
  (and agrees with the row's fingerprint, if it has one), and no identity is unlocked yet. When it
  throws, the vault and both storages are unchanged.
\<close>

theorem unlock_binds_published_key:
  assumes "pgp_ok env" and "unlockAccount env now row pw email v = (r, v')"
  shows "case r of
      Inl e \<Rightarrow> v' = v
    | Inr fp \<Rightarrow> \<exists>armored priv pubKey. unwrap_account env row pw = Inr armored
        \<and> pg_readPrivateKey (ve_pg env) armored = Inr priv
        \<and> key_matches env priv (to_string (getp row ''armored_public'')) fp
        \<and> (fingerprintsEquivalent (getp row ''fingerprint'') (JStr fp) \<or> \<not> truthy (getp row ''fingerprint''))
        \<and> vault_memory v' = (Some priv, Some pubKey, armored, fp, [], [])
        \<and> v_timer v' = Some (now + v_idleMs v)"
proof (cases "\<exists>armored v1 fp. unwrap_account env row pw = Inr armored
    \<and> hydrateUnlockedAccount env now armored (to_string (getp row ''armored_public'')) (getp row ''fingerprint'') v = (Inr fp, v1)
    \<and> cr_openpgp_defined (ve_cr env) \<and> \<not> nullish row")
  case False
  then have "\<exists>e. r = Inl e \<and> v' = v"
    using assms(2) unfolding unlockAccount_def Let_def
    by (auto split: if_splits sum.splits prod.splits elim!: hydrate_cases [OF assms(1)]) metis
  then show ?thesis by auto
next
  case True
  then obtain armored v1 fp where h: "unwrap_account env row pw = Inr armored"
      "hydrateUnlockedAccount env now armored (to_string (getp row ''armored_public'')) (getp row ''fingerprint'') v = (Inr fp, v1)"
      "cr_openpgp_defined (ve_cr env)" "\<not> nullish row" by blast
  from hydrate_cases [OF assms(1) h(2)] obtain priv pubKey where
      "pg_readPrivateKey (ve_pg env) armored = Inr priv" "key_matches env priv (to_string (getp row ''armored_public'')) fp"
      "truthy (getp row ''fingerprint'') \<Longrightarrow> fingerprintsEquivalent (getp row ''fingerprint'') (JStr fp)"
      "v1 = touch now (hydrated priv pubKey armored fp v)"
    by (metis sum.inject(2) sum.simps(4))
  with h assms(2) show ?thesis by (auto simp: unlockAccount_def Let_def vault_simps)
qed

section \<open>Lemmas: locking and restoring\<close>

lemma zero_memory [vault_simps]: "vault_memory (vault_zero env hm cp ct v) = (None, None, [], [], [], [])"
proof -
  have mem: "vault_memory (clearTrustedDeviceFlag env v) = vault_memory v" for v
    by (auto simp: clearTrustedDeviceFlag_def vault_simps split: option.split)
  have pur: "vault_memory (v\<lparr>v_purges := n\<rparr>) = vault_memory v" for v n by (simp add: vault_memory_def)
  show ?thesis
    by (simp add: vault_zero_def Let_def pur mem clearPersistedAccountCache_def clear_frame)
       (simp add: vault_memory_def)
qed

lemma zero_item:
  "area_item (vault_zero env hm True ct v) a PERSIST_KEY = None"
proof -
  have "PERSIST_KEY \<noteq> TRUSTED_DEVICE_KEY" by (simp add: PERSIST_KEY_def TRUSTED_DEVICE_KEY_def)
  then have flag: "area_item (clearTrustedDeviceFlag env v) a PERSIST_KEY = area_item v a PERSIST_KEY" for v
    by (auto simp: clearTrustedDeviceFlag_def area_item_remove split: option.split)
  have pur: "area_item (v\<lparr>v_purges := n\<rparr>) a k = area_item v a k" for v n k
    by (cases a) (simp_all add: area_item_def area_store_def)
  show ?thesis
    by (simp add: vault_zero_def Let_def pur flag clearPersistedAccountCache_def area_item_clear)
qed

lemma area_store_idle [vault_simps]: "area_store (vault_zero env hm False ct v) a = area_store v a"
  by (cases a) (simp_all add: vault_zero_def area_store_def)

lemma isUnlocked_memory: "isUnlocked v \<longleftrightarrow> fst (vault_memory v) \<noteq> None"
  by (simp add: isUnlocked_def vault_memory_def)

lemma cache_in_item:
  "cache_in v a =
     (case area_item v a PERSIST_KEY of
        None \<Rightarrow> None
      | Some raw \<Rightarrow>
          if raw = [] then None
          else
            (case json_parse raw of
               None \<Rightarrow> None
             | Some parsed \<Rightarrow>
                 if \<not> truthy parsed \<or> \<not> strict_eq (getp parsed ''version'') (jint 1) then None
                 else if \<not> truthy (getp parsed ''accountArmoredPriv'') \<or> \<not> truthy (getp parsed ''accountArmoredPub'')
                 then None
                 else Some parsed))"
  by (simp add: cache_in_def area_item_def split: option.split sum.split)

lemma restore_without_cache:
  assumes "\<And>a. area_item v a PERSIST_KEY = None"
  shows "tryRestoreAccountFromSession env now se v = (False, clearAllPersistedCaches v)"
  using assms by (simp add: tryRestoreAccountFromSession_def readPersistedAccountCache_def cache_in_item Let_def)

text \<open>
  C7. Locking is final: \<open>zero()\<close> empties the memory of the vault and removes the account cache from
  both storages, so that no later restore unlocks the vault, whatever email it is asked for.
\<close>

theorem lock_is_final:
  "let v' = vault_zero env hasMailCache True clearTrusted v;
       (restored, v'') = tryRestoreAccountFromSession env now sessionEmail v'
   in \<not> restored \<and> \<not> isUnlocked v' \<and> \<not> isUnlocked v'' \<and> (\<forall>a. area_item v'' a PERSIST_KEY = None)"
  by (simp add: restore_without_cache zero_item isUnlocked_memory vault_simps area_item_clear)

lemma getp_account_cache [simp]:
  "getp (account_cache env now v se pub) ''version'' = jint 1"
  "getp (account_cache env now v se pub) ''sessionEmail'' = JStr (normalizeEmail se)"
  "getp (account_cache env now v se pub) ''accountArmoredPriv'' = JStr (v_accountArmoredPriv v)"
  "getp (account_cache env now v se pub) ''accountArmoredPub'' = JStr pub"
  "getp (account_cache env now v se pub) ''accountFingerprint'' = JStr (v_accountFingerprint v)"
  by (simp_all add: account_cache_def)

lemma account_cache_json: "json_parse (json_str (account_cache env now v se pub)) = Some (account_cache env now v se pub)"
  by (rule json.dec_enc) (simp add: account_cache_def)

lemma persist_item:
  assumes "\<not> flag_in v Session" and "v_session v = Some w" and "available w"
    and "v_accountArmoredPriv v \<noteq> []" and "pub \<noteq> []"
  shows "area_item (persistAccountCache env now se pub v) Session PERSIST_KEY = Some (json_str (account_cache env now v se pub))"
  using assms untrusted_storage [OF assms(1)]
  by (simp add: persistAccountCache_def area_item_set_same area_store_def)

lemma persist_flag: "flag_in (persistAccountCache env now se pub v) a = flag_in v a"
proof -
  have "PERSIST_KEY \<noteq> TRUSTED_DEVICE_KEY" by (simp add: PERSIST_KEY_def TRUSTED_DEVICE_KEY_def)
  then show ?thesis
    by (auto simp: persistAccountCache_def flag_in_item area_item_set_other split: option.split)
qed

text \<open>A cache in the session storage is what a restore on a device without the flag reads.\<close>

lemma restore_from_session:
  assumes "\<not> flag_in v Session" and "area_item v Session PERSIST_KEY = Some (json_str (account_cache env t u se pub))"
    and "v_accountArmoredPriv u \<noteq> []" and "pub \<noteq> []"
  shows "readPersistedAccountCache env v = (Some (account_cache env t u se pub), v)"
proof -
  have "json_str (account_cache env t u se pub) \<noteq> []" by (simp add: account_cache_def)
  moreover have "truthy (account_cache env t u se pub)" by (simp add: account_cache_def)
  ultimately show ?thesis
    using assms untrusted_storage(2) [OF assms(1)]
    by (simp add: readPersistedAccountCache_def cache_in_item account_cache_json)
qed

text \<open>
  Reloading a tab: after a successful \<open>unlockAccount\<close> on a device that is not trusted, with a
  working session storage, the idle timeout empties the memory, and \<open>tryRestoreAccountFromSession\<close>
  then brings back exactly the unlocked account for the same email, and for another email it refuses
  and deletes the cache.
\<close>

theorem unlock_idle_restore:
  assumes "pgp_ok env" and "\<not> flag_in v Session" and "v_session v = Some w" and "available w"
    and "getp row ''armored_public'' = JStr pub" and "pub \<noteq> []"
    and "unlockAccount env now row pw email v = (Inr fp, v1)" and "v_accountArmoredPriv v1 \<noteq> []"
  shows "\<not> isUnlocked (idle_timeout env v1)
    \<and> (\<exists>v2. tryRestoreAccountFromSession env now' email (idle_timeout env v1) = (True, v2)
          \<and> vault_memory v2 = vault_memory v1)
    \<and> (normalizeEmail other = [] \<or> normalizeEmail other = normalizeEmail email
       \<or> (\<exists>v3. tryRestoreAccountFromSession env now' other (idle_timeout env v1) = (False, v3)
             \<and> \<not> isUnlocked v3 \<and> (\<forall>a. area_item v3 a PERSIST_KEY = None)))"
proof -
  obtain armored v0 where un: "unwrap_account env row pw = Inr armored" "cr_openpgp_defined (ve_cr env)"
      "hydrateUnlockedAccount env now armored pub (getp row ''fingerprint'') v = (Inr fp, v0)"
      "v1 = persistAccountCache env now email pub v0"
    using assms(5,7) by (auto simp: unlockAccount_def Let_def split: if_splits sum.splits prod.splits)
  from hydrate_cases [OF assms(1) un(3)] obtain priv pubKey where
      k: "pg_readPrivateKey (ve_pg env) armored = Inr priv" "pg_readKey (ve_pg env) pub = Inr pubKey"
         "key_matches env priv pub fp" "v0 = touch now (hydrated priv pubKey armored fp v)"
    by (metis sum.inject(2) sum.simps(4))
  have mem: "vault_memory v1 = (Some priv, Some pubKey, armored, fp, [], [])" by (simp add: un(4) k(4) vault_simps)
  then have ne: "armored \<noteq> []" using assms(8) by (simp add: vault_memory_fields)
  have v0: "v_accountArmoredPriv v0 = armored" "v_accountFingerprint v0 = fp" "v_session v0 = Some w"
      "\<not> flag_in v0 Session"
    using assms(2,3) by (simp_all add: k(4) vault_simps flag_in_def)
  let ?i = "idle_timeout env v1"
  have "area_item v1 Session PERSIST_KEY = Some (json_str (account_cache env now v0 email pub))"
    unfolding un(4) using v0 ne assms(4,6) by (intro persist_item) auto
  then have item: "area_item ?i Session PERSIST_KEY = Some (json_str (account_cache env now v0 email pub))"
    by (simp add: idle_timeout_def area_item_def vault_simps)
  have "flag_in ?i Session = flag_in v1 Session" by (simp add: idle_timeout_def flag_in_def vault_simps)
  then have "\<not> flag_in ?i Session" using v0(4) by (simp add: un(4) persist_flag)
  then have cache: "readPersistedAccountCache env ?i = (Some (account_cache env now v0 email pub), ?i)"
    using item ne assms(6) v0(1) by (intro restore_from_session) auto
  have "fingerprintsEquivalent (JStr fp) (JStr fp)"
    using k(3) by (simp add: fingerprintsEquivalent_alt key_matches_normal) (simp add: key_matches_def)
  then have again: "hydrateUnlockedAccount env now' armored pub (JStr fp) u
      = (Inr fp, touch now' (hydrated priv pubKey armored fp u))" for u
    by (intro hydrate_ok [OF un(2) k(1,2,3)])
  have "\<not> isUnlocked ?i" by (simp add: idle_timeout_def isUnlocked_memory vault_simps)
  moreover have "\<exists>v2. tryRestoreAccountFromSession env now' email ?i = (True, v2) \<and> vault_memory v2 = vault_memory v1"
    by (simp add: tryRestoreAccountFromSession_def cache Let_def v0 again mem vault_simps)
  moreover have "tryRestoreAccountFromSession env now' other ?i = (False, clearAllPersistedCaches ?i)"
    if "normalizeEmail other \<noteq> []" "normalizeEmail other \<noteq> normalizeEmail email"
    using that by (simp add: tryRestoreAccountFromSession_def cache Let_def clearPersistedAccountCache_def)
  ultimately show ?thesis
    by (auto simp: isUnlocked_memory vault_simps area_item_clear)
qed

section \<open>The trusted device\<close>

lemma flag_in_touch: "flag_in (touch now v) a = flag_in v a"
  by (simp add: flag_in_def vault_simps)

lemma flag_in_idle: "flag_in (applyTrustedIdlePreference env now v) a = flag_in v a"
  by (cases a) (auto simp: applyTrustedIdlePreference_def setIdleMs_def flag_in_def area_store_def Let_def touch_def)

text \<open>
  Trusting a device does not last: on a device that is not trusted yet, \<open>setTrustedDevice(true)\<close>
  writes the flag to the session storage only. A tab opened later, with the same local storage and a
  new session storage, is never trusted; and in the tab itself the answer depends on how many stack
  frames are left, because \<open>storage\<close> and \<open>readTrustedDeviceFlag\<close> call each other until the stack is
  exhausted: it is yes for two of every four depths.
\<close>

theorem trusted_device_is_forgotten:
  assumes "v_session v = Some ws" and "v_local v = Some wl" and "available ws" and "available wl"
    and "\<not> flag_in v Session" and "\<not> flag_in v Local"
  shows "let v1 = setTrustedDevice env now True v in
      flag_in v1 Session \<and> \<not> flag_in v1 Local
      \<and> \<not> isTrustedDevice env (v1\<lparr>v_session := Some \<lparr>items = Map.empty, readable = True, writable = True\<rparr>\<rparr>)
      \<and> isTrustedDevice env v1 = (ve_depth env mod 4 = 1 \<or> ve_depth env mod 4 = 2)"
proof -
  let ?t = "try_set Session TRUSTED_DEVICE_KEY ''1'' v"
  define v1 where "v1 = setTrustedDevice env now True v"
  have v1: "v1 = applyTrustedIdlePreference env now ?t"
    using untrusted_storage(1) [OF assms(5), of env] assms(1) by (simp add: v1_def setTrustedDevice_def Let_def)
  have "area_item ?t Session TRUSTED_DEVICE_KEY = Some ''1''"
    using assms by (intro area_item_set_same) (auto simp: area_store_def)
  then have ses: "flag_in v1 Session" by (simp add: v1 flag_in_idle) (simp add: flag_in_item)
  have "area_item ?t Local TRUSTED_DEVICE_KEY = area_item v Local TRUSTED_DEVICE_KEY"
    by (rule area_item_set_other) simp
  then have loc: "\<not> flag_in v1 Local" using assms(6) by (simp add: v1 flag_in_idle) (simp add: flag_in_item)
  have "v_local ?t = Some wl"
    using assms(1-4) by (simp add: try_set_def area_store_def setItem_def available_def set_area_def)
  then have "v_local v1 \<noteq> None" by (simp add: v1 applyTrustedIdlePreference_def setIdleMs_def touch_def Let_def)
  then have "isTrustedDevice env v1 = (ve_depth env mod 4 = 1 \<or> ve_depth env mod 4 = 2)"
    using flag_recursion_alternates [OF ses loc] by (simp add: isTrustedDevice_def)
  moreover have "\<not> flag_in (v1\<lparr>v_session := Some \<lparr>items = Map.empty, readable = True, writable = True\<rparr>\<rparr>) Session"
    by (simp add: flag_in_def area_store_def getItem_def)
  ultimately show ?thesis using ses loc untrusted_storage(2) by (simp add: v1_def [symmetric])
qed

section \<open>Witnesses\<close>

definition demo_storage :: web_storage where
  "demo_storage = \<lparr>items = Map.empty, readable = True, writable = True\<rparr>"

definition demo_pgp :: pgp where
  "demo_pgp =
     \<lparr>pg_readPrivateKey = Inr, pg_readKey = Inr, pg_readKeys = None, pg_privFingerprint = (\<lambda>k. k),
      pg_keyFingerprint = Inr, pg_armor = (\<lambda>k. k), pg_encryptKey = (\<lambda>k p. Inr (p @ k)),
      pg_readMessage = (\<lambda>i. case i of ArmoredMessage a \<Rightarrow> Inr a | BinaryMessage b \<Rightarrow> Inr (map char_of_byte b)),
      pg_decrypt = (\<lambda>m k ks. if prefix k m then Inr (drop (length k) m, []) else Inl (Error ''wrong key'')),
      pg_encrypt = (\<lambda>p r s. case p of CText t \<Rightarrow> Inr (r @ t) | CBytes b \<Rightarrow> Inr (r @ map char_of_byte b)),
      pg_verifyDetached = (\<lambda>s b ks. Inr []), pg_verifyCleartext = None\<rparr>"

definition demo_env :: "nat \<Rightarrow> vault_env" where
  "demo_env n =
     \<lparr>ve_cr = demo_crypto, ve_pg = demo_pgp, ve_td = map char_of_byte, ve_sha = (\<lambda>b. b), ve_depth = n\<rparr>"

definition demo_vault :: vault where
  "demo_vault = initial_vault (Some demo_storage) (Some demo_storage)"

definition demo_me_row :: jsval where
  "demo_me_row = JObj [(''kdf'', JStr ''pbkdf2-sha256-600k''), (''kdf_salt_b64'', JStr ''BQ==''),
     (''wrapped_secret_b64'', JStr ''AAAAAAAAAAAAAAAABXB3Kg==''), (''armored_public'', JStr ''*'')]"

lemma demo_env_ok: "pgp_ok (demo_env n)"
  by (simp add: pgp_ok_def demo_env_def demo_pgp_def)

lemma demo_no_flag: "\<not> flag_in demo_vault a"
  by (cases a) (simp_all add: flag_in_def area_store_def demo_vault_def initial_vault_def demo_storage_def getItem_def)

lemma demo_storages:
  "v_session demo_vault = Some demo_storage" "v_local demo_vault = Some demo_storage" "available demo_storage"
  by (simp_all add: demo_vault_def initial_vault_def demo_storage_def available_def)

lemma demo_unwrap: "unwrap_account (demo_env n) demo_me_row ''pw'' = Inr ''*''"
proof -
  have facts: "kg_b64ToBytes (getp demo_me_row ''kdf_salt_b64'') = Inr [5]"
      "kg_b64ToBytes (getp demo_me_row ''wrapped_secret_b64'') = Inr (replicate 12 0 @ [5, 112, 119, 42])"
      "parse_kdf_params (getp demo_me_row ''kdf_params_json'') = JObj []"
      "utf8_encode ''pw'' = [112, 119]" "getp demo_me_row ''kdf'' = JStr KDF_PBKDF2_LEGACY"
      "map char_of_byte [42] = ''*''"
    by code_simp+
  have "deriveKEK demo_crypto ''pw'' [5] (JStr KDF_PBKDF2_LEGACY) (JObj []) =
      Inr \<lparr>d_kdf = KDF_PBKDF2, d_key = [5, 112, 119], d_params = JObj [(''iterations'', jint 600000), (''hash'', JStr ''SHA-256'')]\<rparr>"
    by (subst deriveKEK_pbkdf2)
       (simp_all add: isPbkdf2Sha256Kdf_def deriveKEKWithPBKDF2_def demo_crypto_def facts(4))
  moreover have "aesUnwrap demo_crypto [5, 112, 119] (replicate 12 0 @ [5, 112, 119, 42]) = Inr [42]"
    by (simp add: aesUnwrap_def slice_def slice_from_def slice_pos_def demo_crypto_def)
  ultimately show ?thesis unfolding unwrap_account_def facts(1-3,5) demo_env_def Let_def
    using facts(6) by simp
qed

lemma demo_me_row_sel:
  "getp demo_me_row ''armored_public'' = JStr ''*''" "getp demo_me_row ''fingerprint'' = JUndef" "\<not> nullish demo_me_row"
  by (simp_all add: demo_me_row_def)

lemma demo_unlock:
  "\<exists>v1. unlockAccount (demo_env n) 0 demo_me_row ''pw'' (JStr ''Me@x'') demo_vault = (Inr ''*'', v1)
     \<and> v_accountArmoredPriv v1 = ''*''"
proof -
  have fp: "normalizeFingerprint (JStr ''*'') = ''*''" "toUpperCase ''*'' = ''*''" by code_simp+
  have cr: "cr_openpgp_defined (ve_cr (demo_env n))" by (simp add: demo_env_def demo_crypto_def)
  have "key_matches (demo_env n) ''*'' ''*'' ''*''"
    by (simp add: key_matches_def demo_env_def demo_pgp_def demo_crypto_def pgpFingerprint_def fp)
  then have "hydrateUnlockedAccount (demo_env n) 0 ''*'' ''*'' JUndef demo_vault
      = (Inr ''*'', touch 0 (hydrated ''*'' ''*'' ''*'' ''*'' demo_vault))"
    by (intro hydrate_ok cr) (simp_all add: demo_env_def demo_pgp_def)
  moreover have "v_accountArmoredPriv (persistAccountCache (demo_env n) 0 se pub (touch 0 (hydrated ''*'' ''*'' ''*'' ''*'' demo_vault))) = ''*''" for se pub
    using persist_frame(1) [of "demo_env n" 0 se pub "touch 0 (hydrated ''*'' ''*'' ''*'' ''*'' demo_vault)"]
    by (simp add: touch_sel hydrated_sel vault_memory_fields)
  ultimately show ?thesis by (simp add: unlockAccount_def demo_unwrap cr demo_me_row_sel)
qed

theorem trusted_device_is_forgotten_witness:
  "flag_in (setTrustedDevice (demo_env 7) 0 True demo_vault) Session
   \<and> \<not> isTrustedDevice (demo_env 7) (setTrustedDevice (demo_env 7) 0 True demo_vault)"
  using trusted_device_is_forgotten [OF demo_storages(1,2,3,3) demo_no_flag demo_no_flag, of "demo_env 7" 0]
  by (simp add: Let_def demo_env_def)

theorem unlock_binds_published_key_witness:
  "\<exists>v1 priv pubKey. unlockAccount (demo_env 0) 0 demo_me_row ''pw'' (JStr ''Me@x'') demo_vault = (Inr ''*'', v1)
    \<and> key_matches (demo_env 0) priv ''*'' ''*'' \<and> vault_memory v1 = (Some priv, Some pubKey, ''*'', ''*'', [], [])"
proof -
  from demo_unlock obtain v1 where u: "unlockAccount (demo_env 0) 0 demo_me_row ''pw'' (JStr ''Me@x'') demo_vault = (Inr ''*'', v1)"
    by blast
  show ?thesis using u unlock_binds_published_key [OF demo_env_ok u] by (auto simp: demo_unwrap demo_me_row_sel)
qed

theorem unlock_idle_restore_witness:
  "\<exists>v1 v2 v3. unlockAccount (demo_env 0) 0 demo_me_row ''pw'' (JStr ''Me@x'') demo_vault = (Inr ''*'', v1)
    \<and> tryRestoreAccountFromSession (demo_env 0) 5 (JStr ''Me@x'') (idle_timeout (demo_env 0) v1) = (True, v2)
    \<and> vault_memory v2 = vault_memory v1
    \<and> tryRestoreAccountFromSession (demo_env 0) 5 (JStr ''b@x'') (idle_timeout (demo_env 0) v1) = (False, v3)"
proof -
  from demo_unlock obtain v1 where u: "unlockAccount (demo_env 0) 0 demo_me_row ''pw'' (JStr ''Me@x'') demo_vault = (Inr ''*'', v1)"
      "v_accountArmoredPriv v1 = ''*''" by blast
  have ne: "normalizeEmail (JStr ''b@x'') \<noteq> []" "normalizeEmail (JStr ''b@x'') \<noteq> normalizeEmail (JStr ''Me@x'')" by code_simp+
  from unlock_idle_restore [OF demo_env_ok demo_no_flag demo_storages(1,3) _ _ u(1), of "''*''" 5 "JStr ''b@x''"] ne u
  show ?thesis by (auto simp: demo_me_row_sel)
qed

end
