(* ===== verification/Recovered_Header.thy ===== *)
theory Recovered_Header
  imports Message_View Mail_Cache Vault_Account
begin

text \<open>
  \<^verbatim>\<open>static/mail/mail-app.jsx\<close>, metadata that is recovered from a decrypted message: encoded words in
  header fields, merging what was recovered into the row of the message, the payloads kept in the
  cache, and writing the header back to the server encrypted.
\<close>

section \<open>Encoded words\<close>

text \<open>\<open>rv_decoder\<close> is \<open>new TextDecoder(label)\<close>, which throws for labels it does not know.\<close>

record recover_env =
  rv_app :: app_env
  rv_decoder :: "string \<Rightarrow> (bytes \<Rightarrow> string) option"

definition underscores :: "char \<Rightarrow> string \<Rightarrow> string" where
  "underscores r s = map (\<lambda>c. if c = CHR ''_'' then r else c) s"

definition decodeRFC2047Word :: "recover_env \<Rightarrow> string \<Rightarrow> char \<Rightarrow> string \<Rightarrow> string option" where
  "decodeRFC2047Word env charsetRaw enc payloadRaw =
     (let charset = toLowerCase (underscores (CHR ''-'') (trim charsetRaw));
          bytes = (if enc = CHR ''B'' \<or> enc = CHR ''b'' then
                     (case mime_base64ToBytes payloadRaw of Inr bs \<Rightarrow> Some bs | Inl _ \<Rightarrow> None)
                   else if enc = CHR ''Q'' \<or> enc = CHR ''q'' then Some (qp_bytes (underscores (CHR '' '') payloadRaw))
                   else None);
          label = (if charset = ''utf8'' then ''utf-8'' else charset)
      in map_option (case rv_decoder env label of Some d \<Rightarrow> d | None \<Rightarrow> ap_td (rv_app env)) bytes)"

text \<open>\<open>/=\?([^?]+)\?([BbQq])\?([^?]*)\?=/\<close> at the start of a text: the groups and what follows.\<close>

definition encoded_word :: "string \<Rightarrow> (string \<times> char \<times> string \<times> string) option" where
  "encoded_word s =
     (let charset = takeWhile (\<lambda>c. c \<noteq> CHR ''?'') (drop 2 s); r = dropWhile (\<lambda>c. c \<noteq> CHR ''?'') (drop 2 s) in
      if startsWith s ''=?'' \<and> charset \<noteq> [] then
        (case r of
           q1 # enc # q2 # r2 \<Rightarrow>
             (let payload = takeWhile (\<lambda>c. c \<noteq> CHR ''?'') r2; r3 = dropWhile (\<lambda>c. c \<noteq> CHR ''?'') r2 in
              if enc \<in> set ''BbQq'' \<and> q2 = CHR ''?'' \<and> startsWith r3 ''?='' then Some (charset, enc, payload, drop 2 r3)
              else None)
         | _ \<Rightarrow> None)
      else None)"

lemma encoded_word_shorter: "encoded_word s = Some (c, e, p, r) \<Longrightarrow> length r < length s"
proof -
  assume a: "encoded_word s = Some (c, e, p, r)"
  define r0 where "r0 = dropWhile (\<lambda>c. c \<noteq> CHR ''?'') (drop 2 s)"
  obtain q1 q2 r2 where r2: "r0 = q1 # e # q2 # r2" "r = drop 2 (dropWhile (\<lambda>c. c \<noteq> CHR ''?'') r2)"
    using a by (auto simp: encoded_word_def Let_def r0_def split: if_splits list.splits)
  have "length r0 \<le> length s" using length_dropWhile_le [of _ "drop 2 s"] unfolding r0_def by (rule order_trans) simp
  moreover have "length r \<le> length r2"
    unfolding r2(2) using length_dropWhile_le [of "\<lambda>c. c \<noteq> CHR ''?''" r2] by simp
  ultimately show ?thesis by (simp add: r2(1))
qed

function replace_words :: "recover_env \<Rightarrow> string \<Rightarrow> string" where
  "replace_words env [] = []"
| "replace_words env (c # s) =
     (case encoded_word (c # s) of
        Some (charset, enc, payload, r) \<Rightarrow>
          (case decodeRFC2047Word env charset enc payload of
             Some d \<Rightarrow> d
           | None \<Rightarrow> take (length (c # s) - length r) (c # s)) @ replace_words env r
      | None \<Rightarrow> c # replace_words env s)"
  by pat_completeness auto
termination
  by (relation "measure (\<lambda>(_, s). length s)") (auto dest: encoded_word_shorter)

declare replace_words.simps [simp del]

definition decodeRFC2047HeaderDisplay :: "recover_env \<Rightarrow> string \<Rightarrow> string" where
  "decodeRFC2047HeaderDisplay env raw = (if str_includes raw ''=?'' then replace_words env raw else raw)"

section \<open>Placeholders\<close>

definition isProtectedSubjectPlaceholder :: "string \<Rightarrow> bool" where
  "isProtectedSubjectPlaceholder subject = (toLowerCase (trim subject) \<in> {[], ''...'', ''encrypted message''})"

definition normalizeRecoveredSubject :: "recover_env \<Rightarrow> jsval \<Rightarrow> string" where
  "normalizeRecoveredSubject env subject =
     (let normalized = trim (decodeRFC2047HeaderDisplay env (str_or_empty subject)) in
      if isProtectedSubjectPlaceholder normalized then [] else normalized)"

definition normalizeRecoveredAddress :: "recover_env \<Rightarrow> jsval \<Rightarrow> string" where
  "normalizeRecoveredAddress env v =
     (let normalized = squeeze_space (decodeRFC2047HeaderDisplay env (str_or_empty v)) in
      if normalized = ''[encrypted header]'' \<or> normalized = ''(missing from)'' then [] else normalized)"

definition meaningful_addresses :: "recover_env \<Rightarrow> jsval \<Rightarrow> string list" where
  "meaningful_addresses env addrs =
     (if isArray addrs then filter (\<lambda>a. a \<noteq> []) (map (normalizeRecoveredAddress env) (js_elems addrs)) else [])"

definition hasMeaningfulRecipients :: "recover_env \<Rightarrow> jsval \<Rightarrow> bool" where
  "hasMeaningfulRecipients env addrs = (meaningful_addresses env addrs \<noteq> [])"

definition shouldRecoverMetadataFromBody :: "recover_env \<Rightarrow> jsval \<Rightarrow> bool" where
  "shouldRecoverMetadataFromBody env message =
     (truthy message \<and> str_or_empty (getp message ''provenance'') = ''already_encrypted''
      \<and> (normalizeRecoveredSubject env (getp message ''subject'') = []
         \<or> normalizeRecoveredAddress env (getp message ''from_addr'') = []
         \<or> \<not> hasMeaningfulRecipients env (getp message ''to_addrs'')))"

section \<open>Attachments and payloads\<close>

text \<open>
  What was recovered is an object; its attachments are kept apart, since those of a message just read
  carry their bytes. \<open>None\<close>: the field is no array.
\<close>

datatype any_attachment = Fresh attachment | Stored jsval

record recovered =
  rc_fields :: jsval
  rc_attachments :: "any_attachment list option"

definition recovered_of_metadata :: "metadata \<Rightarrow> recovered" where
  "recovered_of_metadata md =
     \<lparr>rc_fields = JObj [(''subject'', JStr (md_subject md)), (''from_addr'', JStr (md_from_addr md)),
        (''to_addrs'', jstrs (md_to_addrs md)), (''cc_addrs'', jstrs (md_cc_addrs md)),
        (''rfc_message_id'', JStr (md_rfc_message_id md)), (''in_reply_to'', JStr (md_in_reply_to md)),
        (''references'', JStr (md_references md)), (''reply_to'', JStr (md_reply_to md)), (''preview'', JStr (md_preview md))],
      rc_attachments = Some (map Fresh (md_attachments md))\<rparr>"

definition recovered_of_json :: "jsval \<Rightarrow> recovered" where
  "recovered_of_json p =
     \<lparr>rc_fields = p,
      rc_attachments = (if isArray (getp p ''attachments'') then Some (map Stored (js_elems (getp p ''attachments''))) else None)\<rparr>"

text \<open>\<open>Number(size) || 0\<close> for the sizes that occur, integers.\<close>

definition size_number :: "jsval \<Rightarrow> jsval" where
  "size_number v = (case v of JNum n \<Rightarrow> js_or (JNum n) (jint 0) | _ \<Rightarrow> jint 0)"

definition summary_object :: "jsval \<Rightarrow> jsval \<Rightarrow> jsval \<Rightarrow> jsval" where
  "summary_object fileName contentType sizeBytes =
     JObj [(''file_name'', js_or fileName (JStr ''attachment.bin'')),
           (''content_type'', js_or contentType (JStr ''application/octet-stream'')), (''size_bytes'', sizeBytes)]"

fun normalizeAttachmentSummary :: "any_attachment \<Rightarrow> jsval" where
  "normalizeAttachmentSummary (Fresh a) =
     summary_object (JStr (at_fileName a)) (JStr (at_contentType a)) (jint (int (length (at_bytes a))))"
| "normalizeAttachmentSummary (Stored v) =
     (if \<not> truthy v then JNull
      else summary_object (js_or (getp v ''file_name'') (getp v ''fileName'')) (js_or (getp v ''content_type'') (getp v ''contentType''))
             (size_number (getp v ''size_bytes'')))"

definition attachment_summaries :: "any_attachment list \<Rightarrow> jsval" where
  "attachment_summaries as = JArr (filter truthy (map normalizeAttachmentSummary as))"

definition recovered_field :: "recovered option \<Rightarrow> string \<Rightarrow> jsval" where
  "recovered_field r k = (case r of Some x \<Rightarrow> getp (rc_fields x) k | None \<Rightarrow> JNull)"

text \<open>An envelope for display, of a message just read or from the cache.\<close>

record display_envelope =
  de_bodyText :: string
  de_bodyHtml :: string
  de_attachments :: "any_attachment list"

definition envelope_of_entity :: "mime_entity \<Rightarrow> display_envelope" where
  "envelope_of_entity e = \<lparr>de_bodyText = me_bodyText e, de_bodyHtml = me_bodyHtml e, de_attachments = map Fresh (me_attachments e)\<rparr>"

definition envelope_of_json :: "jsval \<Rightarrow> display_envelope" where
  "envelope_of_json v =
     \<lparr>de_bodyText = str_or_empty (getp v ''bodyText''), de_bodyHtml = str_or_empty (getp v ''bodyHtml''),
      de_attachments = map Stored (js_elems (getp v ''attachments''))\<rparr>"

definition buildRecoveredHeaderPayload :: "recover_env \<Rightarrow> recovered option \<Rightarrow> display_envelope option \<Rightarrow> jsval" where
  "buildRecoveredHeaderPayload env recovered envelopeOptional =
     (if recovered = None \<and> envelopeOptional = None then JNull
      else
        (let f = recovered_field recovered;
             attachments = (case (case recovered of Some r \<Rightarrow> rc_attachments r | None \<Rightarrow> None) of
                              Some as \<Rightarrow> attachment_summaries as
                            | None \<Rightarrow> (case envelopeOptional of Some e \<Rightarrow> attachment_summaries (de_attachments e) | None \<Rightarrow> JArr []));
             preview = (if truthy (f ''preview'') then f ''preview''
                        else JStr (makePreviewSnippet (case envelopeOptional of Some e \<Rightarrow> de_bodyText e | None \<Rightarrow> [])))
         in JObj
           [(''subject'', JStr (normalizeRecoveredSubject env (f ''subject''))),
            (''from_addr'', JStr (normalizeRecoveredAddress env (f ''from_addr''))),
            (''to_addrs'', jstrs (meaningful_addresses env (f ''to_addrs''))),
            (''cc_addrs'', jstrs (meaningful_addresses env (f ''cc_addrs''))),
            (''rfc_message_id'', js_or (f ''rfc_message_id'') (JStr [])),
            (''in_reply_to'', js_or (f ''in_reply_to'') (JStr [])),
            (''references'', js_or (f ''references'') (JStr [])),
            (''reply_to'', js_or (f ''reply_to'') (JStr [])),
            (''preview'', preview),
            (''attachments'', attachments)]))"

definition buildCachedEnvelopePayload :: "recover_env \<Rightarrow> display_envelope \<Rightarrow> recovered option \<Rightarrow> jsval" where
  "buildCachedEnvelopePayload env envelope recovered =
     JObj [(''bodyText'', JStr (de_bodyText envelope)), (''bodyHtml'', JStr (de_bodyHtml envelope)),
           (''attachments'', attachment_summaries (de_attachments envelope)),
           (''recovered'', buildRecoveredHeaderPayload env recovered (Some envelope))]"

definition inflateCachedEnvelopePayload :: "jsval \<Rightarrow> jsval" where
  "inflateCachedEnvelopePayload payload =
     (if \<not> truthy payload then JNull
      else
        JObj [(''bodyText'', js_or (getp payload ''bodyText'') (JStr [])), (''bodyHtml'', js_or (getp payload ''bodyHtml'') (JStr [])),
              (''attachments'', JArr (if isArray (getp payload ''attachments'')
                 then map (\<lambda>a. object_spread a [(''bytes'', js_or (getp a ''bytes'') JNull)]) (js_elems (getp payload ''attachments''))
                 else [])),
              (''recovered'', js_or (getp payload ''recovered'') JNull)])"

text \<open>What comes out of the cache is JSON, in which there is no \<open>Uint8Array\<close>.\<close>

definition is_uint8array :: "jsval \<Rightarrow> bool" where
  "is_uint8array v = False"

definition envelopeHasHydratedAttachmentBytes :: "jsval \<Rightarrow> bool" where
  "envelopeHasHydratedAttachmentBytes envelope =
     (let list = (if truthy envelope \<and> isArray (getp envelope ''attachments'') then js_elems (getp envelope ''attachments'') else []) in
      list = [] \<or> list_all (\<lambda>a. truthy a \<and> is_uint8array (getp a ''bytes'')) list)"

section \<open>Merging\<close>

text \<open>The row's copy of a fresh attachment: its bytes are an opaque object there.\<close>

fun attachment_value :: "any_attachment \<Rightarrow> jsval" where
  "attachment_value (Fresh a) =
     JObj [(''file_name'', JStr (at_fileName a)), (''content_type'', JStr (at_contentType a)), (''bytes'', JObj [])]"
| "attachment_value (Stored v) = v"

definition nonblank_or :: "jsval \<Rightarrow> jsval \<Rightarrow> jsval" where
  "nonblank_or v d = (if \<not> nullish v \<and> trim (to_string v) \<noteq> [] then v else js_or d (JStr []))"

definition text_or :: "string \<Rightarrow> jsval \<Rightarrow> jsval" where
  "text_or s d = (if s \<noteq> [] then JStr s else d)"

definition list_or :: "string list \<Rightarrow> jsval \<Rightarrow> jsval" where
  "list_or xs d = (if xs \<noteq> [] then jstrs xs else d)"

definition next_attachments :: "jsval \<Rightarrow> recovered \<Rightarrow> jsval" where
  "next_attachments message r =
     (case rc_attachments r of
        Some (a # as) \<Rightarrow> JArr (map attachment_value (a # as))
      | _ \<Rightarrow> getp message ''attachments'')"

definition mergeRecoveredMessageData :: "recover_env \<Rightarrow> jsval \<Rightarrow> recovered option \<Rightarrow> jsval" where
  "mergeRecoveredMessageData env message recovered =
     (case recovered of
        None \<Rightarrow> message
      | Some r \<Rightarrow>
          if \<not> truthy message then message
          else
            (let f = getp (rc_fields r); m = getp message; atts = next_attachments message r in
             object_spread message
               [(''subject'', text_or (normalizeRecoveredSubject env (f ''subject'')) (m ''subject'')),
                (''from_addr'', text_or (normalizeRecoveredAddress env (f ''from_addr'')) (m ''from_addr'')),
                (''to_addrs'', list_or (meaningful_addresses env (f ''to_addrs'')) (m ''to_addrs'')),
                (''cc_addrs'', list_or (meaningful_addresses env (f ''cc_addrs'')) (js_or (m ''cc_addrs'') (JArr []))),
                (''rfc_message_id'', js_or (js_or (f ''rfc_message_id'') (m ''rfc_message_id'')) (JStr [])),
                (''in_reply_to'', nonblank_or (f ''in_reply_to'') (m ''in_reply_to'')),
                (''references'', nonblank_or (f ''references'') (m ''references'')),
                (''reply_to'', nonblank_or (f ''reply_to'') (m ''reply_to'')),
                (''preview'', js_or (f ''preview'') (m ''preview'')),
                (''attachments'', atts),
                (''has_attachments'', js_or (m ''has_attachments'') (JBool (isArray atts \<and> js_elems atts \<noteq> []))),
                (''headerDecrypted'', JBool True)]))"

section \<open>Writing it down\<close>

text \<open>
  The state: cache, vault, server. \<open>ready\<close>: the cache object is there. \<open>nonces\<close> are those of the two
  sealings.
\<close>

definition on_cache :: "(mail_cache, 'a) io \<Rightarrow> (mail_cache \<times> 'r, 'a) io" where
  "on_cache f st = (case f (fst st) of (r, c) \<Rightarrow> (r, (c, snd st)))"

definition on_rest :: "('r, 'a) io \<Rightarrow> (mail_cache \<times> 'r, 'a) io" where
  "on_rest f st = (case f (snd st) of (r, s) \<Rightarrow> (r, (fst st, s)))"

definition header_stub :: "jsval \<Rightarrow> jsval" where
  "header_stub p =
     JObj [(''subject'', js_or (getp p ''subject'') (JStr [])), (''from'', js_or (getp p ''from_addr'') (JStr [])),
           (''to'', js_or (getp p ''to_addrs'') (JArr [])), (''cc'', getp p ''cc_addrs''),
           (''preview'', js_or (getp p ''preview'') (JStr [])), (''attachments'', getp p ''attachments''),
           (''rfc_message_id'', js_or (getp p ''rfc_message_id'') (JStr [])), (''in_reply_to'', js_or (getp p ''in_reply_to'') (JStr [])),
           (''references'', js_or (getp p ''references'') (JStr [])), (''reply_to'', js_or (getp p ''reply_to'') (JStr []))]"

definition meaningful_header :: "jsval \<Rightarrow> bool" where
  "meaningful_header p = (truthy (getp p ''subject'') \<or> truthy (getp p ''from_addr'') \<or> js_elems (getp p ''to_addrs'') \<noteq> [])"

definition refresh_header ::
  "vault_env \<Rightarrow> 's server \<Rightarrow> int \<Rightarrow> jsval \<Rightarrow> jsval \<Rightarrow> string \<Rightarrow> ('s, unit) vio" where
  "refresh_header env srv now message headerPayload decryptFingerprint =
     bindI (read_vault (getIdentity now (JStr decryptFingerprint))) (\<lambda>found.
     case found of
       None \<Rightarrow> returnI ()
     | Some ident \<Rightarrow>
         if vi_armoredPub ident = [] then returnI ()
         else
           bindI (encryptToRecipient env now (vi_armoredPub ident) (CText (json_str (header_stub headerPayload)))) (\<lambda>armored.
           bindI (on_server (refreshMessageHeader srv (to_string (getp message ''id''))
                    (JStr (bytesToBase64 (utf8_encode armored))))) (\<lambda>_. returnI ())))"

definition persistRecoveredArtifacts ::
  "recover_env \<Rightarrow> key_env \<Rightarrow> vault_env \<Rightarrow> 's server \<Rightarrow> bool \<Rightarrow> int \<Rightarrow> string \<Rightarrow> bytes \<times> bytes
   \<Rightarrow> jsval \<Rightarrow> recovered option \<Rightarrow> display_envelope option \<Rightarrow> string \<Rightarrow> (mail_cache \<times> vault \<times> 's, unit) io" where
  "persistRecoveredArtifacts re ke env srv ready now time nonces message recovered envelope decryptFingerprint =
     (let version = (if ready then extractVersion message else []);
          headerPayload = buildRecoveredHeaderPayload re recovered envelope
      in
      if headerPayload = JNull then returnI ()
      else
        bindI (if version \<noteq> [] then on_cache (putHeader ke time (fst nonces) (getp message ''id'') (JStr version) headerPayload)
               else returnI ()) (\<lambda>_.
        bindI (case envelope of
                 Some e \<Rightarrow> if version \<noteq> []
                           then on_cache (putEnvelope ke time (snd nonces) (getp message ''id'') (JStr version)
                                  (buildCachedEnvelopePayload re e recovered))
                           else returnI ()
               | None \<Rightarrow> returnI ()) (\<lambda>_.
        if recovered = None \<or> \<not> meaningful_header headerPayload \<or> decryptFingerprint = [] then returnI ()
        else on_rest (refresh_header env srv now message headerPayload decryptFingerprint))))"

text \<open>The branch of \<open>decryptBody\<close> that shows a message from the cache: text and HTML, or nothing.\<close>

definition cached_view :: "key_env \<Rightarrow> jsval \<Rightarrow> mail_cache \<Rightarrow> (string \<times> string) option result" where
  "cached_view ke message c =
     bindR (fst (getEnvelope ke (getp message ''id'') c)) (\<lambda>entry.
       (let cachedEnvelope = inflateCachedEnvelopePayload (unwrapVersionedPayload entry (JStr (extractVersion message))) in
        Inr (if truthy cachedEnvelope \<and> \<not> nullish (getp cachedEnvelope ''bodyText'') \<and> envelopeHasHydratedAttachmentBytes cachedEnvelope
             then Some (str_or_empty (getp cachedEnvelope ''bodyText''), trim (str_or_empty (getp cachedEnvelope ''bodyHtml'')))
             else None)))"

section \<open>What the cache gives back\<close>

lemma putHeader_started:
  assumes "started c key" and "truthy messageID" and "truthy payload"
    and "putHeader ke now nonce messageID version payload c = (Inr (), c')"
  shows "started c' key"
proof -
  obtain env where "sealJSON ke nonce key (versioned version payload now) = Inr env"
    using assms
    by (cases "sealJSON ke nonce key (versioned version payload now)")
       (auto simp: putHeader_def put_sealed_def started_def bindI_def on_db_def await_other_def)
  from put_sealed_result [OF assms(1) _ assms(2,3) this, of STORE_MAIL_HEADERS] show ?thesis
    using assms(1,4) by (auto simp: putHeader_def started_def)
qed

lemma extractVersion_nonempty: "truthy message \<Longrightarrow> extractVersion message \<noteq> []"
  by (simp add: extractVersion_def)

lemma json_ok_jstrs [simp]: "json_ok (jstrs xs)"
  by (simp add: jstrs_def)

lemma json_ok_summaries: "json_ok (attachment_summaries (map Fresh as))"
  by (auto simp: attachment_summaries_def summary_object_def js_or_def)

lemma truthy_summary: "truthy (normalizeAttachmentSummary (Fresh a))"
  by (simp add: summary_object_def)

lemma payload_json_ok:
  "json_ok (buildRecoveredHeaderPayload env (Some (recovered_of_metadata md)) (Some (envelope_of_entity e)))"
  by (simp add: buildRecoveredHeaderPayload_def Let_def recovered_field_def recovered_of_metadata_def js_or_def json_ok_summaries
      del: map_map)

lemma envelope_payload_json_ok:
  "json_ok (buildCachedEnvelopePayload env (envelope_of_entity e) (Some (recovered_of_metadata md)))"
  using payload_json_ok [of env md e]
  by (simp add: buildCachedEnvelopePayload_def envelope_of_entity_def json_ok_summaries del: map_map)

lemma inflate_payload:
  "inflateCachedEnvelopePayload (buildCachedEnvelopePayload env (envelope_of_entity e) r) =
   JObj [(''bodyText'', JStr (me_bodyText e)), (''bodyHtml'', JStr (me_bodyHtml e)),
         (''attachments'', JArr (map (\<lambda>a. object_spread (normalizeAttachmentSummary (Fresh a)) [(''bytes'', JNull)]) (me_attachments e))),
         (''recovered'', js_or (buildRecoveredHeaderPayload env r (Some (envelope_of_entity e))) JNull)]"
proof -
  have "filter truthy (map (normalizeAttachmentSummary \<circ> Fresh) (me_attachments e)) = map (normalizeAttachmentSummary \<circ> Fresh) (me_attachments e)"
    using truthy_summary by (intro filter_True) auto
  then show ?thesis
    by (simp add: inflateCachedEnvelopePayload_def buildCachedEnvelopePayload_def envelope_of_entity_def attachment_summaries_def
        summary_object_def js_or_def)
qed

lemma persisted_payloads:
  fixes r :: recovered and e :: display_envelope and r' :: "recovered option"
  shows "truthy (buildRecoveredHeaderPayload re (Some r) (Some e))" "truthy (buildCachedEnvelopePayload re e r')"
  "buildRecoveredHeaderPayload re (Some r) (Some e) \<noteq> JNull"
  by (simp_all add: buildRecoveredHeaderPayload_def buildCachedEnvelopePayload_def Let_def)

text \<open>After the artifacts of a message were persisted, its envelope is found in the cache, under its version.\<close>

lemma persisted_entry:
  assumes "key_env_ok ke" and "started c key" and "truthy message" and "truthy (getp message ''id'')"
    and "persistRecoveredArtifacts re ke env srv True now time nonces message
           (Some (recovered_of_metadata md)) (Some (envelope_of_entity e)) fp (c, st) = (Inr (), (c', st'))"
  shows "fst (getEnvelope ke (getp message ''id'') c') = Inr (versioned (JStr (extractVersion message))
           (buildCachedEnvelopePayload re (envelope_of_entity e) (Some (recovered_of_metadata md))) time)"
    and "unwrapVersionedPayload (versioned (JStr (extractVersion message))
           (buildCachedEnvelopePayload re (envelope_of_entity e) (Some (recovered_of_metadata md))) time) (JStr (extractVersion message))
         = buildCachedEnvelopePayload re (envelope_of_entity e) (Some (recovered_of_metadata md))"
proof -
  let ?h = "buildRecoveredHeaderPayload re (Some (recovered_of_metadata md)) (Some (envelope_of_entity e))"
  let ?p = "buildCachedEnvelopePayload re (envelope_of_entity e) (Some (recovered_of_metadata md))"
  let ?v = "JStr (extractVersion message)"
  note t = persisted_payloads
  obtain c1 where c1: "putHeader ke time (fst nonces) (getp message ''id'') ?v ?h c = (Inr (), c1)"
      "putEnvelope ke time (snd nonces) (getp message ''id'') ?v ?p c1 = (Inr (), c')"
    using assms(5) t(3) extractVersion_nonempty [OF assms(3)]
    by (auto simp: persistRecoveredArtifacts_def Let_def bindI_def on_cache_def on_rest_def returnI_def split: prod.splits sum.splits if_splits)
  show "fst (getEnvelope ke (getp message ''id'') c') = Inr (versioned ?v ?p time)"
    using putHeader_started [OF assms(2,4) t(1) c1(1)] assms(1,4) t(2) envelope_payload_json_ok c1(2) by (intro envelope_entry(1))
  show "unwrapVersionedPayload (versioned ?v ?p time) ?v = ?p"
    using t(2) by (simp add: versioned_def unwrapVersionedPayload_def)
qed

lemma put_sealed_succeeds:
  assumes "started c key" and "store = STORE_MAIL_HEADERS \<or> store = STORE_MAIL_ENVELOPES" and "truthy messageID" and "truthy payload"
    and "\<And>v. \<exists>sealed. sealJSON ke nonce key v = Inr sealed"
  shows "\<exists>c'. put_sealed store ke now nonce messageID version payload c = (Inr (), c') \<and> started c' key"
proof -
  from assms(5) obtain sealed where "sealJSON ke nonce key (versioned version payload now) = Inr sealed" by blast
  from put_sealed_result [OF assms(1-4) this] show ?thesis using assms(1) by (auto simp: started_def)
qed

lemma persist_succeeds:
  assumes "started c key" and "truthy message" and "truthy (getp message ''id'')"
    and "\<And>nonce v. \<exists>sealed. sealJSON ke nonce key v = Inr sealed"
  shows "fst (persistRecoveredArtifacts re ke env srv True now time nonces message (Some r) (Some e) [] (c, st)) = Inr ()"
proof -
  let ?v = "JStr (extractVersion message)" and ?h = "buildRecoveredHeaderPayload re (Some r) (Some e)"
  note t = persisted_payloads
  obtain c1 where c1: "putHeader ke time (fst nonces) (getp message ''id'') ?v ?h c = (Inr (), c1)" "started c1 key"
    using put_sealed_succeeds [OF assms(1) _ assms(3) t(1) assms(4), of STORE_MAIL_HEADERS] unfolding putHeader_def by blast
  obtain c2 where "putEnvelope ke time (snd nonces) (getp message ''id'') ?v (buildCachedEnvelopePayload re e (Some r)) c1 = (Inr (), c2)"
    using put_sealed_succeeds [OF c1(2) _ assms(3) t(2) assms(4), of STORE_MAIL_ENVELOPES] unfolding putEnvelope_def by blast
  with c1(1) t(3) extractVersion_nonempty [OF assms(2)] show ?thesis
    by (simp add: persistRecoveredArtifacts_def Let_def bindI_def on_cache_def returnI_def)
qed

text \<open>
  A message that was opened once is shown from the cache, if it has no attachments: after its
  artifacts were persisted, the branch of \<open>decryptBody\<close> that looks into the cache finds the text and the HTML
  that were displayed. A message with attachments is not shown from the cache, because their bytes are
  not kept there; it is fetched and decrypted again.
\<close>

theorem cached_message_shown:
  assumes "key_env_ok ke" and "started c key" and "truthy message" and "truthy (getp message ''id'')"
    and "persistRecoveredArtifacts re ke env srv True now time nonces message
           (Some (recovered_of_metadata md)) (Some (envelope_of_entity e)) fp (c, st) = (Inr (), (c', st'))"
  shows "cached_view ke message c' = Inr (if me_attachments e = [] then Some (me_bodyText e, trim (me_bodyHtml e)) else None)"
  using persisted_entry [OF assms]
  by (cases "me_attachments e") (simp_all add: cached_view_def Let_def inflate_payload envelopeHasHydratedAttachmentBytes_def
      is_uint8array_def nullish_def str_or_empty_def js_or_def)

definition demo_recover :: recover_env where
  "demo_recover = \<lparr>rv_app = \<lparr>ap_td = map char_of_byte, ap_dp = None\<rparr>, rv_decoder = (\<lambda>_. None)\<rparr>"

definition demo_row :: jsval where
  "demo_row = JObj [(''id'', JStr ''m1''), (''provenance'', JStr ''already_encrypted''), (''subject'', JStr ''...'')]"

definition demo_entity :: mime_entity where
  "demo_entity = \<lparr>me_bodyText = ''Hi'', me_bodyHtml = ''<p>Hi</p> '', me_bodyScore = 0, me_attachments = []\<rparr>"

definition demo_persisted :: "unit result \<times> mail_cache \<times> vault \<times> unit" where
  "demo_persisted =
     persistRecoveredArtifacts demo_recover demo_keys (demo_env 0) (\<lambda>s rq. (Inl TypeError, s)) True 0 ''t'' ([1], [2]) demo_row
       (Some (recovered_of_metadata (metadata_of [(''subject'', ''=?utf-8?Q?Lunch?='')] demo_entity)))
       (Some (envelope_of_entity demo_entity)) [] (demo_cache, (demo_vault, ()))"

lemma demo_row_ok: "truthy demo_row" "truthy (getp demo_row ''id'')" by code_simp+

lemma demo_persisted_run:
  "persistRecoveredArtifacts demo_recover demo_keys (demo_env 0) (\<lambda>s rq. (Inl TypeError, s)) True 0 ''t'' ([1], [2]) demo_row
     (Some (recovered_of_metadata (metadata_of [(''subject'', ''=?utf-8?Q?Lunch?='')] demo_entity)))
     (Some (envelope_of_entity demo_entity)) [] (demo_cache, (demo_vault, ())) = (Inr (), (fst (snd demo_persisted), snd (snd demo_persisted)))"
proof -
  have "\<exists>sealed. sealJSON demo_keys nonce key v = Inr sealed" for nonce key v
    by (simp add: sealJSON_def demo_keys_def demo_crypto_def)
  then have "fst demo_persisted = Inr ()"
    unfolding demo_persisted_def by (intro persist_succeeds [OF demo_cache_started demo_row_ok])
  then show ?thesis unfolding demo_persisted_def [symmetric] by (simp add: prod_eq_iff)
qed

theorem cached_message_shown_witness:
  "cached_view demo_keys demo_row (fst (snd demo_persisted)) = Inr (Some (''Hi'', ''<p>Hi</p>''))"
proof -
  have "trim ''<p>Hi</p> '' = ''<p>Hi</p>''" by code_simp
  then show ?thesis
    using cached_message_shown [OF demo_keys_ok demo_cache_started demo_row_ok demo_persisted_run] by (simp add: demo_entity_def)
qed

end
