(* ===== verification/Background_Recovery.thy ===== *)
theory Background_Recovery
  imports Recovered_Header
begin

text \<open>
  \<^verbatim>\<open>static/mail/mail-app.jsx\<close>, recovering metadata in the background: an effect that starts at most two
  recoveries at a time, and the end of each of them. The state are the rows of the list, the two
  references of the component, and whether one of the dependencies of the effect has changed since it
  ran: React runs it again only then. Vault and cache stay ready. A recovery that finds metadata merges
  it into the list, which is a change; one that fails or finds none only frees its place.
\<close>

section \<open>One recovery\<close>

text \<open>
  \<open>runBackgroundMetadataRecovery\<close>: from the cache, or by fetching and decrypting the blob. The result are the
  arguments with which \<open>recoverMessageMetadata\<close> is called, if it is; what is thrown is caught and logged.
\<close>

definition recovery_from_blob ::
  "recover_env \<Rightarrow> vault_env \<Rightarrow> 's server \<Rightarrow> bool \<Rightarrow> int \<Rightarrow> jsval list \<Rightarrow> jsval
   \<Rightarrow> ('s, recovered option \<times> display_envelope \<times> string) vio" where
  "recovery_from_blob re env srv loaded now identities message =
     bindI (on_server (fetchBlob srv (to_string (getp message ''id'')))) (\<lambda>blob.
     bindI (decryptMessageBlobLocally loaded env srv now (CBytes blob) identities) (\<lambda>res.
     liftI (bindR (extractDisplayEnvelope (rv_app re) (fst res)) (\<lambda>envelope.
            bindR (extractDecryptedMessageMetadata (rv_app re) (fst res) (Some envelope)) (\<lambda>recovered.
            Inr (map_option recovered_of_metadata recovered, envelope_of_entity envelope, to_string (snd res)))))))"

definition runBackgroundMetadataRecovery ::
  "recover_env \<Rightarrow> key_env \<Rightarrow> vault_env \<Rightarrow> 's server \<Rightarrow> bool \<Rightarrow> bool \<Rightarrow> int \<Rightarrow> jsval list \<Rightarrow> jsval
   \<Rightarrow> mail_cache \<times> vault \<times> 's \<Rightarrow> (recovered option \<times> display_envelope \<times> string) option \<times> mail_cache \<times> vault \<times> 's" where
  "runBackgroundMetadataRecovery re ke env srv mailCacheReady loaded now identities message st =
     (let version = (if mailCacheReady then extractVersion message else []);
          looked = (if version = [] then (Inr JNull, st) else on_cache (getEnvelope ke (getp message ''id'')) st)
      in
      case looked of
        (Inl _, st1) \<Rightarrow> (None, st1)
      | (Inr entry, st1) \<Rightarrow>
          (let cachedEnvelope = inflateCachedEnvelopePayload (unwrapVersionedPayload entry (JStr version)) in
           if truthy cachedEnvelope \<and> truthy (getp cachedEnvelope ''recovered'') then
             (Some (Some (recovered_of_json (getp cachedEnvelope ''recovered'')), envelope_of_json cachedEnvelope, []), st1)
           else
             (case on_rest (recovery_from_blob re env srv loaded now identities message) st1 of
                (Inl _, st2) \<Rightarrow> (None, st2)
              | (Inr x, st2) \<Rightarrow> (Some x, st2))))"

text \<open>
  A message whose artifacts were persisted is recovered from the cache: the recovery gives the header
  payload that was kept, under whatever vault and server, and leaves both as they are, so nothing is
  fetched and nothing decrypted.
\<close>

theorem recovered_without_request:
  assumes "key_env_ok ke" and "started c key" and "truthy message" and "truthy (getp message ''id'')"
    and "persistRecoveredArtifacts re ke env srv True now time nonces message
           (Some (recovered_of_metadata md)) (Some (envelope_of_entity e)) fp (c, st) = (Inr (), (c', st'))"
  shows "\<exists>shown c''. runBackgroundMetadataRecovery re ke env' srv' True loaded now' identities message (c', st'') =
     (Some (Some (recovered_of_json (buildRecoveredHeaderPayload re (Some (recovered_of_metadata md)) (Some (envelope_of_entity e)))),
        shown, []), (c'', st''))"
  using persisted_entry [OF assms] extractVersion_nonempty [OF assms(3)] persisted_payloads(1) [of re "recovered_of_metadata md" "envelope_of_entity e"]
  by (cases "getEnvelope ke (getp message ''id'') c'")
     (simp add: runBackgroundMetadataRecovery_def Let_def on_cache_def inflate_payload js_or_def)

theorem recovered_without_request_witness:
  "\<exists>shown c''. runBackgroundMetadataRecovery demo_recover demo_keys (demo_env 0) (\<lambda>s rq. (Inl TypeError, s)) True True 5 [] demo_row
       (fst (snd demo_persisted), (demo_vault, ())) =
     (Some (Some (recovered_of_json (buildRecoveredHeaderPayload demo_recover
        (Some (recovered_of_metadata (metadata_of [(''subject'', ''=?utf-8?Q?Lunch?='')] demo_entity))) (Some (envelope_of_entity demo_entity)))),
        shown, []), (c'', (demo_vault, ())))"
  using recovered_without_request [OF demo_keys_ok demo_cache_started demo_row_ok demo_persisted_run] .

section \<open>The machine\<close>

definition BACKGROUND_RECOVERY_CONCURRENCY :: nat where
  "BACKGROUND_RECOVERY_CONCURRENCY = 2"

record recovery =
  rq_messages :: "jsval list"
  rq_inFlight :: "jsval list"
  rq_attempts :: "(jsval \<times> string) list"
  rq_changed :: bool

definition msg_key :: "jsval \<Rightarrow> jsval" where
  "msg_key m = getp m ''id''"

definition recovery_candidate :: "recover_env \<Rightarrow> recovery \<Rightarrow> jsval \<Rightarrow> bool" where
  "recovery_candidate env st m =
     (shouldRecoverMetadataFromBody env m \<and> extractVersion m \<noteq> [] \<and> msg_key m \<notin> set (rq_inFlight st)
      \<and> map_of (rq_attempts st) (msg_key m) \<noteq> Some (extractVersion m))"

definition start_recovery :: "jsval \<Rightarrow> recovery \<Rightarrow> recovery" where
  "start_recovery m st =
     st\<lparr>rq_attempts := AList.update (msg_key m) (extractVersion m) (rq_attempts st), rq_inFlight := rq_inFlight st @ [msg_key m]\<rparr>"

definition recovery_effect :: "recover_env \<Rightarrow> recovery \<Rightarrow> recovery" where
  "recovery_effect env st =
     (let availableSlots = BACKGROUND_RECOVERY_CONCURRENCY - length (rq_inFlight st) in
      if availableSlots = 0 then st
      else fold start_recovery (take availableSlots (filter (recovery_candidate env st) (rq_messages st))) st)"

text \<open>
  The end of \<open>runBackgroundMetadataRecovery\<close> for a message: \<open>recoverMessageMetadata\<close> with what was recovered, and
  the place is free.
\<close>

definition recovery_finished :: "recover_env \<Rightarrow> jsval \<Rightarrow> recovered option \<Rightarrow> recovery \<Rightarrow> recovery" where
  "recovery_finished env i r st =
     (let st1 = (case r of
                   Some x \<Rightarrow>
                     if \<not> truthy i then st
                     else st\<lparr>rq_messages := map (\<lambda>m. if msg_key m = i then mergeRecoveredMessageData env m (Some x) else m) (rq_messages st),
                             rq_changed := True\<rparr>
                 | None \<Rightarrow> st)
      in st1\<lparr>rq_inFlight := remove1 i (rq_inFlight st1)\<rparr>)"

inductive recovery_step :: "recover_env \<Rightarrow> recovery \<Rightarrow> recovery \<Rightarrow> bool" for env where
  effect: "rq_changed st \<Longrightarrow> recovery_step env st (recovery_effect env (st\<lparr>rq_changed := False\<rparr>))"
| finished: "i \<in> set (rq_inFlight st) \<Longrightarrow> recovery_step env st (recovery_finished env i r st)"

text \<open>The steps when every recovery finds metadata.\<close>

inductive recovering_step :: "recover_env \<Rightarrow> recovery \<Rightarrow> recovery \<Rightarrow> bool" for env where
  effect: "rq_changed st \<Longrightarrow> recovering_step env st (recovery_effect env (st\<lparr>rq_changed := False\<rparr>))"
| finished: "i \<in> set (rq_inFlight st) \<Longrightarrow> recovering_step env st (recovery_finished env i (Some x) st)"

inductive_cases recovery_stepE: "recovery_step env st st'"
inductive_cases recovering_stepE: "recovering_step env st st'"

definition list_opened :: "jsval list \<Rightarrow> recovery" where
  "list_opened msgs = \<lparr>rq_messages = msgs, rq_inFlight = [], rq_attempts = [], rq_changed = True\<rparr>"

fun is_row :: "jsval \<Rightarrow> bool" where
  "is_row (JObj _) = True"
| "is_row _ = False"

definition rows_ok :: "jsval list \<Rightarrow> bool" where
  "rows_ok msgs = (list_all (\<lambda>m. is_row m \<and> truthy (msg_key m)) msgs \<and> distinct (map msg_key msgs))"

definition opened_list :: "recovery \<Rightarrow> bool" where
  "opened_list st = (\<exists>msgs. rows_ok msgs \<and> st = list_opened msgs)"

section \<open>Merging keeps the row\<close>

lemma getp_spread_other:
  "k \<notin> fst ` set fs \<Longrightarrow> getp (object_spread (JObj kvs) fs) k = getp (JObj kvs) k"
proof -
  have "k \<notin> fst ` set fs \<Longrightarrow> map_of (fold (\<lambda>(k, x) o'. AList.update k x o') fs o') k = map_of o' k" for o' :: "(string \<times> jsval) list"
    by (induction fs arbitrary: o') (auto simp: update_conv)
  then show "k \<notin> fst ` set fs \<Longrightarrow> ?thesis" by (simp add: object_spread_def)
qed

lemma merge_row:
  assumes "is_row m"
  shows "is_row (mergeRecoveredMessageData env m r)"
    and "msg_key (mergeRecoveredMessageData env m r) = msg_key m"
    and "extractVersion (mergeRecoveredMessageData env m r) = extractVersion m"
proof -
  obtain kvs where m: "m = JObj kvs" using assms by (cases m) auto
  have "is_row (mergeRecoveredMessageData env m r)
    \<and> (\<forall>k \<in> {''id'', ''body_blob_ref'', ''body_size_bytes'', ''header_ciphertext_b64''}. getp (mergeRecoveredMessageData env m r) k = getp m k)"
  proof (cases r)
    case (Some x)
    let ?keys = "{''id'', ''body_blob_ref'', ''body_size_bytes'', ''header_ciphertext_b64''}"
    from Some obtain fs where fs: "mergeRecoveredMessageData env m r = object_spread (JObj kvs) fs"
        "fst ` set fs \<subseteq> {''subject'', ''from_addr'', ''to_addrs'', ''cc_addrs'', ''rfc_message_id'', ''in_reply_to'', ''references'',
           ''reply_to'', ''preview'', ''attachments'', ''has_attachments'', ''headerDecrypted''}"
      by (simp add: mergeRecoveredMessageData_def m Let_def)
    have "k \<notin> fst ` set fs" if "k \<in> ?keys" for k
    proof
      assume "k \<in> fst ` set fs"
      from set_mp [OF fs(2) this] that show False by auto
    qed
    then have "\<forall>k \<in> ?keys. getp (mergeRecoveredMessageData env m r) k = getp m k"
      unfolding fs(1) unfolding m by (intro ballI getp_spread_other)
    moreover have "is_row (mergeRecoveredMessageData env m r)" unfolding fs(1) by (simp add: object_spread_def)
    ultimately show ?thesis by blast
  qed (use assms in \<open>simp add: mergeRecoveredMessageData_def\<close>)
  moreover have "is_row v \<Longrightarrow> truthy v" for v by (cases v) auto
  ultimately show "is_row (mergeRecoveredMessageData env m r)" "msg_key (mergeRecoveredMessageData env m r) = msg_key m"
    "extractVersion (mergeRecoveredMessageData env m r) = extractVersion m"
    using assms by (auto simp: msg_key_def extractVersion_def)
qed

section \<open>The effect\<close>

lemma fold_start:
  "rq_messages (fold start_recovery ms st) = rq_messages st \<and> rq_changed (fold start_recovery ms st) = rq_changed st
   \<and> rq_inFlight (fold start_recovery ms st) = rq_inFlight st @ map msg_key ms"
  by (induction ms arbitrary: st) (auto simp: start_recovery_def)

lemma fold_start_attempts:
  "distinct (map msg_key ms) \<Longrightarrow>
   map_of (rq_attempts (fold start_recovery ms st)) i =
     (case List.find (\<lambda>m. msg_key m = i) ms of Some m \<Rightarrow> Some (extractVersion m) | None \<Rightarrow> map_of (rq_attempts st) i)"
proof (induction ms arbitrary: st)
  case (Cons m ms)
  have "\<forall>x \<in> set ms. msg_key x \<noteq> msg_key m" using Cons.prems by (metis distinct.simps(2) image_eqI list.set_map list.simps(9))
  then have "List.find (\<lambda>x. msg_key x = msg_key m) ms = None" by (simp add: find_None_iff)
  with Cons show ?case by (auto simp: start_recovery_def update_conv split: option.split)
qed simp

definition started_by :: "recover_env \<Rightarrow> recovery \<Rightarrow> jsval list" where
  "started_by env st = take (BACKGROUND_RECOVERY_CONCURRENCY - length (rq_inFlight st)) (filter (recovery_candidate env st) (rq_messages st))"

lemma recovery_effect_started: "recovery_effect env st = fold start_recovery (started_by env st) st"
  by (simp add: recovery_effect_def started_by_def Let_def)

lemma started_by_props:
  assumes "rows_ok (rq_messages st)"
  shows "set (started_by env st) \<subseteq> set (rq_messages st)" and "\<forall>m \<in> set (started_by env st). recovery_candidate env st m"
    and "distinct (map msg_key (started_by env st))"
    and "length (started_by env st) \<le> BACKGROUND_RECOVERY_CONCURRENCY - length (rq_inFlight st)"
proof -
  show "set (started_by env st) \<subseteq> set (rq_messages st)" "\<forall>m \<in> set (started_by env st). recovery_candidate env st m"
    by (auto simp: started_by_def dest: in_set_takeD)
  have "distinct (map msg_key (filter (recovery_candidate env st) (rq_messages st)))"
    using assms by (simp add: rows_ok_def distinct_map_filter)
  then show "distinct (map msg_key (started_by env st))" by (simp add: started_by_def take_map [symmetric] distinct_take)
  show "length (started_by env st) \<le> BACKGROUND_RECOVERY_CONCURRENCY - length (rq_inFlight st)" by (simp add: started_by_def)
qed

text \<open>Whether a row was tried already, and how many were not.\<close>

definition tried :: "recovery \<Rightarrow> jsval \<Rightarrow> bool" where
  "tried st m = (map_of (rq_attempts st) (msg_key m) = Some (extractVersion m))"

definition untried :: "recovery \<Rightarrow> nat" where
  "untried st = length (filter (\<lambda>m. \<not> tried st m) (rq_messages st))"

lemma tried_effect:
  assumes "rows_ok (rq_messages st)" and "m \<in> set (rq_messages st)"
  shows "tried (recovery_effect env st) m \<longleftrightarrow> tried st m \<or> m \<in> set (started_by env st)"
proof -
  note started = started_by_props [OF assms(1), of env]
  have inj: "x = m" if "x \<in> set (rq_messages st)" "msg_key x = msg_key m" for x
    using that assms by (auto simp: rows_ok_def distinct_map dest: inj_onD)
  show ?thesis
  proof (cases "m \<in> set (started_by env st)")
    case True
    then obtain x where x: "List.find (\<lambda>y. msg_key y = msg_key m) (started_by env st) = Some x"
      by (cases "List.find (\<lambda>y. msg_key y = msg_key m) (started_by env st)") (auto simp: find_None_iff)
    then have "x \<in> set (started_by env st)" "msg_key x = msg_key m" by (auto simp: find_Some_iff)
    then have "x = m" using inj started(1) by blast
    with True x show ?thesis by (simp add: tried_def recovery_effect_started fold_start_attempts [OF started(3)])
  next
    case False
    then have "List.find (\<lambda>y. msg_key y = msg_key m) (started_by env st) = None"
      using inj started(1) by (auto simp: find_None_iff)
    with False show ?thesis by (simp add: tried_def recovery_effect_started fold_start_attempts [OF started(3)])
  qed
qed

lemma untried_effect:
  assumes "rows_ok (rq_messages st)"
  shows "untried (recovery_effect env st) + length (started_by env st) = untried st"
proof -
  let ?s = "started_by env st" and ?msgs = "rq_messages st"
  note started = started_by_props [OF assms, of env]
  have dist: "distinct ?msgs" using assms by (simp add: rows_ok_def distinct_map)
  have "distinct ?s" using started(3) by (simp add: distinct_map)
  then have len: "length ?s = card (set ?s)" by (simp add: distinct_card)
  have new: "x \<in> set ?s \<Longrightarrow> \<not> tried st x" for x using started(2) by (simp add: recovery_candidate_def tried_def)
  have "untried (recovery_effect env st) = card {m \<in> set ?msgs. \<not> tried st m \<and> m \<notin> set ?s}"
  proof -
    have "rq_messages (recovery_effect env st) = ?msgs" by (simp add: recovery_effect_started fold_start)
    then have "untried (recovery_effect env st) = card (set (filter (\<lambda>m. \<not> tried (recovery_effect env st) m) ?msgs))"
      using dist by (simp only: untried_def distinct_card distinct_filter)
    also have "set (filter (\<lambda>m. \<not> tried (recovery_effect env st) m) ?msgs) = {m \<in> set ?msgs. \<not> tried st m \<and> m \<notin> set ?s}"
      using tried_effect [OF assms] by auto
    finally show ?thesis .
  qed
  moreover have "untried st = card {m \<in> set ?msgs. \<not> tried st m}"
    using dist distinct_card [of "filter (\<lambda>m. \<not> tried st m) ?msgs"] by (simp add: untried_def)
  moreover have "{m \<in> set ?msgs. \<not> tried st m} = {m \<in> set ?msgs. \<not> tried st m \<and> m \<notin> set ?s} \<union> set ?s"
    using new started(1) by auto
  moreover have "card ({m \<in> set ?msgs. \<not> tried st m \<and> m \<notin> set ?s} \<union> set ?s) = card {m \<in> set ?msgs. \<not> tried st m \<and> m \<notin> set ?s} + card (set ?s)"
    by (intro card_Un_disjoint) auto
  ultimately show ?thesis using len by simp
qed

section \<open>Invariant and end\<close>

definition recovery_inv :: "recovery \<Rightarrow> bool" where
  "recovery_inv st =
     (rows_ok (rq_messages st) \<and> length (rq_inFlight st) \<le> BACKGROUND_RECOVERY_CONCURRENCY \<and> distinct (rq_inFlight st)
      \<and> set (rq_inFlight st) \<subseteq> msg_key ` set (rq_messages st))"

lemma effect_keeps:
  assumes "recovery_inv st"
  shows "recovery_inv (recovery_effect env (st\<lparr>rq_changed := b\<rparr>))"
proof -
  let ?st = "st\<lparr>rq_changed := b\<rparr>"
  have rows: "rows_ok (rq_messages ?st)" using assms by (simp add: recovery_inv_def)
  note started = started_by_props [OF rows, of env]
  have "set (rq_inFlight ?st) \<inter> msg_key ` set (started_by env ?st) = {}" using started(2) by (auto simp: recovery_candidate_def)
  then show ?thesis
    using assms started(1,3,4) by (auto simp: recovery_inv_def recovery_effect_started fold_start)
qed

text \<open>A finished recovery keeps the keys and versions of the rows.\<close>

definition merged_rows :: "recover_env \<Rightarrow> jsval \<Rightarrow> recovered option \<Rightarrow> jsval list \<Rightarrow> jsval list" where
  "merged_rows env i r msgs = map (\<lambda>m. if truthy i \<and> msg_key m = i then mergeRecoveredMessageData env m r else m) msgs"

lemma recovery_finished_sel:
  "rq_messages (recovery_finished env i r st) = merged_rows env i r (rq_messages st)"
  "rq_inFlight (recovery_finished env i r st) = remove1 i (rq_inFlight st)"
  "rq_attempts (recovery_finished env i r st) = rq_attempts st"
  "rq_changed (recovery_finished env i r st) \<longleftrightarrow> rq_changed st \<or> truthy i \<and> r \<noteq> None"
  by (auto simp: recovery_finished_def merged_rows_def mergeRecoveredMessageData_def Let_def map_idI split: option.splits)

lemma merged_rows_keep:
  assumes "rows_ok msgs"
  shows "rows_ok (merged_rows env i r msgs)" and "map msg_key (merged_rows env i r msgs) = map msg_key msgs"
    and "map extractVersion (merged_rows env i r msgs) = map extractVersion msgs"
proof -
  have "is_row m" if "m \<in> set msgs" for m using assms that by (auto simp: rows_ok_def list_all_iff)
  then show keys: "map msg_key (merged_rows env i r msgs) = map msg_key msgs"
    and "map extractVersion (merged_rows env i r msgs) = map extractVersion msgs"
    by (auto simp: merged_rows_def merge_row)
  then show "rows_ok (merged_rows env i r msgs)"
    using assms unfolding rows_ok_def keys by (auto simp: merged_rows_def list_all_iff merge_row)
qed

lemma untried_finished:
  assumes "rows_ok (rq_messages st)"
  shows "untried (recovery_finished env i r st) = untried st"
proof -
  have is_len: "untried s = length (filter (\<lambda>(k, v). map_of (rq_attempts s) k \<noteq> Some v)
      (zip (map msg_key (rq_messages s)) (map extractVersion (rq_messages s))))" for s
    by (simp add: untried_def tried_def zip_map_map zip_same_conv_map filter_map comp_def)
  show ?thesis unfolding is_len recovery_finished_sel merged_rows_keep(2,3) [OF assms] by simp
qed

lemma recovery_inv_step:
  assumes "recovery_inv st" and "recovery_step env st st'"
  shows "recovery_inv st'"
  using assms(2)
proof (cases rule: recovery_step.cases)
  case effect
  then show ?thesis using effect_keeps [OF assms(1)] by simp
next
  case (finished i r)
  then show ?thesis
    using assms(1) merged_rows_keep(1) arg_cong [OF merged_rows_keep(2), of _ set] set_remove1_subset [of i "rq_inFlight st"]
      length_remove1 [of i "rq_inFlight st"]
    by (auto simp: recovery_inv_def recovery_finished_sel simp flip: set_map split: if_splits)
qed

interpretation background: invariant_system opened_list "recovery_step env" recovery_inv for env
proof
  show "opened_list st \<Longrightarrow> recovery_inv st" for st by (auto simp: opened_list_def list_opened_def recovery_inv_def)
qed (rule recovery_inv_step)

definition recovery_measure :: "recovery \<Rightarrow> nat" where
  "recovery_measure st = 3 * untried st + 2 * length (rq_inFlight st) + of_bool (rq_changed st)"

lemma recovery_measure_step:
  assumes "recovery_inv st" and "recovery_step env st st'"
  shows "recovery_measure st' < recovery_measure st"
  using assms(2)
proof (cases rule: recovery_step.cases)
  case effect
  let ?st = "st\<lparr>rq_changed := False\<rparr>"
  have rows: "rows_ok (rq_messages ?st)" using assms(1) by (simp add: recovery_inv_def)
  have "untried ?st = untried st" by (simp add: untried_def tried_def)
  then show ?thesis
    using effect untried_effect [OF rows, of env]
    by (simp add: recovery_measure_def recovery_effect_started fold_start)
next
  case (finished i r)
  have "untried st' = untried st" using finished assms(1) by (simp add: recovery_inv_def untried_finished)
  moreover have "Suc (length (remove1 i (rq_inFlight st))) = length (rq_inFlight st)"
    using finished(2) length_pos_if_in_set [OF finished(2)] by (simp add: length_remove1)
  ultimately show ?thesis using finished(1) by (auto simp: recovery_measure_def recovery_finished_sel)
qed

lemma untried_le: "untried st \<le> length (rq_messages st)"
  by (simp add: untried_def)

text \<open>
  C23. Recovering metadata in the background comes to an end, whatever the recoveries give and in whatever
  order they end: of a list of \<open>n\<close> rows with distinct ids there are at most \<open>3n + 1\<close> runs of the effect and ends of
  recoveries, and at no time more than two recoveries are in flight.
\<close>

theorem recovery_terminates:
  assumes "rows_ok msgs" and "(recovery_step env ^^ n) (list_opened msgs) st"
  shows "n \<le> 3 * length msgs + 1 \<and> length (rq_inFlight st) \<le> 2"
proof -
  have "recovery_inv st \<and> n + recovery_measure st \<le> 3 * length msgs + 1"
    using assms(2)
  proof (induction n arbitrary: st)
    case 0
    then have "st = list_opened msgs" by simp
    moreover have "opened_list (list_opened msgs)" using assms(1) by (auto simp: opened_list_def)
    ultimately show ?case
      using untried_le [of st] background.inv_init [of st] by (auto simp: recovery_measure_def list_opened_def)
  next
    case (Suc n)
    from Suc.prems obtain s where s: "(recovery_step env ^^ n) (list_opened msgs) s" "recovery_step env s st" by auto
    from Suc.IH [OF s(1)] have "recovery_inv s" "n + recovery_measure s \<le> 3 * length msgs + 1" by auto
    with recovery_inv_step [OF _ s(2)] recovery_measure_step [OF _ s(2)] show ?case by auto
  qed
  then show ?thesis by (simp add: recovery_inv_def BACKGROUND_RECOVERY_CONCURRENCY_def)
qed

section \<open>Which rows are tried\<close>

lemma recovering_is_recovery: "recovering_step env st st' \<Longrightarrow> recovery_step env st st'"
  by (auto elim: recovering_stepE intro: recovery_step.intros)

definition no_row_waits :: "recover_env \<Rightarrow> recovery \<Rightarrow> bool" where
  "no_row_waits env st = (rq_changed st \<or> rq_inFlight st \<noteq> [] \<or> (\<forall>m \<in> set (rq_messages st). \<not> recovery_candidate env st m))"

lemma effect_leaves_none_waiting: "no_row_waits env (recovery_effect env st)"
proof (cases "rq_inFlight (recovery_effect env st)")
  case Nil
  then have "started_by env st = []" "rq_inFlight st = []" by (simp_all add: recovery_effect_started fold_start)
  then have "filter (recovery_candidate env st) (rq_messages st) = []" "recovery_effect env st = st"
    by (simp_all add: started_by_def recovery_effect_started BACKGROUND_RECOVERY_CONCURRENCY_def)
  then show ?thesis by (auto simp: no_row_waits_def filter_empty_conv)
qed (simp add: no_row_waits_def)

lemma recovering_keeps_none_waiting:
  assumes "recovery_inv st" and "recovering_step env st st'"
  shows "no_row_waits env st'"
  using assms(2)
proof (cases rule: recovering_step.cases)
  case (finished i x)
  then have "truthy i" using assms(1) by (auto simp: recovery_inv_def rows_ok_def list_all_iff)
  with finished show ?thesis by (simp add: no_row_waits_def recovery_finished_sel)
qed (simp add: effect_leaves_none_waiting)

interpretation recovering: invariant_system opened_list "recovering_step env" "\<lambda>st. recovery_inv st \<and> no_row_waits env st" for env
proof
  show "recovery_inv st \<and> no_row_waits env st" if "opened_list st" for st
    using background.inv_init [OF that] that by (auto simp: opened_list_def list_opened_def no_row_waits_def)
  show "recovery_inv st' \<and> no_row_waits env st'" if "recovery_inv st \<and> no_row_waits env st" "recovering_step env st st'" for st st'
    using that recovery_inv_step recovering_is_recovery recovering_keeps_none_waiting by blast
qed

text \<open>
  C22. When every recovery finds metadata, none of the rows is forgotten: once the machine is at rest, every
  row whose metadata should be recovered has been tried at its version. Together with the bound on the
  number of steps, each such row is tried after finitely many steps.
\<close>

theorem recovery_attempts_all:
  assumes "rows_ok msgs" and "(recovering_step env)\<^sup>*\<^sup>* (list_opened msgs) st" and "\<nexists>st'. recovering_step env st st'"
    and "m \<in> set (rq_messages st)" and "shouldRecoverMetadataFromBody env m"
  shows "map_of (rq_attempts st) (getp m ''id'') = Some (extractVersion m)"
proof -
  have "opened_list (list_opened msgs)" using assms(1) by (auto simp: opened_list_def)
  from recovering.steps_inv [OF assms(2) recovering.inv_init [OF this]]
  have inv: "recovery_inv st" "no_row_waits env st" by auto
  have rest: "\<not> rq_changed st" using assms(3) recovering_step.effect by blast
  have "rq_inFlight st = []"
  proof (rule ccontr)
    assume "rq_inFlight st \<noteq> []"
    then have "hd (rq_inFlight st) \<in> set (rq_inFlight st)" by simp
    from recovering_step.finished [OF this] assms(3) show False by blast
  qed
  with inv rest assms(4) have "\<not> recovery_candidate env st m" "rq_inFlight st = []" by (auto simp: no_row_waits_def)
  moreover have "extractVersion m \<noteq> []" using assms(5) by (simp add: shouldRecoverMetadataFromBody_def extractVersion_nonempty)
  ultimately show ?thesis using assms(5) by (simp add: recovery_candidate_def msg_key_def)
qed

lemma failing_recoveries: "(recovery_step env)\<^sup>*\<^sup>* st (st\<lparr>rq_inFlight := []\<rparr>)"
proof (induction "rq_inFlight st" arbitrary: st)
  case (Cons i js)
  have "recovery_step env st (recovery_finished env i None st)"
    using Cons.hyps(2) by (intro recovery_step.finished) (metis list.set_intros(1))
  moreover have "recovery_finished env i None st = st\<lparr>rq_inFlight := js\<rparr>"
    using Cons.hyps(2) [symmetric] by (simp add: recovery_finished_def)
  ultimately have "recovery_step env st (st\<lparr>rq_inFlight := js\<rparr>)" by simp
  moreover have "(recovery_step env)\<^sup>*\<^sup>* (st\<lparr>rq_inFlight := js\<rparr>) (st\<lparr>rq_inFlight := []\<rparr>)" using Cons.hyps(1) [of "st\<lparr>rq_inFlight := js\<rparr>"] by simp
  ultimately show ?case by (rule converse_rtranclp_into_rtranclp)
qed (metis recovery.surjective recovery.update_convs(2) rtranclp.rtrancl_refl)

text \<open>
  When recoveries fail, rows are forgotten: a failed recovery frees its place without any change that
  would run the effect again. With more than two rows to recover there is a run that ends with the
  third of them untried, no recovery in flight and no further step.
\<close>

theorem recovery_can_stall:
  assumes "rows_ok msgs" and "2 < length (filter (shouldRecoverMetadataFromBody env) msgs)"
  shows "\<exists>st. (recovery_step env)\<^sup>*\<^sup>* (list_opened msgs) st \<and> (\<nexists>st'. recovery_step env st st')
     \<and> recovery_candidate env st (filter (shouldRecoverMetadataFromBody env) msgs ! 2)"
proof (intro exI conjI)
  let ?c = "filter (shouldRecoverMetadataFromBody env) msgs" and ?st = "(list_opened msgs)\<lparr>rq_changed := False\<rparr>"
  let ?e = "recovery_effect env ?st"
  let ?final = "?e\<lparr>rq_inFlight := []\<rparr>"
  have rows: "rows_ok (rq_messages ?st)" using assms(1) by (simp add: list_opened_def)
  have version: "shouldRecoverMetadataFromBody env m \<Longrightarrow> extractVersion m \<noteq> []" for m
    by (simp add: shouldRecoverMetadataFromBody_def extractVersion_nonempty)
  have "recovery_candidate env ?st = shouldRecoverMetadataFromBody env"
    using version by (intro ext) (auto simp: recovery_candidate_def list_opened_def)
  then have started: "started_by env ?st = take 2 ?c"
    by (simp add: started_by_def BACKGROUND_RECOVERY_CONCURRENCY_def list_opened_def)
  have "recovery_step env (list_opened msgs) ?e" by (intro recovery_step.effect) (simp add: list_opened_def)
  then show "(recovery_step env)\<^sup>*\<^sup>* (list_opened msgs) ?final"
    using failing_recoveries by (rule converse_rtranclp_into_rtranclp)
  have "\<not> rq_changed ?final" by (simp add: recovery_effect_started fold_start)
  then show "\<nexists>st'. recovery_step env ?final st'" by (auto elim!: recovery_stepE)
  have third: "?c ! 2 \<in> set ?c" using assms(2) by (intro nth_mem)
  have "distinct ?c" using assms(1) by (simp add: rows_ok_def distinct_map)
  then have "?c ! 2 \<notin> set (take 2 ?c)"
    using assms(2) by (auto simp: in_set_conv_nth nth_eq_iff_index_eq)
  then have "\<not> tried ?e (?c ! 2)"
    using tried_effect [OF rows, of "?c ! 2" env] third started by (simp add: tried_def list_opened_def)
  then show "recovery_candidate env ?final (?c ! 2)"
    using third version by (simp add: recovery_candidate_def tried_def)
qed

definition demo_rows :: "jsval list" where
  "demo_rows = map (\<lambda>i. JObj [(''id'', JStr i), (''provenance'', JStr ''already_encrypted'')]) [''a'', ''b'', ''c'']"

lemma demo_rows_ok: "rows_ok demo_rows" by code_simp

theorem recovery_terminates_witness: "(1::nat) \<le> 10 \<and> length (rq_inFlight (recovery_effect demo_recover ((list_opened demo_rows)\<lparr>rq_changed := False\<rparr>))) \<le> 2"
proof -
  have "(recovery_step demo_recover ^^ 1) (list_opened demo_rows) (recovery_effect demo_recover ((list_opened demo_rows)\<lparr>rq_changed := False\<rparr>))"
    by (simp only: relpowp_1) (intro recovery_step.effect, simp add: list_opened_def)
  from recovery_terminates [OF demo_rows_ok this] show ?thesis by (simp add: demo_rows_def)
qed

definition demo_single :: "jsval list" where
  "demo_single = take 1 demo_rows"

definition demo_found :: recovered where
  "demo_found = recovered_of_metadata (metadata_of [(''subject'', ''Hi'')] demo_entity)"

definition demo_first :: recovery where
  "demo_first = recovery_effect demo_recover ((list_opened demo_single)\<lparr>rq_changed := False\<rparr>)"

definition demo_merged :: recovery where
  "demo_merged = recovery_finished demo_recover (JStr ''a'') (Some demo_found) demo_first"

definition demo_rest :: recovery where
  "demo_rest = recovery_effect demo_recover (demo_merged\<lparr>rq_changed := False\<rparr>)"

theorem recovery_attempts_all_witness:
  "shouldRecoverMetadataFromBody demo_recover (hd (rq_messages demo_rest))
   \<and> map_of (rq_attempts demo_rest) (JStr ''a'') = Some (extractVersion (hd (rq_messages demo_rest)))"
proof -
  have ok: "rows_ok demo_single" by code_simp
  have 1: "recovering_step demo_recover (list_opened demo_single) demo_first"
    unfolding demo_first_def by (intro recovering_step.effect) (simp add: list_opened_def)
  have 2: "recovering_step demo_recover demo_first demo_merged"
    unfolding demo_merged_def by (intro recovering_step.finished) code_simp
  have 3: "recovering_step demo_recover demo_merged demo_rest"
    unfolding demo_rest_def by (intro recovering_step.effect) code_simp
  have run: "(recovering_step demo_recover)\<^sup>*\<^sup>* (list_opened demo_single) demo_rest"
    using rtranclp.rtrancl_into_rtrancl [OF rtranclp.rtrancl_into_rtrancl [OF r_into_rtranclp [of "recovering_step demo_recover", OF 1] 2] 3] .
  have "\<not> rq_changed demo_rest" "rq_inFlight demo_rest = []" by code_simp+
  then have rest: "\<nexists>st'. recovering_step demo_recover demo_rest st'" by (auto elim!: recovering_stepE)
  have row: "hd (rq_messages demo_rest) \<in> set (rq_messages demo_rest)" "getp (hd (rq_messages demo_rest)) ''id'' = JStr ''a''" by code_simp+
  have should: "shouldRecoverMetadataFromBody demo_recover (hd (rq_messages demo_rest))" by code_simp
  from recovery_attempts_all [OF ok run rest row(1) should] should row(2) show ?thesis by simp
qed

theorem recovery_can_stall_witness:
  "\<exists>st. (recovery_step demo_recover)\<^sup>*\<^sup>* (list_opened demo_rows) st \<and> (\<nexists>st'. recovery_step demo_recover st st')
     \<and> recovery_candidate demo_recover st (filter (shouldRecoverMetadataFromBody demo_recover) demo_rows ! 2)"
proof -
  have "2 < length (filter (shouldRecoverMetadataFromBody demo_recover) demo_rows)" by code_simp
  from recovery_can_stall [OF demo_rows_ok this] show ?thesis .
qed

end
