(* ===== verification/Mail_List.thy ===== *)
theory Mail_List
  imports Background_Recovery
begin

text \<open>
  \<^verbatim>\<open>static/mail/mail-app.jsx\<close>, the message list: which rows are visible while searching, and the selection
  with its anchor and its focus, under clicks, checkboxes, keys, and changes of the list. Ids are
  compared with \<open>===\<close> and kept in sets, where strings are equal by value.
\<close>

section \<open>Rows\<close>

definition find_index :: "jsval list \<Rightarrow> jsval \<Rightarrow> int" where
  "find_index rows i = (let n = length (takeWhile (\<lambda>m. msg_key m \<noteq> i) rows) in if n < length rows then int n else - 1)"

definition hit_id :: "jsval \<Rightarrow> jsval" where
  "hit_id hit = js_or (getp hit ''message_id'') (getp hit ''id'')"

definition hit_fields :: "jsval \<Rightarrow> jsval \<Rightarrow> (string \<times> jsval) list" where
  "hit_fields hit msg =
     [(''preview'', js_or (js_or (getp hit ''snippet'') (getp msg ''preview'')) (JStr [])),
      (''search_sources'', if isArray (getp hit ''sources'') then getp hit ''sources''
                           else if truthy (getp hit ''source'') then JArr [getp hit ''source''] else JArr [])]"

definition visible_row :: "jsval list \<Rightarrow> jsval \<Rightarrow> jsval option" where
  "visible_row messages hit =
     (if \<not> truthy (hit_id hit) then None
      else map_option (\<lambda>msg. object_spread msg (hit_fields hit msg))
             (map_of (rev (map (\<lambda>m. (msg_key m, m)) messages)) (hit_id hit)))"

definition visibleMessages :: "jsval list \<Rightarrow> string \<Rightarrow> jsval list option \<Rightarrow> jsval list" where
  "visibleMessages messages search searchHits =
     (case searchHits of
        Some hits \<Rightarrow> if trim search = [] then messages else List.map_filter (visible_row messages) hits
      | None \<Rightarrow> messages)"

section \<open>Selection\<close>

record selection =
  sel_ids :: "jsval list"
  sel_anchorId :: jsval
  sel_focusId :: jsval

definition emptyMailListSelection :: selection where
  "emptyMailListSelection = \<lparr>sel_ids = [], sel_anchorId = JNull, sel_focusId = JNull\<rparr>"

definition single_selection :: "jsval \<Rightarrow> selection" where
  "single_selection i = \<lparr>sel_ids = [i], sel_anchorId = i, sel_focusId = i\<rparr>"

definition orderSelectedIdsByMessages :: "jsval list \<Rightarrow> jsval list \<Rightarrow> jsval list" where
  "orderSelectedIdsByMessages selected rows = map msg_key (filter (\<lambda>m. msg_key m \<in> set selected) rows)"

definition first_or_null :: "jsval list \<Rightarrow> jsval" where
  "first_or_null ids = (case ids of [] \<Rightarrow> JNull | i # _ \<Rightarrow> js_or i JNull)"

definition last_or_null :: "jsval list \<Rightarrow> jsval" where
  "last_or_null ids = (if ids = [] then JNull else js_or (last ids) JNull)"

definition mailListSelectionAfterRemoving :: "selection \<Rightarrow> jsval list \<Rightarrow> selection" where
  "mailListSelectionAfterRemoving prev removed =
     (let ids = filter (\<lambda>i. i \<notin> set removed) (sel_ids prev); anchorId = sel_anchorId prev in
      if ids = [] then emptyMailListSelection
      else \<lparr>sel_ids = ids,
            sel_anchorId = (if \<not> truthy anchorId \<or> anchorId \<in> set removed \<or> anchorId \<notin> set ids then hd ids else anchorId),
            sel_focusId = (if sel_focusId prev \<in> set removed then last_or_null ids else sel_focusId prev)\<rparr>)"

text \<open>The effect that follows a change of the visible rows; \<open>vis\<close> are their ids.\<close>

definition prune_selection :: "jsval list \<Rightarrow> selection \<Rightarrow> selection" where
  "prune_selection vis prev =
     (let ids = filter (\<lambda>i. i \<in> set vis) (sel_ids prev); anchorId = sel_anchorId prev;
          focusOk = (\<not> truthy (sel_focusId prev) \<or> sel_focusId prev \<in> set vis);
          anchorOk = (\<not> truthy anchorId \<or> anchorId \<in> set vis \<and> anchorId \<in> set ids)
      in
      if sel_ids prev = [] \<and> \<not> truthy (sel_focusId prev) \<and> \<not> truthy anchorId then prev
      else if ids = sel_ids prev \<and> focusOk \<and> anchorOk then prev
      else \<lparr>sel_ids = ids,
            sel_anchorId = (if \<not> truthy anchorId \<or> anchorId \<notin> set vis \<or> anchorId \<notin> set ids then first_or_null ids else anchorId),
            sel_focusId = (if focusOk then sel_focusId prev else last_or_null ids)\<rparr>)"

section \<open>Clicks\<close>

definition rows_between :: "jsval list \<Rightarrow> int \<Rightarrow> int \<Rightarrow> jsval list" where
  "rows_between rows a b = map msg_key (slice (min a b) (max a b + 1) rows)"

definition toggle_selected :: "jsval list \<Rightarrow> jsval \<Rightarrow> selection \<Rightarrow> selection" where
  "toggle_selected rows i prev =
     (let wasOn = (i \<in> set (sel_ids prev));
          selected = (if wasOn then removeAll i (sel_ids prev) else sel_ids prev @ [i]);
          ids = orderSelectedIdsByMessages selected rows; anchorId = sel_anchorId prev
      in
      if ids = [] then emptyMailListSelection
      else \<lparr>sel_ids = ids, sel_anchorId = (if \<not> truthy anchorId \<or> anchorId \<notin> set ids then hd ids else anchorId),
            sel_focusId = (if \<not> wasOn then i else last_or_null ids)\<rparr>)"

definition handleMailListRowClick :: "jsval list \<Rightarrow> jsval \<Rightarrow> bool \<Rightarrow> bool \<Rightarrow> selection \<Rightarrow> selection" where
  "handleMailListRowClick rows i modKey shift prev =
     (if shift \<and> truthy (sel_anchorId prev) then
        (let a = find_index rows (sel_anchorId prev); b = find_index rows i in
         if a < 0 \<or> b < 0 then single_selection i else prev\<lparr>sel_ids := rows_between rows a b, sel_focusId := i\<rparr>)
      else if modKey then toggle_selected rows i prev
      else single_selection i)"

definition handleMailListCheckboxClick :: "jsval list \<Rightarrow> jsval \<Rightarrow> selection \<Rightarrow> selection" where
  "handleMailListCheckboxClick rows i prev = toggle_selected rows i prev"

definition selectAllVisibleMail :: "jsval list \<Rightarrow> selection \<Rightarrow> selection" where
  "selectAllVisibleMail rows prev =
     (if rows = [] then prev
      else \<lparr>sel_ids = map msg_key rows, sel_anchorId = msg_key (hd rows), sel_focusId = msg_key (last rows)\<rparr>)"

section \<open>Keys\<close>

datatype key_action = No_Action | Open_Compose | Load_Folder | Set_Selection selection

text \<open>The row an arrow key leads to from index \<open>cur\<close>, \<open>- 1\<close> standing for no row.\<close>

definition next_index :: "string \<Rightarrow> nat \<Rightarrow> int \<Rightarrow> int" where
  "next_index key n cur =
     (if key = ''ArrowDown'' then (if cur < 0 then 0 else min (int n - 1) (cur + 1))
      else if cur < 0 then int n - 1 else max 0 (cur - 1))"

definition row_at :: "jsval list \<Rightarrow> int \<Rightarrow> jsval" where
  "row_at rows i = (if 0 \<le> i \<and> i < int (length rows) then rows ! nat i else JUndef)"

definition arrow_key :: "string \<Rightarrow> bool \<Rightarrow> jsval list \<Rightarrow> selection \<Rightarrow> key_action" where
  "arrow_key key shift rows sel =
     (if rows = [] then No_Action
      else if shift \<and> truthy (sel_anchorId sel) then
        (let anchorIdx = find_index rows (sel_anchorId sel); focusIdx = find_index rows (sel_focusId sel);
             nextIdx = next_index key (length rows) (if 0 \<le> focusIdx then focusIdx else anchorIdx);
             nxt = row_at rows nextIdx
         in
         if \<not> truthy nxt then No_Action
         else if anchorIdx < 0 then Set_Selection (single_selection (msg_key nxt))
         else Set_Selection \<lparr>sel_ids = rows_between rows anchorIdx nextIdx, sel_anchorId = sel_anchorId sel, sel_focusId = msg_key nxt\<rparr>)
      else
        (let idx = (if truthy (sel_focusId sel) then find_index rows (sel_focusId sel) else - 1);
             nxt = row_at rows (next_index key (length rows) idx)
         in if \<not> truthy nxt then No_Action else Set_Selection (single_selection (msg_key nxt))))"

text \<open>
  The listener for keys of the mail view: \<open>editing\<close> when the target is a field, \<open>menu\<close> when the context menu
  is open.
\<close>

definition onKey :: "bool \<Rightarrow> bool \<Rightarrow> bool \<Rightarrow> bool \<Rightarrow> string \<Rightarrow> bool \<Rightarrow> jsval list \<Rightarrow> selection \<Rightarrow> key_action" where
  "onKey editing menu altKey modKey key shift rows sel =
     (if editing \<or> menu \<or> altKey \<or> modKey then No_Action
      else if key = ''Escape'' \<and> 1 < length (sel_ids sel) \<and> truthy (sel_focusId sel) then
        Set_Selection (single_selection (sel_focusId sel))
      else if key \<in> {''c'', ''C''} then Open_Compose
      else if key \<in> {''r'', ''R''} then Load_Folder
      else if key \<in> {''ArrowDown'', ''ArrowUp''} then arrow_key key shift rows sel
      else No_Action)"

section \<open>The list as a machine\<close>

record list_view =
  lv_messages :: "jsval list"
  lv_search :: string
  lv_searchHits :: "jsval list option"
  lv_selection :: selection

definition lv_rows :: "list_view \<Rightarrow> jsval list" where
  "lv_rows lv = visibleMessages (lv_messages lv) (lv_search lv) (lv_searchHits lv)"

definition settle :: "list_view \<Rightarrow> list_view" where
  "settle lv = lv\<lparr>lv_selection := prune_selection (map msg_key (lv_rows lv)) (lv_selection lv)\<rparr>"

definition remove_rows :: "jsval list \<Rightarrow> list_view \<Rightarrow> list_view" where
  "remove_rows removed lv =
     lv\<lparr>lv_messages := filter (\<lambda>m. msg_key m \<notin> set removed) (lv_messages lv),
        lv_selection := mailListSelectionAfterRemoving (lv_selection lv) removed\<rparr>"

inductive list_step :: "list_view \<Rightarrow> list_view \<Rightarrow> bool" where
  row_click: "m \<in> set (lv_rows lv) \<Longrightarrow>
    list_step lv (lv\<lparr>lv_selection := handleMailListRowClick (lv_rows lv) (msg_key m) modKey shift (lv_selection lv)\<rparr>)"
| checkbox: "m \<in> set (lv_rows lv) \<Longrightarrow>
    list_step lv (lv\<lparr>lv_selection := handleMailListCheckboxClick (lv_rows lv) (msg_key m) (lv_selection lv)\<rparr>)"
| select_all: "list_step lv (lv\<lparr>lv_selection := selectAllVisibleMail (lv_rows lv) (lv_selection lv)\<rparr>)"
| clear: "list_step lv (lv\<lparr>lv_selection := emptyMailListSelection\<rparr>)"
| key: "onKey editing menu altKey modKey k shift (lv_rows lv) (lv_selection lv) = Set_Selection sel \<Longrightarrow>
    list_step lv (lv\<lparr>lv_selection := sel\<rparr>)"
| loaded: "rows_ok msgs \<Longrightarrow> list_step lv (settle (lv\<lparr>lv_messages := msgs\<rparr>))"
| searched: "distinct (map hit_id (case hits of None \<Rightarrow> [] | Some hs \<Rightarrow> hs)) \<Longrightarrow>
    list_step lv (settle (lv\<lparr>lv_search := q, lv_searchHits := hits\<rparr>))"
| removed: "list_step lv (settle (remove_rows removed lv))"

definition fresh_list :: "list_view \<Rightarrow> bool" where
  "fresh_list lv = (lv = \<lparr>lv_messages = [], lv_search = [], lv_searchHits = None, lv_selection = emptyMailListSelection\<rparr>)"

definition selection_ok :: "jsval list \<Rightarrow> selection \<Rightarrow> bool" where
  "selection_ok vis sel =
     (set (sel_ids sel) \<subseteq> set vis \<and> distinct (sel_ids sel)
      \<and> (if sel_ids sel = [] then sel_anchorId sel = JNull \<and> sel_focusId sel = JNull
         else sel_anchorId sel \<in> set (sel_ids sel) \<and> sel_focusId sel \<in> set (sel_ids sel)))"

section \<open>Visible rows\<close>

text \<open>The ids of the rows that are shown are distinct and none of them is empty.\<close>

definition keys_ok :: "jsval list \<Rightarrow> bool" where
  "keys_ok rows = ((\<forall>m \<in> set rows. is_row m \<and> truthy (msg_key m)) \<and> distinct (map msg_key rows))"

lemma rows_ok_keys: "rows_ok msgs \<Longrightarrow> keys_ok msgs"
  by (simp add: rows_ok_def keys_ok_def list_all_iff)

lemma is_row_obj: "is_row m \<longleftrightarrow> (\<exists>kvs. m = JObj kvs)"
  by (cases m) auto

lemma visible_row_key:
  assumes "rows_ok msgs" and "visible_row msgs hit = Some row"
  shows "msg_key row = hit_id hit \<and> truthy (hit_id hit) \<and> is_row row"
proof -
  let ?tbl = "rev (map (\<lambda>m. (msg_key m, m)) msgs)"
  obtain msg where msg: "map_of ?tbl (hit_id hit) = Some msg" "truthy (hit_id hit)"
      and row: "row = object_spread msg (hit_fields hit msg)"
    using assms(2) by (auto simp: visible_row_def split: if_splits)
  from map_of_SomeD [OF msg(1)] have "msg \<in> set msgs" "msg_key msg = hit_id hit" by auto
  moreover from this assms(1) obtain kvs where "msg = JObj kvs"
    using is_row_obj by (auto simp: rows_ok_def list_all_iff)
  moreover have "''id'' \<notin> fst ` set (hit_fields hit msg)" by (simp add: hit_fields_def)
  ultimately show ?thesis
    unfolding row using msg(2) getp_spread_other by (auto simp: msg_key_def object_spread_def simp del: getp.simps)
qed

lemma map_filter_keys:
  assumes "\<And>h r. f h = Some r \<Longrightarrow> key r = hkey h" and "distinct (map hkey hs)"
  shows "distinct (map key (List.map_filter f hs)) \<and> set (map key (List.map_filter f hs)) \<subseteq> set (map hkey hs)"
  using assms(2)
proof (induction hs)
  case (Cons h hs)
  then show ?case by (cases "f h") (auto simp: assms(1) List.map_filter_simps)
qed (simp add: List.map_filter_simps)

lemma map_filter_set: "r \<in> set (List.map_filter f hs) \<Longrightarrow> \<exists>h \<in> set hs. f h = Some r"
  by (induction hs) (auto simp: List.map_filter_simps split: option.splits)

lemma visible_keys_ok:
  assumes "rows_ok msgs" and "distinct (map hit_id (case hits of None \<Rightarrow> [] | Some hs \<Rightarrow> hs))"
  shows "keys_ok (visibleMessages msgs q hits)"
proof (cases "hits = None \<or> trim q = []")
  case False
  then obtain hs where hs: "hits = Some hs" "trim q \<noteq> []" by auto
  have "distinct (map msg_key (List.map_filter (visible_row msgs) hs))"
    using map_filter_keys [of "visible_row msgs" msg_key hit_id hs] visible_row_key [OF assms(1)] assms(2) hs by auto
  moreover have "is_row r \<and> truthy (msg_key r)" if r: "r \<in> set (List.map_filter (visible_row msgs) hs)" for r
  proof -
    from map_filter_set [OF r] obtain h where "visible_row msgs h = Some r" by blast
    from visible_row_key [OF assms(1) this] show ?thesis by simp
  qed
  ultimately show ?thesis using hs by (simp add: visibleMessages_def keys_ok_def)
qed (use rows_ok_keys [OF assms(1)] in \<open>auto simp: visibleMessages_def split: option.splits\<close>)

section \<open>Indices\<close>

lemma find_index_in:
  assumes "m \<in> set rows"
  shows "0 \<le> find_index rows (msg_key m) \<and> find_index rows (msg_key m) < int (length rows)
    \<and> msg_key (rows ! nat (find_index rows (msg_key m))) = msg_key m"
proof -
  let ?P = "\<lambda>x. msg_key x \<noteq> msg_key m"
  have "length (takeWhile ?P rows) < length rows"
    using assms by (metis (mono_tags, lifting) length_takeWhile_le le_neq_implies_less takeWhile_eq_all_conv takeWhile_eq_take take_all_iff order_refl)
  then show ?thesis using nth_length_takeWhile [of ?P rows] by (simp add: find_index_def Let_def)
qed

lemma find_index_nth:
  assumes "keys_ok rows" and "i < length rows"
  shows "find_index rows (msg_key (rows ! i)) = int i"
proof -
  note found = find_index_in [of "rows ! i" rows]
  have "nat (find_index rows (msg_key (rows ! i))) = i"
    using found assms nth_eq_iff_index_eq [of "map msg_key rows" "nat (find_index rows (msg_key (rows ! i)))" i]
    by (auto simp: keys_ok_def nat_less_iff)
  then show ?thesis using found assms(2) by (metis int_nat_eq nth_mem)
qed

lemma find_index_bounds: "- 1 \<le> find_index rows i" "find_index rows i < int (length rows)"
  by (simp_all add: find_index_def Let_def)

lemma take_drop_upt: "b \<le> length xs \<Longrightarrow> take (b - a) (drop a xs) = map ((!) xs) [a ..< b]"
  by (intro nth_equalityI) auto

lemma rows_between_nth:
  assumes "0 \<le> a" "a < int (length rows)" "0 \<le> b" "b < int (length rows)"
  shows "rows_between rows a b = map (\<lambda>i. msg_key (rows ! i)) [nat (min a b) ..< Suc (nat (max a b))]"
proof -
  have pos: "slice_pos (min a b) (length rows) = nat (min a b)" "slice_pos (max a b + 1) (length rows) = Suc (nat (max a b))"
    using assms by (auto simp: slice_pos_def min_def max_def)
  have "Suc (nat (max a b)) \<le> length rows" using assms by (auto simp: max_def)
  from take_drop_upt [OF this] show ?thesis
    by (simp add: rows_between_def slice_def Let_def pos comp_def del: upt_Suc)
qed

section \<open>Every operation keeps the selection sound\<close>

lemma first_last_or_null:
  assumes "\<And>i. i \<in> set ids \<Longrightarrow> truthy i" and "ids \<noteq> []"
  shows "first_or_null ids = hd ids" and "last_or_null ids = last ids"
  using assms by (auto simp: first_or_null_def last_or_null_def js_or_def split: list.split)

lemma single_ok: "i \<in> set vis \<Longrightarrow> selection_ok vis (single_selection i)"
  by (simp add: selection_ok_def single_selection_def)

lemma empty_ok: "selection_ok vis emptyMailListSelection"
  by (simp add: selection_ok_def emptyMailListSelection_def)

lemma keys_truthy: "keys_ok rows \<Longrightarrow> i \<in> set (map msg_key rows) \<Longrightarrow> truthy i"
  by (auto simp: keys_ok_def)

lemma selection_ok_truthy:
  assumes "selection_ok vis sel" and "\<And>i. i \<in> set vis \<Longrightarrow> truthy i" and "sel_ids sel \<noteq> []"
  shows "truthy (sel_anchorId sel)" and "truthy (sel_focusId sel)"
  using assms by (auto simp: selection_ok_def)

text \<open>The selection that is left when some of its ids go: anchor and focus stay, or become the first and the last.\<close>

definition kept :: "(jsval \<Rightarrow> bool) \<Rightarrow> selection \<Rightarrow> selection" where
  "kept P sel =
     (let ids = filter P (sel_ids sel) in
      if ids = [] then emptyMailListSelection
      else \<lparr>sel_ids = ids, sel_anchorId = (if P (sel_anchorId sel) then sel_anchorId sel else hd ids),
            sel_focusId = (if P (sel_focusId sel) then sel_focusId sel else last ids)\<rparr>)"

lemma kept_ok:
  assumes "selection_ok vis' sel" and "\<And>i. i \<in> set (sel_ids sel) \<Longrightarrow> P i \<Longrightarrow> i \<in> set vis"
  shows "selection_ok vis (kept P sel)"
proof (cases "filter P (sel_ids sel) = []")
  case False
  then have "hd (filter P (sel_ids sel)) \<in> set (filter P (sel_ids sel))" "last (filter P (sel_ids sel)) \<in> set (filter P (sel_ids sel))"
    by (rule hd_in_set, rule last_in_set)
  moreover have "sel_ids sel \<noteq> []" using False by auto
  ultimately show ?thesis using assms False by (auto simp: selection_ok_def kept_def Let_def)
qed (simp add: kept_def empty_ok)

lemma kept_all: "selection_ok vis' sel \<Longrightarrow> (\<And>i. i \<in> set (sel_ids sel) \<Longrightarrow> P i) \<Longrightarrow> kept P sel = sel"
  by (cases sel) (auto simp: selection_ok_def kept_def Let_def emptyMailListSelection_def)

lemma removing_is_kept:
  assumes "selection_ok vis sel" and "\<And>i. i \<in> set vis \<Longrightarrow> truthy i"
  shows "mailListSelectionAfterRemoving sel removed = kept (\<lambda>i. i \<notin> set removed) sel"
proof (cases "filter (\<lambda>i. i \<notin> set removed) (sel_ids sel) = []")
  case False
  then have "sel_ids sel \<noteq> []" by auto
  then have "truthy (sel_anchorId sel)" "sel_anchorId sel \<in> set (sel_ids sel)"
    using selection_ok_truthy [OF assms] assms(1) by (auto simp: selection_ok_def)
  moreover have "last_or_null (filter (\<lambda>i. i \<notin> set removed) (sel_ids sel)) = last (filter (\<lambda>i. i \<notin> set removed) (sel_ids sel))"
    using False assms by (intro first_last_or_null) (auto simp: selection_ok_def)
  ultimately show ?thesis using False by (auto simp: mailListSelectionAfterRemoving_def kept_def Let_def)
qed (simp add: mailListSelectionAfterRemoving_def kept_def Let_def)

lemma prune_is_kept:
  assumes "selection_ok vis' sel" and "\<And>i. i \<in> set vis' \<Longrightarrow> truthy i"
  shows "prune_selection vis sel = kept (\<lambda>i. i \<in> set vis) sel"
proof (cases "sel_ids sel = []")
  case True
  with assms(1) show ?thesis by (cases sel) (simp add: prune_selection_def kept_def Let_def selection_ok_def emptyMailListSelection_def)
next
  case False
  note t = selection_ok_truthy [OF assms False]
  have mem: "sel_anchorId sel \<in> set (sel_ids sel)" "sel_focusId sel \<in> set (sel_ids sel)" using assms(1) False by (auto simp: selection_ok_def)
  show ?thesis
  proof (cases "filter (\<lambda>i. i \<in> set vis) (sel_ids sel) = []")
    case True
    then have "sel_anchorId sel \<notin> set vis" "sel_focusId sel \<notin> set vis" using mem by (auto simp: filter_empty_conv)
    with True False t show ?thesis
      by (simp add: prune_selection_def kept_def Let_def emptyMailListSelection_def first_or_null_def last_or_null_def)
  next
    case left: False
    then have fl: "first_or_null (filter (\<lambda>i. i \<in> set vis) (sel_ids sel)) = hd (filter (\<lambda>i. i \<in> set vis) (sel_ids sel))"
      "last_or_null (filter (\<lambda>i. i \<in> set vis) (sel_ids sel)) = last (filter (\<lambda>i. i \<in> set vis) (sel_ids sel))"
      using assms by (auto intro!: first_last_or_null simp: selection_ok_def)
    show ?thesis
    proof (cases "filter (\<lambda>i. i \<in> set vis) (sel_ids sel) = sel_ids sel")
      case True
      then have "\<forall>i \<in> set (sel_ids sel). i \<in> set vis" by (metis filter_id_conv)
      with True False t mem show ?thesis by (cases sel) (auto simp: prune_selection_def kept_def Let_def)
    next
      case other: False
      with False left t mem fl show ?thesis by (auto simp: prune_selection_def kept_def Let_def)
    qed
  qed
qed

lemma toggle_ok:
  assumes "keys_ok rows" and "selection_ok (map msg_key rows) sel" and "i \<in> set (map msg_key rows)"
  shows "selection_ok (map msg_key rows) (toggle_selected rows i sel)"
proof -
  let ?on = "i \<in> set (sel_ids sel)"
  let ?ids = "orderSelectedIdsByMessages (if ?on then removeAll i (sel_ids sel) else sel_ids sel @ [i]) rows"
  have sub: "set ?ids \<subseteq> set (map msg_key rows)" and dist: "distinct ?ids"
    using assms(1) by (auto simp: orderSelectedIdsByMessages_def keys_ok_def distinct_map_filter)
  show ?thesis
  proof (cases "?ids = []")
    case False
    have t: "last_or_null ?ids = last ?ids" using False keys_truthy [OF assms(1)] sub by (intro first_last_or_null) auto
    have "\<not> ?on \<Longrightarrow> i \<in> set ?ids" using assms(3) by (auto simp: orderSelectedIdsByMessages_def)
    with False sub dist t hd_in_set [OF False] last_in_set [OF False] show ?thesis
      by (auto simp: toggle_selected_def selection_ok_def Let_def simp del: set_map)
  qed (simp add: toggle_selected_def Let_def empty_ok)
qed

lemma keys_inj: "keys_ok rows \<Longrightarrow> inj_on (\<lambda>i. msg_key (rows ! i)) {0 ..< length rows}"
  using nth_eq_iff_index_eq [of "map msg_key rows"] by (auto simp: inj_on_def keys_ok_def)

lemma between_upt:
  "a < length rows \<Longrightarrow> b < length rows \<Longrightarrow>
   rows_between rows (int a) (int b) = map (\<lambda>i. msg_key (rows ! i)) [min a b ..< Suc (max a b)]"
  using rows_between_nth [of "int a" rows "int b"] by (simp add: min_def max_def)

lemma between_ok:
  assumes "keys_ok rows" and "a < length rows" and "b < length rows"
  shows "selection_ok (map msg_key rows)
    \<lparr>sel_ids = rows_between rows (int a) (int b), sel_anchorId = msg_key (rows ! a), sel_focusId = msg_key (rows ! b)\<rparr>"
proof -
  have "inj_on (\<lambda>i. msg_key (rows ! i)) (set [min a b ..< Suc (max a b)])"
    by (rule inj_on_subset [OF keys_inj [OF assms(1)]]) (use assms(2,3) in auto)
  then show ?thesis using assms(2,3) by (auto simp: between_upt selection_ok_def distinct_map simp del: upt_Suc)
qed

lemma in_rows_nth:
  assumes "keys_ok rows" and "i \<in> set (map msg_key rows)"
  obtains n where "n < length rows" "i = msg_key (rows ! n)" "find_index rows i = int n"
proof -
  from assms(2) obtain n where n: "n < length rows" "i = msg_key (rows ! n)" by (auto simp: in_set_conv_nth)
  with that find_index_nth [OF assms(1) n(1)] show thesis by blast
qed

lemma row_click_ok:
  assumes "keys_ok rows" and "selection_ok (map msg_key rows) sel" and "i \<in> set (map msg_key rows)"
  shows "selection_ok (map msg_key rows) (handleMailListRowClick rows i modKey shift sel)"
proof (cases "shift \<and> truthy (sel_anchorId sel)")
  case True
  then have "sel_ids sel \<noteq> []" using assms(2) by (auto simp: selection_ok_def)
  then have "sel_anchorId sel \<in> set (map msg_key rows)" using assms(2) by (auto simp: selection_ok_def simp del: set_map)
  from in_rows_nth [OF assms(1) this] obtain a where a: "a < length rows" "sel_anchorId sel = msg_key (rows ! a)" "find_index rows (sel_anchorId sel) = int a" .
  from in_rows_nth [OF assms(1,3)] obtain b where b: "b < length rows" "i = msg_key (rows ! b)" "find_index rows i = int b" .
  have "handleMailListRowClick rows i modKey shift sel = \<lparr>sel_ids = rows_between rows (int a) (int b), sel_anchorId = sel_anchorId sel, sel_focusId = i\<rparr>"
    using True a(3) b(3) by (cases sel) (simp add: handleMailListRowClick_def)
  with between_ok [OF assms(1) a(1) b(1)] a(2) b(2) show ?thesis by simp
next
  case False
  then show ?thesis using toggle_ok [OF assms] single_ok [OF assms(3)] by (auto simp: handleMailListRowClick_def)
qed

lemma next_index_nat:
  assumes "rows \<noteq> []" and "cur < int (length rows)"
  shows "\<exists>n. next_index key (length rows) cur = int n \<and> n < length rows"
  using assms by (intro exI [of _ "nat (next_index key (length rows) cur)"]) (cases rows, auto simp: next_index_def)

lemma arrow_key_ok:
  assumes "keys_ok rows" and "selection_ok (map msg_key rows) sel" and "arrow_key key shift rows sel = Set_Selection sel'"
  shows "selection_ok (map msg_key rows) sel'"
proof -
  have "rows \<noteq> []" using assms(3) by (auto simp: arrow_key_def)
  have at: "row_at rows (int n) = rows ! n" if "n < length rows" for n using that by (simp add: row_at_def)
  have nxt: "\<exists>n. next_index key (length rows) (find_index rows x) = int n \<and> n < length rows"
      "\<exists>n. next_index key (length rows) (- 1) = int n \<and> n < length rows" for x
    using next_index_nat [OF \<open>rows \<noteq> []\<close>] find_index_bounds(2) [of rows x] by auto
  show ?thesis
  proof (cases "shift \<and> truthy (sel_anchorId sel)")
    case True
    then have ne: "sel_ids sel \<noteq> []" using assms(2) by (auto simp: selection_ok_def)
    then have mem: "sel_anchorId sel \<in> set (map msg_key rows)" "sel_focusId sel \<in> set (map msg_key rows)"
      using assms(2) by (auto simp: selection_ok_def simp del: set_map)
    from in_rows_nth [OF assms(1) mem(1)] obtain a where a: "a < length rows" "sel_anchorId sel = msg_key (rows ! a)" "find_index rows (sel_anchorId sel) = int a" .
    from in_rows_nth [OF assms(1) mem(2)] obtain f where f: "find_index rows (sel_focusId sel) = int f" .
    from nxt(1) [of "sel_focusId sel"] f obtain n where n: "next_index key (length rows) (int f) = int n" "n < length rows" by auto
    have "sel' = \<lparr>sel_ids = rows_between rows (int a) (int n), sel_anchorId = sel_anchorId sel, sel_focusId = msg_key (rows ! n)\<rparr>"
      using assms(3) True \<open>rows \<noteq> []\<close> a(3) f n at [OF n(2)] by (simp add: arrow_key_def Let_def split: if_splits)
    with between_ok [OF assms(1) a(1) n(2)] a(2) show ?thesis by simp
  next
    case False
    from nxt obtain n where n: "next_index key (length rows) (if truthy (sel_focusId sel) then find_index rows (sel_focusId sel) else - 1) = int n" "n < length rows"
      by (cases "truthy (sel_focusId sel)") auto
    have "sel' = single_selection (msg_key (rows ! n))"
      using assms(3) False \<open>rows \<noteq> []\<close> n at [OF n(2)] by (auto simp: arrow_key_def Let_def split: if_splits)
    then show ?thesis using n(2) by (simp add: single_ok)
  qed
qed

lemma onKey_ok:
  assumes "keys_ok rows" and "selection_ok (map msg_key rows) sel" and "onKey editing menu altKey modKey key shift rows sel = Set_Selection sel'"
  shows "selection_ok (map msg_key rows) sel'"
proof (cases "key = ''Escape''")
  case True
  with assms(3) have "sel' = single_selection (sel_focusId sel)" "sel_ids sel \<noteq> []" by (auto simp: onKey_def split: if_splits)
  with assms(2) show ?thesis by (auto simp: selection_ok_def single_selection_def)
next
  case False
  with assms(3) have "arrow_key key shift rows sel = Set_Selection sel'" by (auto simp: onKey_def split: if_splits)
  with assms(1,2) show ?thesis by (rule arrow_key_ok)
qed

section \<open>Reachable lists\<close>

definition lv_inv :: "list_view \<Rightarrow> bool" where
  "lv_inv lv =
     (rows_ok (lv_messages lv) \<and> distinct (map hit_id (case lv_searchHits lv of None \<Rightarrow> [] | Some hs \<Rightarrow> hs))
      \<and> selection_ok (map msg_key (lv_rows lv)) (lv_selection lv))"

lemma lv_rows_keys: "lv_inv lv \<Longrightarrow> keys_ok (lv_rows lv)"
  by (simp add: lv_inv_def lv_rows_def visible_keys_ok)

lemma settle_ok:
  assumes "selection_ok vis (lv_selection lv)" and "\<And>i. i \<in> set vis \<Longrightarrow> truthy i"
  shows "selection_ok (map msg_key (lv_rows (settle lv))) (lv_selection (settle lv))"
proof -
  have "lv_rows (settle lv) = lv_rows lv" by (simp add: settle_def lv_rows_def)
  with prune_is_kept [OF assms] kept_ok [OF assms(1), of "\<lambda>i. i \<in> set (map msg_key (lv_rows lv))"] show ?thesis
    by (simp add: settle_def del: set_map)
qed

lemma settle_sel [simp]: "lv_messages (settle lv) = lv_messages lv" "lv_searchHits (settle lv) = lv_searchHits lv"
  by (simp_all add: settle_def)

lemma lv_inv_select:
  "lv_inv lv \<Longrightarrow> selection_ok (map msg_key (lv_rows lv)) sel \<Longrightarrow> lv_inv (lv\<lparr>lv_selection := sel\<rparr>)"
  by (simp add: lv_inv_def lv_rows_def)

lemma select_all_ok:
  assumes "keys_ok rows" and "selection_ok (map msg_key rows) sel"
  shows "selection_ok (map msg_key rows) (selectAllVisibleMail rows sel)"
  using assms by (cases "rows = []") (auto simp: selectAllVisibleMail_def selection_ok_def keys_ok_def)

lemma lv_inv_step:
  assumes "lv_inv lv" and "list_step lv lv'"
  shows "lv_inv lv'"
proof -
  note keys = lv_rows_keys [OF assms(1)]
  have sel: "selection_ok (map msg_key (lv_rows lv)) (lv_selection lv)" using assms(1) by (simp add: lv_inv_def)
  have settled: "selection_ok (map msg_key (lv_rows (settle l))) (lv_selection (settle l))"
    if "selection_ok (map msg_key (lv_rows lv)) (lv_selection l)" for l
    using that keys_truthy [OF keys] by (rule settle_ok)
  show ?thesis
    using assms(2)
  proof cases
    case (row_click m modKey shift)
    then show ?thesis using lv_inv_select [OF assms(1)] row_click_ok [OF keys sel] by simp
  next
    case (checkbox m)
    then show ?thesis using lv_inv_select [OF assms(1)] toggle_ok [OF keys sel] by (simp add: handleMailListCheckboxClick_def)
  next
    case select_all
    then show ?thesis using lv_inv_select [OF assms(1)] select_all_ok [OF keys sel] by simp
  next
    case clear
    then show ?thesis using lv_inv_select [OF assms(1)] empty_ok by simp
  next
    case (key editing menu altKey modKey k shift sel')
    then show ?thesis using lv_inv_select [OF assms(1)] onKey_ok [OF keys sel] by simp
  next
    case (loaded msgs)
    then show ?thesis using settled [of "lv\<lparr>lv_messages := msgs\<rparr>"] sel assms(1) by (simp add: lv_inv_def)
  next
    case (searched hits q)
    then show ?thesis using settled [of "lv\<lparr>lv_search := q, lv_searchHits := hits\<rparr>"] sel assms(1) by (simp add: lv_inv_def)
  next
    case (removed ids)
    have "mailListSelectionAfterRemoving (lv_selection lv) ids = kept (\<lambda>i. i \<notin> set ids) (lv_selection lv)"
      by (rule removing_is_kept [OF sel]) (rule keys_truthy [OF keys])
    moreover have "selection_ok (map msg_key (lv_rows lv)) (kept (\<lambda>i. i \<notin> set ids) (lv_selection lv))"
      by (rule kept_ok [OF sel]) (use sel in \<open>auto simp: selection_ok_def simp del: set_map\<close>)
    ultimately have "selection_ok (map msg_key (lv_rows lv)) (lv_selection (remove_rows ids lv))" by (simp add: remove_rows_def)
    moreover have "rows_ok (lv_messages (remove_rows ids lv))"
      using assms(1) by (auto simp: lv_inv_def rows_ok_def remove_rows_def list_all_iff distinct_map_filter)
    moreover have "lv_searchHits (remove_rows ids lv) = lv_searchHits lv" by (simp add: remove_rows_def)
    ultimately show ?thesis using removed settled [of "remove_rows ids lv"] assms(1) by (simp add: lv_inv_def)
  qed
qed

interpretation mail_list: invariant_system fresh_list list_step lv_inv
proof
  show "fresh_list lv \<Longrightarrow> lv_inv lv" for lv
    by (simp add: fresh_list_def lv_inv_def rows_ok_def empty_ok)
qed (rule lv_inv_step)

text \<open>
  C27. However the list is clicked, searched, reloaded, emptied and walked with the keys, its selection
  stays sound: the selected ids are distinct ids of rows that are shown; anchor and focus are among
  them, and there is none of both exactly when nothing is selected. The rows of a load have distinct
  ids, and so have the hits of a search.
\<close>

theorem selection_stays_visible:
  assumes "reach fresh_list list_step lv"
  shows "set (sel_ids (lv_selection lv)) \<subseteq> set (map (\<lambda>m. getp m ''id'') (lv_rows lv)) \<and> distinct (sel_ids (lv_selection lv))
    \<and> (if sel_ids (lv_selection lv) = [] then sel_anchorId (lv_selection lv) = JNull \<and> sel_focusId (lv_selection lv) = JNull
       else sel_anchorId (lv_selection lv) \<in> set (sel_ids (lv_selection lv)) \<and> sel_focusId (lv_selection lv) \<in> set (sel_ids (lv_selection lv)))"
  using mail_list.reach_inv [OF assms] by (simp add: lv_inv_def selection_ok_def msg_key_def [abs_def])

definition demo_view :: list_view where
  "demo_view = \<lparr>lv_messages = demo_rows, lv_search = [], lv_searchHits = None, lv_selection = emptyMailListSelection\<rparr>"

definition demo_clicked :: list_view where
  "demo_clicked = demo_view\<lparr>lv_selection := handleMailListRowClick demo_rows (JStr ''b'') False False emptyMailListSelection\<rparr>"

theorem selection_stays_visible_witness:
  "sel_ids (lv_selection demo_clicked) = [JStr ''b''] \<and> JStr ''b'' \<in> set (map (\<lambda>m. getp m ''id'') (lv_rows demo_clicked))"
proof -
  let ?fresh = "\<lparr>lv_messages = [], lv_search = [], lv_searchHits = None, lv_selection = emptyMailListSelection\<rparr>"
  have "reach fresh_list list_step ?fresh" by (rule reach_init) (simp add: fresh_list_def)
  moreover have "settle (?fresh\<lparr>lv_messages := demo_rows\<rparr>) = demo_view"
    by (simp add: settle_def demo_view_def prune_selection_def emptyMailListSelection_def Let_def)
  then have "list_step ?fresh demo_view" using list_step.loaded [OF demo_rows_ok, of ?fresh] by simp
  ultimately have view: "reach fresh_list list_step demo_view" by (rule reach_step)
  have "demo_rows ! 1 \<in> set (lv_rows demo_view)" by code_simp
  from list_step.row_click [OF this, of False False] have "list_step demo_view demo_clicked"
    by (simp add: demo_clicked_def demo_view_def lv_rows_def visibleMessages_def demo_rows_def msg_key_def)
  with view have "reach fresh_list list_step demo_clicked" by (rule reach_step)
  from selection_stays_visible [OF this] show ?thesis
    by (simp add: demo_clicked_def handleMailListRowClick_def single_selection_def)
qed

section \<open>Ranges\<close>

lemma set_between:
  assumes "keys_ok rows" and "a < length rows" and "b < length rows" and "i < length rows"
  shows "msg_key (rows ! i) \<in> set (rows_between rows (int a) (int b)) \<longleftrightarrow> min a b \<le> i \<and> i \<le> max a b"
proof -
  have "{min a b ..< Suc (max a b)} \<subseteq> {0 ..< length rows}" using assms(2,3) by auto
  with assms(4) show ?thesis
    using inj_on_image_mem_iff [OF keys_inj [OF assms(1)], of i "{min a b ..< Suc (max a b)}"]
    by (simp add: between_upt [OF assms(2,3)] less_Suc_eq_le del: upt_Suc)
qed

definition walk :: "nat \<Rightarrow> string \<Rightarrow> nat \<Rightarrow> nat" where
  "walk n key i = (if key = ''ArrowDown'' then min (n - 1) (i + 1) else i - 1)"

definition press :: "jsval list \<Rightarrow> bool \<Rightarrow> string \<Rightarrow> selection \<Rightarrow> selection" where
  "press rows shift key sel = (case onKey False False False False key shift rows sel of Set_Selection sel' \<Rightarrow> sel' | _ \<Rightarrow> sel)"

definition range_selection :: "jsval list \<Rightarrow> nat \<Rightarrow> nat \<Rightarrow> selection" where
  "range_selection rows a b =
     \<lparr>sel_ids = map (\<lambda>i. msg_key (rows ! i)) [min a b ..< Suc (max a b)], sel_anchorId = msg_key (rows ! a), sel_focusId = msg_key (rows ! b)\<rparr>"

lemma walk_less: "0 < n \<Longrightarrow> i < n \<Longrightarrow> walk n key i < n"
  by (auto simp: walk_def)

lemma press_shift:
  assumes "keys_ok rows" and "a < length rows" and "b < length rows" and "key \<in> {''ArrowDown'', ''ArrowUp''}"
  shows "press rows True key (range_selection rows a b) = range_selection rows a (walk (length rows) key b)"
proof -
  let ?w = "walk (length rows) key b" and ?sel = "range_selection rows a b"
  have w: "?w < length rows" using assms(2,3) by (intro walk_less) auto
  have anchor: "truthy (sel_anchorId ?sel)" using assms(1,2) by (simp add: range_selection_def keys_ok_def)
  have found: "find_index rows (sel_anchorId ?sel) = int a" "find_index rows (sel_focusId ?sel) = int b"
    using find_index_nth [OF assms(1)] assms(2,3) by (simp_all add: range_selection_def)
  have nxt: "next_index key (length rows) (int b) = int ?w" using assms(3) by (auto simp: next_index_def walk_def)
  have row: "row_at rows (int ?w) = rows ! ?w" "truthy (rows ! ?w)"
    using w assms(1) by (auto simp: row_at_def keys_ok_def is_row_obj dest!: nth_mem bspec)
  note between_upt [OF assms(2) w]
  moreover have "rows \<noteq> []" using assms(2) by auto
  moreover have "sel_anchorId ?sel = msg_key (rows ! a)" by (simp add: range_selection_def)
  ultimately have "arrow_key key True rows ?sel = Set_Selection (range_selection rows a ?w)"
    using anchor found nxt row unfolding arrow_key_def by (simp add: Let_def range_selection_def [of rows a ?w])
  moreover have "onKey False False False False key True rows ?sel = arrow_key key True rows ?sel"
    using assms(4) by (auto simp: onKey_def)
  ultimately show ?thesis by (simp add: press_def)
qed

text \<open>
  C34. Ranges are contiguous: starting from one selected row and holding shift, any sequence of arrow keys
  selects exactly the rows from the one started at to the one the keys lead to, which stops at the
  ends of the list; the row started at stays the anchor, and the last one has the focus.
\<close>

theorem shift_arrows_select_range:
  assumes "rows_ok rows" and "a < length rows" and "\<forall>key \<in> set keys. key \<in> {''ArrowDown'', ''ArrowUp''}"
  shows "fold (press rows True) keys (single_selection (getp (rows ! a) ''id'')) =
     range_selection rows a (fold (walk (length rows)) keys a)"
proof -
  note keys = rows_ok_keys [OF assms(1)]
  have "fold (press rows True) keys (range_selection rows a b) = range_selection rows a (fold (walk (length rows)) keys b)"
    if "b < length rows" for b
    using assms(3) that
  proof (induction keys arbitrary: b)
    case (Cons key ks)
    have "walk (length rows) key b < length rows" using Cons.prems(2) by (intro walk_less) auto
    with Cons show ?case using press_shift [OF keys assms(2) Cons.prems(2), of key] by simp
  qed simp
  from this [OF assms(2)] show ?thesis by (simp add: range_selection_def [of rows a a] single_selection_def msg_key_def)
qed

theorem shift_arrows_select_range_witness:
  "fold (press demo_rows True) [''ArrowDown'', ''ArrowDown'', ''ArrowDown'', ''ArrowUp''] (single_selection (getp (demo_rows ! 0) ''id''))
   = range_selection demo_rows 0 1"
proof -
  have "fold (walk (length demo_rows)) [''ArrowDown'', ''ArrowDown'', ''ArrowDown'', ''ArrowUp''] 0 = 1" by code_simp
  then show ?thesis
    using shift_arrows_select_range [OF demo_rows_ok, of 0 "[''ArrowDown'', ''ArrowDown'', ''ArrowDown'', ''ArrowUp'']"]
    by (simp add: demo_rows_def [THEN arg_cong, of length])
qed

text \<open>
  A click with shift selects exactly the rows from the anchor to the row that was clicked, in either
  direction, keeps the anchor and moves the focus.
\<close>

theorem shift_click_selects_range:
  assumes "rows_ok rows" and "a < length rows" and "b < length rows" and "sel_anchorId sel = getp (rows ! a) ''id''"
  shows "let sel' = handleMailListRowClick rows (getp (rows ! b) ''id'') modKey True sel in
     (\<forall>i < length rows. getp (rows ! i) ''id'' \<in> set (sel_ids sel') \<longleftrightarrow> min a b \<le> i \<and> i \<le> max a b)
     \<and> length (sel_ids sel') = max a b - min a b + 1
     \<and> sel_anchorId sel' = sel_anchorId sel \<and> sel_focusId sel' = getp (rows ! b) ''id''"
proof -
  note keys = rows_ok_keys [OF assms(1)]
  have "truthy (sel_anchorId sel)" using assms(2,4) keys by (simp add: keys_ok_def msg_key_def)
  then have "handleMailListRowClick rows (msg_key (rows ! b)) modKey True sel =
      sel\<lparr>sel_ids := rows_between rows (int a) (int b), sel_focusId := msg_key (rows ! b)\<rparr>"
    using assms find_index_nth [OF keys] by (simp add: handleMailListRowClick_def msg_key_def)
  moreover have "length (rows_between rows (int a) (int b)) = max a b - min a b + 1"
    by (simp add: between_upt [OF assms(2,3)])
  ultimately show ?thesis using set_between [OF keys assms(2,3)] by (simp add: Let_def msg_key_def)
qed

theorem shift_click_selects_range_witness:
  "sel_focusId (handleMailListRowClick demo_rows (getp (demo_rows ! 0) ''id'') False True (single_selection (getp (demo_rows ! 2) ''id'')))
     = getp (demo_rows ! 0) ''id''"
  using shift_click_selects_range [OF demo_rows_ok, of 2 0 "single_selection (getp (demo_rows ! 2) ''id'')" False]
  by (simp add: demo_rows_def [THEN arg_cong, of length] single_selection_def Let_def)

end
