(* ===== verification/Mail_Actions.thy ===== *)
theory Mail_Actions
  imports Mail_List
begin

text \<open>
  \<^verbatim>\<open>static/mail/mail-app.jsx\<close>, what is done to messages of the list: moving, deleting and marking as read,
  for one message and for the selection, the confirmations, emptying the trash, and the numbers beside
  the folders. An action runs to its end, the refresh of the folder numbers that it starts included.
\<close>

section \<open>The page\<close>

text \<open>What a confirmation does when it is confirmed.\<close>

datatype confirm_action = Delete_Forever jsval | Delete_Selected "jsval list" | Empty_Trash

record mail_page =
  mp_view :: list_view
  mp_folder :: string
  mp_folderCounts :: "(string \<times> jsnum) list"
  mp_toast :: "(string \<times> bool) option"
  mp_confirm :: "confirm_action option"
  mp_contextMenu :: "jsval option"

definition err_text :: "exn \<Rightarrow> string \<Rightarrow> string" where
  "err_text e deflt = (case e of Error m \<Rightarrow> if m = [] then deflt else m | _ \<Rightarrow> exn_message e)"

definition toast_ok :: "string \<Rightarrow> mail_page \<Rightarrow> mail_page" where
  "toast_ok msg p = p\<lparr>mp_toast := Some (msg, True)\<rparr>"

definition toast_err :: "exn \<Rightarrow> string \<Rightarrow> mail_page \<Rightarrow> mail_page" where
  "toast_err e deflt p = p\<lparr>mp_toast := Some (err_text e deflt, False)\<rparr>"

definition close_menu :: "mail_page \<Rightarrow> mail_page" where
  "close_menu p = p\<lparr>mp_contextMenu := None\<rparr>"

definition drop_rows :: "jsval list \<Rightarrow> mail_page \<Rightarrow> mail_page" where
  "drop_rows removed p = p\<lparr>mp_view := remove_rows removed (mp_view p)\<rparr>"

definition count_messages :: "nat \<Rightarrow> string" where
  "count_messages n = int_to_string (int n) @ '' message'' @ (if n = 1 then [] else ''s'')"

text \<open>The ids are kept in a set: its size.\<close>

definition set_size :: "jsval list \<Rightarrow> nat" where
  "set_size ids = length (remdups ids)"

section \<open>Folder numbers\<close>

definition folder_count :: "jsval \<Rightarrow> (string \<times> jsnum) list \<Rightarrow> (string \<times> jsnum) list" where
  "folder_count row cs =
     (if \<not> truthy row \<or> \<not> truthy (getp row ''name'') then cs
      else AList.update (toLowerCase (to_string (getp row ''name''))) (to_number (js_or (getp row ''total'') (jint 0))) cs)"

definition folder_counts :: "jsval \<Rightarrow> (string \<times> jsnum) list" where
  "folder_counts payload =
     (let rows = (if truthy payload \<and> isArray (getp payload ''folders'') then js_elems (getp payload ''folders'') else []) in
      fold folder_count rows [])"

definition loadFolderCounts :: "'s server \<Rightarrow> mail_page \<times> 's \<Rightarrow> mail_page \<times> 's" where
  "loadFolderCounts srv st =
     (case listMailboxFolders srv (snd st) of
        (Inl _, s) \<Rightarrow> ((fst st)\<lparr>mp_folderCounts := []\<rparr>, s)
      | (Inr payload, s) \<Rightarrow> ((fst st)\<lparr>mp_folderCounts := folder_counts payload\<rparr>, s))"

section \<open>One message\<close>

definition deleted_text :: "jsval \<Rightarrow> string" where
  "deleted_text r = (if truthy r \<and> truthy (getp r ''deleted'') then ''Email permanently deleted'' else ''Email moved to trash'')"

definition executeDeleteMessage :: "'s server \<Rightarrow> string \<Rightarrow> jsval \<Rightarrow> bool \<Rightarrow> mail_page \<times> 's \<Rightarrow> mail_page \<times> 's" where
  "executeDeleteMessage srv origin messageId permanent st =
     (case deleteMessage srv origin (to_string messageId) permanent (snd st) of
        (Inl e, s) \<Rightarrow> (toast_err e ''Delete failed'' (fst st), s)
      | (Inr r, s) \<Rightarrow>
          (let st' = loadFolderCounts srv (toast_ok (deleted_text r) (drop_rows [messageId] (fst st)), s) in
           ((fst st')\<lparr>mp_confirm := None\<rparr>, snd st')))"

definition handleDeleteMessage :: "'s server \<Rightarrow> string \<Rightarrow> jsval \<Rightarrow> mail_page \<times> 's \<Rightarrow> mail_page \<times> 's" where
  "handleDeleteMessage srv origin messageId st =
     (if \<not> truthy messageId then st
      else if mp_folder (fst st) = ''trash'' then ((close_menu (fst st))\<lparr>mp_confirm := Some (Delete_Forever messageId)\<rparr>, snd st)
      else
        (case deleteMessage srv origin (to_string messageId) False (snd st) of
           (Inl e, s) \<Rightarrow> (toast_err e ''Delete failed'' (close_menu (fst st)), s)
         | (Inr r, s) \<Rightarrow> loadFolderCounts srv (toast_ok (deleted_text r) (drop_rows [messageId] (close_menu (fst st))), s)))"

definition handleDeleteImmediately :: "jsval \<Rightarrow> mail_page \<Rightarrow> mail_page" where
  "handleDeleteImmediately messageId p =
     (if \<not> truthy messageId then p else (close_menu p)\<lparr>mp_confirm := Some (Delete_Forever messageId)\<rparr>)"

definition handleMoveMessage :: "'s server \<Rightarrow> jsval \<Rightarrow> string \<Rightarrow> mail_page \<times> 's \<Rightarrow> mail_page \<times> 's" where
  "handleMoveMessage srv messageId targetFolder st =
     (if \<not> truthy messageId \<or> targetFolder = [] then st
      else
        (case moveMessage srv (to_string messageId) targetFolder (snd st) of
           (Inl e, s) \<Rightarrow> (toast_err e ''Move failed'' (close_menu (fst st)), s)
         | (Inr r, s) \<Rightarrow>
             (let nextFolder = (if truthy r then js_or (getp r ''folder'') (JStr targetFolder) else JStr targetFolder) in
              loadFolderCounts srv (toast_ok (''Email moved to '' @ to_string nextFolder) (drop_rows [messageId] (close_menu (fst st))), s))))"

section \<open>The selection\<close>

text \<open>\<open>for (const id of ids) await f(id)\<close>.\<close>

fun for_each :: "(jsval \<Rightarrow> ('s, 'a) io) \<Rightarrow> jsval list \<Rightarrow> ('s, unit) io" where
  "for_each f [] = returnI ()"
| "for_each f (i # is') = bindI (f i) (\<lambda>_. for_each f is')"

definition selected_ids :: "mail_page \<Rightarrow> jsval list" where
  "selected_ids p = sel_ids (lv_selection (mp_view p))"

definition bulkMoveSelected :: "'s server \<Rightarrow> string \<Rightarrow> mail_page \<times> 's \<Rightarrow> mail_page \<times> 's" where
  "bulkMoveSelected srv targetFolder st =
     (let ids = selected_ids (fst st) in
      if ids = [] \<or> targetFolder = [] then st
      else
        (case for_each (\<lambda>i. moveMessage srv (to_string i) targetFolder) ids (snd st) of
           (Inl e, s) \<Rightarrow> (toast_err e ''Move failed'' (close_menu (fst st)), s)
         | (Inr _, s) \<Rightarrow>
             loadFolderCounts srv (toast_ok (''Moved '' @ count_messages (set_size ids) @ '' to '' @ targetFolder)
               (drop_rows ids (close_menu (fst st))), s)))"

definition bulkArchiveSelected :: "'s server \<Rightarrow> mail_page \<times> 's \<Rightarrow> mail_page \<times> 's" where
  "bulkArchiveSelected srv = bulkMoveSelected srv ''archive''"

definition bulkRestoreInboxSelected :: "'s server \<Rightarrow> mail_page \<times> 's \<Rightarrow> mail_page \<times> 's" where
  "bulkRestoreInboxSelected srv = bulkMoveSelected srv ''inbox''"

definition bulkTrashSelected :: "'s server \<Rightarrow> string \<Rightarrow> mail_page \<times> 's \<Rightarrow> mail_page \<times> 's" where
  "bulkTrashSelected srv origin st =
     (let ids = selected_ids (fst st) in
      if ids = [] \<or> mp_folder (fst st) = ''trash'' then st
      else
        (case for_each (\<lambda>i. deleteMessage srv origin (to_string i) False) ids (snd st) of
           (Inl e, s) \<Rightarrow> (toast_err e ''Move to trash failed'' (close_menu (fst st)), s)
         | (Inr _, s) \<Rightarrow>
             loadFolderCounts srv (toast_ok (''Moved '' @ count_messages (set_size ids) @ '' to trash'')
               (drop_rows ids (close_menu (fst st))), s)))"

definition bulkPermDeleteSelected :: "mail_page \<Rightarrow> mail_page" where
  "bulkPermDeleteSelected p =
     (let ids = selected_ids p in
      if ids = [] then p else (close_menu p)\<lparr>mp_confirm := Some (Delete_Selected ids)\<rparr>)"

definition delete_selected :: "'s server \<Rightarrow> string \<Rightarrow> jsval list \<Rightarrow> mail_page \<times> 's \<Rightarrow> mail_page \<times> 's" where
  "delete_selected srv origin ids st =
     (case for_each (\<lambda>i. deleteMessage srv origin (to_string i) True) ids (snd st) of
        (Inl e, s) \<Rightarrow> (toast_err e ''Delete failed'' (fst st), s)
      | (Inr _, s) \<Rightarrow>
          (let st' = loadFolderCounts srv (toast_ok (''Permanently deleted '' @ count_messages (set_size ids)) (drop_rows ids (fst st)), s) in
           ((fst st')\<lparr>mp_confirm := None\<rparr>, snd st')))"

definition mark_row :: "bool \<Rightarrow> jsval \<Rightarrow> jsval" where
  "mark_row b m = object_spread m [(''read'', JBool b)]"

definition bulkMarkReadSelected :: "'s server \<Rightarrow> mail_page \<times> 's \<Rightarrow> mail_page \<times> 's" where
  "bulkMarkReadSelected srv st =
     (let p = fst st; messages = lv_messages (mp_view p);
          targets = filter (\<lambda>i. case List.find (\<lambda>m. msg_key m = i) messages of None \<Rightarrow> False | Some m \<Rightarrow> \<not> truthy (getp m ''read''))
                      (selected_ids p)
      in
      if targets = [] then st
      else
        (case for_each (\<lambda>i. setMessageRead srv (to_string i) True) targets (snd st) of
           (Inl e, s) \<Rightarrow> (toast_err e ''Could not mark as read'' p, s)
         | (Inr _, s) \<Rightarrow>
             (toast_ok (''Marked '' @ count_messages (length targets) @ '' as read'')
               (p\<lparr>mp_view := (mp_view p)\<lparr>lv_messages := map (\<lambda>m. if msg_key m \<in> set targets then mark_row True m else m) messages\<rparr>\<rparr>), s)))"

section \<open>Emptying the trash\<close>

fun delete_rows :: "'s server \<Rightarrow> string \<Rightarrow> jsval list \<Rightarrow> nat \<Rightarrow> ('s, nat) io" where
  "delete_rows srv origin [] deleted = returnI deleted"
| "delete_rows srv origin (row # rows) deleted =
     (if \<not> truthy row \<or> \<not> truthy (msg_key row) then delete_rows srv origin rows deleted
      else bindI (deleteMessage srv origin (to_string (msg_key row)) True) (\<lambda>_. delete_rows srv origin rows (Suc deleted)))"

definition trash_batch :: "'s server \<Rightarrow> string \<Rightarrow> ('s, jsval list) io" where
  "trash_batch srv origin =
     bindI (fetchManifests srv origin (Some ''trash'') (Some 100) None) (\<lambda>j.
     bindI (liftI (getR j ''messages'')) (\<lambda>ms. returnI (if isArray ms then js_elems ms else [])))"

text \<open>The loop may run forever; then it has no value.\<close>

partial_function (option) trash_loop :: "'s server \<Rightarrow> string \<Rightarrow> nat \<Rightarrow> 's \<Rightarrow> (nat result \<times> 's) option" where
  "trash_loop srv origin deleted s =
     (case trash_batch srv origin s of
        (Inl e, s1) \<Rightarrow> Some (Inl e, s1)
      | (Inr rows, s1) \<Rightarrow>
          if rows = [] then Some (Inr deleted, s1)
          else
            (case delete_rows srv origin rows deleted s1 of
               (Inl e, s2) \<Rightarrow> Some (Inl e, s2)
             | (Inr deleted', s2) \<Rightarrow> trash_loop srv origin deleted' s2))"

definition emptied_text :: "nat \<Rightarrow> string" where
  "emptied_text deleted = (if deleted \<noteq> 0 then ''Permanently deleted '' @ count_messages deleted else ''Trash is already empty'')"

text \<open>\<open>load\<close> is \<open>loadFolder("trash")\<close>.\<close>

definition empty_trash ::
  "'s server \<Rightarrow> string \<Rightarrow> (mail_page \<times> 's \<Rightarrow> mail_page \<times> 's) \<Rightarrow> mail_page \<times> 's \<Rightarrow> (mail_page \<times> 's) option" where
  "empty_trash srv origin load st =
     (case trash_loop srv origin 0 (snd st) of
        None \<Rightarrow> None
      | Some (Inl e, s) \<Rightarrow> Some (toast_err e ''Could not empty trash'' (fst st), s)
      | Some (Inr deleted, s) \<Rightarrow>
          (let p = fst st;
               p1 = p\<lparr>mp_view := (mp_view p)\<lparr>lv_messages := [], lv_selection := emptyMailListSelection\<rparr>\<rparr>;
               p2 = toast_ok (emptied_text deleted) p1;
               st' = loadFolderCounts srv (load (p2, s))
           in Some ((fst st')\<lparr>mp_confirm := None\<rparr>, snd st')))"

definition openEmptyTrashConfirm :: "mail_page \<Rightarrow> mail_page" where
  "openEmptyTrashConfirm p = (close_menu p)\<lparr>mp_confirm := Some Empty_Trash\<rparr>"

text \<open>What the button of the confirmation does.\<close>

definition confirmed ::
  "'s server \<Rightarrow> string \<Rightarrow> (mail_page \<times> 's \<Rightarrow> mail_page \<times> 's) \<Rightarrow> mail_page \<times> 's \<Rightarrow> (mail_page \<times> 's) option" where
  "confirmed srv origin load st =
     (case mp_confirm (fst st) of
        None \<Rightarrow> Some st
      | Some (Delete_Forever i) \<Rightarrow> Some (executeDeleteMessage srv origin i True st)
      | Some (Delete_Selected ids) \<Rightarrow> Some (delete_selected srv origin ids st)
      | Some Empty_Trash \<Rightarrow> empty_trash srv origin load st)"

text \<open>
  Opening a message marks it as read: the row at once, and back when the server refuses. The focused row
  is looked for among the visible rows, then among all.
\<close>

definition selectedMessage :: "list_view \<Rightarrow> jsval option" where
  "selectedMessage lv =
     (let i = sel_focusId (lv_selection lv) in
      case List.find (\<lambda>m. msg_key m = i) (lv_rows lv) of
        Some m \<Rightarrow> Some m
      | None \<Rightarrow> List.find (\<lambda>m. msg_key m = i) (lv_messages lv))"

definition set_read :: "jsval \<Rightarrow> bool \<Rightarrow> mail_page \<Rightarrow> mail_page" where
  "set_read i b p =
     p\<lparr>mp_view := (mp_view p)\<lparr>lv_messages := map (\<lambda>m. if msg_key m = i then mark_row b m else m) (lv_messages (mp_view p))\<rparr>\<rparr>"

definition mark_selected_read :: "'s server \<Rightarrow> mail_page \<times> 's \<Rightarrow> mail_page \<times> 's" where
  "mark_selected_read srv st =
     (case selectedMessage (mp_view (fst st)) of
        None \<Rightarrow> st
      | Some m \<Rightarrow>
          if truthy (getp m ''read'') then st
          else
            (let p = set_read (msg_key m) True (fst st) in
             case setMessageRead srv (to_string (msg_key m)) True (snd st) of
               (Inr _, s) \<Rightarrow> (p, s)
             | (Inl e, s) \<Rightarrow> (toast_err e ''Could not mark email as read'' (set_read (msg_key m) False p), s)))"

section \<open>Bulk actions\<close>

lemma for_each_append:
  "for_each f (xs @ ys) s = (case for_each f xs s of (Inl e, t) \<Rightarrow> (Inl e, t) | (Inr _, t) \<Rightarrow> for_each f ys t)"
  by (induction xs arbitrary: s) (auto simp: bindI_def returnI_def split: prod.split sum.split)

lemma loadFolderCounts_view [simp]:
  "mp_view (fst (loadFolderCounts srv st)) = mp_view (fst st)" "mp_toast (fst (loadFolderCounts srv st)) = mp_toast (fst st)"
  "mp_confirm (fst (loadFolderCounts srv st)) = mp_confirm (fst st)"
  by (auto simp: loadFolderCounts_def split: prod.split sum.split)

lemma page_sel [simp]:
  "mp_view (toast_ok m p) = mp_view p" "mp_view (toast_err e m p) = mp_view p" "mp_view (close_menu p) = mp_view p"
  "mp_view (drop_rows ids p) = remove_rows ids (mp_view p)" "mp_toast (toast_ok m p) = Some (m, True)"
  by (simp_all add: toast_ok_def toast_err_def close_menu_def drop_rows_def)

lemma remove_selected:
  "remove_rows (sel_ids (lv_selection lv)) lv =
     lv\<lparr>lv_messages := filter (\<lambda>m. msg_key m \<notin> set (sel_ids (lv_selection lv))) (lv_messages lv), lv_selection := emptyMailListSelection\<rparr>"
  by (simp add: remove_rows_def mailListSelectionAfterRemoving_def Let_def)

text \<open>
  Moving the selection, when the server takes every message: the selected rows, and no others, are gone
  from the list, nothing is selected any more, and the toast gives the number of messages.
\<close>

theorem bulk_move_done:
  assumes "for_each (\<lambda>i. moveMessage srv (to_string i) folder) (selected_ids p) s = (Inr (), s')"
    and "selected_ids p \<noteq> []" and "folder \<noteq> []" and "distinct (selected_ids p)"
  shows "let p' = fst (bulkMoveSelected srv folder (p, s)) in
     lv_messages (mp_view p') = filter (\<lambda>m. getp m ''id'' \<notin> set (selected_ids p)) (lv_messages (mp_view p))
     \<and> lv_selection (mp_view p') = emptyMailListSelection
     \<and> mp_toast p' = Some (''Moved '' @ count_messages (length (selected_ids p)) @ '' to '' @ folder, True)"
  using assms remove_selected [of "mp_view p"]
  by (simp add: bulkMoveSelected_def Let_def set_size_def selected_ids_def msg_key_def distinct_remdups_id)

text \<open>
  Moving the selection, when the server refuses one message after taking others: the action stops there,
  and the page only shows the error. The messages that were moved are still listed and still
  selected, although they are in the other folder; a second attempt moves them again.
\<close>

theorem bulk_move_stops:
  assumes "selected_ids p = moved @ i # rest" and "folder \<noteq> []"
    and "for_each (\<lambda>i. moveMessage srv (to_string i) folder) moved s = (Inr (), s1)"
    and "moveMessage srv (to_string i) folder s1 = (Inl e, s2)"
  shows "bulkMoveSelected srv folder (p, s) = (toast_err e ''Move failed'' (close_menu p), s2)
    \<and> mp_view (fst (bulkMoveSelected srv folder (p, s))) = mp_view p"
proof -
  have "for_each (\<lambda>i. moveMessage srv (to_string i) folder) (selected_ids p) s = (Inl e, s2)"
    using assms(1,3,4) by (simp add: for_each_append bindI_def)
  with assms(1,2) show ?thesis by (simp add: bulkMoveSelected_def Let_def)
qed

section \<open>Emptying the trash ends\<close>

text \<open>
  What is relied on of the server: the trash is listed in batches of a hundred, and a message that is
  deleted for good is no longer in the trash.
\<close>

definition trash_laws :: "'s server \<Rightarrow> string \<Rightarrow> ('s \<Rightarrow> jsval list) \<Rightarrow> bool" where
  "trash_laws srv origin trash =
     ((\<forall>s. \<exists>j. fetchManifests srv origin (Some ''trash'') (Some 100) None s = (Inr j, s)
        \<and> \<not> nullish j \<and> getp j ''messages'' = JArr (take 100 (trash s)))
      \<and> (\<forall>s m. m \<in> set (trash s) \<longrightarrow>
           (\<exists>r s'. deleteMessage srv origin (to_string (msg_key m)) True s = (Inr r, s')
              \<and> trash s' = filter (\<lambda>x. msg_key x \<noteq> msg_key m) (trash s))))"

lemma trash_batch_rows:
  "trash_laws srv origin trash \<Longrightarrow> trash_batch srv origin s = (Inr (take 100 (trash s)), s)"
  unfolding trash_laws_def trash_batch_def
  by (elim conjE allE [of _ s] exE) (simp add: bindI_def getR_def liftI_def returnI_def)

lemma delete_rows_all:
  assumes "trash_laws srv origin trash" and "set rows \<subseteq> set (trash s)" and "distinct (map msg_key rows)"
    and "\<And>m. m \<in> set rows \<Longrightarrow> truthy m \<and> truthy (msg_key m)"
  shows "\<exists>s'. delete_rows srv origin rows d s = (Inr (d + length rows), s')
    \<and> trash s' = filter (\<lambda>x. msg_key x \<notin> msg_key ` set rows) (trash s)"
  using assms(2-4)
proof (induction rows arbitrary: s d)
  case (Cons row rows)
  obtain r s1 where s1: "deleteMessage srv origin (to_string (msg_key row)) True s = (Inr r, s1)"
      "trash s1 = filter (\<lambda>x. msg_key x \<noteq> msg_key row) (trash s)"
    using assms(1) Cons.prems(1) by (fastforce simp: trash_laws_def)
  have "set rows \<subseteq> set (trash s1)" using Cons.prems(1,2) s1(2) by (auto simp: image_iff)
  from Cons.IH [OF this, of "Suc d"] Cons.prems(2,3) obtain s' where "delete_rows srv origin rows (Suc d) s1 = (Inr (Suc d + length rows), s')"
      "trash s' = filter (\<lambda>x. msg_key x \<notin> msg_key ` set rows) (trash s1)" by auto
  with s1 Cons.prems(3) [of row] show ?case by (auto simp: bindI_def filter_filter intro: filter_cong)
qed (simp add: returnI_def)

lemma filter_not_taken:
  assumes "distinct (map f xs)"
  shows "filter (\<lambda>x. f x \<notin> f ` set (take n xs)) xs = drop n xs"
proof -
  let ?P = "\<lambda>x. f x \<notin> f ` set (take n xs)"
  have "?P x" if "x \<in> set (drop n xs)" for x
    using assms that set_take_disj_set_drop_if_distinct [of "map f xs" n n] by (auto simp: take_map drop_map)
  then have "filter ?P (drop n xs) = drop n xs" by (intro filter_True) auto
  moreover have "filter ?P (take n xs) = []" by (intro filter_False) auto
  ultimately have "filter ?P (take n xs @ drop n xs) = drop n xs" by (simp only: filter_append append_Nil)
  then show ?thesis by (simp only: append_take_drop_id)
qed

lemma trash_loop_empties:
  assumes "trash_laws srv origin trash" and "rows_ok (trash s)"
  shows "\<exists>s'. trash_loop srv origin d s = Some (Inr (d + length (trash s)), s') \<and> trash s' = []"
  using assms(2)
proof (induction "length (trash s)" arbitrary: s d rule: less_induct)
  case less
  show ?case
  proof (cases "trash s = []")
    case True
    then show ?thesis by (subst trash_loop.simps) (simp add: trash_batch_rows [OF assms(1)])
  next
    case False
    let ?rows = "take 100 (trash s)"
    have ok: "m \<in> set (trash s) \<Longrightarrow> truthy m \<and> truthy (msg_key m)" for m
      using less.prems by (auto simp: rows_ok_def list_all_iff is_row_obj)
    have "distinct (map msg_key (trash s))" using less.prems by (simp add: rows_ok_def)
    then have dist: "distinct (map msg_key ?rows)" and left: "filter (\<lambda>x. msg_key x \<notin> msg_key ` set ?rows) (trash s) = drop 100 (trash s)"
      by (simp_all add: take_map [symmetric] filter_not_taken)
    from delete_rows_all [OF assms(1) set_take_subset dist] ok left obtain s1 where
        s1: "delete_rows srv origin ?rows d s = (Inr (d + length ?rows), s1)" "trash s1 = drop 100 (trash s)"
      by (metis in_set_takeD)
    have "rows_ok (trash s1)" using less.prems s1(2) by (auto simp: rows_ok_def list_all_iff drop_map [symmetric] dest: in_set_dropD)
    moreover have "length (trash s1) < length (trash s)" using False s1(2) by simp
    ultimately obtain s' where "trash_loop srv origin (d + length ?rows) s1 = Some (Inr (d + length ?rows + length (trash s1)), s')" "trash s' = []"
      using less.hyps by blast
    with False s1 show ?thesis
      by (subst trash_loop.simps) (simp add: trash_batch_rows [OF assms(1)])
  qed
qed

text \<open>
  C30. Emptying the trash comes to an end and leaves nothing: with a server that lists its trash in batches
  of a hundred and deletes what it is asked to delete, the loop makes as many deletions as there are
  messages, however many batches that takes, and then the trash is empty; so are the list and the selection, the
  confirmation is closed, and the toast gives the number.
\<close>

theorem empty_trash_ends:
  assumes "trash_laws srv origin trash" and "rows_ok (trash s)"
    and "\<And>p s. trash s = [] \<Longrightarrow> lv_messages (mp_view p) = [] \<Longrightarrow> load (p, s) = (p, s)"
  shows "\<exists>p' s'. empty_trash srv origin load (p, s) = Some (p', snd (listMailboxFolders srv s'))
     \<and> trash s' = [] \<and> lv_messages (mp_view p') = [] \<and> lv_selection (mp_view p') = emptyMailListSelection \<and> mp_confirm p' = None
     \<and> mp_toast p' = Some (emptied_text (length (trash s)), True)"
proof -
  obtain s' where loop: "trash_loop srv origin 0 s = Some (Inr (length (trash s)), s')" "trash s' = []"
    using trash_loop_empties [OF assms(1,2), of 0] by auto
  define p1 where "p1 = p\<lparr>mp_view := (mp_view p)\<lparr>lv_messages := [], lv_selection := emptyMailListSelection\<rparr>\<rparr>"
  define p2 where "p2 = toast_ok (emptied_text (length (trash s))) p1"
  have view: "lv_messages (mp_view p2) = []" "lv_selection (mp_view p2) = emptyMailListSelection" by (simp_all add: p1_def p2_def)
  have "empty_trash srv origin load (p, s) = Some ((fst (loadFolderCounts srv (p2, s')))\<lparr>mp_confirm := None\<rparr>, snd (loadFolderCounts srv (p2, s')))"
    using loop(1) assms(3) [OF loop(2) view(1)] unfolding p1_def p2_def by (simp add: empty_trash_def Let_def)
  moreover have "snd (loadFolderCounts srv (p2, s')) = snd (listMailboxFolders srv s')"
    by (simp add: loadFolderCounts_def split: prod.split sum.split)
  ultimately show ?thesis using loop(2) view by (intro exI [of _ s'] exI) (auto simp: p2_def)
qed

section \<open>Nothing is deleted for good unasked\<close>

text \<open>Which of the requests delete for good.\<close>

definition permanent_delete :: "http_request \<Rightarrow> bool" where
  "permanent_delete rq = (rq_method rq = DELETE \<and> CHR ''?'' \<in> set (rq_url rq))"

definition only_safe :: "'s \<times> http_request list \<Rightarrow> bool" where
  "only_safe s = list_all (\<lambda>rq. \<not> permanent_delete rq) (snd s)"

datatype page_action =
    Delete_Message jsval
  | Delete_Immediately jsval
  | Move_Message jsval string
  | Bulk_Move string
  | Bulk_Trash
  | Bulk_Perm_Delete
  | Bulk_Mark_Read
  | Empty_Trash_Button
  | Open_Message

fun perform :: "'s server \<Rightarrow> string \<Rightarrow> page_action \<Rightarrow> mail_page \<times> 's \<Rightarrow> mail_page \<times> 's" where
  "perform srv origin (Delete_Message i) st = handleDeleteMessage srv origin i st"
| "perform srv origin (Delete_Immediately i) st = (handleDeleteImmediately i (fst st), snd st)"
| "perform srv origin (Move_Message i f) st = handleMoveMessage srv i f st"
| "perform srv origin (Bulk_Move f) st = bulkMoveSelected srv f st"
| "perform srv origin Bulk_Trash st = bulkTrashSelected srv origin st"
| "perform srv origin Bulk_Perm_Delete st = (bulkPermDeleteSelected (fst st), snd st)"
| "perform srv origin Bulk_Mark_Read st = bulkMarkReadSelected srv st"
| "perform srv origin Empty_Trash_Button st = (openEmptyTrashConfirm (fst st), snd st)"
| "perform srv origin Open_Message st = mark_selected_read srv st"

lemma keeps_call:
  assumes "\<not> permanent_delete rq"
  shows "keeps only_safe (call (recording srv) rq read)"
  unfolding call_def
proof (rule keeps_bindI)
  show "keeps only_safe (fetch (recording srv) rq)"
    using assms by (auto simp: keeps_def fetch_def recording_def only_safe_def split: prod.splits)
qed (rule keeps_basic(3))

lemma encoded_no_query: "CHR ''?'' \<notin> set (encodeURIComponent s)"
  using encodeURIComponent_segment [of "CHR ''?''" s] by auto

lemma safe_requests [keeps_intros]:
  "keeps only_safe (moveMessage (recording srv) i f)" "keeps only_safe (setMessageRead (recording srv) i b)"
  "keeps only_safe (listMailboxFolders (recording srv))"
  "CHR ''?'' \<notin> set origin \<Longrightarrow> keeps only_safe (deleteMessage (recording srv) origin i False)"
proof -
  show "keeps only_safe (moveMessage (recording srv) i f)" "keeps only_safe (setMessageRead (recording srv) i b)"
    "keeps only_safe (listMailboxFolders (recording srv))"
    unfolding moveMessage_def setMessageRead_def listMailboxFolders_def
    by (rule keeps_call, simp add: permanent_delete_def json_request_def get_request_def)+
  show "keeps only_safe (deleteMessage (recording srv) origin i False)" if "CHR ''?'' \<notin> set origin"
    unfolding deleteMessage_def
    using that encoded_no_query [of i]
    by (intro keeps_call) (simp add: permanent_delete_def plain_request_def url_with_params_def message_path_def API_def)
qed

lemma for_each_keeps: "(\<And>i. keeps I (f i)) \<Longrightarrow> keeps I (for_each f is')"
  by (induction is') (auto intro: keeps_intros)

lemma counts_safe: "only_safe (snd st) \<Longrightarrow> only_safe (snd (loadFolderCounts (recording srv) st))"
  using keepsD [OF safe_requests(3)] by (fastforce simp: loadFolderCounts_def split: prod.splits sum.splits)

text \<open>An action of the form: ask the server, then show the result and refresh the numbers.\<close>

lemma asked_safe:
  assumes "keeps only_safe m" and "only_safe s"
    and "\<And>e s'. only_safe s' \<Longrightarrow> only_safe (snd (f e s'))" and "\<And>x s'. only_safe s' \<Longrightarrow> only_safe (snd (g x s'))"
  shows "only_safe (snd (case m s of (Inl e, s') \<Rightarrow> f e s' | (Inr x, s') \<Rightarrow> g x s'))"
  using assms(2-4) keepsD [OF assms(1)] by (auto split: prod.split sum.split)



section \<open>Examples\<close>

definition demo_page :: "jsval list \<Rightarrow> mail_page" where
  "demo_page ids = \<lparr>mp_view = demo_view\<lparr>lv_selection := \<lparr>sel_ids = ids, sel_anchorId = JStr ''a'', sel_focusId = JStr ''a''\<rparr>\<rparr>, mp_folder = ''inbox'',
     mp_folderCounts = [], mp_toast = None, mp_confirm = None, mp_contextMenu = None\<rparr>"

text \<open>A server that takes as many requests as its state says.\<close>

definition patient_server :: "nat server" where
  "patient_server n rq = (if n = 0 then (Inr \<lparr>rs_status = 500, rs_body = utf8_encode ''{}''\<rparr>, 0)
     else (Inr \<lparr>rs_status = 200, rs_body = utf8_encode ''{}''\<rparr>, n - 1))"

lemma patient_move:
  "moveMessage patient_server ''a'' ''archive'' (Suc n) = (Inr (JObj []), n)"
  "moveMessage patient_server ''b'' ''archive'' (Suc n) = (Inr (JObj []), n)"
  "fst (moveMessage patient_server ''b'' ''archive'' 0) = Inl (Error ''mail move 500'')"
proof -
  have "json_or_error ''mail move'' \<lparr>rs_status = 200, rs_body = utf8_encode ''{}''\<rparr> = Inr (JObj [])"
    "json_or_error ''mail move'' \<lparr>rs_status = 500, rs_body = utf8_encode ''{}''\<rparr> = Inl (Error ''mail move 500'')" by code_simp+
  then show "moveMessage patient_server ''a'' ''archive'' (Suc n) = (Inr (JObj []), n)"
    "moveMessage patient_server ''b'' ''archive'' (Suc n) = (Inr (JObj []), n)"
    "fst (moveMessage patient_server ''b'' ''archive'' 0) = Inl (Error ''mail move 500'')"
    by (simp_all add: moveMessage_def call_def bindI_def fetch_def patient_server_def liftI_def)
qed

theorem bulk_move_done_witness:
  "lv_selection (mp_view (fst (bulkMoveSelected patient_server ''archive'' (demo_page [JStr ''a'', JStr ''b''], 2)))) = emptyMailListSelection"
proof -
  have "for_each (\<lambda>i. moveMessage patient_server (to_string i) ''archive'') (selected_ids (demo_page [JStr ''a'', JStr ''b''])) 2 = (Inr (), 0)"
    using patient_move(1) [of 1] patient_move(2) [of 0]
    by (simp add: demo_page_def selected_ids_def bindI_def returnI_def numeral_2_eq_2)
  from bulk_move_done [OF this] show ?thesis by (simp add: demo_page_def selected_ids_def Let_def)
qed

theorem bulk_move_stops_witness:
  "mp_view (fst (bulkMoveSelected patient_server ''archive'' (demo_page [JStr ''a'', JStr ''b''], 1))) = mp_view (demo_page [JStr ''a'', JStr ''b''])"
proof -
  have sel: "selected_ids (demo_page [JStr ''a'', JStr ''b'']) = [JStr ''a''] @ JStr ''b'' # []" by (simp add: demo_page_def selected_ids_def)
  have 1: "for_each (\<lambda>i. moveMessage patient_server (to_string i) ''archive'') [JStr ''a''] 1 = (Inr (), 0)"
    using patient_move(1) [of 0] by (simp add: bindI_def returnI_def)
  have 2: "moveMessage patient_server (to_string (JStr ''b'')) ''archive'' 0
      = (Inl (Error ''mail move 500''), snd (moveMessage patient_server ''b'' ''archive'' 0))"
    using patient_move(3) by (simp add: prod_eq_iff)
  from bulk_move_stops [OF sel _ 1 2] show ?thesis by simp
qed

text \<open>A trash with one message, and one that was emptied.\<close>

definition trash_server :: "bool server" where
  "trash_server b rq =
     (if rq_method rq = DELETE then (Inr \<lparr>rs_status = 200, rs_body = utf8_encode ''{}''\<rparr>, False)
      else (Inr \<lparr>rs_status = 200, rs_body = utf8_encode (if b then ''{\"messages\":[{\"id\":\"a\"}]}'' else ''{\"messages\":[]}'')\<rparr>, b))"

definition trash_of :: "bool \<Rightarrow> jsval list" where
  "trash_of b = (if b then [JObj [(''id'', JStr ''a'')]] else [])"

lemma trash_server_laws: "trash_laws trash_server ''https://x'' trash_of"
proof -
  have json: "resp_json \<lparr>rs_status = 200, rs_body = utf8_encode ''{\"messages\":[{\"id\":\"a\"}]}''\<rparr> = Inr (JObj [(''messages'', JArr [JObj [(''id'', JStr ''a'')]])])"
    "resp_json \<lparr>rs_status = 200, rs_body = utf8_encode ''{\"messages\":[]}''\<rparr> = Inr (JObj [(''messages'', JArr [])])"
    "json_or_error ''mail delete'' \<lparr>rs_status = 200, rs_body = utf8_encode ''{}''\<rparr> = Inr (JObj [])" by code_simp+
  have ok: "resp_ok \<lparr>rs_status = 200, rs_body = b\<rparr>" for b by (simp add: resp_ok_def)
  have "fetchManifests trash_server ''https://x'' (Some ''trash'') (Some 100) None s = (Inr (JObj [(''messages'', JArr (trash_of s))]), s)" for s
    using json ok by (cases s) (simp_all add: fetchManifests_def Let_def call_def bindI_def fetch_def trash_server_def get_request_def liftI_def trash_of_def)
  moreover have "deleteMessage trash_server ''https://x'' i True s = (Inr (JObj []), False)" for i s
    using json(3) by (simp add: deleteMessage_def call_def bindI_def fetch_def trash_server_def plain_request_def liftI_def)
  ultimately show ?thesis by (auto simp: trash_laws_def nullish_def trash_of_def)
qed

theorem empty_trash_ends_witness:
  "\<exists>p'. empty_trash trash_server ''https://x'' id (demo_page [JStr ''a''], True) = Some (p', False) \<and> lv_messages (mp_view p') = []
     \<and> mp_toast p' = Some (''Permanently deleted 1 message'', True)"
proof -
  have rows: "rows_ok (trash_of True)" "emptied_text (length (trash_of True)) = ''Permanently deleted 1 message''" by code_simp+
  have state: "snd (listMailboxFolders trash_server b) = b" for b
    by (cases b) (simp_all add: listMailboxFolders_def call_def bindI_def fetch_def trash_server_def get_request_def liftI_def)
  from empty_trash_ends [OF trash_server_laws rows(1), of id "demo_page [JStr ''a'']"] obtain p' s' where
    "empty_trash trash_server ''https://x'' id (demo_page [JStr ''a''], True) = Some (p', s')" "trash_of s' = []" "lv_messages (mp_view p') = []"
    "mp_toast p' = Some (''Permanently deleted 1 message'', True)"
    unfolding state rows(2) by auto
  then show ?thesis by (cases s') (auto simp: trash_of_def)
qed

end
