(* ===== verification/Filter_Editor.thy ===== *)
theory Filter_Editor
  imports Filter_Pass Mail_Actions Vault_Mime
begin

text \<open>
  The filter rules of \<^verbatim>\<open>static/mail/mail-settings.jsx\<close>: the page with its requests, the draft of a rule
  and how it is edited, and what is saved. The rules saved here are those that
  \<^verbatim>\<open>mail-filter-engine.js\<close> evaluates, which is what the theorems compare them with.
\<close>

section \<open>Conditions and actions\<close>

definition FILTER_CONDITION_TYPES :: "string list" where
  "FILTER_CONDITION_TYPES = [''sender'', ''subject'', ''recipient'', ''body'', ''attachment'', ''size'']"

definition FILTER_OPS_STRING :: "string list" where
  "FILTER_OPS_STRING = [''contains'', ''equals'', ''starts_with'', ''ends_with'', ''matches'']"

definition FILTER_OPS_SIZE :: "string list" where
  "FILTER_OPS_SIZE = [''greater_than'', ''less_than'', ''equals'']"

text \<open>Each type with its \<open>supported\<close>.\<close>

definition FILTER_ACTION_TYPES :: "(string \<times> bool) list" where
  "FILTER_ACTION_TYPES =
     [(''move'', True), (''mark_read'', True), (''delete'', True), (''mark_important'', False), (''label'', False), (''forward'', False)]"

record filter_cond =
  fc_type :: jsval
  fc_operator :: jsval
  fc_value :: string

record filter_act =
  fa_type :: jsval
  fa_value :: string

definition emptyCondition :: filter_cond where
  "emptyCondition = \<lparr>fc_type = JStr ''subject'', fc_operator = JStr ''contains'', fc_value = []\<rparr>"

definition emptyAction :: filter_act where
  "emptyAction = \<lparr>fa_type = JStr ''move'', fa_value = ''archive''\<rparr>"

definition opsForConditionType :: "jsval \<Rightarrow> string list" where
  "opsForConditionType type =
     (if type = JStr ''size'' then FILTER_OPS_SIZE else if type = JStr ''attachment'' then [''equals''] else FILTER_OPS_STRING)"

definition defaultOperatorForType :: "string \<Rightarrow> string" where
  "defaultOperatorForType type =
     (if type = ''size'' then ''greater_than'' else if type = ''attachment'' then ''equals'' else ''contains'')"

definition cond_json :: "filter_cond \<Rightarrow> jsval" where
  "cond_json c = JObj [(''type'', fc_type c), (''operator'', fc_operator c), (''value'', JStr (fc_value c))]"

definition act_json :: "filter_act \<Rightarrow> jsval" where
  "act_json a = JObj [(''type'', fa_type a), (''value'', JStr (fa_value a))]"

section \<open>The draft of a rule\<close>

record filter_draft =
  fd_id :: string
  fd_name :: string
  fd_enabled :: bool
  fd_priority :: jsnum
  fd_conditions :: "filter_cond list"
  fd_actions :: "filter_act list"

text \<open>\<open>Number(n) || 100\<close>.\<close>

definition priority_or_default :: "jsnum \<Rightarrow> jsnum" where
  "priority_or_default n = (if truthy (JNum n) then n else Fin 100)"

definition draft_cond :: "jsval \<Rightarrow> filter_cond result" where
  "draft_cond c =
     bindR (getR c ''type'') (\<lambda>t.
     Inr \<lparr>fc_type = js_or t (JStr ''subject''), fc_operator = js_or (getp c ''operator'') (JStr ''contains''),
          fc_value = str_nullish (getp c ''value'')\<rparr>)"

definition draft_act :: "jsval \<Rightarrow> filter_act result" where
  "draft_act a =
     bindR (getR a ''type'') (\<lambda>t. Inr \<lparr>fa_type = js_or t (JStr ''move''), fa_value = str_nullish (getp a ''value'')\<rparr>)"

text \<open>\<open>f\<close> is an element of \<open>filters\<close>: its conditions and actions are arrays.\<close>

definition openEdit :: "jsval \<Rightarrow> filter_draft result" where
  "openEdit f =
     (let cs = js_elems (getp f ''conditions''); acts = js_elems (getp f ''actions'') in
      bindR (if cs \<noteq> [] then mapR draft_cond cs else Inr [emptyCondition]) (\<lambda>conditions.
      bindR (if acts \<noteq> [] then mapR draft_act acts else Inr [emptyAction]) (\<lambda>actions.
      Inr \<lparr>fd_id = to_string (getp f ''id''), fd_name = str_or_empty (getp f ''name''), fd_enabled = (getp f ''enabled'' \<noteq> JBool False),
           fd_priority = priority_or_default (to_number (getp f ''priority'')), fd_conditions = conditions, fd_actions = actions\<rparr>)))"

text \<open>Editing. The rows are those on the page, so their numbers are below the length of the list.\<close>

datatype cond_patch = PatchType string | PatchOperator string | PatchValue string

definition patched :: "cond_patch \<Rightarrow> filter_cond \<Rightarrow> filter_cond" where
  "patched patch c =
     (case patch of
        PatchType t \<Rightarrow> if t \<noteq> [] then c\<lparr>fc_type := JStr t, fc_operator := JStr (defaultOperatorForType t)\<rparr> else c\<lparr>fc_type := JStr t\<rparr>
      | PatchOperator o' \<Rightarrow> c\<lparr>fc_operator := JStr o'\<rparr>
      | PatchValue x \<Rightarrow> c\<lparr>fc_value := x\<rparr>)"

definition updateConditionRow :: "nat \<Rightarrow> cond_patch \<Rightarrow> filter_draft \<Rightarrow> filter_draft" where
  "updateConditionRow idx patch d = d\<lparr>fd_conditions := (fd_conditions d)[idx := patched patch (fd_conditions d ! idx)]\<rparr>"

definition selectActionType :: "nat \<Rightarrow> string \<Rightarrow> filter_draft \<Rightarrow> filter_draft" where
  "selectActionType idx t d =
     (let a = fd_actions d ! idx; v = (if t = ''move'' then if fa_value a \<noteq> [] then fa_value a else ''archive'' else [])
      in d\<lparr>fd_actions := (fd_actions d)[idx := \<lparr>fa_type = JStr t, fa_value = v\<rparr>]\<rparr>)"

definition updateActionValue :: "nat \<Rightarrow> string \<Rightarrow> filter_draft \<Rightarrow> filter_draft" where
  "updateActionValue idx x d = d\<lparr>fd_actions := (fd_actions d)[idx := (fd_actions d ! idx)\<lparr>fa_value := x\<rparr>]\<rparr>"

definition without :: "nat \<Rightarrow> 'a list \<Rightarrow> 'a list" where
  "without i xs = take i xs @ drop (Suc i) xs"

definition removeCondition :: "nat \<Rightarrow> filter_draft \<Rightarrow> filter_draft" where
  "removeCondition idx d =
     (let next = without idx (fd_conditions d) in d\<lparr>fd_conditions := (if next \<noteq> [] then next else [emptyCondition])\<rparr>)"

definition addCondition :: "filter_draft \<Rightarrow> filter_draft" where
  "addCondition d = d\<lparr>fd_conditions := fd_conditions d @ [emptyCondition]\<rparr>"

definition removeAction :: "nat \<Rightarrow> filter_draft \<Rightarrow> filter_draft" where
  "removeAction idx d =
     (let next = without idx (fd_actions d) in d\<lparr>fd_actions := (if next \<noteq> [] then next else [emptyAction])\<rparr>)"

definition addAction :: "filter_draft \<Rightarrow> filter_draft" where
  "addAction d = d\<lparr>fd_actions := fd_actions d @ [emptyAction]\<rparr>"

definition set_priority :: "string \<Rightarrow> filter_draft \<Rightarrow> filter_draft" where
  "set_priority x d = d\<lparr>fd_priority := num_or_zero (parseInt10 x)\<rparr>"

section \<open>Saving\<close>

text \<open>\<open>/^-?\d+$/\<close>.\<close>

definition integer_text :: "string \<Rightarrow> bool" where
  "integer_text s = (let ds = (if startsWith s ''-'' then tl s else s) in ds \<noteq> [] \<and> list_all is_digit ds)"

definition cond_refusal :: "filter_cond \<Rightarrow> string option" where
  "cond_refusal c =
     (let v = trim (fc_value c) in
      if fc_type c = JStr ''attachment'' then
        if toLowerCase v \<notin> {''yes'', ''no'', ''1'', ''0'', ''true'', ''false''} then Some ''Attachment condition value: use yes or no'' else None
      else if fc_type c \<noteq> JStr ''size'' \<and> v = [] then Some ''Each condition needs a value (except size, which needs a number)''
      else if fc_type c = JStr ''size'' \<and> \<not> integer_text v then Some ''Size condition needs a numeric value''
      else None)"

definition supported_act :: "filter_act \<Rightarrow> bool" where
  "supported_act a = (case List.find (\<lambda>x. fa_type a = JStr (fst x)) FILTER_ACTION_TYPES of None \<Rightarrow> False | Some x \<Rightarrow> snd x)"

definition folder_char :: "char \<Rightarrow> bool" where
  "folder_char c = (97 \<le> code_unit c \<and> code_unit c \<le> 122 \<or> is_digit c \<or> c = CHR ''_'' \<or> c = CHR ''-'')"

definition act_refusal :: "filter_act \<Rightarrow> string option" where
  "act_refusal a =
     (let folder = toLowerCase (trim (fa_value a)) in
      if fa_type a \<noteq> JStr ''move'' then None
      else if folder = [] then Some ''Move action needs a folder name''
      else if \<not> list_all folder_char folder then Some ''Folder name: letters, numbers, dashes, underscores only''
      else None)"

fun first_refusal :: "('a \<Rightarrow> string option) \<Rightarrow> 'a list \<Rightarrow> string option" where
  "first_refusal f [] = None"
| "first_refusal f (x # xs) = (case f x of None \<Rightarrow> first_refusal f xs | Some m \<Rightarrow> Some m)"

definition kept_acts :: "filter_draft \<Rightarrow> filter_act list" where
  "kept_acts d = filter supported_act (fd_actions d)"

definition edit_refusal :: "filter_draft \<Rightarrow> string option" where
  "edit_refusal d =
     (if trim (fd_name d) = [] then Some ''Rule name is required''
      else if fd_conditions d = [] then Some ''Add at least one condition''
      else
        (case first_refusal cond_refusal (fd_conditions d) of
           Some m \<Rightarrow> Some m
         | None \<Rightarrow>
             if kept_acts d = [] then Some ''Add at least one supported action (move, mark read, or delete)''
             else first_refusal act_refusal (kept_acts d)))"

definition saved_cond :: "filter_cond \<Rightarrow> filter_cond" where
  "saved_cond c = (if fc_type c = JStr ''size'' then c\<lparr>fc_value := num_to_string (parseInt10 (fc_value c))\<rparr> else c)"

definition edit_body :: "filter_draft \<Rightarrow> jsval" where
  "edit_body d =
     JObj [(''name'', JStr (trim (fd_name d))), (''enabled'', JBool (fd_enabled d)), (''priority'', JNum (priority_or_default (fd_priority d))),
           (''conditions'', JArr (map (cond_json \<circ> saved_cond) (fd_conditions d))), (''actions'', JArr (map act_json (kept_acts d)))]"

definition new_rule_body :: "string \<Rightarrow> jsval" where
  "new_rule_body name =
     JObj [(''name'', JStr (trim name)), (''enabled'', JBool True), (''priority'', jint 100),
           (''conditions'', JArr [cond_json emptyCondition]), (''actions'', JArr [act_json emptyAction])]"

definition toggle_body :: "jsval \<Rightarrow> jsval" where
  "toggle_body f =
     JObj [(''name'', getp f ''name''), (''enabled'', JBool (\<not> truthy (getp f ''enabled''))),
           (''priority'', JNum (priority_or_default (to_number (getp f ''priority'')))),
           (''conditions'', js_or (getp f ''conditions'') (JArr [])), (''actions'', js_or (getp f ''actions'') (JArr []))]"

section \<open>The page\<close>

record filters_page =
  fp_filters :: "jsval list"
  fp_loading :: bool
  fp_error :: string
  fp_showCreateModal :: bool
  fp_newName :: string
  fp_confirmDelete :: "string option"
  fp_deleteLoading :: bool
  fp_editDraft :: "filter_draft option"
  fp_saveLoading :: bool
  fp_toggleLoading :: "string option"

definition loaded_filter :: "jsval \<Rightarrow> jsval result" where
  "loaded_filter x =
     (let arr = (\<lambda>k. if isArray (getp x k) then getp x k else JArr []) in
      bindR (getR x ''conditions'') (\<lambda>_. Inr (object_spread x [(''conditions'', arr ''conditions''), (''actions'', arr ''actions'')])))"

definition loaded_filters :: "jsval \<Rightarrow> jsval list result" where
  "loaded_filters r =
     bindR (getR r ''filters'') (\<lambda>fs.
     let raw = js_or fs (JArr []) in if isArray raw then mapR loaded_filter (js_elems raw) else Inl TypeError)"

definition loadFilters :: "'s server \<Rightarrow> filters_page \<times> 's \<Rightarrow> filters_page \<times> 's" where
  "loadFilters srv st =
     (let p = (fst st)\<lparr>fp_loading := True, fp_error := []\<rparr> in
      case bindI (listFilters srv) (\<lambda>r. liftI (loaded_filters r)) (snd st) of
        (Inr fs, s) \<Rightarrow> (p\<lparr>fp_filters := fs, fp_loading := False\<rparr>, s)
      | (Inl e, s) \<Rightarrow> (p\<lparr>fp_error := err_text e ''Failed to load filters'', fp_loading := False\<rparr>, s))"

definition handleCreate :: "'s server \<Rightarrow> filters_page \<times> 's \<Rightarrow> filters_page \<times> 's" where
  "handleCreate srv st =
     (let p = fst st in
      if trim (fp_newName p) = [] then st
      else
        (case createFilter srv (new_rule_body (fp_newName p)) (snd st) of
           (Inr _, s) \<Rightarrow> loadFilters srv (p\<lparr>fp_newName := [], fp_showCreateModal := False\<rparr>, s)
         | (Inl e, s) \<Rightarrow> (p\<lparr>fp_error := err_text e ''Failed to create filter''\<rparr>, s)))"

definition executeDeleteFilter :: "'s server \<Rightarrow> filters_page \<times> 's \<Rightarrow> filters_page \<times> 's" where
  "executeDeleteFilter srv st =
     (let p = (fst st)\<lparr>fp_deleteLoading := True\<rparr>; i = (case fp_confirmDelete p of Some i \<Rightarrow> i | None \<Rightarrow> ''null'') in
      case deleteFilter srv i (snd st) of
        (Inr _, s) \<Rightarrow> (case loadFilters srv (p, s) of (q, s') \<Rightarrow> (q\<lparr>fp_confirmDelete := None, fp_deleteLoading := False\<rparr>, s'))
      | (Inl e, s) \<Rightarrow> (p\<lparr>fp_error := err_text e ''Failed to delete filter'', fp_deleteLoading := False\<rparr>, s))"

definition saveEdit :: "'s server \<Rightarrow> filters_page \<times> 's \<Rightarrow> filters_page \<times> 's" where
  "saveEdit srv st =
     (let p = fst st in
      case fp_editDraft p of
        None \<Rightarrow> (p\<lparr>fp_error := ''Rule name is required''\<rparr>, snd st)
      | Some d \<Rightarrow>
          (case edit_refusal d of
             Some m \<Rightarrow> (p\<lparr>fp_error := m\<rparr>, snd st)
           | None \<Rightarrow>
               (let p1 = p\<lparr>fp_saveLoading := True, fp_error := []\<rparr> in
                case updateFilter srv (fd_id d) (edit_body d) (snd st) of
                  (Inr _, s) \<Rightarrow> (case loadFilters srv (p1\<lparr>fp_editDraft := None\<rparr>, s) of (q, s') \<Rightarrow> (q\<lparr>fp_saveLoading := False\<rparr>, s'))
                | (Inl e, s) \<Rightarrow> (p1\<lparr>fp_error := err_text e ''Failed to save filter'', fp_saveLoading := False\<rparr>, s))))"

definition toggleEnabled :: "'s server \<Rightarrow> jsval \<Rightarrow> filters_page \<times> 's \<Rightarrow> filters_page \<times> 's" where
  "toggleEnabled srv f st =
     (let i = to_string (getp f ''id''); p = (fst st)\<lparr>fp_toggleLoading := Some i, fp_error := []\<rparr> in
      case updateFilter srv i (toggle_body f) (snd st) of
        (Inr _, s) \<Rightarrow> (case loadFilters srv (p, s) of (q, s') \<Rightarrow> (q\<lparr>fp_toggleLoading := None\<rparr>, s'))
      | (Inl e, s) \<Rightarrow> (p\<lparr>fp_error := err_text e ''Failed to update filter'', fp_toggleLoading := None\<rparr>, s))"

section \<open>Drafts that can be reached\<close>

text \<open>The row in which the server stores a rule.\<close>

definition stored_rule :: "string \<Rightarrow> jsval \<Rightarrow> jsval" where
  "stored_rule i body = JObj ((''id'', JStr i) # own_props body)"

inductive edit_step :: "filter_draft \<Rightarrow> filter_draft \<Rightarrow> bool" where
  edit_name: "edit_step d (d\<lparr>fd_name := x\<rparr>)"
| edit_enabled: "edit_step d (d\<lparr>fd_enabled := b\<rparr>)"
| edit_priority: "edit_step d (set_priority x d)"
| cond_type: "i < length (fd_conditions d) \<Longrightarrow> t \<in> set FILTER_CONDITION_TYPES \<Longrightarrow> edit_step d (updateConditionRow i (PatchType t) d)"
| cond_operator: "i < length (fd_conditions d) \<Longrightarrow> x \<in> set (opsForConditionType (fc_type (fd_conditions d ! i)))
    \<Longrightarrow> edit_step d (updateConditionRow i (PatchOperator x) d)"
| cond_value: "i < length (fd_conditions d) \<Longrightarrow> edit_step d (updateConditionRow i (PatchValue x) d)"
| cond_removed: "i < length (fd_conditions d) \<Longrightarrow> edit_step d (removeCondition i d)"
| cond_added: "edit_step d (addCondition d)"
| act_type: "i < length (fd_actions d) \<Longrightarrow> (t, True) \<in> set FILTER_ACTION_TYPES \<Longrightarrow> edit_step d (selectActionType i t d)"
| act_value: "i < length (fd_actions d) \<Longrightarrow> edit_step d (updateActionValue i x d)"
| act_removed: "i < length (fd_actions d) \<Longrightarrow> edit_step d (removeAction i d)"
| act_added: "edit_step d (addAction d)"

text \<open>Drafts of rules that were created, edited, saved and opened again with the editor.\<close>

inductive edited :: "filter_draft \<Rightarrow> bool" where
  opened_new: "openEdit (stored_rule i (new_rule_body name)) = Inr d \<Longrightarrow> edited d"
| opened_saved: "edited d \<Longrightarrow> edit_refusal d = None \<Longrightarrow> openEdit (stored_rule i (edit_body d)) = Inr d' \<Longrightarrow> edited d'"
| edited_on: "edited d \<Longrightarrow> edit_step d d' \<Longrightarrow> edited d'"

definition cond_ok :: "filter_cond \<Rightarrow> bool" where
  "cond_ok c = (\<exists>t x. fc_type c = JStr t \<and> t \<in> set FILTER_CONDITION_TYPES \<and> fc_operator c = JStr x \<and> x \<in> set (opsForConditionType (JStr t)))"

definition draft_ok :: "filter_draft \<Rightarrow> bool" where
  "draft_ok d = (fd_conditions d \<noteq> [] \<and> list_all cond_ok (fd_conditions d)
     \<and> list_all (\<lambda>a. \<exists>t. fa_type a = JStr t \<and> (t, True) \<in> set FILTER_ACTION_TYPES) (fd_actions d))"

lemmas editor_lists = FILTER_CONDITION_TYPES_def FILTER_OPS_STRING_def FILTER_OPS_SIZE_def FILTER_ACTION_TYPES_def

lemma cond_ok_default: "t \<in> set FILTER_CONDITION_TYPES \<Longrightarrow> defaultOperatorForType t \<in> set (opsForConditionType (JStr t))"
  by (auto simp: editor_lists defaultOperatorForType_def opsForConditionType_def)

lemma cond_ok_empty: "cond_ok emptyCondition"
  by (simp add: cond_ok_def emptyCondition_def editor_lists opsForConditionType_def)

lemma list_all_update: "list_all P xs \<Longrightarrow> P y \<Longrightarrow> list_all P (xs[i := y])"
  by (auto simp: list_all_iff dest: set_update_subset_insert [THEN subsetD])

lemma list_all_without: "list_all P xs \<Longrightarrow> list_all P (without i xs)"
  by (auto simp: list_all_iff without_def dest: in_set_takeD in_set_dropD)

lemma patched_ok:
  assumes "cond_ok c" and "case patch of PatchType t \<Rightarrow> t \<in> set FILTER_CONDITION_TYPES
      | PatchOperator x \<Rightarrow> x \<in> set (opsForConditionType (fc_type c)) | PatchValue _ \<Rightarrow> True"
  shows "cond_ok (patched patch c)"
proof (cases patch)
  case (PatchType t)
  then have "t \<noteq> []" using assms(2) by (auto simp: FILTER_CONDITION_TYPES_def)
  then show ?thesis using PatchType assms(2) cond_ok_default by (auto simp: cond_ok_def patched_def)
next
  case (PatchOperator x)
  then show ?thesis using assms by (auto simp: cond_ok_def patched_def)
next
  case (PatchValue x)
  then show ?thesis using assms by (auto simp: cond_ok_def patched_def)
qed

lemma update_row_ok:
  assumes "draft_ok d" and "i < length (fd_conditions d)" and "case patch of PatchType t \<Rightarrow> t \<in> set FILTER_CONDITION_TYPES
      | PatchOperator x \<Rightarrow> x \<in> set (opsForConditionType (fc_type (fd_conditions d ! i))) | PatchValue _ \<Rightarrow> True"
  shows "draft_ok (updateConditionRow i patch d)"
proof -
  have "cond_ok (fd_conditions d ! i)" using assms(1,2) by (simp add: draft_ok_def list_all_length)
  then have "cond_ok (patched patch (fd_conditions d ! i))" using assms(3) by (rule patched_ok)
  then show ?thesis using assms(1) by (simp add: draft_ok_def updateConditionRow_def list_all_update)
qed

lemma move_supported: "(''move'', True) \<in> set FILTER_ACTION_TYPES"
  by (simp add: FILTER_ACTION_TYPES_def)

lemma edit_step_ok:
  assumes "edit_step d d'" and "draft_ok d"
  shows "draft_ok d'"
  using assms
proof (induction rule: edit_step.induct)
  case (act_value i d x)
  then have "\<exists>t. fa_type (fd_actions d ! i) = JStr t \<and> (t, True) \<in> set FILTER_ACTION_TYPES"
    by (simp add: draft_ok_def list_all_length)
  then show ?case using act_value by (simp add: draft_ok_def updateActionValue_def list_all_update)
next
  case (act_type i d t)
  then show ?case by (simp add: draft_ok_def selectActionType_def Let_def list_all_update)
next
  case (cond_type i d t)
  then show ?case by (simp add: update_row_ok)
next
  case (cond_operator i d x)
  then show ?case by (simp add: update_row_ok)
next
  case (cond_value i d x)
  then show ?case by (simp add: update_row_ok)
qed (simp_all add: draft_ok_def set_priority_def removeCondition_def addCondition_def removeAction_def addAction_def
      cond_ok_empty list_all_without Let_def emptyAction_def move_supported)

lemma no_empty_names: "[] \<notin> set FILTER_CONDITION_TYPES" "[] \<notin> set FILTER_OPS_STRING" "[] \<notin> set FILTER_OPS_SIZE"
  "[] \<notin> fst ` set FILTER_ACTION_TYPES"
  by (simp_all add: editor_lists)

lemma ops_cases: "x \<in> set (opsForConditionType t) \<Longrightarrow> x \<in> set FILTER_OPS_STRING \<or> x \<in> set FILTER_OPS_SIZE"
  by (simp add: opsForConditionType_def FILTER_OPS_SIZE_def split: if_splits)

lemma draft_cond_json:
  assumes "cond_ok c"
  shows "draft_cond (cond_json c) = Inr c"
proof -
  obtain t x where c: "fc_type c = JStr t" "t \<noteq> []" "fc_operator c = JStr x" "x \<noteq> []"
    using assms no_empty_names ops_cases unfolding cond_ok_def by metis
  have nn: "\<not> nullish (cond_json c)" by (simp add: cond_json_def nullish_def)
  show ?thesis
    unfolding draft_cond_def cond_json_def using c nn by (simp add: getR_def cond_json_def js_or_def str_nullish_def nullish_def)
qed

lemma draft_act_json:
  assumes "(t, True) \<in> set FILTER_ACTION_TYPES" and "fa_type a = JStr t"
  shows "draft_act (act_json a) = Inr a"
proof -
  have "t \<noteq> []" using assms(1) no_empty_names(4) by force
  then show ?thesis
    using assms(2) by (simp add: draft_act_def act_json_def getR_def nullish_def js_or_def str_nullish_def)
qed

lemma mapR_all: "(\<And>x. x \<in> set xs \<Longrightarrow> f (g x) = Inr (h x)) \<Longrightarrow> mapR f (map g xs) = Inr (map h xs)"
  by (induction xs) simp_all

lemma saved_cond_ok: "cond_ok c \<Longrightarrow> cond_ok (saved_cond c)"
  by (auto simp: cond_ok_def saved_cond_def)

lemma kept_acts_all: "draft_ok d \<Longrightarrow> kept_acts d = fd_actions d"
  unfolding kept_acts_def draft_ok_def list_all_iff
  by (rule filter_True) (auto simp: supported_act_def FILTER_ACTION_TYPES_def)

lemma priority_twice: "priority_or_default (priority_or_default n) = priority_or_default n"
  by (simp add: priority_or_default_def)

lemma reopened:
  assumes "draft_ok d" and "edit_refusal d = None"
  shows "openEdit (stored_rule i (edit_body d)) =
      Inr \<lparr>fd_id = i, fd_name = trim (fd_name d), fd_enabled = fd_enabled d, fd_priority = priority_or_default (fd_priority d),
           fd_conditions = map saved_cond (fd_conditions d), fd_actions = fd_actions d\<rparr>"
proof -
  have ne: "fd_conditions d \<noteq> []" "fd_actions d \<noteq> []"
    using assms kept_acts_all [OF assms(1)] by (auto simp: edit_refusal_def draft_ok_def split: if_splits option.splits)
  have cs: "mapR draft_cond (map (cond_json \<circ> saved_cond) (fd_conditions d)) = Inr (map saved_cond (fd_conditions d))"
    using assms(1) by (intro mapR_all) (simp add: draft_cond_json saved_cond_ok draft_ok_def list_all_iff)
  have "draft_act (act_json a) = Inr a" if "a \<in> set (fd_actions d)" for a
    using assms(1) that draft_act_json by (fastforce simp: draft_ok_def list_all_iff)
  then have as: "mapR draft_act (map act_json (fd_actions d)) = Inr (fd_actions d)"
    using mapR_all [of "fd_actions d" draft_act act_json "\<lambda>a. a"] by simp
  have sel: "getp (stored_rule i (edit_body d)) ''conditions'' = JArr (map (cond_json \<circ> saved_cond) (fd_conditions d))"
      "getp (stored_rule i (edit_body d)) ''actions'' = JArr (map act_json (fd_actions d))" "getp (stored_rule i (edit_body d)) ''id'' = JStr i"
      "getp (stored_rule i (edit_body d)) ''name'' = JStr (trim (fd_name d))" "getp (stored_rule i (edit_body d)) ''enabled'' = JBool (fd_enabled d)"
      "getp (stored_rule i (edit_body d)) ''priority'' = JNum (priority_or_default (fd_priority d))"
    by (simp_all add: stored_rule_def edit_body_def kept_acts_all [OF assms(1)])
  show ?thesis
    using ne unfolding openEdit_def sel
    by (simp add: cs as Let_def priority_twice str_or_empty_def js_or_def)
qed

lemma opened_new_ok:
  assumes "openEdit (stored_rule i (new_rule_body name)) = Inr d"
  shows "draft_ok d"
proof -
  have "draft_cond (cond_json emptyCondition) = Inr emptyCondition" by (rule draft_cond_json [OF cond_ok_empty])
  moreover have "draft_act (act_json emptyAction) = Inr emptyAction" by (rule draft_act_json [OF move_supported]) (simp add: emptyAction_def)
  ultimately have "fd_conditions d = [emptyCondition] \<and> fd_actions d = [emptyAction]"
    using assms by (auto simp: openEdit_def stored_rule_def new_rule_body_def)
  then show ?thesis by (simp add: draft_ok_def cond_ok_empty emptyAction_def move_supported)
qed

lemma edited_ok: "edited d \<Longrightarrow> draft_ok d"
proof (induction rule: edited.induct)
  case (opened_saved d i d')
  then have "fd_conditions d' = map saved_cond (fd_conditions d)" "fd_actions d' = fd_actions d" using reopened by auto
  then show ?case using opened_saved.IH by (simp add: draft_ok_def list_all_iff saved_cond_ok)
qed (simp_all add: opened_new_ok edit_step_ok)

section \<open>Texts of integers\<close>

text \<open>The integer that a text denotes.\<close>

definition text_int :: "string \<Rightarrow> int" where
  "text_int s = (if startsWith s ''-'' then - int (decimal_val (tl s)) else int (decimal_val s))"

lemma trim_start_parts: obtains w where "trim_start s = trim s @ w" and "list_all is_space w"
proof
  let ?t = "trim_start s"
  show "?t = trim s @ rev (takeWhile is_space (rev ?t))"
    unfolding trim_def trim_end_def by (metis rev_append rev_rev_ident takeWhile_dropWhile_id)
  show "list_all is_space (rev (takeWhile is_space (rev ?t)))" by (auto simp: list_all_iff dest: set_takeWhileD)
qed

lemma digit_not_space: "is_digit c \<Longrightarrow> \<not> is_space c"
  by (auto simp: is_digit_def is_space_def)

lemma minus_not_space: "\<not> is_space CHR ''-''"
  by (simp add: is_space_def code_unit_def)

lemma digits_then_spaces:
  assumes "list_all is_digit ds" and "list_all is_space w"
  shows "takeWhile is_digit (ds @ w) = ds"
proof -
  have "takeWhile is_digit w = []" using assms(2) digit_not_space by (cases w) auto
  then show ?thesis using assms(1) by (simp add: takeWhile_append list_all_iff)
qed

lemma parseInt_integer:
  assumes "integer_text (trim s)"
  shows "parseInt10 s = Fin (text_int (trim s))"
proof -
  obtain w where w: "trim_start s = trim s @ w" "list_all is_space w" by (rule trim_start_parts)
  have plus: "\<not> is_digit CHR ''+''" by (simp add: is_digit_def code_unit_def)
  show ?thesis
  proof (cases "startsWith (trim s) ''-''")
    case True
    then obtain ds where ds: "trim s = CHR ''-'' # ds" by (auto simp: startsWith_def prefix_def)
    then have "ds \<noteq> []" "list_all is_digit ds" using assms True by (simp_all add: integer_text_def)
    then show ?thesis using digits_then_spaces [OF _ w(2), of ds]
      by (simp add: parseInt10_def w(1) ds text_int_def startsWith_def Let_def)
  next
    case False
    then obtain c ds where ds: "trim s = c # ds" "is_digit c" "list_all is_digit ds" "c \<noteq> CHR ''-''"
      using assms by (cases "trim s") (auto simp: integer_text_def startsWith_def)
    then have "c \<noteq> CHR ''+''" using plus by auto
    then show ?thesis using digits_then_spaces [OF _ w(2), of "c # ds"] ds
      by (simp add: parseInt10_def w(1) text_int_def startsWith_def Let_def)
  qed
qed

lemma radix_no_minus: "\<not> startsWith (to_radix 10 n) ''-''"
  using to_radix_10_not_minus [of n] by (auto simp: startsWith_def is_digit_def code_unit_def)

lemma int_to_string_text: "integer_text (int_to_string n)" "text_int (int_to_string n) = n"
  using to_radix_10 [of "nat n"] to_radix_10 [of "nat (- n)"] radix_no_minus [of "nat n"]
  by (auto simp: integer_text_def text_int_def int_to_string_def startsWith_def list_all_iff)

lemma integer_text_trim:
  assumes "integer_text s"
  shows "trim s = s"
proof -
  have *: "s \<noteq> []" "\<forall>c \<in> set s. \<not> is_space c"
    using assms digit_not_space minus_not_space
    by (cases s; auto simp: integer_text_def startsWith_def Let_def list_all_iff split: if_splits)+
  then show ?thesis by (intro trim_tight) auto
qed

section \<open>What the saved rule means\<close>

text \<open>The meaning that the labels of the editor give to a condition, on texts compared without case and surrounding white space.\<close>

definition text_meant :: "string \<Rightarrow> string \<Rightarrow> string \<Rightarrow> bool" where
  "text_meant x needle hay =
     (let n = toLowerCase (trim needle); h = toLowerCase (trim hay) in
      if x = ''equals'' then h = n else if x = ''starts_with'' then prefix n h else if x = ''ends_with'' then suffix n h else sublist n h)"

definition size_meant :: "string \<Rightarrow> int \<Rightarrow> int \<Rightarrow> bool" where
  "size_meant x n bytes = (if x = ''greater_than'' then n < bytes else if x = ''less_than'' then bytes < n else bytes = n)"

definition cond_meant :: "filter_cond \<Rightarrow> filter_ctx \<Rightarrow> bool" where
  "cond_meant c ctx =
     (let t = fc_type c; x = to_string (fc_operator c); v = fc_value c in
      if t = JStr ''sender'' then text_meant x v (ctx_from ctx)
      else if t = JStr ''subject'' then text_meant x v (ctx_subject ctx)
      else if t = JStr ''recipient'' then (\<exists>a \<in> set (ctx_to ctx). text_meant x v a)
      else if t = JStr ''body'' then (case ctx_bodyText ctx of None \<Rightarrow> False | Some b \<Rightarrow> b \<noteq> [] \<and> text_meant x v b)
      else if t = JStr ''attachment'' then ctx_hasAttachments ctx = (toLowerCase (trim v) \<in> {''yes'', ''1'', ''true''})
      else (case ctx_sizeBytes ctx of Some (Fin n) \<Rightarrow> size_meant x (text_int (trim v)) n | _ \<Rightarrow> False))"

definition act_meant :: "string \<Rightarrow> filter_act \<Rightarrow> api_call" where
  "act_meant messageId a =
     (if fa_type a = JStr ''move'' then MoveMessage messageId (toLowerCase (trim (fa_value a)))
      else if fa_type a = JStr ''mark_read'' then SetMessageRead messageId True
      else DeleteMessage messageId False)"

lemma first_refusal_None: "first_refusal f xs = None \<longleftrightarrow> (\<forall>x \<in> set xs. f x = None)"
  by (induction xs) (auto split: option.split)

lemma accepted:
  assumes "edit_refusal d = None"
  shows "fd_conditions d \<noteq> []" "c \<in> set (fd_conditions d) \<Longrightarrow> cond_refusal c = None"
    "kept_acts d \<noteq> []" "a \<in> set (kept_acts d) \<Longrightarrow> act_refusal a = None"
  using assms by (auto simp: edit_refusal_def first_refusal_None split: if_splits option.splits)

lemma matchString_meant:
  assumes "x \<in> set FILTER_OPS_STRING" and "trim needle \<noteq> []"
  shows "matchString hay needle x = text_meant x needle hay"
  using assms by (auto simp: matchString_def text_meant_def norm_JStr FILTER_OPS_STRING_def startsWith_def endsWith_def indexOf_neg Let_def)

lemma lower_ops: "x \<in> set FILTER_OPS_STRING \<union> set FILTER_OPS_SIZE \<Longrightarrow> toLowerCase (trim x) = x"
  by (auto simp: editor_lists; code_simp)

lemma lower_types: "t \<in> set FILTER_CONDITION_TYPES \<Longrightarrow> toLowerCase (trim t) = t"
  by (auto simp: FILTER_CONDITION_TYPES_def; code_simp)

lemma supported_types: "t \<in> set FILTER_CONDITION_TYPES \<Longrightarrow> lookup_truthy SUPPORTED_CONDITION_TYPES t"
  by (auto simp: FILTER_CONDITION_TYPES_def SUPPORTED_CONDITION_TYPES_def lookup_truthy_def)

lemma cond_json_sel:
  "getp (cond_json c) ''type'' = fc_type c" "getp (cond_json c) ''operator'' = fc_operator c"
  "getp (cond_json c) ''value'' = JStr (fc_value c)" "truthy (cond_json c)" "typeof_object (cond_json c)"
  by (simp_all add: cond_json_def)

lemma conj_if_bool: "(A \<and> (A \<longrightarrow> B)) = (A \<and> B)"
  by blast

lemma conditionMatches_editor:
  assumes "fc_type c = JStr t" and "t \<in> set FILTER_CONDITION_TYPES" and "fc_operator c = JStr x" and "x \<noteq> []" and "toLowerCase (trim x) = x"
  shows "conditionMatches (cond_json c) ctx =
     (let v = fc_value c; want = toLowerCase (trim v) in
      if t = ''sender'' then matchString (ctx_from ctx) v x
      else if t = ''subject'' then matchString (ctx_subject ctx) v x
      else if t = ''recipient'' then (\<exists>a \<in> set (ctx_to ctx). matchString a v x)
      else if t = ''body'' then (case ctx_bodyText ctx of None \<Rightarrow> False | Some b \<Rightarrow> b \<noteq> [] \<and> matchString b v x)
      else if t = ''attachment'' then
        ctx_hasAttachments ctx = (want \<noteq> ''0'' \<and> want \<noteq> ''false'' \<and> want \<noteq> ''no'')
      else size_matches (ctx_sizeBytes ctx) v x)"
proof -
  have t: "t \<noteq> []" using assms(2) no_empty_names(1) by blast
  have ct: "cond_type (cond_json c) = t" using t lower_types [OF assms(2)] by (simp add: cond_type_def cond_json_sel assms(1) str_or_empty_def js_or_def)
  have op: "toLowerCase (trim (to_string (js_or (getp (cond_json c) ''operator'') (JStr ''contains'')))) = x"
    using assms(4,5) by (simp add: cond_json_sel assms(3) js_or_def)
  have val: "str_nullish (getp (cond_json c) ''value'') = fc_value c" by (simp add: cond_json_sel str_nullish_def nullish_def)
  have "t = ''sender'' \<or> t = ''subject'' \<or> t = ''recipient'' \<or> t = ''body'' \<or> t = ''attachment'' \<or> t = ''size''"
    using assms(2) by (simp add: FILTER_CONDITION_TYPES_def)
  then show ?thesis
    unfolding conditionMatches_def ct op val Let_def norm_JStr
    using supported_types [OF assms(2)]
    by (elim disjE) (simp_all add: cond_json_sel list_ex_iff conj_if_bool split: option.split)
qed

lemma saved_size_means:
  assumes "integer_text (trim v)" and "x \<in> set FILTER_OPS_SIZE"
  shows "size_matches sz (num_to_string (parseInt10 v)) x = (case sz of Some (Fin n) \<Rightarrow> size_meant x (text_int (trim v)) n | _ \<Rightarrow> False)"
proof -
  have "parseInt10 (int_to_string n) = Fin n" for n
    using parseInt_integer [of "int_to_string n"] int_to_string_text [of n] integer_text_trim by simp
  then show ?thesis
    using assms by (auto simp: size_matches_def parseInt_integer size_meant_def FILTER_OPS_SIZE_def split: option.split jsnum.split)
qed

lemma saved_cond_means:
  assumes "cond_ok c" and "cond_refusal c = None"
  shows "conditionMatches (cond_json (saved_cond c)) ctx = cond_meant c ctx"
proof -
  obtain t x where c: "fc_type c = JStr t" "t \<in> set FILTER_CONDITION_TYPES" "fc_operator c = JStr x" "x \<in> set (opsForConditionType (JStr t))"
    using assms(1) by (auto simp: cond_ok_def)
  have ops: "x \<in> set FILTER_OPS_STRING \<union> set FILTER_OPS_SIZE" using ops_cases [OF c(4)] by blast
  then have ne: "x \<noteq> []" using no_empty_names by blast
  have sc: "fc_type (saved_cond c) = JStr t" "fc_operator (saved_cond c) = JStr x" by (simp_all add: saved_cond_def c)
  note engine = conditionMatches_editor [OF sc(1) c(2) sc(2) ne lower_ops [OF ops]]
  consider "t = ''size''" | "t = ''attachment''" | "t \<noteq> ''size''" "t \<noteq> ''attachment''" by argo
  then show ?thesis
  proof cases
    case 1
    have "integer_text (trim (fc_value c))" using assms(2) unfolding cond_refusal_def c(1) 1 Let_def by (simp split: if_splits)
    moreover have "x \<in> set FILTER_OPS_SIZE" using c(4) unfolding 1 by (simp add: opsForConditionType_def)
    ultimately have "size_matches (ctx_sizeBytes ctx) (num_to_string (parseInt10 (fc_value c))) x =
        (case ctx_sizeBytes ctx of Some (Fin n) \<Rightarrow> size_meant x (text_int (trim (fc_value c))) n | _ \<Rightarrow> False)"
      by (rule saved_size_means)
    then show ?thesis unfolding engine unfolding cond_meant_def saved_cond_def c(1,3) 1 Let_def to_string.simps by simp
  next
    case 2
    have "toLowerCase (trim (fc_value c)) \<in> {''yes'', ''no'', ''1'', ''0'', ''true'', ''false''}"
      using assms(2) unfolding cond_refusal_def c(1) 2 Let_def by (simp split: if_splits)
    then show ?thesis unfolding engine unfolding cond_meant_def saved_cond_def c(1,3) 2 Let_def by (elim insertE) simp_all
  next
    case 3
    note t = 3
    have "x \<in> set FILTER_OPS_STRING" using c(4) t by (simp add: opsForConditionType_def)
    moreover have "trim (fc_value c) \<noteq> []" using assms(2) t unfolding cond_refusal_def c(1) Let_def by (simp split: if_splits)
    ultimately have ms: "matchString hay (fc_value c) x = text_meant x (fc_value c) hay" for hay by (rule matchString_meant)
    have sc: "saved_cond c = c" using t c(1) by (simp add: saved_cond_def)
    have "t = ''sender'' \<or> t = ''subject'' \<or> t = ''recipient'' \<or> t = ''body''" using c(2) t by (simp add: FILTER_CONDITION_TYPES_def)
    then show ?thesis unfolding engine unfolding sc cond_meant_def c(1,3) ms Let_def by (elim disjE) (simp_all split: option.split)
  qed
qed

lemma saved_act_calls:
  assumes "(t, True) \<in> set FILTER_ACTION_TYPES" and "fa_type a = JStr t" and "act_refusal a = None"
  shows "action_step m (act_json a) = ([act_meant m a], [])" and "lookup_truthy SUPPORTED_ACTION_TYPES (action_type (act_json a))"
proof -
  have t: "t = ''move'' \<or> t = ''mark_read'' \<or> t = ''delete''" using assms(1) by (simp add: FILTER_ACTION_TYPES_def)
  then have "t \<noteq> [] \<and> toLowerCase (trim t) = t" by (elim disjE; hypsubst; code_simp)
  then have at: "action_type (act_json a) = t" by (simp add: action_type_def act_json_def assms(2) str_or_empty_def js_or_def)
  have val: "str_nullish (getp (act_json a) ''value'') = fa_value a" by (simp add: act_json_def str_nullish_def nullish_def)
  have "toLowerCase (trim (fa_value a)) \<noteq> []" if "t = ''move''"
    using assms(2,3) that by (simp add: act_refusal_def Let_def split: if_splits)
  then show "action_step m (act_json a) = ([act_meant m a], [])"
    using t unfolding action_step_def at val act_meant_def assms(2) norm_JStr Let_def by (elim disjE) simp_all
  show "lookup_truthy SUPPORTED_ACTION_TYPES (action_type (act_json a))"
    using t unfolding at by (elim disjE) (simp_all add: lookup_truthy_def SUPPORTED_ACTION_TYPES_def)
qed

lemma edit_body_sel:
  "getp (edit_body d) ''conditions'' = JArr (map (cond_json \<circ> saved_cond) (fd_conditions d))"
  "getp (edit_body d) ''actions'' = JArr (map act_json (kept_acts d))"
  "getp (edit_body d) ''priority'' = JNum (priority_or_default (fd_priority d))"
  by (simp_all add: edit_body_def)


definition new_draft :: filter_draft where
  "new_draft = \<lparr>fd_id = ''1'', fd_name = ''News'', fd_enabled = True, fd_priority = Fin 100,
     fd_conditions = [emptyCondition], fd_actions = [emptyAction]\<rparr>"

definition news_draft :: filter_draft where
  "news_draft = updateConditionRow 0 (PatchValue ''news'') new_draft"

lemma edited_news: "edited new_draft" "edited news_draft" "edit_refusal news_draft = None"
proof -
  have "openEdit (stored_rule ''1'' (new_rule_body ''News'')) = Inr new_draft" by code_simp
  then show new: "edited new_draft" by (rule opened_new)
  show "edited news_draft" unfolding news_draft_def
    by (rule edited_on [OF new cond_value]) (simp add: new_draft_def)
  show "edit_refusal news_draft = None" by code_simp
qed


lemma saved_cond_again:
  assumes "cond_refusal c = None"
  shows "cond_refusal (saved_cond c) = None" and "saved_cond (saved_cond c) = saved_cond c"
proof -
  have "cond_refusal (saved_cond c) = None \<and> saved_cond (saved_cond c) = saved_cond c"
  proof (cases "fc_type c = JStr ''size''")
    case True
    then have int: "integer_text (trim (fc_value c))" using assms by (simp add: cond_refusal_def Let_def split: if_splits)
    define n where "n = text_int (trim (fc_value c))"
    have sc: "saved_cond c = c\<lparr>fc_value := int_to_string n\<rparr>" using True parseInt_integer [OF int] by (simp add: saved_cond_def n_def)
    have tr: "trim (int_to_string n) = int_to_string n" by (rule integer_text_trim [OF int_to_string_text(1)])
    then have "parseInt10 (int_to_string n) = Fin n" using parseInt_integer [of "int_to_string n"] int_to_string_text [of n] by simp
    then show ?thesis unfolding sc using True int_to_string_text(1) [of n] by (simp add: cond_refusal_def saved_cond_def tr)
  next
    case False
    then show ?thesis using assms by (simp add: saved_cond_def)
  qed
  then show "cond_refusal (saved_cond c) = None" "saved_cond (saved_cond c) = saved_cond c" by blast+
qed



text \<open>
  A rule that was just created, which is enabled and moves to the archive, matches no message.
\<close>

theorem new_rule_matches_nothing: "\<not> ruleMatches (new_rule_body name) ctx"
proof -
  have "\<not> conditionMatches (cond_json emptyCondition) ctx"
    using conditionMatches_editor [of emptyCondition "''subject''" "''contains''" ctx] lower_ops [of "''contains''"]
    by (simp add: emptyCondition_def editor_lists matchString_def norm_JStr trim_def trim_start_def trim_end_def)
  then show ?thesis by (simp add: ruleMatches_def new_rule_body_def)
qed

text \<open>
  A rule cannot be put last with the priority 0: it is saved with priority 100 and runs before every
  rule whose priority is between 0 and 100.
\<close>

theorem priority_zero_runs_first:
  assumes "edited d" and "edit_refusal d = None" and "rule_priority other = Fin p" and "0 < p" and "p < 100"
  shows "edited (set_priority ''0'' d) \<and> edit_refusal (set_priority ''0'' d) = None
    \<and> rule_le loc (edit_body (set_priority ''0'' d)) other \<and> \<not> rule_le loc other (edit_body (set_priority ''0'' d))"
proof -
  have "parseInt10 ''0'' = Fin 0" by code_simp
  then have "fd_priority (set_priority ''0'' d) = Fin 0" by (simp add: set_priority_def num_or_zero_def)
  then have pr: "rule_priority (edit_body (set_priority ''0'' d)) = Fin 100"
    by (simp add: rule_priority_def edit_body_sel priority_or_default_def num_or_zero_def)
  have "edited (set_priority ''0'' d)" by (rule edited_on [OF assms(1) edit_priority])
  moreover have f: "kept_acts (set_priority ''0'' d) = kept_acts d" "fd_name (set_priority ''0'' d) = fd_name d"
      "fd_conditions (set_priority ''0'' d) = fd_conditions d" by (simp_all add: kept_acts_def set_priority_def)
  have "edit_refusal (set_priority ''0'' d) = edit_refusal d" unfolding edit_refusal_def f ..
  ultimately show ?thesis using assms(2-5) pr by (simp add: rule_le_def)
qed

theorem priority_zero_runs_first_witness:
  "\<not> rule_le codeunit_compare (JObj [(''priority'', jint 50)]) (edit_body (set_priority ''0'' news_draft))"
proof -
  have "rule_priority (JObj [(''priority'', jint 50)]) = Fin 50" by code_simp
  then show ?thesis using priority_zero_runs_first [OF edited_news(2,3), of _ 50 codeunit_compare] by simp
qed

end
