(* ===== verification/Grouping.thy ===== *)
theory Grouping
  imports Main "HOL-Library.AList"
begin

text \<open>
  Loops that collect values in a \<open>Map\<close> under a key, which keeps its keys in the order of insertion: the
  first value of a key starts an entry, each further one is added to it. The result, in one lemma.
\<close>

definition first_occurrences :: "'a list \<Rightarrow> 'a list" where
  "first_occurrences xs = rev (remdups (rev xs))"

definition group_step :: "('a \<Rightarrow> 'k) \<Rightarrow> ('a \<Rightarrow> 'b) \<Rightarrow> ('a \<Rightarrow> 'b \<Rightarrow> 'b) \<Rightarrow> 'a \<Rightarrow> ('k \<times> 'b) list \<Rightarrow> ('k \<times> 'b) list" where
  "group_step key start add x m =
     AList.update (key x) (case map_of m (key x) of None \<Rightarrow> start x | Some b \<Rightarrow> add x b) m"

text \<open>The entry that a non-empty list of values of one key makes.\<close>

definition entry_of :: "('a \<Rightarrow> 'b) \<Rightarrow> ('a \<Rightarrow> 'b \<Rightarrow> 'b) \<Rightarrow> 'a list \<Rightarrow> 'b" where
  "entry_of start add ys = fold add (tl ys) (start (hd ys))"

lemma entry_of_snoc: "ys \<noteq> [] \<Longrightarrow> entry_of start add (ys @ [y]) = add y (entry_of start add ys)"
  by (cases ys) (simp_all add: entry_of_def)

lemma entry_of_single [simp]: "entry_of start add [y] = start y"
  by (simp add: entry_of_def)

lemma first_occurrences_snoc:
  "first_occurrences (xs @ [x]) = (if x \<in> set xs then first_occurrences xs else first_occurrences xs @ [x])"
  by (simp add: first_occurrences_def)

lemma set_first_occurrences [simp]: "set (first_occurrences xs) = set xs"
  by (simp add: first_occurrences_def)

lemma distinct_first_occurrences [simp]: "distinct (first_occurrences xs)"
  by (simp add: first_occurrences_def)

lemma first_occurrences_Nil [simp]: "first_occurrences [] = []"
  by (simp add: first_occurrences_def)

lemma update_keyed_map:
  "distinct ts \<Longrightarrow> AList.update t b (map (\<lambda>t. (t, f t)) ts) =
     (if t \<in> set ts then map (\<lambda>x. (x, if x = t then b else f x)) ts else map (\<lambda>t. (t, f t)) ts @ [(t, b)])"
  by (induction ts) (auto simp: map_idI)

theorem fold_group_step:
  "fold (group_step key start add) xs [] =
     map (\<lambda>i. (i, entry_of start add (filter (\<lambda>x. key x = i) xs))) (first_occurrences (map key xs))"
proof (induction xs rule: rev_induct)
  case (snoc x xs)
  let ?ks = "first_occurrences (map key xs)" and ?e = "\<lambda>xs i. entry_of start add (filter (\<lambda>x. key x = i) xs)"
  have look: "map_of (map (\<lambda>i. (i, ?e xs i)) ?ks) (key x) = (if key x \<in> key ` set xs then Some (?e xs (key x)) else None)"
    by (simp add: map_of_map_restrict restrict_map_def)
  have step: "fold (group_step key start add) (xs @ [x]) [] =
      AList.update (key x) (if key x \<in> key ` set xs then add x (?e xs (key x)) else start x) (map (\<lambda>i. (i, ?e xs i)) ?ks)"
    using look by (simp add: snoc.IH) (simp add: group_step_def)
  have other: "i \<noteq> key x \<Longrightarrow> ?e (xs @ [x]) i = ?e xs i" for i by simp
  show ?case
  proof (cases "key x \<in> key ` set xs")
    case True
    then have "filter (\<lambda>y. key y = key x) xs \<noteq> []" by (auto simp: filter_empty_conv)
    then have same: "?e (xs @ [x]) (key x) = add x (?e xs (key x))" by (simp add: entry_of_snoc)
    have "fold (group_step key start add) (xs @ [x]) [] = map (\<lambda>i. (i, if i = key x then ?e (xs @ [x]) (key x) else ?e xs i)) ?ks"
      using True unfolding step same by (simp add: update_keyed_map)
    also have "\<dots> = map (\<lambda>i. (i, ?e (xs @ [x]) i)) ?ks" by (rule map_cong [OF refl]) (use other in auto)
    finally show ?thesis using True by (simp only: first_occurrences_snoc map_append list.map set_map if_True)
  next
    case False
    then have "filter (\<lambda>y. key y = key x) xs = []" by (intro filter_False) (metis imageI)
    then have same: "?e (xs @ [x]) (key x) = start x" by simp
    have "fold (group_step key start add) (xs @ [x]) [] = map (\<lambda>i. (i, ?e xs i)) ?ks @ [(key x, ?e (xs @ [x]) (key x))]"
      using False unfolding step same by (simp add: update_keyed_map)
    also have "map (\<lambda>i. (i, ?e xs i)) ?ks = map (\<lambda>i. (i, ?e (xs @ [x]) i)) ?ks"
    proof (rule map_cong [OF refl])
      fix i assume "i \<in> set ?ks"
      then have "i \<in> key ` set xs" by simp
      then have "i \<noteq> key x" using False by blast
      then show "(i, ?e xs i) = (i, ?e (xs @ [x]) i)" by (simp add: eq_commute)
    qed
    finally show ?thesis using False by (simp only: first_occurrences_snoc map_append list.map set_map if_False)
  qed
qed simp

end
