(* ===== verification/Domain_Setup.thy ===== *)
theory Domain_Setup
  imports Mail_Actions Stable_Sort Grouping Vault_Mime
begin

text \<open>
  The custom domains of \<^verbatim>\<open>static/mail/mail-settings.jsx\<close>: the rows of the API in normal form, the DNS records
  and checks shown for a domain, the check of a domain that is entered, and the page with its requests.
\<close>

section \<open>Domains in normal form\<close>

text \<open>\<open>a ?? b\<close>, and \<open>a || b\<close> on strings.\<close>

definition js_coalesce :: "jsval \<Rightarrow> jsval \<Rightarrow> jsval" where
  "js_coalesce a b = (if nullish a then b else a)"

definition str_or :: "string \<Rightarrow> string \<Rightarrow> string" where
  "str_or a b = (if a \<noteq> [] then a else b)"

record dns_entry =
  de_type :: string
  de_host :: string
  de_value :: string
  de_ttl :: string
  de_extra :: string
  de_hint :: string

record dns_config =
  dc_verificationTxt :: dns_entry
  dc_mx :: dns_entry
  dc_spf :: dns_entry
  dc_dkim :: dns_entry
  dc_dmarc :: dns_entry

record custom_domain =
  cd_domain :: string
  cd_status :: string
  cd_mxVerified :: bool
  cd_spfVerified :: bool
  cd_dkimVerified :: bool
  cd_dmarcVerified :: bool
  cd_verificationTxtHost :: string
  cd_verificationTxtValue :: string
  cd_dnsConfig :: dns_config
  cd_catchallIdentityFP :: string
  cd_createdAt :: jsval

definition normalizeCustomDomainDNSConfigEntry :: "jsval \<Rightarrow> string \<Rightarrow> dns_entry" where
  "normalizeCustomDomainDNSConfigEntry raw fallbackType =
     \<lparr>de_type = str_or (toUpperCase (trim (to_string (js_or (getp raw ''type'') (JStr (str_or fallbackType ''TXT'')))))) ''TXT'',
      de_host = trim (str_or_empty (getp raw ''host'')), de_value = trim (str_or_empty (getp raw ''value'')),
      de_ttl = str_or (trim (to_string (js_or (getp raw ''ttl'') (JStr ''Auto'')))) ''Auto'',
      de_extra = trim (str_or_empty (getp raw ''extra'')), de_hint = trim (str_or_empty (getp raw ''hint''))\<rparr>"

definition normalizeCustomDomainDNSConfig :: "jsval \<Rightarrow> dns_config" where
  "normalizeCustomDomainDNSConfig raw =
     (let source = js_or (getp raw ''dns_config'') (js_or (getp raw ''dnsConfig'') (JObj [])) in
      \<lparr>dc_verificationTxt = normalizeCustomDomainDNSConfigEntry (js_or (getp source ''verification_txt'') (getp source ''verificationTxt'')) ''TXT'',
       dc_mx = normalizeCustomDomainDNSConfigEntry (getp source ''mx'') ''MX'',
       dc_spf = normalizeCustomDomainDNSConfigEntry (getp source ''spf'') ''TXT'',
       dc_dkim = normalizeCustomDomainDNSConfigEntry (getp source ''dkim'') ''TXT'',
       dc_dmarc = normalizeCustomDomainDNSConfigEntry (getp source ''dmarc'') ''TXT''\<rparr>)"

definition normalizeCustomDomainRecord :: "jsval \<Rightarrow> custom_domain" where
  "normalizeCustomDomainRecord raw =
     (let flag = (\<lambda>a b. truthy (js_coalesce (getp raw a) (getp raw b)));
          txt = (\<lambda>a b. trim (to_string (js_coalesce (getp raw a) (js_coalesce (getp raw b) (JStr [])))))
      in
      \<lparr>cd_domain = toLowerCase (trim (str_or_empty (getp raw ''domain''))),
       cd_status = str_or (toLowerCase (trim (to_string (js_or (getp raw ''status'') (JStr ''pending''))))) ''pending'',
       cd_mxVerified = flag ''mx_verified'' ''mxVerified'', cd_spfVerified = flag ''spf_verified'' ''spfVerified'',
       cd_dkimVerified = flag ''dkim_verified'' ''dkimVerified'', cd_dmarcVerified = flag ''dmarc_verified'' ''dmarcVerified'',
       cd_verificationTxtHost = txt ''verification_txt_host'' ''verificationTxtHost'',
       cd_verificationTxtValue = txt ''verification_txt_value'' ''verificationTxtValue'',
       cd_dnsConfig = normalizeCustomDomainDNSConfig raw,
       cd_catchallIdentityFP = toUpperCase (txt ''catchall_identity_fp'' ''catchallIdentityFp''),
       cd_createdAt = js_or (getp raw ''created_at'') (js_or (getp raw ''createdAt'') (JStr []))\<rparr>)"

definition customDomainStatusVariant :: "string \<Rightarrow> string" where
  "customDomainStatusVariant status =
     (let normalized = toLowerCase (trim status) in
      if normalized = ''active'' \<or> normalized = ''verified'' then ''success'' else if normalized = ''pending'' then ''warning'' else ''error'')"

definition customDomainStatusLabel :: "string \<Rightarrow> string" where
  "customDomainStatusLabel status =
     (let normalized = toLowerCase (trim status) in if normalized = ''active'' then ''ready'' else str_or normalized ''pending'')"

definition customDomainIsReady :: "custom_domain \<Rightarrow> bool" where
  "customDomainIsReady domain =
     (let status = toLowerCase (trim (cd_status domain)) in status = ''active'' \<or> status = ''verified'')"

section \<open>DNS records\<close>

text \<open>\<open>.replace(/\.$/, '')\<close> and \<open>.replace(/\.+$/, '')\<close>.\<close>

definition drop_dot :: "string \<Rightarrow> string" where
  "drop_dot s = (if endsWith s ''.'' then butlast s else s)"

definition drop_dots :: "string \<Rightarrow> string" where
  "drop_dots s = rev (dropWhile (\<lambda>c. c = CHR ''.'') (rev s))"

definition relativeDNSName :: "string \<Rightarrow> string \<Rightarrow> string" where
  "relativeDNSName name domain =
     (let fqdn = drop_dot (toLowerCase (trim name)); base = drop_dot (toLowerCase (trim domain)); suf = CHR ''.'' # base in
      if fqdn = [] \<or> base = [] then fqdn
      else if fqdn = base then ''@''
      else if endsWith fqdn suf then str_or (slice 0 (- int (length suf)) fqdn) ''@''
      else fqdn)"

definition uniqueDNSValues :: "jsval \<Rightarrow> string list" where
  "uniqueDNSValues values = first_occurrences (filter (\<lambda>x. x \<noteq> []) (map (\<lambda>x. trim (str_or_empty x)) (js_elems values)))"

record dns_record =
  dr_id :: string
  dr_label :: string
  dr_ok :: bool
  dr_type :: string
  dr_hostLabel :: string
  dr_fqdn :: string
  dr_value :: string
  dr_ttl :: string
  dr_extra :: string
  dr_statusText :: string
  dr_setupNote :: string
  dr_detectedValues :: "string list"

definition checkFor :: "jsval \<Rightarrow> string \<Rightarrow> jsval" where
  "checkFor verifyResult key = js_or (getp (getp verifyResult ''checks'') key) JNull"

definition pushRecord :: "string \<Rightarrow> string \<Rightarrow> string \<Rightarrow> dns_entry \<Rightarrow> jsval \<Rightarrow> bool \<Rightarrow> dns_record" where
  "pushRecord domainName i label cfg check ok =
     (let fqdn = trim (de_host cfg) in
      \<lparr>dr_id = i, dr_label = label, dr_ok = ok,
       dr_type = toUpperCase (trim (str_or (de_type cfg) (if i = ''mx'' then ''MX'' else ''TXT''))),
       dr_hostLabel = str_or (relativeDNSName fqdn domainName) ''@'', dr_fqdn = fqdn, dr_value = trim (de_value cfg),
       dr_ttl = str_or (trim (str_or (de_ttl cfg) ''Auto'')) ''Auto'', dr_extra = trim (de_extra cfg),
       dr_statusText =
         trim (to_string (js_or (getp check ''note'') (js_or (getp check ''error'')
                 (js_or (JStr (if truthy (getp check ''ok'') then ''Verified.'' else [])) (JStr (de_hint cfg)))))),
       dr_setupNote = trim (de_hint cfg), dr_detectedValues = uniqueDNSValues (getp check ''values'')\<rparr>)"

definition ownership_entry :: "custom_domain \<Rightarrow> dns_entry" where
  "ownership_entry domain =
     (let txt = dc_verificationTxt (cd_dnsConfig domain) in
      \<lparr>de_type = ''TXT'', de_host = str_or (cd_verificationTxtHost domain) (de_host txt),
       de_value = str_or (cd_verificationTxtValue domain) (de_value txt), de_ttl = str_or (de_ttl txt) ''Auto'', de_extra = [],
       de_hint = ''Publish this exact TXT record so Elvish can verify you control the domain.''\<rparr>)"

definition buildCustomDomainDNSRecords :: "custom_domain \<Rightarrow> jsval \<Rightarrow> dns_record list" where
  "buildCustomDomainDNSRecords domain verifyResult =
     (let name = cd_domain domain; cfg = cd_dnsConfig domain; check = checkFor verifyResult;
          push = (\<lambda>i label e flag. pushRecord name i label e (check i) (flag \<or> truthy (getp (check i) ''ok'')))
      in
      if name = [] then []
      else
        [pushRecord name ''ownership'' ''Ownership TXT'' (ownership_entry domain) (check ''ownership'')
           (truthy (getp verifyResult ''ownership_verified'')),
         push ''mx'' ''MX'' (dc_mx cfg) (cd_mxVerified domain), push ''spf'' ''SPF'' (dc_spf cfg) (cd_spfVerified domain),
         push ''dkim'' ''DKIM'' (dc_dkim cfg) (cd_dkimVerified domain), push ''dmarc'' ''DMARC'' (dc_dmarc cfg) (cd_dmarcVerified domain)])"

section \<open>Checks\<close>

definition label_char :: "char \<Rightarrow> bool" where
  "label_char c = (97 \<le> code_unit c \<and> code_unit c \<le> 122 \<or> is_digit c \<or> c = CHR ''-'')"

definition bad_label :: "string \<Rightarrow> bool" where
  "bad_label part = (part = [] \<or> length part > 63 \<or> startsWith part ''-'' \<or> endsWith part ''-'' \<or> \<not> list_all label_char part)"

definition entered_domain :: "string \<Rightarrow> string" where
  "entered_domain raw = drop_dots (toLowerCase (trim raw))"

definition validateCustomDomainInput :: "string \<Rightarrow> string" where
  "validateCustomDomainInput raw =
     (let domain = entered_domain raw in
      if domain = [] then ''Domain is required''
      else if length domain > 253 \<or> \<not> str_includes domain ''.'' then ''Enter a valid DNS domain''
      else if list_ex bad_label (split_str ''.'' domain) then ''Enter a valid DNS domain''
      else [])"

record check_state =
  cs_key :: string
  cs_label :: string
  cs_ok :: bool
  cs_note :: jsval

definition verified_flag :: "custom_domain \<Rightarrow> string \<Rightarrow> bool" where
  "verified_flag d key =
     (if key = ''mx'' then cd_mxVerified d else if key = ''spf'' then cd_spfVerified d
      else if key = ''dkim'' then cd_dkimVerified d else if key = ''dmarc'' then cd_dmarcVerified d else False)"

definition domainCheckState :: "custom_domain \<Rightarrow> jsval \<Rightarrow> string \<Rightarrow> string \<Rightarrow> check_state" where
  "domainCheckState domain verifyResult key label =
     (let entry = getp (js_or (getp verifyResult ''checks'') (JObj [])) key in
      if truthy entry then
        (let values = (if js_elems (getp entry ''values'') \<noteq> []
                       then join '', '' (map (\<lambda>x. if nullish x then [] else to_string x) (js_elems (getp entry ''values''))) else []) in
         \<lparr>cs_key = key, cs_label = label, cs_ok = truthy (getp entry ''ok''),
          cs_note = js_or (getp entry ''note'') (js_or (getp entry ''error'') (js_or (JStr values) (js_or (getp entry ''expected'') (JStr []))))\<rparr>)
      else if key = ''ownership'' then
        (let owned = truthy (getp verifyResult ''ownership_verified'');
             setup = (if cd_verificationTxtHost domain \<noteq> [] \<and> cd_verificationTxtValue domain \<noteq> []
                      then cd_verificationTxtHost domain @ '' -> '' @ cd_verificationTxtValue domain
                      else ''Add the verification TXT record, then run Verify DNS.'')
         in \<lparr>cs_key = key, cs_label = label, cs_ok = owned, cs_note = JStr (if owned then ''Ownership verified.'' else setup)\<rparr>)
      else
        \<lparr>cs_key = key, cs_label = label, cs_ok = verified_flag domain key,
         cs_note = JStr (if verified_flag domain key then ''Verified.'' else ''Run Verify DNS to test this record.'')\<rparr>)"

section \<open>The page\<close>

record catchall_target =
  ct_email :: string
  ct_fingerprint :: string
  ct_isDefault :: bool

record domains_page =
  dp_domains :: "custom_domain list"
  dp_identities :: "catchall_target list"
  dp_loading :: bool
  dp_error :: string
  dp_toast :: "(string \<times> bool) option"
  dp_showAddModal :: bool
  dp_paid :: bool
  dp_newDomain :: string
  dp_domainFormError :: string
  dp_busyAdd :: bool
  dp_detailDomainName :: string
  dp_detailError :: string
  dp_verifyLoading :: bool
  dp_verifyResult :: jsval
  dp_catchallDraft :: string
  dp_catchallLoading :: bool
  dp_confirmDelete :: "string option"
  dp_deleteLoading :: bool

definition listed_domains :: "jsval \<Rightarrow> custom_domain list result" where
  "listed_domains r =
     bindR (getR r ''domains'') (\<lambda>ds.
     let raw = js_or ds (JArr []) in if isArray raw then Inr (map normalizeCustomDomainRecord (js_elems raw)) else Inl TypeError)"

definition catchall_targets :: "jsval \<Rightarrow> catchall_target list result" where
  "catchall_targets r =
     bindR (getR r ''identities'') (\<lambda>is'.
     let raw = js_or is' (JArr []) in
     if \<not> isArray raw \<or> list_ex nullish (js_elems raw) then Inl TypeError
     else Inr (map (\<lambda>x. \<lparr>ct_email = to_string (getp x ''email''), ct_fingerprint = toUpperCase (trim (str_or_empty (getp x ''fingerprint''))),
                         ct_isDefault = truthy (getp x ''is_default'')\<rparr>)
               (filter (\<lambda>x. truthy (getp x ''is_active'')) (js_elems raw))))"

text \<open>What \<open>load\<close> makes of the answers: the domains first, then the identities, whose request may have failed.\<close>

definition domains_answered :: "jsval result \<Rightarrow> jsval result \<Rightarrow> domains_page \<Rightarrow> custom_domain list \<times> domains_page" where
  "domains_answered dr ir p =
     (let failed = (\<lambda>e q. ([], q\<lparr>dp_error := err_text e ''Failed to load domains'', dp_loading := False\<rparr>)) in
      case bindR dr listed_domains of
        Inl e \<Rightarrow> failed e p
      | Inr ds \<Rightarrow>
          (let q = p\<lparr>dp_domains := ds\<rparr> in
           case ir of
             Inl _ \<Rightarrow> (ds, q\<lparr>dp_identities := [], dp_loading := False\<rparr>)
           | Inr r \<Rightarrow> (case catchall_targets r of Inl e \<Rightarrow> failed e q | Inr ts \<Rightarrow> (ds, q\<lparr>dp_identities := ts, dp_loading := False\<rparr>))))"

definition load_domains :: "'s server \<Rightarrow> domains_page \<times> 's \<Rightarrow> custom_domain list \<times> domains_page \<times> 's" where
  "load_domains srv st =
     (let p = (fst st)\<lparr>dp_loading := True, dp_error := []\<rparr> in
      case bindI (getBillingStatus srv) (\<lambda>b. liftI (getR b ''paid'')) (snd st) of
        (Inl e, s) \<Rightarrow> ([], p\<lparr>dp_error := err_text e ''Failed to load domains'', dp_loading := False\<rparr>, s)
      | (Inr paid, s) \<Rightarrow>
          (let p1 = p\<lparr>dp_paid := truthy paid\<rparr> in
           if \<not> truthy paid then ([], p1\<lparr>dp_domains := [], dp_identities := [], dp_loading := False\<rparr>, s)
           else
             (case listCustomDomains srv s of
                (dr, s1) \<Rightarrow>
                  (case listIdentities srv s1 of
                     (ir, s2) \<Rightarrow> (case domains_answered dr ir p1 of (ds, q) \<Rightarrow> (ds, q, s2))))))"

definition find_domain :: "string \<Rightarrow> custom_domain list \<Rightarrow> custom_domain option" where
  "find_domain name ds = List.find (\<lambda>d. cd_domain d = name) ds"

definition details_cleared :: "domains_page \<Rightarrow> domains_page" where
  "details_cleared p = p\<lparr>dp_detailDomainName := [], dp_verifyResult := JNull, dp_detailError := [], dp_catchallDraft := []\<rparr>"

definition detail_effect :: "domains_page \<Rightarrow> domains_page" where
  "detail_effect p =
     (if dp_detailDomainName p = [] \<or> find_domain (dp_detailDomainName p) (dp_domains p) \<noteq> None then p else details_cleared p)"

definition selectedDomain :: "domains_page \<Rightarrow> custom_domain option" where
  "selectedDomain p = find_domain (dp_detailDomainName p) (dp_domains p)"

definition availableCatchallTargets :: "(string \<Rightarrow> string \<Rightarrow> int) \<Rightarrow> domains_page \<Rightarrow> catchall_target list" where
  "availableCatchallTargets loc p =
     sort_by (\<lambda>a b. if ct_isDefault a \<noteq> ct_isDefault b then ct_isDefault a else loc (ct_email a) (ct_email b) \<le> 0) (dp_identities p)"

definition openDomainDetails :: "custom_domain option \<Rightarrow> jsval \<Rightarrow> domains_page \<Rightarrow> domains_page" where
  "openDomainDetails current nextVerifyResult p =
     (case current of
        None \<Rightarrow> p
      | Some d \<Rightarrow>
          if cd_domain d = [] then p
          else p\<lparr>dp_detailDomainName := cd_domain d, dp_verifyResult := nextVerifyResult, dp_detailError := [],
                 dp_catchallDraft := cd_catchallIdentityFP d\<rparr>)"

definition closeDomainDetails :: "domains_page \<Rightarrow> domains_page" where
  "closeDomainDetails p = (if dp_verifyLoading p \<or> dp_catchallLoading p then p else details_cleared p)"

definition added_domain :: "string \<Rightarrow> jsval \<Rightarrow> custom_domain" where
  "added_domain d result =
     (let cfg = getp result ''dns_config''; txt = getp cfg ''verification_txt'' in
      normalizeCustomDomainRecord (JObj
        [(''domain'', js_or (getp result ''domain'') (JStr d)), (''status'', JStr ''pending''), (''dns_config'', cfg),
         (''verification_txt_host'', getp txt ''host''), (''verification_txt_value'', getp txt ''value'')]))"

definition domain_failed :: "exn \<Rightarrow> string \<Rightarrow> domains_page \<Rightarrow> domains_page" where
  "domain_failed e deflt p =
     p\<lparr>dp_detailError := err_text e deflt, dp_error := err_text e deflt, dp_toast := Some (err_text e deflt, False)\<rparr>"

definition handleAdd :: "'s server \<Rightarrow> domains_page \<times> 's \<Rightarrow> domains_page \<times> 's" where
  "handleAdd srv st =
     (let d = entered_domain (dp_newDomain (fst st)); p = (fst st)\<lparr>dp_domainFormError := validateCustomDomainInput d\<rparr> in
      if validateCustomDomainInput d \<noteq> [] then (p, snd st)
      else
        (let p1 = p\<lparr>dp_busyAdd := True, dp_error := []\<rparr>;
             failed = (\<lambda>e q. q\<lparr>dp_error := err_text e ''Failed to add domain'', dp_busyAdd := False\<rparr>)
         in
         case addCustomDomain srv (JStr d) (snd st) of
           (Inl e, s) \<Rightarrow> (failed e p1, s)
         | (Inr result, s) \<Rightarrow>
             (case load_domains srv (p1, s) of
                (refreshed, q, s') \<Rightarrow>
                  if nullish result then (failed TypeError q, s')
                  else
                    (let fallbackDomain = added_domain d result;
                         shown = (case find_domain (cd_domain fallbackDomain) refreshed of Some x \<Rightarrow> x | None \<Rightarrow> fallbackDomain)
                     in ((openDomainDetails (Some shown) JNull (q\<lparr>dp_newDomain := [], dp_showAddModal := False\<rparr>))
                           \<lparr>dp_toast := Some (''Added '' @ cd_domain fallbackDomain @ ''. Publish the DNS records, then verify DNS.'', True),
                            dp_busyAdd := False\<rparr>, s')))))"

text \<open>\<open>openDomainDetails\<close> looks the name up in the domains of the render in which the button was pressed.\<close>

definition verifySelectedDomain :: "'s server \<Rightarrow> domains_page \<times> 's \<Rightarrow> domains_page \<times> 's" where
  "verifySelectedDomain srv st =
     (let p = fst st in
      case selectedDomain p of
        None \<Rightarrow> st
      | Some sel \<Rightarrow>
          if cd_domain sel = [] then st
          else
            (let p1 = p\<lparr>dp_verifyLoading := True, dp_detailError := [], dp_error := []\<rparr>; name = cd_domain sel in
             case verifyCustomDomain srv name (snd st) of
               (Inl e, s) \<Rightarrow> ((domain_failed e ''Verify failed'' p1)\<lparr>dp_verifyLoading := False\<rparr>, s)
             | (Inr result, s) \<Rightarrow>
                 (case load_domains srv (p1\<lparr>dp_verifyResult := result\<rparr>, s) of
                    (refreshed, q, s') \<Rightarrow>
                      (let q1 = openDomainDetails (find_domain name (dp_domains p)) result q;
                           latest = (case find_domain name refreshed of Some d \<Rightarrow> d | None \<Rightarrow> sel)
                       in
                       if nullish result then ((domain_failed TypeError ''Verify failed'' q1)\<lparr>dp_verifyLoading := False\<rparr>, s')
                       else if truthy (getp result ''ready'') \<or> customDomainIsReady latest
                       then (q1\<lparr>dp_toast := Some (name @ '' is ready to receive mail.'', True), dp_verifyLoading := False\<rparr>, s')
                       else (q1\<lparr>dp_toast := Some (''DNS check finished for '' @ name @ ''. Review the missing records.'', False),
                                dp_verifyLoading := False\<rparr>, s')))))"

definition saveCatchall :: "'s server \<Rightarrow> domains_page \<times> 's \<Rightarrow> domains_page \<times> 's" where
  "saveCatchall srv st =
     (let p = fst st in
      case selectedDomain p of
        None \<Rightarrow> st
      | Some sel \<Rightarrow>
          if cd_domain sel = [] then st
          else
            (let p1 = p\<lparr>dp_catchallLoading := True, dp_detailError := [], dp_error := []\<rparr>; name = cd_domain sel; draft = dp_catchallDraft p in
             case setDomainCatchall srv name (if draft \<noteq> [] then JStr draft else JNull) (snd st) of
               (Inl e, s) \<Rightarrow> ((domain_failed e ''Could not save catch-all'' p1)\<lparr>dp_catchallLoading := False\<rparr>, s)
             | (Inr _, s) \<Rightarrow>
                 (case load_domains srv (p1, s) of
                    (_, q, s') \<Rightarrow>
                      (q\<lparr>dp_toast := Some ((if draft \<noteq> [] then ''Catch-all saved for '' else ''Catch-all cleared for '') @ name @ ''.'', True),
                         dp_catchallLoading := False\<rparr>, s'))))"

definition executeRemoveDomain :: "'s server \<Rightarrow> domains_page \<times> 's \<Rightarrow> domains_page \<times> 's" where
  "executeRemoveDomain srv st =
     (let p = fst st; name = (case dp_confirmDelete p of Some n \<Rightarrow> n | None \<Rightarrow> ''null''); p1 = p\<lparr>dp_deleteLoading := True, dp_error := []\<rparr> in
      case deleteCustomDomain srv name (snd st) of
        (Inl e, s) \<Rightarrow>
          (p1\<lparr>dp_error := err_text e ''Delete failed'', dp_toast := Some (err_text e ''Delete failed'', False), dp_deleteLoading := False\<rparr>, s)
      | (Inr _, s) \<Rightarrow>
          (case load_domains srv (p1, s) of
             (_, q, s') \<Rightarrow>
               (let q1 = (if dp_detailDomainName p = name \<and> \<not> dp_verifyLoading p \<and> \<not> dp_catchallLoading p then details_cleared q else q)
                in (q1\<lparr>dp_toast := Some (''Removed '' @ name @ ''.'', True), dp_confirmDelete := None, dp_deleteLoading := False\<rparr>, s'))))"

section \<open>The domains that are accepted\<close>

text \<open>A DNS domain in lower case: two labels or more, joined by dots, within the bounds of DNS.\<close>

definition dns_label :: "string \<Rightarrow> bool" where
  "dns_label l = (1 \<le> length l \<and> length l \<le> 63 \<and> (\<forall>c \<in> set l. label_char c) \<and> hd l \<noteq> CHR ''-'' \<and> last l \<noteq> CHR ''-'')"

definition dns_domain :: "string \<Rightarrow> bool" where
  "dns_domain d = (\<exists>ls. 2 \<le> length ls \<and> (\<forall>l \<in> set ls. dns_label l) \<and> d = join ''.'' ls \<and> length d \<le> 253)"

lemma label_no_dot: "dns_label l \<Longrightarrow> CHR ''.'' \<notin> set l"
  by (auto simp: dns_label_def label_char_def is_digit_def code_unit_def)

lemma starts_dash: "startsWith l ''-'' \<longleftrightarrow> l \<noteq> [] \<and> hd l = CHR ''-''"
  by (cases l) (auto simp: startsWith_def)

lemma ends_dash: "endsWith l ''-'' \<longleftrightarrow> l \<noteq> [] \<and> last l = CHR ''-''"
  by (cases l rule: rev_cases) (auto simp: endsWith_def)

lemma bad_label_iff: "bad_label l \<longleftrightarrow> \<not> dns_label l"
  by (cases l) (auto simp: bad_label_def dns_label_def starts_dash ends_dash list_all_iff)

lemma find_dot: "find_sub ''.'' (l @ CHR ''.'' # r) = Some (length l)" if "CHR ''.'' \<notin> set l"
  using that by (induction l) auto

lemma no_dot: "CHR ''.'' \<notin> set l \<Longrightarrow> find_sub ''.'' l = None"
  by (induction l) auto

lemma split_join_labels:
  "ls \<noteq> [] \<Longrightarrow> \<forall>l \<in> set ls. CHR ''.'' \<notin> set l \<Longrightarrow> split_str ''.'' (join ''.'' ls) = ls"
proof (induction ls rule: induct_list012)
  case (2 l)
  then show ?case by (simp add: split_str.simps no_dot)
next
  case (3 l m ls)
  then have "find_sub ''.'' (join ''.'' (l # m # ls)) = Some (length l)" using find_dot by simp
  then show ?case using 3 by (subst split_str.simps) simp
qed simp

lemma split_dots: "str_includes d ''.'' \<longleftrightarrow> 2 \<le> length (split_str ''.'' d)"
proof -
  have "length (split_str ''.'' x) \<ge> 1" for x by (subst split_str.simps) (simp split: option.split)
  then show ?thesis
    by (subst split_str.simps) (auto simp: str_includes_def indexOf_def split: option.split)
qed

text \<open>
  C35. The form for a new domain accepts exactly the DNS domains, up to case, surrounding white space and dots at the end.
\<close>

theorem domain_input_exact: "validateCustomDomainInput raw = [] \<longleftrightarrow> dns_domain (entered_domain raw)"
proof -
  let ?d = "entered_domain raw"
  have "(?d \<noteq> [] \<and> length ?d \<le> 253 \<and> str_includes ?d ''.'' \<and> (\<forall>l \<in> set (split_str ''.'' ?d). dns_label l)) \<longleftrightarrow> dns_domain ?d"
  proof
    assume *: "?d \<noteq> [] \<and> length ?d \<le> 253 \<and> str_includes ?d ''.'' \<and> (\<forall>l \<in> set (split_str ''.'' ?d). dns_label l)"
    then show "dns_domain ?d"
      unfolding dns_domain_def split_dots
      by (intro exI [of _ "split_str ''.'' ?d"]) (simp add: join_split_str)
  next
    assume "dns_domain ?d"
    then obtain ls where ls: "2 \<le> length ls" "\<forall>l \<in> set ls. dns_label l" "?d = join ''.'' ls" "length ?d \<le> 253" by (auto simp: dns_domain_def)
    then have sp: "split_str ''.'' ?d = ls" using label_no_dot by (auto intro!: split_join_labels)
    moreover have "?d \<noteq> []" using sp ls(1) by (auto simp: split_str.simps)
    ultimately show "?d \<noteq> [] \<and> length ?d \<le> 253 \<and> str_includes ?d ''.'' \<and> (\<forall>l \<in> set (split_str ''.'' ?d). dns_label l)"
      using ls by (simp add: split_dots)
  qed
  then show ?thesis by (auto simp: validateCustomDomainInput_def Let_def list_ex_iff bad_label_iff not_less)
qed

section \<open>Host names relative to the domain\<close>

definition expand_name :: "string \<Rightarrow> string \<Rightarrow> string" where
  "expand_name r base = (if r = ''@'' then base else r @ CHR ''.'' # base)"

text \<open>
  The host that the page shows for a DNS record names, in the zone of the domain, the host that the server asked for.
\<close>

theorem relative_name_expands:
  assumes "base = drop_dot (toLowerCase (trim domain))" and "base \<noteq> []"
    and "fqdn = drop_dot (toLowerCase (trim name))" and "fqdn = base \<or> fqdn = l @ CHR ''.'' # base" and "l \<notin> {[], ''@''}"
  shows "expand_name (relativeDNSName name domain) base = fqdn"
proof (cases "fqdn = base")
  case True
  then show ?thesis using assms by (simp add: relativeDNSName_def expand_name_def Let_def)
next
  case False
  then have f: "fqdn = l @ CHR ''.'' # base" using assms(4) by blast
  have "slice 0 (- int (length (CHR ''.'' # base))) fqdn = l" by (simp add: slice_def slice_pos_def f)
  moreover have "endsWith fqdn (CHR ''.'' # base)" by (simp add: endsWith_def f suffix_def)
  moreover have "fqdn \<noteq> []" by (simp add: f)
  ultimately have "relativeDNSName name domain = l"
    using False assms(2,5) unfolding relativeDNSName_def Let_def assms(1,3) [symmetric] by (simp add: str_or_def)
  then show ?thesis using assms(5) by (simp add: expand_name_def f)
qed

theorem relative_name_expands_witness:
  "expand_name (relativeDNSName ''_dmarc.Example.org.'' ''example.org'') ''example.org'' = ''_dmarc.example.org''"
  by (rule relative_name_expands [of _ _ _ _ "''_dmarc''"]; code_simp)

end
