(* ===== verification/Webauthn.thy ===== *)
theory Webauthn
  imports Srp
begin

text \<open>
  \<^verbatim>\<open>static/auth/webauthn.js\<close>: base64 for URLs, the options that are handed to the authenticator, and what
  is sent back of its answer. The authenticator itself (\<open>navigator.credentials\<close>) is a parameter.
\<close>

section \<open>Codec\<close>

definition url_char :: "char \<Rightarrow> char" where
  "url_char c = (if c = CHR ''+'' then CHR ''-'' else if c = CHR ''/'' then CHR ''_'' else c)"

definition unurl_char :: "char \<Rightarrow> char" where
  "unurl_char c = (if c = CHR ''-'' then CHR ''+'' else if c = CHR ''_'' then CHR ''/'' else c)"

definition b64urlToBytes :: "jsval \<Rightarrow> bytes result" where
  "b64urlToBytes v =
     (let normalized = map unurl_char (str_or_empty v);
          padded = normalized @ replicate ((4 - length normalized mod 4) mod 4) (CHR ''='')
      in bindR (atob padded) (\<lambda>bin. Inr (map byte_of_char bin)))"

definition bytesToB64url :: "bytes \<Rightarrow> string" where
  "bytesToB64url bytes = rev (dropWhile (\<lambda>c. c = CHR ''='') (rev (map url_char (btoa (map char_of_byte bytes)))))"

section \<open>Options\<close>

text \<open>
  The options after normalisation: the challenge as bytes, the credentials as objects with their id as bytes;
  \<open>None\<close> when there is no \<open>publicKey\<close>.
\<close>

record key_options =
  ko_publicKey :: jsval
  ko_challenge :: bytes
  ko_userId :: "bytes option"
  ko_credentials :: "(jsval \<times> bytes) list option"

fun with_ids :: "jsval list \<Rightarrow> (jsval \<times> bytes) list result" where
  "with_ids [] = Inr []"
| "with_ids (cred # creds) =
     bindR (bindR (getR cred ''id'') b64urlToBytes) (\<lambda>i. bindR (with_ids creds) (\<lambda>rest. Inr ((cred, i) # rest)))"

definition credential_list :: "jsval \<Rightarrow> (jsval \<times> bytes) list option result" where
  "credential_list v = (if isArray v then bindR (with_ids (js_elems v)) (\<lambda>cs. Inr (Some cs)) else Inr None)"

definition normalizeCreationOptions :: "jsval \<Rightarrow> key_options option result" where
  "normalizeCreationOptions options =
     (let pk = getp options ''publicKey''; user = getp pk ''user'' in
      if \<not> truthy options \<or> \<not> truthy pk then Inr None
      else
        bindR (b64urlToBytes (getp pk ''challenge'')) (\<lambda>challenge.
        bindR (if truthy user \<and> truthy (getp user ''id'') then bindR (b64urlToBytes (getp user ''id'')) (\<lambda>i. Inr (Some i)) else Inr None) (\<lambda>userId.
        bindR (credential_list (getp pk ''excludeCredentials'')) (\<lambda>creds.
        Inr (Some \<lparr>ko_publicKey = pk, ko_challenge = challenge, ko_userId = userId, ko_credentials = creds\<rparr>)))))"

definition normalizeRequestOptions :: "jsval \<Rightarrow> key_options option result" where
  "normalizeRequestOptions options =
     (let pk = getp options ''publicKey'' in
      if \<not> truthy options \<or> \<not> truthy pk then Inr None
      else
        bindR (b64urlToBytes (getp pk ''challenge'')) (\<lambda>challenge.
        bindR (credential_list (getp pk ''allowCredentials'')) (\<lambda>creds.
        Inr (Some \<lparr>ko_publicKey = pk, ko_challenge = challenge, ko_userId = None, ko_credentials = creds\<rparr>))))"

section \<open>Answers\<close>

record credential =
  cd_id :: jsval
  cd_rawId :: bytes
  cd_type :: jsval
  cd_authenticatorAttachment :: jsval
  cd_clientDataJSON :: "bytes option"
  cd_attestationObject :: "bytes option"
  cd_authenticatorData :: "bytes option"
  cd_signature :: "bytes option"
  cd_userHandle :: "bytes option"
  cd_transports :: "jsval option"
  cd_clientExtensionResults :: jsval

definition field_of :: "string \<Rightarrow> bytes option \<Rightarrow> (string \<times> jsval) list" where
  "field_of k b = (case b of None \<Rightarrow> [] | Some bs \<Rightarrow> [(k, JStr (bytesToB64url bs))])"

definition response_fields :: "credential \<Rightarrow> (string \<times> jsval) list" where
  "response_fields c =
     field_of ''clientDataJSON'' (cd_clientDataJSON c) @ field_of ''attestationObject'' (cd_attestationObject c)
     @ field_of ''authenticatorData'' (cd_authenticatorData c) @ field_of ''signature'' (cd_signature c)
     @ field_of ''userHandle'' (cd_userHandle c) @ (case cd_transports c of None \<Rightarrow> [] | Some t \<Rightarrow> [(''transports'', t)])"

definition serializeCredential :: "credential option \<Rightarrow> jsval result" where
  "serializeCredential credential =
     (case credential of
        None \<Rightarrow> Inl (Error ''Missing WebAuthn credential'')
      | Some c \<Rightarrow>
          Inr (JObj [(''id'', cd_id c), (''rawId'', JStr (bytesToB64url (cd_rawId c))), (''type'', cd_type c),
                     (''authenticatorAttachment'', js_or (cd_authenticatorAttachment c) JUndef), (''response'', JObj (response_fields c)),
                     (''clientExtensionResults'', cd_clientExtensionResults c)]))"

text \<open>The page: its origin, whether it is a secure context and what the browser supports, and the authenticator.\<close>

record authenticator =
  au_supported :: bool
  au_secure :: bool
  au_origin :: string
  au_answer :: "key_options option \<Rightarrow> credential option result"

definition requireSecureContext :: "authenticator \<Rightarrow> unit result" where
  "requireSecureContext au =
     (if au_secure au then Inr ()
      else Inl (Error (''Security keys require HTTPS or localhost. Current origin is not a secure context: ''
                       @ (if au_origin au \<noteq> [] then au_origin au else ''this page''))))"

definition createCredential :: "authenticator \<Rightarrow> jsval \<Rightarrow> jsval result" where
  "createCredential au options =
     (if \<not> au_supported au then Inl (Error ''This browser does not support security-key registration'')
      else
        bindR (requireSecureContext au) (\<lambda>_.
        bindR (normalizeCreationOptions options) (\<lambda>ko.
        bindR (au_answer au ko) serializeCredential)))"

definition getAssertion :: "authenticator \<Rightarrow> jsval \<Rightarrow> jsval result" where
  "getAssertion au options =
     (if \<not> au_supported au then Inl (Error ''This browser does not support security-key verification'')
      else
        bindR (requireSecureContext au) (\<lambda>_.
        bindR (normalizeRequestOptions options) (\<lambda>ko.
        bindR (au_answer au ko) serializeCredential)))"

section \<open>Round trip\<close>

lemma b64_char_url: "k < 64 \<Longrightarrow> unurl_char (url_char (b64_char k)) = b64_char k \<and> url_char (b64_char k) \<noteq> CHR ''=''"
proof -
  have "list_all (\<lambda>k. unurl_char (url_char (b64_char k)) = b64_char k \<and> url_char (b64_char k) \<noteq> CHR ''='') [0..<64]" by code_simp
  then show "k < 64 \<Longrightarrow> ?thesis" unfolding list_all_iff by auto
qed

lemma b64url_digits: "bytesToB64url bs = map (\<lambda>k. url_char (b64_char k)) (b64_digits bs)"
proof -
  let ?d = "map (\<lambda>k. url_char (b64_char k)) (b64_digits bs)"
  have pad: "url_char (CHR ''='') = CHR ''=''" by (simp add: url_char_def)
  have "btoa (map char_of_byte bs) = map b64_char (b64_digits bs) @ replicate (b64_padding bs) (CHR ''='')"
    using b64_encode_digits [of bs] by (simp add: btoa_def comp_def)
  then have "map url_char (btoa (map char_of_byte bs)) = ?d @ replicate (b64_padding bs) (CHR ''='')"
    by (simp add: pad)
  moreover have "dropWhile (\<lambda>c. c = CHR ''='') (rev ?d) = rev ?d"
  proof (cases "rev (b64_digits bs)")
    case (Cons k ks)
    then have "k \<in> set (b64_digits bs)" by (metis list.set_intros(1) set_rev)
    from b64_char_url [OF b64_digits_less [OF this]] Cons show ?thesis by (simp add: rev_map)
  qed simp
  ultimately show ?thesis by (simp add: bytesToB64url_def dropWhile_append)
qed

lemma complement_mod:
  fixes n p :: nat
  assumes "4 dvd n + p" and "p < 3"
  shows "(4 - n mod 4) mod 4 = p"
proof -
  have 0: "n mod 4 = 0" if "4 dvd n + 0" using that by simp
  have 1: "n mod 4 = 3" if "4 dvd n + 1" using that by presburger
  have 2: "n mod 4 = 2" if "4 dvd n + 2" using that by presburger
  from assms(2) consider "p = 0" | "p = 1" | "p = 2" by linarith
  then show ?thesis using assms(1) 0 1 2 by cases simp_all
qed

lemma padding_restored: "(4 - length (b64_digits bs) mod 4) mod 4 = b64_padding bs"
proof -
  have "4 dvd length (b64_digits bs) + b64_padding bs" using b64_encode_digits [of bs] by (metis length_append length_map length_replicate)
  moreover have "b64_padding bs < 3" by (simp add: b64_padding_def)
  ultimately show ?thesis by (rule complement_mod)
qed

lemma b64url_roundtrip: "b64urlToBytes (JStr (bytesToB64url bs)) = Inr bs"
proof -
  have "map unurl_char (bytesToB64url bs) = map b64_char (b64_digits bs)"
    unfolding b64url_digits using b64_char_url b64_digits_less by (auto simp: comp_def)
  moreover have "str_or_empty (JStr (bytesToB64url bs)) = bytesToB64url bs" by (simp add: str_or_empty_def js_or_def)
  moreover have "map b64_char (b64_digits bs) @ replicate (b64_padding bs) (CHR ''='') = btoa (map char_of_byte bs)"
    using b64_encode_digits [of bs] by (simp add: btoa_def comp_def)
  ultimately show ?thesis
    by (simp add: b64urlToBytes_def Let_def padding_restored atob_btoa del: map_map)
qed

interpretation b64url: codec "\<lambda>bs. JStr (bytesToB64url bs)" "\<lambda>v. case b64urlToBytes v of Inr bs \<Rightarrow> Some bs | Inl _ \<Rightarrow> None" "\<lambda>_. True"
  by unfold_locales (simp add: b64url_roundtrip)

lemma map_of_field: "map_of (field_of k b @ xs) k' = (if k' = k \<and> b \<noteq> None then Some (JStr (bytesToB64url (the b))) else map_of xs k')"
  by (auto simp: field_of_def split: option.split)

lemma response_parts:
  "cd_signature c = Some bs \<Longrightarrow> getp (JObj (response_fields c)) ''signature'' = JStr (bytesToB64url bs)"
  "cd_authenticatorData c = Some bs \<Longrightarrow> getp (JObj (response_fields c)) ''authenticatorData'' = JStr (bytesToB64url bs)"
  "cd_clientDataJSON c = Some bs \<Longrightarrow> getp (JObj (response_fields c)) ''clientDataJSON'' = JStr (bytesToB64url bs)"
  by (simp_all add: response_fields_def map_of_field del: map_of_append)

text \<open>
  Bytes reach the authenticator and the server unchanged: the authenticator is asked for the challenge
  and the credentials that the server put into the options, in base64 for URLs, and each part of its answer that is
  there is decoded by the server to the bytes that the authenticator gave.
\<close>

theorem assertion_bytes_exact:
  assumes "au_supported au" and "au_secure au"
    and "options = JObj [(''publicKey'', JObj [(''challenge'', JStr (bytesToB64url challenge)),
           (''allowCredentials'', JArr (map (\<lambda>i. JObj [(''id'', JStr (bytesToB64url i))]) ids))])]"
    and "getAssertion au options = Inr out"
  shows "\<exists>ko c. au_answer au (Some ko) = Inr (Some c) \<and> ko_challenge ko = challenge \<and> map_option (map snd) (ko_credentials ko) = Some ids
    \<and> b64urlToBytes (getp out ''rawId'') = Inr (cd_rawId c)
    \<and> (\<forall>bs. cd_signature c = Some bs \<longrightarrow> b64urlToBytes (getp (getp out ''response'') ''signature'') = Inr bs)
    \<and> (\<forall>bs. cd_authenticatorData c = Some bs \<longrightarrow> b64urlToBytes (getp (getp out ''response'') ''authenticatorData'') = Inr bs)
    \<and> (\<forall>bs. cd_clientDataJSON c = Some bs \<longrightarrow> b64urlToBytes (getp (getp out ''response'') ''clientDataJSON'') = Inr bs)"
proof -
  have ids: "with_ids (map (\<lambda>i. JObj [(''id'', JStr (bytesToB64url i))]) ids) = Inr (map (\<lambda>i. (JObj [(''id'', JStr (bytesToB64url i))], i)) ids)"
    by (induction ids) (simp_all add: getR_def nullish_def b64url_roundtrip)
  obtain ko where ko: "normalizeRequestOptions options = Inr (Some ko)" "ko_challenge ko = challenge" "map_option (map snd) (ko_credentials ko) = Some ids"
    unfolding assms(3) by (simp add: normalizeRequestOptions_def Let_def credential_list_def b64url_roundtrip ids comp_def)
  from assms(1,2,4) ko(1) obtain c where c: "au_answer au (Some ko) = Inr (Some c)" "serializeCredential (Some c) = Inr out"
    by (auto simp: getAssertion_def requireSecureContext_def serializeCredential_def bindR_eq_Inr split: option.splits)
  have out: "getp out ''rawId'' = JStr (bytesToB64url (cd_rawId c))" "getp out ''response'' = JObj (response_fields c)"
    using c(2) by (auto simp: serializeCredential_def)
  show ?thesis
    using c(1) ko(2,3) response_parts [of c] by (intro exI [of _ ko] exI [of _ c]) (simp add: out b64url_roundtrip del: getp.simps)
qed

definition demo_authenticator :: authenticator where
  "demo_authenticator =
     \<lparr>au_supported = True, au_secure = True, au_origin = ''https://x'',
      au_answer = (\<lambda>ko. Inr (Some \<lparr>cd_id = JStr ''k'', cd_rawId = [1, 255], cd_type = JStr ''public-key'', cd_authenticatorAttachment = JUndef,
        cd_clientDataJSON = Some [250, 251], cd_attestationObject = None, cd_authenticatorData = Some [7], cd_signature = Some [255, 254, 253],
        cd_userHandle = None, cd_transports = None, cd_clientExtensionResults = JObj []\<rparr>))\<rparr>"

definition demo_request :: jsval where
  "demo_request = JObj [(''publicKey'', JObj [(''challenge'', JStr (bytesToB64url [251, 239])),
     (''allowCredentials'', JArr (map (\<lambda>i. JObj [(''id'', JStr (bytesToB64url i))]) [[1, 255]]))])]"

theorem assertion_bytes_exact_witness:
  "\<exists>out. getAssertion demo_authenticator demo_request = Inr out \<and> b64urlToBytes (getp (getp out ''response'') ''signature'') = Inr [255, 254, 253]"
proof -
  have "isl (getAssertion demo_authenticator demo_request) = False" by code_simp
  then obtain out where out: "getAssertion demo_authenticator demo_request = Inr out"
    by (cases "getAssertion demo_authenticator demo_request") auto
  from assertion_bytes_exact [OF _ _ demo_request_def out] out show ?thesis by (auto simp: demo_authenticator_def)
qed

end
