(* ===== verification/Account_Security.thy ===== *)
theory Account_Security
  imports Webauthn Mail_Actions
begin

text \<open>
  The security settings of \<^verbatim>\<open>static/mail/mail-settings.jsx\<close>: second factors, recovery codes and the change of the password, and
  the retry of an action that the server refuses until a second factor was given. What the user answers
  to the dialogues of the browser is a parameter.
\<close>

section \<open>A fresh second factor\<close>

text \<open>
  The answers of the user: whether to use a security key, the code that was entered, and whether to remove a factor;
  \<open>ua_keys\<close> is \<open>None\<close> when \<^verbatim>\<open>webauthn.js\<close> is not loaded.
\<close>

record user_answers =
  ua_keys :: "authenticator option"
  ua_useKey :: bool
  ua_code :: "string option"
  ua_remove :: bool

definition no_factors :: jsval where
  "no_factors = JObj [(''enabled'', JBool False), (''methods'', JArr []), (''totp_factors'', JArr []), (''webauthn_factors'', JArr []),
     (''recovery_remaining'', jint 0)]"

definition getTwoFactorInfo :: "'s server \<Rightarrow> ('s, jsval) io" where
  "getTwoFactorInfo srv =
     bindI (getTwoFactorStatus srv) (\<lambda>r. returnI (if truthy r \<and> truthy (getp r ''mfa'') then getp r ''mfa'' else no_factors))"

text \<open>\<open>/^\d{6}$/\<close> on the code without white space.\<close>

definition totp_code :: "string \<Rightarrow> bool" where
  "totp_code code = (let ds = filter (\<lambda>c. \<not> is_space c) code in length ds = 6 \<and> list_all is_digit ds)"

definition verify_code :: "'s server \<Rightarrow> string \<Rightarrow> ('s, jsval) io" where
  "verify_code srv normalized =
     (if totp_code normalized then verifyTwoFactorTOTP srv (JStr normalized) else verifyTwoFactorRecovery srv (JStr normalized))"

definition verify_key :: "authenticator \<Rightarrow> 's server \<Rightarrow> ('s, jsval) io" where
  "verify_key au srv =
     bindI (beginWebAuthnVerification srv) (\<lambda>b.
     bindI (liftI (bindR (getR b ''options'') (getAssertion au))) (\<lambda>credential.
     finishWebAuthnVerification srv (getp b ''challenge_id'') credential))"

definition ensureFreshTwoFactor :: "user_answers \<Rightarrow> 's server \<Rightarrow> jsval \<Rightarrow> ('s, jsval) io" where
  "ensureFreshTwoFactor ua srv status =
     bindI (if truthy status then returnI status else getTwoFactorInfo srv) (\<lambda>current.
     if \<not> truthy current \<or> \<not> truthy (getp current ''enabled'') then returnI current
     else
       (case (JStr ''webauthn'' \<in> set (js_elems (getp current ''methods'')) \<and> ua_useKey ua, ua_keys ua) of
          (True, Some au) \<Rightarrow> bindI (verify_key au srv) (\<lambda>_. getTwoFactorInfo srv)
        | _ \<Rightarrow>
            (case ua_code ua of
               None \<Rightarrow> throwI (Error ''Two-factor verification was cancelled'')
             | Some code \<Rightarrow>
                 if trim code = [] then throwI (Error ''Two-factor verification was cancelled'')
                 else bindI (verify_code srv (trim code)) (\<lambda>_. getTwoFactorInfo srv))))"

definition runWithFreshTwoFactor :: "user_answers \<Rightarrow> 's server \<Rightarrow> ('s, 'a) io \<Rightarrow> jsval \<Rightarrow> ('s, 'a) io" where
  "runWithFreshTwoFactor ua srv action status s =
     (case action s of
        (Inr r, s1) \<Rightarrow> (Inr r, s1)
      | (Inl e, s1) \<Rightarrow>
          if \<not> str_includes (exn_message e) ''recent 2fa verification required'' then (Inl e, s1)
          else bindI (ensureFreshTwoFactor ua srv status) (\<lambda>_. action) s1)"

section \<open>The page\<close>

record security_page =
  sp_showChangePassword :: bool
  sp_mfa :: jsval
  sp_loadingMfa :: bool
  sp_mfaError :: string
  sp_showTotpModal :: bool
  sp_totpSetup :: jsval
  sp_totpCode :: string
  sp_busyAction :: bool
  sp_recoveryCodes :: "jsval list option"

definition loadMFA :: "'s server \<Rightarrow> security_page \<times> 's \<Rightarrow> security_page \<times> 's" where
  "loadMFA srv st =
     (let p = (fst st)\<lparr>sp_loadingMfa := True\<rparr> in
      case getTwoFactorInfo srv (snd st) of
        (Inr info, s) \<Rightarrow> (p\<lparr>sp_mfa := info, sp_mfaError := [], sp_loadingMfa := False\<rparr>, s)
      | (Inl e, s) \<Rightarrow> (p\<lparr>sp_mfaError := err_text e ''Failed to load 2FA status'', sp_loadingMfa := False\<rparr>, s))"

definition security_failed :: "exn \<Rightarrow> string \<Rightarrow> security_page \<Rightarrow> security_page" where
  "security_failed e deflt p = p\<lparr>sp_mfaError := err_text e deflt, sp_busyAction := False\<rparr>"

definition recovery_codes :: "jsval \<Rightarrow> jsval list option result" where
  "recovery_codes result = bindR (getR result ''recovery_codes'') (\<lambda>cs. Inr (if isArray cs then Some (js_elems cs) else None))"

definition handleBeginTOTP :: "'s server \<Rightarrow> security_page \<times> 's \<Rightarrow> security_page \<times> 's" where
  "handleBeginTOTP srv st =
     (let p = (fst st)\<lparr>sp_busyAction := True, sp_mfaError := []\<rparr> in
      case beginTOTPSetup srv (JStr ''Authenticator app'') (snd st) of
        (Inr setup, s) \<Rightarrow> (p\<lparr>sp_totpSetup := setup, sp_totpCode := [], sp_showTotpModal := True, sp_busyAction := False\<rparr>, s)
      | (Inl e, s) \<Rightarrow> (security_failed e ''Could not start authenticator setup'' p, s))"

definition finished :: "security_page \<times> 's \<Rightarrow> security_page \<times> 's" where
  "finished st = ((fst st)\<lparr>sp_busyAction := False\<rparr>, snd st)"

definition handleConfirmTOTP :: "'s server \<Rightarrow> security_page \<times> 's \<Rightarrow> security_page \<times> 's" where
  "handleConfirmTOTP srv st =
     (let p = (fst st)\<lparr>sp_busyAction := True\<rparr> in
      if \<not> truthy (sp_totpSetup (fst st)) then st
      else
        (case bindI (confirmTOTPSetup srv (getp (sp_totpSetup p) ''setup_id'') (JStr (sp_totpCode p))) (\<lambda>r. liftI (recovery_codes r)) (snd st) of
           (Inr codes, s) \<Rightarrow>
             finished (loadMFA srv (p\<lparr>sp_recoveryCodes := codes, sp_showTotpModal := False, sp_totpSetup := JNull, sp_totpCode := []\<rparr>, s))
         | (Inl e, s) \<Rightarrow> (security_failed e ''Could not confirm authenticator app'' p, s)))"

definition handleRegisterSecurityKey :: "user_answers \<Rightarrow> 's server \<Rightarrow> security_page \<times> 's \<Rightarrow> security_page \<times> 's" where
  "handleRegisterSecurityKey ua srv st =
     (case ua_keys ua of
        None \<Rightarrow> ((fst st)\<lparr>sp_mfaError := ''This browser does not support security keys.''\<rparr>, snd st)
      | Some au \<Rightarrow>
          (let p = (fst st)\<lparr>sp_busyAction := True, sp_mfaError := []\<rparr> in
           case bindI (beginWebAuthnRegistration srv) (\<lambda>b.
                bindI (liftI (bindR (getR b ''options'') (createCredential au))) (\<lambda>credential.
                bindI (finishWebAuthnRegistration srv (getp b ''challenge_id'') credential (JStr ''Security key'')) (\<lambda>r.
                liftI (recovery_codes r)))) (snd st) of
             (Inr codes, s) \<Rightarrow> finished (loadMFA srv (p\<lparr>sp_recoveryCodes := codes\<rparr>, s))
           | (Inl e, s) \<Rightarrow> (security_failed e ''Could not register security key'' p, s)))"

definition handleRegenerateRecovery :: "user_answers \<Rightarrow> 's server \<Rightarrow> security_page \<times> 's \<Rightarrow> security_page \<times> 's" where
  "handleRegenerateRecovery ua srv st =
     (let p = (fst st)\<lparr>sp_busyAction := True, sp_mfaError := []\<rparr> in
      case bindI (runWithFreshTwoFactor ua srv (regenerateRecoveryCodes srv) (sp_mfa p)) (\<lambda>r. liftI (recovery_codes r)) (snd st) of
        (Inr codes, s) \<Rightarrow> finished (loadMFA srv (p\<lparr>sp_recoveryCodes := codes\<rparr>, s))
      | (Inl e, s) \<Rightarrow> (security_failed e ''Could not regenerate recovery codes'' p, s))"

definition remove_factor :: "user_answers \<Rightarrow> 's server \<Rightarrow> ('s, jsval) io \<Rightarrow> string \<Rightarrow> security_page \<times> 's \<Rightarrow> security_page \<times> 's" where
  "remove_factor ua srv action deflt st =
     (let p = (fst st)\<lparr>sp_busyAction := True\<rparr> in
      if \<not> ua_remove ua then st
      else
        (case runWithFreshTwoFactor ua srv action (sp_mfa p) (snd st) of
           (Inr _, s) \<Rightarrow> finished (loadMFA srv (p, s))
         | (Inl e, s) \<Rightarrow> (security_failed e deflt p, s)))"

definition handleDeleteTOTP :: "user_answers \<Rightarrow> 's server \<Rightarrow> string \<Rightarrow> security_page \<times> 's \<Rightarrow> security_page \<times> 's" where
  "handleDeleteTOTP ua srv i = remove_factor ua srv (deleteTOTPFactor srv i) ''Could not remove authenticator app''"

definition handleDeleteSecurityKey :: "user_answers \<Rightarrow> 's server \<Rightarrow> string \<Rightarrow> security_page \<times> 's \<Rightarrow> security_page \<times> 's" where
  "handleDeleteSecurityKey ua srv i = remove_factor ua srv (deleteWebAuthnCredential srv i) ''Could not remove security key''"

section \<open>The form for a new password\<close>

record password_form =
  pw_currentPassword :: string
  pw_newPassword :: string
  pw_confirmPassword :: string
  pw_loading :: bool
  pw_error :: string
  pw_closed :: bool

text \<open>\<open>change\<close> is \<open>changePassword\<close> of the API module with its parameters.\<close>

definition password_submit ::
  "user_answers \<Rightarrow> 's server \<Rightarrow> (string \<Rightarrow> string \<Rightarrow> ('s, jsval) io) \<Rightarrow> password_form \<times> 's \<Rightarrow> password_form \<times> 's" where
  "password_submit ua srv change st =
     (let f = fst st; f1 = f\<lparr>pw_error := []\<rparr> in
      if pw_newPassword f \<noteq> pw_confirmPassword f then (f\<lparr>pw_error := ''Passwords do not match''\<rparr>, snd st)
      else if length (pw_newPassword f) < 10 then (f\<lparr>pw_error := ''Password must be at least 10 characters''\<rparr>, snd st)
      else
        (case runWithFreshTwoFactor ua srv (change (pw_currentPassword f) (pw_newPassword f)) JUndef (snd st) of
           (Inr _, s) \<Rightarrow> (f1\<lparr>pw_closed := True, pw_loading := False\<rparr>, s)
         | (Inl e, s) \<Rightarrow> (f1\<lparr>pw_error := err_text e ''Failed to change password'', pw_loading := False\<rparr>, s)))"

section \<open>Retries\<close>

definition code_request :: "string \<Rightarrow> http_request" where
  "code_request code =
     json_request POST (if totp_code code then ''/api/auth/2fa/verify/totp'' else ''/api/auth/2fa/verify/recovery'') (JObj [(''code'', JStr code)])"

lemma verify_code_answered:
  assumes "srv s (code_request c) = (Inr res, s')"
  shows "snd (verify_code srv c s) = s'" and "(\<exists>e. fst (verify_code srv c s) = Inl e) \<longleftrightarrow> \<not> resp_ok res"
  using assms by (auto simp: verify_code_def code_request_def verifyTwoFactorTOTP_def verifyTwoFactorRecovery_def call_def bindI_def
      fetch_def liftI_def body_or_error_def Let_def split: if_splits)

text \<open>
  C36. An action that the server refuses for want of a recent second factor is tried again only after the server has accepted one: when
  the user cancels, nothing is sent after the refusal, and when the server refuses the code,
  the request with the code is the last one; either way the action fails.
\<close>

theorem refused_factor_stops:
  assumes "action s = (Inl e, s1)" and "str_includes (exn_message e) ''recent 2fa verification required''"
    and "truthy status" and "truthy (getp status ''enabled'')" and "\<not> ua_useKey ua \<or> ua_keys ua = None"
    and "case ua_code ua of None \<Rightarrow> s2 = s1 | Some code \<Rightarrow>
        if trim code = [] then s2 = s1 else (\<exists>res. srv s1 (code_request (trim code)) = (Inr res, s2) \<and> \<not> resp_ok res)"
  shows "\<exists>e'. runWithFreshTwoFactor ua srv action status s = (Inl e', s2)"
proof -
  have "\<exists>e'. ensureFreshTwoFactor ua srv status s1 = (Inl e', s2)"
  proof (cases "\<exists>code. ua_code ua = Some code \<and> trim code \<noteq> []")
    case True
    then obtain code where code: "ua_code ua = Some code" "trim code \<noteq> []" by blast
    then obtain res where res: "srv s1 (code_request (trim code)) = (Inr res, s2)" "\<not> resp_ok res" using assms(6) by auto
    obtain e' where "verify_code srv (trim code) s1 = (Inl e', s2)"
      using verify_code_answered [of srv s1 "trim code" res s2, OF res(1)] res(2) by (metis prod.collapse)
    then show ?thesis
      using assms(3-5) code by (auto simp: ensureFreshTwoFactor_def bindI_def returnI_def split: option.split bool.split)
  next
    case False
    then have "s2 = s1" using assms(6) by (auto split: option.splits if_splits)
    then show ?thesis
      using assms(3-5) False by (auto simp: ensureFreshTwoFactor_def bindI_def returnI_def throwI_def split: option.split bool.split)
  qed
  then show ?thesis using assms(1,2) by (auto simp: runWithFreshTwoFactor_def bindI_def)
qed

lemma resp_json_encoded: "json_ok j \<Longrightarrow> resp_json \<lparr>rs_status = n, rs_body = utf8_encode (json_str j)\<rparr> = Inr j"
  by (simp add: resp_json_def utf8.dec_enc json.dec_enc)

definition strict_server :: "nat server" where
  "strict_server n rq = (Inr \<lparr>rs_status = 403, rs_body = utf8_encode (json_str (JObj [(''error'', JStr ''recent 2fa verification required'')]))\<rparr>, Suc n)"

definition typing_user :: user_answers where
  "typing_user = \<lparr>ua_keys = None, ua_useKey = False, ua_code = Some ''123 456'', ua_remove = True\<rparr>"

theorem refused_factor_stops_witness:
  "\<exists>e'. runWithFreshTwoFactor typing_user strict_server (regenerateRecoveryCodes strict_server) (JObj [(''enabled'', JBool True)]) 0 = (Inl e', 2)"
proof (rule refused_factor_stops)
  have "resp_json \<lparr>rs_status = 403, rs_body = utf8_encode (json_str (JObj [(''error'', JStr ''recent 2fa verification required'')]))\<rparr>
      = Inr (JObj [(''error'', JStr ''recent 2fa verification required'')])"
    by (rule resp_json_encoded) simp
  then show "regenerateRecoveryCodes strict_server 0 = (Inl (Error ''recent 2fa verification required''), 1)"
    by (simp add: regenerateRecoveryCodes_def call_def bindI_def fetch_def liftI_def strict_server_def body_or_error_def resp_ok_def
        resp_json_or_empty_def server_error_def js_or_def getR_def nullish_def del: json_str.simps)
  show "str_includes (exn_message (Error ''recent 2fa verification required'')) ''recent 2fa verification required''" by code_simp
  have "trim ''123 456'' \<noteq> []" by code_simp
  then show "case ua_code typing_user of None \<Rightarrow> 2 = (1 :: nat) | Some code \<Rightarrow> if trim code = [] then 2 = (1 :: nat)
      else (\<exists>res. strict_server 1 (code_request (trim code)) = (Inr res, 2) \<and> \<not> resp_ok res)"
    by (simp add: typing_user_def strict_server_def resp_ok_def)
qed (simp_all add: typing_user_def)

end
