(* ===== verification/Vault_Invariant.thy ===== *)
theory Vault_Invariant
  imports Vault_Account
begin

text \<open>
  The invariant of the vault, kept by every operation, by the idle timer and by whatever other tabs do
  to the storages; computations that keep a property of their state.
\<close>

section \<open>The invariant of the vault\<close>

text \<open>
  A locked vault holds nothing; an unlocked one holds a private key that its armored text reads as,
  with the account's fingerprint. Every identity is filed under the key id of its private key, which
  belongs to its public key, and the default identity is one of them.
\<close>

definition account_inv :: "vault_env \<Rightarrow> vault \<Rightarrow> bool" where
  "account_inv env v =
     (case v_accountPrivateKey v of
        None \<Rightarrow> vault_memory v = (None, None, [], [], [], [])
      | Some priv \<Rightarrow>
          v_accountPublicKey v \<noteq> None \<and> v_accountFingerprint v \<noteq> []
          \<and> pg_readPrivateKey (ve_pg env) (v_accountArmoredPriv v) = Inr priv
          \<and> normalizeFingerprint (JStr (pg_privFingerprint (ve_pg env) priv)) = v_accountFingerprint v
          \<and> v_timer v \<noteq> None)"

definition ident_inv :: "vault_env \<Rightarrow> string \<times> vault_ident \<Rightarrow> bool" where
  "ident_inv env e =
     (let i = snd e; fp = normalizeFingerprint (JStr (pg_privFingerprint (ve_pg env) (vi_privateKey i))) in
      key_matches env (vi_privateKey i) (vi_armoredPub i) fp
      \<and> fst e = fingerprintKeyId16 (JStr fp)
      \<and> pg_readPrivateKey (ve_pg env) (vi_armoredPriv i) = Inr (vi_privateKey i))"

definition vault_inv :: "vault_env \<Rightarrow> vault \<Rightarrow> bool" where
  "vault_inv env v =
     (account_inv env v \<and> distinct (map fst (v_identities v)) \<and> list_all (ident_inv env) (v_identities v)
      \<and> (if v_identities v = [] then v_defaultIdentityFingerprint v = []
         else v_defaultIdentityFingerprint v \<in> fst ` set (v_identities v))
      \<and> 60000 \<le> v_idleMs v)"

text \<open>The invariant reads the memory, whether a timer is pending, and the idle time.\<close>

lemma vault_inv_cong:
  assumes "vault_memory v = vault_memory v'" and "v_timer v = None \<Longrightarrow> v_timer v' = None" and "v_idleMs v = v_idleMs v'"
  shows "vault_inv env v' \<Longrightarrow> vault_inv env v"
proof -
  have eqs: "v_accountPrivateKey v = v_accountPrivateKey v'" "v_accountPublicKey v = v_accountPublicKey v'"
      "v_accountArmoredPriv v = v_accountArmoredPriv v'" "v_accountFingerprint v = v_accountFingerprint v'"
      "v_identities v = v_identities v'" "v_defaultIdentityFingerprint v = v_defaultIdentityFingerprint v'"
    using assms(1) by (simp_all add: vault_memory_def)
  assume "vault_inv env v'"
  then show "vault_inv env v"
    using assms(2) unfolding vault_inv_def account_inv_def eqs assms(1,3)
    by (auto split: option.splits)
qed

lemma vault_inv_touch [intro]: "vault_inv env v \<Longrightarrow> vault_inv env (touch now v)"
  by (rule vault_inv_cong [of _ v]) (simp_all add: vault_simps)

lemma vault_inv_locked:
  "vault_memory v = (None, None, [], [], [], []) \<Longrightarrow> 60000 \<le> v_idleMs v \<Longrightarrow> vault_inv env v"
  by (simp add: vault_inv_def account_inv_def vault_memory_fields)

lemma vault_inv_initial: "vault_inv env (initial_vault ses loc)"
  by (rule vault_inv_locked) (simp_all add: initial_vault_def vault_memory_def DEFAULT_IDLE_MS_def)

lemma vault_inv_clear [intro]: "vault_inv env v \<Longrightarrow> vault_inv env (clearAllPersistedCaches v)"
  by (rule vault_inv_cong [of _ v]) (simp_all add: vault_simps)

lemma zero_idleMs [vault_simps]: "v_idleMs (vault_zero env hm cp ct v) = v_idleMs v"
proof -
  have "v_idleMs (clearTrustedDeviceFlag env v) = v_idleMs v" for v
    by (auto simp: clearTrustedDeviceFlag_def vault_simps split: option.split)
  then show ?thesis by (simp add: vault_zero_def Let_def clearPersistedAccountCache_def vault_simps)
qed

lemma vault_inv_zero [intro]: "vault_inv env v \<Longrightarrow> vault_inv env (vault_zero env hm cp ct v)"
  by (rule vault_inv_locked) (simp_all add: vault_simps vault_inv_def)

lemma setIdleMs_sel [vault_simps]:
  "vault_memory (setIdleMs ms v) = vault_memory v" "v_timer (setIdleMs ms v) = v_timer v" "60000 \<le> v_idleMs (setIdleMs ms v)"
  by (simp_all add: setIdleMs_def vault_memory_def)

lemma vault_inv_setIdleMs [intro]: "vault_inv env v \<Longrightarrow> vault_inv env (setIdleMs ms v)"
  using vault_inv_cong [of "(setIdleMs ms v)\<lparr>v_idleMs := v_idleMs v\<rparr>" v env]
  by (auto simp: setIdleMs_def vault_inv_def account_inv_def vault_memory_def split: option.splits)

lemma vault_inv_applyTrusted [intro]: "vault_inv env v \<Longrightarrow> vault_inv env (applyTrustedIdlePreference env now v)"
  by (auto simp: applyTrustedIdlePreference_def Let_def)

lemma vault_inv_setTrustedDevice [intro]: "vault_inv env v \<Longrightarrow> vault_inv env (setTrustedDevice env now b v)"
proof -
  assume v: "vault_inv env v"
  have "vault_inv env (case the_storage env v of None \<Rightarrow> v
      | Some a \<Rightarrow> if b then try_set a TRUSTED_DEVICE_KEY ''1'' v else try_remove a TRUSTED_DEVICE_KEY v)"
    using v by (auto split: option.split intro: vault_inv_cong [of _ v] simp: vault_simps)
  then show ?thesis by (auto simp: setTrustedDevice_def Let_def)
qed

lemma vault_inv_hydrated:
  assumes "vault_inv env v" and "pg_readPrivateKey (ve_pg env) ap = Inr priv" and "key_matches env priv pub fp"
  shows "vault_inv env (touch now (hydrated priv pk ap fp v))"
  using assms by (auto simp: vault_inv_def account_inv_def hydrated_def touch_def key_matches_def)

lemma vault_inv_hydrate:
  assumes "pgp_ok env" and "vault_inv env v" and "hydrateUnlockedAccount env now ap pub ef v = (r, v')"
  shows "vault_inv env v'"
  using hydrate_cases [OF assms(1,3)] assms(2) by (metis vault_inv_hydrated)

lemma vault_inv_unlockAccount:
  assumes "pgp_ok env" and "vault_inv env v"
  shows "vault_inv env (snd (unlockAccount env now row pw se v))"
proof -
  have "vault_inv env (persistAccountCache env now se pub u)" if "vault_inv env u" for pub u
    using that by (rule vault_inv_cong [rotated -1]) (simp_all add: vault_simps)
  then show ?thesis
    using assms(2) vault_inv_hydrate [OF assms(1,2)] unfolding unlockAccount_def Let_def
    by (auto split: sum.split prod.split)
qed

lemma vault_inv_restore:
  assumes "pgp_ok env" and "vault_inv env v"
  shows "vault_inv env (snd (tryRestoreAccountFromSession env now se v))"
proof -
  have "vault_inv env v1" if "readPersistedAccountCache env v = (c, v1)" for c v1
    using that assms(2) by (auto simp: readPersistedAccountCache_def Let_def split: option.splits)
  then show ?thesis
    using vault_inv_hydrate [OF assms(1)] unfolding tryRestoreAccountFromSession_def Let_def clearPersistedAccountCache_def
    by (fastforce split: prod.split option.split sum.split)
qed

lemma open_identity_inv:
  assumes "open_identity env acc row = Inr (kid, i)"
  shows "ident_inv env (kid, i) \<and> kid \<noteq> []"
  using assms unfolding open_identity_def
  by (auto simp: bindR_eq_Inr Let_def ident_inv_def key_matches_def split: if_splits
      intro: fingerprintKeyId16_cong)

lemma vault_inv_unlockIdentity:
  assumes "vault_inv env v"
  shows "vault_inv env (snd (unlockIdentity env now row v))"
proof (cases "\<exists>acc kid i. v_accountPrivateKey v = Some acc \<and> \<not> nullish row \<and> open_identity env acc row = Inr (kid, i)")
  case False
  then have "snd (unlockIdentity env now row v) = v"
    by (auto simp: unlockIdentity_def split: option.split sum.split)
  with assms show ?thesis by simp
next
  case True
  then obtain acc kid i where h: "v_accountPrivateKey v = Some acc" "\<not> nullish row" "open_identity env acc row = Inr (kid, i)"
    by blast
  let ?ids = "AList.update kid i (v_identities v)"
  have "list_all (ident_inv env) ?ids"
    using open_identity_inv [OF h(3)] assms set_update_subset [of kid i "v_identities v"]
    unfolding list_all_iff vault_inv_def by blast
  moreover have "fst ` set ?ids = insert kid (fst ` set (v_identities v))" by (simp add: dom_update)
  moreover have "?ids \<noteq> []" by (simp add: update_nonempty)
  ultimately show ?thesis
    using assms open_identity_inv [OF h(3)]
    by (auto simp: unlockIdentity_def h vault_inv_def account_inv_def touch_def Let_def distinct_update split: if_splits)
qed

abbreviation vault_keeps :: "vault_env \<Rightarrow> ('s, 'a) vio \<Rightarrow> bool" where
  "vault_keeps env m \<equiv> keeps (\<lambda>st. vault_inv env (fst st)) m"

lemma keeps_vault [keeps_intros]:
  "(\<And>v. vault_inv env v \<Longrightarrow> vault_inv env (snd (f v))) \<Longrightarrow> vault_keeps env (with_vault f)"
  "(\<And>v. vault_inv env v \<Longrightarrow> vault_inv env (snd (g v))) \<Longrightarrow> vault_keeps env (read_vault g)"
  "vault_keeps env (fetch_v srv rq)"
  unfolding keeps_def with_vault_def read_vault_def fetch_v_def by (auto split: prod.splits) (metis snd_conv)+

lemma vault_inv_reads [intro]:
  "vault_inv env v \<Longrightarrow> vault_inv env (snd (getIdentity now fp v))"
  "vault_inv env v \<Longrightarrow> vault_inv env (snd (getIdentityByEmail now email v))"
  "vault_inv env v \<Longrightarrow> vault_inv env (snd (vault_listIdentities now v))"
  by (auto simp: getIdentity_def getIdentityByEmail_def vault_listIdentities_def Let_def)

lemma vault_inv_seeds [intro]:
  "vault_inv env v \<Longrightarrow> vault_inv env (snd (deriveIdentitySearchSeed env now fp v))"
  "vault_inv env v \<Longrightarrow> vault_inv env (snd (deriveAccountSenderIconSeed env now v))"
  "vault_inv env v \<Longrightarrow> vault_inv env (snd (deriveAccountMailCacheSeed env now v))"
  using vault_inv_reads(1) [of env v now fp]
  by (auto simp: deriveIdentitySearchSeed_def deriveAccountSenderIconSeed_def deriveAccountMailCacheSeed_def
      account_seed_def split: prod.split option.split)

lemma keeps_rows [keeps_intros]: "vault_keeps env (get_rows srv rows)"
  by (auto simp: get_rows_def fetchIdentityRows_def split: option.split intro!: keeps_intros)

lemma keeps_unlock_row [keeps_intros]: "vault_keeps env (unlock_row env now row)"
  by (auto simp: unlock_row_def split: option.split intro!: keeps_intros vault_inv_unlockIdentity)

lemma keeps_ensure [keeps_intros]: "vault_keeps env (ensureIdentityUnlocked env srv now fp rows)"
  unfolding ensureIdentityUnlocked_def Let_def by (intro keeps_pure keeps_intros)

lemma keeps_ensureByEmail [keeps_intros]: "vault_keeps env (ensureIdentityUnlockedByEmail env srv now email rows)"
  unfolding ensureIdentityUnlockedByEmail_def Let_def
  by (intro keeps_pure keeps_intros) (auto split: option.split intro!: keeps_intros)

lemma keeps_touch [keeps_intros]: "vault_keeps env (read_vault (\<lambda>v. (x, touch now v)))"
  by (auto intro!: keeps_intros)

lemma keeps_getIdentity [keeps_intros]: "vault_keeps env (read_vault (getIdentity now fp))"
  by (auto intro!: keeps_intros)

lemma keeps_export: "vault_keeps env (exportIdentityPrivateKeyArmored env srv now fp pass)"
  by (auto simp: exportIdentityPrivateKeyArmored_def Let_def split: option.split intro!: keeps_bindI keeps_intros)

lemma keeps_encrypt:
  "vault_keeps env (encryptToRecipient env now pub plain)"
  "vault_keeps env (encryptAndSignToRecipient env srv now pub plain signer)"
  by (auto simp: encryptToRecipient_def encryptAndSignToRecipient_def Let_def split: option.split
      intro!: keeps_bindI keeps_intros)

lemma keeps_decrypt:
  "vault_keeps env (decryptToResult env srv now ct fp rows keys)"
  by (auto simp: decryptToResult_def Let_def split: option.split prod.split intro!: keeps_bindI keeps_intros)

lemma keeps_decryptToString: "vault_keeps env (decryptToString env srv now ct fp rows)"
  by (auto simp: decryptToString_def intro!: keeps_bindI keeps_decrypt keeps_intros)

lemma keeps_try_decrypt: "vault_keeps env (try_decrypt env srv now ct rows fps err)"
proof (induction fps arbitrary: err)
  case Nil
  show ?case by (auto intro: keeps_intros)
next
  case (Cons fp fps)
  have one: "vault_keeps env (decryptToString env srv now ct (JStr fp) (Some rows))" by (rule keeps_decryptToString)
  show ?case unfolding keeps_def
  proof (intro allI impI)
    fix s r t assume run: "try_decrypt env srv now ct rows (fp # fps) err s = (r, t)" and s: "vault_inv env (fst s)"
    obtain x u where d: "decryptToString env srv now ct (JStr fp) (Some rows) s = (x, u)" by (cases "decryptToString env srv now ct (JStr fp) (Some rows) s")
    then have u: "vault_inv env (fst u)" using keepsD [OF one d] s by simp
    show "vault_inv env (fst t)"
    proof (cases x)
      case (Inl e)
      then show ?thesis using run d keepsD [OF Cons.IH _ u] by simp
    next
      case (Inr y)
      then show ?thesis using run d u by simp
    qed
  qed
qed

lemma keeps_tryDefault: "vault_keeps env (tryDefaultDecrypt env srv now ct)"
proof -
  have "vault_keeps env (\<lambda>st. try_decrypt env srv now ct rows (decrypt_order rows (fst st)) None st)" for rows
    using keeps_try_decrypt by (fastforce simp: keeps_def)
  then show ?thesis
    unfolding tryDefaultDecrypt_def fetchIdentityRows_def by (intro keeps_pure keeps_intros) (auto intro!: keeps_intros)
qed

text \<open>
  Everything that can happen to a vault: the calls of its interface, each with any arguments and at
  any time, the call at the end of the script that applies the stored preference, the idle timer, and
  other tabs changing the storages.
\<close>

inductive vault_step :: "vault_env \<Rightarrow> 's server \<Rightarrow> vault \<times> 's \<Rightarrow> vault \<times> 's \<Rightarrow> bool" for env srv where
  unlock: "vault_step env srv (v, s) (snd (unlockAccount env now row pw se v), s)"
| restore: "vault_step env srv (v, s) (snd (tryRestoreAccountFromSession env now se v), s)"
| zero: "vault_step env srv (v, s) (vault_zero env hm cp ct v, s)"
| timer: "v_timer v = Some t \<Longrightarrow> vault_step env srv (v, s) (idle_timeout env v, s)"
| touched: "vault_step env srv (v, s) (touch now v, s)"
| idle: "vault_step env srv (v, s) (setIdleMs ms v, s)"
| trusted: "vault_step env srv (v, s) (setTrustedDevice env now b v, s)"
| loaded: "vault_step env srv (v, s) (applyTrustedIdlePreference env now v, s)"
| identity: "vault_step env srv (v, s) (snd (unlockIdentity env now row v), s)"
| read_one: "vault_step env srv (v, s) (snd (getIdentity now fp v), s)"
| read_email: "vault_step env srv (v, s) (snd (getIdentityByEmail now email v), s)"
| read_all: "vault_step env srv (v, s) (snd (vault_listIdentities now v), s)"
| seed_search: "vault_step env srv (v, s) (snd (deriveIdentitySearchSeed env now fp v), s)"
| seed_icon: "vault_step env srv (v, s) (snd (deriveAccountSenderIconSeed env now v), s)"
| seed_cache: "vault_step env srv (v, s) (snd (deriveAccountMailCacheSeed env now v), s)"
| ensure: "ensureIdentityUnlocked env srv now fp rows st = (r, st') \<Longrightarrow> vault_step env srv st st'"
| ensure_email: "ensureIdentityUnlockedByEmail env srv now email rows st = (r', st') \<Longrightarrow> vault_step env srv st st'"
| export: "exportIdentityPrivateKeyArmored env srv now fp pass st = (r', st') \<Longrightarrow> vault_step env srv st st'"
| encrypt: "encryptToRecipient env now pub plain st = (r', st') \<Longrightarrow> vault_step env srv st st'"
| encrypt_sign: "encryptAndSignToRecipient env srv now pub plain fp st = (r', st') \<Longrightarrow> vault_step env srv st st'"
| decrypt: "decryptToResult env srv now ct fp rows keys st = (r'', st') \<Longrightarrow> vault_step env srv st st'"
| decrypt_any: "tryDefaultDecrypt env srv now ct st = (rd, st') \<Longrightarrow> vault_step env srv st st'"
| other_tab: "vault_step env srv (v, s) (v\<lparr>v_session := a, v_local := b\<rparr>, s)"

lemma vault_step_inv:
  assumes "pgp_ok env" and "vault_step env srv st st'" and "vault_inv env (fst st)"
  shows "vault_inv env (fst st')"
  using assms(2)
proof cases
  case (unlock v now row pw se s)
  then show ?thesis using assms by (simp add: vault_inv_unlockAccount)
next
  case (restore v now se s)
  then show ?thesis using assms by (simp add: vault_inv_restore)
next
  case (identity v now row s)
  then show ?thesis using assms by (simp add: vault_inv_unlockIdentity)
next
  case (other_tab v s b a)
  then show ?thesis using assms vault_inv_cong [of "v\<lparr>v_session := a, v_local := b\<rparr>" v env] by (simp add: vault_memory_def)
next
  case (ensure now fp rows r)
  then show ?thesis using keepsD [OF keeps_ensure] assms by blast
next
  case (ensure_email now email rows r)
  then show ?thesis using keepsD [OF keeps_ensureByEmail] assms by blast
next
  case (export now fp pass r)
  then show ?thesis using keepsD [OF keeps_export] assms by blast
next
  case (encrypt now pub plain r)
  then show ?thesis using keepsD [OF keeps_encrypt(1)] assms by blast
next
  case (encrypt_sign now pub plain fp r)
  then show ?thesis using keepsD [OF keeps_encrypt(2)] assms by blast
next
  case (decrypt now ct fp rows keys r)
  then show ?thesis using keepsD [OF keeps_decrypt] assms by blast
next
  case (decrypt_any now ct r)
  then show ?thesis using keepsD [OF keeps_tryDefault] assms by blast
qed (use assms in \<open>auto simp: idle_timeout_def\<close>)

definition coherent_step :: "vault_env \<Rightarrow> 's server \<Rightarrow> vault \<times> 's \<Rightarrow> vault \<times> 's \<Rightarrow> bool" where
  "coherent_step env srv st st' = (pgp_ok env \<and> vault_step env srv st st')"

definition fresh_vault :: "vault \<times> 's \<Rightarrow> bool" where
  "fresh_vault st = (\<exists>ses loc. fst st = initial_vault ses loc)"

interpretation vault: invariant_system fresh_vault "coherent_step env srv" "\<lambda>st. vault_inv env (fst st)"
  for env :: vault_env and srv :: "'s server"
  by unfold_locales (auto simp: fresh_vault_def coherent_step_def vault_inv_initial intro: vault_step_inv)



end
