(* ===== verification/Vault_Decrypt.thy ===== *)
theory Vault_Decrypt
  imports Vault_Account
begin

text \<open>
  Signature verdicts, and the search for the identity that decrypts a message.
\<close>

section \<open>Signatures\<close>

lemma signature_loop_None:
  "signature_loop ss e = None \<longleftrightarrow> list_ex (\<lambda>s. \<forall>x. sg_verified s \<noteq> RejectedWith x) ss"
  by (induction ss e rule: signature_loop.induct) (auto split: verified.splits)

lemma fingerprintFromVerificationKeys_sound:
  assumes "fingerprintFromVerificationKeys env keys ids = fp" and "fp \<noteq> []"
  shows "\<exists>k f. k \<in> set keys \<and> pg_keyFingerprint (ve_pg env) k = Inr f \<and> fp = normalizeFingerprint (JStr f)
    \<and> (fingerprintKeyId16 (JStr fp) \<in> set ids \<or> filter (\<lambda>i. i \<noteq> []) ids = [])"
  using assms
proof (induction keys)
  case (Cons key keys)
  show ?case
  proof (cases "fingerprintFromVerificationKeys env keys ids = fp")
    case True
    with Cons.IH Cons.prems(2) show ?thesis by (metis list.set_intros(2))
  next
    case False
    then show ?thesis using Cons.prems(1)
      by (cases "pg_keyFingerprint (ve_pg env) key") (auto simp: Let_def split: if_splits)
  qed
qed simp

text \<open>
  The verdict on a message's signatures: it is unsigned exactly when there is no signature, the key
  is missing exactly when there are signatures and no key to check them with, and otherwise it counts
  as verified exactly when some signature has a promise that did not reject (or none at all). A signer
  fingerprint, when one is reported, is that of one of the given keys, and one of the signatures names
  its key id unless no signature names any.
\<close>

theorem signature_verdict:
  "let r = summarizeSignatureVerification env sigs keys; fp = vf_signerFingerprint r in
     (vf_status r = ''unsigned'' \<longleftrightarrow> sigs = [])
     \<and> (vf_status r = ''missing_public_key'' \<longleftrightarrow> sigs \<noteq> [] \<and> keys = [])
     \<and> (vf_status r = ''verified'' \<longleftrightarrow> keys \<noteq> [] \<and> list_ex (\<lambda>s. \<forall>x. sg_verified s \<noteq> RejectedWith x) sigs)
     \<and> (vf_status r = ''bad_signature'' \<longleftrightarrow>
          keys \<noteq> [] \<and> sigs \<noteq> [] \<and> \<not> list_ex (\<lambda>s. \<forall>x. sg_verified s \<noteq> RejectedWith x) sigs)
     \<and> (fp = [] \<or> (\<exists>k f. k \<in> set keys \<and> pg_keyFingerprint (ve_pg env) k = Inr f \<and> fp = normalizeFingerprint (JStr f)
          \<and> (fingerprintKeyId16 (JStr fp) \<in> set (vf_signerKeyIDs r) \<or> vf_signerKeyIDs r = [])))"
proof (cases "sigs = [] \<or> keys = []")
  case True
  then show ?thesis by (auto simp: summarizeSignatureVerification_def Let_def)
next
  case False
  let ?ids = "filter (\<lambda>i. i \<noteq> []) (map signatureKeyIDHex sigs)"
  let ?fp = "fingerprintFromVerificationKeys env keys ?ids"
  have "?fp = [] \<or> (\<exists>k f. k \<in> set keys \<and> pg_keyFingerprint (ve_pg env) k = Inr f \<and> ?fp = normalizeFingerprint (JStr f)
      \<and> (fingerprintKeyId16 (JStr ?fp) \<in> set ?ids \<or> ?ids = []))"
    using fingerprintFromVerificationKeys_sound [of env keys ?ids ?fp] by auto
  with False signature_loop_None [of sigs None] show ?thesis
    by (cases "signature_loop sigs None") (simp_all add: summarizeSignatureVerification_def Let_def)
qed

definition two_key_env :: "vault_env \<Rightarrow> vault_env" where
  "two_key_env env = env\<lparr>ve_pg := (ve_pg env)\<lparr>pg_keyFingerprint := Inr\<rparr>\<rparr>"

text \<open>
  The reported signer need not be the signer that verified: of two signatures, a rejected one by
  the key \<open>AA\<close> and a valid one by the key \<open>BB\<close>, the verdict is ``verified'' with the fingerprint of
  \<open>AA\<close>, the first given key that any of the signatures names.
\<close>

theorem verified_signer_misattributed:
  "summarizeSignatureVerification (two_key_env env)
     [\<lparr>sg_keyID = Some ''aa'', sg_verified = RejectedWith (Error ''bad'')\<rparr>,
      \<lparr>sg_keyID = Some ''bb'', sg_verified = Fulfilled\<rparr>] [''AA'', ''BB'']
   = \<lparr>vf_status = ''verified'', vf_signed = True, vf_signerKeyIDs = [''AA'', ''BB''],
      vf_signerFingerprint = ''AA'', vf_error = []\<rparr>"
proof -
  have "toUpperCase ''aa'' = ''AA''" "toUpperCase ''bb'' = ''BB''" "normalizeFingerprint (JStr ''AA'') = ''AA''"
      "fingerprintKeyId16 (JStr ''AA'') = ''AA''" by code_simp+
  then show ?thesis by (simp add: summarizeSignatureVerification_def signatureKeyIDHex_def two_key_env_def Let_def)
qed

section \<open>Decrypting with the first identity that works\<close>

text \<open>All of the fingerprints fail in turn: the state afterwards and the last error.\<close>

fun failing :: "vault_env \<Rightarrow> 's server \<Rightarrow> int \<Rightarrow> ciphertext \<Rightarrow> jsval list \<Rightarrow> string list \<Rightarrow> exn option \<Rightarrow> vault \<times> 's
    \<Rightarrow> ((vault \<times> 's) \<times> exn option) option" where
  "failing env srv now ct rows [] err st = Some (st, err)"
| "failing env srv now ct rows (fp # fps) err st =
     (case decryptToString env srv now ct (JStr fp) (Some rows) st of
        (Inr d, st') \<Rightarrow> None
      | (Inl e, st') \<Rightarrow> failing env srv now ct rows fps (Some e) st')"

lemma try_decrypt_result:
  assumes "try_decrypt env srv now ct rows fps err st = (r, st')"
  shows "case r of
      Inr (d, fp) \<Rightarrow> \<exists>pre post u e. fps = pre @ fp # post \<and> failing env srv now ct rows pre err st = Some (u, e)
          \<and> decryptToString env srv now ct (JStr fp) (Some rows) u = (Inr d, st')
    | Inl e \<Rightarrow> \<exists>err'. failing env srv now ct rows fps err st = Some (st', err')
          \<and> e = (case err' of Some x \<Rightarrow> x | None \<Rightarrow> Error ''no identity decrypts message'')"
  using assms
proof (induction fps arbitrary: err st)
  case (Cons fp fps)
  obtain x u where d: "decryptToString env srv now ct (JStr fp) (Some rows) st = (x, u)"
    by (cases "decryptToString env srv now ct (JStr fp) (Some rows) st")
  show ?case
  proof (cases x)
    case (Inr y)
    then have r: "r = Inr (y, fp)" "u = st'" using Cons.prems d by simp_all
    have "fp # fps = [] @ fp # fps \<and> failing env srv now ct rows [] err st = Some (st, err)
        \<and> decryptToString env srv now ct (JStr fp) (Some rows) st = (Inr y, st')" using d r Inr by simp
    then show ?thesis unfolding r(1) sum.case prod.case by blast
  next
    case (Inl e)
    then have run: "try_decrypt env srv now ct rows fps (Some e) u = (r, st')" using Cons.prems d by simp
    show ?thesis
    proof (cases r)
      case Inl' : (Inl e')
      then show ?thesis using Cons.IH [OF run] d Inl by simp
    next
      case Inr' : (Inr y)
      obtain dd f where y: "y = (dd, f)" by (cases y)
      from Cons.IH [OF run] obtain pre post w e' where "fps = pre @ f # post"
          "failing env srv now ct rows pre (Some e) u = Some (w, e')"
          "decryptToString env srv now ct (JStr f) (Some rows) w = (Inr dd, st')" by (auto simp: Inr' y)
      then have "fp # fps = (fp # pre) @ f # post \<and> failing env srv now ct rows (fp # pre) err st = Some (w, e')
          \<and> decryptToString env srv now ct (JStr f) (Some rows) w = (Inr dd, st')" using d Inl by simp
      then show ?thesis unfolding Inr' y sum.case prod.case by blast
    qed
  qed
qed simp

text \<open>
  \<open>tryDefaultDecrypt\<close> returns the plain text of the first identity, in its order, that decrypts
  the message: every identity before it has failed, in that order. When it throws after the identities
  were fetched, every one of them has failed, and the error is the last failure. It starts with the
  default identity, if there is one among the identities with key material.
\<close>

theorem default_decrypt_first_success:
  assumes "isUnlocked (fst st)" and "fetchIdentityRows srv st = (Inr rows, st0)"
    and "tryDefaultDecrypt env srv now ct st = (r, st')"
  shows "(case r of
      Inr (d, fp) \<Rightarrow> \<exists>pre post u e. decrypt_order rows (fst st0) = pre @ fp # post
          \<and> failing env srv now ct rows pre None st0 = Some (u, e)
          \<and> decryptToString env srv now ct (JStr fp) (Some rows) u = (Inr d, st')
    | Inl e \<Rightarrow> \<exists>err. failing env srv now ct rows (decrypt_order rows (fst st0)) None st0 = Some (st', err)
          \<and> e = (case err of Some x \<Rightarrow> x | None \<Rightarrow> Error ''no identity decrypts message''))
    \<and> (case List.find (\<lambda>r. truthy (getp r ''is_default'')) (filter usable_row rows) of
         None \<Rightarrow> True
       | Some row \<Rightarrow> row_fingerprint row = [] \<or> (\<exists>fps. decrypt_order rows (fst st0) = row_fingerprint row # fps))"
proof
  have "try_decrypt env srv now ct rows (decrypt_order rows (fst st0)) None st0 = (r, st')"
    using assms by (simp add: tryDefaultDecrypt_def bindI_def)
  from try_decrypt_result [OF this] show "case r of
      Inr (d, fp) \<Rightarrow> \<exists>pre post u e. decrypt_order rows (fst st0) = pre @ fp # post
          \<and> failing env srv now ct rows pre None st0 = Some (u, e)
          \<and> decryptToString env srv now ct (JStr fp) (Some rows) u = (Inr d, st')
    | Inl e \<Rightarrow> \<exists>err. failing env srv now ct rows (decrypt_order rows (fst st0)) None st0 = Some (st', err)
          \<and> e = (case err of Some x \<Rightarrow> x | None \<Rightarrow> Error ''no identity decrypts message'')" .
next
  show "case List.find (\<lambda>r. truthy (getp r ''is_default'')) (filter usable_row rows) of
         None \<Rightarrow> True
       | Some row \<Rightarrow> row_fingerprint row = [] \<or> (\<exists>fps. decrypt_order rows (fst st0) = row_fingerprint row # fps)"
  proof (cases "List.find (\<lambda>r. truthy (getp r ''is_default'')) (filter usable_row rows)")
    case (Some row)
    then have "row \<in> set (filter usable_row rows)" unfolding find_Some_iff by (metis nth_mem)
    then have "row_fingerprint row \<noteq> [] \<Longrightarrow>
        row_fingerprint row \<in> set (filter (\<lambda>f. f \<noteq> []) (map row_fingerprint (filter usable_row rows)))" by auto
    then show ?thesis by (auto simp: Some decrypt_order_def Let_def move_to_front_def)
  qed simp
qed

definition demo_identity_server :: "unit server" where
  "demo_identity_server s rq =
     (Inr \<lparr>rs_status = 200, rs_body = utf8_encode ''{\"identities\":[{\"fingerprint\":\"AA\",\"armored_public\":\"AA\"},{\"fingerprint\":\"i\",\"armored_public\":\"I\",\"wrapped_secret_armored\":\"*I\",\"is_default\":true}]}''\<rparr>, s)"

definition demo_unlocked :: vault where
  "demo_unlocked = touch 0 (hydrated ''*'' ''*'' ''*'' ''*'' demo_vault)"

lemma demo_decrypt:
  "fst (tryDefaultDecrypt (demo_env 0) demo_identity_server 0 (CText ''Ihello'') (demo_unlocked, ())) = Inr (''hello'', ''I'')"
  by code_simp

theorem default_decrypt_first_success_witness:
  "\<exists>rows st0 u st'. fetchIdentityRows demo_identity_server (demo_unlocked, ()) = (Inr rows, st0)
    \<and> decrypt_order rows (fst st0) = [''I'']
    \<and> decryptToString (demo_env 0) demo_identity_server 0 (CText ''Ihello'') (JStr ''I'') (Some rows) u = (Inr ''hello'', st')"
proof -
  obtain r st' where run: "tryDefaultDecrypt (demo_env 0) demo_identity_server 0 (CText ''Ihello'') (demo_unlocked, ()) = (r, st')"
    by (cases "tryDefaultDecrypt (demo_env 0) demo_identity_server 0 (CText ''Ihello'') (demo_unlocked, ())")
  have unl: "isUnlocked (fst (demo_unlocked, ()))"
    by (simp add: demo_unlocked_def isUnlocked_memory vault_simps)
  have rows: "fetchIdentityRows demo_identity_server (demo_unlocked, ()) =
      (Inr [JObj [(''fingerprint'', JStr ''AA''), (''armored_public'', JStr ''AA'')],
            JObj [(''fingerprint'', JStr ''i''), (''armored_public'', JStr ''I''), (''wrapped_secret_armored'', JStr ''*I''), (''is_default'', JBool True)]],
       (demo_unlocked, ()))" (is "_ = (Inr ?rows, _)")
  proof -
    have "fst (fetchIdentityRows demo_identity_server (demo_unlocked, ())) = Inr ?rows" by code_simp
    moreover have "snd (fetchIdentityRows demo_identity_server st) = st" for st
      by (cases st) (auto simp: fetchIdentityRows_def bindI_def fetch_v_def demo_identity_server_def throwI_def liftI_def returnI_def split: sum.split)
    ultimately show ?thesis by (metis prod.collapse)
  qed
  have order: "decrypt_order ?rows (fst (demo_unlocked, ())) = [''I'']" by code_simp
  have r: "r = Inr (''hello'', ''I'')" using demo_decrypt run by simp
  from default_decrypt_first_success [OF unl rows run] obtain u where
      "decryptToString (demo_env 0) demo_identity_server 0 (CText ''Ihello'') (JStr ''I'') (Some ?rows) u = (Inr ''hello'', st')"
    unfolding r sum.case prod.case by blast
  then show ?thesis using rows order by blast
qed

end
