(* ===== verification/Tokenize.thy ===== *)
theory Tokenize
  imports Mail_Text Grouping
begin

text \<open>
  \<^verbatim>\<open>static/mail/search/tokenize.js\<close>: words of a text for the search index. \<open>Intl.Segmenter\<close> is a parameter;
  the fallback for browsers without it is the regular expression for runs of letters and numbers,
  written out for code units below 256.
\<close>

section \<open>Definitions\<close>

definition STOP_WORDS :: "string list" where
  "STOP_WORDS =
     [''a'', ''an'', ''and'', ''are'', ''as'', ''at'', ''be'', ''but'', ''by'', ''for'', ''from'',
      ''has'', ''have'', ''i'', ''if'', ''in'', ''into'', ''is'', ''it'', ''its'', ''me'', ''my'',
      ''no'', ''not'', ''of'', ''on'', ''or'', ''so'', ''that'', ''the'', ''this'', ''to'',
      ''was'', ''we'', ''were'', ''will'', ''with'', ''you'', ''your'']"

text \<open>\<open>[\p{Letter}\p{Number}]\<close> on the first 256 code units.\<close>

definition letter_or_number :: "char \<Rightarrow> bool" where
  "letter_or_number c =
     (let n = code_unit c in
      48 \<le> n \<and> n \<le> 57 \<or> 65 \<le> n \<and> n \<le> 90 \<or> 97 \<le> n \<and> n \<le> 122
      \<or> n \<in> {170, 178, 179, 181, 185, 186, 188, 189, 190} \<or> 192 \<le> n \<and> n \<noteq> 215 \<and> n \<noteq> 247)"

record segment_part =
  sp_segment :: string
  sp_index :: nat
  sp_isWordLike :: bool

type_synonym segment_fn = "string \<Rightarrow> segment_part list"

text \<open>The module variable \<open>segmenter\<close>; \<open>avail\<close> is what \<open>new Intl.Segmenter\<close> gives, if it can be built.\<close>

datatype segmenter = SegNull | SegFalse | Seg segment_fn

definition getSegmenter :: "segment_fn option \<Rightarrow> segmenter \<Rightarrow> segment_fn option \<times> segmenter" where
  "getSegmenter avail s =
     (case s of
        Seg g \<Rightarrow> (Some g, s)
      | SegFalse \<Rightarrow> (None, s)
      | SegNull \<Rightarrow> (case avail of Some g \<Rightarrow> (Some g, Seg g) | None \<Rightarrow> (None, SegFalse)))"

record token =
  tk_term :: string
  tk_position :: nat

text \<open>Successive matches of \<open>FALLBACK_RE\<close>, with their positions.\<close>

function word_runs :: "nat \<Rightarrow> string \<Rightarrow> (string \<times> nat) list" where
  "word_runs pos [] = []"
| "word_runs pos (c # s) =
     (if letter_or_number c then
        (let w = takeWhile letter_or_number (c # s) in
         (w, pos) # word_runs (pos + length w) (dropWhile letter_or_number (c # s)))
      else word_runs (Suc pos) s)"
  by pat_completeness auto
termination
  by (relation "measure (length \<circ> snd)") (auto simp: length_dropWhile_le le_imp_less_Suc)

definition keep_word :: "string list \<Rightarrow> string \<times> nat \<Rightarrow> token option" where
  "keep_word stops wp =
     (let w = toLowerCase (fst wp) in
      if length w < 2 \<or> w \<in> set stops then None else Some \<lparr>tk_term = w, tk_position = snd wp\<rparr>)"

definition tokenize :: "segment_fn option \<Rightarrow> bool \<Rightarrow> string \<Rightarrow> token list" where
  "tokenize seg includeStopWords text =
     (let stops = (if includeStopWords then [] else STOP_WORDS);
          words = (case seg of
                     Some g \<Rightarrow> map (\<lambda>p. (sp_segment p, sp_index p)) (filter sp_isWordLike (g text))
                   | None \<Rightarrow> word_runs 0 text)
      in if text = [] then [] else List.map_filter (keep_word stops) words)"

record bucket =
  bk_term :: string
  bk_tf :: nat
  bk_positions :: "nat list"

text \<open>One round of the loop of \<open>uniqueTerms\<close>; the \<open>Map\<close> keeps the order of insertion.\<close>

definition add_token :: "token \<Rightarrow> (string \<times> bucket) list \<Rightarrow> (string \<times> bucket) list" where
  "add_token t m =
     (let b = (case map_of m (tk_term t) of
                 Some b \<Rightarrow> b
               | None \<Rightarrow> \<lparr>bk_term = tk_term t, bk_tf = 0, bk_positions = []\<rparr>)
      in AList.update (tk_term t)
           (b\<lparr>bk_tf := bk_tf b + 1,
             bk_positions := (if length (bk_positions b) < 64 then bk_positions b @ [tk_position t] else bk_positions b)\<rparr>) m)"

definition uniqueTerms :: "token list \<Rightarrow> bucket list" where
  "uniqueTerms tokens = map snd (fold add_token tokens [])"

section \<open>The terms of a text\<close>

text \<open>The reference: each term once, in the order of first occurrence, with all that is said about it.\<close>

definition term_bucket :: "token list \<Rightarrow> string \<Rightarrow> bucket" where
  "term_bucket tokens t =
     (let ps = map tk_position (filter (\<lambda>k. tk_term k = t) tokens) in
      \<lparr>bk_term = t, bk_tf = length ps, bk_positions = take 64 ps\<rparr>)"

definition start_bucket :: "token \<Rightarrow> bucket" where
  "start_bucket t = \<lparr>bk_term = tk_term t, bk_tf = 1, bk_positions = [tk_position t]\<rparr>"

definition grow_bucket :: "token \<Rightarrow> bucket \<Rightarrow> bucket" where
  "grow_bucket t b =
     b\<lparr>bk_tf := bk_tf b + 1,
       bk_positions := (if length (bk_positions b) < 64 then bk_positions b @ [tk_position t] else bk_positions b)\<rparr>"

lemma add_token_group: "add_token = group_step tk_term start_bucket grow_bucket"
  by (auto simp: fun_eq_iff add_token_def group_step_def start_bucket_def grow_bucket_def Let_def split: option.split)

lemma entry_of_bucket:
  "ys \<noteq> [] \<Longrightarrow> (\<And>y. y \<in> set ys \<Longrightarrow> tk_term y = t) \<Longrightarrow>
     entry_of start_bucket grow_bucket ys = \<lparr>bk_term = t, bk_tf = length ys, bk_positions = take 64 (map tk_position ys)\<rparr>"
proof (induction ys rule: rev_induct)
  case (snoc y ys)
  show ?case
  proof (cases "ys = []")
    case True
    then show ?thesis using snoc.prems by (simp add: start_bucket_def)
  next
    case False
    then show ?thesis using snoc by (simp add: entry_of_snoc grow_bucket_def)
  qed
qed simp

lemma fold_add_token:
  "fold add_token tokens [] = map (\<lambda>t. (t, term_bucket tokens t)) (first_occurrences (map tk_term tokens))"
proof -
  have "entry_of start_bucket grow_bucket (filter (\<lambda>k. tk_term k = t) tokens) = term_bucket tokens t"
    if "t \<in> set (first_occurrences (map tk_term tokens))" for t
    using that by (subst entry_of_bucket) (auto simp: term_bucket_def Let_def filter_empty_conv)
  then show ?thesis by (simp add: add_token_group fold_group_step)
qed

text \<open>
  \<open>uniqueTerms\<close> computes exactly the reference: every term of the tokens once, in the order of
  first occurrence, with the number of its occurrences and its first sixty-four positions.
\<close>

theorem uniqueTerms_reference:
  "uniqueTerms tokens = map (term_bucket tokens) (first_occurrences (map tk_term tokens))"
  by (simp add: uniqueTerms_def fold_add_token)

section \<open>The fallback\<close>

lemma drop_behind: "length u \<le> n \<Longrightarrow> drop n (u @ r) = drop (n - length u) r"
  by simp

lemma word_runs_sound:
  "(w, p) \<in> set (word_runs pos s) \<Longrightarrow>
     pos \<le> p \<and> w \<noteq> [] \<and> list_all letter_or_number w \<and> take (length w) (drop (p - pos) s) = w"
proof (induction pos s rule: word_runs.induct)
  case (2 pos c s)
  show ?case
  proof (cases "letter_or_number c")
    case True
    let ?w = "takeWhile letter_or_number (c # s)" and ?r = "dropWhile letter_or_number (c # s)"
    have split: "c # s = ?w @ ?r" by (rule takeWhile_dropWhile_id [symmetric])
    have "(w, p) = (?w, pos) \<or> (w, p) \<in> set (word_runs (pos + length ?w) ?r)"
      using 2(3) True unfolding word_runs.simps Let_def by (auto simp del: takeWhile.simps dropWhile.simps)
    then show ?thesis
    proof
      assume eq: "(w, p) = (?w, pos)"
      have "list_all letter_or_number ?w" unfolding list_all_iff by (blast dest: set_takeWhileD)
      moreover have "take (length ?w) (c # s) = ?w" by (subst split) simp
      moreover have "?w \<noteq> []" using True by simp
      ultimately show ?thesis using eq by (simp del: takeWhile.simps)
    next
      assume "(w, p) \<in> set (word_runs (pos + length ?w) ?r)"
      then have ih: "pos + length ?w \<le> p" "w \<noteq> []" "list_all letter_or_number w"
          "take (length w) (drop (p - (pos + length ?w)) ?r) = w"
        using 2(1) [OF True refl] by auto
      have "drop (p - pos) (c # s) = drop (p - pos) (?w @ ?r)" by (rule arg_cong [OF split])
      also have "\<dots> = drop (p - pos - length ?w) ?r"
        by (rule drop_behind) (use ih(1) in \<open>simp del: takeWhile.simps\<close>)
      finally have "drop (p - pos) (c # s) = drop (p - (pos + length ?w)) ?r" by (simp only: diff_diff_left)
      with ih show ?thesis by (simp del: takeWhile.simps)
    qed
  next
    case False
    then have ih: "Suc pos \<le> p" "w \<noteq> []" "list_all letter_or_number w" "take (length w) (drop (p - Suc pos) s) = w"
      using 2(2) [OF False] 2(3) by auto
    then have "p - pos = Suc (p - Suc pos)" by simp
    with ih show ?thesis by simp
  qed
qed simp

text \<open>
  Without \<open>Intl.Segmenter\<close>, every token is a word of the text at its position: it consists of the
  lower-case forms of the letters and numbers that stand there, has at least two characters, and is no
  stop word.
\<close>

theorem fallback_tokens_sound:
  assumes "t \<in> set (tokenize None False s)"
  shows "\<exists>w. list_all letter_or_number w \<and> take (length w) (drop (tk_position t) s) = w
    \<and> tk_term t = toLowerCase w \<and> 2 \<le> length (tk_term t) \<and> tk_term t \<notin> set STOP_WORDS"
proof -
  obtain w p where wp: "(w, p) \<in> set (word_runs 0 s)" "keep_word STOP_WORDS (w, p) = Some t"
    using assms by (auto simp: tokenize_def Let_def map_filter_def split: if_splits)
  from word_runs_sound [OF wp(1)] wp(2) show ?thesis
    by (intro exI [of _ w]) (auto simp: keep_word_def Let_def split: if_splits)
qed

theorem fallback_tokens_sound_witness:
  "\<exists>w. list_all letter_or_number w \<and> take (length w) (drop 4 ''The Elf42!'') = w \<and> ''elf42'' = toLowerCase w"
proof -
  have "\<lparr>tk_term = ''elf42'', tk_position = 4\<rparr> \<in> set (tokenize None False ''The Elf42!'')" by code_simp
  from fallback_tokens_sound [OF this] show ?thesis by auto
qed

lemma letter_or_number_lower: "letter_or_number \<circ> lower_char = letter_or_number"
  by (auto simp: fun_eq_iff letter_or_number_def lower_char_def code_unit_def Let_def)

lemma word_runs_lower: "word_runs pos (toLowerCase s) = map (\<lambda>(w, p). (toLowerCase w, p)) (word_runs pos s)"
proof (induction pos s rule: word_runs.induct)
  case (2 pos c s)
  have l: "letter_or_number (lower_char x) = letter_or_number x" for x
    using letter_or_number_lower by (metis comp_apply)
  have tw: "takeWhile letter_or_number (map lower_char xs) = map lower_char (takeWhile letter_or_number xs)" for xs
    by (simp add: takeWhile_map letter_or_number_lower)
  have dw: "dropWhile letter_or_number (map lower_char xs) = map lower_char (dropWhile letter_or_number xs)" for xs
    by (simp add: dropWhile_map letter_or_number_lower)
  show ?case
  proof (cases "letter_or_number c")
    case True
    from 2(1) [OF True refl] show ?thesis
      using True by (simp add: toLowerCase_def l tw dw Let_def)
  next
    case False
    from 2(2) [OF False] show ?thesis using False by (simp add: toLowerCase_def l)
  qed
qed (simp add: toLowerCase_def)

text \<open>
  Without \<open>Intl.Segmenter\<close>, search ignores case: a text and its lower-case form have the same
  tokens, at the same positions.
\<close>

theorem tokenize_ignores_case: "tokenize None b (toLowerCase s) = tokenize None b s"
proof -
  have "keep_word stops (case wp of (w, p) \<Rightarrow> (toLowerCase w, p)) = keep_word stops wp" for stops wp
    by (cases wp) (simp add: keep_word_def Let_def)
  then show ?thesis
    by (simp add: tokenize_def word_runs_lower map_filter_def filter_map comp_def Let_def)
qed

end
