(* ===== verification/Search_Worker.thy ===== *)
theory Search_Worker
  imports Index_Db Tokenize Vault_Mime Stable_Sort Complex_Main
begin

text \<open>
  \<^verbatim>\<open>static/mail/search/worker.js\<close>: the web worker that owns the body index. Its module variables and the
  database are the state; each message it receives is handled to the end before the next. openpgp,
  WebCrypto, the fetch of a body blob, \<open>importScripts\<close> and the URL parser are parameters, and
  \<open>we_nonce i\<close> is the nonce of the \<open>i\<close>-th sealing of a message. Scores are real numbers.
\<close>

section \<open>State\<close>

record worker_env =
  we_ke :: key_env
  we_nonce :: "nat \<Rightarrow> bytes"
  we_now :: string
  we_fetch :: "string \<Rightarrow> http_response result"
  we_openpgp :: bool                              \<comment> \<open>\<open>typeof openpgp !== "undefined"\<close>\<close>
  we_readMessage :: "pgp_input \<Rightarrow> string result"
  we_readPrivateKey :: "string \<Rightarrow> string result"
  we_decrypt :: "string \<Rightarrow> string \<Rightarrow> bytes result"   \<comment> \<open>message, key\<close>
  we_import :: "string \<Rightarrow> unit result"
  we_url :: "string \<Rightarrow> string \<Rightarrow> url result"
  we_url_abs :: "string \<Rightarrow> url result"
  we_href :: string
  we_dp :: "dom_parser option"
  we_seg :: "segment_fn option"

record worker =
  wk_idb :: idb
  wk_db :: bool
  wk_indexKey :: "bytes option"
  wk_identityFingerprint :: string
  wk_identityArmoredPrivate :: string
  wk_openpgpReady :: bool
  wk_inflight :: "string list"

text \<open>The messages of the page; \<open>send\<close> puts a request id on the ones it waits for.\<close>

datatype worker_msg =
    Init "bytes option" jsval jsval jsval     \<comment> \<open>seed, fingerprint, armored key, script URL\<close>
  | Index jsval string                        \<comment> \<open>message id, blob URL\<close>
  | Search jsval jsval nat                    \<comment> \<open>query, limit, request id\<close>
  | Cancel string
  | Purge
  | OtherKind string

record hit =
  h_message_id :: string
  h_score :: real
  h_snippet :: jsval
  h_indexed_at :: jsval

datatype reply =
    Ready string
  | Indexed string nat
  | SearchResult nat "hit list"
  | Purged
  | ErrorReply string string

definition new_worker :: "idb \<Rightarrow> worker" where
  "new_worker d = \<lparr>wk_idb = d, wk_db = False, wk_indexKey = None, wk_identityFingerprint = [], wk_identityArmoredPrivate = [],
     wk_openpgpReady = False, wk_inflight = []\<rparr>"

definition in_db :: "(idb, 'a) io \<Rightarrow> (worker, 'a) io" where
  "in_db m w = (case m (wk_idb w) of (r, d) \<Rightarrow> (r, w\<lparr>wk_idb := d\<rparr>))"

definition modify_wk :: "(worker \<Rightarrow> worker) \<Rightarrow> (worker, unit) io" where
  "modify_wk f w = (Inr (), f w)"

section \<open>Initialisation\<close>

definition meta_value :: "worker_env \<Rightarrow> worker \<Rightarrow> jsval" where
  "meta_value env w =
     JObj [(''schema_version'', jint 1), (''identity_fingerprint'', JStr (wk_identityFingerprint w)),
           (''last_indexed_at'', JStr (we_now env))]"

text \<open>\<open>await put(t.objectStore(STORE_META), "v1", await sealJSON(\<dots>))\<close> evaluates the sealing before the put.\<close>

definition writeMeta :: "worker_env \<Rightarrow> bytes \<Rightarrow> (worker, unit) io" where
  "writeMeta env key w =
     bindI (in_db (tx [STORE_META] True)) (\<lambda>_.
     bindI (in_db (await_other (sealJSON (we_ke env) (we_nonce env 0) key (meta_value env w)))) (\<lambda>sealed.
     bindI (in_db (db_put STORE_META ''v1'' sealed)) (\<lambda>_.
     in_db txComplete))) w"

definition load_openpgp :: "worker_env \<Rightarrow> jsval \<Rightarrow> (worker, unit) io" where
  "load_openpgp env scriptUrl w =
     (if wk_openpgpReady w then (Inr (), w)
      else if we_openpgp env then (Inr (), w\<lparr>wk_openpgpReady := True\<rparr>)
      else if truthy scriptUrl then
        (case bindR (validatedSameOriginScriptURL (we_url env) (we_url_abs env) (we_href env) (to_string scriptUrl) (we_href env))
                (we_import env) of
           Inl e \<Rightarrow> (Inl e, w)
         | Inr _ \<Rightarrow> (Inr (), w\<lparr>wk_openpgpReady := True\<rparr>))
      else (Inr (), w))"

definition handleInit :: "worker_env \<Rightarrow> bytes option \<Rightarrow> jsval \<Rightarrow> jsval \<Rightarrow> jsval \<Rightarrow> (worker, unit) io" where
  "handleInit env seed fp armored scriptUrl =
     (case seed of
        None \<Rightarrow> throwI (Error ''init requires identitySearchSeed'')
      | Some s \<Rightarrow>
          bindI (modify_wk (\<lambda>w. w\<lparr>wk_identityFingerprint := str_or_empty fp, wk_identityArmoredPrivate := str_or_empty armored\<rparr>)) (\<lambda>_.
          bindI (in_db (await_other (deriveIndexKey (we_ke env) s))) (\<lambda>key.
          bindI (modify_wk (\<lambda>w. w\<lparr>wk_indexKey := Some key\<rparr>)) (\<lambda>_.
          bindI (in_db openDB) (\<lambda>_.
          bindI (modify_wk (\<lambda>w. w\<lparr>wk_db := True\<rparr>)) (\<lambda>_.
          bindI (load_openpgp env scriptUrl) (\<lambda>_.
          writeMeta env key)))))))"

section \<open>Indexing\<close>

definition pgpDecrypt :: "worker_env \<Rightarrow> worker \<Rightarrow> bytes \<Rightarrow> bytes result" where
  "pgpDecrypt env w cipher =
     (if \<not> wk_openpgpReady w \<or> \<not> we_openpgp env then Inl (Error ''openpgp.js not loaded'')
      else
        bindR (bindR (input_of_bytes (ke_td (we_ke env)) cipher) (we_readMessage env)) (\<lambda>message.
        bindR (we_readPrivateKey env (wk_identityArmoredPrivate w)) (\<lambda>privKey.
        we_decrypt env message privKey)))"

definition mimeToText :: "worker_env \<Rightarrow> bytes \<Rightarrow> string" where
  "mimeToText env bs =
     (let text = ke_td (we_ke env) bs;
          sep = indexOf text [cr_char, lf, cr_char, lf];
          body = (if 0 < sep then slice_from (sep + 4) text else text);
          sigStart = indexOf body BEGIN_SIGNATURE;
          body1 = (if 0 \<le> sigStart then slice 0 sigStart body else body)
      in htmlToPlainSearchText (we_dp env) body1)"

text \<open>\<open>x += 1\<close>.\<close>

fun js_incr :: "jsval \<Rightarrow> jsval" where
  "js_incr (JNum (Fin n)) = jint (n + 1)"
| "js_incr (JNum x) = JNum x"
| "js_incr JUndef = JNum NaN"
| "js_incr JNull = jint 1"
| "js_incr (JBool b) = jint (if b then 2 else 1)"
| "js_incr v = JStr (to_string v @ ''1'')"

text \<open>\<open>postings.findIndex((p) => p.message_id === messageId)\<close>.\<close>

fun find_posting :: "string \<Rightarrow> jsval list \<Rightarrow> nat option result" where
  "find_posting i [] = Inr None"
| "find_posting i (p # ps) =
     bindR (getR p ''message_id'') (\<lambda>m.
     if strict_eq m (JStr i) then Inr (Some 0)
     else bindR (find_posting i ps) (\<lambda>r. Inr (map_option Suc r)))"

definition posting :: "string \<Rightarrow> bucket \<Rightarrow> jsval" where
  "posting messageId b =
     JObj [(''message_id'', JStr messageId), (''tf'', jint (int (bk_tf b))),
           (''positions'', JArr (map (\<lambda>p. jint (int p)) (bk_positions b)))]"

text \<open>The new value of a term: an old posting of the message is replaced, a new one counts in \<open>df\<close>.\<close>

definition merge_posting :: "string \<Rightarrow> bucket \<Rightarrow> jsval \<Rightarrow> jsval result" where
  "merge_posting messageId b opened =
     (let merged = (if truthy opened then opened
                    else JObj [(''term'', JStr (bk_term b)), (''df'', jint 0), (''postings'', JArr [])]) in
      case getp merged ''postings'' of
        JArr ps \<Rightarrow>
          bindR (find_posting messageId ps) (\<lambda>oldIdx.
          Inr (case oldIdx of
                 Some i \<Rightarrow> setp merged ''postings'' (JArr (take i ps @ drop (Suc i) ps @ [posting messageId b]))
               | None \<Rightarrow> setp (setp merged ''df'' (js_incr (getp merged ''df''))) ''postings'' (JArr (ps @ [posting messageId b]))))
      | _ \<Rightarrow> Inl TypeError)"

fun write_terms :: "worker_env \<Rightarrow> bytes \<Rightarrow> string \<Rightarrow> bucket list \<Rightarrow> nat \<Rightarrow> (idb, nat) io" where
  "write_terms env key messageId [] i = returnI i"
| "write_terms env key messageId (b # bs) i =
     bindI (db_get STORE_TERMS (bk_term b)) (\<lambda>existing.
     bindI (case existing of None \<Rightarrow> returnI JNull | Some e \<Rightarrow> await_other (openJSON (we_ke env) key e)) (\<lambda>opened.
     bindI (liftI (merge_posting messageId b opened)) (\<lambda>merged.
     bindI (await_other (sealJSON (we_ke env) (we_nonce env i) key merged)) (\<lambda>sealed.
     bindI (db_put STORE_TERMS (bk_term b) sealed) (\<lambda>_.
     write_terms env key messageId bs (Suc i))))))"

definition doc_value :: "worker_env \<Rightarrow> bucket list \<Rightarrow> string \<Rightarrow> jsval" where
  "doc_value env terms snippet =
     JObj [(''indexed_at'', JStr (we_now env)), (''term_count'', jint (int (length terms))), (''snippet'', JStr snippet)]"

definition writePostings :: "worker_env \<Rightarrow> bytes \<Rightarrow> string \<Rightarrow> bucket list \<Rightarrow> string \<Rightarrow> (idb, unit) io" where
  "writePostings env key messageId terms snippet =
     bindI (tx [STORE_TERMS, STORE_DOCS] True) (\<lambda>_.
     bindI (write_terms env key messageId terms 0) (\<lambda>i.
     bindI (await_other (sealJSON (we_ke env) (we_nonce env i) key (doc_value env terms snippet))) (\<lambda>sealed.
     bindI (db_put STORE_DOCS messageId sealed) (\<lambda>_.
     txComplete))))"

text \<open>The part of \<open>handleIndex\<close> inside \<open>try\<close>; it returns the number of terms.\<close>

definition index_body :: "worker_env \<Rightarrow> bytes \<Rightarrow> string \<Rightarrow> string \<Rightarrow> (worker, nat) io" where
  "index_body env key messageId blobUrl w =
     bindI (in_db (await_other (we_fetch env blobUrl))) (\<lambda>resp.
     if \<not> resp_ok resp then throwI (Error (''blob fetch '' @ status_string resp))
     else
       bindI (in_db (await_other (pgpDecrypt env w (rs_body resp)))) (\<lambda>plaintext.
       let text = mimeToText env plaintext;
           terms = uniqueTerms (tokenize (we_seg env) False text)
       in bindI (in_db (writePostings env key messageId terms (slice 0 240 text))) (\<lambda>_. returnI (length terms)))) w"

definition handleIndex :: "worker_env \<Rightarrow> jsval \<Rightarrow> string \<Rightarrow> (worker, reply list) io" where
  "handleIndex env mid blobUrl w =
     (case wk_indexKey w of
        None \<Rightarrow> (Inl (Error ''worker not initialized''), w)
      | Some key \<Rightarrow>
          if \<not> wk_db w then (Inl (Error ''worker not initialized''), w)
          else
            (let messageId = str_or_empty mid in
             if messageId = [] then (Inr [], w)
             else
               bindI (in_db (tx [STORE_DOCS] False)) (\<lambda>_.
               bindI (in_db (db_get STORE_DOCS messageId)) (\<lambda>existingDoc.
               case existingDoc of
                 Some doc \<Rightarrow> returnI [Indexed messageId 0]
               | None \<Rightarrow>
                   (\<lambda>w1. case index_body env key messageId blobUrl (w1\<lparr>wk_inflight := wk_inflight w1 @ [messageId]\<rparr>) of
                      (r, w2) \<Rightarrow>
                        (bindR r (\<lambda>n. Inr [Indexed messageId n]), w2\<lparr>wk_inflight := removeAll messageId (wk_inflight w2)\<rparr>)))) w))"

section \<open>Searching\<close>

text \<open>A promise that settles, or one that never does.\<close>

datatype 'a settlement = Settled "'a result" | Never

text \<open>
  The cursor of \<open>averageDocLength\<close>: each step waits for a decryption and then asks for the next entry
  in an asynchronous callback, whose exceptions settle nothing.
\<close>

fun doc_cursor :: "worker_env \<Rightarrow> bytes \<Rightarrow> store \<Rightarrow> int \<Rightarrow> nat \<Rightarrow> idb \<Rightarrow> real settlement \<times> idb" where
  "doc_cursor env key [] tot n d = (Settled (Inr (if n = 0 then 1 else real_of_int tot / real n)), d)"
| "doc_cursor env key (e # es) tot n d =
     (case await_other (openJSON (we_ke env) key (snd e)) d of
        (Inl _, d1) \<Rightarrow> (Never, d1)
      | (Inr doc, d1) \<Rightarrow>
          (let counts = (case (truthy doc, getp doc ''term_count'') of
                           (True, JNum (Fin k)) \<Rightarrow> (tot + k, Suc n)
                         | _ \<Rightarrow> (tot, n))
           in case request_error d1 STORE_DOCS False of
                Some _ \<Rightarrow> (Never, d1)
              | None \<Rightarrow> doc_cursor env key es (fst counts) (snd counts) d1))"

definition averageDocLength :: "worker_env \<Rightarrow> bytes \<Rightarrow> idb \<Rightarrow> real settlement \<times> idb" where
  "averageDocLength env key d =
     (case request_error d STORE_DOCS False of
        Some e \<Rightarrow> (Settled (Inl e), d)
      | None \<Rightarrow> doc_cursor env key (store_of d STORE_DOCS) 0 0 d)"

definition countDocs :: "(idb, nat) io" where
  "countDocs d =
     (case request_error d STORE_DOCS False of
        Some e \<Rightarrow> (Inl e, d)
      | None \<Rightarrow> (Inr (length (store_of d STORE_DOCS)), d))"

text \<open>Counts are numbers: they are read from values that were sealed under the index key.\<close>

fun js_real :: "jsval \<Rightarrow> real" where
  "js_real (JNum (Fin n)) = real_of_int n"
| "js_real _ = 0"

definition idf :: "real \<Rightarrow> real \<Rightarrow> real" where
  "idf n df = ln (1 + (n - df + 1 / 2) / (df + 1 / 2 :: real))"

definition tf_weight :: "real \<Rightarrow> real \<Rightarrow> real \<Rightarrow> real" where
  "tf_weight tf dl avgdl =
     (let k1 = 12 / 10; b = 75 / 100; norm = 1 - b + (b * dl) / max 1 avgdl
      in (tf * (k1 + 1)) / (tf + k1 * norm))"

text \<open>\<open>scores.set(id, (scores.get(id) || 0) + inc)\<close>.\<close>

definition add_score :: "string \<Rightarrow> real \<Rightarrow> (string \<times> real) list \<Rightarrow> (string \<times> real) list" where
  "add_score i inc scores =
     AList.update i ((case map_of scores i of Some x \<Rightarrow> x | None \<Rightarrow> 0) + inc) scores"

fun score_postings :: "worker_env \<Rightarrow> bytes \<Rightarrow> real \<Rightarrow> real \<Rightarrow> jsval list \<Rightarrow> (string \<times> real) list \<Rightarrow> (idb, (string \<times> real) list) io" where
  "score_postings env key w avgdl [] scores = returnI scores"
| "score_postings env key w avgdl (p # ps) scores =
     bindI (liftI (bindR (getR p ''message_id'') (\<lambda>m. Inr (to_string m)))) (\<lambda>mid.
     bindI (db_get STORE_DOCS mid) (\<lambda>docEnv.
     bindI (case docEnv of None \<Rightarrow> returnI JNull | Some e \<Rightarrow> await_other (openJSON (we_ke env) key e)) (\<lambda>doc.
     score_postings env key w avgdl ps
       (add_score mid (w * tf_weight (js_real (getp p ''tf'')) (if truthy doc then js_real (getp doc ''term_count'') else 0) avgdl) scores))))"

fun score_terms :: "worker_env \<Rightarrow> bytes \<Rightarrow> real \<Rightarrow> real \<Rightarrow> bucket list \<Rightarrow> (string \<times> real) list \<Rightarrow> (idb, (string \<times> real) list) io" where
  "score_terms env key numDocs avgdl [] scores = returnI scores"
| "score_terms env key numDocs avgdl (b # bs) scores =
     bindI (db_get STORE_TERMS (bk_term b)) (\<lambda>termEnv.
     case termEnv of
       None \<Rightarrow> score_terms env key numDocs avgdl bs scores
     | Some e \<Rightarrow>
         bindI (await_other (openJSON (we_ke env) key e)) (\<lambda>opened.
         if \<not> truthy opened then score_terms env key numDocs avgdl bs scores
         else
           (case getp opened ''postings'' of
              JArr ps \<Rightarrow>
                bindI (score_postings env key (idf numDocs (js_real (getp opened ''df''))) avgdl ps scores) (\<lambda>scores1.
                score_terms env key numDocs avgdl bs scores1)
            | _ \<Rightarrow> throwI TypeError)))"

fun make_hits :: "worker_env \<Rightarrow> bytes \<Rightarrow> (string \<times> real) list \<Rightarrow> (idb, hit list) io" where
  "make_hits env key [] = returnI []"
| "make_hits env key ((mid, score) # rs) =
     bindI (db_get STORE_DOCS mid) (\<lambda>docEnv.
     bindI (case docEnv of None \<Rightarrow> returnI JNull | Some e \<Rightarrow> await_other (openJSON (we_ke env) key e)) (\<lambda>doc.
     bindI (make_hits env key rs) (\<lambda>hits.
     returnI (\<lparr>h_message_id = mid, h_score = score,
               h_snippet = (if truthy doc then getp doc ''snippet'' else JStr []),
               h_indexed_at = (if truthy doc then getp doc ''indexed_at'' else JNull)\<rparr> # hits))))"

definition search_limit :: "jsval \<Rightarrow> nat" where
  "search_limit limit =
     (let n = (case to_number limit of Fin k \<Rightarrow> (if k = 0 then 25 else k) | Inf True \<Rightarrow> 100 | Inf False \<Rightarrow> 1 | NaN \<Rightarrow> 25)
      in nat (max 1 (min 100 n)))"

definition rank_le :: "string \<times> real \<Rightarrow> string \<times> real \<Rightarrow> bool" where
  "rank_le a b = (snd b \<le> snd a)"

definition rank :: "nat \<Rightarrow> (string \<times> real) list \<Rightarrow> (string \<times> real) list" where
  "rank limit scores = take limit (sort_by rank_le scores)"

definition run_search :: "worker_env \<Rightarrow> bytes \<Rightarrow> bucket list \<Rightarrow> nat \<Rightarrow> nat \<Rightarrow> real \<Rightarrow> (idb, hit list) io" where
  "run_search env key queryTerms limit numDocs avgdl =
     bindI (score_terms env key (real numDocs) avgdl queryTerms []) (\<lambda>scores.
     make_hits env key (rank limit scores))"

definition handleSearch :: "worker_env \<Rightarrow> jsval \<Rightarrow> jsval \<Rightarrow> worker \<Rightarrow> hit list settlement \<times> worker" where
  "handleSearch env query limit w =
     (case wk_indexKey w of
        None \<Rightarrow> (Settled (Inl (Error ''worker not initialized'')), w)
      | Some key \<Rightarrow>
          if \<not> wk_db w then (Settled (Inl (Error ''worker not initialized'')), w)
          else
            (let q = trim (str_or_empty query); queryTerms = uniqueTerms (tokenize (we_seg env) False q) in
             if q = [] \<or> queryTerms = [] then (Settled (Inr []), w)
             else
               (case bindI (tx [STORE_TERMS, STORE_DOCS] False) (\<lambda>_. countDocs) (wk_idb w) of
                  (Inl e, d1) \<Rightarrow> (Settled (Inl e), w\<lparr>wk_idb := d1\<rparr>)
                | (Inr numDocs, d1) \<Rightarrow>
                    (case averageDocLength env key d1 of
                       (Never, d2) \<Rightarrow> (Never, w\<lparr>wk_idb := d2\<rparr>)
                     | (Settled (Inl e), d2) \<Rightarrow> (Settled (Inl e), w\<lparr>wk_idb := d2\<rparr>)
                     | (Settled (Inr avgdl), d2) \<Rightarrow>
                         (case run_search env key queryTerms (search_limit limit) numDocs avgdl d2 of
                            (r, d3) \<Rightarrow> (Settled r, w\<lparr>wk_idb := d3\<rparr>))))))"

section \<open>The message handler\<close>

definition error_text :: "exn \<Rightarrow> string" where
  "error_text e = (case e of Error m \<Rightarrow> (if m \<noteq> [] then m else ''Error'') | TypeError \<Rightarrow> ''TypeError''
     | RangeError \<Rightarrow> ''RangeError'' | DOMError n \<Rightarrow> n)"

definition onmessage :: "worker_env \<Rightarrow> worker_msg \<Rightarrow> worker \<Rightarrow> reply list \<times> worker" where
  "onmessage env msg w =
     (case msg of
        Init seed fp armored scriptUrl \<Rightarrow>
          (case handleInit env seed fp armored scriptUrl w of
             (Inr _, w1) \<Rightarrow> ([Ready (wk_identityFingerprint w1)], w1)
           | (Inl e, w1) \<Rightarrow> ([ErrorReply (error_text e) ''init''], w1))
      | Index mid blobUrl \<Rightarrow>
          (case handleIndex env mid blobUrl w of
             (Inr rs, w1) \<Rightarrow> (rs, w1)
           | (Inl e, w1) \<Rightarrow> ([ErrorReply (error_text e) ''index''], w1))
      | Search q limit requestId \<Rightarrow>
          (case handleSearch env q limit w of
             (Settled (Inr hits), w1) \<Rightarrow> ([SearchResult requestId hits], w1)
           | (Settled (Inl e), w1) \<Rightarrow> ([ErrorReply (error_text e) ''search''], w1)
           | (Never, w1) \<Rightarrow> ([], w1))
      | Cancel mid \<Rightarrow> ([], w\<lparr>wk_inflight := removeAll mid (wk_inflight w)\<rparr>)
      | Purge \<Rightarrow>
          (if wk_db w then
             (case in_db clearAll w of
                (Inr _, w1) \<Rightarrow> ([Purged], w1)
              | (Inl e, w1) \<Rightarrow> ([ErrorReply (error_text e) ''purge''], w1))
           else ([Purged], w))
      | OtherKind k \<Rightarrow> ([ErrorReply (''unknown kind: '' @ k) []], w))"

section \<open>Postings\<close>

definition is_posting :: "jsval \<Rightarrow> bool" where
  "is_posting p = (case p of JObj kvs \<Rightarrow> typeof_string (getp p ''message_id'') | _ \<Rightarrow> False)"

definition posting_id :: "jsval \<Rightarrow> string" where
  "posting_id p = to_string (getp p ''message_id'')"

text \<open>A well-formed entry of the term store: one posting per message, and their number.\<close>

definition term_entry_ok :: "jsval \<Rightarrow> bool" where
  "term_entry_ok v =
     (case v of
        JObj kvs \<Rightarrow>
          (case getp v ''postings'' of
             JArr ps \<Rightarrow> getp v ''df'' = jint (int (length ps)) \<and> list_all is_posting ps \<and> distinct (map posting_id ps)
           | _ \<Rightarrow> False)
      | _ \<Rightarrow> False)"

lemma find_posting_result:
  assumes "list_all is_posting ps"
  shows "find_posting i ps = Inr (if i \<in> posting_id ` set ps then Some (length (takeWhile (\<lambda>p. posting_id p \<noteq> i) ps)) else None)"
  using assms
proof (induction ps)
  case (Cons p ps)
  then obtain kvs m where p: "p = JObj kvs" "getp p ''message_id'' = JStr m"
    by (auto simp: is_posting_def split: jsval.splits elim: typeof_string.elims)
  then have "posting_id p = m" by (simp add: posting_id_def)
  with p Cons show ?case by (auto simp: getR_def nullish_def)
qed simp

lemma one_with_id:
  "i \<in> f ` set ps \<Longrightarrow> distinct (map f ps) \<Longrightarrow> length (filter (\<lambda>p. f p = i) ps) = 1"
  by (induction ps) (auto simp: filter_empty_conv, metis imageI)

lemma remove_at_takeWhile:
  "distinct (map f ps) \<Longrightarrow> i \<in> f ` set ps \<Longrightarrow>
     (let n = length (takeWhile (\<lambda>p. f p \<noteq> i) ps) in take n ps @ drop (Suc n) ps) = filter (\<lambda>p. f p \<noteq> i) ps"
  by (induction ps) (auto simp: Let_def intro!: filter_True [symmetric], metis imageI)

text \<open>
  C40. Indexing a message again replaces its posting: on a well-formed entry of the term store, or on
  none, \<open>merge_posting\<close> gives a well-formed entry with the other messages' postings as they were and
  exactly one posting of this message, the new one, at the end; \<open>df\<close> is again the number of postings.
\<close>

theorem merge_posting_replaces:
  assumes "term_entry_ok v \<or> \<not> truthy v"
  shows "\<exists>v'. merge_posting messageId b v = Inr v' \<and> term_entry_ok v'
    \<and> js_elems (getp v' ''postings'') =
        filter (\<lambda>p. posting_id p \<noteq> messageId) (if truthy v then js_elems (getp v ''postings'') else []) @ [posting messageId b]"
proof -
  let ?e = "JObj [(''term'', JStr (bk_term b)), (''df'', jint 0), (''postings'', JArr [])]"
  define m where "m = (if truthy v then v else ?e)"
  have "term_entry_ok ?e" by (simp add: term_entry_ok_def)
  then have "term_entry_ok m" using assms by (auto simp: m_def)
  then obtain kvs ps where m: "m = JObj kvs" "getp m ''postings'' = JArr ps" "getp m ''df'' = jint (int (length ps))"
      "list_all is_posting ps" "distinct (map posting_id ps)"
    by (auto simp: term_entry_ok_def split: jsval.splits)
  have old: "ps = (if truthy v then js_elems (getp v ''postings'') else [])" using m(2) by (auto simp: m_def split: if_splits)
  have post: "is_posting (posting messageId b)" "posting_id (posting messageId b) = messageId"
    by (simp_all add: is_posting_def posting_id_def posting_def)
  define q where "q = filter (\<lambda>p. posting_id p \<noteq> messageId) ps @ [posting messageId b]"
  have q: "list_all is_posting q" "distinct (map posting_id q)"
    using m(4,5) post by (auto simp: q_def list_all_iff distinct_map_filter)
  have "\<exists>v'. merge_posting messageId b v = Inr v' \<and> typeof_object v' \<and> \<not> isArray v' \<and> v' \<noteq> JNull
      \<and> getp v' ''postings'' = JArr q \<and> getp v' ''df'' = jint (int (length q))"
  proof (cases "messageId \<in> posting_id ` set ps")
    case True
    let ?n = "length (takeWhile (\<lambda>p. posting_id p \<noteq> messageId) ps)"
    have rem: "take ?n ps @ drop (Suc ?n) ps @ [posting messageId b] = q"
      using remove_at_takeWhile [OF m(5) True] unfolding Let_def q_def by (metis append_assoc)
    have len: "length q = length ps"
      using sum_length_filter_compl [of "\<lambda>p. posting_id p = messageId" ps] one_with_id [OF True m(5)] by (simp add: q_def)
    have "merge_posting messageId b v = Inr (setp m ''postings'' (JArr (take ?n ps @ drop (Suc ?n) ps @ [posting messageId b])))"
      using True m(2) by (simp add: merge_posting_def m_def [symmetric] find_posting_result [OF m(4)] Let_def)
    then have "merge_posting messageId b v = Inr (setp m ''postings'' (JArr q))" unfolding rem .
    then show ?thesis using m(1,3) len by (simp add: update_conv)
  next
    case False
    then have "q = ps @ [posting messageId b]" by (auto simp: q_def intro: filter_True)
    then have "merge_posting messageId b v = Inr (setp (setp m ''df'' (jint (int (length ps) + 1))) ''postings'' (JArr q))"
        "int (length q) = int (length ps) + 1"
      using False m(2,3) by (simp_all add: merge_posting_def m_def [symmetric] find_posting_result [OF m(4)])
    then show ?thesis using m(1) by (simp add: update_conv)
  qed
  then obtain v' where v': "merge_posting messageId b v = Inr v'" "typeof_object v'" "\<not> isArray v'" "v' \<noteq> JNull"
      "getp v' ''postings'' = JArr q" "getp v' ''df'' = jint (int (length q))" by blast
  then have "term_entry_ok v'" using q by (cases v') (auto simp: term_entry_ok_def)
  then show ?thesis using v'(1,5) by (simp add: q_def old)
qed

theorem merge_posting_replaces_witness:
  "\<exists>v'. merge_posting ''m1'' \<lparr>bk_term = ''elf'', bk_tf = 2, bk_positions = [0, 7]\<rparr> JNull = Inr v' \<and> term_entry_ok v'
    \<and> js_elems (getp v' ''postings'') = [posting ''m1'' \<lparr>bk_term = ''elf'', bk_tf = 2, bk_positions = [0, 7]\<rparr>]"
  using merge_posting_replaces [of JNull "''m1''" "\<lparr>bk_term = ''elf'', bk_tf = 2, bk_positions = [0, 7]\<rparr>"] by simp

section \<open>Transactions that have ended\<close>

text \<open>Sealing a value and then putting it: the transaction ends while the value is sealed.\<close>

lemma seal_then_put:
  "bindI (await_other r) (\<lambda>x. bindI (db_put n k x) f) d =
     (case r of Inl e \<Rightarrow> (Inl e, d\<lparr>idb_tx := None\<rparr>) | Inr _ \<Rightarrow> (Inl inactive, d\<lparr>idb_tx := None\<rparr>))"
  by (simp add: bindI_def await_other_def db_put_def request_error_def split: sum.split)

lemma in_db_bind: "bindI (in_db m) (\<lambda>x. in_db (f x)) = in_db (bindI m f)"
  by (auto simp: fun_eq_iff bindI_def in_db_def split: prod.split sum.split)

lemma bindI_fails: "(\<And>x s. \<exists>e. fst (f x s) = Inl e) \<Longrightarrow> \<exists>e. fst (bindI m f s) = Inl e"
  by (auto simp: bindI_def split: prod.split sum.split)

lemma writeMeta_fails: "\<exists>e. fst (writeMeta env key w) = Inl e"
proof -
  have put: "\<exists>e. fst (bindI (await_other r) (\<lambda>x. bindI (db_put n k x) f) s) = Inl e" for r n k f s
    by (auto simp: seal_then_put split: sum.split)
  have "\<exists>e. fst (bindI m (\<lambda>_. bindI (await_other r) (\<lambda>x. bindI (db_put n k x) f)) s) = Inl e" for m r n k f s
    by (rule bindI_fails) (rule put)
  moreover have "\<exists>e. fst (m (wk_idb w)) = Inl e \<Longrightarrow> \<exists>e. fst (in_db m w) = Inl e" for m
    by (auto simp: in_db_def split: prod.split)
  ultimately show ?thesis unfolding writeMeta_def in_db_bind by blast
qed

lemma handleInit_fails: "\<exists>e. fst (handleInit env seed fp armored scriptUrl w) = Inl e"
  unfolding handleInit_def by (auto simp: throwI_def split: option.split intro!: bindI_fails writeMeta_fails)

section \<open>The index stays empty\<close>

definition index_empty :: "idb \<Rightarrow> bool" where
  "index_empty d = (store_of d STORE_TERMS = [] \<and> store_of d STORE_DOCS = [])"

lemma keeps_db [keeps_intros]:
  "keeps index_empty (tx names rw)" "keeps index_empty (await_other r)" "keeps index_empty (db_get n k)"
  "keeps index_empty openDB" "keeps index_empty clearAll" "keeps index_empty txComplete" "keeps index_empty countDocs"
proof -
  have "openDB s = (r, t) \<Longrightarrow> openDB s = (Inr (), t)" for s r t by (simp add: openDB_def)
  then show "keeps index_empty openDB"
    unfolding keeps_def index_empty_def using openDB_result(1) by metis
  show "keeps index_empty clearAll"
    by (rule keepsI) (auto simp: clearAll_def clear_stores_def bindI_def tx_def index_empty_def store_of_fold_clear split: if_splits)
qed (auto simp: keeps_def tx_def await_other_def db_get_def txComplete_def countDocs_def index_empty_def split: if_splits option.splits)

lemma keeps_seal_put: "keeps index_empty (bindI (await_other r) (\<lambda>x. bindI (db_put n k x) f))"
  by (rule keepsI) (auto simp: seal_then_put index_empty_def split: sum.splits)

lemma write_terms_empty:
  "write_terms env key messageId bs i d = (r, d') \<Longrightarrow> index_empty d \<Longrightarrow> index_empty d'"
proof (cases bs)
  case (Cons b bs')
  assume run: "write_terms env key messageId bs i d = (r, d')" and d: "index_empty d"
  have "keeps index_empty (write_terms env key messageId (b # bs') i)"
    unfolding write_terms.simps by (intro keeps_seal_put keeps_bindI keeps_intros) (auto split: option.split intro: keeps_intros)
  then show ?thesis using run d Cons by (auto dest: keepsD)
qed (simp add: returnI_def)

lemma keeps_writePostings [keeps_intros]: "keeps index_empty (writePostings env key messageId terms snippet)"
proof -
  have "keeps index_empty (write_terms env key messageId terms 0)" by (rule keepsI) (rule write_terms_empty)
  then show ?thesis unfolding writePostings_def by (intro keeps_seal_put keeps_bindI keeps_intros)
qed

abbreviation wk_keeps :: "(worker, 'a) io \<Rightarrow> bool" where
  "wk_keeps m \<equiv> keeps (\<lambda>w. index_empty (wk_idb w)) m"

lemma wk_keeps_in_db [keeps_intros]: "keeps index_empty m \<Longrightarrow> wk_keeps (in_db m)"
  by (auto simp: keeps_def in_db_def split: prod.splits) 

lemma wk_keeps_modify [keeps_intros]:
  "(\<And>w. wk_idb (f w) = wk_idb w) \<Longrightarrow> wk_keeps (modify_wk f)"
  by (simp add: keeps_def modify_wk_def)

lemma wk_keeps_handleInit: "wk_keeps (handleInit env seed fp armored scriptUrl)"
proof -
  have "wk_keeps (writeMeta env key)" for key
    by (rule keepsI) (use keepsD [OF wk_keeps_in_db [OF keeps_bindI [OF keeps_db(1) keeps_seal_put]]] in \<open>auto simp: writeMeta_def in_db_bind\<close>)
  moreover have "wk_keeps (load_openpgp env scriptUrl)"
    by (rule keepsI) (auto simp: load_openpgp_def split: if_splits sum.splits)
  ultimately show ?thesis
    unfolding handleInit_def by (auto split: option.split intro!: keeps_bindI keeps_intros)
qed

lemma keeps_diag: "(\<And>w0. keeps I (m w0)) \<Longrightarrow> keeps I (\<lambda>w. m w w)"
  by (auto simp: keeps_def)

lemma wk_keeps_index_body: "wk_keeps (index_body env key messageId blobUrl)"
proof -
  have "wk_keeps (bindI (in_db (await_other (we_fetch env blobUrl))) (\<lambda>resp.
     if \<not> resp_ok resp then throwI (Error (''blob fetch '' @ status_string resp))
     else
       bindI (in_db (await_other (pgpDecrypt env w0 (rs_body resp)))) (\<lambda>plaintext.
       let text = mimeToText env plaintext;
           terms = uniqueTerms (tokenize (we_seg env) False text)
       in bindI (in_db (writePostings env key messageId terms (slice 0 240 text))) (\<lambda>_. returnI (length terms)))))" for w0
    by (auto simp: Let_def intro!: keeps_bindI keeps_intros)
  from keeps_diag [of _ "\<lambda>w0. bindI _ (_ w0)", OF this] show ?thesis unfolding index_body_def [abs_def] by simp
qed

lemma wk_keeps_handleIndex: "wk_keeps (handleIndex env mid blobUrl)"
proof -
  have tail: "wk_keeps (\<lambda>w1. case index_body env key messageId blobUrl (w1\<lparr>wk_inflight := wk_inflight w1 @ [messageId]\<rparr>) of
      (r, w2) \<Rightarrow> (bindR r f, w2\<lparr>wk_inflight := removeAll messageId (wk_inflight w2)\<rparr>))" for key messageId f
    by (rule keepsI) (auto split: prod.splits dest!: keepsD [OF wk_keeps_index_body])
  have body: "wk_keeps (bindI (in_db (tx [STORE_DOCS] False)) (\<lambda>_.
      bindI (in_db (db_get STORE_DOCS messageId)) (\<lambda>existingDoc.
      case existingDoc of
        Some doc \<Rightarrow> returnI [Indexed messageId 0]
      | None \<Rightarrow> (\<lambda>w1. case index_body env key messageId blobUrl (w1\<lparr>wk_inflight := wk_inflight w1 @ [messageId]\<rparr>) of
          (r, w2) \<Rightarrow> (bindR r (\<lambda>n. Inr [Indexed messageId n]), w2\<lparr>wk_inflight := removeAll messageId (wk_inflight w2)\<rparr>)))))" for key messageId
    by (intro keeps_bindI keeps_intros) (auto split: option.split intro: keeps_intros tail)
  show ?thesis
    by (rule keepsI) (auto simp: handleIndex_def Let_def split: option.splits if_splits dest: keepsD [OF body])
qed

lemma score_terms_empty:
  "store_of d STORE_TERMS = [] \<Longrightarrow> request_error d STORE_TERMS False = None \<Longrightarrow>
     score_terms env key numDocs avgdl bs scores d = (Inr scores, d)"
  by (induction bs) (simp_all add: returnI_def bindI_def db_get_def)

lemma handleSearch_empty:
  assumes "handleSearch env q limit w = (r, w')" and "index_empty (wk_idb w)"
  shows "index_empty (wk_idb w') \<and> (\<exists>e. r = Settled (Inl e) \<or> r = Settled (Inr []))"
proof -
  let ?d = "(wk_idb w)\<lparr>idb_tx := Some ([STORE_TERMS, STORE_DOCS], False)\<rparr>"
  have d: "store_of ?d STORE_TERMS = []" "store_of ?d STORE_DOCS = []" "index_empty ?d"
      "request_error ?d STORE_TERMS False = None" "request_error ?d STORE_DOCS False = None"
    using assms(2) by (simp_all add: index_empty_def request_error_def)
  have count: "bindI (tx [STORE_TERMS, STORE_DOCS] False) (\<lambda>_. countDocs) (wk_idb w) = (Inr 0, ?d)
      \<or> (\<exists>e. bindI (tx [STORE_TERMS, STORE_DOCS] False) (\<lambda>_. countDocs) (wk_idb w) = (Inl e, wk_idb w))"
    using d by (auto simp: bindI_def tx_def countDocs_def)
  have avg: "averageDocLength env key ?d = (Settled (Inr 1), ?d)" for key
    using d by (simp add: averageDocLength_def)
  have srch: "run_search env key ts l n a ?d = (Inr [], ?d)" for key ts l n a
    using d by (simp add: run_search_def bindI_def score_terms_empty rank_def returnI_def)
  show ?thesis
    using assms count d(3)
    by (auto simp: handleSearch_def Let_def avg srch split: option.splits if_splits)
qed

definition reply_harmless :: "reply \<Rightarrow> bool" where
  "reply_harmless r = (case r of Ready _ \<Rightarrow> False | SearchResult i hits \<Rightarrow> hits = [] | _ \<Rightarrow> True)"

text \<open>
  A worker over time: it handles messages, in any environment, and the page may start a new worker on
  the same database. The second component collects the replies.
\<close>

inductive worker_step :: "worker \<times> reply list \<Rightarrow> worker \<times> reply list \<Rightarrow> bool" where
  handle: "onmessage env msg w = (rs, w') \<Longrightarrow> worker_step (w, sent) (w', sent @ rs)"
| restart: "worker_step (w, sent) (new_worker ((wk_idb w)\<lparr>idb_tx := None\<rparr>), sent)"

inductive_cases worker_stepE: "worker_step st st'"

definition fresh_index :: "worker \<times> reply list \<Rightarrow> bool" where
  "fresh_index st = (\<exists>d. index_empty d \<and> st = (new_worker d, []))"

definition silent_inv :: "worker \<times> reply list \<Rightarrow> bool" where
  "silent_inv st = (index_empty (wk_idb (fst st)) \<and> list_all reply_harmless (snd st))"

lemma handleIndex_replies: "handleIndex env mid url w = (Inr rs, w') \<Longrightarrow> list_all reply_harmless rs"
  by (auto simp: handleIndex_def Let_def bindI_def reply_harmless_def returnI_def bindR_eq_Inr
      split: option.splits if_splits prod.splits sum.splits)

lemma onmessage_inv:
  assumes "onmessage env msg w = (rs, w')" and "index_empty (wk_idb w)"
  shows "index_empty (wk_idb w') \<and> list_all reply_harmless rs"
proof (cases msg)
  case (Init seed fp armored scriptUrl)
  obtain r w1 where h: "handleInit env seed fp armored scriptUrl w = (r, w1)" by (cases "handleInit env seed fp armored scriptUrl w")
  obtain e where "r = Inl e" using handleInit_fails [of env seed fp armored scriptUrl w] h by auto
  then show ?thesis using assms h keepsD [OF wk_keeps_handleInit h] by (auto simp: onmessage_def Init reply_harmless_def)
next
  case (Index mid url)
  obtain r w1 where h: "handleIndex env mid url w = (r, w1)" by (cases "handleIndex env mid url w")
  then show ?thesis
    using assms keepsD [OF wk_keeps_handleIndex h] handleIndex_replies
    by (auto simp: onmessage_def Index reply_harmless_def split: sum.splits)
next
  case (Search q limit i)
  obtain r w1 where h: "handleSearch env q limit w = (r, w1)" by (cases "handleSearch env q limit w")
  then show ?thesis using assms handleSearch_empty [OF h] by (auto simp: onmessage_def Search reply_harmless_def)
next
  case Purge
  obtain r w1 where h: "in_db clearAll w = (r, w1)" by (cases "in_db clearAll w")
  have "index_empty (wk_idb w1)" using keepsD [OF wk_keeps_in_db [OF keeps_db(5)] h] assms(2) by simp
  then show ?thesis using assms h by (auto simp: onmessage_def Purge reply_harmless_def split: if_splits sum.splits)
qed (use assms in \<open>auto simp: onmessage_def reply_harmless_def\<close>)

interpretation index: invariant_system fresh_index worker_step silent_inv
proof (unfold_locales, goal_cases)
  case (1 st)
  then show ?case by (auto simp: fresh_index_def silent_inv_def new_worker_def)
next
  case (2 st st')
  from 2(2,1) show ?case
    by (cases rule: worker_stepE) (auto simp: silent_inv_def new_worker_def index_empty_def dest: onmessage_inv)
qed

text \<open>
  The local index never works: under the transaction rules of the IndexedDB standard, a worker that
  starts on an empty index never reports that it is ready, never stores a term or a document whatever
  it is asked to index, in any environment and after any number of restarts, and every search it
  answers finds nothing. Both \<open>writeMeta\<close> and \<open>writePostings\<close> put a value into a transaction that ended
  while the value was being sealed.
\<close>

theorem local_index_stays_empty:
  assumes "reach fresh_index worker_step (w, sent)"
  shows "store_of (wk_idb w) STORE_TERMS = [] \<and> store_of (wk_idb w) STORE_DOCS = []
    \<and> Ready fp \<notin> set sent \<and> (SearchResult i hits \<notin> set sent \<or> hits = [])"
  using index.reach_inv [OF assms]
  by (auto simp: silent_inv_def index_empty_def list_all_iff reply_harmless_def)

theorem local_index_stays_empty_witness:
  "\<exists>env w. onmessage env (Init (Some [1]) JUndef JUndef JUndef) (new_worker empty_idb) = ([ErrorReply ''TransactionInactiveError'' ''init''], w)
    \<and> store_of (wk_idb w) STORE_TERMS = []"
proof -
  define env where "env = \<lparr>we_ke = demo_keys, we_nonce = (\<lambda>_. [1]), we_now = [], we_fetch = (\<lambda>_. Inl TypeError), we_openpgp = True,
     we_readMessage = (\<lambda>_. Inr []), we_readPrivateKey = Inr, we_decrypt = (\<lambda>_ _. Inr []), we_import = (\<lambda>_. Inr ()),
     we_url = (\<lambda>_ _. Inl TypeError), we_url_abs = (\<lambda>_. Inl TypeError), we_href = [], we_dp = None, we_seg = None\<rparr>"
  let ?msg = "Init (Some [1]) JUndef JUndef JUndef"
  obtain rs w where run: "onmessage env ?msg (new_worker empty_idb) = (rs, w)" by (cases "onmessage env ?msg (new_worker empty_idb)")
  have "fst (handleInit env (Some [1]) JUndef JUndef JUndef (new_worker empty_idb)) = Inl inactive"
    unfolding env_def by code_simp
  then have "rs = [ErrorReply ''TransactionInactiveError'' ''init'']"
    using run by (auto simp: onmessage_def error_text_def inactive_def split: prod.splits)
  moreover have "index_empty empty_idb" by (simp add: index_empty_def empty_idb_def store_of_def)
  then have "reach fresh_index worker_step (new_worker empty_idb, [])"
    by (intro reach_init) (auto simp: fresh_index_def)
  then have "reach fresh_index worker_step (w, [] @ rs)" using handle [OF run] by (rule reach_step)
  ultimately show ?thesis using run local_index_stays_empty by fastforce
qed

interpretation ranking: total_preorder rank_le
  by unfold_locales (auto simp: rank_le_def)

lemma rank_sorted: "sorted_wrt rank_le (rank limit scores)"
  by (simp add: rank_def sorted_wrt_take ranking.sorted_sort_by)

end
