(* ===== verification/Local_Search.thy ===== *)
theory Local_Search
  imports Search_Worker
begin

text \<open>
  \<^verbatim>\<open>static/mail/search/search.js\<close>: the page's side of the search. The searchFields of \<open>LocalSearch\<close>, the worker
  and the two message queues between them are one state; a slot of \<open>pending\<close> says who waits for it.
\<close>

section \<open>State\<close>

datatype waiter = WStart | WPurge | WSearch

record slot =
  sl_expected :: "string list"
  sl_waiter :: waiter

datatype send_outcome = Resolved waiter | Rejected waiter string

record local_search =
  ls_worker :: bool
  ls_ready :: bool
  ls_pending :: "(nat \<times> slot) list"
  ls_nextRequestId :: nat
  ls_outbox :: "worker_msg list"     \<comment> \<open>posted to the worker, not handled yet\<close>
  ls_inbox :: "reply list"           \<comment> \<open>posted by the worker, not received yet\<close>
  ls_settled :: "send_outcome list"

definition new_LocalSearch :: local_search where
  "new_LocalSearch = \<lparr>ls_worker = False, ls_ready = False, ls_pending = [], ls_nextRequestId = 1,
     ls_outbox = [], ls_inbox = [], ls_settled = []\<rparr>"

text \<open>The kind of a reply, and the request id it carries: only the answer to a search has one.\<close>

fun reply_kind :: "reply \<Rightarrow> string" where
  "reply_kind (Ready fp) = ''ready''"
| "reply_kind (Indexed i n) = ''indexed''"
| "reply_kind (SearchResult i hits) = ''searchResult''"
| "reply_kind Purged = ''purged''"
| "reply_kind (ErrorReply e w) = ''error''"

fun reply_requestId :: "reply \<Rightarrow> nat option" where
  "reply_requestId (SearchResult i hits) = Some i"
| "reply_requestId _ = None"

section \<open>Operations\<close>

text \<open>\<open>send\<close>: without a request id of its own the message gets the next one.\<close>

definition send :: "(nat \<Rightarrow> worker_msg) \<Rightarrow> string list \<Rightarrow> nat option \<Rightarrow> waiter \<Rightarrow> local_search \<Rightarrow> local_search" where
  "send msg expectedKinds requestId who s =
     (let (i, s1) = (case requestId of
                       Some i \<Rightarrow> (i, s)
                     | None \<Rightarrow> (ls_nextRequestId s, s\<lparr>ls_nextRequestId := Suc (ls_nextRequestId s)\<rparr>))
      in s1\<lparr>ls_pending := AList.update i \<lparr>sl_expected = expectedKinds, sl_waiter = who\<rparr> (ls_pending s1),
            ls_outbox := ls_outbox s1 @ [msg i]\<rparr>)"

definition ls_start :: "bytes option \<Rightarrow> jsval \<Rightarrow> jsval \<Rightarrow> jsval \<Rightarrow> local_search \<Rightarrow> local_search" where
  "ls_start seed fp armored url s =
     send (\<lambda>_. Init seed fp armored url) [''ready''] None WStart
       (s\<lparr>ls_worker := True, ls_outbox := [], ls_inbox := []\<rparr>)"

definition indexMessage :: "jsval \<Rightarrow> string \<Rightarrow> local_search \<Rightarrow> local_search" where
  "indexMessage messageId blobUrl s =
     (if \<not> ls_worker s then s else s\<lparr>ls_outbox := ls_outbox s @ [Index messageId blobUrl]\<rparr>)"

definition ls_cancel :: "string \<Rightarrow> local_search \<Rightarrow> local_search" where
  "ls_cancel messageId s = (if \<not> ls_worker s then s else s\<lparr>ls_outbox := ls_outbox s @ [Cancel messageId]\<rparr>)"

definition ls_purge :: "local_search \<Rightarrow> local_search" where
  "ls_purge s = (if \<not> ls_worker s then s else send (\<lambda>_. Purge) [''purged''] None WPurge s)"

text \<open>\<open>None\<close>: it returns the empty list at once.\<close>

definition searchBody :: "jsval \<Rightarrow> jsval \<Rightarrow> local_search \<Rightarrow> local_search option" where
  "searchBody q limit s =
     (if \<not> ls_worker s \<or> \<not> ls_ready s then None
      else
        (let i = ls_nextRequestId s in
         Some (send (\<lambda>j. Search q limit j) [''searchResult''] (Some i) WSearch (s\<lparr>ls_nextRequestId := Suc i\<rparr>))))"

text \<open>Settling a slot; \<open>start\<close> goes on with \<open>this.ready = true\<close>.\<close>

definition resolve :: "waiter \<Rightarrow> local_search \<Rightarrow> local_search" where
  "resolve who s =
     s\<lparr>ls_settled := ls_settled s @ [Resolved who], ls_ready := (if who = WStart then True else ls_ready s)\<rparr>"

definition reject :: "waiter \<Rightarrow> string \<Rightarrow> local_search \<Rightarrow> local_search" where
  "reject who err s = s\<lparr>ls_settled := ls_settled s @ [Rejected who err]\<rparr>"

definition onMessage :: "reply \<Rightarrow> local_search \<Rightarrow> local_search" where
  "onMessage data s =
     (if reply_kind data = ''indexed'' \<or> reply_kind data = ''error'' then s
      else
        (case reply_requestId data of
           None \<Rightarrow> s
         | Some i \<Rightarrow>
             (case map_of (ls_pending s) i of
                None \<Rightarrow> s
              | Some slot \<Rightarrow>
                  (let s1 = s\<lparr>ls_pending := AList.delete i (ls_pending s)\<rparr> in
                   if i = 0 then s
                   else if reply_kind data = ''searchResult'' then resolve (sl_waiter slot) s1
                   else if reply_kind data \<in> set (sl_expected slot) then resolve (sl_waiter slot) s1
                   else reject (sl_waiter slot) (''unexpected kind '' @ reply_kind data) s1))))"

text \<open>The timer of \<open>send\<close> fires for a slot that is still pending.\<close>

definition timeout :: "nat \<Rightarrow> local_search \<Rightarrow> local_search" where
  "timeout i s =
     (case map_of (ls_pending s) i of
        None \<Rightarrow> s
      | Some slot \<Rightarrow> reject (sl_waiter slot) ''search worker timeout'' (s\<lparr>ls_pending := AList.delete i (ls_pending s)\<rparr>))"

section \<open>Merging the results\<close>

text \<open>A row of a result list; a missing score counts as zero, \<open>row_id\<close> is \<open>row.message_id || row.id\<close>.\<close>

record search_row =
  row_message_id :: string
  row_id_field :: string
  row_score :: real
  row_source :: string

record merged_row =
  mr_row :: search_row
  mr_score :: real
  mr_sources :: "string list"

definition row_id :: "search_row \<Rightarrow> string" where
  "row_id r = (if row_message_id r \<noteq> [] then row_message_id r else row_id_field r)"

definition merge_row :: "search_row \<Rightarrow> (string \<times> merged_row) list \<Rightarrow> (string \<times> merged_row) list" where
  "merge_row r seen =
     (let i = row_id r in
      if i = [] then seen
      else
        (case map_of seen i of
           None \<Rightarrow> AList.update i \<lparr>mr_row = r, mr_score = row_score r, mr_sources = [row_source r]\<rparr> seen
         | Some c \<Rightarrow>
             AList.update i (c\<lparr>mr_score := mr_score c + row_score r,
               mr_sources := (if row_source r \<in> set (mr_sources c) then mr_sources c else mr_sources c @ [row_source r])\<rparr>) seen))"

definition merged_le :: "merged_row \<Rightarrow> merged_row \<Rightarrow> bool" where
  "merged_le a b = (mr_score b \<le> mr_score a)"

definition searchAll :: "search_row list \<Rightarrow> nat \<Rightarrow> merged_row list" where
  "searchAll rows limit = take limit (sort_by merged_le (map snd (fold merge_row rows [])))"

definition server_search_url :: "string \<Rightarrow> string \<Rightarrow> string list \<Rightarrow> nat \<Rightarrow> string" where
  "server_search_url origin q searchFields limit =
     url_with_params origin ''/api/v1/mail/search/metadata''
       [(''q'', q), (''fields'', join '','' searchFields), (''limit'', int_to_string (int limit))]"

definition server_row :: "jsval \<Rightarrow> search_row result" where
  "server_row h =
     bindR (getR h ''id'') (\<lambda>i.
     Inr \<lparr>row_message_id = str_or_empty i, row_id_field = str_or_empty i, row_score = 1, row_source = ''server-metadata''\<rparr>)"

fun server_rows :: "jsval list \<Rightarrow> search_row list result" where
  "server_rows [] = Inr []"
| "server_rows (h # hs) = bindR (server_row h) (\<lambda>r. bindR (server_rows hs) (\<lambda>rs. Inr (r # rs)))"

definition serverMetadataSearch :: "'s server \<Rightarrow> string \<Rightarrow> string \<Rightarrow> string list \<Rightarrow> nat \<Rightarrow> ('s, search_row list) io" where
  "serverMetadataSearch srv origin q searchFields limit =
     bindI (fetch srv (get_request (server_search_url origin q searchFields limit))) (\<lambda>resp.
     if \<not> resp_ok resp then
       (if rs_status resp = 400 then returnI []
        else throwI (Error (''metadata search '' @ status_string resp)))
     else
       bindI (liftI (bindR (resp_json resp) (\<lambda>body. getR body ''hits''))) (\<lambda>hits.
       if \<not> truthy hits then returnI []
       else if isArray hits then liftI (server_rows (js_elems hits))
       else throwI TypeError))"

section \<open>The page and the worker together\<close>

text \<open>One event: a call of the interface, a message handled by the worker, a reply received, a timer.\<close>

inductive search_step :: "local_search \<times> worker \<Rightarrow> local_search \<times> worker \<Rightarrow> bool" where
  start: "search_step (s, w) (ls_start seed fp armored url s, new_worker ((wk_idb w)\<lparr>idb_tx := None\<rparr>))"
| index: "search_step (s, w) (indexMessage mid url s, w)"
| cancel: "search_step (s, w) (ls_cancel i s, w)"
| purge: "search_step (s, w) (ls_purge s, w)"
| search: "searchBody q limit s = Some s' \<Longrightarrow> search_step (s, w) (s', w)"
| work: "ls_outbox s = m # ms \<Longrightarrow> onmessage env m w = (rs, w') \<Longrightarrow>
    search_step (s, w) (s\<lparr>ls_outbox := ms, ls_inbox := ls_inbox s @ rs\<rparr>, w')"
| receive: "ls_inbox s = r # rs \<Longrightarrow> search_step (s, w) (onMessage r (s\<lparr>ls_inbox := rs\<rparr>), w)"
| timer: "search_step (s, w) (timeout i s, w)"

fun is_search :: "worker_msg \<Rightarrow> bool" where
  "is_search (Search q l i) = True"
| "is_search _ = False"

definition never_ready :: "local_search \<times> worker \<Rightarrow> bool" where
  "never_ready st =
     (let s = fst st in \<not> ls_ready s \<and> \<not> list_ex is_search (ls_outbox s)
      \<and> list_all (\<lambda>r. reply_requestId r = None) (ls_inbox s) \<and> list_all (\<lambda>x. \<forall>w. x \<noteq> Resolved w) (ls_settled s))"

definition page_loaded :: "local_search \<times> worker \<Rightarrow> bool" where
  "page_loaded st = (fst st = new_LocalSearch)"

lemma onmessage_no_id:
  "onmessage env m w = (rs, w') \<Longrightarrow> \<not> is_search m \<Longrightarrow> list_all (\<lambda>r. reply_requestId r = None) rs"
proof (cases m)
  case (Index mid url)
  assume run: "onmessage env m w = (rs, w')"
  have "handleIndex env mid url w = (Inr qs, w1) \<Longrightarrow> list_all (\<lambda>r. reply_requestId r = None) qs" for qs w1
    by (auto simp: handleIndex_def Let_def bindI_def returnI_def bindR_eq_Inr
        split: option.splits if_splits prod.splits sum.splits)
  with run Index show ?thesis by (auto simp: onmessage_def split: prod.splits sum.splits)
qed (auto simp: onmessage_def split: prod.splits sum.splits if_splits)

lemma send_never_ready:
  "never_ready (s, w) \<Longrightarrow> \<not> is_search (msg i) \<Longrightarrow> (\<And>i. \<not> is_search (msg i)) \<Longrightarrow> never_ready (send msg ks None who s, w')"
  by (simp add: never_ready_def send_def Let_def)

interpretation local_search: invariant_system page_loaded search_step never_ready
proof (unfold_locales, goal_cases)
  case (1 st)
  then show ?case by (simp add: page_loaded_def never_ready_def new_LocalSearch_def)
next
  case (2 st st')
  show ?case using 2(2)
  proof cases
    case (start s w seed fp armored url)
    then show ?thesis using 2(1) by (simp add: ls_start_def never_ready_def send_def Let_def)
  next
    case (work s m ms env w rs w')
    then show ?thesis using 2(1) onmessage_no_id by (auto simp: never_ready_def Let_def)
  next
    case (receive s r rs w)
    then show ?thesis using 2(1) by (auto simp: never_ready_def onMessage_def Let_def)
  qed (use 2(1) in \<open>auto simp: never_ready_def indexMessage_def ls_cancel_def ls_purge_def searchBody_def send_def
      timeout_def reject_def Let_def split: option.splits if_splits\<close>)
qed

text \<open>
  \<open>LocalSearch\<close> never becomes ready: the worker's answers to \<open>init\<close> and \<open>purge\<close> carry no request id, and
  \<open>onMessage\<close> drops a reply without one. So \<open>start\<close> and \<open>purge\<close> never resolve (they can only time out),
  \<open>ready\<close> stays false, and \<open>searchBody\<close> returns the empty list for every query, whatever the worker does.
\<close>

theorem local_search_never_ready:
  assumes "reach page_loaded search_step (s, w)"
  shows "\<not> ls_ready s \<and> Resolved who \<notin> set (ls_settled s) \<and> searchBody q limit s = None"
  using local_search.reach_inv [OF assms] by (auto simp: never_ready_def searchBody_def list_all_iff Let_def)

theorem local_search_never_ready_witness:
  "\<not> ls_ready (timeout 1 (ls_start (Some [1]) JUndef JUndef JUndef new_LocalSearch))
   \<and> ls_settled (timeout 1 (ls_start (Some [1]) JUndef JUndef JUndef new_LocalSearch)) = [Rejected WStart ''search worker timeout'']"
proof -
  have "reach page_loaded search_step (new_LocalSearch, new_worker empty_idb)"
    by (rule reach_init) (simp add: page_loaded_def)
  from reach_step [OF reach_step [OF this start] timer]
  have "reach page_loaded search_step (timeout 1 (ls_start (Some [1]) JUndef JUndef JUndef new_LocalSearch),
      new_worker ((wk_idb (new_worker empty_idb))\<lparr>idb_tx := None\<rparr>))" .
  from local_search_never_ready [OF this] show ?thesis
    by (simp add: timeout_def ls_start_def send_def new_LocalSearch_def reject_def Let_def)
qed

section \<open>Merged results\<close>

definition start_row :: "search_row \<Rightarrow> merged_row" where
  "start_row r = \<lparr>mr_row = r, mr_score = row_score r, mr_sources = [row_source r]\<rparr>"

definition grow_row :: "search_row \<Rightarrow> merged_row \<Rightarrow> merged_row" where
  "grow_row r c =
     c\<lparr>mr_score := mr_score c + row_score r,
       mr_sources := (if row_source r \<in> set (mr_sources c) then mr_sources c else mr_sources c @ [row_source r])\<rparr>"

lemma merge_row_group:
  "merge_row r = (if row_id r \<noteq> [] then group_step row_id start_row grow_row r else id)"
  by (auto simp: fun_eq_iff merge_row_def group_step_def start_row_def grow_row_def Let_def split: option.split)

lemma entry_of_rows:
  "ys \<noteq> [] \<Longrightarrow> entry_of start_row grow_row ys =
     \<lparr>mr_row = hd ys, mr_score = sum_list (map row_score ys), mr_sources = first_occurrences (map row_source ys)\<rparr>"
proof (induction ys rule: rev_induct)
  case (snoc y ys)
  show ?case
  proof (cases "ys = []")
    case True
    then show ?thesis by (simp add: start_row_def first_occurrences_def)
  next
    case False
    then show ?thesis using snoc by (simp add: entry_of_snoc grow_row_def first_occurrences_snoc)
  qed
qed simp

interpretation merged: total_preorder merged_le
  by unfold_locales (auto simp: merged_le_def)

text \<open>The reference: the rows of one id, as one row.\<close>

definition merged_of :: "search_row list \<Rightarrow> string \<Rightarrow> merged_row" where
  "merged_of rows i =
     (let rs = filter (\<lambda>r. row_id r = i) rows in
      \<lparr>mr_row = hd rs, mr_score = sum_list (map row_score rs), mr_sources = first_occurrences (map row_source rs)\<rparr>)"

lemma fold_merge_row:
  "fold merge_row rows [] =
     map (\<lambda>i. (i, merged_of rows i)) (first_occurrences (filter (\<lambda>i. i \<noteq> []) (map row_id rows)))"
proof -
  let ?rs = "filter (\<lambda>r. row_id r \<noteq> []) rows"
  have "fold merge_row rows [] = fold (group_step row_id start_row grow_row) ?rs []"
    by (simp add: fold_filter merge_row_group [abs_def] cong: if_cong)
  moreover have "entry_of start_row grow_row (filter (\<lambda>r. row_id r = i) ?rs) = merged_of rows i"
    if "i \<in> set (map row_id ?rs)" for i
  proof -
    have "i \<noteq> []" using that by auto
    then have "filter (\<lambda>r. row_id r = i) ?rs = filter (\<lambda>r. row_id r = i) rows" by (auto simp: filter_filter intro: filter_cong)
    moreover have "filter (\<lambda>r. row_id r = i) rows \<noteq> []" using that by (auto simp: filter_empty_conv)
    ultimately show ?thesis by (simp add: entry_of_rows merged_of_def Let_def)
  qed
  moreover have "map row_id ?rs = filter (\<lambda>i. i \<noteq> []) (map row_id rows)" by (simp add: filter_map comp_def)
  ultimately show ?thesis by (simp add: fold_group_step)
qed

text \<open>
  \<open>searchAll\<close> merges the result lists by message: before it is cut to the limit, its result is a
  permutation of one row per id, in which the scores of all rows of that id are added and each source
  is named once; it is ordered by falling score, and rows of equal score keep the order in which their
  ids first appeared.
\<close>

theorem searchAll_merges:
  "\<exists>sorted. searchAll rows limit = take limit sorted
    \<and> mset sorted = mset (map (merged_of rows) (first_occurrences (filter (\<lambda>i. i \<noteq> []) (map row_id rows))))
    \<and> sorted_wrt (\<lambda>a b. mr_score b \<le> mr_score a) sorted
    \<and> (\<forall>x. filter (\<lambda>m. mr_score m = x) sorted =
          filter (\<lambda>m. mr_score m = x) (map (merged_of rows) (first_occurrences (filter (\<lambda>i. i \<noteq> []) (map row_id rows)))))"
proof -
  let ?ms = "map (merged_of rows) (first_occurrences (filter (\<lambda>i. i \<noteq> []) (map row_id rows)))"
  have ms: "map snd (fold merge_row rows []) = ?ms" by (simp add: fold_merge_row)
  have "filter (\<lambda>m. mr_score m = x) (sort_by merged_le ?ms) = filter (\<lambda>m. mr_score m = x) ?ms" for x
  proof -
    obtain z :: merged_row where z: "mr_score z = x" by (metis merged_row.select_convs(2))
    have "(\<lambda>m. mr_score m = x) = (\<lambda>m. merged_le m z \<and> merged_le z m)" by (auto simp: merged_le_def z)
    then show ?thesis using merged.stable_sort_by [of z ?ms] by simp
  qed
  then show ?thesis
    using merged.sorted_sort_by [of ?ms]
    by (intro exI [of _ "sort_by merged_le ?ms"]) (simp add: searchAll_def ms merged_le_def [abs_def])
qed

end
