(* ===== verification/Service_Worker.thy ===== *)
theory Service_Worker
  imports JS_Prelude "HOL-Library.AList"
begin

text \<open>
  \<^verbatim>\<open>static/sw.js\<close>: the service worker. Its state are the caches of the origin, each a map from URLs to
  responses. The network, the URL parser and whether the cache operations succeed are parameters. The
  revalidation that goes on after a cached answer is part of the handling of the request.
\<close>

section \<open>Definitions\<close>

record sw_response =
  sr_status :: nat
  sr_body :: string

definition sr_ok :: "sw_response \<Rightarrow> bool" where
  "sr_ok r = (200 \<le> sr_status r \<and> sr_status r < 300)"

text \<open>\<open>Response.error()\<close>.\<close>

definition response_error :: sw_response where
  "response_error = \<lparr>sr_status = 0, sr_body = []\<rparr>"

record sw_request =
  rq_verb :: string
  rq_href :: string
  rq_destination :: string
  rq_mode :: string

record sw_url =
  su_hostname :: string
  su_origin :: string
  su_path :: string

type_synonym caches = "(string \<times> (string \<times> sw_response) list) list"

record sw_env =
  se_assetQ :: string
  se_ver :: string
  se_origin :: string
  se_resolve :: "string \<Rightarrow> string"               \<comment> \<open>\<open>new URL(path, ORIGIN).href\<close>\<close>
  se_url :: "string \<Rightarrow> sw_url option"            \<comment> \<open>\<open>new URL(href)\<close>, if it parses\<close>
  se_net :: "string \<Rightarrow> sw_response option"       \<comment> \<open>\<open>fetch\<close>, if it does not fail\<close>
  se_open_ok :: bool
  se_match_ok :: bool
  se_put_ok :: "string \<Rightarrow> bool"

definition VER :: "sw_env \<Rightarrow> string" where
  "VER env = (if se_ver env = [] then ''dev'' else se_ver env)"

definition PRECACHE :: "sw_env \<Rightarrow> string" where
  "PRECACHE env = ''elvish-pc-'' @ VER env"

definition RUNTIME :: "sw_env \<Rightarrow> string" where
  "RUNTIME env = ''elvish-rt-'' @ VER env"

definition withQuery :: "sw_env \<Rightarrow> string \<Rightarrow> string" where
  "withQuery env path = se_resolve env (path @ se_assetQ env)"

definition PRECACHE_URLS :: "sw_env \<Rightarrow> string list" where
  "PRECACHE_URLS env = map (withQuery env) [''/styles.css'', ''/page.css'', ''/site.js'']"

text \<open>\<open>caches.open\<close> creates a cache that is missing; \<open>cache.put\<close> writes into it.\<close>

definition cache_of :: "caches \<Rightarrow> string \<Rightarrow> (string \<times> sw_response) list" where
  "cache_of cs name = (case map_of cs name of Some c \<Rightarrow> c | None \<Rightarrow> [])"

definition open_cache :: "string \<Rightarrow> caches \<Rightarrow> caches" where
  "open_cache name cs = (if map_of cs name = None then cs @ [(name, [])] else cs)"

definition put_cache :: "string \<Rightarrow> string \<Rightarrow> sw_response \<Rightarrow> caches \<Rightarrow> caches" where
  "put_cache name href r cs = AList.update name (AList.update href r (cache_of cs name)) cs"

text \<open>\<open>cache.add(url).catch(() => {})\<close>: only a good response is stored.\<close>

definition add_url :: "sw_env \<Rightarrow> string \<Rightarrow> caches \<Rightarrow> caches" where
  "add_url env href cs =
     (case se_net env href of
        Some r \<Rightarrow> if sr_ok r \<and> se_put_ok env href then put_cache (PRECACHE env) href r cs else cs
      | None \<Rightarrow> cs)"

definition on_install :: "sw_env \<Rightarrow> caches \<Rightarrow> caches" where
  "on_install env cs =
     (if se_open_ok env then fold (add_url env) (PRECACHE_URLS env) (open_cache (PRECACHE env) cs) else cs)"

definition outdated :: "sw_env \<Rightarrow> string \<Rightarrow> bool" where
  "outdated env k =
     (startsWith k ''elvish-pc-'' \<and> k \<noteq> PRECACHE env \<or> startsWith k ''elvish-rt-'' \<and> k \<noteq> RUNTIME env)"

definition on_activate :: "sw_env \<Rightarrow> caches \<Rightarrow> caches" where
  "on_activate env cs = filter (\<lambda>(k, c). \<not> outdated env k) cs"

definition isSameOrigin :: "sw_env \<Rightarrow> sw_url \<Rightarrow> bool" where
  "isSameOrigin env u = (su_origin u = se_origin env)"

definition networkErrorHtmlResponse :: sw_response where
  "networkErrorHtmlResponse =
     \<lparr>sr_status = 503,
      sr_body = ''<!DOCTYPE html><html><head><meta charset=\"utf-8\"><title>Unavailable</title></head><body><p>Could not reach the server. Check your connection and try again.</p></body></html>''\<rparr>"

text \<open>\<open>fetch(req).catch(() => r)\<close>.\<close>

definition network_or :: "sw_env \<Rightarrow> string \<Rightarrow> sw_response \<Rightarrow> sw_response" where
  "network_or env href r = (case se_net env href of Some x \<Rightarrow> x | None \<Rightarrow> r)"

text \<open>\<open>cache.match\<close>, with its exception taken as a miss.\<close>

definition match_cache :: "sw_env \<Rightarrow> string \<Rightarrow> string \<Rightarrow> caches \<Rightarrow> sw_response option" where
  "match_cache env name href cs = (if se_match_ok env then map_of (cache_of cs name) href else None)"

definition cacheFirst :: "sw_env \<Rightarrow> string \<Rightarrow> string \<Rightarrow> caches \<Rightarrow> sw_response \<times> caches" where
  "cacheFirst env href name cs =
     (if \<not> se_open_ok env then (network_or env href response_error, cs)
      else
        (let cs1 = open_cache name cs in
         case match_cache env name href cs1 of
           Some hit \<Rightarrow> (hit, cs1)
         | None \<Rightarrow>
             (case se_net env href of
                None \<Rightarrow> (response_error, cs1)
              | Some res \<Rightarrow> (res, if sr_ok res \<and> se_put_ok env href then put_cache name href res cs1 else cs1))))"

text \<open>The promise \<open>network\<close>: \<open>None\<close> when the fetch failed, and also when the put of a good response failed.\<close>

definition revalidate :: "sw_env \<Rightarrow> string \<Rightarrow> string \<Rightarrow> caches \<Rightarrow> sw_response option \<times> caches" where
  "revalidate env href name cs =
     (case se_net env href of
        None \<Rightarrow> (None, cs)
      | Some res \<Rightarrow>
          if sr_ok res then (if se_put_ok env href then (Some res, put_cache name href res cs) else (None, cs))
          else (Some res, cs))"

definition staleWhileRevalidate :: "sw_env \<Rightarrow> string \<Rightarrow> string \<Rightarrow> caches \<Rightarrow> sw_response \<times> caches" where
  "staleWhileRevalidate env href name cs =
     (if \<not> se_open_ok env then (network_or env href response_error, cs)
      else
        (let cs1 = open_cache name cs; cached = match_cache env name href cs1;
             (fresh, cs2) = revalidate env href name cs1
         in case cached of
              Some hit \<Rightarrow> (hit, cs2)
            | None \<Rightarrow> (case fresh of Some r \<Rightarrow> (r, cs2) | None \<Rightarrow> (response_error, cs2))))"

text \<open>The fetch listener for a URL of this origin with the given path.\<close>

definition fetch_path :: "sw_env \<Rightarrow> sw_request \<Rightarrow> string \<Rightarrow> caches \<Rightarrow> sw_response \<times> caches" where
  "fetch_path env req path cs =
     (let href = rq_href req;
          network = (\<lambda>r. (network_or env href r, cs));
          swr = staleWhileRevalidate env href (RUNTIME env) cs in
      if path = ''/admin'' \<or> startsWith path ''/admin/'' \<or> startsWith path ''/auth/'' then network response_error
      else if path = ''/login'' \<or> path = ''/register'' then network networkErrorHtmlResponse
      else if path = ''/mail'' \<or> path = ''/mail/'' then network networkErrorHtmlResponse
      else if startsWith path ''/dist/'' then network response_error
      else if endsWith path ''.css'' \<or> endsWith path ''.js'' then cacheFirst env href (PRECACHE env) cs
      else if path = ''/feed.xml'' \<or> path = ''/feed.json'' \<or> path = ''/atom.xml'' \<or> path = ''/signing.pub'' then swr
      else if rq_destination req = ''document'' \<or> rq_mode req = ''navigate'' then swr
      else if endsWith path ''.md'' \<or> endsWith path ''.minisig'' \<or> endsWith path ''.html'' then swr
      else if startsWith path ''/api/'' then network response_error
      else swr)"

text \<open>The fetch listener; \<open>None\<close>: it returns without answering, and the browser goes to the network.\<close>

definition answered :: "sw_response \<times> caches \<Rightarrow> sw_response option \<times> caches" where
  "answered p = (Some (fst p), snd p)"

definition on_fetch :: "sw_env \<Rightarrow> sw_request \<Rightarrow> caches \<Rightarrow> sw_response option \<times> caches" where
  "on_fetch env req cs =
     (if rq_verb req \<noteq> ''GET'' then (None, cs)
      else
        (case se_url env (rq_href req) of
           None \<Rightarrow> answered (network_or env (rq_href req) response_error, cs)
         | Some url \<Rightarrow>
             if su_hostname url = ''fonts.gstatic.com'' \<or> su_hostname url = ''fonts.googleapis.com''
             then answered (staleWhileRevalidate env (rq_href req) (RUNTIME env) cs)
             else if \<not> isSameOrigin env url then (None, cs)
             else answered (fetch_path env req (su_path url) cs)))"

section \<open>The caches\<close>

text \<open>Every stored response is a good one, and every cache is filed once.\<close>

definition caches_inv :: "caches \<Rightarrow> bool" where
  "caches_inv cs = (distinct (map fst cs) \<and> (\<forall>name c. map_of cs name = Some c \<longrightarrow> (\<forall>href r. map_of c href = Some r \<longrightarrow> sr_ok r)))"

lemma cache_of_ok: "caches_inv cs \<Longrightarrow> map_of (cache_of cs name) href = Some r \<Longrightarrow> sr_ok r"
  by (auto simp: caches_inv_def cache_of_def split: option.splits)

lemma caches_inv_open: "caches_inv cs \<Longrightarrow> caches_inv (open_cache name cs)"
  by (auto simp: caches_inv_def open_cache_def map_of_append map_add_def map_of_eq_None_iff split: option.splits)

lemma caches_inv_put: "caches_inv cs \<Longrightarrow> sr_ok r \<Longrightarrow> caches_inv (put_cache name href r cs)"
  by (auto simp: caches_inv_def put_cache_def distinct_update update_conv cache_of_def split: option.splits if_splits)

lemma caches_inv_add_url: "caches_inv cs \<Longrightarrow> caches_inv (add_url env href cs)"
  by (auto simp: add_url_def caches_inv_put split: option.split)

lemma caches_inv_fold_add: "caches_inv cs \<Longrightarrow> caches_inv (fold (add_url env) hrefs cs)"
  by (induction hrefs arbitrary: cs) (auto simp: caches_inv_add_url)

lemma caches_inv_install: "caches_inv cs \<Longrightarrow> caches_inv (on_install env cs)"
  by (simp add: on_install_def caches_inv_fold_add caches_inv_open)

lemma map_of_filter_keys:
  "distinct (map fst cs) \<Longrightarrow> map_of (filter (\<lambda>(k, c). P k) cs) name = (if P name then map_of cs name else None)"
  by (induction cs) (auto simp: map_of_eq_None_iff)

lemma caches_inv_activate: "caches_inv cs \<Longrightarrow> caches_inv (on_activate env cs)"
  by (auto simp: caches_inv_def on_activate_def map_of_filter_keys distinct_map_filter split: if_splits)

lemma caches_inv_cacheFirst: "caches_inv cs \<Longrightarrow> caches_inv (snd (cacheFirst env href name cs))"
  by (auto simp: cacheFirst_def Let_def caches_inv_open caches_inv_put split: option.split)

lemma caches_inv_swr: "caches_inv cs \<Longrightarrow> caches_inv (snd (staleWhileRevalidate env href name cs))"
  by (auto simp: staleWhileRevalidate_def revalidate_def Let_def caches_inv_open caches_inv_put split: option.split)

lemma caches_inv_snd_if: "caches_inv (snd x) \<Longrightarrow> caches_inv (snd y) \<Longrightarrow> caches_inv (snd (if b then x else y))"
  by simp

lemma caches_inv_fetch: "caches_inv cs \<Longrightarrow> caches_inv (snd (on_fetch env req cs))"
proof -
  assume cs: "caches_inv cs"
  have "caches_inv (snd (fetch_path env req path cs))" for path
    unfolding fetch_path_def Let_def
    by (intro caches_inv_snd_if) (simp_all add: cs caches_inv_cacheFirst caches_inv_swr)
  then show ?thesis using cs by (auto simp: on_fetch_def answered_def caches_inv_swr split: option.split)
qed

inductive sw_step :: "caches \<Rightarrow> caches \<Rightarrow> bool" where
  install: "sw_step cs (on_install env cs)"
| activate: "sw_step cs (on_activate env cs)"
| fetched: "sw_step cs (snd (on_fetch env req cs))"

interpretation sw: invariant_system "\<lambda>cs. cs = []" sw_step caches_inv
proof (unfold_locales, goal_cases)
  case (2 cs cs')
  then show ?case by (auto elim!: sw_step.cases simp: caches_inv_install caches_inv_activate caches_inv_fetch)
qed (simp add: caches_inv_def)

text \<open>
  Whatever the network does and however often the worker is installed, activated or updated, the
  caches only ever hold successful responses: no error page is served from a cache.
\<close>

theorem only_good_responses_cached:
  assumes "reach (\<lambda>cs. cs = []) sw_step cs" and "map_of (cache_of cs name) href = Some r"
  shows "sr_ok r"
  using sw.reach_inv [OF assms(1)] assms(2) by (rule cache_of_ok)

text \<open>
  Activation deletes exactly the caches of other versions of this worker: the current ones and
  those that are not its own keep their content.
\<close>

theorem activate_deletes_outdated:
  assumes "caches_inv cs"
  shows "map_of (on_activate env cs) k = (if outdated env k then None else map_of cs k)
    \<and> \<not> outdated env (PRECACHE env) \<and> \<not> outdated env (RUNTIME env)"
  using assms by (auto simp: on_activate_def caches_inv_def map_of_filter_keys outdated_def PRECACHE_def RUNTIME_def startsWith_def)

section \<open>Which requests touch a cache\<close>

definition network_only :: "string \<Rightarrow> bool" where
  "network_only path =
     (path = ''/admin'' \<or> startsWith path ''/admin/'' \<or> startsWith path ''/auth/'' \<or> path = ''/login'' \<or> path = ''/register''
      \<or> path = ''/mail'' \<or> path = ''/mail/'' \<or> startsWith path ''/dist/'')"

lemma fetch_path_network:
  assumes "network_only path"
  shows "\<exists>e. fetch_path env req path cs = (network_or env (rq_href req) e, cs)"
proof -
  let ?A = "path = ''/admin'' \<or> startsWith path ''/admin/'' \<or> startsWith path ''/auth/''"
  let ?B = "path = ''/login'' \<or> path = ''/register''" and ?C = "path = ''/mail'' \<or> path = ''/mail/''"
  have "?A \<or> ?B \<or> ?C \<or> startsWith path ''/dist/''" using assms unfolding network_only_def by blast
  then consider ?A | "\<not> ?A" ?B | "\<not> ?A" "\<not> ?B" ?C | "\<not> ?A" "\<not> ?B" "\<not> ?C" "startsWith path ''/dist/''" by blast
  then show ?thesis
    by cases (unfold fetch_path_def Let_def, (simp only: if_True if_False, blast)+)
qed

text \<open>
  Pages that depend on the session are never cached: a request of this origin for the admin,
  authentication or mail pages or the built bundles leaves the caches alone and is answered by the
  network whenever the network answers.
\<close>

theorem session_pages_bypass_caches:
  assumes "rq_verb req = ''GET''" and "se_url env (rq_href req) = Some url" and "su_origin url = se_origin env"
    and "su_hostname url \<notin> {''fonts.gstatic.com'', ''fonts.googleapis.com''}" and "network_only (su_path url)"
  shows "\<exists>r. on_fetch env req cs = (Some r, cs) \<and> (se_net env (rq_href req) = Some r \<or> se_net env (rq_href req) = None)"
proof -
  obtain e where "fetch_path env req (su_path url) cs = (network_or env (rq_href req) e, cs)"
    using fetch_path_network [OF assms(5)] by blast
  then show ?thesis
    using assms(1-4) by (auto simp: on_fetch_def isSameOrigin_def answered_def network_or_def split: option.split)
qed

definition demo_sw :: sw_env where
  "demo_sw = \<lparr>se_assetQ = [], se_ver = ''1'', se_origin = ''https://e.org'', se_resolve = (\<lambda>p. ''https://e.org'' @ p),
     se_url = (\<lambda>h. Some \<lparr>su_hostname = ''e.org'', su_origin = ''https://e.org'', su_path = drop 13 h\<rparr>),
     se_net = (\<lambda>h. Some \<lparr>sr_status = 200, sr_body = ''fresh''\<rparr>),
     se_open_ok = True, se_match_ok = True, se_put_ok = (\<lambda>_. True)\<rparr>"

theorem session_pages_bypass_caches_witness:
  "\<exists>r. on_fetch demo_sw \<lparr>rq_verb = ''GET'', rq_href = ''https://e.org/auth/login.js'', rq_destination = ''script'', rq_mode = ''no-cors''\<rparr> [] = (Some r, [])"
proof -
  let ?req = "\<lparr>rq_verb = ''GET'', rq_href = ''https://e.org/auth/login.js'', rq_destination = ''script'', rq_mode = ''no-cors''\<rparr>"
  have "network_only (su_path \<lparr>su_hostname = ''e.org'', su_origin = ''https://e.org'', su_path = ''/auth/login.js''\<rparr>)"
    by (simp add: network_only_def startsWith_def)
  then show ?thesis
    using session_pages_bypass_caches [of ?req demo_sw "\<lparr>su_hostname = ''e.org'', su_origin = ''https://e.org'', su_path = ''/auth/login.js''\<rparr>" "[]"]
    by (auto simp: demo_sw_def)
qed

theorem only_good_responses_cached_witness:
  "sr_ok \<lparr>sr_status = 200, sr_body = ''fresh''\<rparr> \<and> map_of (cache_of (on_install demo_sw []) (PRECACHE demo_sw)) ''https://e.org/site.js'' = Some \<lparr>sr_status = 200, sr_body = ''fresh''\<rparr>"
proof -
  have "reach (\<lambda>cs. cs = []) sw_step (on_install demo_sw [])"
    by (rule reach_step [OF reach_init [of _ "[]"]]) (simp_all add: install)
  moreover have "map_of (cache_of (on_install demo_sw []) (PRECACHE demo_sw)) ''https://e.org/site.js'' = Some \<lparr>sr_status = 200, sr_body = ''fresh''\<rparr>"
    by code_simp
  ultimately show ?thesis using only_good_responses_cached by blast
qed

theorem activate_deletes_outdated_witness:
  "map_of (on_activate demo_sw [(''elvish-pc-0'', []), (''other'', [])]) ''elvish-pc-0'' = None
   \<and> map_of (on_activate demo_sw [(''elvish-pc-0'', []), (''other'', [])]) ''other'' = Some []"
proof -
  have "caches_inv [(''elvish-pc-0'', []), (''other'', [])]" by (simp add: caches_inv_def)
  moreover have "outdated demo_sw ''elvish-pc-0''" "\<not> outdated demo_sw ''other''" by code_simp+
  ultimately show ?thesis
    using activate_deletes_outdated [of "[(''elvish-pc-0'', []), (''other'', [])]" demo_sw "''elvish-pc-0''"]
      activate_deletes_outdated [of "[(''elvish-pc-0'', []), (''other'', [])]" demo_sw "''other''"] by simp
qed

text \<open>
  The rule for APIs comes too late: a request below \<open>/api/\<close> is answered from the cache, although the
  network has a newer answer, when its path ends like a page or a script or when it is a navigation.
\<close>

theorem api_served_from_cache:
  "let old = \<lparr>sr_status = 200, sr_body = ''anonymous''\<rparr>;
       req = (\<lambda>path dest. \<lparr>rq_verb = ''GET'', rq_href = ''https://e.org'' @ path, rq_destination = dest, rq_mode = ''cors''\<rparr>);
       cs = (\<lambda>name path. [(name, [(''https://e.org'' @ path, old)])])
   in fst (on_fetch demo_sw (req ''/api/v1/me.html'' []) (cs (RUNTIME demo_sw) ''/api/v1/me.html'')) = Some old
    \<and> fst (on_fetch demo_sw (req ''/api/v1/me.js'' []) (cs (PRECACHE demo_sw) ''/api/v1/me.js'')) = Some old
    \<and> fst (on_fetch demo_sw (req ''/api/v1/me'' ''document'') (cs (RUNTIME demo_sw) ''/api/v1/me'')) = Some old"
  by code_simp

text \<open>
  When nothing is cached and the response of the network cannot be stored, \<open>staleWhileRevalidate\<close>
  throws the response away and answers with an error, while \<open>cacheFirst\<close> returns it.
\<close>

theorem unstorable_response_is_lost:
  assumes "se_net env href = Some res" and "sr_ok res" and "\<not> se_put_ok env href" and "se_open_ok env"
    and "map_of (cache_of cs name) href = None"
  shows "fst (staleWhileRevalidate env href name cs) = response_error \<and> fst (cacheFirst env href name cs) = res"
proof -
  have "map_of (cache_of (open_cache name cs) name) href = None"
    using assms(5) by (auto simp: open_cache_def cache_of_def map_of_append map_add_def split: option.splits)
  then show ?thesis
    using assms by (simp add: staleWhileRevalidate_def cacheFirst_def revalidate_def match_cache_def Let_def)
qed

theorem unstorable_response_is_lost_witness:
  "fst (staleWhileRevalidate (demo_sw\<lparr>se_put_ok := (\<lambda>_. False)\<rparr>) ''https://e.org/about'' ''c'' []) = response_error"
  using unstorable_response_is_lost [of "demo_sw\<lparr>se_put_ok := (\<lambda>_. False)\<rparr>" "''https://e.org/about''" "\<lparr>sr_status = 200, sr_body = ''fresh''\<rparr>" "[]" "''c''"]
  by (simp add: demo_sw_def sr_ok_def cache_of_def)

end
