(* ===== verification/Pgp_Mail.thy ===== *)
theory Pgp_Mail
  imports Compose Mime_Lines
begin

text \<open>
  PGP mail from the composer to the vault: the PGP/MIME message that \<open>buildPGPMIMEMessage\<close> of
  \<^verbatim>\<open>static/mail/compose.jsx\<close> writes is recognised by \<open>readEncryptedMessage\<close> of \<^verbatim>\<open>static/auth/unlock.js\<close>,
  which hands the armored ciphertext to openpgp.
\<close>

section \<open>Markers and lines\<close>

text \<open>A text without line ends that occurs in a joined text occurs in one of its lines.\<close>

lemma sublist_across_break:
  assumes "c \<notin> set m" and "sublist m (a @ c # b)"
  shows "sublist m a \<or> sublist m b"
proof -
  obtain p s where eq: "a @ c # b = p @ m @ s" using assms(2) by (auto simp: sublist_def)
  consider "length p + length m \<le> length a" | "length a < length p"
    | "length p \<le> length a" "length a < length p + length m" by linarith
  then show ?thesis
  proof cases
    case 1
    have "a = take (length a) (p @ m @ s)" using eq by (metis append_eq_conv_conj)
    also have "\<dots> = p @ m @ take (length a - length p - length m) s" using 1 by simp
    finally show ?thesis by (metis sublist_appendI)
  next
    case 2
    have "c # b = drop (length a) (p @ m @ s)" using eq by (metis append_eq_conv_conj)
    then have "c # b = drop (length a) p @ m @ s" using 2 by simp
    moreover obtain x p' where "drop (length a) p = x # p'" using 2 by (cases "drop (length a) p") auto
    ultimately show ?thesis by (metis append_Cons list.inject sublist_appendI)
  next
    case 3
    have "c = (p @ m @ s) ! length a" using eq by (metis nth_append_length)
    moreover have less: "length a - length p < length m" using 3 by linarith
    ultimately have "c = m ! (length a - length p)" using 3 by (simp add: nth_append)
    with less show ?thesis using assms(1) nth_mem by metis
  qed
qed

lemma sublist_join_crlf:
  assumes "no_breaks m" and "m \<noteq> []" and "sublist m (join crlf ls)"
  shows "\<exists>l \<in> set ls. sublist m l"
  using assms(3)
proof (induction crlf ls rule: join.induct)
  case 1
  then show ?case using assms(2) by simp
next
  case (3 x y ys)
  have "sublist m (x @ cr_char # lf # join crlf (y # ys))" using "3.prems" by (simp add: crlf_def)
  then have "sublist m x \<or> sublist m (lf # join crlf (y # ys))"
    using assms(1) by (intro sublist_across_break) (auto simp: no_breaks_def)
  moreover have "sublist m (join crlf (y # ys))" if "sublist m (lf # join crlf (y # ys))"
    using that assms sublist_across_break [of lf m "[]" "join crlf (y # ys)"] by (auto simp: no_breaks_def)
  ultimately show ?case using "3.hyps" by auto
qed simp

lemma find_any_at:
  assumes "m \<in> set ms" and "\<forall>j < length h. \<forall>m' \<in> set ms. \<not> prefix m' (drop j (h @ m @ t))"
    and "\<forall>m' \<in> set ms. prefix m' (m @ t) \<longrightarrow> m' = m" and "m \<noteq> []"
  shows "find_any ms (h @ m @ t) = Some (length h, length m)"
  using assms(2)
proof (induction h)
  case Nil
  have "find (\<lambda>x. prefix x (m @ t)) ms = Some m"
  proof (cases "find (\<lambda>x. prefix x (m @ t)) ms")
    case None
    with assms(1) show ?thesis by (auto simp: find_None_iff)
  next
    case (Some x)
    with assms(3) show ?thesis by (auto simp: find_Some_iff)
  qed
  with assms(4) show ?case by (cases m) (auto simp: marker_at_def)
next
  case (Cons c h)
  have "\<not> prefix m' (c # h @ m @ t)" if "m' \<in> set ms" for m' using Cons.prems that by fastforce
  then have "marker_at ms (c # h @ m @ t) = None" by (simp add: marker_at_mem)
  moreover have "\<forall>j < length h. \<forall>m' \<in> set ms. \<not> prefix m' (drop j (h @ m @ t))" using Cons.prems by fastforce
  ultimately show ?case using Cons.IH by simp
qed

lemma prefix_before_break: "c \<notin> set m \<Longrightarrow> prefix m (u @ c # t) \<Longrightarrow> prefix m u"
proof (induction u arbitrary: m)
  case Nil
  then show ?case by (cases m) auto
next
  case (Cons x u)
  then show ?case by (cases m) auto
qed

lemma no_marker_before:
  assumes "no_breaks m" and "m \<noteq> []" and "\<not> sublist m h" and "j < length (h @ crlf)"
  shows "\<not> prefix m (drop j ((h @ crlf) @ t))"
proof
  assume p: "prefix m (drop j ((h @ crlf) @ t))"
  have nb: "cr_char \<notin> set m" "lf \<notin> set m" using assms(1) by (auto simp: no_breaks_def)
  show False
  proof (cases "j \<le> length h")
    case True
    then have "prefix m (drop j h @ cr_char # (lf # t))" using p by (simp add: crlf_def)
    then have "prefix m (drop j h)" using prefix_before_break [OF nb(1)] by blast
    then have "sublist m h" by (metis append_take_drop_id prefix_def sublist_appendI)
    with assms(3) show False by simp
  next
    case False
    then have "j = Suc (length h)" using assms(4) by (simp add: crlf_def)
    then have "prefix m ([] @ lf # t)" using p by (simp add: crlf_def)
    from prefix_before_break [OF nb(2) this] assms(2) show False by simp
  qed
qed

section \<open>The armored block of a message\<close>

text \<open>An armored message as openpgp writes it: no hyphen between its first and last line.\<close>

definition armored_as :: "string \<Rightarrow> string \<Rightarrow> bool" where
  "armored_as a inner = (a = BEGIN_MESSAGE @ inner @ END_MESSAGE \<and> CHR ''-'' \<notin> set inner)"

lemmas marker_defs = BEGIN_MESSAGE_def BEGIN_SIGNED_def END_MESSAGE_def END_SIGNATURE_def

lemma markers_one_line: "no_breaks BEGIN_MESSAGE" "no_breaks BEGIN_SIGNED" "no_breaks END_MESSAGE"
  by code_simp+

lemma extract_armored:
  assumes "armored_as a inner" and "\<not> sublist BEGIN_MESSAGE h" and "\<not> sublist BEGIN_SIGNED h"
  shows "extractArmoredBlock ((h @ crlf) @ a @ t) = a"
proof -
  have a: "a = BEGIN_MESSAGE @ inner @ END_MESSAGE" "CHR ''-'' \<notin> set inner" using assms(1) by (auto simp: armored_as_def)
  let ?rest = "inner @ END_MESSAGE @ t"
  have first: "find_any [BEGIN_MESSAGE, BEGIN_SIGNED] ((h @ crlf) @ BEGIN_MESSAGE @ ?rest) = Some (length (h @ crlf), length BEGIN_MESSAGE)"
  proof (rule find_any_at)
    show "\<forall>j < length (h @ crlf). \<forall>m' \<in> set [BEGIN_MESSAGE, BEGIN_SIGNED]. \<not> prefix m' (drop j ((h @ crlf) @ BEGIN_MESSAGE @ ?rest))"
      using no_marker_before [OF markers_one_line(1) _ assms(2)] no_marker_before [OF markers_one_line(2) _ assms(3)]
      by (simp add: marker_defs)
  qed (simp_all add: marker_defs)
  have second: "find_any [END_MESSAGE, END_SIGNATURE] ?rest = Some (length inner, length END_MESSAGE)"
  proof (rule find_any_at)
    show "\<forall>j < length inner. \<forall>m' \<in> set [END_MESSAGE, END_SIGNATURE]. \<not> prefix m' (drop j ?rest)"
    proof (intro allI impI ballI notI)
      fix j m'
      assume j: "j < length inner" and m': "m' \<in> set [END_MESSAGE, END_SIGNATURE]" and p: "prefix m' (drop j ?rest)"
      obtain x y where "drop j inner = x # y" "x \<in> set inner"
        using j by (metis Cons_nth_drop_Suc nth_mem)
      then show False using p m' a(2) j by (auto simp: marker_defs)
    qed
  qed (simp_all add: marker_defs)
  have drop: "drop (length (h @ crlf) + length BEGIN_MESSAGE) ((h @ crlf) @ BEGIN_MESSAGE @ ?rest) = ?rest" by simp
  have tk: "take (length BEGIN_MESSAGE + length inner + length END_MESSAGE) (drop (length (h @ crlf)) ((h @ crlf) @ BEGIN_MESSAGE @ ?rest)) = a"
    using a(1) by simp
  have "extractArmoredBlock ((h @ crlf) @ BEGIN_MESSAGE @ ?rest) = trim a"
    unfolding extractArmoredBlock_def block_between_def first option.case prod.case drop second tk ..
  moreover have "trim a = a"
    unfolding a(1) by (rule trim_tight) (simp_all add: marker_defs is_space_def code_unit_def)
  ultimately show ?thesis using a(1) by simp
qed

section \<open>Line ends of the ciphertext\<close>

lemma replace_crlf_snoc: "b = [] \<or> hd b \<noteq> lf \<Longrightarrow> replace_crlf (s @ b) = replace_crlf s @ replace_crlf b"
proof (induction s rule: replace_crlf.induct)
  case (2 c)
  then show ?case by (cases b) auto
qed auto

lemma normalizeCRLF_append:
  assumes "b = [] \<or> hd b \<noteq> lf"
  shows "normalizeCRLF (s @ b) = normalizeCRLF s @ normalizeCRLF b"
  using assms by (simp add: normalizeCRLF_def replace_crlf_snoc cr_to_lf_def lf_to_crlf_def)

lemma normalizeCRLF_line: "no_breaks s \<Longrightarrow> normalizeCRLF s = s"
proof -
  assume "no_breaks s"
  then have n: "cr_char \<notin> set s" "lf \<notin> set s" by (auto simp: no_breaks_def)
  have "cr_to_lf s = s" using n(1) by (auto simp: cr_to_lf_def intro: map_idI)
  moreover have "lf_to_crlf s = s" using n(2) by (induction s) (auto simp: lf_to_crlf_def)
  ultimately show ?thesis using n(1) by (simp add: normalizeCRLF_def replace_crlf_id)
qed

lemma set_normalizeCRLF: "set (normalizeCRLF s) \<subseteq> set s \<union> {cr_char, lf}"
proof -
  have "set (replace_crlf s) \<subseteq> set s \<union> {lf}" by (induction s rule: replace_crlf.induct) auto
  moreover have "set (cr_to_lf t) \<subseteq> set t \<union> {lf}" "set (lf_to_crlf t) \<subseteq> set t \<union> {cr_char, lf}" for t
    by (auto simp: cr_to_lf_def lf_to_crlf_def split: if_splits)
  ultimately show ?thesis unfolding normalizeCRLF_def by blast
qed

lemma strip_final_crlf_append: "strip_final_crlf (s @ crlf) = s"
  by (simp add: strip_final_crlf_def endsWith_def suffix_def) (simp add: crlf_def)

lemma normalized_ciphertext:
  assumes "armored_as a inner" and "ct = a \<or> ct = a @ [lf]"
  shows "armored_as (strip_final_crlf (normalizeCRLF ct)) (normalizeCRLF inner)"
proof -
  have a: "a = BEGIN_MESSAGE @ inner @ END_MESSAGE" "CHR ''-'' \<notin> set inner" using assms(1) by (auto simp: armored_as_def)
  have end_ok: "END_MESSAGE = [] \<or> hd END_MESSAGE \<noteq> lf" by (simp add: END_MESSAGE_def lf_def char_of_def)
  have inner_end: "normalizeCRLF (inner @ END_MESSAGE) = normalizeCRLF inner @ END_MESSAGE"
    using normalizeCRLF_append [OF end_ok] normalizeCRLF_line [OF markers_one_line(3)] by simp
  have na: "normalizeCRLF a = BEGIN_MESSAGE @ normalizeCRLF inner @ END_MESSAGE"
  proof -
    have cr: "cr_char \<notin> set BEGIN_MESSAGE" and lf: "lf \<notin> set BEGIN_MESSAGE" using markers_one_line(1) by (auto simp: no_breaks_def)
    have "normalizeCRLF (BEGIN_MESSAGE @ t) = BEGIN_MESSAGE @ normalizeCRLF t" for t
      using normalizeCRLF_line [OF markers_one_line(1)] cr
      by (simp add: normalizeCRLF_def replace_crlf_append replace_crlf_id cr_to_lf_def lf_to_crlf_def)
    then show ?thesis using a(1) inner_end by simp
  qed
  have "normalizeCRLF ct = normalizeCRLF a \<or> normalizeCRLF ct = normalizeCRLF a @ crlf"
  proof -
    have "replace_crlf (a @ [lf]) = replace_crlf a @ [lf]"
    proof -
      have e: "replace_crlf (END_MESSAGE @ [lf]) = END_MESSAGE @ [lf]"
        using markers_one_line(3) by (simp add: no_breaks_def replace_crlf_append)
      have "hd (END_MESSAGE @ [lf]) \<noteq> lf" using end_ok by (simp add: hd_append) (simp add: END_MESSAGE_def)
      then have "replace_crlf ((BEGIN_MESSAGE @ inner) @ END_MESSAGE @ [lf]) = replace_crlf (BEGIN_MESSAGE @ inner) @ END_MESSAGE @ [lf]"
        using replace_crlf_snoc [of "END_MESSAGE @ [lf]" "BEGIN_MESSAGE @ inner"] e by simp
      moreover have "replace_crlf ((BEGIN_MESSAGE @ inner) @ END_MESSAGE) = replace_crlf (BEGIN_MESSAGE @ inner) @ END_MESSAGE"
        using replace_crlf_snoc [OF end_ok, of "BEGIN_MESSAGE @ inner"] markers_one_line(3) by (simp add: no_breaks_def replace_crlf_id)
      ultimately show ?thesis using a(1) by simp
    qed
    then have "normalizeCRLF (a @ [lf]) = normalizeCRLF a @ crlf"
      by (simp add: normalizeCRLF_def cr_to_lf_def lf_to_crlf_def crlf_def)
    with assms(2) show ?thesis by auto
  qed
  moreover have "\<not> suffix crlf (BEGIN_MESSAGE @ normalizeCRLF inner @ END_MESSAGE)"
    by (auto simp: suffix_def END_MESSAGE_def crlf_def lf_def char_of_def append_eq_append_conv2 Cons_eq_append_conv)
  ultimately have "strip_final_crlf (normalizeCRLF ct) = normalizeCRLF a"
    using na strip_final_crlf_append [of "normalizeCRLF a"] by (auto simp: strip_final_crlf_def endsWith_def)
  moreover have "CHR ''-'' \<notin> set (normalizeCRLF inner)"
    using a(2) set_normalizeCRLF [of inner] by (auto simp: cr_char_def lf_def char_of_def)
  ultimately show ?thesis using na by (simp add: armored_as_def)
qed

section \<open>The whole message\<close>

lemma join_append: "xs \<noteq> [] \<Longrightarrow> ys \<noteq> [] \<Longrightarrow> join sep (xs @ ys) = join sep xs @ sep @ join sep ys"
proof (induction xs)
  case (Cons x xs)
  then show ?case by (cases xs; cases ys) auto
qed simp

lemma radix_digits: "c \<in> set (to_radix 16 n) \<Longrightarrow> \<exists>k < 16. c = digit_char k"
proof (induction n rule: less_induct)
  case (less n)
  show ?case
  proof (cases "n < 16")
    case True
    with less.prems show ?thesis by (auto simp: to_radix.simps [of 16 n])
  next
    case False
    then have lt: "n div 16 < n" by simp
    have "c \<in> set (to_radix 16 (n div 16)) \<or> c = digit_char (n mod 16)"
      using less.prems False by (auto simp: to_radix.simps [of 16 n])
    then show ?thesis using less.IH [OF lt] by (auto intro: exI [of _ "n mod 16"])
  qed
qed

lemma randomHex_digits: "set (randomHex r) \<subseteq> set ''0123456789abcdef''"
proof -
  have "list_all (\<lambda>k. digit_char k \<in> set ''0123456789abcdef'') [0..<16]" by code_simp
  then have "c \<in> set (to_radix 16 n) \<Longrightarrow> c \<in> set ''0123456789abcdef''" for c n
    using radix_digits [of c n] by (auto simp: list_all_iff simp del: list.set)
  then show ?thesis by (auto simp: randomHex_def padStart_def simp del: list.set) (simp_all only: list.set insert_iff simp_thms)
qed

lemma preamble_no_marker:
  assumes "l \<in> set (pgp_preamble (''=_elvish_'' @ randomHex r))"
  shows "\<not> sublist BEGIN_MESSAGE l" and "\<not> sublist BEGIN_SIGNED l"
proof -
  have "quote \<noteq> CHR ''B''" by (simp add: quote_def char_of_def)
  then have "CHR ''B'' \<notin> set l"
    using assms randomHex_digits [of r] by (auto simp: pgp_preamble_def quoted_def)
  moreover have "CHR ''B'' \<in> set BEGIN_MESSAGE" "CHR ''B'' \<in> set BEGIN_SIGNED" by (simp_all add: marker_defs)
  ultimately show "\<not> sublist BEGIN_MESSAGE l" "\<not> sublist BEGIN_SIGNED l" by (auto dest: set_mono_sublist)
qed

text \<open>
  The decoder of the browser reads text back, and reads a text that is followed by other bytes to its end.
\<close>

definition reads_utf8 :: "(bytes \<Rightarrow> string) \<Rightarrow> bool" where
  "reads_utf8 td = ((\<forall>s. td (utf8_encode s) = s) \<and> (\<forall>s r. \<exists>t. td (utf8_encode s @ r) = s @ t))"

lemma not_armored_start:
  assumes "reads_utf8 td"
  shows "\<not> looksLikeArmoredMessage (td (take 160 (utf8_encode (''Message-ID: <'' @ rest))))"
proof -
  have len: "length (utf8_encode ''Message-ID: <'') = 13" by code_simp
  have "utf8_encode (s @ t) = utf8_encode s @ utf8_encode t" for s t by (simp add: utf8_encode_def)
  then have "take 160 (utf8_encode (''Message-ID: <'' @ rest)) = utf8_encode ''Message-ID: <'' @ take 147 (utf8_encode rest)"
    by (simp only: take_append len) (simp add: len)
  moreover obtain t where "td (utf8_encode ''Message-ID: <'' @ take 147 (utf8_encode rest)) = ''Message-ID: <'' @ t"
    using assms unfolding reads_utf8_def by blast
  ultimately show ?thesis
    by (simp add: looksLikeArmoredMessage_def Let_def is_space_def code_unit_def startsWith_def marker_defs)
qed

text \<open>
  C26. Mail that leaves through the composer can be read by the vault: the PGP/MIME message around an
  armored ciphertext is recognised, and openpgp is given that ciphertext, with CRLF line ends, provided
  that no header line (a subject, say) contains a begin marker itself.
\<close>

theorem outbound_message_recognised:
  assumes "reads_utf8 td" and "armored_as a inner" and "ct = a \<or> ct = a @ [lf]"
    and "\<forall>l \<in> set (pgp_headers env from to cc subject irt refs). \<not> sublist BEGIN_MESSAGE l \<and> \<not> sublist BEGIN_SIGNED l"
  shows "readEncryptedMessage_input td (CBytes (utf8_encode (buildPGPMIMEMessage env from to cc subject ct irt refs))) =
    Inr (ArmoredMessage (BEGIN_MESSAGE @ normalizeCRLF inner @ END_MESSAGE))"
proof -
  define b where "b = ''=_elvish_'' @ randomHex (ce_boundary env)"
  define c where "c = strip_final_crlf (normalizeCRLF ct)"
  define ls where "ls = pgp_headers env from to cc subject irt refs @ pgp_preamble b"
  define msg where "msg = buildPGPMIMEMessage env from to cc subject ct irt refs"
  have "msg = join crlf (ls @ [c, ''--'' @ b @ ''--'', []])"
    by (simp add: msg_def buildPGPMIMEMessage_def Let_def ls_def b_def c_def)
  then have msg: "msg = (join crlf ls @ crlf) @ c @ (crlf @ join crlf [''--'' @ b @ ''--'', []])"
    using join_append [of ls "[c, ''--'' @ b @ ''--'', []]" crlf] by (simp add: ls_def pgp_preamble_def)
  have arm: "armored_as c (normalizeCRLF inner)" unfolding c_def using assms(2,3) by (rule normalized_ciphertext)
  have free: "\<not> sublist BEGIN_MESSAGE l" "\<not> sublist BEGIN_SIGNED l" if "l \<in> set ls" for l
    using that assms(4) preamble_no_marker by (auto simp: ls_def b_def)
  have "\<not> sublist BEGIN_MESSAGE (join crlf ls)" "\<not> sublist BEGIN_SIGNED (join crlf ls)"
    using sublist_join_crlf [OF markers_one_line(1)] sublist_join_crlf [OF markers_one_line(2)] free by (auto simp: marker_defs)
  then have block: "extractArmoredBlock msg = c" unfolding msg by (rule extract_armored [OF arm])
  obtain rest where "msg = ''Message-ID: <'' @ rest"
    unfolding msg ls_def pgp_headers_def by (simp add: opt_line_def)
  then have "\<not> looksLikeArmoredMessage (td (take 160 (utf8_encode msg)))" using not_armored_start [OF assms(1)] by simp
  moreover have "td (utf8_encode msg) = msg" using assms(1) by (simp add: reads_utf8_def)
  moreover have "c \<noteq> []" "c = BEGIN_MESSAGE @ normalizeCRLF inner @ END_MESSAGE" using arm by (auto simp: armored_as_def marker_defs)
  ultimately show ?thesis
    using block unfolding msg_def [symmetric] by (simp add: readEncryptedMessage_input_def input_of_bytes_def Let_def)
qed

text \<open>A decoder that reads characters as long as it can, as the browser does.\<close>

fun greedy_decoder :: "bytes \<Rightarrow> string" where
  "greedy_decoder [] = []"
| "greedy_decoder (b # bs) =
     (if unat b < 128 then char_of (unat b) # greedy_decoder bs
      else case bs of [] \<Rightarrow> [] | b' # r \<Rightarrow> char_of ((unat b - 192) * 64 + (unat b' - 128)) # greedy_decoder r)"

lemma greedy_decoder_char: "greedy_decoder (utf8_char c @ bs) = c # greedy_decoder bs"
proof -
  define n where "n = code_unit c"
  have n: "n < 256" "char_of n = c" by (simp_all add: n_def code_unit_bound) (simp add: code_unit_def)
  have hi: "unat (of_nat (192 + n div 64) :: byte) = 192 + n div 64" and lo: "unat (of_nat (128 + n mod 64) :: byte) = 128 + n mod 64"
    using n(1) mod_less_divisor [of 64 n] less_mult_imp_div_less [of n 4 64] by (intro unat_of_nat_byte; simp)+
  have "n div 64 * 64 + n mod 64 = n" by simp
  with hi lo n show ?thesis
    by (cases "n < 128") (simp_all add: utf8_char_def Let_def n_def [symmetric] unat_of_nat_byte del: of_nat_add)
qed

lemma greedy_reads_utf8: "reads_utf8 greedy_decoder"
proof -
  have app: "greedy_decoder (utf8_encode s @ r) = s @ greedy_decoder r" for s r
    by (induction s) (simp_all add: utf8_encode_def greedy_decoder_char)
  have "greedy_decoder (utf8_encode s) = s" for s using app [of s "[]"] by simp
  then show ?thesis using app by (auto simp: reads_utf8_def)
qed

definition demo_compose :: compose_env where
  "demo_compose = \<lparr>ce_now = 5, ce_utc = ''now'', ce_boundary = [1, 255], ce_messageId = [2]\<rparr>"

theorem outbound_message_recognised_witness:
  "readEncryptedMessage_input greedy_decoder (CBytes (utf8_encode
      (buildPGPMIMEMessage demo_compose ''a@b.org'' [''c@d.org''] [] ''hi'' (BEGIN_MESSAGE @ [lf] @ ''abc'' @ [lf] @ END_MESSAGE @ [lf]) [] [])))
    = Inr (ArmoredMessage (BEGIN_MESSAGE @ [cr_char, lf] @ ''abc'' @ [cr_char, lf] @ END_MESSAGE))"
proof -
  let ?inner = "[lf] @ ''abc'' @ [lf]"
  let ?a = "BEGIN_MESSAGE @ ?inner @ END_MESSAGE"
  have arm: "armored_as ?a ?inner" by (simp add: armored_as_def lf_def char_of_def)
  have lines: "list_all (\<lambda>l. find_sub BEGIN_MESSAGE l = None \<and> find_sub BEGIN_SIGNED l = None)
      (pgp_headers demo_compose ''a@b.org'' [''c@d.org''] [] ''hi'' [] [])" by code_simp
  have "normalizeCRLF ?inner = [cr_char, lf] @ ''abc'' @ [cr_char, lf]" by code_simp
  then show ?thesis
    using outbound_message_recognised [of greedy_decoder ?a ?inner "?a @ [lf]" demo_compose "''a@b.org''" "[''c@d.org'']" "[]" "''hi''" "[]" "[]"]
      greedy_reads_utf8 arm lines
    by (simp add: list_all_iff find_sub_None)
qed

end
