(* ===== verification/Protected_Link.thy ===== *)
theory Protected_Link
  imports Compose Protected_Open Mime_Lines
begin

text \<open>
  The two ends of a protected link together: what \<open>sendProtectedLink\<close> of \<^verbatim>\<open>static/mail/compose.jsx\<close>
  puts into its request, \<open>unlockAndDecrypt\<close> of \<^verbatim>\<open>static/protected/open.js\<close> takes out of the answer,
  and the page shows. The password does not influence what the page sends. The page as a state machine.
\<close>

section \<open>Encodings\<close>

text \<open>The lossy decoder of the browser reads back what the encoder wrote.\<close>

definition decoder_ok :: "open_env \<Rightarrow> bool" where
  "decoder_ok env = (\<forall>s. oe_td env (utf8_encode s) = s)"

lemma open_b64_roundtrip: "open_b64ToBytes (JStr (compose_bytesToB64 bs)) = Inr bs"
  by (simp add: open_b64ToBytes_def compose_bytesToB64_def atob_btoa del: map_map)

lemma open_unwrap:
  assumes "crypto_ok (oe_cr env)" and "length nonce = 12" and "aesWrap (oe_cr env) nonce kek p = Inr w"
  shows "open_aesUnwrap env kek w = Inr p"
  using assms
  by (auto simp: aesWrap_def open_aesUnwrap_def bindR_eq_Inr slice_def slice_from_def slice_pos_def crypto_ok_def)

lemma aesOpen_sealed:
  assumes "crypto_ok (oe_cr env)" and "length nonce = 12"
    and "cr_importKey (oe_cr env) mk = Inr key" and "cr_encrypt (oe_cr env) key nonce p = Inr ct"
  shows "aesOpen env mk (nonce @ ct) = Inr p"
  using assms by (auto simp: aesOpen_def slice_def slice_from_def slice_pos_def crypto_ok_def)

lemma derived_params_object:
  assumes "deriveKEK cr pw salt JUndef JUndef = Inr d"
  obtains kvs where "d_params d = JObj kvs" and "json_ok (JObj kvs)"
proof (cases "cr_argon2_defined cr")
  case True
  with assms have "deriveKEK cr pw salt (JStr KDF_ARGON2ID) JUndef = Inr d"
    by (simp add: deriveKEK_def Let_def js_or_def)
  from deriveKEK_argon2_again [OF this] that show ?thesis by (auto simp: default_argon2_params_def)
next
  case False
  then show ?thesis
    using assms that by (auto simp: deriveKEK_def Let_def js_or_def bindR_eq_Inr split: if_splits)
qed

text \<open>The stored parameters, as the text that was sent or as the value of that text.\<close>

lemma link_params_stored:
  assumes "json_ok (JObj kvs)" and "getp j ''kdf_params_json'' \<in> {JStr (json_str (JObj kvs)), JObj kvs}"
  shows "link_params j = JObj kvs"
proof -
  have "json_str (JObj kvs) \<noteq> []" by simp
  then show ?thesis
    using assms(2) json.dec_enc [OF assms(1)] by (auto simp: link_params_def simp del: json_str.simps)
qed

section \<open>The answer of the server\<close>

text \<open>What an answer to \<open>open\<close> has to carry of the request that made the link.\<close>

definition carries :: "jsval \<Rightarrow> jsval \<Rightarrow> bool" where
  "carries j body =
     (getp j ''kdf'' = getp body ''kdf''
      \<and> getp j ''kdf_salt_b64'' = getp body ''kdf_salt_b64''
      \<and> getp j ''wrapped_msg_key_b64'' = getp body ''wrapped_msg_key_b64''
      \<and> getp j ''ciphertext_b64'' = getp body ''body_ciphertext_b64''
      \<and> (getp j ''kdf_params_json'' = getp body ''kdf_params_json''
         \<or> Some (getp j ''kdf_params_json'') = json_parse (to_string (getp body ''kdf_params_json''))))"

lemma decrypt_link_sent:
  assumes "crypto_ok (oe_cr env)" and "oe_keygen env" and "decoder_ok env"
    and "length (lr_msgNonce rnd) = 12" and "length (lr_wrapNonce rnd) = 12"
    and "link_request_body (oe_cr env) rnd m = Inr body" and "carries (JObj j) body"
  shows "decrypt_link env (lk_password m) (JObj j) =
    Inr \<lparr>ul_text = link_text m, ul_viewsRemaining = getp (JObj j) ''views_remaining'', ul_burned = getp (JObj j) ''burned''\<rparr>"
proof -
  obtain key ct d w where r: "cr_importKey (oe_cr env) (lr_msgKey rnd) = Inr key"
      "cr_encrypt (oe_cr env) key (lr_msgNonce rnd) (utf8_encode (link_text m)) = Inr ct"
      "deriveKEK (oe_cr env) (lk_password m) (lr_salt rnd) JUndef JUndef = Inr d"
      "aesWrap (oe_cr env) (lr_wrapNonce rnd) (d_key d) (lr_msgKey rnd) = Inr w"
    and body: "getp body ''kdf'' = JStr (d_kdf d)" "getp body ''kdf_salt_b64'' = JStr (compose_bytesToB64 (lr_salt rnd))"
      "getp body ''kdf_params_json'' = JStr (json_str (js_or (d_params d) (JObj [])))"
      "getp body ''wrapped_msg_key_b64'' = JStr (compose_bytesToB64 w)"
      "getp body ''body_ciphertext_b64'' = JStr (compose_bytesToB64 (lr_msgNonce rnd @ ct))"
    using assms(6) by (auto simp: link_request_body_def bindR_eq_Inr)
  obtain kvs where kvs: "d_params d = JObj kvs" "json_ok (JObj kvs)" using derived_params_object [OF r(3)] .
  have params: "getp body ''kdf_params_json'' = JStr (json_str (JObj kvs))" using body(3) kvs(1) by (simp add: js_or_def)
  have "getp (JObj j) ''kdf_params_json'' \<in> {JStr (json_str (JObj kvs)), JObj kvs}"
    using assms(7) params json.dec_enc [OF kvs(2)] by (auto simp: carries_def simp del: json_str.simps)
  then have lp: "link_params (JObj j) = JObj kvs" by (rule link_params_stored [OF kvs(2)])
  have "deriveKEK (oe_cr env) (lk_password m) (lr_salt rnd) (JStr (d_kdf d)) (JObj kvs) = Inr d"
    using deriveKEK_rederive [OF r(3)] parse_kdf_params_stored [OF kvs(2)] kvs(1) by simp
  then have kek: "open_deriveKEK env (lk_password m) (lr_salt rnd) (JStr (d_kdf d)) (JObj kvs) = Inr (d_key d)"
    using assms(2) by (simp add: open_deriveKEK_def js_or_def)
  have fields: "getp (JObj j) ''kdf'' = JStr (d_kdf d)" "getp (JObj j) ''kdf_salt_b64'' = JStr (compose_bytesToB64 (lr_salt rnd))"
      "getp (JObj j) ''wrapped_msg_key_b64'' = JStr (compose_bytesToB64 w)"
      "getp (JObj j) ''ciphertext_b64'' = JStr (compose_bytesToB64 (lr_msgNonce rnd @ ct))"
    using assms(7) body unfolding carries_def by simp_all
  have "oe_td env (utf8_encode (link_text m)) = link_text m" using assms(3) by (simp add: decoder_ok_def)
  then show ?thesis
    unfolding decrypt_link_def getR_def fields lp
    by (simp add: open_b64_roundtrip kek open_unwrap [OF assms(1,5) r(4)] aesOpen_sealed [OF assms(1,4) r(1,2)]
        bytesToUtf8_def fields del: getp.simps)
qed

section \<open>What the recipient reads\<close>

definition link_fields :: "link_form \<Rightarrow> (string \<times> string) list" where
  "link_fields m =
     [(''From'', or_anonymous (lk_from m)), (''Subject'', if lk_subject m \<noteq> [] then lk_subject m else ''(no subject)'')]"

lemma link_text_lines:
  assumes "no_breaks (lk_from m)" and "no_breaks (lk_subject m)"
  shows "\<forall>f \<in> set (link_fields m). field_ok f"
    and "replace_crlf (link_text m) =
      join [lf] (map (\<lambda>(n, v). field n v) (link_fields m)) @ lf # lf # replace_crlf (lk_body m)"
proof -
  have nb: "no_breaks (or_anonymous (lk_from m))" "no_breaks (if lk_subject m \<noteq> [] then lk_subject m else ''(no subject)'')"
    using assms by (simp_all add: or_anonymous_def no_breaks_def lf_def cr_char_def char_of_def)
  then show "\<forall>f \<in> set (link_fields m). field_ok f"
    by (simp add: link_fields_def field_ok_def header_char_def is_letter_def code_unit_def)
  define sub where "sub = (if lk_subject m \<noteq> [] then lk_subject m else ''(no subject)'')"
  have cr: "cr_char \<notin> set (''From: '' @ or_anonymous (lk_from m))" "cr_char \<notin> set (''Subject: '' @ sub)"
    using nb by (simp_all add: no_breaks_def sub_def cr_char_def char_of_def)
  have "link_text m = (''From: '' @ or_anonymous (lk_from m)) @ cr_char # lf # ((''Subject: '' @ sub) @ cr_char # lf # cr_char # lf # lk_body m)"
    by (simp add: link_text_def sub_def crlf_def)
  then have "replace_crlf (link_text m) =
      (''From: '' @ or_anonymous (lk_from m)) @ lf # ((''Subject: '' @ sub) @ lf # lf # replace_crlf (lk_body m))"
    by (simp only: replace_crlf_append [OF cr(1)] replace_crlf_append [OF cr(2)] replace_crlf_pair)
  then show "replace_crlf (link_text m) =
      join [lf] (map (\<lambda>(n, v). field n v) (link_fields m)) @ lf # lf # replace_crlf (lk_body m)"
    by (simp add: link_fields_def field_def sub_def)
qed

text \<open>Without the headers of a MIME part, an entity is plain text.\<close>

lemma plain_entity:
  assumes "header_value hs ''content-type'' = []" and "header_value hs ''content-disposition'' = []"
    and "header_value hs ''content-transfer-encoding'' = []"
  shows "parseMimeEntity env hs body depth =
    Inr (empty_entity\<lparr>me_bodyText := body, me_bodyScore := (if trim body = [] then 0 else 3)\<rparr>)"
proof -
  have mt: "media_type [] = []" "media_type ''text/plain'' = ''text/plain''" by code_simp+
  have "entity_body env nested hs body =
      Inr (empty_entity\<lparr>me_bodyText := body, me_bodyScore := (if trim body = [] then 0 else 3)\<rparr>)" for nested
    using assms mt
    by (simp add: entity_body_def Let_def is_attachment_def part_filename_def icontains_def str_includes_def
        indexOf_def toLowerCase_def read_leaf_def decodeMailBody_def trim_def trim_start_def trim_end_def
        startsWith_def scoreBodyText_def empty_entity_def split: option.split)
  then show ?thesis by (cases "8 - depth") (simp_all add: parseMimeEntity_def)
qed

lemma link_text_shown:
  assumes "no_breaks (lk_from m)" and "no_breaks (lk_subject m)"
  shows "parseMimeEnvelope env (link_text m) = Inr (empty_entity\<lparr>me_bodyText := replace_crlf (lk_body m)\<rparr>)"
proof -
  define fs where "fs = link_fields m"
  define h where "h = join [lf] (map (\<lambda>(n, v). field n v) fs)"
  note lines = link_text_lines [OF assms, folded fs_def, folded h_def]
  have ne: "fs \<noteq> []" by (simp add: fs_def link_fields_def)
  have ok: "\<forall>l \<in> set (map (\<lambda>(n, v). field n v) fs). l \<noteq> [] \<and> lf \<notin> set l"
    using lines(1) field_ok_line by fastforce
  have idx: "indexOf (h @ lf # lf # replace_crlf (lk_body m)) [lf, lf] = int (length h)"
    unfolding h_def using ne ok by (intro indexOf_blank_line) auto
  have "0 < length h" using ne by (simp add: h_def fs_def link_fields_def field_def)
  moreover have "parseHeaderBlock h = Some (fold put_field fs [])"
    unfolding parseHeaderBlock_def h_def by (rule parse_fields [OF ne lines(1)])
  moreover have "header_value (fold put_field fs []) k = []" if "k \<noteq> ''from''" "k \<noteq> ''subject''" for k
  proof -
    have "toLowerCase ` fst ` set fs = {''from'', ''subject''}"
      by (simp add: fs_def link_fields_def) code_simp
    with that show ?thesis using header_value_put_other [of k fs "[]"] by (simp add: header_value_def)
  qed
  ultimately show ?thesis
    using plain_entity [of "fold put_field fs []" env "replace_crlf (lk_body m)" 0]
    by (simp add: parseMimeEnvelope_def lines(2) idx slice_head slice_behind_blank Let_def
        decodeMailBody_def toLowerCase_def trim_def trim_start_def trim_end_def startsWith_def empty_entity_def)
qed

section \<open>One submission\<close>

lemma on_submit_opened:
  assumes "pw \<noteq> []" and "unlockAndDecrypt env srv (readToken env) pw s = (Inr r, s')"
    and "parseMimeEnvelope env (ul_text r) = Inr e"
  shows "on_submit env srv pw (p, s) =
    ((show_message env r e (setStatus Decrypting (setErr [] (p\<lparr>pg_btn_disabled := True\<rparr>))))\<lparr>pg_btn_disabled := False\<rparr>, s')"
  using assms by (simp add: on_submit_def Let_def)

lemma on_submit_failed:
  assumes "pw \<noteq> []" and "unlockAndDecrypt env srv (readToken env) pw s = (Inl e, s')"
  shows "on_submit env srv pw (p, s) =
    (p\<lparr>pg_status := Locked, pg_err := error_message e, pg_btn_disabled := False\<rparr>, s')"
  using assms by (simp add: on_submit_def Let_def setStatus_def setErr_def)

text \<open>Whatever the password, the server is asked once, with the same request.\<close>

lemma unlock_server_state: "snd (unlockAndDecrypt env srv token pw s) = snd (srv s (open_request token))"
  by (auto simp: unlockAndDecrypt_def bindI_def fetch_def liftI_def split: prod.splits sum.splits)

lemma on_submit_server_state:
  assumes "pw \<noteq> []"
  shows "snd (on_submit env srv pw (p, s)) = snd (srv s (open_request (readToken env)))"
  using assms unlock_server_state [of env srv "readToken env" pw s]
  by (auto simp: on_submit_def Let_def split: prod.splits sum.splits)

lemma show_plain_message:
  "show_message env r (empty_entity\<lparr>me_bodyText := t\<rparr>) p =
   p\<lparr>pg_locked_hidden := True, pg_decrypted_hidden := False, pg_host_hidden := True, pg_frame := None, pg_pre_hidden := False,
     pg_pre := t, pg_attachments_hidden := True, pg_attachments := [], pg_status := opened_status r\<rparr>"
  by (simp add: show_message_def renderDecryptedBody_def renderAttachments_def setStatus_def empty_entity_def
      trim_def trim_start_def trim_end_def Let_def split: option.split)

text \<open>The page a link leads to: it shows the text that was sent.\<close>

definition shows_message :: "page \<Rightarrow> string \<Rightarrow> bool" where
  "shows_message p t =
     (pg_locked_hidden p \<and> \<not> pg_decrypted_hidden p \<and> \<not> pg_pre_hidden p \<and> pg_pre p = t
      \<and> pg_frame p = None \<and> pg_attachments p = [] \<and> pg_err p = [] \<and> \<not> pg_btn_disabled p)"

lemma link_shown:
  assumes "crypto_ok (oe_cr env)" and "oe_keygen env" and "decoder_ok env"
    and "length (lr_msgNonce rnd) = 12" and "length (lr_wrapNonce rnd) = 12"
    and "no_breaks (lk_from m)" and "no_breaks (lk_subject m)" and "lk_password m \<noteq> []"
    and "link_request_body (oe_cr env) rnd m = Inr body"
    and "srv s (open_request (readToken env)) = (Inr resp, s')" and "open_answer resp = Inr (JObj j)"
    and "carries (JObj j) body"
  obtains p' where "on_submit env srv (lk_password m) (p, s) = (p', s')"
    and "shows_message p' (replace_crlf (lk_body m))"
    and "pg_status p' = opened_status \<lparr>ul_text = link_text m,
      ul_viewsRemaining = getp (JObj j) ''views_remaining'', ul_burned = getp (JObj j) ''burned''\<rparr>"
proof -
  let ?r = "\<lparr>ul_text = link_text m, ul_viewsRemaining = getp (JObj j) ''views_remaining'', ul_burned = getp (JObj j) ''burned''\<rparr>"
  have "unlockAndDecrypt env srv (readToken env) (lk_password m) s = (Inr ?r, s')"
    using assms(10,11) decrypt_link_sent [OF assms(1-5,9,12)]
    by (simp add: unlockAndDecrypt_def bindI_def fetch_def liftI_def)
  note sub = on_submit_opened [OF assms(8) this, of "empty_entity\<lparr>me_bodyText := replace_crlf (lk_body m)\<rparr>" p]
  show ?thesis
    using that [OF sub] link_text_shown [OF assms(6,7), of env]
    by (simp add: show_plain_message shows_message_def setStatus_def setErr_def)
qed

section \<open>The page as a state machine\<close>

inductive page_step :: "open_env \<Rightarrow> 's server \<Rightarrow> page \<times> 's \<Rightarrow> page \<times> 's \<Rightarrow> bool" for env srv where
  load: "pg_status p = Loading \<Longrightarrow> page_step env srv (p, s) (open_init env srv (p, s))"
| submit: "pg_listening p \<Longrightarrow> \<not> pg_locked_hidden p \<Longrightarrow> \<not> pg_btn_disabled p \<Longrightarrow>
    page_step env srv (p, s) (on_submit env srv pw (p, s))"

definition fresh_page :: "page \<times> 's \<Rightarrow> bool" where
  "fresh_page st = (fst st = initial_page)"

definition one_phase :: "page \<Rightarrow> bool" where
  "one_phase p =
     (\<not> pg_locked_hidden p \<and> pg_burned_hidden p \<and> pg_decrypted_hidden p
      \<or> pg_locked_hidden p \<and> \<not> pg_burned_hidden p \<and> pg_decrypted_hidden p
      \<or> pg_locked_hidden p \<and> pg_burned_hidden p \<and> \<not> pg_decrypted_hidden p)"

definition blank_page :: "page \<Rightarrow> bool" where
  "blank_page p = (pg_pre p = [] \<and> pg_frame p = None \<and> pg_attachments p = [])"

definition frame_sanitised :: "open_env \<Rightarrow> page \<Rightarrow> bool" where
  "frame_sanitised env p =
     (case pg_frame p of None \<Rightarrow> True
      | Some d \<Rightarrow> (case oe_purify env of None \<Rightarrow> False | Some sanitize \<Rightarrow> \<exists>h. d = FRAME_HEAD @ sanitize h))"

definition page_inv :: "open_env \<Rightarrow> page \<times> 's \<Rightarrow> bool" where
  "page_inv env st =
     (let p = fst st in
      one_phase p \<and> \<not> pg_btn_disabled p \<and> (pg_decrypted_hidden p \<longrightarrow> blank_page p) \<and> frame_sanitised env p
      \<and> (pg_status p = Loading \<longrightarrow> \<not> pg_locked_hidden p \<and> \<not> pg_listening p))"

lemmas page_inv_defs = page_inv_def one_phase_def blank_page_def frame_sanitised_def Let_def

lemma show_message_frame:
  "frame_sanitised env (show_message env r e p)"
  "pg_btn_disabled (show_message env r e p) = pg_btn_disabled p"
  "pg_locked_hidden (show_message env r e p)" "\<not> pg_decrypted_hidden (show_message env r e p)"
  "pg_burned_hidden (show_message env r e p) = pg_burned_hidden p"
  "pg_status (show_message env r e p) \<noteq> Loading"
  by (auto simp: frame_sanitised_def show_message_def renderDecryptedBody_def renderAttachments_def setStatus_def
      opened_status_def Let_def split: option.split)

lemma load_keeps_inv:
  assumes "page_inv env (p, s)" and "pg_status p = Loading"
  shows "page_inv env (open_init env srv (p, s))"
proof -
  have start: "\<not> pg_locked_hidden p" "pg_burned_hidden p" "pg_decrypted_hidden p" "blank_page p" "\<not> pg_btn_disabled p"
    using assms by (auto simp: page_inv_def one_phase_def Let_def)
  consider (token) "readToken env = []" | (answer) r s' where "readToken env \<noteq> []" "loadMeta srv (readToken env) s = (r, s')"
    by (cases "loadMeta srv (readToken env) s") auto
  then show ?thesis
  proof cases
    case token
    with start show ?thesis
      by (simp add: open_init_def Let_def setErr_def setStatus_def page_inv_defs)
  next
    case answer
    with start show ?thesis
      by (auto simp: open_init_def Let_def renderMeta_def load_failed_def setStatus_def page_inv_defs split: sum.split)
  qed
qed

lemma submit_keeps_inv:
  assumes "page_inv env (p, s)" and "\<not> pg_locked_hidden p" and "pg_listening p"
  shows "page_inv env (on_submit env srv pw (p, s))"
proof -
  have start: "pg_burned_hidden p" "pg_decrypted_hidden p" "blank_page p" "\<not> pg_btn_disabled p" "frame_sanitised env p"
      "pg_status p \<noteq> Loading"
    using assms by (auto simp: page_inv_def one_phase_def Let_def)
  have fail: "page_inv env (p\<lparr>pg_status := Locked, pg_err := t, pg_btn_disabled := False\<rparr>, s')" for t s'
    using start assms(2) by (simp add: page_inv_defs)
  consider (empty) "pw = []"
    | (failed) e s' where "pw \<noteq> []" "unlockAndDecrypt env srv (readToken env) pw s = (Inl e, s')"
    | (opened) r s' where "pw \<noteq> []" "unlockAndDecrypt env srv (readToken env) pw s = (Inr r, s')"
    by (metis prod.exhaust sum.exhaust)
  then show ?thesis
  proof cases
    case empty
    with start assms show ?thesis by (simp add: on_submit_def setErr_def page_inv_defs)
  next
    case failed
    show ?thesis unfolding on_submit_failed [OF failed] by (rule fail)
  next
    case opened
    show ?thesis
    proof (cases "parseMimeEnvelope env (ul_text r)")
      case (Inl e)
      with opened fail show ?thesis by (simp add: on_submit_def Let_def setErr_def setStatus_def)
    next
      case (Inr e)
      let ?q = "setStatus Decrypting (setErr [] (p\<lparr>pg_btn_disabled := True\<rparr>))"
      have "pg_burned_hidden ?q" using start by (simp add: setStatus_def setErr_def)
      then show ?thesis
        unfolding on_submit_opened [OF opened Inr]
        using show_message_frame [of env r e ?q] by (simp add: page_inv_def one_phase_def Let_def frame_sanitised_def)
    qed
  qed
qed

interpretation protected_page: invariant_system fresh_page "page_step env srv" "page_inv env"
  for env and srv :: "'s server"
proof
  fix st :: "page \<times> 's"
  assume "fresh_page st"
  then show "page_inv env st" by (simp add: fresh_page_def page_inv_defs initial_page_def)
next
  fix st st' :: "page \<times> 's"
  assume "page_inv env st" and "page_step env srv st st'"
  from this(2,1) show "page_inv env st'" by cases (auto intro: load_keeps_inv submit_keeps_inv)
qed

section \<open>Properties\<close>

text \<open>
  C24. The password stays in the tab: whatever the recipient types, a submission sends the server one
  request, which is the same for every password, and leaves the server in the same state. (A wrong
  password therefore uses up a view like the right one.)
\<close>

theorem password_never_sent:
  assumes "pw \<noteq> []"
  shows "open_request token = \<lparr>rq_method = POST, rq_url = ''/api/v1/protected-links/'' @ encodeURIComponent token @ ''/open'',
      rq_body = Some ''{}''\<rparr>
    \<and> snd (on_submit env srv pw (p, s)) = snd (srv s (open_request (readToken env)))
    \<and> (pw' = [] \<or> snd (on_submit env srv pw' (p, s)) = snd (on_submit env srv pw (p, s)))"
proof (intro conjI)
  show "pw' = [] \<or> snd (on_submit env srv pw' (p, s)) = snd (on_submit env srv pw (p, s))"
    using assms by (cases "pw' = []") (simp_all add: on_submit_server_state)
  show "snd (on_submit env srv pw (p, s)) = snd (srv s (open_request (readToken env)))"
    using assms by (rule on_submit_server_state)
qed (simp add: open_request_def link_path_def)

definition demo_page_env :: open_env where
  "demo_page_env =
     \<lparr>oe_pathname = ''/m/t/'', oe_body_text = None, oe_purify = None, oe_keygen = True, oe_cr = demo_crypto,
      oe_td = map char_of_byte, oe_localeString = to_string\<rparr>"

definition gone :: "nat server" where
  "gone n rq = (Inr \<lparr>rs_status = 410, rs_body = []\<rparr>, Suc n)"

theorem password_never_sent_witness:
  "snd (on_submit demo_page_env gone ''right'' (initial_page, 0)) = 1
   \<and> snd (on_submit demo_page_env gone ''wrong'' (initial_page, 0)) = 1"
  using password_never_sent [of "''right''" "''t''" demo_page_env gone initial_page 0 "''wrong''"] by (simp add: gone_def)

text \<open>
  C25. At every moment exactly one of the three phases of the page (locked, burned, decrypted) is
  visible and the button can be pressed; nothing of a message is on the page unless the decrypted phase
  is shown; and HTML of a message reaches the page only through the sanitiser, in the frame whose
  document starts with the content security policy.
\<close>

theorem protected_page_invariant:
  assumes "reach fresh_page (page_step env srv) (p, s)"
  shows "one_phase p \<and> \<not> pg_btn_disabled p \<and> (\<not> pg_decrypted_hidden p \<or> blank_page p) \<and> frame_sanitised env p"
  using protected_page.reach_inv [OF assms] by (auto simp: page_inv_def Let_def)

theorem protected_page_invariant_witness:
  "one_phase (fst (open_init demo_page_env gone (initial_page, 0)))"
proof -
  have "page_step demo_page_env gone (initial_page, 0) (open_init demo_page_env gone (initial_page, 0))"
    by (rule load) (simp add: initial_page_def)
  then have "reach fresh_page (page_step demo_page_env gone) (open_init demo_page_env gone (initial_page, 0))"
    by (rule reach_step [OF reach_init, rotated]) (simp add: fresh_page_def)
  then show ?thesis
    using protected_page_invariant [of demo_page_env gone "fst (open_init demo_page_env gone (initial_page, 0))"
        "snd (open_init demo_page_env gone (initial_page, 0))"] by simp
qed

text \<open>
  Every refusal of the server is told to the recipient and leaves the page locked, ready for
  another attempt: 410, 404 and 429 have their own words, any other error status is shown as a number.
\<close>

theorem refused_opening_is_reported:
  assumes "pw \<noteq> []" and "srv s (open_request (readToken env)) = (Inr resp, s')" and "\<not> resp_ok resp"
  shows "on_submit env srv pw (p, s) = (p\<lparr>pg_status := Locked, pg_btn_disabled := False,
      pg_err := (if rs_status resp = 410 then ''link expired or all views consumed''
                 else if rs_status resp = 404 then ''link not found''
                 else if rs_status resp = 429 then ''too many attempts - slow down''
                 else ''HTTP '' @ status_string resp)\<rparr>, s')"
proof -
  obtain t where t: "open_answer resp = Inl (Error t)" "t \<noteq> []"
      "t = (if rs_status resp = 410 then ''link expired or all views consumed''
            else if rs_status resp = 404 then ''link not found''
            else if rs_status resp = 429 then ''too many attempts - slow down''
            else ''HTTP '' @ status_string resp)"
    using assms(3) by (auto simp: open_answer_def)
  have "unlockAndDecrypt env srv (readToken env) pw s = (Inl (Error t), s')"
    using assms(2) t(1) by (simp add: unlockAndDecrypt_def bindI_def fetch_def liftI_def)
  from on_submit_failed [OF assms(1) this] t(2,3) show ?thesis by (simp add: error_message_def)
qed

theorem refused_opening_is_reported_witness:
  "pg_err (fst (on_submit demo_page_env gone ''pw'' (initial_page, 0))) = ''link expired or all views consumed''"
  using refused_opening_is_reported [of "''pw''" gone 0 demo_page_env "\<lparr>rs_status = 410, rs_body = []\<rparr>" 1 initial_page]
  by (simp add: gone_def resp_ok_def)

end
