(* ===== verification/Link_Server.thy ===== *)
theory Link_Server
  imports Http
begin

text \<open>
  The server side of protected links, \<^verbatim>\<open>internal/httpserver/api_protected_links.go\<close> and
  \<^verbatim>\<open>internal/maillinks/links.go\<close>: creating a link, its metadata, and the atomic consumption of a view.
  The table of links is a list of rows, each with the ciphertext of its blob; the clock is part of the
  state, in nanoseconds. The random token, the rate limiter, the address parser, the time format and the
  notification mail are fields of \<open>link_env\<close>. JSON answers are given by a text that parses to them.
\<close>

section \<open>State\<close>

record link_row =
  ln_token :: string
  ln_blob :: bytes
  ln_subject_hint :: string
  ln_kdf :: string
  ln_salt :: bytes
  ln_params :: string
  ln_wrapped :: bytes
  ln_expires :: int
  ln_max_views :: int
  ln_views :: int
  ln_burned :: bool      \<comment> \<open>\<open>burned_at IS NOT NULL\<close>\<close>

record link_store =
  st_rows :: "link_row list"
  st_now :: int

record link_env =
  le_token :: "link_store \<Rightarrow> string"
  le_rateLimitOK :: "string \<Rightarrow> link_store \<Rightarrow> bool"
  le_parseAddress :: "string \<Rightarrow> bool"
  le_format :: "int \<Rightarrow> string"
  le_base :: string
  le_notify :: "jsval \<Rightarrow> bool"

definition TokenLength :: nat where
  "TokenLength = 43"

definition token_char :: "char \<Rightarrow> bool" where
  "token_char c = (is_alnum c \<or> c = CHR ''-'' \<or> c = CHR ''_'')"

definition ValidateToken :: "string \<Rightarrow> bool" where
  "ValidateToken s = (length s = TokenLength \<and> list_all token_char s)"

section \<open>Answers\<close>

definition go_json :: "nat \<Rightarrow> jsval \<Rightarrow> http_response" where
  "go_json status v = \<lparr>rs_status = status, rs_body = utf8_encode (json_str v)\<rparr>"

definition writeErr :: "nat \<Rightarrow> string \<Rightarrow> http_response" where
  "writeErr status msg = go_json status (JObj [(''error'', JStr msg)])"

definition not_found :: http_response where
  "not_found = \<lparr>rs_status = 404, rs_body = utf8_encode ''404 page not found''\<rparr>"

section \<open>The store\<close>

datatype 'a store_result = ErrNotFound | ErrBurned | StoreError | Stored 'a

definition link_Get :: "string \<Rightarrow> link_store \<Rightarrow> link_row store_result" where
  "link_Get token st =
     (if \<not> ValidateToken token then ErrNotFound
      else (case find (\<lambda>r. ln_token r = token) (st_rows st) of None \<Rightarrow> ErrNotFound | Some r \<Rightarrow> Stored r))"

text \<open>The row inserted by \<open>Create\<close>; the primary key refuses a token that is taken.\<close>

definition link_Create :: "link_row \<Rightarrow> int \<Rightarrow> link_store \<Rightarrow> link_row store_result \<times> link_store" where
  "link_Create row ttl st =
     (if ln_kdf row = [] \<or> ln_salt row = [] \<or> ln_wrapped row = [] \<or> ttl \<le> 0 \<or> 30 * 24 * 3600 * 10 ^ 9 < ttl
         \<or> ln_max_views row < 0 \<or> ln_token row \<in> ln_token ` set (st_rows st)
      then (StoreError, st)
      else
        (let row' = row\<lparr>ln_params := (if ln_params row = [] then ''{}'' else ln_params row),
               ln_expires := st_now st + ttl, ln_views := 0, ln_burned := False\<rparr>
         in (Stored row', st\<lparr>st_rows := st_rows st @ [row']\<rparr>)))"

text \<open>The condition of the \<open>UPDATE\<close> and what it writes.\<close>

definition consumable :: "int \<Rightarrow> link_row \<Rightarrow> bool" where
  "consumable now r = (\<not> ln_burned r \<and> now < ln_expires r \<and> (ln_max_views r = 0 \<or> ln_views r < ln_max_views r))"

definition consume_row :: "link_row \<Rightarrow> link_row" where
  "consume_row r =
     r\<lparr>ln_views := ln_views r + 1,
       ln_burned := (if 0 < ln_max_views r \<and> ln_max_views r \<le> ln_views r + 1 then True else ln_burned r)\<rparr>"

record consume_result =
  cs_row :: link_row
  cs_viewsRemaining :: int
  cs_burned :: bool

definition ConsumeView :: "string \<Rightarrow> link_store \<Rightarrow> consume_result store_result \<times> link_store" where
  "ConsumeView token st =
     (if \<not> ValidateToken token then (ErrNotFound, st)
      else
        (case find (\<lambda>r. ln_token r = token \<and> consumable (st_now st) r) (st_rows st) of
           None \<Rightarrow> ((case link_Get token st of Stored _ \<Rightarrow> ErrBurned | _ \<Rightarrow> ErrNotFound), st)
         | Some r \<Rightarrow>
             (let r' = consume_row r in
              (Stored \<lparr>cs_row = r',
                 cs_viewsRemaining = (if 0 < ln_max_views r' then max 0 (ln_max_views r' - ln_views r') else 0),
                 cs_burned = (0 < ln_max_views r' \<and> ln_burned r')\<rparr>,
               st\<lparr>st_rows := map (\<lambda>x. if ln_token x = token \<and> consumable (st_now st) x then consume_row x else x) (st_rows st)\<rparr>))))"

section \<open>The handlers\<close>

text \<open>\<open>time.Duration\<close> is a 64-bit integer.\<close>

definition int64 :: "int \<Rightarrow> int" where
  "int64 x = (x + 2 ^ 63) mod 2 ^ 64 - 2 ^ 63"

text \<open>
  Decoding into a field of the body: a missing or \<open>null\<close> field keeps the zero value, a value of another
  type is an error.
\<close>

fun go_string :: "jsval \<Rightarrow> string option" where
  "go_string (JStr s) = Some s"
| "go_string v = (if nullish v then Some [] else None)"

fun go_int64 :: "jsval \<Rightarrow> int option" where
  "go_int64 (JNum (Fin i)) = (if - (2 ^ 63) \<le> i \<and> i < 2 ^ 63 then Some i else None)"
| "go_int64 v = (if nullish v then Some 0 else None)"

fun go_strings :: "jsval \<Rightarrow> string list option" where
  "go_strings (JArr vs) = opt_all (map go_string vs)"
| "go_strings v = (if nullish v then Some [] else None)"

fun go_bool :: "jsval \<Rightarrow> bool option" where
  "go_bool (JBool b) = Some b"
| "go_bool v = (if nullish v then Some False else None)"

text \<open>\<open>base64.StdEncoding\<close> skips line ends and insists on the padding.\<close>

definition go_b64 :: "string \<Rightarrow> bytes option" where
  "go_b64 s =
     (let t = filter (\<lambda>c. code_unit c \<noteq> 10 \<and> code_unit c \<noteq> 13) s in
      if length t mod 4 = 0 \<and> list_all (\<lambda>c. \<not> ascii_space c) t then atob_bytes t else None)"

definition at_least :: "nat \<Rightarrow> bytes option \<Rightarrow> bool" where
  "at_least n b = (case b of None \<Rightarrow> False | Some bs \<Rightarrow> n \<le> length bs)"

record create_body =
  cb_subject_hint :: string
  cb_recipients :: "string list"
  cb_ttl :: int
  cb_max_views :: int
  cb_kdf :: string
  cb_salt_b64 :: string
  cb_params :: string
  cb_wrapped_b64 :: string
  cb_cipher_b64 :: string

definition decode_create :: "jsval \<Rightarrow> create_body option" where
  "decode_create v =
     Option.bind (go_string (getp v ''subject_hint'')) (\<lambda>hint.
     Option.bind (go_strings (getp v ''recipient_emails'')) (\<lambda>recipients.
     Option.bind (go_bool (getp v ''notify_recipients'')) (\<lambda>_.
     Option.bind (go_string (getp v ''notify_from_addr'')) (\<lambda>_.
     Option.bind (go_int64 (getp v ''ttl_seconds'')) (\<lambda>ttl.
     Option.bind (go_int64 (getp v ''max_views'')) (\<lambda>views.
     Option.bind (go_string (getp v ''kdf'')) (\<lambda>kdf.
     Option.bind (go_string (getp v ''kdf_salt_b64'')) (\<lambda>salt.
     Option.bind (go_string (getp v ''kdf_params_json'')) (\<lambda>params.
     Option.bind (go_string (getp v ''wrapped_msg_key_b64'')) (\<lambda>wrapped.
     Option.bind (go_string (getp v ''body_ciphertext_b64'')) (\<lambda>cipher.
     Some \<lparr>cb_subject_hint = hint, cb_recipients = recipients, cb_ttl = ttl, cb_max_views = views,
           cb_kdf = toLowerCase (trim kdf), cb_salt_b64 = salt, cb_params = (if params = [] then ''{}'' else params),
           cb_wrapped_b64 = wrapped, cb_cipher_b64 = cipher\<rparr>)))))))))))"

text \<open>The checks of the handler, in their order; \<open>None\<close> when the body passes.\<close>

definition create_error :: "link_env \<Rightarrow> create_body \<Rightarrow> string option" where
  "create_error env b =
     (if cb_kdf b \<notin> {''argon2id'', ''pbkdf2-sha256'', ''pbkdf2-sha256-600k''}
      then Some ''kdf must be argon2id or pbkdf2-sha256[-600k]''
      else if \<not> at_least 8 (go_b64 (cb_salt_b64 b)) then Some ''invalid kdf_salt_b64''
      else if \<not> at_least 32 (go_b64 (cb_wrapped_b64 b)) then Some ''invalid wrapped_msg_key_b64''
      else if \<not> at_least 16 (go_b64 (cb_cipher_b64 b)) then Some ''invalid body_ciphertext_b64''
      else if json_parse (cb_params b) = None then Some ''kdf_params_json must be JSON''
      else if 30 * 24 * 3600 * 10 ^ 9 < int64 (cb_ttl b * 10 ^ 9) then Some ''ttl_seconds may not exceed 30 days''
      else if cb_max_views b < 0 \<or> 1000 < cb_max_views b then Some ''max_views out of range''
      else
        (case find (\<lambda>a. \<not> le_parseAddress env a) (filter (\<lambda>a. a \<noteq> []) (map trim (cb_recipients b))) of
           Some a \<Rightarrow> Some (''invalid recipient: '' @ a)
         | None \<Rightarrow> None))"

definition go_bytes_or_empty :: "string \<Rightarrow> bytes" where
  "go_bytes_or_empty s = (case go_b64 s of Some bs \<Rightarrow> bs | None \<Rightarrow> [])"

definition new_row :: "string \<Rightarrow> create_body \<Rightarrow> link_row" where
  "new_row token b =
     \<lparr>ln_token = token, ln_blob = go_bytes_or_empty (cb_cipher_b64 b), ln_subject_hint = trim (cb_subject_hint b),
      ln_kdf = cb_kdf b, ln_salt = go_bytes_or_empty (cb_salt_b64 b), ln_params = cb_params b,
      ln_wrapped = go_bytes_or_empty (cb_wrapped_b64 b), ln_expires = 0, ln_max_views = cb_max_views b, ln_views = 0,
      ln_burned = False\<rparr>"

definition effective_ttl :: "create_body \<Rightarrow> int" where
  "effective_ttl b = (let ttl = int64 (cb_ttl b * 10 ^ 9) in if ttl \<le> 0 then 7 * 24 * 3600 * 10 ^ 9 else ttl)"

definition create_link :: "link_env \<Rightarrow> string \<Rightarrow> link_store \<Rightarrow> http_response \<times> link_store" where
  "create_link env body st =
     (case Option.bind (json_parse body) (\<lambda>v. map_option (Pair v) (decode_create v)) of
        None \<Rightarrow> (writeErr 400 ''invalid json'', st)
      | Some (v, b) \<Rightarrow>
          (case create_error env b of
             Some msg \<Rightarrow> (writeErr 400 msg, st)
           | None \<Rightarrow>
               (case link_Create (new_row (le_token env st) b) (effective_ttl b) st of
                  (Stored row, st') \<Rightarrow>
                    (go_json 201 (JObj
                       [(''token'', JStr (ln_token row)), (''url'', JStr (le_base env @ ''/m/'' @ ln_token row)),
                        (''expires_at'', JStr (le_format env (ln_expires row))),
                        (''max_views'', jint (ln_max_views row)), (''notify_sent'', JBool (le_notify env v))]), st')
                | (_, st') \<Rightarrow> (writeErr 500 ''internal error'', st'))))"

definition params_value :: "link_row \<Rightarrow> jsval" where
  "params_value r = (case json_parse (ln_params r) of Some v \<Rightarrow> v | None \<Rightarrow> JNull)"

definition protectedLinkMeta :: "link_env \<Rightarrow> string \<Rightarrow> link_store \<Rightarrow> http_response" where
  "protectedLinkMeta env token st =
     (case link_Get token st of
        Stored r \<Rightarrow>
          go_json 200 (JObj
            ([(''kdf'', JStr (ln_kdf r)), (''kdf_salt_b64'', JStr (b64_encode (ln_salt r))),
              (''kdf_params_json'', params_value r), (''subject_hint'', JStr (ln_subject_hint r)),
              (''expires_at'', JStr (le_format env (ln_expires r))), (''max_views'', jint (ln_max_views r)),
              (''views'', jint (ln_views r)),
              (''expired'', JBool (ln_burned r \<or> ln_expires r < st_now st
                 \<or> 0 < ln_max_views r \<and> ln_max_views r \<le> ln_views r))]
             @ (if 0 < ln_max_views r then [(''views_remaining'', jint (max 0 (ln_max_views r - ln_views r)))] else [])))
      | StoreError \<Rightarrow> writeErr 500 ''internal error''
      | _ \<Rightarrow> not_found)"

definition open_value :: "consume_result \<Rightarrow> jsval" where
  "open_value c =
     (let r = cs_row c in
      JObj [(''wrapped_msg_key_b64'', JStr (b64_encode (ln_wrapped r))), (''ciphertext_b64'', JStr (b64_encode (ln_blob r))),
            (''kdf'', JStr (ln_kdf r)), (''kdf_salt_b64'', JStr (b64_encode (ln_salt r))),
            (''kdf_params_json'', params_value r), (''max_views'', jint (ln_max_views r)), (''views'', jint (ln_views r)),
            (''views_remaining'', jint (cs_viewsRemaining c)), (''burned'', JBool (cs_burned c))])"

definition protectedLinkOpen :: "string \<Rightarrow> link_store \<Rightarrow> http_response \<times> link_store" where
  "protectedLinkOpen token st =
     (case ConsumeView token st of
        (Stored c, st') \<Rightarrow> (go_json 200 (open_value c), st')
      | (ErrNotFound, st') \<Rightarrow> (not_found, st')
      | (ErrBurned, st') \<Rightarrow> (writeErr 410 ''link expired or all views consumed'', st')
      | (StoreError, st') \<Rightarrow> (writeErr 500 ''internal error'', st'))"

text \<open>The public routes below \<open>/api/v1/protected-links/\<close>: a token and an action.\<close>

definition links_public :: "link_env \<Rightarrow> http_method \<Rightarrow> string \<Rightarrow> string \<Rightarrow> link_store \<Rightarrow> http_response \<times> link_store" where
  "links_public env verb token action st =
     (if \<not> ValidateToken token then (not_found, st)
      else if action = ''meta'' then
        (if \<not> le_rateLimitOK env ''protected_link_meta'' st then (writeErr 429 ''too many requests'', st)
         else if verb \<noteq> GET then (writeErr 405 ''method not allowed'', st)
         else (protectedLinkMeta env token st, st))
      else if action = ''open'' then
        (if \<not> le_rateLimitOK env ''protected_link_open'' st then (writeErr 429 ''too many requests'', st)
         else if verb \<noteq> POST then (writeErr 405 ''method not allowed'', st)
         else protectedLinkOpen token st)
      else (not_found, st))"

definition LINKS_PREFIX :: string where
  "LINKS_PREFIX = ''/api/v1/protected-links/''"

definition links_server :: "link_env \<Rightarrow> link_store server" where
  "links_server env st rq =
     (let (resp, st') =
        (case decodeURIComponent (rq_url rq) of
           None \<Rightarrow> (writeErr 400 ''bad request'', st)
         | Some path \<Rightarrow>
             if path = ''/api/v1/mail/protected-links'' then
               (if rq_method rq \<noteq> POST then (writeErr 405 ''method not allowed'', st)
                else create_link env (case rq_body rq of Some b \<Rightarrow> b | None \<Rightarrow> []) st)
             else if prefix LINKS_PREFIX path then
               (let rest = drop (length LINKS_PREFIX) path in
                links_public env (rq_method rq) (takeWhile (\<lambda>c. c \<noteq> CHR ''/'') rest)
                  (tl (dropWhile (\<lambda>c. c \<noteq> CHR ''/'') rest)) st)
             else (not_found, st))
      in (Inr resp, st'))"

section \<open>Runs of the store\<close>

text \<open>
  A run creates links, consumes views and lets time pass. The log has the token of every successful
  consumption: each of them hands the ciphertext out once.
\<close>

inductive link_step :: "link_env \<Rightarrow> link_store \<times> string list \<Rightarrow> link_store \<times> string list \<Rightarrow> bool" for env where
  create: "create_link env body st = (resp, st') \<Longrightarrow> link_step env (st, given) (st', given)"
| consume: "ConsumeView token st = (Stored c, st') \<Longrightarrow> link_step env (st, given) (st', token # given)"
| refuse: "ConsumeView token st = (r, st') \<Longrightarrow> \<forall>c. r \<noteq> Stored c \<Longrightarrow> link_step env (st, given) (st', given)"
| tick: "0 \<le> d \<Longrightarrow> link_step env (st, given) (st\<lparr>st_now := st_now st + d\<rparr>, given)"

definition no_links :: "link_store \<times> string list \<Rightarrow> bool" where
  "no_links st = (st_rows (fst st) = [] \<and> snd st = [])"

definition row_inv :: "string list \<Rightarrow> link_row \<Rightarrow> bool" where
  "row_inv given r =
     (ln_views r = int (count_list given (ln_token r)) \<and> 0 \<le> ln_max_views r
      \<and> (ln_max_views r = 0 \<or> ln_views r \<le> ln_max_views r)
      \<and> ln_burned r = (0 < ln_max_views r \<and> ln_max_views r \<le> ln_views r))"

definition links_inv :: "link_store \<times> string list \<Rightarrow> bool" where
  "links_inv st =
     (distinct (map ln_token (st_rows (fst st))) \<and> list_all (row_inv (snd st)) (st_rows (fst st))
      \<and> set (snd st) \<subseteq> ln_token ` set (st_rows (fst st)))"

lemma consume_row_simps [simp]:
  "ln_token (consume_row r) = ln_token r" "ln_max_views (consume_row r) = ln_max_views r"
  "ln_views (consume_row r) = ln_views r + 1"
  by (simp_all add: consume_row_def)

text \<open>A consumption changes the row of its token and no other.\<close>

lemma ConsumeView_StoredD:
  assumes "ConsumeView token st = (Stored c, st')"
  obtains r where "r \<in> set (st_rows st)" and "ln_token r = token" and "consumable (st_now st) r"
    and "cs_row c = consume_row r"
    and "st_rows st' = map (\<lambda>x. if ln_token x = token \<and> consumable (st_now st) x then consume_row x else x) (st_rows st)"
proof (cases "find (\<lambda>r. ln_token r = token \<and> consumable (st_now st) r) (st_rows st)")
  case None
  with assms show ?thesis by (simp add: ConsumeView_def split: if_splits store_result.splits)
next
  case (Some r)
  then have "r \<in> set (st_rows st)" "ln_token r = token" "consumable (st_now st) r"
    by (auto simp: find_Some_iff)
  with assms Some that show ?thesis by (auto simp: ConsumeView_def Let_def split: if_splits)
qed

lemma ConsumeView_refused: "ConsumeView token st = (r, st') \<Longrightarrow> \<forall>c. r \<noteq> Stored c \<Longrightarrow> st' = st"
  by (auto simp: ConsumeView_def Let_def split: if_splits option.splits)

lemma create_link_rows:
  assumes "create_link env body st = (resp, st')"
  shows "st' = st \<or> (\<exists>row. st_rows st' = st_rows st @ [row] \<and> ln_token row \<notin> ln_token ` set (st_rows st)
    \<and> ln_views row = 0 \<and> \<not> ln_burned row \<and> 0 \<le> ln_max_views row)"
  using assms
  by (auto simp: create_link_def link_Create_def new_row_def Let_def split: option.splits if_splits)

lemma row_inv_consume:
  assumes "row_inv given r" and "consumable now r" and "ln_token r = token"
  shows "row_inv (token # given) (consume_row r)"
  using assms by (auto simp: row_inv_def consumable_def consume_row_def)

lemma row_inv_other: "row_inv given r \<Longrightarrow> ln_token r \<noteq> token \<Longrightarrow> row_inv (token # given) r"
  by (auto simp: row_inv_def)

lemma consume_keeps_inv:
  assumes "links_inv (st, given)" and "ConsumeView token st = (Stored c, st')"
  shows "links_inv (st', token # given)"
proof -
  obtain r where r: "r \<in> set (st_rows st)" "ln_token r = token" "consumable (st_now st) r"
      "st_rows st' = map (\<lambda>x. if ln_token x = token \<and> consumable (st_now st) x then consume_row x else x) (st_rows st)"
    using ConsumeView_StoredD [OF assms(2)] by blast
  have dist: "distinct (map ln_token (st_rows st))" and all: "\<forall>x \<in> set (st_rows st). row_inv given x"
    and sub: "set given \<subseteq> ln_token ` set (st_rows st)"
    using assms(1) by (auto simp: links_inv_def list_all_iff)
  have toks: "map ln_token (st_rows st') = map ln_token (st_rows st)" unfolding r(4) by simp
  have "row_inv (token # given) (if ln_token x = token \<and> consumable (st_now st) x then consume_row x else x)"
    if "x \<in> set (st_rows st)" for x
  proof (cases "ln_token x = token")
    case True
    then have "x = r" using dist that r(1,2) by (metis distinct_map inj_onD)
    then show ?thesis using r all row_inv_consume by simp
  next
    case False
    then show ?thesis using all that row_inv_other by simp
  qed
  then have "list_all (row_inv (token # given)) (st_rows st')" unfolding r(4) list_all_iff set_map by blast
  moreover have "set (token # given) \<subseteq> ln_token ` set (st_rows st')"
    using sub r(1,2) toks by (metis image_eqI insert_subset list.set(2) set_map)
  ultimately show ?thesis using dist toks by (simp add: links_inv_def)
qed

lemma create_keeps_inv:
  assumes "links_inv (st, given)" and "create_link env body st = (resp, st')"
  shows "links_inv (st', given)"
proof -
  consider "st' = st" | row where "st_rows st' = st_rows st @ [row]" "ln_token row \<notin> ln_token ` set (st_rows st)"
      "ln_views row = 0" "\<not> ln_burned row" "0 \<le> ln_max_views row"
    using create_link_rows [OF assms(2)] by blast
  then show ?thesis
  proof cases
    case 1
    with assms(1) show ?thesis by simp
  next
    case 2
    have "ln_token row \<notin> set given" using assms(1) 2(2) by (auto simp: links_inv_def)
    then have "row_inv given row" using 2 by (simp add: row_inv_def count_list_0_iff)
    then show ?thesis using assms(1) 2 by (auto simp: links_inv_def)
  qed
qed

interpretation links: invariant_system no_links "link_step env" links_inv for env
proof
  fix st
  assume "no_links st"
  then show "links_inv st" by (simp add: no_links_def links_inv_def)
next
  fix st st'
  assume inv: "links_inv st" and step: "link_step env st st'"
  from step show "links_inv st'"
  proof cases
    case (create body s resp s' given)
    with inv show ?thesis by (simp add: create_keeps_inv)
  next
    case (consume token s c s' given)
    with inv show ?thesis by (simp add: consume_keeps_inv)
  next
    case (refuse token s r s' given)
    with inv ConsumeView_refused show ?thesis by blast
  next
    case (tick d s given)
    with inv show ?thesis by (simp add: links_inv_def)
  qed
qed

text \<open>
  C15. A link with a limit of \<open>n\<close> views hands its ciphertext out at most \<open>n\<close> times, in whatever order links
  are created and opened and time passes, and when the \<open>n\<close>th view is taken it is burned.
\<close>

theorem link_views_limited:
  assumes "reach no_links (link_step env) (st, given)" and "row \<in> set (st_rows st)" and "0 < ln_max_views row"
  shows "int (count_list given (ln_token row)) \<le> ln_max_views row
    \<and> (ln_burned row \<longleftrightarrow> int (count_list given (ln_token row)) = ln_max_views row)"
  using links.reach_inv [OF assms(1)] assms(2,3) by (auto simp: links_inv_def row_inv_def list_all_iff)

definition demo_link_env :: link_env where
  "demo_link_env =
     \<lparr>le_token = (\<lambda>_. replicate 43 (CHR ''t'')), le_rateLimitOK = (\<lambda>_ _. True), le_parseAddress = (\<lambda>_. True),
      le_format = int_to_string, le_base = ''https://e.org'', le_notify = (\<lambda>_. False)\<rparr>"

definition empty_links :: link_store where
  "empty_links = \<lparr>st_rows = [], st_now = 0\<rparr>"

definition demo_create :: string where
  "demo_create =
     json_str (JObj [(''max_views'', jint 1), (''kdf'', JStr ''argon2id''), (''kdf_salt_b64'', JStr (b64_encode (replicate 8 1))),
       (''wrapped_msg_key_b64'', JStr (b64_encode (replicate 32 2))), (''body_ciphertext_b64'', JStr (b64_encode (replicate 16 3)))])"

definition demo_created :: link_store where
  "demo_created = snd (create_link demo_link_env demo_create empty_links)"

definition stored_ok :: "consume_result store_result \<Rightarrow> bool" where
  "stored_ok r = (case r of Stored _ \<Rightarrow> True | _ \<Rightarrow> False)"

theorem link_views_limited_witness:
  "\<exists>st row. reach no_links (link_step demo_link_env) (st, [replicate 43 (CHR ''t'')]) \<and> row \<in> set (st_rows st)
     \<and> ln_max_views row = 1 \<and> ln_burned row"
proof -
  let ?t = "replicate 43 (CHR ''t'')"
  have "stored_ok (fst (ConsumeView ?t demo_created))" by code_simp
  then obtain c st where st: "ConsumeView ?t demo_created = (Stored c, st)"
    by (cases "ConsumeView ?t demo_created") (auto simp: stored_ok_def split: store_result.splits)
  have made: "create_link demo_link_env demo_create empty_links = (fst (create_link demo_link_env demo_create empty_links), demo_created)"
    by (simp add: demo_created_def)
  have "reach no_links (link_step demo_link_env) (empty_links, [])"
    by (rule reach_init) (simp add: no_links_def empty_links_def)
  from reach_step [OF reach_step [OF this link_step.create [OF made]] link_step.consume [OF st]]
  have r: "reach no_links (link_step demo_link_env) (st, [?t])" .
  have "list_ex (\<lambda>x. ln_token x = ?t \<and> ln_max_views x = 1) (st_rows (snd (ConsumeView ?t demo_created)))" by code_simp
  then obtain row where row: "row \<in> set (st_rows st)" "ln_token row = ?t" "ln_max_views row = 1"
    using st by (auto simp: list_ex_iff)
  have "count_list [?t] ?t = 1" by simp
  with link_views_limited [OF r row(1)] row r show ?thesis by auto
qed

end
