(* ===== verification/Link_Delivery.thy ===== *)
theory Link_Delivery
  imports Protected_Link Link_Server
begin

text \<open>
  A protected link from the sender's form to the recipient's page: \<open>sendProtectedLink\<close>, the server of
  \<^verbatim>\<open>api_protected_links.go\<close> and the page of \<^verbatim>\<open>open.js\<close> composed.
\<close>

section \<open>The server reads what the clients write\<close>

lemma go_b64_encode: "go_b64 (b64_encode bs) = Some bs"
proof -
  have plain: "\<not> ascii_space c" if "c \<in> set (b64_encode bs)" for c
    using that b64_encode_digits [of bs] b64_digits_less b64_char_plain
    by (auto simp: ascii_space_def code_unit_def)
  then have "filter (\<lambda>c. code_unit c \<noteq> 10 \<and> code_unit c \<noteq> 13) (b64_encode bs) = b64_encode bs"
    by (intro filter_True) (auto simp: ascii_space_def)
  moreover have "length (b64_encode bs) mod 4 = 0" using b64_encode_digits [of bs] by auto
  ultimately show ?thesis using plain by (simp add: go_b64_def list_all_iff atob_bytes_encode)
qed

lemma compose_b64: "compose_bytesToB64 bs = b64_encode bs"
  by (simp add: compose_bytesToB64_def btoa_def comp_def)

text \<open>A path of plain characters is its own decoding.\<close>

definition plain_path :: "string \<Rightarrow> bool" where
  "plain_path s = list_all (\<lambda>c. c \<noteq> CHR ''%'' \<and> code_unit c < 128) s"

lemma plain_path_decodes: "plain_path s \<Longrightarrow> decodeURIComponent s = Some s"
proof -
  have "plain_path s \<Longrightarrow> percent_decode s = Some (utf8_encode s)"
    by (induction s) (auto simp: plain_path_def utf8_encode_def utf8_char_def byte_of_char_def code_unit_def)
  then show "plain_path s \<Longrightarrow> decodeURIComponent s = Some s"
    by (simp add: decodeURIComponent_def utf8_decode_encode)
qed

lemma token_char_plain:
  "token_char c \<Longrightarrow> uri_unreserved c \<and> c \<noteq> CHR ''%'' \<and> code_unit c < 128 \<and> c \<noteq> CHR ''/''"
  by (auto simp: token_char_def uri_unreserved_def is_alnum_def is_digit_def code_unit_def)

lemma valid_token_path:
  assumes "ValidateToken t"
  shows "encodeURIComponent t = t" and "plain_path t" and "\<forall>c \<in> set t. c \<noteq> CHR ''/''"
proof -
  have all: "\<forall>c \<in> set t. token_char c" using assms by (simp add: ValidateToken_def list_all_iff)
  show "plain_path t" "\<forall>c \<in> set t. c \<noteq> CHR ''/''" using all token_char_plain by (auto simp: plain_path_def list_all_iff)
  show "encodeURIComponent t = t" using all token_char_plain
    by (induction t) (auto simp: encodeURIComponent_def)
qed

lemma open_reaches_server:
  assumes "ValidateToken t" and "le_rateLimitOK le ''protected_link_open'' st"
  shows "links_server le st (open_request t) = (Inr (fst (protectedLinkOpen t st)), snd (protectedLinkOpen t st))"
proof -
  note t = valid_token_path [OF assms(1)]
  let ?url = "LINKS_PREFIX @ t @ ''/open''"
  have url: "rq_url (open_request t) = ?url" by (simp add: open_request_def link_path_def LINKS_PREFIX_def t(1))
  have "plain_path ?url" using t(2) by (simp add: plain_path_def LINKS_PREFIX_def code_unit_def)
  note dec = plain_path_decodes [OF this]
  have ne: "?url \<noteq> ''/api/v1/mail/protected-links''" by (simp add: LINKS_PREFIX_def)
  have pre: "prefix LINKS_PREFIX ?url" "drop (length LINKS_PREFIX) ?url = t @ ''/open''" by simp_all
  have tw: "takeWhile (\<lambda>c. c \<noteq> CHR ''/'') (t @ ''/open'') = t" "dropWhile (\<lambda>c. c \<noteq> CHR ''/'') (t @ ''/open'') = ''/open''"
    using t(3) by simp_all
  have m: "rq_method (open_request t) = POST" by (simp add: open_request_def)
  have "links_public le POST t ''open'' st = protectedLinkOpen t st" using assms by (simp add: links_public_def)
  then show ?thesis
    unfolding links_server_def url dec option.case pre(2) m
    using ne pre(1) tw by (simp add: Let_def split: prod.split)
qed

section \<open>Creating\<close>

lemma link_body_fields:
  assumes "link_request_body cr rnd m = Inr body"
  obtains w c d kvs where "deriveKEK cr (lk_password m) (lr_salt rnd) JUndef JUndef = Inr d"
    and "d_params d = JObj kvs" and "json_ok (JObj kvs)" and "d_kdf d \<in> {''argon2id'', ''pbkdf2-sha256''}"
    and "json_ok body"
    and "body = JObj
       [(''subject_hint'', JStr (lk_subject m)), (''recipient_emails'', jstrs (link_recipients m)),
        (''notify_recipients'', JBool (lk_notify m)), (''notify_from_addr'', JStr (lk_from m)),
        (''ttl_seconds'', jint (lk_ttlSeconds m)), (''max_views'', jint (lk_maxViews m)),
        (''kdf'', JStr (d_kdf d)), (''kdf_salt_b64'', JStr (b64_encode (lr_salt rnd))),
        (''kdf_params_json'', JStr (json_str (JObj kvs))), (''wrapped_msg_key_b64'', JStr (b64_encode w)),
        (''body_ciphertext_b64'', JStr (b64_encode c))]"
proof -
  obtain key ct d w where r: "deriveKEK cr (lk_password m) (lr_salt rnd) JUndef JUndef = Inr d"
      and body: "body = JObj
       [(''subject_hint'', JStr (lk_subject m)), (''recipient_emails'', jstrs (link_recipients m)),
        (''notify_recipients'', JBool (lk_notify m)), (''notify_from_addr'', JStr (lk_from m)),
        (''ttl_seconds'', jint (lk_ttlSeconds m)), (''max_views'', jint (lk_maxViews m)),
        (''kdf'', JStr (d_kdf d)), (''kdf_salt_b64'', JStr (b64_encode (lr_salt rnd))),
        (''kdf_params_json'', JStr (json_str (js_or (d_params d) (JObj [])))), (''wrapped_msg_key_b64'', JStr (b64_encode w)),
        (''body_ciphertext_b64'', JStr (b64_encode (lr_msgNonce rnd @ ct)))]"
    using assms by (auto simp: link_request_body_def bindR_eq_Inr compose_b64)
  obtain kvs where kvs: "d_params d = JObj kvs" "json_ok (JObj kvs)" using derived_params_object [OF r] .
  have kdf: "d_kdf d \<in> {''argon2id'', ''pbkdf2-sha256''}"
    using r by (auto simp: deriveKEK_def Let_def bindR_eq_Inr KDF_ARGON2ID_def KDF_PBKDF2_def split: if_splits)
  have "json_ok body" unfolding body by (auto simp: jstrs_def)
  with that [OF r kvs kdf] body kvs(1) show ?thesis by (simp add: js_or_def)
qed

lemma go_strings_jstrs: "go_strings (jstrs xs) = Some xs"
proof -
  have "opt_all (map go_string (map JStr xs)) = Some xs" by (rule opt_all_map) simp
  then show ?thesis by (simp add: jstrs_def)
qed

lemma kdf_normal: "k \<in> {''argon2id'', ''pbkdf2-sha256''} \<Longrightarrow> toLowerCase (trim k) = k"
proof -
  have "toLowerCase (trim ''argon2id'') = ''argon2id''" "toLowerCase (trim ''pbkdf2-sha256'') = ''pbkdf2-sha256''"
    by code_simp+
  then show "k \<in> {''argon2id'', ''pbkdf2-sha256''} \<Longrightarrow> toLowerCase (trim k) = k" by auto
qed

lemma create_link_status:
  assumes "create_link le text st = (resp, st1)" and "resp_ok resp"
  obtains v b row where "json_parse text = Some v" and "decode_create v = Some b" and "create_error le b = None"
    and "link_Create (new_row (le_token le st) b) (effective_ttl b) st = (Stored row, st1)"
  using assms
  by (auto simp: create_link_def writeErr_def go_json_def resp_ok_def bind_eq_Some_conv
      split: option.splits prod.splits store_result.splits)

lemma link_Create_StoredD:
  "link_Create row ttl st = (Stored row', st1) \<Longrightarrow>
   row' = row\<lparr>ln_params := (if ln_params row = [] then ''{}'' else ln_params row),
     ln_expires := st_now st + ttl, ln_views := 0, ln_burned := False\<rparr>
   \<and> st1 = st\<lparr>st_rows := st_rows st @ [row']\<rparr> \<and> ln_token row \<notin> ln_token ` set (st_rows st) \<and> 0 \<le> ln_max_views row"
  by (auto simp: link_Create_def Let_def split: if_splits)

lemma int64_small: "0 \<le> x \<Longrightarrow> x < 2 ^ 63 \<Longrightarrow> int64 x = x"
  by (simp add: int64_def)

text \<open>The row that a request of the client leaves behind.\<close>

lemma stored_row:
  assumes "link_request_body cr rnd m = Inr body" and "create_link le (json_str body) st = (resp, st1)" and "resp_ok resp"
    and "0 < lk_ttlSeconds m" and "lk_ttlSeconds m \<le> 2592000"
  obtains row where "st1 = st\<lparr>st_rows := st_rows st @ [row]\<rparr>" and "le_token le st \<notin> ln_token ` set (st_rows st)"
    and "ln_token row = le_token le st" and "ln_expires row = st_now st + lk_ttlSeconds m * 10 ^ 9"
    and "ln_max_views row = lk_maxViews m" and "0 \<le> lk_maxViews m" and "ln_views row = 0" and "\<not> ln_burned row"
    and "\<forall>u n b z. carries (open_value \<lparr>cs_row = row\<lparr>ln_views := u, ln_burned := b\<rparr>, cs_viewsRemaining = n, cs_burned = z\<rparr>) body"
    and "json_ok (params_value row)"
proof -
  obtain w c d kvs where "deriveKEK cr (lk_password m) (lr_salt rnd) JUndef JUndef = Inr d"
    and d: "d_params d = JObj kvs" "json_ok (JObj kvs)" "d_kdf d \<in> {''argon2id'', ''pbkdf2-sha256''}" "json_ok body"
    and body: "body = JObj
       [(''subject_hint'', JStr (lk_subject m)), (''recipient_emails'', jstrs (link_recipients m)),
        (''notify_recipients'', JBool (lk_notify m)), (''notify_from_addr'', JStr (lk_from m)),
        (''ttl_seconds'', jint (lk_ttlSeconds m)), (''max_views'', jint (lk_maxViews m)),
        (''kdf'', JStr (d_kdf d)), (''kdf_salt_b64'', JStr (b64_encode (lr_salt rnd))),
        (''kdf_params_json'', JStr (json_str (JObj kvs))), (''wrapped_msg_key_b64'', JStr (b64_encode w)),
        (''body_ciphertext_b64'', JStr (b64_encode c))]"
    using assms(1) by (rule link_body_fields)
  obtain v b row where v: "json_parse (json_str body) = Some v" "decode_create v = Some b"
      and stored: "link_Create (new_row (le_token le st) b) (effective_ttl b) st = (Stored row, st1)"
    using create_link_status [OF assms(2,3)] by metis
  have "v = body" using v(1) json.dec_enc [OF d(4)] by simp
  have pne: "json_str (JObj kvs) \<noteq> []" by simp
  have fields: "getp body ''subject_hint'' = JStr (lk_subject m)" "getp body ''recipient_emails'' = jstrs (link_recipients m)"
      "getp body ''notify_recipients'' = JBool (lk_notify m)" "getp body ''notify_from_addr'' = JStr (lk_from m)"
      "getp body ''ttl_seconds'' = jint (lk_ttlSeconds m)" "getp body ''max_views'' = jint (lk_maxViews m)"
      "getp body ''kdf'' = JStr (d_kdf d)" "getp body ''kdf_salt_b64'' = JStr (b64_encode (lr_salt rnd))"
      "getp body ''kdf_params_json'' = JStr (json_str (JObj kvs))" "getp body ''wrapped_msg_key_b64'' = JStr (b64_encode w)"
      "getp body ''body_ciphertext_b64'' = JStr (b64_encode c)"
    unfolding body by (simp_all del: json_str.simps)
  have dec: "decode_create body = Option.bind (go_int64 (jint (lk_ttlSeconds m))) (\<lambda>ttl.
      Option.bind (go_int64 (jint (lk_maxViews m))) (\<lambda>views.
      Some \<lparr>cb_subject_hint = lk_subject m, cb_recipients = link_recipients m, cb_ttl = ttl, cb_max_views = views,
        cb_kdf = d_kdf d, cb_salt_b64 = b64_encode (lr_salt rnd), cb_params = json_str (JObj kvs),
        cb_wrapped_b64 = b64_encode w, cb_cipher_b64 = b64_encode c\<rparr>))"
    unfolding decode_create_def fields
    by (simp only: go_string.simps go_bool.simps go_strings_jstrs Option.bind.simps kdf_normal [OF d(3)] pne if_False)
  have b: "cb_ttl b = lk_ttlSeconds m" "cb_max_views b = lk_maxViews m" "cb_kdf b = d_kdf d"
      "cb_salt_b64 b = b64_encode (lr_salt rnd)" "cb_params b = json_str (JObj kvs)"
      "cb_wrapped_b64 b = b64_encode w" "cb_cipher_b64 b = b64_encode c"
    using v(2) [unfolded \<open>v = body\<close> dec]
    by (auto simp: bind_eq_Some_conv simp del: json_str.simps split: if_splits)
  have ttl: "effective_ttl b = lk_ttlSeconds m * 10 ^ 9"
    using assms(4,5) by (simp add: effective_ttl_def b(1) int64_small Let_def)
  note st = link_Create_StoredD [OF stored]
  have row: "row = \<lparr>ln_token = le_token le st, ln_blob = c, ln_subject_hint = trim (cb_subject_hint b), ln_kdf = d_kdf d,
      ln_salt = lr_salt rnd, ln_params = json_str (JObj kvs), ln_wrapped = w,
      ln_expires = st_now st + lk_ttlSeconds m * 10 ^ 9, ln_max_views = lk_maxViews m, ln_views = 0, ln_burned = False\<rparr>"
    using st pne by (simp add: new_row_def b ttl go_bytes_or_empty_def go_b64_encode del: json_str.simps)
  have params: "params_value row = JObj kvs" using json.dec_enc [OF d(2)] by (simp add: params_value_def row del: json_str.simps)
  show ?thesis
  proof (rule that)
    show "\<forall>u n b z. carries (open_value \<lparr>cs_row = row\<lparr>ln_views := u, ln_burned := b\<rparr>, cs_viewsRemaining = n, cs_burned = z\<rparr>) body"
      using json.dec_enc [OF d(2)] unfolding carries_def fields
      by (simp add: open_value_def params_value_def row Let_def del: json_str.simps)
  qed (use st row params d(2) in \<open>simp_all add: new_row_def b(2)\<close>)
qed

section \<open>Opening\<close>

lemma go_json_read: "json_ok v \<Longrightarrow> open_answer (go_json 200 v) = Inr v"
  by (simp add: open_answer_def go_json_def resp_ok_def resp_json_def utf8_decode_encode json.dec_enc)

lemma open_value_ok: "json_ok (params_value (cs_row c)) \<Longrightarrow> json_ok (open_value c)"
  by (simp add: open_value_def Let_def)

lemma params_value_consume [simp]: "params_value (consume_row r) = params_value r"
  by (simp add: params_value_def consume_row_def)

text \<open>The first opening of a link that was just stored.\<close>

lemma open_new_link:
  assumes "ValidateToken (ln_token row)" and "ln_token row \<notin> ln_token ` set rows" and "st_rows st = rows @ [row]"
    and "consumable (st_now st) row"
  shows "fst (protectedLinkOpen (ln_token row) st) = go_json 200 (open_value \<lparr>cs_row = consume_row row,
      cs_viewsRemaining = (if 0 < ln_max_views row then max 0 (ln_max_views row - (ln_views row + 1)) else 0),
      cs_burned = (0 < ln_max_views row \<and> ln_burned (consume_row row))\<rparr>)"
proof -
  have none: "find (\<lambda>r. ln_token r = ln_token row \<and> consumable (st_now st) r) rows = None"
    using assms(2) unfolding find_None_iff by (metis imageI)
  have "find (\<lambda>r. ln_token r = ln_token row \<and> consumable (st_now st) r) (st_rows st) = Some row"
    unfolding assms(3) using none assms(4) by (induction rows) (auto split: if_splits)
  then show ?thesis using assms(1) by (simp add: protectedLinkOpen_def ConsumeView_def Let_def)
qed

lemma sent_and_created:
  assumes "sendProtectedLink True cr rnd (links_server le) m st = (Inr answer, st1)"
  obtains body resp where "link_request_body cr rnd m = Inr body" and "create_link le (json_str body) st = (resp, st1)"
    and "resp_ok resp"
proof -
  obtain body where body: "link_request_body cr rnd m = Inr body"
      and call: "createProtectedLink (links_server le) body st = (Inr answer, st1)"
    using assms by (auto simp: sendProtectedLink_def elim!: bindI_InrD)
  have path: "decodeURIComponent ''/api/v1/mail/protected-links'' = Some ''/api/v1/mail/protected-links''"
    by (rule plain_path_decodes) (simp add: plain_path_def code_unit_def)
  have "links_server le st (json_request POST (API @ ''/protected-links'') body) =
      (Inr (fst (create_link le (json_str body) st)), snd (create_link le (json_str body) st))"
    by (simp add: links_server_def json_request_def API_def path Let_def split: prod.split)
  then show ?thesis
    using that [OF body, of "fst (create_link le (json_str body) st)"] call
    by (auto simp: createProtectedLink_def call_def bindI_def fetch_def liftI_def json_or_error_def split: if_splits)
qed

text \<open>
  C3. A protected link delivers its message: when the server accepts the link that \<open>sendProtectedLink\<close>
  makes, and the recipient opens the page of the token and submits the password before the link expires,
  the page shows exactly the text of the sender (with line ends as line feeds), without attachments or an
  error. The status line announces the last view of a link with one view, and otherwise the number of
  views left, which is 0 for a link without a limit.
\<close>

theorem protected_link_delivered:
  assumes "crypto_ok (oe_cr env)" and "oe_keygen env" and "decoder_ok env"
    and "length (lr_msgNonce rnd) = 12" and "length (lr_wrapNonce rnd) = 12"
    and "no_breaks (lk_from m)" and "no_breaks (lk_subject m)" and "lk_password m \<noteq> []"
    and "0 < lk_ttlSeconds m" and "lk_ttlSeconds m \<le> 2592000"
    and "sendProtectedLink True (oe_cr env) rnd (links_server le) m st = (Inr answer, st1)"
    and "readToken env = le_token le st" and "ValidateToken (readToken env)"
    and "st2 = st1\<lparr>st_now := st_now st + d\<rparr>" and "d < lk_ttlSeconds m * 10 ^ 9"
    and "le_rateLimitOK le ''protected_link_open'' st2"
  shows "\<exists>p' st3. on_submit env (links_server le) (lk_password m) (p, st2) = (p', st3)
    \<and> shows_message p' (replace_crlf (lk_body m))
    \<and> pg_status p' = (if lk_maxViews m = 1 then BurnedLastView
                      else ViewsRemain (int_to_string (max 0 (lk_maxViews m - 1))))"
proof -
  obtain body resp where body: "link_request_body (oe_cr env) rnd m = Inr body"
      "create_link le (json_str body) st = (resp, st1)" "resp_ok resp"
    using sent_and_created [OF assms(11)] .
  obtain row where row: "st1 = st\<lparr>st_rows := st_rows st @ [row]\<rparr>" "le_token le st \<notin> ln_token ` set (st_rows st)"
      "ln_token row = le_token le st" "ln_expires row = st_now st + lk_ttlSeconds m * 10 ^ 9"
      "ln_max_views row = lk_maxViews m" "0 \<le> lk_maxViews m" "ln_views row = 0" "\<not> ln_burned row"
      "\<forall>u n b z. carries (open_value \<lparr>cs_row = row\<lparr>ln_views := u, ln_burned := b\<rparr>, cs_viewsRemaining = n, cs_burned = z\<rparr>) body"
      "json_ok (params_value row)"
    using body assms(9,10) by (rule stored_row)
  let ?c = "\<lparr>cs_row = consume_row row,
      cs_viewsRemaining = (if 0 < ln_max_views row then max 0 (ln_max_views row - (ln_views row + 1)) else 0),
      cs_burned = (0 < ln_max_views row \<and> ln_burned (consume_row row))\<rparr>"
  have "consumable (st_now st2) row" using row(4-8) assms(14,15) by (auto simp: consumable_def)
  then have opened: "fst (protectedLinkOpen (readToken env) st2) = go_json 200 (open_value ?c)"
    using open_new_link [of row "st_rows st" st2] row(1-3) assms(12-14) by simp
  then obtain s' where srv: "links_server le st2 (open_request (readToken env)) = (Inr (go_json 200 (open_value ?c)), s')"
    using open_reaches_server [OF assms(13,16)] by simp
  have car: "carries (open_value ?c) body" using row(9) by (simp add: consume_row_def)
  obtain j where j: "open_value ?c = JObj j" by (simp add: open_value_def Let_def)
  have ans: "open_answer (go_json 200 (open_value ?c)) = Inr (JObj j)"
    using go_json_read [OF open_value_ok, of ?c] row(10) j by simp
  have st: "getp (JObj j) ''views_remaining'' = jint (max 0 (lk_maxViews m - 1))" "getp (JObj j) ''burned'' = JBool (lk_maxViews m = 1)"
    using row(5-8) unfolding j [symmetric] by (auto simp: open_value_def Let_def consume_row_def)
  obtain p' where p': "on_submit env (links_server le) (lk_password m) (p, st2) = (p', s')"
      "shows_message p' (replace_crlf (lk_body m))"
      "pg_status p' = opened_status \<lparr>ul_text = link_text m,
        ul_viewsRemaining = getp (JObj j) ''views_remaining'', ul_burned = getp (JObj j) ''burned''\<rparr>"
    using link_shown [where srv = "links_server le" and s = st2 and p = p, OF assms(1-8) body(1) srv ans car [unfolded j]] .
  have "pg_status p' = (if lk_maxViews m = 1 then BurnedLastView else ViewsRemain (int_to_string (max 0 (lk_maxViews m - 1))))"
    using p'(3) unfolding st by (simp add: opened_status_def typeof_number_def)
  with p'(1,2) show ?thesis by blast
qed

section \<open>An example\<close>

definition demo_open_env :: open_env where
  "demo_open_env =
     \<lparr>oe_pathname = ''/m/'' @ replicate 43 (CHR ''t''), oe_body_text = None, oe_purify = None, oe_keygen = True, oe_cr = demo_crypto,
      oe_td = (\<lambda>bs. case utf8_decode bs of Some s \<Rightarrow> s | None \<Rightarrow> map char_of_byte bs), oe_localeString = to_string\<rparr>"

definition demo_form :: link_form where
  "demo_form =
     \<lparr>lk_from = ''a@b.org'', lk_to = ''c@d.org'', lk_cc = [], lk_subject = ''s'', lk_body = ''hi'', lk_password = ''pw'',
      lk_ttlSeconds = 3600, lk_maxViews = 1, lk_notify = False\<rparr>"

definition demo_link_random :: link_random where
  "demo_link_random =
     \<lparr>lr_msgKey = replicate 32 1, lr_msgNonce = replicate 12 2, lr_salt = replicate 16 3, lr_wrapNonce = replicate 12 4\<rparr>"

definition demo_sent :: "jsval result \<times> link_store" where
  "demo_sent = sendProtectedLink True demo_crypto demo_link_random (links_server demo_link_env) demo_form empty_links"

definition sent_ok :: "jsval result \<times> link_store \<Rightarrow> bool" where
  "sent_ok r = (case r of (Inr _, _) \<Rightarrow> True | _ \<Rightarrow> False)"

lemma demo_sent_ok: "sent_ok demo_sent"
  by code_simp

theorem protected_link_delivered_witness:
  "\<exists>answer st1 p' st3.
     sendProtectedLink True demo_crypto demo_link_random (links_server demo_link_env) demo_form empty_links = (Inr answer, st1)
     \<and> on_submit demo_open_env (links_server demo_link_env) ''pw'' (initial_page, st1\<lparr>st_now := 5\<rparr>) = (p', st3)
     \<and> shows_message p' ''hi'' \<and> pg_status p' = BurnedLastView"
proof -
  obtain answer st1 where sent:
      "sendProtectedLink True (oe_cr demo_open_env) demo_link_random (links_server demo_link_env) demo_form empty_links = (Inr answer, st1)"
    using demo_sent_ok by (auto simp: sent_ok_def demo_sent_def demo_open_env_def split: prod.splits sum.splits)
  have cr: "crypto_ok (oe_cr demo_open_env)" "oe_keygen demo_open_env" by (simp_all add: demo_open_env_def demo_crypto_ok)
  have td: "decoder_ok demo_open_env" by (simp add: decoder_ok_def demo_open_env_def utf8_decode_encode)
  have rnd: "length (lr_msgNonce demo_link_random) = 12" "length (lr_wrapNonce demo_link_random) = 12"
    by (simp_all add: demo_link_random_def)
  have form: "no_breaks (lk_from demo_form)" "no_breaks (lk_subject demo_form)" "lk_password demo_form \<noteq> []"
      "0 < lk_ttlSeconds demo_form" "lk_ttlSeconds demo_form \<le> 2592000"
    by code_simp+
  have tok: "readToken demo_open_env = le_token demo_link_env empty_links" "ValidateToken (readToken demo_open_env)"
    by (code_simp, code_simp)
  have time: "st1\<lparr>st_now := 5\<rparr> = st1\<lparr>st_now := st_now empty_links + 5\<rparr>" "(5 :: int) < lk_ttlSeconds demo_form * 10 ^ 9"
      "le_rateLimitOK demo_link_env ''protected_link_open'' (st1\<lparr>st_now := 5\<rparr>)"
    by (simp_all add: empty_links_def demo_form_def demo_link_env_def)
  have body: "replace_crlf (lk_body demo_form) = ''hi''" "lk_maxViews demo_form = 1" "lk_password demo_form = ''pw''"
    by (code_simp, code_simp, code_simp)
  from protected_link_delivered [where p = initial_page, OF cr td rnd form(1-3) form(4,5) sent tok time] body sent
  show ?thesis by (auto simp: demo_open_env_def)
qed

end
