(* ===== verification/Mail_Delivery.thy ===== *)
theory Mail_Delivery
  imports Message_View Pgp_Mail
begin

text \<open>
  What the composer writes, the reader shows: the message that \<open>buildRFC5322\<close> of
  \<^verbatim>\<open>static/mail/compose.jsx\<close> makes, with and without the sender's key attached, is displayed by
  \<^verbatim>\<open>static/mail/mail-app.jsx\<close> with the text, the subject, the addresses and the attachment it was made of.
\<close>

section \<open>Tidy texts\<close>

text \<open>Texts that squeezing leaves alone: single blanks between words, none at the ends.\<close>

definition tidy :: "string \<Rightarrow> bool" where
  "tidy s = (s \<noteq> [] \<and> \<not> is_space (hd s) \<and> \<not> is_space (last s) \<and> (\<forall>c \<in> set s. is_space c \<longrightarrow> c = CHR '' '')
     \<and> successively (\<lambda>x y. \<not> (is_space x \<and> is_space y)) s)"

lemma replace_runs_single:
  "successively (\<lambda>x y. \<not> (P x \<and> P y)) s \<Longrightarrow> \<forall>c \<in> set s. P c \<longrightarrow> c = b \<Longrightarrow> replace_runs P [b] s = s"
proof (induction s)
  case (Cons c s)
  have "dropWhile P s = s" if "P c" using that Cons.prems(1) by (cases s) auto
  moreover have "successively (\<lambda>x y. \<not> (P x \<and> P y)) s" using Cons.prems(1) by (cases s) auto
  ultimately show ?case using Cons by (auto simp: replace_runs.simps)
qed (simp add: replace_runs.simps)

lemma trim_tidy: "s \<noteq> [] \<Longrightarrow> \<not> is_space (hd s) \<Longrightarrow> \<not> is_space (last s) \<Longrightarrow> trim s = s"
proof -
  assume s: "s \<noteq> []" "\<not> is_space (hd s)" "\<not> is_space (last s)"
  have "dropWhile is_space s = s" using s by (cases s) auto
  moreover have "dropWhile is_space (rev s) = rev s" using s by (cases s rule: rev_cases) auto
  ultimately show "trim s = s" by (simp add: trim_def trim_start_def trim_end_def)
qed

lemma squeeze_tidy: "tidy s \<Longrightarrow> squeeze_space s = s"
  using replace_runs_single [of is_space s "CHR '' ''"] trim_tidy [of s] by (simp add: tidy_def squeeze_space_def)

lemma tidy_trim: "tidy s \<Longrightarrow> trim s = s"
  by (simp add: tidy_def trim_tidy)

lemma tidy_no_breaks: "tidy s \<Longrightarrow> no_breaks s"
proof -
  have "is_space lf" "is_space cr_char" by code_simp+
  moreover have "lf \<noteq> CHR '' ''" "cr_char \<noteq> CHR '' ''" by (simp_all add: lf_def cr_char_def char_of_def)
  ultimately show "tidy s \<Longrightarrow> no_breaks s" by (auto simp: tidy_def no_breaks_def)
qed

lemma tidy_append_comma: "tidy a \<Longrightarrow> tidy b \<Longrightarrow> tidy (a @ '', '' @ b)"
  by (auto simp: tidy_def successively_append_iff successively_Cons is_space_def code_unit_def)

lemma tidy_join: "as \<noteq> [] \<Longrightarrow> \<forall>a \<in> set as. tidy a \<Longrightarrow> tidy (join '', '' as)"
proof (induction "'', ''" as rule: join.induct)
  case (3 x y ys)
  then show ?case using tidy_append_comma [of x "join '', '' (y # ys)"] by simp
qed simp_all

section \<open>Address lists\<close>

definition angle_step :: "char \<Rightarrow> nat \<Rightarrow> nat" where
  "angle_step c depth = (if c = CHR ''<'' then depth + 1 else if c = CHR ''>'' then depth - 1 else depth)"

text \<open>An address as it is displayed, with or without a name: no comma, the angle brackets closed.\<close>

definition display_address :: "string \<Rightarrow> bool" where
  "display_address a = (tidy a \<and> CHR '','' \<notin> set a \<and> fold angle_step a 0 = 0)"

lemma mail_address_loop_word:
  "CHR '','' \<notin> set a \<Longrightarrow>
   mail_address_loop (a @ s) depth cur parts = mail_address_loop s (fold angle_step a depth) (cur @ a) parts"
  by (induction a arbitrary: depth cur) (auto simp: angle_step_def quote_def char_of_def Let_def)

lemma squeeze_tidy_blank: "tidy x \<Longrightarrow> cur \<in> {[], '' ''} \<Longrightarrow> squeeze_space (cur @ x) = x"
proof -
  assume x: "tidy x" "cur \<in> {[], '' ''}"
  have "dropWhile is_space x = x" using x(1) by (cases x) (auto simp: tidy_def)
  then have "squeeze_space ('' '' @ x) = squeeze_space x"
    by (simp add: squeeze_space_def replace_runs.simps is_space_blank trim_def trim_start_def)
  with x show ?thesis by (auto simp: squeeze_tidy)
qed

lemma mail_address_loop_join:
  "as \<noteq> [] \<Longrightarrow> \<forall>a \<in> set as. display_address a \<Longrightarrow> cur \<in> {[], '' ''} \<Longrightarrow>
   mail_address_loop (join '', '' as) 0 cur parts = parts @ as"
proof (induction "'', ''" as arbitrary: cur parts rule: join.induct)
  case (2 x)
  then have "squeeze_space (cur @ x) = x" by (simp add: display_address_def squeeze_tidy_blank)
  then show ?case using 2 mail_address_loop_word [of x "[]" 0 cur parts] by (auto simp: display_address_def tidy_def)
next
  case (3 x y ys)
  have "squeeze_space (cur @ x) = x" using "3.prems" by (simp add: display_address_def squeeze_tidy_blank)
  moreover have "x \<noteq> []" using 3(3) by (simp add: display_address_def tidy_def)
  ultimately show ?case
    using 3 mail_address_loop_word [of x "'', '' @ join '', '' (y # ys)" 0 cur parts]
    by (simp add: display_address_def quote_def char_of_def Let_def)
qed simp

lemma lf_to_space_id: "lf \<notin> set s \<Longrightarrow> lf_to_space s = s"
  by (auto simp: lf_to_space_def intro!: map_idI)

lemma split_join_addresses:
  assumes "as \<noteq> []" and "\<forall>a \<in> set as. display_address a"
  shows "splitMailAddressListHeader (join '', '' as) = as"
proof -
  have "tidy (join '', '' as)" using assms by (intro tidy_join) (auto simp: display_address_def)
  then have "no_breaks (join '', '' as)" "trim (join '', '' as) = join '', '' as" by (simp_all add: tidy_no_breaks tidy_trim)
  then have "trim (lf_to_space (replace_crlf (join '', '' as))) = join '', '' as"
    by (simp add: no_breaks_def replace_crlf_id lf_to_space_id)
  then show ?thesis
    using mail_address_loop_join [OF assms, of "[]" "[]"] by (simp add: splitMailAddressListHeader_def)
qed

section \<open>Header blocks\<close>

text \<open>Counting aside, the header block is read as on the page of protected links.\<close>

lemma header_loop_headers: "hb_headers (header_loop ls cur hs t k) = parse_header_lines ls cur hs"
  by (induction ls cur hs t k rule: header_loop.induct)
    (auto simp: no_header_block_def header_value_def Let_def split: option.splits)

lemma header_loop_fields:
  "\<forall>f \<in> set fs. field_ok f \<Longrightarrow>
   header_loop (map (\<lambda>(n, v). field n v) fs) cur hs t k =
     \<lparr>hb_headers = Some (fold put_field fs hs), hb_total = t + length fs,
      hb_known = k + length (filter (\<lambda>f. toLowerCase (fst f) \<in> set known_headers) fs)\<rparr>"
proof (induction fs arbitrary: cur hs t k)
  case (Cons f fs)
  obtain n v where f: "f = (n, v)" by (cases f)
  then have ok: "field_ok (n, v)" using Cons.prems by simp
  show ?case
    using Cons field_ok_line [OF ok] header_line_field [OF ok] by (simp add: f put_field_def Let_def)
qed simp

lemma header_value_field:
  assumes "distinct (map (\<lambda>f. toLowerCase (fst f)) fs)" and "(n, v) \<in> set fs" and "k = toLowerCase n"
  shows "header_value (fold put_field fs hs) k = dropWhile is_space v"
proof -
  obtain ps gs where "fs = ps @ (n, v) # gs" using assms(2) by (meson split_list)
  then show ?thesis using header_value_put [of k n gs ps v hs] assms(1,3) by (auto simp: image_image)
qed

text \<open>CRLF line ends.\<close>

lemma replace_crlf_join:
  "ls \<noteq> [] \<Longrightarrow> \<forall>l \<in> set ls. cr_char \<notin> set l \<Longrightarrow>
   replace_crlf (join crlf ls @ crlf @ t) = join [lf] ls @ lf # replace_crlf t"
proof (induction crlf ls rule: join.induct)
  case (2 x)
  then show ?case by (simp add: replace_crlf_append crlf_def)
next
  case (3 x y ys)
  then have "replace_crlf (x @ crlf @ (join crlf (y # ys) @ crlf @ t)) = x @ lf # (join [lf] (y # ys) @ lf # replace_crlf t)"
    by (simp add: replace_crlf_append crlf_def)
  then show ?case by simp
qed simp

text \<open>A block of fields, a blank line, and the rest.\<close>

definition block :: "(string \<times> string) list \<Rightarrow> string" where
  "block fs = join [lf] (map (\<lambda>(n, v). field n v) fs)"

lemma block_lines:
  assumes "\<forall>f \<in> set fs. field_ok f"
  shows "\<forall>l \<in> set (map (\<lambda>(n, v). field n v) fs). l \<noteq> [] \<and> lf \<notin> set l \<and> cr_char \<notin> set l"
proof -
  have "\<not> header_char cr_char" by (simp add: header_char_def is_letter_def is_digit_def cr_char_def code_unit_def char_of_def)
  then have "cr_char \<notin> set (field n v)" if "field_ok (n, v)" for n v
    using that by (auto simp: field_def field_ok_def list_all_iff no_breaks_def cr_char_def char_of_def)
  then show ?thesis using assms field_ok_line by fastforce
qed

lemma block_message:
  assumes "fs \<noteq> []" and "\<forall>f \<in> set fs. field_ok f"
  shows "replace_crlf (join crlf (map (\<lambda>(n, v). field n v) fs) @ crlf @ crlf @ t) = block fs @ lf # lf # replace_crlf t"
    and "indexOf (block fs @ lf # lf # s) [lf, lf] = int (length (block fs))"
    and "block fs \<noteq> []"
    and "app_parseHeaderBlock (block fs) = \<lparr>hb_headers = Some (fold put_field fs []), hb_total = length fs,
      hb_known = length (filter (\<lambda>f. toLowerCase (fst f) \<in> set known_headers) fs)\<rparr>"
proof -
  note ls = block_lines [OF assms(2)]
  show "replace_crlf (join crlf (map (\<lambda>(n, v). field n v) fs) @ crlf @ crlf @ t) = block fs @ lf # lf # replace_crlf t"
    using replace_crlf_join [of "map (\<lambda>(n, v). field n v) fs" "crlf @ t"] ls assms(1) by (simp add: block_def crlf_def)
  show "indexOf (block fs @ lf # lf # s) [lf, lf] = int (length (block fs))"
    unfolding block_def using ls assms(1) by (intro indexOf_blank_line) auto
  obtain f gs where "fs = f # gs" using assms(1) by (cases fs) auto
  then show "block fs \<noteq> []" by (cases gs) (auto simp: block_def field_def split: prod.splits)
  have "split_str [lf] (block fs) = map (\<lambda>(n, v). field n v) fs"
    unfolding block_def using ls assms(1) by (intro split_join_lf) auto
  then show "app_parseHeaderBlock (block fs) = \<lparr>hb_headers = Some (fold put_field fs []), hb_total = length fs,
      hb_known = length (filter (\<lambda>f. toLowerCase (fst f) \<in> set known_headers) fs)\<rparr>"
    using header_loop_fields [OF assms(2), of "[]" "[]" 0 0] by (simp add: app_parseHeaderBlock_def)
qed

section \<open>The fields of a composed message\<close>

definition opt_field :: "string \<Rightarrow> string \<Rightarrow> (string \<times> string) list" where
  "opt_field n v = (if v \<noteq> [] then [(n, v)] else [])"

definition rfc_fields :: "compose_env \<Rightarrow> string \<Rightarrow> string list \<Rightarrow> string \<Rightarrow> rfc_opts \<Rightarrow> (string \<times> string) list" where
  "rfc_fields ce from to subject opts =
     [(''Date'', ce_utc ce), (''From'', or_anonymous from), (''To'', join '', '' to)]
     @ opt_field ''Cc'' (join '', '' (non_empty (ro_ccDisplay opts)))
     @ opt_field ''Bcc'' (join '', '' (non_empty (ro_bccDisplay opts)))
     @ [(''Subject'', if subject \<noteq> [] then subject else ''(no subject)'')]
     @ opt_field ''In-Reply-To'' (trim (ro_inReplyTo opts))
     @ opt_field ''References'' (trim (ro_references opts))"

lemma opt_line_field: "opt_line n v = map (\<lambda>(n, v). field n v) (opt_field n v)"
  by (simp add: opt_line_def opt_field_def field_def)

lemma rfc_head:
  "[''Date: '' @ ce_utc ce, ''From: '' @ or_anonymous from] @ address_headers to subject opts
   = map (\<lambda>(n, v). field n v) (rfc_fields ce from to subject opts)"
  by (simp add: rfc_fields_def address_headers_def opt_line_field) (simp add: field_def)

text \<open>The options that \<open>inner_message\<close> passes on, and a form whose texts have no stray white space.\<close>

definition form_opts :: "pgp_form \<Rightarrow> rfc_opts" where
  "form_opts m =
     \<lparr>ro_attachPublicKey = want_attach m, ro_senderArmoredPublic = pf_senderArmored m,
      ro_ccDisplay = address_list (pf_cc m), ro_bccDisplay = address_list (pf_bcc m),
      ro_inReplyTo = trim (pf_inReplyTo m), ro_references = trim (pf_references m)\<rparr>"

definition form_fields :: "compose_env \<Rightarrow> pgp_form \<Rightarrow> (string \<times> string) list" where
  "form_fields ce m = rfc_fields ce (pf_from m) [pf_recipient m] (pf_subject m) (form_opts m)"

definition tidy_or_empty :: "string \<Rightarrow> bool" where
  "tidy_or_empty s = (s = [] \<or> tidy s)"

definition clean_form :: "compose_env \<Rightarrow> pgp_form \<Rightarrow> bool" where
  "clean_form ce m =
     (list_all tidy_or_empty [ce_utc ce, pf_from m, pf_subject m, pf_inReplyTo m, pf_references m]
      \<and> list_all display_address (pf_recipient m # address_list (pf_cc m) @ address_list (pf_bcc m)))"

text \<open>What the reader is to find in the header.\<close>

definition composed_metadata :: "pgp_form \<Rightarrow> mime_entity \<Rightarrow> metadata" where
  "composed_metadata m e =
     \<lparr>md_subject = (if pf_subject m \<noteq> [] then pf_subject m else ''(no subject)''),
      md_from_addr = or_anonymous (pf_from m),
      md_to_addrs = [pf_recipient m],
      md_cc_addrs = address_list (pf_cc m),
      md_rfc_message_id = [],
      md_in_reply_to = pf_inReplyTo m,
      md_references = pf_references m,
      md_reply_to = [],
      md_preview = makePreviewSnippet (me_bodyText e),
      md_attachments = me_attachments e\<rparr>"

lemma tidy_or_empty_simps:
  "tidy_or_empty s \<Longrightarrow> trim s = s"
  "tidy_or_empty s \<Longrightarrow> squeeze_space s = s"
  "tidy_or_empty s \<Longrightarrow> dropWhile is_space s = s"
  "tidy_or_empty s \<Longrightarrow> no_breaks s"
  by (auto simp: tidy_or_empty_def tidy_trim squeeze_tidy tidy_no_breaks)
    (auto simp: squeeze_space_def replace_runs.simps trim_def trim_start_def trim_end_def tidy_def neq_Nil_conv)

lemma join_tidy_or_empty: "list_all display_address as \<Longrightarrow> tidy_or_empty (join '', '' as)"
  using tidy_join [of as] by (cases "as = []") (auto simp: tidy_or_empty_def display_address_def list_all_iff)

lemma split_addresses: "list_all display_address as \<Longrightarrow> splitMailAddressListHeader (join '', '' as) = as"
proof (cases "as = []")
  case True
  have "splitMailAddressListHeader [] = []" by code_simp
  with True show ?thesis by simp
qed (auto simp: list_all_iff intro: split_join_addresses)

lemma display_non_empty: "list_all display_address as \<Longrightarrow> non_empty as = as"
  by (auto simp: non_empty_def list_all_iff display_address_def tidy_def intro!: filter_True)

lemma default_texts: "tidy ''anonymous''" "tidy ''(no subject)''"
  by code_simp+

lemma lower_names:
  "toLowerCase ''Date'' = ''date''" "toLowerCase ''From'' = ''from''" "toLowerCase ''To'' = ''to''"
  "toLowerCase ''Cc'' = ''cc''" "toLowerCase ''Bcc'' = ''bcc''" "toLowerCase ''Subject'' = ''subject''"
  "toLowerCase ''In-Reply-To'' = ''in-reply-to''" "toLowerCase ''References'' = ''references''"
  "toLowerCase ''Content-Type'' = ''content-type''" "toLowerCase ''Content-Disposition'' = ''content-disposition''"
  "toLowerCase ''Content-Transfer-Encoding'' = ''content-transfer-encoding''" "toLowerCase ''MIME-Version'' = ''mime-version''"
  by code_simp+

text \<open>The fields that describe the MIME entity come after those of the form.\<close>

definition mime_tail :: "(string \<times> string) list \<Rightarrow> bool" where
  "mime_tail tail =
     (distinct (map (\<lambda>f. toLowerCase (fst f)) tail)
      \<and> list_all (\<lambda>f. toLowerCase (fst f) \<in> {''content-type'', ''content-disposition'', ''content-transfer-encoding'', ''mime-version''}) tail)"

lemma form_names:
  "distinct (map (\<lambda>f. toLowerCase (fst f)) (form_fields ce m))"
  "toLowerCase ` fst ` set (form_fields ce m)
     \<subseteq> {''date'', ''from'', ''to'', ''cc'', ''bcc'', ''subject'', ''in-reply-to'', ''references''}"
  by (auto simp: form_fields_def rfc_fields_def opt_field_def lower_names)

lemma names_disjoint:
  "{''date'', ''from'', ''to'', ''cc'', ''bcc'', ''subject'', ''in-reply-to'', ''references''}
   \<inter> {''content-type'', ''content-disposition'', ''content-transfer-encoding'', ''mime-version''} = {}"
  by simp

lemma mime_tail_names:
  "mime_tail tail \<Longrightarrow> toLowerCase ` fst ` set tail
     \<subseteq> {''content-type'', ''content-disposition'', ''content-transfer-encoding'', ''mime-version''}"
  by (auto simp: mime_tail_def list_all_iff)

lemma form_absent:
  "k \<notin> {''date'', ''from'', ''to'', ''cc'', ''bcc'', ''subject'', ''in-reply-to'', ''references''}
   \<Longrightarrow> k \<notin> toLowerCase ` fst ` set (form_fields ce m)"
  using form_names(2) [of ce m] by blast

lemma message_names:
  assumes "mime_tail tail"
  shows "distinct (map (\<lambda>f. toLowerCase (fst f)) (form_fields ce m @ tail))"
proof -
  have "toLowerCase ` fst ` set (form_fields ce m) \<inter> toLowerCase ` fst ` set tail = {}"
    using form_names(2) [of ce m] mime_tail_names [OF assms] names_disjoint by blast
  then show ?thesis using assms form_names(1) by (simp add: mime_tail_def image_image)
qed

lemma header_value_absent: "k \<notin> toLowerCase ` fst ` set fs \<Longrightarrow> header_value (fold put_field fs []) k = []"
  using header_value_put_other [of k fs "[]"] by (simp add: header_value_def)

lemma tail_value:
  assumes "mime_tail tail" and "(n, v) \<in> set tail" and "k = toLowerCase n"
  shows "header_value (fold put_field (form_fields ce m @ tail) []) k = dropWhile is_space v"
  by (rule header_value_field [OF message_names [OF assms(1)] _ assms(3)]) (use assms(2) in simp)

lemma tail_absent:
  assumes "k \<in> {''content-type'', ''content-disposition'', ''content-transfer-encoding'', ''mime-version''}"
    and "k \<notin> toLowerCase ` fst ` set tail"
  shows "header_value (fold put_field (form_fields ce m @ tail) []) k = []"
proof -
  have "k \<notin> toLowerCase ` fst ` set (form_fields ce m)" using form_names(2) [of ce m] assms(1) names_disjoint by blast
  then show ?thesis using assms(2) by (intro header_value_absent) (simp add: image_Un)
qed

lemma form_value:
  assumes "mime_tail tail" and "set (opt_field n v) \<subseteq> set (form_fields ce m)"
    and "v = [] \<Longrightarrow> toLowerCase n \<notin> toLowerCase ` fst ` set (form_fields ce m @ tail)"
    and "tidy_or_empty v" and "k = toLowerCase n"
  shows "header_value (fold put_field (form_fields ce m @ tail) []) k = v"
proof (cases "v = []")
  case True
  then show ?thesis using assms(3,5) header_value_absent by blast
next
  case False
  then have "(n, v) \<in> set (form_fields ce m @ tail)" using assms(2) by (simp add: opt_field_def)
  from header_value_field [OF message_names [OF assms(1)] this assms(5)] show ?thesis
    using tidy_or_empty_simps(3) [OF assms(4)] by simp
qed

lemma form_texts:
  assumes "clean_form ce m"
  shows "tidy (or_anonymous (pf_from m))" and "tidy (if pf_subject m \<noteq> [] then pf_subject m else ''(no subject)'')"
  using assms default_texts by (auto simp: clean_form_def or_anonymous_def tidy_or_empty_def)

lemma composed_headers:
  assumes "clean_form ce m" and "mime_tail tail"
  defines "hs \<equiv> fold put_field (form_fields ce m @ tail) []"
  shows "header_value hs ''from'' = or_anonymous (pf_from m)" and "header_value hs ''to'' = pf_recipient m"
    and "header_value hs ''cc'' = join '', '' (address_list (pf_cc m))"
    and "header_value hs ''subject'' = (if pf_subject m \<noteq> [] then pf_subject m else ''(no subject)'')"
    and "header_value hs ''in-reply-to'' = pf_inReplyTo m" and "header_value hs ''references'' = pf_references m"
    and "header_value hs ''message-id'' = []" and "header_value hs ''reply-to'' = []"
proof -
  note clean = assms(1) [unfolded clean_form_def list.pred_inject list_all_append]
  note hval = form_value [OF assms(2), of _ _ ce m, folded hs_def]
  have lists: "non_empty (address_list (pf_cc m)) = address_list (pf_cc m)" "tidy_or_empty (join '', '' (address_list (pf_cc m)))"
    using clean by (simp_all add: display_non_empty join_tidy_or_empty)
  have trims: "trim (pf_inReplyTo m) = pf_inReplyTo m" "trim (pf_references m) = pf_references m"
    using clean by (simp_all add: tidy_or_empty_simps)
  have tail: "n \<notin> toLowerCase ` fst ` set tail" if "n \<in> {''cc'', ''in-reply-to'', ''references'', ''message-id'', ''reply-to''}" for n
  proof
    assume "n \<in> toLowerCase ` fst ` set tail"
    then have "n \<in> {''content-type'', ''content-disposition'', ''content-transfer-encoding'', ''mime-version''}"
      by (rule set_mp [OF mime_tail_names [OF assms(2)]])
    with that show False by auto
  qed
  show "header_value hs ''from'' = or_anonymous (pf_from m)"
    using form_texts(1) [OF assms(1)] by (intro hval [of "''From''"])
      (auto simp: form_fields_def rfc_fields_def opt_field_def lower_names tidy_or_empty_def tidy_def)
  show "header_value hs ''to'' = pf_recipient m"
    using clean by (intro hval [of "''To''"])
      (auto simp: form_fields_def rfc_fields_def opt_field_def lower_names display_address_def tidy_or_empty_def tidy_def)
  show "header_value hs ''subject'' = (if pf_subject m \<noteq> [] then pf_subject m else ''(no subject)'')"
    by (intro hval [of "''Subject''"])
      (use form_texts(2) [OF assms(1)] in \<open>auto simp: form_fields_def rfc_fields_def opt_field_def lower_names tidy_or_empty_def tidy_def\<close>)
  show "header_value hs ''cc'' = join '', '' (address_list (pf_cc m))"
    using lists tail [of "''cc''"] by (intro hval [of "''Cc''"])
      (auto simp: form_fields_def rfc_fields_def opt_field_def lower_names form_opts_def)
  show "header_value hs ''in-reply-to'' = pf_inReplyTo m"
    using clean trims tail [of "''in-reply-to''"] by (intro hval [of "''In-Reply-To''"])
      (auto simp: form_fields_def rfc_fields_def opt_field_def lower_names form_opts_def)
  show "header_value hs ''references'' = pf_references m"
    using clean trims tail [of "''references''"] by (intro hval [of "''References''"])
      (auto simp: form_fields_def rfc_fields_def opt_field_def lower_names form_opts_def)
  show "header_value hs ''message-id'' = []" "header_value hs ''reply-to'' = []"
    unfolding hs_def using tail [of "''message-id''"] tail [of "''reply-to''"] form_absent [of _ ce m]
    by (simp_all add: header_value_absent image_Un del: fold_append)
qed

lemma composed_metadata_read:
  assumes "clean_form ce m" and "mime_tail tail"
  shows "metadata_of (fold put_field (form_fields ce m @ tail) []) e = composed_metadata m e"
proof -
  note clean = assms(1) [unfolded clean_form_def list.pred_inject list_all_append]
  have rcpt: "splitMailAddressListHeader (pf_recipient m) = [pf_recipient m]" "squeeze_space (pf_recipient m) = pf_recipient m"
    using clean split_addresses [of "[pf_recipient m]"] by (simp_all add: display_address_def squeeze_tidy)
  have cc: "splitMailAddressListHeader (join '', '' (address_list (pf_cc m))) = address_list (pf_cc m)"
    "squeeze_space (join '', '' (address_list (pf_cc m))) = join '', '' (address_list (pf_cc m))"
    using clean by (simp_all add: split_addresses join_tidy_or_empty tidy_or_empty_simps)
  note texts = form_texts [OF assms(1), THEN tidy_trim] form_texts [OF assms(1), THEN squeeze_tidy]
  have "squeeze_space (pf_inReplyTo m) = pf_inReplyTo m" "squeeze_space (pf_references m) = pf_references m"
    using clean by (simp_all add: tidy_or_empty_simps)
  moreover have "squeeze_space [] = []" "normalizeAngleMessageId [] = []" by code_simp+
  ultimately show ?thesis
    unfolding metadata_of_def composed_metadata_def Let_def composed_headers [OF assms] rcpt cc texts
    by simp
qed

section \<open>Reading a message\<close>

lemma read_message:
  assumes "fs \<noteq> []" and "\<forall>f \<in> set fs. field_ok f" and "replace_crlf t = block fs @ lf # lf # b"
    and "2 \<le> length (filter (\<lambda>f. toLowerCase (fst f) \<in> set known_headers) fs)"
  defines "hs \<equiv> fold put_field fs []"
  shows "length (block fs) \<le> 32768 \<Longrightarrow> app_parseMimeEntity env hs b 0 = Inr e \<Longrightarrow>
      extractDisplayEnvelope env t =
        Inr (if 0 < me_bodyScore e \<or> me_attachments e \<noteq> [] \<or> startsWith (toLowerCase (header_value hs ''content-type'')) ''multipart/''
             then e\<lparr>me_bodyScore := 0\<rparr>
             else plain_envelope (app_decodeMailBody env b (header_value hs ''content-transfer-encoding'')))"
    and "extractDecryptedMessageMetadata env t (Some e) = Inr (Some (metadata_of hs e))"
proof -
  note blk = block_message [OF assms(1,2)]
  have "2 \<le> length fs" using assms(4) length_filter_le order_trans by blast
  then have full: "looksLikeFullMessageHeaders (app_parseHeaderBlock (block fs))"
    using assms(4) by (simp add: blk(4) looksLikeFullMessageHeaders_def)
  have parts: "indexOf (replace_crlf t) [lf, lf] = int (length (block fs))" "0 < length (block fs)" "t \<noteq> []"
      "slice 0 (int (length (block fs))) (replace_crlf t) = block fs"
      "slice_from (int (length (block fs)) + 2) (replace_crlf t) = b"
      "block_headers (app_parseHeaderBlock (block fs)) = hs"
    using assms(3) by (auto simp: blk slice_head slice_behind_blank block_headers_def hs_def)
  show "extractDisplayEnvelope env t =
        Inr (if 0 < me_bodyScore e \<or> me_attachments e \<noteq> [] \<or> startsWith (toLowerCase (header_value hs ''content-type'')) ''multipart/''
             then e\<lparr>me_bodyScore := 0\<rparr>
             else plain_envelope (app_decodeMailBody env b (header_value hs ''content-transfer-encoding'')))"
    if "length (block fs) \<le> 32768" "app_parseMimeEntity env hs b 0 = Inr e"
    using that parts full blk(3) by (simp add: extractDisplayEnvelope_def looksLikeDisplayableEnvelope_def Let_def)
  show "extractDecryptedMessageMetadata env t (Some e) = Inr (Some (metadata_of hs e))"
    using parts full by (simp add: extractDecryptedMessageMetadata_def Let_def)
qed

definition plain_type :: string where
  "plain_type = ''text/plain; charset='' @ quoted ''utf-8'' @ ''; protected-headers='' @ quoted ''v1''"

definition plain_tail :: "(string \<times> string) list" where
  "plain_tail = [(''Content-Type'', plain_type), (''Content-Transfer-Encoding'', ''8bit''), (''MIME-Version'', ''1.0'')]"

lemma plain_tail_ok: "mime_tail plain_tail" "list_all field_ok plain_tail" "dropWhile is_space plain_type = plain_type"
  by code_simp+

text \<open>A text part in eight bits is taken as it is.\<close>

lemma plain_part:
  assumes "header_value hs ''content-type'' = plain_type" and "header_value hs ''content-disposition'' = []"
    and "header_value hs ''content-transfer-encoding'' = ''8bit''"
  shows "app_entity_body env nested hs body =
    Inr \<lparr>me_bodyText = body, me_bodyHtml = [], me_bodyScore = (if trim body = [] then 0 else 3), me_attachments = []\<rparr>"
proof -
  have kind: "media_type plain_type = ''text/plain''" "media_type ''text/plain'' = ''text/plain''"
      "find_boundary (\<lambda>c. c \<noteq> quote \<and> c \<noteq> CHR '';'' \<and> c \<noteq> lf) plain_type = None"
      "is_attachment ''text/plain'' [] (part_filename [] plain_type) = False"
      "toLowerCase (trim ''8bit'') = ''8bit''" "startsWith ''text/plain'' ''text/'' = True" by code_simp+
  show ?thesis
    by (simp add: app_entity_body_def Let_def assms kind app_read_leaf_def app_decodeMailBody_def scoreBodyText_def split: option.split)
qed

lemma app_parse_at: "app_parseMimeEntity env hs b d = app_entity_body env (if d < 8 then Some (app_entity_levels env (7 - d)) else None) hs b"
proof (cases "d < 8")
  case True
  then have "8 - d = Suc (7 - d)" by simp
  with True show ?thesis by (simp add: app_parseMimeEntity_def)
qed (simp add: app_parseMimeEntity_def)

lemma form_fields_ok:
  assumes "clean_form ce m"
  shows "\<forall>f \<in> set (form_fields ce m). field_ok f"
    and "2 \<le> length (filter (\<lambda>f. toLowerCase (fst f) \<in> set known_headers) (form_fields ce m))"
proof -
  note clean = assms [unfolded clean_form_def list.pred_inject list_all_append]
  have names: "list_all (\<lambda>n. n \<noteq> [] \<and> list_all header_char n)
      [''Date'', ''From'', ''To'', ''Cc'', ''Bcc'', ''Subject'', ''In-Reply-To'', ''References'']" by code_simp
  have "no_breaks (join '', '' (non_empty (address_list (pf_cc m))))" "no_breaks (join '', '' (non_empty (address_list (pf_bcc m))))"
      "no_breaks (trim (pf_inReplyTo m))" "no_breaks (trim (pf_references m))" "no_breaks (pf_recipient m)" "no_breaks (ce_utc ce)"
    using clean by (simp_all add: display_non_empty join_tidy_or_empty tidy_or_empty_simps tidy_no_breaks display_address_def)
  then show "\<forall>f \<in> set (form_fields ce m). field_ok f"
    using names form_texts [OF assms, THEN tidy_no_breaks]
    by (auto simp: form_fields_def rfc_fields_def form_opts_def opt_field_def field_ok_def)
  show "2 \<le> length (filter (\<lambda>f. toLowerCase (fst f) \<in> set known_headers) (form_fields ce m))"
    by (simp add: form_fields_def rfc_fields_def lower_names known_headers_def)
qed

section \<open>Without the key attached\<close>

lemma inner_message_form:
  "inner_message ce m = buildRFC5322 ce (pf_from m) [pf_recipient m] (pf_subject m) (pf_body m) (form_opts m)"
  by (simp add: inner_message_def form_opts_def)

lemma plain_message:
  assumes "\<not> want_attach m"
  shows "inner_message ce m = utf8_encode (join crlf (map (\<lambda>(n, v). field n v) (form_fields ce m @ plain_tail)) @ crlf @ crlf @ pf_body m)"
proof -
  have "\<not> (ro_attachPublicKey (form_opts m) \<and> trim (ro_senderArmoredPublic (form_opts m)) \<noteq> [])"
    using assms by (simp add: form_opts_def)
  then have "inner_message ce m = utf8_encode (join crlf (map (\<lambda>(n, v). field n v) (form_fields ce m)
      @ [text_plain_header, ''Content-Transfer-Encoding: 8bit'', ''MIME-Version: 1.0'', [], pf_body m]))"
    unfolding inner_message_form buildRFC5322_def Let_def rfc_head form_fields_def by simp
  moreover have "map (\<lambda>(n, v). field n v) plain_tail = [text_plain_header, ''Content-Transfer-Encoding: 8bit'', ''MIME-Version: 1.0'']"
    by (simp add: plain_tail_def field_def text_plain_header_def plain_type_def)
  ultimately have "inner_message ce m = utf8_encode (join crlf (map (\<lambda>(n, v). field n v) (form_fields ce m @ plain_tail) @ [[], pf_body m]))"
    by simp
  then show ?thesis
    using join_append [of "map (\<lambda>(n, v). field n v) (form_fields ce m @ plain_tail)" "[[], pf_body m]" crlf]
    by (simp add: plain_tail_def)
qed

lemma plain_message_read:
  assumes "clean_form ce m" and "length (block (form_fields ce m @ plain_tail)) \<le> 32768"
    and "replace_crlf t = block (form_fields ce m @ plain_tail) @ lf # lf # b"
  shows "extractDisplayEnvelope env t = Inr (plain_envelope b)"
    and "extractDecryptedMessageMetadata env t (Some e) = Inr (Some (composed_metadata m e))"
proof -
  define fs where "fs = form_fields ce m @ plain_tail"
  define hs where "hs = fold put_field fs []"
  have fs: "fs \<noteq> []" "\<forall>f \<in> set fs. field_ok f" "2 \<le> length (filter (\<lambda>f. toLowerCase (fst f) \<in> set known_headers) fs)"
    using form_fields_ok [OF assms(1)] plain_tail_ok(2) by (auto simp: fs_def plain_tail_def list_all_iff)
  have hs_at: "header_value hs ''content-type'' = plain_type" "header_value hs ''content-transfer-encoding'' = ''8bit''"
      "header_value hs ''content-disposition'' = []"
    unfolding hs_def fs_def
    using tail_value [OF plain_tail_ok(1), of "''Content-Type''" plain_type "''content-type''" ce m]
      tail_value [OF plain_tail_ok(1), of "''Content-Transfer-Encoding''" "''8bit''" "''content-transfer-encoding''" ce m]
      tail_absent [of "''content-disposition''" plain_tail ce m]
    by (simp_all add: plain_tail_def lower_names plain_tail_ok(3) del: fold_append) (simp add: is_space_def code_unit_def)
  let ?e = "\<lparr>me_bodyText = b, me_bodyHtml = [], me_bodyScore = (if trim b = [] then 0 else 3), me_attachments = []\<rparr>"
  have "app_parseMimeEntity env hs b 0 = Inr ?e" unfolding app_parse_at by (rule plain_part [OF hs_at(1,3,2)])
  note read = read_message [OF fs(1,2) assms(3) [folded fs_def] fs(3), folded hs_def]
  have "app_decodeMailBody env b ''8bit'' = b" "startsWith (toLowerCase plain_type) ''multipart/'' = False"
    by (simp_all add: app_decodeMailBody_def Let_def) code_simp+
  then show "extractDisplayEnvelope env t = Inr (plain_envelope b)"
    using read(1) [OF assms(2) [folded fs_def] \<open>app_parseMimeEntity env hs b 0 = Inr ?e\<close>]
    by (simp add: hs_at plain_envelope_def empty_entity_def)
  show "extractDecryptedMessageMetadata env t (Some e) = Inr (Some (composed_metadata m e))"
    using read(2) composed_metadata_read [OF assms(1) plain_tail_ok(1)] by (simp add: hs_def fs_def)
qed

text \<open>
  C16. A message that leaves without an attached key is shown as it was written: the reader finds the text,
  line ends normalised, and in the header the subject, the addresses and the thread of the form.
\<close>

theorem composed_mail_displayed:
  assumes "clean_form ce m" and "\<not> want_attach m" and "length (block (form_fields ce m @ plain_tail)) \<le> 32768"
  shows "\<exists>t. utf8_decode (inner_message ce m) = Some t
    \<and> extractDisplayEnvelope env t = Inr (plain_envelope (replace_crlf (pf_body m)))
    \<and> extractDecryptedMessageMetadata env t (Some e) = Inr (Some (composed_metadata m e))"
proof -
  define fs where "fs = form_fields ce m @ plain_tail"
  have "fs \<noteq> []" "\<forall>f \<in> set fs. field_ok f"
    using form_fields_ok(1) [OF assms(1)] plain_tail_ok(2) by (auto simp: fs_def plain_tail_def list_all_iff)
  from block_message(1) [OF this] have t: "replace_crlf (join crlf (map (\<lambda>(n, v). field n v) fs) @ crlf @ crlf @ pf_body m)
      = block fs @ lf # lf # replace_crlf (pf_body m)" .
  show ?thesis
    using plain_message [OF assms(2), of ce] utf8.dec_enc plain_message_read [OF assms(1,3) t [unfolded fs_def]]
    unfolding fs_def by auto
qed

definition demo_plain_form :: pgp_form where
  "demo_plain_form =
     \<lparr>pf_from = ''Ann <a@x.org>'', pf_recipient = ''b@y.org'', pf_subject = ''Lunch'', pf_body = ''Hi'' @ crlf @ ''Bob'',
      pf_recipientArmored = ''B'', pf_senderArmored = ''A'', pf_senderFingerprint = ''A'', pf_localDelivery = True,
      pf_attachPublicKey = False, pf_cc = AddrText ''C C <c@z.org>, d@z.org'', pf_bcc = AddrList [],
      pf_inReplyTo = [], pf_references = ''<1@y>''\<rparr>"

definition demo_reader :: app_env where
  "demo_reader = \<lparr>ap_td = greedy_decoder, ap_dp = None\<rparr>"

theorem composed_mail_displayed_witness:
  "\<exists>t. utf8_decode (inner_message demo_compose demo_plain_form) = Some t
    \<and> extractDisplayEnvelope demo_reader t = Inr (plain_envelope (''Hi'' @ [lf] @ ''Bob''))
    \<and> (\<exists>md. extractDecryptedMessageMetadata demo_reader t (Some (plain_envelope ''Hi'')) = Inr (Some md) \<and> md_subject md = ''Lunch''
         \<and> md_from_addr md = ''Ann <a@x.org>'' \<and> md_cc_addrs md = [''C C <c@z.org>'', ''d@z.org''])"
proof -
  let ?m = demo_plain_form
  have h: "clean_form demo_compose ?m" "\<not> want_attach ?m" "length (block (form_fields demo_compose ?m @ plain_tail)) \<le> 32768"
    by code_simp+
  have res: "replace_crlf (pf_body ?m) = ''Hi'' @ [lf] @ ''Bob''" "md_subject (composed_metadata ?m (plain_envelope ''Hi'')) = ''Lunch''"
      "md_from_addr (composed_metadata ?m (plain_envelope ''Hi'')) = ''Ann <a@x.org>''" "md_cc_addrs (composed_metadata ?m (plain_envelope ''Hi'')) = [''C C <c@z.org>'', ''d@z.org'']"
    by (simp_all add: composed_metadata_def) code_simp+
  from composed_mail_displayed [OF h, of demo_reader "plain_envelope ''Hi''"] show ?thesis unfolding res(1) using res(2-4) by blast
qed

end
