(* ===== verification/Signer_Trust.thy ===== *)
theory Signer_Trust
  imports Message_View Vault_Decrypt
begin

text \<open>
  \<^verbatim>\<open>static/mail/mail-app.jsx\<close>, the verdict on a signature: the keys offered for the verification, the nested
  signature, and what the reader is told of the signer. \<open>verifyBodySignature\<close> is a computation over the
  vault and the server; it runs to its end, so that the counter of its runs has no effect.
\<close>

section \<open>Keys attached to the message\<close>

definition BEGIN_KEY :: string where
  "BEGIN_KEY = ''-----BEGIN PGP PUBLIC KEY BLOCK-----''"

definition END_KEY :: string where
  "END_KEY = ''-----END PGP PUBLIC KEY BLOCK-----''"

text \<open>All matches of a begin marker, as little as possible, and an end marker.\<close>

function key_blocks :: "string \<Rightarrow> string list" where
  "key_blocks s =
     (case find_sub BEGIN_KEY s of
        None \<Rightarrow> []
      | Some i \<Rightarrow>
          (let r = drop (i + length BEGIN_KEY) s in
           case find_sub END_KEY r of
             None \<Rightarrow> []
           | Some j \<Rightarrow> (BEGIN_KEY @ take j r @ END_KEY) # key_blocks (drop (j + length END_KEY) r)))"
  by pat_completeness auto
termination
proof (relation "measure length", goal_cases)
  case (2 s i r j)
  have "i + length BEGIN_KEY \<le> length s" using find_sub_SomeD [OF 2(1)] by blast
  then show ?case using 2(2) by (simp add: BEGIN_KEY_def)
qed simp

declare key_blocks.simps [simp del]

text \<open>Attachments that come from the cache have no bytes and are passed over; they are not in the list.\<close>

definition looks_key :: "attachment \<Rightarrow> bool" where
  "looks_key a =
     (let ct = toLowerCase (at_contentType a); fn = toLowerCase (at_fileName a) in
      str_includes ct ''application/pgp-keys'' \<or> str_includes ct ''pgp-key'' \<or> endsWith fn ''.asc'')"

definition add_block :: "string \<Rightarrow> string list \<Rightarrow> string list" where
  "add_block b out = (let t = trim b in if t \<noteq> [] \<and> t \<notin> set out then out @ [t] else out)"

definition add_key_blocks :: "app_env \<Rightarrow> attachment \<Rightarrow> string list \<Rightarrow> string list" where
  "add_key_blocks env a out =
     (let ct = toLowerCase (at_contentType a) in
      if \<not> looks_key a \<and> ct \<noteq> [] \<and> \<not> startsWith ct ''text/'' then out
      else fold add_block (key_blocks (ap_td env (at_bytes a))) out)"

definition extractPublicKeysFromMimeAttachments :: "app_env \<Rightarrow> attachment list \<Rightarrow> string list" where
  "extractPublicKeysFromMimeAttachments env attachments = fold (add_key_blocks env) attachments []"

section \<open>The keys of the sender\<close>

record key_bundle =
  kb_senderEmail :: string
  kb_combinedArmored :: string
  kb_localIdentity :: "jsval option"
  kb_trustedContactRecord :: "jsval option"
  kb_directoryHit :: "(string \<times> string) option"   \<comment> \<open>armored, source\<close>
  kb_attachmentArmoreds :: "string list"

definition identity_of_sender :: "string \<Rightarrow> jsval \<Rightarrow> bool" where
  "identity_of_sender senderEmail i =
     (canonicalizeSenderId (if truthy i then getp i ''email'' else i) = senderEmail \<and> extractArmoredPublicKey i \<noteq> [])"

text \<open>The requests are made in \<open>try\<close> blocks whose \<open>catch\<close> does nothing.\<close>

definition attempt :: "('s, 'a) io \<Rightarrow> ('s, 'a option) io" where
  "attempt f s = (case f s of (Inr x, s') \<Rightarrow> (Inr (Some x), s') | (Inl _, s') \<Rightarrow> (Inr None, s'))"

definition trusted_contact :: "jsval option \<Rightarrow> jsval option" where
  "trusted_contact found =
     (case found of
        Some r \<Rightarrow> if truthy r \<and> strict_eq (getp r ''trusted'') (JBool True) \<and> extractArmoredPublicKey r \<noteq> [] then Some r else None
      | None \<Rightarrow> None)"

definition directory_hit :: "jsval option \<Rightarrow> (string \<times> string) option" where
  "directory_hit found =
     (case found of
        Some r \<Rightarrow>
          if extractArmoredPublicKey r \<noteq> []
          then Some (extractArmoredPublicKey r, if truthy (getp r ''source'') then to_string (getp r ''source'') else ''directory lookup'')
          else None
      | None \<Rightarrow> None)"

definition add_part :: "string \<Rightarrow> string list \<Rightarrow> string list" where
  "add_part arm parts = (if arm \<noteq> [] \<and> arm \<notin> set parts then parts @ [arm] else parts)"

definition armored_of :: "jsval option \<Rightarrow> string list" where
  "armored_of r = (case r of Some v \<Rightarrow> [extractArmoredPublicKey v] | None \<Rightarrow> [])"

definition buildCombinedVerificationArmored ::
  "'s server \<Rightarrow> string \<Rightarrow> jsval \<Rightarrow> jsval list \<Rightarrow> string list \<Rightarrow> ('s, key_bundle) io" where
  "buildCombinedVerificationArmored srv origin fromValue identities attachmentArmoredList =
     (let senderEmail = canonicalizeSenderId fromValue;
          attachmentArmoreds = filter (\<lambda>a. a \<noteq> []) attachmentArmoredList
      in
      if senderEmail = [] then
        returnI \<lparr>kb_senderEmail = [], kb_combinedArmored = [], kb_localIdentity = None, kb_trustedContactRecord = None,
                 kb_directoryHit = None, kb_attachmentArmoreds = attachmentArmoreds\<rparr>
      else
        (let localIdentity = List.find (identity_of_sender senderEmail) identities in
         bindI (if localIdentity = None then attempt (getContactKey srv senderEmail) else returnI None) (\<lambda>contact.
         bindI (attempt (lookupKey srv origin senderEmail)) (\<lambda>looked.
         (let trustedContactRecord = trusted_contact contact;
              directoryHit = directory_hit looked;
              parts1 = fold add_part attachmentArmoreds (armored_of localIdentity @ armored_of trustedContactRecord);
              parts = (case directoryHit of Some (arm, _) \<Rightarrow> add_part arm parts1 | None \<Rightarrow> parts1)
          in returnI
             \<lparr>kb_senderEmail = senderEmail, kb_combinedArmored = join [lf, lf] (filter (\<lambda>p. p \<noteq> []) parts),
              kb_localIdentity = localIdentity, kb_trustedContactRecord = trustedContactRecord,
              kb_directoryHit = directoryHit, kb_attachmentArmoreds = attachmentArmoreds\<rparr>)))))"

fun pick_loop :: "vault_env \<Rightarrow> string \<Rightarrow> (string \<times> string) list \<Rightarrow> (string \<times> string) option" where
  "pick_loop env want [] = None"
| "pick_loop env want ((armored, source) # cs) =
     (if armored = [] then pick_loop env want cs
      else
        (case bindR (pg_readKey (ve_pg env) armored) (pg_keyFingerprint (ve_pg env)) of
           Inl _ \<Rightarrow> pick_loop env want cs
         | Inr f \<Rightarrow>
             (let fp = normalizeFingerprintHex (JStr f) in
              if fp \<noteq> [] \<and> (fp = want \<or> 16 \<le> length want \<and> endsWith fp (slice_from (-16) want))
              then Some (armored, source)
              else pick_loop env want cs)))"

definition pickArmoredKeyForSignerFingerprint ::
  "vault_env \<Rightarrow> (string \<times> string) list \<Rightarrow> string \<Rightarrow> (string \<times> string) option" where
  "pickArmoredKeyForSignerFingerprint env candidates signerFingerprint =
     (let want = normalizeFingerprintHex (JStr signerFingerprint) in
      if \<not> cr_openpgp_defined (ve_cr env) \<or> signerFingerprint = [] \<or> want = [] then None
      else pick_loop env want candidates)"

section \<open>The verdict\<close>

definition mergeNestedSignatureVerification :: "verification \<Rightarrow> verification option \<Rightarrow> verification" where
  "mergeNestedSignatureVerification outer inner =
     (case inner of
        None \<Rightarrow> outer
      | Some i \<Rightarrow>
          if \<not> vf_signed i then outer
          else if vf_status i = ''verified'' then
            i\<lparr>vf_signerFingerprint := (if vf_signerFingerprint i \<noteq> [] then vf_signerFingerprint i else vf_signerFingerprint outer),
              vf_signerKeyIDs := (if vf_signerKeyIDs i \<noteq> [] then vf_signerKeyIDs i else vf_signerKeyIDs outer)\<rparr>
          else if vf_status outer = ''verified'' then outer
          else i)"

record trust_state =
  tr_verification :: verification
  tr_source :: string
  tr_senderEmail :: string
  tr_displayTrust :: string
  tr_trustArmored :: string
  tr_trustSource :: string
  tr_trustHint :: string

datatype signature_state = NoSignatureState | Checking | SignatureError string | Verdict trust_state

definition trust_candidates :: "key_bundle \<Rightarrow> (string \<times> string) list" where
  "trust_candidates b =
     map (\<lambda>arm. (arm, ''message attachment'')) (kb_attachmentArmoreds b)
     @ (case kb_directoryHit b of
          Some (arm, src) \<Rightarrow> if arm \<noteq> [] then [(arm, if src \<noteq> [] then src else ''directory lookup'')] else []
        | None \<Rightarrow> [])"

definition fingerprint_of :: "jsval option \<Rightarrow> string \<Rightarrow> bool" where
  "fingerprint_of r signerFp = (case r of Some v \<Rightarrow> fingerprintsMatch (getp v ''fingerprint'') (JStr signerFp) | None \<Rightarrow> False)"

text \<open>The dash in the hint is a hyphen here.\<close>

definition signer_trust :: "vault_env \<Rightarrow> key_bundle \<Rightarrow> string \<Rightarrow> verification \<Rightarrow> trust_state" where
  "signer_trust env b fromAddr merged =
     (let signerFp = vf_signerFingerprint merged;
          base = \<lparr>tr_verification = merged, tr_source = [],
                  tr_senderEmail = (if kb_senderEmail b \<noteq> [] then kb_senderEmail b else canonicalizeSenderId (JStr fromAddr)),
                  tr_displayTrust = ''na'', tr_trustArmored = [], tr_trustSource = [], tr_trustHint = []\<rparr>
      in
      if vf_status merged = ''verified'' \<and> signerFp \<noteq> [] then
        (if fingerprint_of (kb_localIdentity b) signerFp then base\<lparr>tr_displayTrust := ''trusted'', tr_source := ''local identity''\<rparr>
         else if fingerprint_of (kb_trustedContactRecord b) signerFp
         then base\<lparr>tr_displayTrust := ''trusted'', tr_source := ''trusted contact''\<rparr>
         else
           (case pickArmoredKeyForSignerFingerprint env (trust_candidates b) signerFp of
              Some (armored, source) \<Rightarrow>
                base\<lparr>tr_displayTrust := ''untrusted'', tr_trustArmored := armored,
                     tr_trustSource := (if source \<noteq> [] then source else ''import''),
                     tr_trustHint := ''Cryptographic signature OK using '' @ (if source \<noteq> [] then source else ''a supplied'')
                       @ '' key - not in your trusted contacts yet.''\<rparr>
            | None \<Rightarrow>
                base\<lparr>tr_displayTrust := ''untrusted'',
                     tr_trustHint := ''Cryptographic signature OK, but the signing key is not trusted and no matching attachment or directory key was found to import.''\<rparr>))
      else base)"

definition verification_keys :: "key_bundle \<Rightarrow> jsval" where
  "verification_keys b = (if kb_combinedArmored b \<noteq> [] then JStr (kb_combinedArmored b) else JUndef)"

definition nested_verification :: "vault_env \<Rightarrow> string \<Rightarrow> jsval \<Rightarrow> verification option" where
  "nested_verification env data keys =
     (if data = [] then None
      else (case verifyNestedSignedPayloadAfterDecrypt env data keys of Inr r \<Rightarrow> r | Inl _ \<Rightarrow> None))"

definition verify_run ::
  "app_env \<Rightarrow> vault_env \<Rightarrow> 's server \<Rightarrow> string \<Rightarrow> int \<Rightarrow> jsval list \<Rightarrow> bytes \<Rightarrow> jsval \<Rightarrow> string \<Rightarrow> attachment list
   \<Rightarrow> ('s, trust_state) vio" where
  "verify_run ae env srv origin now identities blob decryptFingerprint fromAddr attachments =
     bindI (on_server (buildCombinedVerificationArmored srv origin (JStr fromAddr) identities
                         (extractPublicKeysFromMimeAttachments ae attachments))) (\<lambda>bundle.
     bindI (decryptForIdentityResult env srv now decryptFingerprint blob None (verification_keys bundle)) (\<lambda>(data, outer).
     returnI (signer_trust env bundle fromAddr
       (mergeNestedSignatureVerification outer (nested_verification env data (verification_keys bundle))))))"

definition verifyBodySignature ::
  "app_env \<Rightarrow> vault_env \<Rightarrow> 's server \<Rightarrow> string \<Rightarrow> int \<Rightarrow> jsval list \<Rightarrow> bytes option \<Rightarrow> jsval \<Rightarrow> string \<Rightarrow> attachment list
   \<Rightarrow> vault \<times> 's \<Rightarrow> signature_state \<times> vault \<times> 's" where
  "verifyBodySignature ae env srv origin now identities blob decryptFingerprint fromAddr attachments st =
     (case blob of
        None \<Rightarrow> (NoSignatureState, st)
      | Some bs \<Rightarrow>
          if \<not> truthy decryptFingerprint then (NoSignatureState, st)
          else
            (case verify_run ae env srv origin now identities bs decryptFingerprint fromAddr attachments st of
               (Inr t, st') \<Rightarrow> (Verdict t, st')
             | (Inl e, st') \<Rightarrow> (SignatureError (exn_message e), st')))"

text \<open>Tone, label and title.\<close>

definition or_else :: "string \<Rightarrow> string \<Rightarrow> string" where
  "or_else s d = (if s \<noteq> [] then s else d)"

definition describe_verdict :: "trust_state \<Rightarrow> (string \<times> string \<times> string) option" where
  "describe_verdict t =
     (let status = vf_status (tr_verification t); err = vf_error (tr_verification t) in
      if status = ''verified'' then
        Some
          (if tr_displayTrust t = ''trusted'' then
             (''ok'', ''TRUSTED SIGNER'',
              if tr_source t \<noteq> [] then ''Signature verified; key is trusted ('' @ tr_source t @ '').''
              else ''Signature verified with a trusted key for this sender.'')
           else if tr_displayTrust t = ''untrusted'' then
             (''warn'', ''UNTRUSTED SIGNER'',
              or_else (tr_trustHint t) ''The signature checks out, but this key is not in your trusted contacts. Trust the sender key to treat future mail from this fingerprint as trusted.'')
           else
             (''ok'', ''SIGNATURE VERIFIED'',
              if tr_source t \<noteq> [] then ''Verified with '' @ tr_source t @ ''.'' else ''OpenPGP signature verified.''))
      else if status = ''missing_public_key'' then
        Some (''warn'', ''SIGNER KEY UNAVAILABLE'',
          or_else err ''The message appears to be signed, but no trusted sender key was available.'')
      else if status = ''bad_signature'' then
        Some (''err'', ''BAD SIGNATURE'', or_else err ''The message signature could not be verified.'')
      else if status = ''unsigned'' then
        Some (''dim'', ''UNSIGNED MESSAGE'', ''No OpenPGP signature was found on this decrypted message.'')
      else if status = ''error'' then
        Some (''warn'', ''SIGNATURE UNKNOWN'', or_else err ''Signature verification could not be completed.'')
      else None)"

fun describeSignatureState :: "signature_state \<Rightarrow> (string \<times> string \<times> string) option" where
  "describeSignatureState NoSignatureState = None"
| "describeSignatureState Checking =
     Some (''dim'', ''VERIFYING SIGNATURE'', ''Resolving sender key and checking the OpenPGP signature.'')"
| "describeSignatureState (SignatureError e) =
     Some (''warn'', ''SIGNATURE UNKNOWN'', or_else e ''Signature verification could not be completed.'')"
| "describeSignatureState (Verdict t) = describe_verdict t"

section \<open>Who is shown as trusted\<close>

lemma signer_trust_trusted:
  "tr_displayTrust (signer_trust env b fromAddr v) = ''trusted'' \<longleftrightarrow>
   vf_status v = ''verified'' \<and> vf_signerFingerprint v \<noteq> []
   \<and> (fingerprint_of (kb_localIdentity b) (vf_signerFingerprint v)
      \<or> fingerprint_of (kb_trustedContactRecord b) (vf_signerFingerprint v))"
  by (auto simp: signer_trust_def Let_def split: option.splits)

lemma signer_trust_verification [simp]: "tr_verification (signer_trust env b fromAddr v) = v"
  by (simp add: signer_trust_def Let_def split: option.splits prod.splits)

lemma trusted_label:
  "describe_verdict t = Some (tone, ''TRUSTED SIGNER'', title) \<Longrightarrow>
   vf_status (tr_verification t) = ''verified'' \<and> tr_displayTrust t = ''trusted''"
  by (auto simp: describe_verdict_def Let_def split: if_splits)

text \<open>Every state of the server that a list of requests leads to, with the answers on the way.\<close>

lemma attempt_Inr: "attempt f s = (Inr x, s') \<Longrightarrow> (case x of Some y \<Rightarrow> f s = (Inr y, s') | None \<Rightarrow> \<exists>e. f s = (Inl e, s'))"
  by (auto simp: attempt_def split: prod.splits sum.splits)

lemma bundle_local:
  assumes "buildCombinedVerificationArmored srv origin from ids atts s = (Inr b, s')" and "kb_localIdentity b = Some i"
  shows "i \<in> set ids \<and> identity_of_sender (canonicalizeSenderId from) i"
  using assms
  by (auto simp: buildCombinedVerificationArmored_def Let_def bindI_def returnI_def find_Some_iff
      split: if_splits prod.splits sum.splits)

lemma bundle_contact:
  assumes "buildCombinedVerificationArmored srv origin from ids atts s = (Inr b, s')" and "kb_trustedContactRecord b = Some r"
  shows "(\<exists>s1. getContactKey srv (canonicalizeSenderId from) s = (Inr r, s1)) \<and> getp r ''trusted'' = JBool True
    \<and> \<not> list_ex (identity_of_sender (canonicalizeSenderId from)) ids"
proof -
  have none: "List.find (identity_of_sender (canonicalizeSenderId from)) ids = None"
      "\<exists>s1. attempt (getContactKey srv (canonicalizeSenderId from)) s = (Inr (Some r), s1)"
      "strict_eq (getp r ''trusted'') (JBool True)"
    using assms
    by (auto simp: buildCombinedVerificationArmored_def Let_def bindI_def returnI_def trusted_contact_def
        split: if_splits prod.splits sum.splits option.splits)
  then show ?thesis
    using attempt_Inr [of "getContactKey srv (canonicalizeSenderId from)" s "Some r"]
    by (cases "getp r ''trusted''") (auto simp: find_None_iff list_ex_iff)
qed

text \<open>The fingerprint of a key that was offered to check the signatures with.\<close>

definition offered :: "vault_env \<Rightarrow> jsval \<Rightarrow> string \<Rightarrow> bool" where
  "offered env armored fp \<longleftrightarrow>
     (\<exists>keys k f. readVerificationKeys env armored = Inr keys \<and> k \<in> set keys
        \<and> pg_keyFingerprint (ve_pg env) k = Inr f \<and> fp = normalizeFingerprint (JStr f))"

lemma summarize_offered:
  assumes "readVerificationKeys env armored = Inr keys"
  shows "vf_signerFingerprint (summarizeSignatureVerification env sigs keys) \<noteq> [] \<Longrightarrow>
    offered env armored (vf_signerFingerprint (summarizeSignatureVerification env sigs keys))"
  using assms fingerprintFromVerificationKeys_sound [of env keys]
  by (auto simp: summarizeSignatureVerification_def Let_def offered_def split: option.splits if_splits) metis+

lemma nested_offered:
  assumes "nested_verification env data armored = Some i" and "vf_signerFingerprint i \<noteq> []"
  shows "offered env armored (vf_signerFingerprint i)"
proof -
  obtain keys where keys: "readVerificationKeys env armored = Inr keys"
    using assms(1) by (auto simp: nested_verification_def verifyNestedSignedPayloadAfterDecrypt_def bindR_def split: if_splits sum.splits)
  have "\<exists>sigs. i = summarizeSignatureVerification env sigs keys"
    using assms keys
    by (auto simp: nested_verification_def verifyNestedSignedPayloadAfterDecrypt_def verify_multipart_signed_def bad_signature_def Let_def
        split: if_splits sum.splits option.splits prod.splits list.splits)
  then show ?thesis using summarize_offered [OF keys] assms(2) by blast
qed

lemma decrypted_offered:
  assumes "decryptForIdentityResult env srv now fp blob rows armored st = (Inr (d, v), st')" and "vf_signerFingerprint v \<noteq> []"
  shows "offered env armored (vf_signerFingerprint v)"
  using assms summarize_offered [of env armored]
  by (auto simp: decryptForIdentityResult_def decryptToResult_def Let_def bindI_def liftI_def returnI_def throwI_def
      split: prod.splits sum.splits option.splits)

lemma merged_fingerprint:
  "vf_signerFingerprint (mergeNestedSignatureVerification outer inner) = vf_signerFingerprint outer
   \<or> (\<exists>i. inner = Some i \<and> vf_signerFingerprint (mergeNestedSignatureVerification outer inner) = vf_signerFingerprint i)"
  by (auto simp: mergeNestedSignatureVerification_def split: option.splits)

lemma merged_verified:
  "vf_status (mergeNestedSignatureVerification outer inner) = ''verified'' \<Longrightarrow>
   vf_status outer = ''verified'' \<or> (\<exists>i. inner = Some i \<and> vf_signed i \<and> vf_status i = ''verified'')"
  by (auto simp: mergeNestedSignatureVerification_def split: option.splits if_splits)

lemma verify_run_Inr:
  assumes "verify_run ae env srv origin now ids blob fp from atts (v, s) = (Inr t, st')"
  obtains b s1 d outer where "buildCombinedVerificationArmored srv origin (JStr from) ids (extractPublicKeysFromMimeAttachments ae atts) s = (Inr b, s1)"
    and "decryptForIdentityResult env srv now fp blob None (verification_keys b) (v, s1) = (Inr (d, outer), st')"
    and "t = signer_trust env b from (mergeNestedSignatureVerification outer (nested_verification env d (verification_keys b)))"
  using assms by (auto simp: verify_run_def bindI_def returnI_def on_server_def split: prod.splits sum.splits)


definition demo_signed_env :: vault_env where
  "demo_signed_env =
     (demo_env 0)\<lparr>ve_pg := demo_pgp\<lparr>pg_decrypt := (\<lambda>m k ks.
        if prefix k m then Inr (drop (length k) m, [\<lparr>sg_keyID = Some ''abcdef0123456789'', sg_verified = Fulfilled\<rparr>])
        else Inl (Error ''wrong key''))\<rparr>\<rparr>"

definition demo_app :: app_env where
  "demo_app = \<lparr>ap_td = map char_of_byte, ap_dp = None\<rparr>"

definition demo_own_identity :: jsval where
  "demo_own_identity =
     JObj [(''email'', JStr ''me@x.org''), (''armored_public'', JStr ''ABCDEF0123456789''), (''fingerprint'', JStr ''ABCDEF0123456789'')]"

definition demo_verdict :: signature_state where
  "demo_verdict =
     fst (verifyBodySignature demo_app demo_signed_env demo_identity_server ''https://e.org'' 0 [demo_own_identity]
            (Some (utf8_encode ''Ihello'')) (JStr ''I'') ''Me <me@x.org>'' [] (demo_unlocked, ()))"

lemma demo_trusted:
  "describeSignatureState demo_verdict =
   Some (''ok'', ''TRUSTED SIGNER'', ''Signature verified; key is trusted (local identity).'')"
  by code_simp


end
