(* ===== verification/Attached_Key.thy ===== *)
theory Attached_Key
  imports Mail_Delivery Signer_Trust
begin

text \<open>
  The sender's key on its way: \<open>buildRFC5322\<close> of \<^verbatim>\<open>static/mail/compose.jsx\<close> attaches it to the message,
  and the reader of \<^verbatim>\<open>static/mail/mail-app.jsx\<close> takes the message apart again. The text arrives; the key
  does not, since the reader cuts two dashes off its last line.
\<close>

section \<open>Splitting at the boundary\<close>

lemma replace_crlf_line: "replace_crlf (x @ crlf @ t) = replace_crlf x @ lf # replace_crlf t"
proof -
  have "replace_crlf (x @ (cr_char # lf # t)) = replace_crlf x @ replace_crlf (cr_char # lf # t)"
    by (rule replace_crlf_snoc) simp
  then show ?thesis by (simp add: crlf_def)
qed

text \<open>A separator without line feeds behind a line feed, the first one if none is in the text before.\<close>

lemma find_sub_behind_lf:
  assumes "lf \<notin> set sep" and "sep \<noteq> []"
  shows "\<not> sublist sep x \<Longrightarrow> find_sub sep (x @ lf # sep @ y) = Some (Suc (length x))"
proof (induction x)
  case Nil
  obtain c r where "sep = c # r" "c \<noteq> lf" using assms by (cases sep) auto
  then show ?case by (cases y) auto
next
  case (Cons c x)
  have "\<not> prefix sep ((c # x) @ lf # sep @ y)"
  proof
    assume "prefix sep ((c # x) @ lf # sep @ y)"
    then have "prefix sep (c # x) \<or> (\<exists>us. sep = (c # x) @ us \<and> prefix us (lf # sep @ y))" by (simp only: prefix_append)
    moreover have "\<not> prefix sep (c # x)" using Cons.prems by (meson prefix_imp_sublist)
    ultimately obtain us where us: "sep = (c # x) @ us" "prefix us (lf # sep @ y)" by blast
    have "us \<noteq> []" using us(1) \<open>\<not> prefix sep (c # x)\<close> by auto
    then have "lf \<in> set us" using us(2) by (cases us) auto
    then show False using us(1) assms(1) by simp
  qed
  moreover have "\<not> sublist sep x" using Cons.prems by (meson sublist_Cons_right sublist_order.order_trans sublist_order.order_refl)
  ultimately show ?case using Cons.IH by simp
qed

lemma split_behind_lf:
  assumes "lf \<notin> set sep" and "sep \<noteq> []" and "\<not> sublist sep x"
  shows "split_str sep (x @ lf # sep @ y) = (x @ [lf]) # split_str sep y"
  using find_sub_behind_lf [OF assms, of y] assms(2) by (subst split_str.simps) simp

lemma split_at_start: "sep \<noteq> [] \<Longrightarrow> split_str sep (sep @ y) = [] # split_str sep y"
  by (subst split_str.simps) (cases sep; simp add: prefix_def)

lemma split_none: "\<not> sublist sep x \<Longrightarrow> split_str sep x = [x]"
  by (subst split_str.simps) (simp add: find_sub_None [symmetric])

section \<open>The message with the key\<close>

definition mixed_boundary :: "compose_env \<Rightarrow> string" where
  "mixed_boundary ce = ''=_elvish_mix_'' @ randomHex (ce_boundary ce)"

definition mixed_type :: "string \<Rightarrow> string" where
  "mixed_type b = ''multipart/mixed; boundary='' @ quoted b"

definition mixed_tail :: "string \<Rightarrow> (string \<times> string) list" where
  "mixed_tail b = [(''MIME-Version'', ''1.0''), (''Content-Type'', mixed_type b)]"

definition text_fields :: "(string \<times> string) list" where
  "text_fields = [(''Content-Type'', plain_type), (''Content-Transfer-Encoding'', ''8bit'')]"

definition key_fields :: "string \<Rightarrow> (string \<times> string) list" where
  "key_fields fn =
     [(''Content-Type'', ''application/pgp-keys; name='' @ quoted fn),
      (''Content-Disposition'', ''attachment; filename='' @ quoted fn), (''Content-Transfer-Encoding'', ''7bit'')]"

definition key_text :: "pgp_form \<Rightarrow> string" where
  "key_text m = strip_final_crlf (normalizeCRLF (trim (pf_senderArmored m)))"

definition mixed_lines :: "string \<Rightarrow> string \<Rightarrow> string \<Rightarrow> string \<Rightarrow> string list" where
  "mixed_lines b body fn key =
     [''--'' @ b] @ map (\<lambda>(n, v). field n v) text_fields @ [[], body, [], ''--'' @ b]
     @ map (\<lambda>(n, v). field n v) (key_fields fn) @ [[], key, [], ''--'' @ b @ ''--'', []]"

lemma mixed_message:
  assumes "want_attach m"
  shows "inner_message ce m =
    utf8_encode (join crlf (map (\<lambda>(n, v). field n v) (form_fields ce m @ mixed_tail (mixed_boundary ce))) @ crlf @ crlf
      @ join crlf (mixed_lines (mixed_boundary ce) (pf_body m) (publicKeyAscFilename (pf_from m)) (key_text m)))"
proof -
  let ?b = "mixed_boundary ce" and ?fn = "publicKeyAscFilename (pf_from m)"
  let ?ls = "map (\<lambda>(n, v). field n v) (form_fields ce m @ mixed_tail ?b)"
  let ?rest = "mixed_lines ?b (pf_body m) ?fn (key_text m)"
  have att: "ro_attachPublicKey (form_opts m) \<and> trim (ro_senderArmoredPublic (form_opts m)) \<noteq> []"
      "ro_senderArmoredPublic (form_opts m) = pf_senderArmored m"
    using assms by (auto simp: form_opts_def want_attach_def)
  have tail: "map (\<lambda>(n, v). field n v) (mixed_tail b) = [''MIME-Version: 1.0'', ''Content-Type: multipart/mixed; boundary='' @ quoted b]"
      "map (\<lambda>(n, v). field n v) text_fields = [text_plain_header, ''Content-Transfer-Encoding: 8bit'']"
      "map (\<lambda>(n, v). field n v) (key_fields fn) = [''Content-Type: application/pgp-keys; name='' @ quoted fn,
         ''Content-Disposition: attachment; filename='' @ quoted fn, ''Content-Transfer-Encoding: 7bit'']" for b fn
    by (simp_all add: mixed_tail_def mixed_type_def text_fields_def key_fields_def field_def text_plain_header_def plain_type_def)
  have "inner_message ce m = utf8_encode (join crlf (?ls @ [] # ?rest))"
    unfolding inner_message_form buildRFC5322_def Let_def rfc_head mixed_lines_def map_append tail form_fields_def key_text_def
      mixed_boundary_def att(2) [symmetric]
    using att(1) by simp
  moreover have "join crlf ([] # ?rest) = crlf @ join crlf ?rest" by (simp add: mixed_lines_def)
  ultimately show ?thesis using join_append [of ?ls "[] # ?rest" crlf] by (simp add: mixed_tail_def)
qed

text \<open>The body of that message, line ends normalised.\<close>

definition text_part :: "string \<Rightarrow> string" where
  "text_part body = block text_fields @ lf # lf # body"

definition key_part :: "string \<Rightarrow> string \<Rightarrow> string" where
  "key_part fn key = block (key_fields fn) @ lf # lf # key"

lemma join_lines: "ls \<noteq> [] \<Longrightarrow> \<forall>l \<in> set ls. cr_char \<notin> set l \<Longrightarrow> replace_crlf (join crlf ls) = join [lf] ls"
proof (induction crlf ls rule: join.induct)
  case (2 x)
  then show ?case by (simp add: replace_crlf_id)
next
  case (3 x y ys)
  then show ?case using replace_crlf_line [of x "join crlf (y # ys)"] by (simp add: replace_crlf_id)
qed simp

lemma mixed_body_lines:
  assumes "cr_char \<notin> set b" and "\<forall>f \<in> set (key_fields fn). field_ok f"
  shows "replace_crlf (join crlf (mixed_lines b body fn key)) =
    (''--'' @ b) @ (lf # text_part (replace_crlf body) @ [lf]) @ lf # (''--'' @ b)
    @ (lf # key_part fn (replace_crlf key) @ [lf]) @ lf # (''--'' @ b) @ ''--'' @ [lf]"
proof -
  define sep where "sep = ''--'' @ b"
  define ts where "ts = join crlf (map (\<lambda>(n, v). field n v) text_fields)"
  define ks where "ks = join crlf (map (\<lambda>(n, v). field n v) (key_fields fn))"
  have "list_all field_ok text_fields" by code_simp
  then have ts: "replace_crlf ts = block text_fields"
    unfolding ts_def block_def by (intro join_lines) (use block_lines [of text_fields] in \<open>auto simp: list_all_iff text_fields_def\<close>)
  have ks: "replace_crlf ks = block (key_fields fn)"
    unfolding ks_def block_def by (intro join_lines) (use block_lines [OF assms(2)] in \<open>auto simp: key_fields_def\<close>)
  have sep: "replace_crlf sep = sep" "replace_crlf (sep @ ''--'') = sep @ ''--''"
    using assms(1) by (auto intro!: replace_crlf_id simp: sep_def cr_char_def char_of_def)
  have "join crlf (mixed_lines b body fn key) =
      sep @ crlf @ ts @ crlf @ [] @ crlf @ body @ crlf @ [] @ crlf @ sep @ crlf @ ks @ crlf @ [] @ crlf @ key @ crlf @ [] @ crlf
      @ (sep @ ''--'') @ crlf @ []"
    by (simp add: mixed_lines_def ts_def ks_def text_fields_def key_fields_def sep_def)
  then show ?thesis
    unfolding sep_def [symmetric]
    by (simp only: replace_crlf_line ts ks sep) (simp add: text_part_def key_part_def)
qed

section \<open>Names and boundaries\<close>

lemma special_chars: "lf = CHR 0x0A" "cr_char = CHR 0x0D" "quote = CHR 0x22"
  by code_simp+

lemma replace_runs_set: "set (replace_runs P r s) \<subseteq> {c. \<not> P c} \<union> set r"
  by (induction P r s rule: replace_runs.induct) (auto simp: replace_runs.simps)

lemma filename_chars: "c \<in> set (publicKeyAscFilename from) \<Longrightarrow> is_letter c \<or> is_digit c \<or> c \<in> set ''._-''"
proof -
  let ?P = "\<lambda>c. \<not> (is_letter c \<or> is_digit c \<or> c \<in> set ''._-'')"
  assume "c \<in> set (publicKeyAscFilename from)"
  then have "c \<in> set ''public-'' \<or> c \<in> set (replace_runs ?P ''_'' (extractPrimaryEmailForFilename from)) \<or> c \<in> set ''.asc''"
    by (simp only: publicKeyAscFilename_def set_append Un_iff)
  moreover have "list_all (\<lambda>c. \<not> ?P c) (''public-'' @ ''.asc'' @ ''_'')" by code_simp
  ultimately show ?thesis
    using replace_runs_set [of ?P "''_''" "extractPrimaryEmailForFilename from"] by (auto simp only: list_all_iff set_append)
qed

lemma filename_free:
  "CHR ''='' \<notin> set (publicKeyAscFilename from)" "quote \<notin> set (publicKeyAscFilename from)"
  "no_breaks (publicKeyAscFilename from)" "publicKeyAscFilename from \<noteq> []"
proof -
  have "\<not> (is_letter c \<or> is_digit c \<or> c \<in> set ''._-'')" if "c \<in> {CHR ''='', quote, cr_char, lf}" for c
    using that by (auto simp: is_letter_def is_digit_def code_unit_def special_chars)
  then show "CHR ''='' \<notin> set (publicKeyAscFilename from)" "quote \<notin> set (publicKeyAscFilename from)"
      "no_breaks (publicKeyAscFilename from)"
    unfolding no_breaks_def using filename_chars [of _ "from"] by blast+
  show "publicKeyAscFilename from \<noteq> []" by (simp add: publicKeyAscFilename_def)
qed

lemma boundary_free:
  "lf \<notin> set (mixed_boundary ce)" "cr_char \<notin> set (mixed_boundary ce)" "quote \<notin> set (mixed_boundary ce)"
  "CHR '';'' \<notin> set (mixed_boundary ce)"
  using randomHex_digits [of "ce_boundary ce"]
  by (auto simp: mixed_boundary_def special_chars)

lemma mixed_type_boundary:
  "find_boundary (\<lambda>c. c \<noteq> quote \<and> c \<noteq> CHR '';'' \<and> c \<noteq> lf) (mixed_type (mixed_boundary ce)) = Some (mixed_boundary ce)"
proof -
  have "takeWhile (\<lambda>c. c \<noteq> quote \<and> c \<noteq> CHR '';'' \<and> c \<noteq> lf) (mixed_boundary ce @ [quote]) = mixed_boundary ce"
    using boundary_free [of ce] by (subst takeWhile_append2) auto
  moreover have "mixed_boundary ce \<noteq> []" by (simp add: mixed_boundary_def)
  ultimately have "boundary_at (\<lambda>c. c \<noteq> quote \<and> c \<noteq> CHR '';'' \<and> c \<noteq> lf) (''boundary='' @ quoted (mixed_boundary ce)) = Some (mixed_boundary ce)"
    by (simp add: boundary_at_def quoted_def toLowerCase_def lower_char_def code_unit_def)
  then show ?thesis
    by (simp add: mixed_type_def boundary_at_def toLowerCase_def lower_char_def code_unit_def char_of_eq_iff)
qed

lemma mixed_tail_ok:
  "mime_tail (mixed_tail b)" "no_breaks b \<Longrightarrow> \<forall>f \<in> set (mixed_tail b). field_ok f"
  by (auto simp: mime_tail_def mixed_tail_def lower_names field_ok_def mixed_type_def quoted_def no_breaks_def
      header_char_def is_letter_def code_unit_def special_chars)

lemma key_fields_ok: "no_breaks fn \<Longrightarrow> \<forall>f \<in> set (key_fields fn). field_ok f"
  by (auto simp: key_fields_def field_ok_def quoted_def no_breaks_def
      header_char_def is_letter_def code_unit_def special_chars)

text \<open>No header line of the parts holds the boundary.\<close>

lemma sublist_after_equals:
  assumes "CHR ''='' \<notin> set a" and "CHR ''='' \<notin> set b"
  shows "\<not> sublist ''=_'' (a @ CHR ''='' # quote # b)"
proof
  assume "sublist ''=_'' (a @ CHR ''='' # quote # b)"
  then obtain p r where eq: "a @ CHR ''='' # quote # b = p @ CHR ''='' # CHR ''_'' # r" by (auto simp: sublist_def)
  have q: "quote \<noteq> CHR ''=''" "quote \<noteq> CHR ''_''" by (simp_all add: special_chars)
  then show False using eq assms append_Cons_eq_iff [of "CHR ''=''" a "quote # b" p "CHR ''_'' # r"] by simp
qed

lemma boundary_in: "sublist ''=_'' (''--'' @ mixed_boundary ce)"
proof -
  have "''--'' @ mixed_boundary ce = ''--'' @ ''=_'' @ ''elvish_mix_'' @ randomHex (ce_boundary ce)"
    by (simp add: mixed_boundary_def)
  then show ?thesis by (metis sublist_appendI)
qed

lemma line_without_boundary: "\<not> sublist ''=_'' l \<Longrightarrow> \<not> sublist (''--'' @ mixed_boundary ce) l"
  using boundary_in sublist_order.order_trans by blast

lemma block_without_boundary:
  assumes "\<forall>f \<in> set fs. \<not> sublist ''=_'' (field (fst f) (snd f))" and "fs \<noteq> []"
    and "\<not> sublist (''--'' @ mixed_boundary ce) t"
  shows "\<not> sublist (''--'' @ mixed_boundary ce) (lf # (block fs @ lf # lf # t) @ [lf])"
proof -
  let ?sep = "''--'' @ mixed_boundary ce"
  have sep: "lf \<notin> set ?sep" "?sep \<noteq> []" using boundary_free(1) [of ce] by (auto simp: special_chars)
  have across: "sublist ?sep (x @ lf # y) \<Longrightarrow> sublist ?sep x \<or> sublist ?sep y" for x y
    by (rule sublist_across_break [OF sep(1)])
  have "\<not> sublist ?sep (block fs)" using assms(1,2)
    unfolding block_def
  proof (induction fs)
    case (Cons f fs)
    then have "\<not> sublist ?sep (field (fst f) (snd f))" by (intro line_without_boundary) simp
    then show ?case using Cons across [of "field (fst f) (snd f)" "join [lf] (map (\<lambda>(n, v). field n v) fs)"]
      by (cases fs) (auto simp: case_prod_unfold)
  qed simp
  then show ?thesis
    using assms(3) sep(2) across [of "[]" "(block fs @ lf # lf # t) @ [lf]"] across [of "block fs" "(lf # t) @ [lf]"]
      across [of "[]" "t @ [lf]"] across [of t "[]"]
    by auto
qed

section \<open>Cleaning the parts\<close>

lemma trim_end_append: "\<not> list_all is_space v \<Longrightarrow> trim_end (u @ v) = u @ trim_end v"
proof -
  assume "\<not> list_all is_space v"
  then obtain c where "c \<in> set (rev v)" "\<not> is_space c" by (auto simp: list_all_iff)
  then have "dropWhile is_space (rev v @ rev u) = dropWhile is_space (rev v) @ rev u" by (rule dropWhile_append1)
  then show ?thesis by (simp add: trim_end_def)
qed

lemma trim_end_spaces: "list_all is_space w \<Longrightarrow> trim_end (v @ w) = trim_end v"
  by (simp add: trim_end_def list_all_iff) (subst dropWhile_append2; simp)

lemma trim_end_last: "v \<noteq> [] \<Longrightarrow> \<not> is_space (last v) \<Longrightarrow> trim_end v = v"
  by (cases v rule: rev_cases) (auto simp: trim_end_def)

lemma suffix_behind: "c \<notin> set m \<Longrightarrow> suffix m (a @ c # b) \<longleftrightarrow> suffix m b"
  by (auto simp: suffix_append suffix_Cons)

lemma raw_part_trimmed:
  assumes "h \<noteq> []" and "\<not> is_space (hd h)" and "\<not> list_all is_space t"
  shows "trim ((lf # (h @ lf # lf # t) @ [lf]) @ [lf]) = h @ lf # lf # trim_end t"
proof -
  have sp: "is_space lf" by code_simp
  have "trim_start ((lf # (h @ lf # lf # t) @ [lf]) @ [lf]) = (h @ [lf, lf]) @ t @ [lf, lf]"
    using assms(1,2) sp by (cases h) (auto simp: trim_start_def)
  then show ?thesis
    using trim_end_append [of "t @ [lf, lf]" "h @ [lf, lf]"] trim_end_spaces [of "[lf, lf]" t] assms(3) sp
    by (simp add: trim_def)
qed

lemma clean_kept:
  assumes "h \<noteq> []" and "\<not> is_space (hd h)" and "\<not> list_all is_space t" and "\<not> endsWith (trim_end t) ''--''"
  shows "clean_part ((lf # (h @ lf # lf # t) @ [lf]) @ [lf]) = Some (h @ lf # lf # trim_end t)"
proof -
  have "lf \<notin> set ''--''" by (simp add: special_chars)
  then have "\<not> endsWith (h @ lf # lf # trim_end t) ''--''"
    using assms(4) suffix_behind [of lf "''--''" "h @ [lf]" "trim_end t"] by (simp add: endsWith_def)
  moreover from this have "h @ lf # lf # trim_end t \<noteq> ''--''" by (auto simp: endsWith_def)
  ultimately show ?thesis unfolding clean_part_def raw_part_trimmed [OF assms(1-3)] Let_def by simp
qed

lemma slice_minus_two: "slice 0 (-2) (x @ ''--'') = x"
  by (simp add: slice_def slice_pos_def)

lemma clean_cut:
  assumes "h \<noteq> []" and "\<not> is_space (hd h)" and "j \<noteq> []" and "\<not> is_space (last j)"
  shows "clean_part ((lf # (h @ lf # lf # j @ ''--'') @ [lf]) @ [lf]) = Some (h @ lf # lf # j)"
proof -
  have dash: "\<not> is_space (CHR ''-'')" by code_simp
  have t: "trim ((lf # (h @ lf # lf # j @ ''--'') @ [lf]) @ [lf]) = h @ lf # lf # j @ ''--''"
    using raw_part_trimmed [OF assms(1,2), of "j @ ''--''"] trim_end_last [of "j @ ''--''"] dash by simp
  have "endsWith (h @ lf # lf # j @ ''--'') ''--''"
    unfolding endsWith_def by (rule suffixI [of _ "h @ lf # lf # j"]) simp
  moreover have "slice 0 (-2) ((h @ lf # lf # j) @ ''--'') = h @ lf # lf # j" by (rule slice_minus_two)
  moreover have "trim (h @ lf # lf # j) = h @ lf # lf # j" using assms by (intro trim_tidy) auto
  moreover have "h @ lf # lf # j @ ''--'' \<noteq> ''--''" using assms(1) by (cases h) auto
  ultimately show ?thesis unfolding clean_part_def t Let_def by simp
qed

lemma clean_final: "clean_part [] = None" "clean_part (''--'' @ [lf]) = None"
  by code_simp+

section \<open>Reading the parts\<close>

lemma part_headers_block:
  assumes "fs \<noteq> []" and "\<forall>f \<in> set fs. field_ok f"
  shows "part_headers (block fs @ lf # lf # t) = Some (fold put_field fs [], t)"
proof -
  note blk = block_message [OF assms]
  have "parseHeaderBlock (block fs) = Some (fold put_field fs [])"
    unfolding parseHeaderBlock_def block_def by (rule parse_fields [OF assms])
  then show ?thesis
    using blk(2) [of t] blk(3) by (simp add: part_headers_def Let_def slice_head slice_behind_blank)
qed

lemma text_fields_ok: "\<forall>f \<in> set text_fields. field_ok f" "distinct (map (\<lambda>f. toLowerCase (fst f)) text_fields)"
proof -
  have "list_all field_ok text_fields" by code_simp
  then show "\<forall>f \<in> set text_fields. field_ok f" by (simp add: list_all_iff)
  show "distinct (map (\<lambda>f. toLowerCase (fst f)) text_fields)" by code_simp
qed

lemma text_entity:
  "app_entity_body env nested (fold put_field text_fields []) t =
   Inr \<lparr>me_bodyText = t, me_bodyHtml = [], me_bodyScore = (if trim t = [] then 0 else 3), me_attachments = []\<rparr>"
proof (rule plain_part)
  have "header_value (fold put_field text_fields []) ''content-type'' = dropWhile is_space plain_type"
    by (rule header_value_field [OF text_fields_ok(2), of "''Content-Type''"]) (simp_all add: text_fields_def lower_names)
  then show "header_value (fold put_field text_fields []) ''content-type'' = plain_type" by (simp add: plain_tail_ok(3))
  show "header_value (fold put_field text_fields []) ''content-disposition'' = []"
    "header_value (fold put_field text_fields []) ''content-transfer-encoding'' = ''8bit''" by code_simp+
qed

lemma key_filename:
  assumes "quote \<notin> set fn" and "fn \<noteq> []"
  shows "part_filename (''attachment; filename='' @ quoted fn) ct = fn"
proof -
  have "takeWhile (\<lambda>c. c \<noteq> quote) (fn @ [quote]) = fn" using assms(1) by (subst takeWhile_append2) auto
  then have "param_at ''filename='' (''filename='' @ quoted fn) = Some fn"
    using assms(2) by (simp add: param_at_def quoted_def toLowerCase_def lower_char_def code_unit_def)
  then have "find_param ''filename='' (''attachment; filename='' @ quoted fn) = Some fn"
    by (simp add: param_at_def toLowerCase_def lower_char_def code_unit_def char_of_eq_iff)
  then show ?thesis by (simp add: part_filename_def)
qed

lemma key_entity:
  assumes "quote \<notin> set fn" and "fn \<noteq> []"
  shows "app_entity_body env nested (fold put_field (key_fields fn) []) t =
    Inr (empty_entity\<lparr>me_attachments :=
      [\<lparr>at_fileName = fn, at_contentType = ''application/pgp-keys'', at_bytes = map byte_of_char t\<rparr>]\<rparr>)"
proof -
  let ?hs = "fold put_field (key_fields fn) []"
  have dist: "distinct (map (\<lambda>f. toLowerCase (fst f)) (key_fields fn))" by (simp add: key_fields_def lower_names)
  have first: "dropWhile is_space (''application/pgp-keys; name='' @ x) = ''application/pgp-keys; name='' @ x"
      "dropWhile is_space (''attachment; filename='' @ x) = ''attachment; filename='' @ x" "dropWhile is_space ''7bit'' = ''7bit''" for x
    by (simp_all add: is_space_def code_unit_def)
  have hs: "header_value ?hs ''content-type'' = ''application/pgp-keys; name='' @ quoted fn"
      "header_value ?hs ''content-disposition'' = ''attachment; filename='' @ quoted fn"
      "header_value ?hs ''content-transfer-encoding'' = ''7bit''"
    using header_value_field [OF dist, of "''Content-Type''" "''application/pgp-keys; name='' @ quoted fn" "''content-type''" "[]"]
      header_value_field [OF dist, of "''Content-Disposition''" "''attachment; filename='' @ quoted fn" "''content-disposition''" "[]"]
      header_value_field [OF dist, of "''Content-Transfer-Encoding''" "''7bit''" "''content-transfer-encoding''" "[]"]
    unfolding first lower_names by (simp_all add: key_fields_def)
  have kind: "media_type (''application/pgp-keys; name='' @ quoted fn) = ''application/pgp-keys''"
    by (simp add: media_type_def) code_simp
  have "is_attachment ''application/pgp-keys'' disp fn" for disp
    using assms(2) by (simp add: is_attachment_def startsWith_def)
  moreover have "toLowerCase (trim ''7bit'') = ''7bit''" by code_simp
  ultimately show ?thesis
    unfolding app_entity_body_def Let_def hs kind key_filename [OF assms] app_decodeAttachmentBytes_def using assms(2) by simp
qed

section \<open>What arrives\<close>

text \<open>A key that is one armored block.\<close>

definition armored_key :: "string \<Rightarrow> string \<Rightarrow> bool" where
  "armored_key a inner = (a = BEGIN_KEY @ inner @ END_KEY \<and> CHR ''-'' \<notin> set inner)"

text \<open>What is left of it: the last line lacks two of its dashes.\<close>

definition cut_end :: string where
  "cut_end = ''-----END PGP PUBLIC KEY BLOCK---''"

lemma key_text_armored:
  assumes "armored_key (trim (pf_senderArmored m)) inner"
  obtains inner' where "replace_crlf (key_text m) = BEGIN_KEY @ inner' @ END_KEY"
    and "set inner' \<subseteq> set inner \<union> {cr_char, lf}"
proof -
  have nb: "no_breaks BEGIN_KEY" "no_breaks END_KEY" "hd END_KEY \<noteq> lf"
    by (simp_all add: BEGIN_KEY_def END_KEY_def no_breaks_def special_chars)
  have "normalizeCRLF (inner @ END_KEY) = normalizeCRLF inner @ END_KEY"
    using normalizeCRLF_append [of END_KEY inner] normalizeCRLF_line [OF nb(2)] nb(3) by simp
  moreover have "normalizeCRLF (BEGIN_KEY @ t) = BEGIN_KEY @ normalizeCRLF t" for t
    using nb(1) normalizeCRLF_line [OF nb(1)]
    by (simp add: no_breaks_def normalizeCRLF_def replace_crlf_append replace_crlf_id cr_to_lf_def lf_to_crlf_def)
  ultimately have norm: "normalizeCRLF (trim (pf_senderArmored m)) = BEGIN_KEY @ normalizeCRLF inner @ END_KEY"
    using assms by (simp add: armored_key_def)
  have "\<not> suffix crlf ((BEGIN_KEY @ normalizeCRLF inner) @ END_KEY)"
    by (simp add: END_KEY_def crlf_def special_chars suffix_append suffix_Cons)
  then have "key_text m = BEGIN_KEY @ normalizeCRLF inner @ END_KEY"
    by (simp add: key_text_def norm strip_final_crlf_def endsWith_def)
  moreover have "replace_crlf (normalizeCRLF inner @ END_KEY) = replace_crlf (normalizeCRLF inner) @ END_KEY"
    using replace_crlf_snoc [of END_KEY "normalizeCRLF inner"] nb by (simp add: no_breaks_def replace_crlf_id)
  ultimately have "replace_crlf (key_text m) = BEGIN_KEY @ replace_crlf (normalizeCRLF inner) @ END_KEY"
    using nb(1) by (simp add: no_breaks_def replace_crlf_append)
  moreover have "set (replace_crlf s) \<subseteq> set s \<union> {lf}" for s by (induction s rule: replace_crlf.induct) auto
  then have "set (replace_crlf (normalizeCRLF inner)) \<subseteq> set inner \<union> {cr_char, lf}"
    using set_normalizeCRLF [of inner] by blast
  ultimately show thesis by (rule that)
qed

lemma mixed_split:
  assumes "\<not> list_all is_space body" and "\<not> endsWith (trim_end body) ''--''" and "j \<noteq> []" and "\<not> is_space (last j)"
    and "\<not> sublist (''--'' @ mixed_boundary ce) body" and "\<not> sublist (''--'' @ mixed_boundary ce) (j @ ''--'')"
    and "CHR ''='' \<notin> set fn" and "no_breaks fn"
  defines "sep \<equiv> ''--'' @ mixed_boundary ce"
  shows "splitMultipartBody
      (sep @ (lf # text_part body @ [lf]) @ lf # sep @ (lf # key_part fn (j @ ''--'') @ [lf]) @ lf # sep @ ''--'' @ [lf]) (mixed_boundary ce)
    = [text_part (trim_end body), key_part fn j]"
proof -
  have sep: "lf \<notin> set sep" "sep \<noteq> []" using boundary_free(1) [of ce] by (auto simp: sep_def special_chars)
  have "list_all (\<lambda>f. find_sub ''=_'' (field (fst f) (snd f)) = None) text_fields" by code_simp
  then have "\<forall>f \<in> set text_fields. \<not> sublist ''=_'' (field (fst f) (snd f))" by (simp add: list_all_iff find_sub_None)
  then have free1: "\<not> sublist sep (lf # text_part body @ [lf])"
    using block_without_boundary [of text_fields ce body] assms(5) by (simp add: sep_def text_part_def text_fields_def)
  have q: "CHR ''='' \<notin> set (fn @ [quote])" using assms(7) by (simp add: special_chars)
  have line: "\<not> sublist ''=_'' (x @ CHR ''='' # quote # fn @ [quote])" if "CHR ''='' \<notin> set x" for x
    by (rule sublist_after_equals [OF that q])
  have eqs: "field ''Content-Type'' (''application/pgp-keys; name='' @ quoted fn)
        = ''Content-Type: application/pgp-keys; name'' @ CHR ''='' # quote # fn @ [quote]"
      "field ''Content-Disposition'' (''attachment; filename='' @ quoted fn)
        = ''Content-Disposition: attachment; filename'' @ CHR ''='' # quote # fn @ [quote]"
    by (simp_all add: field_def quoted_def)
  have "\<not> sublist ''=_'' (field ''Content-Type'' (''application/pgp-keys; name='' @ quoted fn))"
      "\<not> sublist ''=_'' (field ''Content-Disposition'' (''attachment; filename='' @ quoted fn))"
    unfolding eqs by (rule line, simp)+
  moreover have "\<not> sublist ''=_'' (field ''Content-Transfer-Encoding'' ''7bit'')" unfolding find_sub_None [symmetric] by code_simp
  ultimately have "\<forall>f \<in> set (key_fields fn). \<not> sublist ''=_'' (field (fst f) (snd f))"
    unfolding key_fields_def by (simp only: list.set ball_simps insert_iff fst_conv snd_conv simp_thms empty_iff)
  then have free2: "\<not> sublist sep (lf # key_part fn (j @ ''--'') @ [lf])"
    using block_without_boundary [of "key_fields fn" ce "j @ ''--''"] assms(6) by (simp add: sep_def key_part_def key_fields_def)
  have "sublist sep x \<Longrightarrow> length sep \<le> length x" for x by (simp add: sublist_length_le)
  then have free3: "\<not> sublist sep (''--'' @ [lf])" by (auto simp: sep_def mixed_boundary_def dest: sublist_length_le)
  have parts: "split_str sep (sep @ (lf # text_part body @ [lf]) @ lf # sep @ (lf # key_part fn (j @ ''--'') @ [lf]) @ lf # sep @ ''--'' @ [lf])
      = [[], (lf # text_part body @ [lf]) @ [lf], (lf # key_part fn (j @ ''--'') @ [lf]) @ [lf], ''--'' @ [lf]]"
    by (simp only: split_at_start [OF sep(2)] split_behind_lf [OF sep free1] split_behind_lf [OF sep free2] split_none [OF free3])
  have start: "block text_fields \<noteq> []" "\<not> is_space (hd (block text_fields))" by code_simp+
  have kstart: "block (key_fields fn) \<noteq> []" "\<not> is_space (hd (block (key_fields fn)))"
    by (simp_all add: block_def key_fields_def field_def is_space_def code_unit_def)
  have "clean_part ((lf # text_part body @ [lf]) @ [lf]) = Some (text_part (trim_end body))"
    unfolding text_part_def by (rule clean_kept [OF start assms(1,2)])
  moreover have "clean_part ((lf # key_part fn (j @ ''--'') @ [lf]) @ [lf]) = Some (key_part fn j)"
    unfolding key_part_def by (rule clean_cut [OF kstart assms(3,4)])
  ultimately show ?thesis
    unfolding splitMultipartBody_def sep_def [symmetric] parts by (simp add: List.map_filter_def clean_final [simplified])
qed

text \<open>The two parts as they are read, one after the other.\<close>

definition arrived :: "string \<Rightarrow> string \<Rightarrow> string \<Rightarrow> mime_entity" where
  "arrived body fn key =
     \<lparr>me_bodyText = body, me_bodyHtml = [], me_bodyScore = 0,
      me_attachments = [\<lparr>at_fileName = fn, at_contentType = ''application/pgp-keys'', at_bytes = map byte_of_char key\<rparr>]\<rparr>"

lemma dropWhile_keeps: "c \<in> set s \<Longrightarrow> \<not> P c \<Longrightarrow> c \<in> set (dropWhile P s)"
  by (induction s) auto

lemma trim_end_keeps: "\<not> list_all is_space t \<Longrightarrow> trim (trim_end t) \<noteq> []"
proof -
  assume "\<not> list_all is_space t"
  then obtain c where "c \<in> set t" "\<not> is_space c" by (auto simp: list_all_iff)
  then have "c \<in> set (trim (trim_end t))" by (simp add: trim_def trim_end_def trim_start_def dropWhile_keeps)
  then show ?thesis by auto
qed

lemma mixed_entity:
  assumes "header_value hs ''content-type'' = mixed_type (mixed_boundary ce)" and "header_value hs ''content-disposition'' = []"
    and "splitMultipartBody M (mixed_boundary ce) = [text_part body, key_part fn key]"
    and "trim body \<noteq> []" and "quote \<notin> set fn" and "fn \<noteq> []" and "no_breaks fn"
  shows "app_parseMimeEntity env hs M 0 = Inr ((arrived body fn key)\<lparr>me_bodyScore := 3\<rparr>)"
proof -
  have kind: "media_type (mixed_type b) = ''multipart/mixed''" for b
    by (simp add: media_type_def mixed_type_def) code_simp
  have "\<not> is_attachment ''multipart/mixed'' [] f" for f
  proof -
    have "icontains [] ''attachment'' = False" "startsWith ''multipart/mixed'' ''multipart/'' = True" by code_simp+
    then show ?thesis by (simp add: is_attachment_def)
  qed
  then have "app_parseMimeEntity env hs M 0 =
      read_multipart (app_entity_levels env 7) ''multipart/mixed'' (mixed_type (mixed_boundary ce)) (mixed_boundary ce) M"
    unfolding app_parse_at app_entity_body_def Let_def assms(1,2) kind mixed_type_boundary by (simp add: startsWith_def)
  also have "\<dots> = read_parts (app_entity_levels env 7) [text_part body, key_part fn key] empty_entity"
    unfolding read_multipart_def Let_def assms(3) by simp
  also have "\<dots> = Inr ((arrived body fn key)\<lparr>me_bodyScore := 3\<rparr>)"
  proof -
    have lv: "app_entity_levels env 7 = app_entity_body env (Some (app_entity_levels env 6))"
      using app_entity_levels.simps(2) [of env 6] by simp
    have p1: "part_headers (text_part body) = Some (fold put_field text_fields [], body)"
      unfolding text_part_def by (rule part_headers_block [OF _ text_fields_ok(1)]) (simp add: text_fields_def)
    have p2: "part_headers (key_part fn key) = Some (fold put_field (key_fields fn) [], key)"
      unfolding key_part_def by (rule part_headers_block [OF _ key_fields_ok [OF assms(7)]]) (simp add: key_fields_def)
    show ?thesis
      unfolding lv read_parts.simps p1 p2 option.case prod.case text_entity key_entity [OF assms(5,6)]
      using assms(4) by (simp add: merge_child_def empty_entity_def arrived_def)
  qed
  finally show ?thesis .
qed

lemma mixed_message_read:
  assumes "clean_form ce m" and "want_attach m" and "length (block (form_fields ce m @ mixed_tail (mixed_boundary ce))) \<le> 32768"
    and "\<not> list_all is_space (replace_crlf (pf_body m))" and "\<not> endsWith (trim_end (replace_crlf (pf_body m))) ''--''"
    and "\<not> sublist (''--'' @ mixed_boundary ce) (replace_crlf (pf_body m))"
    and "replace_crlf (key_text m) = j @ ''--''" and "j \<noteq> []" and "\<not> is_space (last j)"
    and "\<not> sublist (''--'' @ mixed_boundary ce) (j @ ''--'')"
  defines "e \<equiv> arrived (trim_end (replace_crlf (pf_body m))) (publicKeyAscFilename (pf_from m)) j"
  obtains t where "utf8_decode (inner_message ce m) = Some t" and "extractDisplayEnvelope env t = Inr e"
    and "extractDecryptedMessageMetadata env t (Some e) = Inr (Some (composed_metadata m e))"
proof -
  define b where "b = mixed_boundary ce"
  define fn where "fn = publicKeyAscFilename (pf_from m)"
  define fs where "fs = form_fields ce m @ mixed_tail b"
  define hs where "hs = fold put_field fs []"
  define M where "M = replace_crlf (join crlf (mixed_lines b (pf_body m) fn (key_text m)))"
  define t where "t = join crlf (map (\<lambda>(n, v). field n v) fs) @ crlf @ crlf @ join crlf (mixed_lines b (pf_body m) fn (key_text m))"
  have nb: "no_breaks b" using boundary_free [of ce] by (simp add: b_def no_breaks_def)
  note fn = filename_free [of "pf_from m", folded fn_def]
  have fs: "fs \<noteq> []" "\<forall>f \<in> set fs. field_ok f" "2 \<le> length (filter (\<lambda>f. toLowerCase (fst f) \<in> set known_headers) fs)"
    using form_fields_ok [OF assms(1)] mixed_tail_ok(2) [OF nb] by (auto simp: fs_def mixed_tail_def)
  have t: "replace_crlf t = block fs @ lf # lf # M" unfolding t_def M_def by (rule block_message(1) [OF fs(1,2)])
  have "(''MIME-Version'', ''1.0'') \<in> set (mixed_tail b)" "(''Content-Type'', mixed_type b) \<in> set (mixed_tail b)"
    "dropWhile is_space (mixed_type b) = mixed_type b"
    by (simp_all add: mixed_tail_def mixed_type_def is_space_def code_unit_def)
  then have hs: "header_value hs ''content-type'' = mixed_type b" "header_value hs ''content-disposition'' = []"
    unfolding hs_def fs_def
    using tail_value [OF mixed_tail_ok(1), of "''Content-Type''" "mixed_type b" b "''content-type''" ce m]
      tail_absent [of "''content-disposition''" "mixed_tail b" ce m]
    by (simp_all add: lower_names mixed_tail_def del: fold_append)
  have "splitMultipartBody M b = [text_part (trim_end (replace_crlf (pf_body m))), key_part fn j]"
    unfolding M_def b_def mixed_body_lines [OF boundary_free(2) key_fields_ok [OF fn(3)]] assms(7)
    using mixed_split [OF assms(4,5,8,9,6,10) fn(1,3)] by simp
  then have parsed: "app_parseMimeEntity env hs M 0 = Inr (e\<lparr>me_bodyScore := 3\<rparr>)"
    unfolding e_def fn_def [symmetric] b_def
    by (intro mixed_entity [OF hs [unfolded b_def] _ trim_end_keeps [OF assms(4)] fn(2,4,3)])
  note read = read_message [OF fs(1,2) t fs(3), folded hs_def]
  have "extractDisplayEnvelope env t = Inr e"
    using read(1) [OF assms(3) [folded b_def, folded fs_def] parsed] by (simp add: e_def arrived_def)
  moreover have "extractDecryptedMessageMetadata env t (Some e) = Inr (Some (composed_metadata m e))"
    using read(2) composed_metadata_read [OF assms(1) mixed_tail_ok(1)] by (simp add: hs_def fs_def)
  moreover have "utf8_decode (inner_message ce m) = Some t"
    unfolding mixed_message [OF assms(2)] t_def fs_def b_def fn_def by (rule utf8.dec_enc) simp
  ultimately show thesis using that by blast
qed

section \<open>The key is lost\<close>

lemma no_end_key:
  assumes "CHR ''-'' \<notin> set inner"
  shows "find_sub END_KEY (inner @ cut_end) = None"
proof (rule ccontr)
  assume "find_sub END_KEY (inner @ cut_end) \<noteq> None"
  then have "sublist END_KEY (inner @ cut_end)" by (simp add: find_sub_None)
  then obtain p r where eq: "inner @ cut_end = p @ END_KEY @ r" by (auto simp: sublist_def)
  have len: "length END_KEY = length cut_end + 2" by (simp add: END_KEY_def cut_end_def)
  then have "length p < length inner" using arg_cong [OF eq, of length] by simp
  then have "inner ! length p = (p @ END_KEY @ r) ! length p" using eq by (metis nth_append)
  also have "\<dots> = CHR ''-''" by (simp add: END_KEY_def)
  finally show False using assms \<open>length p < length inner\<close> by (metis nth_mem)
qed

lemma cut_key_blocks:
  assumes "CHR ''-'' \<notin> set inner"
  shows "key_blocks (BEGIN_KEY @ inner @ cut_end) = []"
proof -
  have "find_sub BEGIN_KEY (BEGIN_KEY @ inner @ cut_end) = Some 0" by (simp add: BEGIN_KEY_def)
  then show ?thesis by (subst key_blocks.simps) (simp add: no_end_key [OF assms])
qed

lemma ascii_utf8: "list_all (\<lambda>c. code_unit c < 128) s \<Longrightarrow> utf8_encode s = map byte_of_char s"
  by (induction s) (simp_all add: utf8_encode_def utf8_char_def byte_of_char_def Let_def)

text \<open>
  C38. A key that travels with a message does not arrive. The reader shows the text of the message, up to
  white space at its end, finds the header fields and one attachment, but the keys it takes from the
  attachments are none: cleaning the parts has cut the last two dashes off the end line of the armor.
\<close>

theorem attached_key_lost:
  assumes "clean_form ce m" and "want_attach m" and "length (block (form_fields ce m @ mixed_tail (mixed_boundary ce))) \<le> 32768"
    and "armored_key (trim (pf_senderArmored m)) inner" and "list_all (\<lambda>c. code_unit c < 128) inner"
    and "\<forall>s. ap_td env (utf8_encode s) = s"
    and "\<not> list_all is_space (replace_crlf (pf_body m))" and "\<not> endsWith (trim_end (replace_crlf (pf_body m))) ''--''"
    and "\<not> sublist (''--'' @ mixed_boundary ce) (replace_crlf (pf_body m))"
    and "\<not> sublist (''--'' @ mixed_boundary ce) (replace_crlf (key_text m))"
  shows "\<exists>t e. utf8_decode (inner_message ce m) = Some t \<and> extractDisplayEnvelope env t = Inr e
    \<and> me_bodyText e = trim_end (replace_crlf (pf_body m))
    \<and> extractDecryptedMessageMetadata env t (Some e) = Inr (Some (composed_metadata m e))
    \<and> map at_fileName (me_attachments e) = [publicKeyAscFilename (pf_from m)]
    \<and> extractPublicKeysFromMimeAttachments env (me_attachments e) = []"
proof -
  obtain inner' where inner': "replace_crlf (key_text m) = BEGIN_KEY @ inner' @ END_KEY" "set inner' \<subseteq> set inner \<union> {cr_char, lf}"
    by (rule key_text_armored [OF assms(4)])
  define j where "j = BEGIN_KEY @ inner' @ cut_end"
  have j: "replace_crlf (key_text m) = j @ ''--''" "j \<noteq> []" "\<not> is_space (last j)"
    by (simp_all add: inner'(1) j_def END_KEY_def cut_end_def is_space_def code_unit_def)
  have "CHR ''-'' \<notin> set inner'" using assms(4) inner'(2) by (auto simp: armored_key_def special_chars)
  then have blocks: "key_blocks j = []" unfolding j_def by (rule cut_key_blocks)
  have "list_all (\<lambda>c. code_unit c < 128) (BEGIN_KEY @ cut_end @ [cr_char, lf])" by code_simp
  then have "list_all (\<lambda>c. code_unit c < 128) j" using assms(5) inner'(2) by (auto simp: j_def list_all_iff)
  then have dec: "ap_td env (map byte_of_char j) = j" using ascii_utf8 assms(6) by metis
  define e where "e = arrived (trim_end (replace_crlf (pf_body m))) (publicKeyAscFilename (pf_from m)) j"
  have "extractPublicKeysFromMimeAttachments env (me_attachments e) = []"
    by (simp add: e_def arrived_def extractPublicKeysFromMimeAttachments_def add_key_blocks_def Let_def dec blocks)
  moreover obtain t where "utf8_decode (inner_message ce m) = Some t" "extractDisplayEnvelope env t = Inr e"
      "extractDecryptedMessageMetadata env t (Some e) = Inr (Some (composed_metadata m e))"
    unfolding e_def by (rule mixed_message_read [OF assms(1-3,7-9) j assms(10) [unfolded j(1)]])
  ultimately show ?thesis by (auto simp: e_def arrived_def)
qed

definition demo_key_form :: pgp_form where
  "demo_key_form = demo_plain_form\<lparr>pf_attachPublicKey := True, pf_senderArmored := BEGIN_KEY @ [lf] @ ''abc='' @ [lf] @ END_KEY\<rparr>"

theorem attached_key_lost_witness:
  "\<exists>t e. utf8_decode (inner_message demo_compose demo_key_form) = Some t \<and> extractDisplayEnvelope demo_reader t = Inr e
     \<and> me_bodyText e = ''Hi'' @ [lf] @ ''Bob'' \<and> map at_fileName (me_attachments e) = [''public-a_x.org.asc'']
     \<and> extractPublicKeysFromMimeAttachments demo_reader (me_attachments e) = []"
proof -
  let ?m = demo_key_form and ?ce = demo_compose
  have h: "clean_form ?ce ?m" "want_attach ?m" "length (block (form_fields ?ce ?m @ mixed_tail (mixed_boundary ?ce))) \<le> 32768"
    "\<not> list_all is_space (replace_crlf (pf_body ?m))" "\<not> endsWith (trim_end (replace_crlf (pf_body ?m))) ''--''" by code_simp+
  have s: "find_sub (''--'' @ mixed_boundary ?ce) (replace_crlf (pf_body ?m)) = None"
    "find_sub (''--'' @ mixed_boundary ?ce) (replace_crlf (key_text ?m)) = None" by code_simp+
  have key: "armored_key (trim (pf_senderArmored ?m)) ([lf] @ ''abc='' @ [lf])" "list_all (\<lambda>c. code_unit c < 128) ([lf] @ ''abc='' @ [lf])"
    by code_simp+
  have td: "\<forall>s. ap_td demo_reader (utf8_encode s) = s" using greedy_reads_utf8 by (simp add: demo_reader_def reads_utf8_def)
  have res: "trim_end (replace_crlf (pf_body ?m)) = ''Hi'' @ [lf] @ ''Bob''" "publicKeyAscFilename (pf_from ?m) = ''public-a_x.org.asc''"
    by code_simp+
  from attached_key_lost [OF h(1-3) key td h(4,5) s [unfolded find_sub_None]] show ?thesis
    unfolding res by (elim exE conjE) (intro exI conjI)
qed

end
