(* ===== verification/Reply_Draft.thy ===== *)
theory Reply_Draft
  imports Message_View
begin

text \<open>
  \<^verbatim>\<open>static/mail/mail-app.jsx\<close>, the draft of a reply: subject, quotation, thread references and recipients.
  A message is the row of the manifest with what was recovered of its header, a JSON value.
\<close>

section \<open>Definitions\<close>

definition re_prefix :: "string \<Rightarrow> bool" where
  "re_prefix s = (toLowerCase (take 3 s) = ''re:'')"

definition replySubjectLine :: "jsval \<Rightarrow> string" where
  "replySubjectLine subj =
     (let s = trim (str_or_empty subj) in
      if s = [] then ''Re: '' else if re_prefix s then s else ''Re: '' @ s)"

text \<open>The three replacements one after the other.\<close>

definition replace_char :: "char \<Rightarrow> string \<Rightarrow> string \<Rightarrow> string" where
  "replace_char c r s = concat (map (\<lambda>x. if x = c then r else [x]) s)"

definition escape_html :: "string \<Rightarrow> string" where
  "escape_html s = replace_char (CHR ''>'') ''&gt;'' (replace_char (CHR ''<'') ''&lt;'' (replace_char (CHR ''&'') ''&amp;'' s))"

definition formatQuotedReplyBodyHtml :: "string \<Rightarrow> string" where
  "formatQuotedReplyBodyHtml plain =
     (let t = trim_end plain in
      if t = [] then ''<p><br></p>''
      else ''<p><br></p><blockquote>'' @ join ''<br>'' (map escape_html (split_str [lf] t)) @ ''</blockquote>'')"

text \<open>\<open>s.trim().split(/\s+/).filter(Boolean)\<close>.\<close>

function words :: "string \<Rightarrow> string list" where
  "words s =
     (let r = dropWhile is_space s in
      if r = [] then [] else takeWhile (\<lambda>c. \<not> is_space c) r # words (dropWhile (\<lambda>c. \<not> is_space c) r))"
  by pat_completeness auto
termination
proof (relation "measure length", goal_cases)
  case (2 s r)
  then have "r \<noteq> []" "\<not> is_space (hd r)" using hd_dropWhile by blast+
  then have "length (dropWhile (\<lambda>c. \<not> is_space c) r) < length r"
    by (cases r) (auto simp: less_Suc_eq_le length_dropWhile_le)
  moreover have "length r \<le> length s" using 2(1) length_dropWhile_le by blast
  ultimately show ?case by simp
qed simp

declare words.simps [simp del]

definition reply_tokens :: "jsval \<Rightarrow> string list" where
  "reply_tokens message =
     (let tokens = words (str_or_empty (getp message ''references''));
          mid = trim (str_or_empty (getp message ''rfc_message_id''))
      in if mid \<noteq> [] \<and> mid \<notin> set tokens then tokens @ [mid] else tokens)"

definition referencesChainForReply :: "jsval \<Rightarrow> string" where
  "referencesChainForReply message =
     (let out = join '' '' (reply_tokens message) in
      if 4000 < length out then trim (drop (length out - 4000) out) else out)"

definition angled :: "string \<Rightarrow> string" where
  "angled s = (if startsWith s ''<'' then s else ''<'' @ s @ ''>'')"

definition inReplyToForReply :: "jsval \<Rightarrow> string" where
  "inReplyToForReply message =
     (let m = trim (str_or_empty (getp message ''rfc_message_id'')); t = trim (str_or_empty (getp message ''thread_id'')) in
      if m \<noteq> [] then angled m else if t = [] then [] else angled t)"

text \<open>The set of the account's own addresses.\<close>

definition own_ids :: "jsval list \<Rightarrow> jsval \<Rightarrow> string list" where
  "own_ids identities accountEmail =
     filter (\<lambda>e. e \<noteq> [])
       (canonicalizeSenderId accountEmail
        # map (\<lambda>i. canonicalizeSenderId (if truthy i then getp i ''email'' else i)) identities)"

definition array_or_empty :: "jsval \<Rightarrow> jsval list" where
  "array_or_empty v = (if isArray v then js_elems v else [])"

definition shown_addresses :: "jsval list \<Rightarrow> string" where
  "shown_addresses ds = join '', '' (filter (\<lambda>s. s \<noteq> []) (map (\<lambda>d. trim (to_string d)) ds))"

text \<open>The loop that collects the copies, with the set \<open>onTo\<close>.\<close>

fun cc_loop :: "string list \<Rightarrow> jsval list \<Rightarrow> string list \<Rightarrow> jsval list \<Rightarrow> jsval list" where
  "cc_loop self [] onTo ccParts = ccParts"
| "cc_loop self (d # ds) onTo ccParts =
     (let c = canonicalizeSenderId d in
      if c = [] \<or> c \<in> set self \<or> c \<in> set onTo then cc_loop self ds onTo ccParts
      else cc_loop self ds (c # onTo) (ccParts @ [d]))"

definition on_to :: "string \<Rightarrow> string list" where
  "on_to toDisp = filter (\<lambda>c. c \<noteq> []) (map (\<lambda>s. canonicalizeSenderId (JStr s)) (splitMailAddressListHeader toDisp))"

record reply_draft =
  rd_to :: string
  rd_cc :: string
  rd_bcc :: string
  rd_subject :: string
  rd_bodyHtml :: string
  rd_inReplyTo :: string
  rd_references :: string
  rd_showCc :: bool

definition is_outgoing :: "jsval \<Rightarrow> string list \<Rightarrow> bool" where
  "is_outgoing message self =
     (let fromCanon = canonicalizeSenderId (JStr (trim (str_or_empty (getp message ''from_addr'')))) in
      fromCanon \<noteq> [] \<and> fromCanon \<in> set self)"

definition reply_to_text :: "jsval \<Rightarrow> string list \<Rightarrow> string" where
  "reply_to_text message self =
     (let fromDisp = trim (str_or_empty (getp message ''from_addr''));
          replyToRaw = trim (str_or_empty (getp message ''reply_to''))
      in
      if is_outgoing message self then
        (let toDisp = shown_addresses (filter (\<lambda>d. canonicalizeSenderId d \<notin> set self) (array_or_empty (getp message ''to_addrs''))) in
         if toDisp = [] then fromDisp else toDisp)
      else if replyToRaw \<noteq> [] then replyToRaw else fromDisp)"

definition reply_participants :: "jsval \<Rightarrow> string list \<Rightarrow> jsval list" where
  "reply_participants message self =
     (if is_outgoing message self then array_or_empty (getp message ''cc_addrs'')
      else array_or_empty (getp message ''to_addrs'') @ array_or_empty (getp message ''cc_addrs''))"

definition reply_cc :: "jsval \<Rightarrow> string list \<Rightarrow> bool \<Rightarrow> jsval list" where
  "reply_cc message self replyAll =
     (if replyAll then cc_loop self (reply_participants message self) (on_to (reply_to_text message self)) [] else [])"

definition buildReplyComposeDraft :: "jsval \<Rightarrow> jsval list \<Rightarrow> jsval \<Rightarrow> bool \<Rightarrow> reply_draft" where
  "buildReplyComposeDraft message identities accountEmail replyAll =
     (let self = own_ids identities accountEmail in
      \<lparr>rd_to = reply_to_text message self,
       rd_cc = shown_addresses (reply_cc message self replyAll),
       rd_bcc = [],
       rd_subject = replySubjectLine (getp message ''subject''),
       rd_bodyHtml = ''<p><br></p>'',
       rd_inReplyTo = inReplyToForReply message,
       rd_references = referencesChainForReply message,
       rd_showCc = replyAll\<rparr>)"

section \<open>Who gets the reply\<close>

lemma cc_loop_spec:
  "\<exists>new. cc_loop self ds onTo ccParts = ccParts @ new
     \<and> set new \<subseteq> set ds \<and> distinct (map canonicalizeSenderId new)
     \<and> canonicalizeSenderId ` set new = canonicalizeSenderId ` set ds - {[]} - set self - set onTo"
proof (induction ds arbitrary: onTo ccParts)
  case (Cons d ds)
  let ?c = "canonicalizeSenderId d"
  show ?case
  proof (cases "?c = [] \<or> ?c \<in> set self \<or> ?c \<in> set onTo")
    case True
    from Cons.IH [of onTo ccParts] obtain new where "cc_loop self ds onTo ccParts = ccParts @ new"
        "set new \<subseteq> set ds" "distinct (map canonicalizeSenderId new)"
        "canonicalizeSenderId ` set new = canonicalizeSenderId ` set ds - {[]} - set self - set onTo" by blast
    with True show ?thesis by (intro exI [of _ new]) (auto simp: Let_def)
  next
    case False
    from Cons.IH [of "?c # onTo" "ccParts @ [d]"] obtain new where new: "cc_loop self ds (?c # onTo) (ccParts @ [d]) = ccParts @ d # new"
        "set new \<subseteq> set ds" "distinct (map canonicalizeSenderId new)"
        "canonicalizeSenderId ` set new = canonicalizeSenderId ` set ds - {[]} - set self - set (?c # onTo)" by auto
    have "?c \<notin> canonicalizeSenderId ` set new" unfolding new(4) by simp
    with False new show ?thesis by (intro exI [of _ "d # new"]) (auto simp: Let_def)
  qed
qed simp

text \<open>
  A reply to all goes to everybody once: the copies are participants of the message, no two of them
  have the same address, and their addresses are exactly those of the participants that have an address, are
  not the account's own and are not among the recipients the reply goes to already. A reply without
  \<open>replyAll\<close> has no copies, and neither has hidden ones.
\<close>

theorem reply_all_once:
  "let self = own_ids identities accountEmail;
       draft = buildReplyComposeDraft message identities accountEmail;
       others = canonicalizeSenderId ` set (reply_participants message self) - {[]} - set self - set (on_to (rd_to (draft True)))
   in (\<exists>cc. rd_cc (draft True) = shown_addresses cc \<and> distinct (map canonicalizeSenderId cc)
         \<and> set cc \<subseteq> set (reply_participants message self) \<and> canonicalizeSenderId ` set cc = others)
      \<and> rd_cc (draft False) = [] \<and> rd_to (draft False) = rd_to (draft True) \<and> rd_bcc (draft replyAll) = []"
proof -
  let ?self = "own_ids identities accountEmail"
  let ?to = "reply_to_text message ?self"
  obtain cc where "cc_loop ?self (reply_participants message ?self) (on_to ?to) [] = cc"
      "set cc \<subseteq> set (reply_participants message ?self)" "distinct (map canonicalizeSenderId cc)"
      "canonicalizeSenderId ` set cc = canonicalizeSenderId ` set (reply_participants message ?self) - {[]} - set ?self - set (on_to ?to)"
    using cc_loop_spec [of ?self "reply_participants message ?self" "on_to ?to" "[]"] by auto
  then show ?thesis
    by (auto simp: Let_def buildReplyComposeDraft_def reply_cc_def shown_addresses_def intro!: exI [of _ cc])
qed

section \<open>The thread\<close>

lemma words_no_space: "w \<in> set (words s) \<Longrightarrow> w \<noteq> [] \<and> list_all (\<lambda>c. \<not> is_space c) w"
proof (induction s rule: words.induct)
  case (1 s)
  let ?r = "dropWhile is_space s"
  show ?case
  proof (cases "?r = []")
    case True
    with 1 show ?thesis by (simp add: words.simps [of s])
  next
    case False
    have "\<not> is_space (hd ?r)" using False hd_dropWhile by blast
    then have "takeWhile (\<lambda>c. \<not> is_space c) ?r \<noteq> []" using False by (cases ?r) auto
    moreover have "list_all (\<lambda>c. \<not> is_space c) (takeWhile (\<lambda>c. \<not> is_space c) ?r)" by (auto simp: list_all_iff dest: set_takeWhileD)
    moreover have "words s = takeWhile (\<lambda>c. \<not> is_space c) ?r # words (dropWhile (\<lambda>c. \<not> is_space c) ?r)"
      using False by (simp only: words.simps [of s] Let_def if_False)
    ultimately show ?thesis using 1 False by auto
  qed
qed

lemma words_blank: "words (CHR '' '' # s) = words s"
  by (subst (1 2) words.simps) (simp add: is_space_def code_unit_def)

lemma words_word:
  assumes "w \<noteq> []" and "list_all (\<lambda>c. \<not> is_space c) w"
  shows "words (w @ CHR '' '' # s) = w # words s" and "words w = [w]"
proof -
  have sp: "is_space (CHR '' '')" by code_simp
  have drop: "dropWhile is_space (w @ t) = w @ t" for t using assms by (cases w) auto
  have keep: "takeWhile (\<lambda>c. \<not> is_space c) (w @ t) = w @ takeWhile (\<lambda>c. \<not> is_space c) t"
      "dropWhile (\<lambda>c. \<not> is_space c) (w @ t) = dropWhile (\<lambda>c. \<not> is_space c) t" for t
    using assms(2) by (auto simp: list_all_iff takeWhile_append2 dropWhile_append2)
  show "words (w @ CHR '' '' # s) = w # words s"
    using assms(1) sp words_blank by (subst words.simps) (simp add: drop keep)
  show "words w = [w]"
  proof -
    have nil: "dropWhile (\<lambda>c. \<not> is_space c) w = []" "takeWhile (\<lambda>c. \<not> is_space c) w = w" "words [] = []"
      using keep [of "[]"] by (simp_all add: words.simps [of "[]"])
    show ?thesis using assms(1) drop [of "[]"] by (subst words.simps) (simp only: append_Nil2 Let_def if_False nil)
  qed
qed

lemma words_join: "\<forall>w \<in> set ws. w \<noteq> [] \<and> list_all (\<lambda>c. \<not> is_space c) w \<Longrightarrow> words (join '' '' ws) = ws"
proof (induction "'' ''" ws rule: join.induct)
  case 1
  then show ?case by (simp add: words.simps)
qed (auto simp: words_word)

text \<open>
  The references of a reply are never longer than 4000 characters. Up to that length they are the
  references of the message followed by its own id, unless that is among them already; so the reply is
  filed in the thread of the message.
\<close>

theorem references_of_reply:
  "length (referencesChainForReply message) \<le> 4000
   \<and> (let refs = words (str_or_empty (getp message ''references''));
          mid = trim (str_or_empty (getp message ''rfc_message_id''));
          ids = refs @ (if mid \<noteq> [] \<and> mid \<notin> set refs then [mid] else [])
      in length (join '' '' ids) \<le> 4000 \<and> list_all (\<lambda>c. \<not> is_space c) mid
         \<longrightarrow> words (referencesChainForReply message) = ids)"
proof -
  have "length (trim s) \<le> length s" for s
    using length_dropWhile_le [of is_space "rev (dropWhile is_space s)"] length_dropWhile_le [of is_space s]
    by (simp add: trim_def trim_end_def trim_start_def)
  then have "length (trim (drop (length s - 4000) s)) \<le> 4000" for s
    by (rule order_trans) simp
  then have "length (referencesChainForReply message) \<le> 4000" by (simp add: referencesChainForReply_def Let_def)
  moreover have "words (join '' '' (reply_tokens message)) = reply_tokens message"
    if "list_all (\<lambda>c. \<not> is_space c) (trim (str_or_empty (getp message ''rfc_message_id'')))"
    using that words_no_space by (intro words_join) (auto simp: reply_tokens_def Let_def split: if_splits)
  moreover have "reply_tokens message = (let refs = words (str_or_empty (getp message ''references''));
      mid = trim (str_or_empty (getp message ''rfc_message_id'')) in refs @ (if mid \<noteq> [] \<and> mid \<notin> set refs then [mid] else []))"
    by (simp add: reply_tokens_def Let_def)
  ultimately show ?thesis by (simp add: referencesChainForReply_def Let_def)
qed

definition demo_mail :: jsval where
  "demo_mail =
     JObj [(''subject'', JStr ''Lunch''), (''from_addr'', JStr ''Bob <b@y.org>''), (''rfc_message_id'', JStr ''<2@y>''),
           (''references'', JStr ''<0@y>  <1@y>''), (''to_addrs'', JArr [JStr ''a@x.org'', JStr ''c@z.org''])]"

theorem references_of_reply_witness:
  "words (referencesChainForReply demo_mail) = [''<0@y>'', ''<1@y>'', ''<2@y>'']"
proof -
  have "words (str_or_empty (getp demo_mail ''references'')) = [''<0@y>'', ''<1@y>'']"
      "trim (str_or_empty (getp demo_mail ''rfc_message_id'')) = ''<2@y>''" by code_simp+
  moreover have "length (join '' '' [''<0@y>'', ''<1@y>'', ''<2@y>'']) \<le> 4000" "list_all (\<lambda>c. \<not> is_space c) ''<2@y>''" by code_simp+
  ultimately show ?thesis using references_of_reply [of demo_mail] by (simp add: Let_def)
qed

end
