(* ===== verification/Folder_Load.thy ===== *)
theory Folder_Load
  imports Background_Recovery Mail_Delivery Vault_Decrypt
begin

text \<open>
  \<^verbatim>\<open>static/mail/mail-app.jsx\<close>, loading a folder: its rows are fetched, each is completed from the cache and
  from its encrypted header, and the result is shown unless another load was started meanwhile. The
  rows are completed one after the other; the code does it concurrently.
\<close>

section \<open>Completing a row\<close>

definition default_fingerprint :: "jsval list \<Rightarrow> jsval" where
  "default_fingerprint identities =
     getp (case List.find (\<lambda>i. truthy (getp i ''is_default'')) identities of
             Some i \<Rightarrow> i
           | None \<Rightarrow> (case identities of i # _ \<Rightarrow> js_or i (JObj []) | [] \<Rightarrow> JObj [])) ''fingerprint''"

definition header_candidates :: "jsval list \<Rightarrow> jsval list" where
  "header_candidates identities =
     (let fpDefault = default_fingerprint identities in
      filter truthy (fpDefault # filter (\<lambda>f. truthy f \<and> f \<noteq> fpDefault) (map (\<lambda>i. getp i ''fingerprint'') identities)))"

fun decrypt_first :: "vault_env \<Rightarrow> 's server \<Rightarrow> int \<Rightarrow> bytes \<Rightarrow> jsval list \<Rightarrow> vault \<times> 's \<Rightarrow> string option \<times> vault \<times> 's" where
  "decrypt_first env srv now cipher [] st = (None, st)"
| "decrypt_first env srv now cipher (fp # fps) st =
     (case decryptForIdentity env srv now fp cipher st of
        (Inr t, st1) \<Rightarrow> (Some t, st1)
      | (Inl _, st1) \<Rightarrow> decrypt_first env srv now cipher fps st1)"

definition header_text :: "jsval \<Rightarrow> jsval \<Rightarrow> string \<Rightarrow> jsval" where
  "header_text hdr message k =
     (if truthy (getp hdr k) \<and> trim (to_string (getp hdr k)) \<noteq> [] then JStr (trim (to_string (getp hdr k)))
      else js_or (getp message k) (JStr []))"

definition apply_header :: "recover_env \<Rightarrow> jsval \<Rightarrow> jsval \<Rightarrow> jsval" where
  "apply_header env hdr message =
     (let atts = getp hdr ''attachments'' in
      object_spread message
        [(''subject'', text_or (normalizeRecoveredSubject env (getp hdr ''subject'')) (getp message ''subject'')),
         (''from_addr'', text_or (normalizeRecoveredAddress env (getp hdr ''from'')) (getp message ''from_addr'')),
         (''to_addrs'', list_or (meaningful_addresses env (getp hdr ''to'')) (getp message ''to_addrs'')),
         (''cc_addrs'', list_or (meaningful_addresses env (getp hdr ''cc'')) (js_or (getp message ''cc_addrs'') (JArr []))),
         (''rfc_message_id'', header_text hdr message ''rfc_message_id''),
         (''in_reply_to'', header_text hdr message ''in_reply_to''),
         (''references'', header_text hdr message ''references''),
         (''reply_to'', header_text hdr message ''reply_to''),
         (''attachments'', if isArray atts then atts else getp message ''attachments''),
         (''has_attachments'', js_or (getp message ''has_attachments'') (JBool (isArray atts \<and> js_elems atts \<noteq> []))),
         (''preview'', js_or (js_or (getp hdr ''preview'') (getp message ''preview'')) (JStr [])),
         (''headerDecrypted'', JBool True)])"

text \<open>The row as the cache knows it, if it has an entry for this version.\<close>

definition cached_row :: "recover_env \<Rightarrow> bool \<Rightarrow> jsval \<Rightarrow> jsval \<Rightarrow> jsval" where
  "cached_row env ready cachedHeaders m =
     (let cached = unwrapVersionedPayload (getp cachedHeaders (to_string (getp m ''id''))) (JStr (extractVersion m)) in
      if ready \<and> truthy cached then mergeRecoveredMessageData env m (Some (recovered_of_json cached)) else m)"

text \<open>
  The decrypted header is parsed and put into the row, and the row into the cache; a failure of the cache is
  caught when the row is complete already.
\<close>

definition decrypted_row ::
  "recover_env \<Rightarrow> key_env \<Rightarrow> bool \<Rightarrow> string \<Rightarrow> bytes \<Rightarrow> jsval \<Rightarrow> jsval \<Rightarrow> string \<Rightarrow> mail_cache \<Rightarrow> jsval \<times> mail_cache" where
  "decrypted_row re ke ready time nonce m nextMessage dec c =
     (case json_parse dec of
        None \<Rightarrow> (nextMessage, c)
      | Some hdr \<Rightarrow>
          if nullish hdr then (nextMessage, c)
          else
            (let row = apply_header re hdr nextMessage in
             (row, if ready then snd (putHeader ke time nonce (getp m ''id'') (JStr (extractVersion m))
                                        (buildRecoveredHeaderPayload re (Some (recovered_of_json row)) None) c)
                   else c)))"

definition enrich_row ::
  "recover_env \<Rightarrow> key_env \<Rightarrow> vault_env \<Rightarrow> 's server \<Rightarrow> bool \<Rightarrow> int \<Rightarrow> string \<Rightarrow> (jsval \<Rightarrow> bytes) \<Rightarrow> jsval list \<Rightarrow> jsval \<Rightarrow> jsval
   \<Rightarrow> (mail_cache \<times> vault \<times> 's, jsval) io" where
  "enrich_row re ke env srv ready now time nonces identities cachedHeaders m st =
     (if nullish m then (Inl TypeError, st)
      else
        (let nextMessage = cached_row re ready cachedHeaders m; header = getp m ''header_ciphertext_b64'' in
         if \<not> truthy header \<or> \<not> isUnlocked (fst (snd st)) then (Inr nextMessage, st)
         else
           (case base64ToBytes (to_string header) of
              Inl _ \<Rightarrow> (Inr nextMessage, st)
            | Inr cipher \<Rightarrow>
                (case decrypt_first env srv now cipher (header_candidates identities) (snd st) of
                   (None, vs) \<Rightarrow> (Inr nextMessage, (fst st, vs))
                 | (Some dec, vs) \<Rightarrow>
                     if dec = [] then (Inr nextMessage, (fst st, vs))
                     else
                       (case decrypted_row re ke ready time (nonces (getp m ''id'')) m nextMessage dec (fst st) of
                          (row, c) \<Rightarrow> (Inr row, (c, vs)))))))"

fun enrich_rows :: "(jsval \<Rightarrow> ('r, jsval) io) \<Rightarrow> jsval list \<Rightarrow> ('r, jsval list) io" where
  "enrich_rows f [] = returnI []"
| "enrich_rows f (m # ms) = bindI (f m) (\<lambda>row. bindI (enrich_rows f ms) (\<lambda>rows. returnI (row # rows)))"

text \<open>Fetching and completing the rows of a folder.\<close>

definition folder_rows ::
  "recover_env \<Rightarrow> key_env \<Rightarrow> vault_env \<Rightarrow> 's server \<Rightarrow> string \<Rightarrow> bool \<Rightarrow> int \<Rightarrow> string \<Rightarrow> (jsval \<Rightarrow> bytes) \<Rightarrow> jsval list \<Rightarrow> string
   \<Rightarrow> (mail_cache \<times> vault \<times> 's, jsval list) io" where
  "folder_rows re ke env srv origin ready now time nonces identities target =
     bindI (on_rest (on_server (fetchManifests srv origin (Some target) None None))) (\<lambda>j.
     bindI (liftI (getR j ''messages'')) (\<lambda>ms.
     let list = (if isArray ms then js_elems ms else []) in
     bindI (if ready then on_cache (getHeaders ke (JArr (filter truthy (map (\<lambda>m. if truthy m then getp m ''id'' else m) list))))
            else returnI (JObj [])) (\<lambda>cachedHeaders.
     enrich_rows (enrich_row re ke env srv ready now time nonces identities cachedHeaders) list)))"

section \<open>Loads and their answers\<close>

text \<open>
  \<open>folderLoadGenRef\<close> counts the loads. \<open>fl_pending\<close> are those under way, with their folder; \<open>fl_requested\<close> and
  \<open>fl_shown\<close> name the folder last asked for and the one whose answer is shown.
\<close>

record folder_list =
  fl_gen :: nat
  fl_loading :: bool
  fl_messages :: "jsval list"
  fl_hasMail :: bool
  fl_pending :: "(nat \<times> string) list"
  fl_requested :: "string option"
  fl_shown :: "string option"

definition load_started :: "string \<Rightarrow> folder_list \<Rightarrow> folder_list" where
  "load_started target fl =
     fl\<lparr>fl_gen := fl_gen fl + 1, fl_loading := True, fl_pending := (fl_gen fl + 1, target) # fl_pending fl, fl_requested := Some target\<rparr>"

definition mail_gone :: "exn \<Rightarrow> bool" where
  "mail_gone e = (let msg = exn_message e in str_includes msg ''503'' \<or> str_includes msg ''Service'' \<or> str_includes msg ''mail storage'')"

definition load_answered :: "nat \<Rightarrow> string \<Rightarrow> jsval list result \<Rightarrow> folder_list \<Rightarrow> folder_list" where
  "load_answered loadGen target result fl =
     (let fl1 = fl\<lparr>fl_pending := removeAll (loadGen, target) (fl_pending fl)\<rparr> in
      if loadGen \<noteq> fl_gen fl then fl1
      else
        (case result of
           Inr enriched \<Rightarrow> fl1\<lparr>fl_messages := enriched, fl_hasMail := True, fl_loading := False, fl_shown := Some target\<rparr>
         | Inl e \<Rightarrow> fl1\<lparr>fl_messages := [], fl_hasMail := (if mail_gone e then False else fl_hasMail fl), fl_loading := False, fl_shown := Some target\<rparr>))"

inductive load_step :: "folder_list \<Rightarrow> folder_list \<Rightarrow> bool" where
  started: "load_step fl (load_started target fl)"
| answered: "(g, target) \<in> set (fl_pending fl) \<Longrightarrow> load_step fl (load_answered g target result fl)"

definition no_load :: "folder_list \<Rightarrow> bool" where
  "no_load fl = (fl = \<lparr>fl_gen = 0, fl_loading = False, fl_messages = [], fl_hasMail = False, fl_pending = [], fl_requested = None, fl_shown = None\<rparr>)"

definition load_inv :: "folder_list \<Rightarrow> bool" where
  "load_inv fl =
     ((\<forall>(g, t) \<in> set (fl_pending fl). g \<le> fl_gen fl \<and> (g = fl_gen fl \<longrightarrow> Some t = fl_requested fl))
      \<and> distinct (map fst (fl_pending fl))
      \<and> (fl_loading fl \<longleftrightarrow> fl_gen fl \<in> fst ` set (fl_pending fl))
      \<and> (\<not> fl_loading fl \<longrightarrow> fl_shown fl = fl_requested fl))"

lemma load_inv_step:
  assumes "load_inv fl" and "load_step fl fl'"
  shows "load_inv fl'"
  using assms(2)
proof cases
  case (started target)
  have "fl_gen fl + 1 \<notin> fst ` set (fl_pending fl)" using assms(1) by (auto simp: load_inv_def)
  with assms(1) started show ?thesis by (auto simp: load_inv_def load_started_def)
next
  case (answered g target result)
  have dist: "distinct (map fst (fl_pending fl))" using assms(1) by (simp add: load_inv_def)
  have unique: "t = target" if "(g, t) \<in> set (fl_pending fl)" for t
    using dist that answered(2) by (metis eq_key_imp_eq_value)
  have keys: "fst ` set (removeAll (g, target) (fl_pending fl)) = fst ` set (fl_pending fl) - {g}"
    using unique by force
  have dist': "distinct (map fst (removeAll (g, target) (fl_pending fl)))"
    using dist by (simp add: removeAll_filter_not_eq distinct_map_filter)
  have old: "\<forall>(g', t) \<in> set (removeAll (g, target) (fl_pending fl)). g' \<le> fl_gen fl \<and> (g' = fl_gen fl \<longrightarrow> Some t = fl_requested fl)"
    using assms(1) by (auto simp: load_inv_def)
  show ?thesis
  proof (cases "g = fl_gen fl")
    case True
    then have "fl_requested fl = Some target" using answered(2) assms(1) by (auto simp: load_inv_def)
    with True answered(1) old dist' keys show ?thesis by (auto simp: load_inv_def load_answered_def Let_def simp del: set_removeAll split: sum.split)
  next
    case False
    with answered(1) old dist' keys assms(1) show ?thesis by (auto simp: load_inv_def load_answered_def Let_def simp del: set_removeAll)
  qed
qed

interpretation folder_loads: invariant_system no_load load_step load_inv
proof
  show "no_load fl \<Longrightarrow> load_inv fl" for fl by (simp add: no_load_def load_inv_def)
qed (rule load_inv_step)

text \<open>
  C29. Switching folders fast cannot show the wrong one: in whatever order the answers of the loads arrive,
  when the list does not show that it is loading, it shows the answer for the folder that was asked for
  last, and no load of the latest number is under way; while it is loading, that answer is still to come.
\<close>

theorem last_folder_shown:
  assumes "reach no_load load_step fl"
  shows "if fl_loading fl then \<exists>t. (fl_gen fl, t) \<in> set (fl_pending fl) \<and> fl_requested fl = Some t
     else fl_shown fl = fl_requested fl \<and> (\<forall>t. (fl_gen fl, t) \<notin> set (fl_pending fl))"
  using folder_loads.reach_inv [OF assms] by (force simp: load_inv_def)

definition demo_switched :: folder_list where
  "demo_switched =
     load_answered 1 ''inbox'' (Inr [JObj []]) (load_answered 2 ''trash'' (Inr []) (load_started ''trash'' (load_started ''inbox''
       \<lparr>fl_gen = 0, fl_loading = False, fl_messages = [], fl_hasMail = False, fl_pending = [], fl_requested = None, fl_shown = None\<rparr>)))"

theorem last_folder_shown_witness: "fl_shown demo_switched = Some ''trash'' \<and> fl_messages demo_switched = []"
proof -
  let ?fl0 = "\<lparr>fl_gen = 0, fl_loading = False, fl_messages = [], fl_hasMail = False, fl_pending = [], fl_requested = None, fl_shown = None\<rparr>"
  let ?fl2 = "load_started ''trash'' (load_started ''inbox'' ?fl0)"
  let ?fl3 = "load_answered 2 ''trash'' (Inr []) ?fl2"
  have "reach no_load load_step ?fl0" by (rule reach_init) (simp add: no_load_def)
  then have "reach no_load load_step (load_started ''inbox'' ?fl0)" by (rule reach_step) (rule load_step.started)
  then have "reach no_load load_step ?fl2" by (rule reach_step) (rule load_step.started)
  then have "reach no_load load_step ?fl3"
    by (rule reach_step) (rule load_step.answered, simp add: load_started_def)
  then have "reach no_load load_step demo_switched"
    unfolding demo_switched_def by (rule reach_step) (rule load_step.answered, simp add: load_started_def load_answered_def)
  from last_folder_shown [OF this] show ?thesis
    by (simp add: demo_switched_def load_started_def load_answered_def Let_def)
qed

section \<open>A header that was refreshed\<close>

definition clean_subject :: "string \<Rightarrow> bool" where
  "clean_subject s = (trim s = s \<and> \<not> isProtectedSubjectPlaceholder s \<and> \<not> str_includes s ''=?'')"

definition clean_address :: "string \<Rightarrow> bool" where
  "clean_address a = (tidy a \<and> a \<noteq> ''[encrypted header]'' \<and> a \<noteq> ''(missing from)'' \<and> \<not> str_includes a ''=?'')"

lemma clean_subject_kept:
  assumes "clean_subject s"
  shows "s \<noteq> []" and "normalizeRecoveredSubject env (JStr s) = s"
proof -
  have "isProtectedSubjectPlaceholder []" by code_simp
  then show "s \<noteq> []" using assms by (auto simp: clean_subject_def)
  then show "normalizeRecoveredSubject env (JStr s) = s"
    using assms by (simp add: clean_subject_def normalizeRecoveredSubject_def decodeRFC2047HeaderDisplay_def Let_def str_or_empty_def js_or_def)
qed

lemma clean_address_kept: "clean_address a \<Longrightarrow> normalizeRecoveredAddress env (JStr a) = a" "clean_address a \<Longrightarrow> a \<noteq> []"
  by (auto simp: clean_address_def normalizeRecoveredAddress_def decodeRFC2047HeaderDisplay_def Let_def str_or_empty_def js_or_def
      squeeze_tidy tidy_def)

lemma clean_addresses_kept:
  assumes "\<forall>a \<in> set as. clean_address a"
  shows "meaningful_addresses env (jstrs as) = as"
proof -
  have "map (\<lambda>a. normalizeRecoveredAddress env (JStr a)) as = as" using assms clean_address_kept(1) by (intro map_idI) auto
  moreover have "filter (\<lambda>a. a \<noteq> []) as = as" using assms clean_address_kept(2) by (intro filter_True) auto
  ultimately show ?thesis by (simp add: meaningful_addresses_def jstrs_def comp_def)
qed

lemma getp_spread:
  assumes "distinct (map fst fs)" and "(k, v) \<in> set fs"
  shows "getp (object_spread m fs) k = v"
proof -
  have "map_of (fold (\<lambda>(k, x) o'. AList.update k x o') fs o') k = Some v" for o' :: "(string \<times> jsval) list"
    using assms
  proof (induction fs arbitrary: o')
    case (Cons kv fs)
    have "k \<notin> fst ` set fs \<Longrightarrow> map_of (fold (\<lambda>(k, x) o'. AList.update k x o') fs o'') k = map_of o'' k" for o'' :: "(string \<times> jsval) list"
      by (induction fs arbitrary: o'') (auto simp: update_conv)
    with Cons show ?case by (auto simp: update_conv)
  qed simp
  then show ?thesis by (simp add: object_spread_def)
qed

lemma base64_back: "base64ToBytes (bytesToBase64 b) = Inr b"
proof -
  have "map byte_of_char (map char_of_byte b) = b" by (simp add: comp_def byte_of_char_of_byte)
  then show ?thesis by (simp add: base64ToBytes_def bytesToBase64_def atob_btoa del: map_map)
qed

lemma cached_row_is_row: "is_row m \<Longrightarrow> is_row (cached_row env ready hs m)"
  by (simp add: cached_row_def Let_def merge_row)

definition refreshed_stub :: "recover_env \<Rightarrow> metadata \<Rightarrow> mime_entity \<Rightarrow> jsval" where
  "refreshed_stub re md e = header_stub (buildRecoveredHeaderPayload re (Some (recovered_of_metadata md)) (Some (envelope_of_entity e)))"

lemma refreshed_stub_fields:
  assumes "clean_subject (md_subject md)" and "clean_address (md_from_addr md)" and "\<forall>a \<in> set (md_to_addrs md). clean_address a"
  shows "getp (refreshed_stub re md e) ''subject'' = JStr (md_subject md)" and "getp (refreshed_stub re md e) ''from'' = JStr (md_from_addr md)"
    and "getp (refreshed_stub re md e) ''to'' = jstrs (md_to_addrs md)" and "json_ok (refreshed_stub re md e)"
    and "\<not> nullish (refreshed_stub re md e)" and "json_str (refreshed_stub re md e) \<noteq> []"
proof -
  let ?p = "buildRecoveredHeaderPayload re (Some (recovered_of_metadata md)) (Some (envelope_of_entity e))"
  have fields: "getp (rc_fields (recovered_of_metadata md)) ''subject'' = JStr (md_subject md)"
    "getp (rc_fields (recovered_of_metadata md)) ''from_addr'' = JStr (md_from_addr md)"
    "getp (rc_fields (recovered_of_metadata md)) ''to_addrs'' = jstrs (md_to_addrs md)"
    by (simp_all add: recovered_of_metadata_def)
  have p: "getp ?p ''subject'' = JStr (md_subject md)" "getp ?p ''from_addr'' = JStr (md_from_addr md)"
    "getp ?p ''to_addrs'' = jstrs (md_to_addrs md)"
    using assms clean_subject_kept(2) clean_address_kept(1) clean_addresses_kept
    by (simp_all add: buildRecoveredHeaderPayload_def Let_def recovered_field_def fields)
  have truth: "truthy (JStr (md_subject md))" "truthy (JStr (md_from_addr md))" "truthy (jstrs xs)" for xs
    using clean_subject_kept(1) [OF assms(1)] clean_address_kept(2) [OF assms(2)] by (simp_all add: jstrs_def)
  show "getp (refreshed_stub re md e) ''subject'' = JStr (md_subject md)" "getp (refreshed_stub re md e) ''from'' = JStr (md_from_addr md)"
    "getp (refreshed_stub re md e) ''to'' = jstrs (md_to_addrs md)"
    unfolding refreshed_stub_def header_stub_def p using truth by (simp_all add: js_or_def)
  have "json_ok (getp ?p k)" if "k \<in> set [''subject'', ''from_addr'', ''to_addrs'', ''cc_addrs'', ''rfc_message_id'', ''in_reply_to'', ''references'', ''reply_to'', ''preview'', ''attachments'']" for k
    using that payload_json_ok [of re md e] by (auto simp: buildRecoveredHeaderPayload_def Let_def)
  then show "json_ok (refreshed_stub re md e)"
    by (simp add: refreshed_stub_def header_stub_def js_or_def)
  show "\<not> nullish (refreshed_stub re md e)" "json_str (refreshed_stub re md e) \<noteq> []"
    by (simp_all add: refreshed_stub_def header_stub_def nullish_def)
qed


text \<open>An environment in which every message decrypts to a given text.\<close>

definition reading_env :: "string \<Rightarrow> vault_env" where
  "reading_env t = (demo_env 0)\<lparr>ve_pg := (ve_pg (demo_env 0))\<lparr>pg_readMessage := (\<lambda>_. Inr []), pg_decrypt := (\<lambda>_ _ _. Inr (t, []))\<rparr>\<rparr>"

definition reading_vault :: vault where
  "reading_vault = demo_unlocked\<lparr>v_identities := [(fingerprintKeyId16 (JStr ''I''),
     \<lparr>vi_email = JUndef, vi_privateKey = ''I'', vi_publicKey = ''I'', vi_armoredPub = ''I'', vi_armoredPriv = ''I''\<rparr>)]\<rparr>"

lemma reading_vault_unlocked: "isUnlocked reading_vault"
  by (simp add: reading_vault_def demo_unlocked_def isUnlocked_def touch_def hydrated_def)

lemma reading_env_reads:
  "fst (decryptForIdentity (reading_env t) demo_identity_server 0 (JStr ''I'') (utf8_encode ''x'') (reading_vault, ())) = Inr t"
proof -
  have kid: "fingerprintKeyId16 (JStr ''I'') \<noteq> []" "toUpperCase ''I'' = ''I''" "str_or_empty JUndef = []" "trim [] = []" by code_simp+
  have "isl (input_of_bytes (map char_of_byte) (utf8_encode ''x'')) = False" by code_simp
  then obtain x where "input_of_bytes (map char_of_byte) (utf8_encode ''x'') = Inr x" by (cases "input_of_bytes (map char_of_byte) (utf8_encode ''x'')") auto
  then show ?thesis
    using kid reading_vault_unlocked
    by (simp add: decryptForIdentity_def decryptToString_def decryptToResult_def ensureIdentityUnlocked_def Let_def bindI_def returnI_def liftI_def
        read_vault_def getIdentity_def touch_def reading_vault_def readEncryptedMessage_input_def readVerificationKeys_def reading_env_def demo_env_def
        str_or_empty_def js_or_def)
qed

definition demo_metadata :: metadata where
  "demo_metadata = metadata_of [(''subject'', ''Lunch''), (''from'', ''bo@x.org''), (''to'', ''al@x.org'')] demo_entity"

definition demo_listed :: jsval where
  "demo_listed = JObj [(''id'', JStr ''m1''), (''header_ciphertext_b64'', JStr (bytesToBase64 (utf8_encode ''x'')))]"


end
