(* ===== verification/Sign_In.thy ===== *)
theory Sign_In
  imports Vault_Account Webauthn
begin

text \<open>
  \<^verbatim>\<open>static/auth/auth-login.jsx\<close> and \<^verbatim>\<open>static/auth/auth-register.jsx\<close>: the pages to sign in and to register, with
  the second factor, the unlocking of the vault and the page that is opened afterwards. The state is
  the page, the vault and the server; texts that are shown are values of \<open>notice\<close>.
\<close>

section \<open>Where to go afterwards\<close>

definition safeClientRedirectPath :: "jsval \<Rightarrow> string" where
  "safeClientRedirectPath nxt =
     (case nxt of
        JStr s \<Rightarrow>
          (let t = trim s in
           if t = [] \<or> \<not> startsWith t ''/'' \<or> startsWith t ''//'' then [] else t)
      | _ \<Rightarrow> [])"

text \<open>\<open>query\<close> is the parameter \<open>next\<close> of the page's address.\<close>

definition next_of_query :: "string option \<Rightarrow> string" where
  "next_of_query query = safeClientRedirectPath (JStr (case query of None \<Rightarrow> [] | Some s \<Rightarrow> s))"

text \<open>\<^verbatim>\<open>internal/httpserver/safe_redirect.go\<close>: which paths the server redirects to.\<close>

definition isSafeAbsoluteRedirectPath :: "string \<Rightarrow> bool" where
  "isSafeAbsoluteRedirectPath p =
     (case p of
        [] \<Rightarrow> False
      | c # r \<Rightarrow> c = CHR ''/'' \<and> (case r of [] \<Rightarrow> True | d # _ \<Rightarrow> d \<noteq> CHR ''/'' \<and> d \<noteq> CHR 0x5C))"

section \<open>The sign-in page\<close>

datatype notice =
    No_Notice
  | Needs_Credentials
  | Needs_Verification
  | Needs_Code
  | No_Security_Key
  | Authenticating
  | Checking_Code
  | Checking_Recovery
  | Waiting_For_Key
  | Second_Factor
  | Unlocking
  | Keys_Locked string
  | Redirecting
  | Failed string
  | Needs_Username
  | No_Mail_Domain
  | Short_Password
  | Needs_Confirmation
  | Password_Mismatch
  | No_Crypto
  | Generating_Keys
  | Creating_Account
  | Account_Created
  | Network_Error

record login_page =
  lp_username :: string
  lp_mailDomain :: string
  lp_password :: string
  lp_rememberTrustedDevice :: bool
  lp_phase :: string
  lp_msg :: notice
  lp_nextOk :: string
  lp_challenge :: jsval
  lp_mfaCode :: string
  lp_mfaMethod :: string
  lp_capWidgetURL :: string
  lp_capToken :: string
  lp_href :: "string option"     \<comment> \<open>what was assigned to \<open>window.location.href\<close>\<close>

text \<open>The answer of \<open>/api/auth/signup-config\<close>: the mail domain and the address of the captcha.\<close>

definition signup_config :: "jsval \<Rightarrow> string \<times> string" where
  "signup_config j =
     (let c = getp j ''cap''; url = getp c ''widget_api_endpoint'' in
      (case getp j ''mail_domain'' of JStr d \<Rightarrow> d | _ \<Rightarrow> [],
       if truthy c \<and> getp c ''enabled'' = JBool True then (case url of JStr u \<Rightarrow> trim u | _ \<Rightarrow> []) else []))"

definition configured :: "jsval \<Rightarrow> login_page \<Rightarrow> login_page" where
  "configured j p =
     (if nullish j then p\<lparr>lp_mailDomain := [], lp_capWidgetURL := []\<rparr>
      else
        (let (domain, url) = signup_config j in
         p\<lparr>lp_mailDomain := domain, lp_capWidgetURL := url, lp_capToken := (if url = [] then [] else lp_capToken p)\<rparr>))"

definition message_or :: "exn \<Rightarrow> string \<Rightarrow> string" where
  "message_or e deflt = (case e of Error m \<Rightarrow> if m = [] then deflt else m | _ \<Rightarrow> exn_message e)"

definition cap_fields :: "login_page \<Rightarrow> (string \<times> jsval) list" where
  "cap_fields p = (if lp_capWidgetURL p \<noteq> [] then [(''cap_token'', JStr (trim (lp_capToken p)))] else [])"

text \<open>The part of \<open>finalizeLogin\<close> in its \<open>try\<close>: the account's keys are fetched and unlocked.\<close>

definition session_email :: "login_page \<Rightarrow> jsval \<Rightarrow> string \<Rightarrow> jsval" where
  "session_email p result u =
     js_or (if truthy (getp result ''user'') then getp (getp result ''user'') ''email'' else getp result ''user'')
           (JStr (if lp_mailDomain p \<noteq> [] then u @ ''@'' @ lp_mailDomain p else []))"

definition me_answered :: "vault_env \<Rightarrow> int \<Rightarrow> login_page \<Rightarrow> jsval \<Rightarrow> string \<Rightarrow> string \<Rightarrow> http_response \<Rightarrow> ('s, unit) vio" where
  "me_answered env now p result u pass meRes =
     (if \<not> resp_ok meRes then returnI ()
      else
        bindI (liftI (resp_json meRes)) (\<lambda>me.
        bindI (liftI (getR me ''bootstrapped'')) (\<lambda>bootstrapped.
        if \<not> truthy bootstrapped then returnI ()
        else
          bindI (liftI (getR result ''user'')) (\<lambda>_.
          bindI (with_vault (unlockAccount env now me pass (session_email p result u))) (\<lambda>_. returnI ())))))"

definition unlock_keys :: "vault_env \<Rightarrow> 's server \<Rightarrow> int \<Rightarrow> login_page \<Rightarrow> jsval \<Rightarrow> string \<Rightarrow> string \<Rightarrow> ('s, unit) vio" where
  "unlock_keys env srv now p result u pass =
     bindI (fetch_v srv (get_request ''/api/v1/account-key/me'')) (me_answered env now p result u pass)"

text \<open>\<open>loaded\<close>: the vault and the key generator are there.\<close>

definition finalizeLogin ::
  "vault_env \<Rightarrow> 's server \<Rightarrow> int \<Rightarrow> bool \<Rightarrow> jsval \<Rightarrow> string \<Rightarrow> string \<Rightarrow> login_page \<times> vault \<times> 's \<Rightarrow> login_page \<times> vault \<times> 's" where
  "finalizeLogin env srv now loaded result u pass st =
     (let p = fst st;
          (p1, v1, s1) =
            (if loaded then
               (case unlock_keys env srv now p result u pass (snd st) of
                  (Inr _, v, s) \<Rightarrow> (p\<lparr>lp_msg := Unlocking\<rparr>, v, s)
                | (Inl e, v, s) \<Rightarrow> (p\<lparr>lp_msg := Keys_Locked (exn_message e)\<rparr>, v, s))
             else st);
          v2 = (if loaded then setTrustedDevice env now (lp_rememberTrustedDevice p) v1 else v1)
      in (p1\<lparr>lp_phase := ''ok'', lp_challenge := JNull,
             lp_msg := (if lp_msg p1 = No_Notice then Redirecting else lp_msg p1),
             lp_href := Some (if lp_nextOk p \<noteq> [] then lp_nextOk p else ''/mail'')\<rparr>, v2, s1))"

definition submitLegacyLogin :: "'s server \<Rightarrow> login_page \<Rightarrow> string \<Rightarrow> string \<Rightarrow> ('s, jsval) io" where
  "submitLegacyLogin srv p u pass =
     bindI (fetch srv (json_request POST ''/api/auth/login''
              (JObj ([(''username'', JStr u), (''password'', JStr pass)] @ cap_fields p)))) (\<lambda>res.
     let j = resp_json_or_empty res in
     if \<not> resp_ok res then throwI (server_error j ''Login failed'') else returnI j)"

definition srp_login :: "(bytes \<Rightarrow> bytes) \<Rightarrow> 's server \<Rightarrow> bytes \<Rightarrow> bool \<Rightarrow> login_page \<Rightarrow> string \<Rightarrow> ('s, jsval) io" where
  "srp_login sha srv rnd srpLoaded p u =
     (if \<not> srpLoaded then throwI (Error ''SRP subsystem not loaded'')
      else exchange sha srv rnd ''/api/auth/login/begin'' ''/api/auth/login/finish'' u (lp_password p) JUndef
             (if cap_fields p = [] then JUndef else JObj (cap_fields p)))"

definition mfa_method :: "jsval \<Rightarrow> string" where
  "mfa_method result =
     (let methods = (if isArray (getp result ''methods'') then js_elems (getp result ''methods'') else []) in
      if JStr ''totp'' \<in> set methods then ''totp'' else if JStr ''webauthn'' \<in> set methods then ''webauthn'' else ''recovery'')"

definition submitPrimaryLogin ::
  "(bytes \<Rightarrow> bytes) \<Rightarrow> vault_env \<Rightarrow> 's server \<Rightarrow> bytes \<Rightarrow> int \<Rightarrow> bool \<Rightarrow> bool
   \<Rightarrow> login_page \<times> vault \<times> 's \<Rightarrow> login_page \<times> vault \<times> 's" where
  "submitPrimaryLogin sha env srv rnd now loaded srpLoaded st =
     (let p = fst st; v = fst (snd st); u = toLowerCase (trim (lp_username p)) in
      if u = [] \<or> lp_password p = [] then (p\<lparr>lp_msg := Needs_Credentials\<rparr>, snd st)
      else if lp_capWidgetURL p \<noteq> [] \<and> trim (lp_capToken p) = [] then (p\<lparr>lp_msg := Needs_Verification\<rparr>, snd st)
      else
        (let p1 = p\<lparr>lp_phase := ''loading'', lp_msg := Authenticating\<rparr> in
         case catchI (srp_login sha srv rnd srpLoaded p u) (\<lambda>_. submitLegacyLogin srv p u (lp_password p)) (snd (snd st)) of
           (Inl e, s) \<Rightarrow> (p1\<lparr>lp_phase := ''idle'', lp_msg := Failed (message_or e ''Login failed'')\<rparr>, v, s)
         | (Inr result, s) \<Rightarrow>
             if truthy result \<and> truthy (getp result ''mfa_required'') then
               (p1\<lparr>lp_challenge := result, lp_mfaCode := [], lp_mfaMethod := mfa_method result, lp_phase := ''mfa'', lp_msg := Second_Factor\<rparr>, v, s)
             else finalizeLogin env srv now loaded result u (lp_password p) (p1, v, s)))"

definition mfa_failed :: "exn \<Rightarrow> string \<Rightarrow> login_page \<Rightarrow> login_page" where
  "mfa_failed e deflt p = p\<lparr>lp_phase := ''mfa'', lp_msg := Failed (message_or e deflt)\<rparr>"

definition post_checked :: "'s server \<Rightarrow> string \<Rightarrow> jsval \<Rightarrow> string \<Rightarrow> ('s, jsval) io" where
  "post_checked srv url body label =
     bindI (fetch srv (json_request POST url body)) (\<lambda>res.
     let j = resp_json_or_empty res in
     if \<not> resp_ok res then throwI (server_error j label) else returnI j)"

definition submitCode ::
  "vault_env \<Rightarrow> 's server \<Rightarrow> int \<Rightarrow> bool \<Rightarrow> login_page \<times> vault \<times> 's \<Rightarrow> login_page \<times> vault \<times> 's" where
  "submitCode env srv now loaded st =
     (let p = fst st; v = fst (snd st) in
      if \<not> truthy (lp_challenge p) \<or> \<not> truthy (getp (lp_challenge p) ''challenge_id'') then st
      else if trim (lp_mfaCode p) = [] then (p\<lparr>lp_msg := Needs_Code\<rparr>, snd st)
      else
        (let recovery = (lp_mfaMethod p = ''recovery'');
             p1 = p\<lparr>lp_phase := ''mfa_loading'', lp_msg := (if recovery then Checking_Recovery else Checking_Code)\<rparr>;
             endpoint = (if recovery then ''/api/auth/2fa/login/recovery'' else ''/api/auth/2fa/login/totp'')
         in case post_checked srv endpoint (JObj [(''challenge_id'', getp (lp_challenge p) ''challenge_id''), (''code'', JStr (trim (lp_mfaCode p)))])
                   ''Verification failed'' (snd (snd st)) of
              (Inl e, s) \<Rightarrow> (mfa_failed e ''Verification failed'' p1, v, s)
            | (Inr j, s) \<Rightarrow> finalizeLogin env srv now loaded j (toLowerCase (trim (lp_username p))) (lp_password p) (p1, v, s)))"

text \<open>The security key, \<open>None\<close> when \<^verbatim>\<open>webauthn.js\<close> is not loaded.\<close>

definition useSecurityKey ::
  "vault_env \<Rightarrow> 's server \<Rightarrow> int \<Rightarrow> bool \<Rightarrow> authenticator option \<Rightarrow> login_page \<times> vault \<times> 's \<Rightarrow> login_page \<times> vault \<times> 's" where
  "useSecurityKey env srv now loaded webauthn st =
     (let p = fst st; v = fst (snd st) in
      case webauthn of
        None \<Rightarrow> (p\<lparr>lp_msg := No_Security_Key\<rparr>, snd st)
      | Some au \<Rightarrow>
          if \<not> truthy (lp_challenge p) \<or> \<not> truthy (getp (lp_challenge p) ''challenge_id'') then (p\<lparr>lp_msg := No_Security_Key\<rparr>, snd st)
          else
            (let p1 = p\<lparr>lp_phase := ''mfa_loading'', lp_msg := Waiting_For_Key\<rparr> in
             case bindI (post_checked srv ''/api/auth/2fa/login/webauthn/begin'' (JObj [(''challenge_id'', getp (lp_challenge p) ''challenge_id'')])
                           ''Security key challenge failed'') (\<lambda>begin'.
                  bindI (liftI (bindR (getR begin' ''options'') (getAssertion au))) (\<lambda>credential.
                  post_checked srv ''/api/auth/2fa/login/webauthn/finish''
                    (JObj [(''challenge_id'', getp begin' ''challenge_id''), (''credential'', credential)])
                    ''Security key verification failed'')) (snd (snd st)) of
               (Inl e, s) \<Rightarrow> (mfa_failed e ''Security key verification failed'' p1, v, s)
             | (Inr finish, s) \<Rightarrow> finalizeLogin env srv now loaded finish (toLowerCase (trim (lp_username p))) (lp_password p) (p1, v, s)))"

section \<open>The registration page\<close>

record register_page =
  rp_username :: string
  rp_mailDomain :: string
  rp_name :: string
  rp_password :: string
  rp_confirmPassword :: string
  rp_phase :: string
  rp_loadingStep :: string
  rp_msg :: notice
  rp_nextOk :: string
  rp_capWidgetURL :: string
  rp_capToken :: string
  rp_uiTheme :: string
  rp_href :: "string option"

definition normalizedUsername :: "register_page \<Rightarrow> string" where
  "normalizedUsername p = toLowerCase (trim (rp_username p))"

definition composedEmail :: "register_page \<Rightarrow> string" where
  "composedEmail p =
     (if rp_mailDomain p \<noteq> [] \<and> normalizedUsername p \<noteq> [] then normalizedUsername p @ ''@'' @ rp_mailDomain p
      else if rp_mailDomain p \<noteq> [] then ''username@'' @ rp_mailDomain p else [])"

text \<open>Whether the button is enabled.\<close>

definition canSubmit :: "register_page \<Rightarrow> bool" where
  "canSubmit p =
     (rp_phase p \<noteq> ''loading'' \<and> normalizedUsername p \<noteq> [] \<and> rp_mailDomain p \<noteq> [] \<and> 10 \<le> length (rp_password p)
      \<and> rp_password p = rp_confirmPassword p
      \<and> (rp_capWidgetURL p = [] \<or> rp_capToken p \<noteq> [] \<and> trim (rp_capToken p) \<noteq> []))"

definition stepState :: "register_page \<Rightarrow> string \<Rightarrow> string" where
  "stepState p stepId =
     (let order = [''keygen'', ''submit'', ''redirect''];
          index = (\<lambda>x. if x \<in> set order then length (takeWhile (\<lambda>y. y \<noteq> x) order) else 3)
      in
      if rp_phase p \<noteq> ''loading'' \<and> rp_phase p \<noteq> ''ok'' then ''pending''
      else if rp_phase p = ''ok'' then ''complete''
      else if index (rp_loadingStep p) = 3 \<or> index stepId = 3 then ''pending''
      else if index stepId < index (rp_loadingStep p) then ''complete''
      else if index stepId = index (rp_loadingStep p) then ''active''
      else ''pending'')"

text \<open>What the form is refused for, before anything is computed or sent.\<close>

definition register_refusal :: "register_page \<Rightarrow> notice option" where
  "register_refusal p =
     (if normalizedUsername p = [] then Some Needs_Username
      else if rp_mailDomain p = [] then Some No_Mail_Domain
      else if length (rp_password p) < 10 then Some Short_Password
      else if rp_confirmPassword p = [] then Some Needs_Confirmation
      else if rp_password p \<noteq> rp_confirmPassword p then Some Password_Mismatch
      else if rp_capWidgetURL p \<noteq> [] \<and> trim (rp_capToken p) = [] then Some Needs_Verification
      else None)"

definition account_key_body :: "bootstrap_account \<Rightarrow> bootstrap_identity \<Rightarrow> jsval" where
  "account_key_body acc ident =
     JObj [(''armored_public'', JStr (ba_armored_public acc)), (''algorithm'', JStr ''openpgp-ecc-curve25519''), (''key_version'', jint 1),
           (''wrapped_secret_b64'', JStr (ba_wrapped_secret_b64 acc)), (''kdf'', JStr (ba_kdf acc)), (''kdf_salt_b64'', JStr (ba_kdf_salt_b64 acc)),
           (''kdf_params_json'', JStr (json_str (js_or (ba_kdf_params acc) (JObj [])))),
           (''identities'', JArr [JObj
              [(''email'', JStr (bi_email ident)), (''armored_public'', JStr (bi_armored_public ident)), (''primary_uid'', JStr (bi_email ident)),
               (''wrapped_secret_b64'', JStr (kg_bytesToB64 (utf8_encode (bi_wrapped_secret_armored ident)))), (''is_default'', JBool True)]])]"

definition register_body :: "register_page \<Rightarrow> srp_registration \<Rightarrow> bootstrap_account \<Rightarrow> bootstrap_identity \<Rightarrow> jsval" where
  "register_body p srp acc ident =
     JObj [(''username'', JStr (normalizedUsername p)), (''name'', JStr (trim (rp_name p))), (''company'', JStr []),
           (''cap_token'', JStr (if rp_capWidgetURL p \<noteq> [] then trim (rp_capToken p) else [])), (''ui_theme'', JStr (rp_uiTheme p)),
           (''srp_salt_b64'', JStr (srp_salt_b64 srp)), (''srp_verifier_b64'', JStr (srp_verifier_b64 srp)),
           (''srp_group'', JStr (srp_group srp)), (''srp_hash'', JStr (srp_hash srp)), (''account_key'', account_key_body acc ident)]"

text \<open>\<open>keygen\<close> and \<open>srpLoaded\<close>: the scripts are there. \<open>rnd\<close> are the random values: of the key derivation, of its wrapping, of SRP.\<close>

definition register_submit ::
  "(bytes \<Rightarrow> bytes) \<Rightarrow> crypto \<Rightarrow> 's server \<Rightarrow> bool \<Rightarrow> bool \<Rightarrow> bytes \<times> bytes \<times> bytes \<Rightarrow> register_page \<times> 's \<Rightarrow> register_page \<times> 's" where
  "register_submit sha cr srv keygen srpLoaded rnd st =
     (let p = (fst st)\<lparr>rp_loadingStep := ''idle''\<rparr>; s = snd st; u = normalizedUsername p in
      case register_refusal p of
        Some n \<Rightarrow> (p\<lparr>rp_msg := n\<rparr>, s)
      | None \<Rightarrow>
          if \<not> keygen then (p\<lparr>rp_msg := No_Crypto\<rparr>, s)
          else
            (let idle = p\<lparr>rp_phase := ''idle'', rp_loadingStep := ''idle''\<rparr>;
                 keys = bindR (bootstrap cr (fst rnd) (fst (snd rnd)) (u @ ''@'' @ rp_mailDomain p) (rp_password p)) (\<lambda>ks.
                          if \<not> srpLoaded then Inl (Error ''SRP subsystem not loaded'') else Inr ks)
             in case keys of
                  Inl e \<Rightarrow> (idle\<lparr>rp_msg := Failed (''Key generation failed: '' @ exn_message e)\<rparr>, s)
                | Inr (acc, ident) \<Rightarrow>
                    (case fetch srv (json_request POST ''/api/auth/register''
                            (register_body p (createRegistration sha (snd (snd rnd)) u (rp_password p)) acc ident)) s of
                       (Inl _, s1) \<Rightarrow> (idle\<lparr>rp_msg := Network_Error\<rparr>, s1)
                     | (Inr res, s1) \<Rightarrow>
                         (let j = resp_json_or_empty res in
                          if nullish j then (idle\<lparr>rp_msg := Network_Error\<rparr>, s1)
                          else if \<not> resp_ok res then
                            (idle\<lparr>rp_msg := Failed (to_string (js_or (getp j ''error'') (JStr ''Registration failed.'')))\<rparr>, s1)
                          else
                            (p\<lparr>rp_phase := ''ok'', rp_loadingStep := ''redirect'', rp_msg := Account_Created,
                               rp_href := Some (if rp_nextOk p \<noteq> [] then rp_nextOk p else ''/mail'')\<rparr>, s1)))))"

section \<open>Redirects\<close>

text \<open>
  The page opened after signing in is a path of this site by the rule of the client: it starts with
  one slash. Of the checks of the server, which the client's comment claims to follow, the one on the
  first characters is stricter exactly for paths that go on with a backslash, which browsers read like a
  second slash: those the client lets through.
\<close>

theorem client_redirect_rule:
  assumes "safeClientRedirectPath nxt \<noteq> []"
  shows "hd (safeClientRedirectPath nxt) = CHR ''/'' \<and> \<not> startsWith (safeClientRedirectPath nxt) ''//''
    \<and> (isSafeAbsoluteRedirectPath (safeClientRedirectPath nxt) \<longleftrightarrow> \<not> startsWith (safeClientRedirectPath nxt) [CHR ''/'', CHR 0x5C])"
proof -
  define t where "t = safeClientRedirectPath nxt"
  have t: "t \<noteq> []" "startsWith t ''/''" "\<not> startsWith t ''//''"
    using assms by (auto simp: t_def safeClientRedirectPath_def Let_def split: jsval.splits if_splits)
  then obtain r where r: "t = CHR ''/'' # r" by (cases t) (auto simp: startsWith_def)
  show ?thesis unfolding t_def [symmetric] using t by (cases r) (auto simp: r startsWith_def isSafeAbsoluteRedirectPath_def)
qed

theorem client_redirect_rule_witness:
  "safeClientRedirectPath (JStr (''/'' @ [CHR 0x5C] @ ''evil.example'')) = ''/'' @ [CHR 0x5C] @ ''evil.example''
   \<and> \<not> isSafeAbsoluteRedirectPath (''/'' @ [CHR 0x5C] @ ''evil.example'')"
proof -
  have path: "safeClientRedirectPath (JStr (''/'' @ [CHR 0x5C] @ ''evil.example'')) = ''/'' @ [CHR 0x5C] @ ''evil.example''" by code_simp
  have "startsWith (''/'' @ [CHR 0x5C] @ ''evil.example'') [CHR ''/'', CHR 0x5C]" by code_simp
  then show ?thesis using client_redirect_rule [of "JStr (''/'' @ [CHR 0x5C] @ ''evil.example'')"] unfolding path by blast
qed

section \<open>What is sent\<close>

lemma trusted_frame: "vault_memory (setTrustedDevice env now b v) = vault_memory v"
proof -
  have idle: "vault_memory (applyTrustedIdlePreference env now w) = vault_memory w" for w
    by (simp add: applyTrustedIdlePreference_def setIdleMs_def touch_def vault_memory_def Let_def)
  show ?thesis by (simp add: setTrustedDevice_def Let_def idle vault_simps split: option.split)
qed

text \<open>Only the requests change the server; the rest of a computation of the vault leaves it alone.\<close>

lemma keeps_with_vault [keeps_intros]: "keeps (\<lambda>st. snd st = x) (with_vault f)"
  by (auto simp: keeps_def with_vault_def split: prod.splits)

lemma unlock_keys_log:
  "snd (snd (unlock_keys env (recording srv) now p result u pass (v, (s, log)))) =
     (snd (srv s (get_request ''/api/v1/account-key/me'')), log @ [get_request ''/api/v1/account-key/me''])"
proof -
  let ?rq = "get_request ''/api/v1/account-key/me''"
  let ?x = "(snd (srv s ?rq), log @ [?rq])"
  have keep: "keeps (\<lambda>st. snd st = ?x) (me_answered env now p result u pass meRes)" for meRes
    unfolding me_answered_def by (auto intro!: keeps_intros)
  obtain r where r: "fetch_v (recording srv) ?rq (v, (s, log)) = (r, (v, ?x))"
    by (cases "srv s ?rq") (simp add: fetch_v_def recording_def)
  show ?thesis
  proof (cases r)
    case (Inr meRes)
    obtain r' v' y where "me_answered env now p result u pass meRes (v, ?x) = (r', (v', y))" by (metis prod.collapse)
    with keepsD [OF keep this] r Inr show ?thesis by (simp add: unlock_keys_def bindI_def)
  qed (use r in \<open>simp add: unlock_keys_def bindI_def\<close>)
qed

lemma finalizeLogin_log:
  "snd (snd (snd (finalizeLogin env (recording srv) now loaded result u pass (p, v, (s, log))))) =
     log @ (if loaded then [get_request ''/api/v1/account-key/me''] else [])"
  using unlock_keys_log [of env srv now p result u pass v s log]
  by (auto simp: finalizeLogin_def Let_def split: prod.splits sum.splits)

definition legacy_request :: "login_page \<Rightarrow> http_request" where
  "legacy_request p =
     json_request POST ''/api/auth/login''
       (JObj ([(''username'', JStr (toLowerCase (trim (lp_username p)))), (''password'', JStr (lp_password p))] @ cap_fields p))"

lemma legacy_log:
  "snd (submitLegacyLogin (recording srv) p (toLowerCase (trim (lp_username p))) (lp_password p) (s, log)) =
     (snd (srv s (legacy_request p)), log @ [legacy_request p])"
  by (auto simp: submitLegacyLogin_def bindI_def fetch_def recording_def legacy_request_def Let_def returnI_def throwI_def split: prod.split sum.split)

definition form_complete :: "login_page \<Rightarrow> bool" where
  "form_complete p =
     (trim (lp_username p) \<noteq> [] \<and> lp_password p \<noteq> [] \<and> (lp_capWidgetURL p = [] \<or> trim (lp_capToken p) \<noteq> []))"

lemma form_complete_submit:
  assumes "form_complete p"
  shows "submitPrimaryLogin sha env srv rnd now loaded srpLoaded (p, v, s) =
     (let u = toLowerCase (trim (lp_username p)); p1 = p\<lparr>lp_phase := ''loading'', lp_msg := Authenticating\<rparr> in
      case catchI (srp_login sha srv rnd srpLoaded p u) (\<lambda>_. submitLegacyLogin srv p u (lp_password p)) s of
        (Inl e, s) \<Rightarrow> (p1\<lparr>lp_phase := ''idle'', lp_msg := Failed (message_or e ''Login failed'')\<rparr>, v, s)
      | (Inr result, s) \<Rightarrow>
          if truthy result \<and> truthy (getp result ''mfa_required'') then
            (p1\<lparr>lp_challenge := result, lp_mfaCode := [], lp_mfaMethod := mfa_method result, lp_phase := ''mfa'', lp_msg := Second_Factor\<rparr>, v, s)
          else finalizeLogin env srv now loaded result u (lp_password p) (p1, v, s))"
  using assms by (auto simp: submitPrimaryLogin_def form_complete_def Let_def toLowerCase_def)

text \<open>
  C37. Whenever the SRP exchange fails, for whatever reason (the server refuses, cannot be reached, sends
  a wrong proof, or the script is missing), the password itself is sent: the next request is a \<open>POST\<close> to
  \<open>/api/auth/login\<close> whose JSON body has it in the clear.
\<close>

theorem password_sent_in_clear:
  assumes "form_complete p"
    and "srp_login sha (recording srv) rnd srpLoaded p (toLowerCase (trim (lp_username p))) (s, []) = (Inl e, (s1, log))"
  shows "\<exists>more. snd (snd (snd (submitPrimaryLogin sha env (recording srv) rnd now loaded srpLoaded (p, v, (s, []))))) =
    log @ json_request POST ''/api/auth/login''
      (JObj ([(''username'', JStr (toLowerCase (trim (lp_username p)))), (''password'', JStr (lp_password p))] @ cap_fields p)) # more"
proof -
  let ?u = "toLowerCase (trim (lp_username p))"
  let ?legacy = "submitLegacyLogin (recording srv) p ?u (lp_password p) (s1, log)"
  have "catchI (srp_login sha (recording srv) rnd srpLoaded p ?u) (\<lambda>_. submitLegacyLogin (recording srv) p ?u (lp_password p)) (s, []) = ?legacy"
    using assms(2) by (simp add: catchI_def)
  moreover obtain r s2 where legacy: "?legacy = (r, (s2, log @ [legacy_request p]))"
    using legacy_log [of srv p s1 log] by (metis prod.collapse)
  ultimately have "\<exists>more. snd (snd (snd (submitPrimaryLogin sha env (recording srv) rnd now loaded srpLoaded (p, v, (s, []))))) = (log @ [legacy_request p]) @ more"
    unfolding form_complete_submit [OF assms(1)]
    by (cases r) (auto simp: Let_def finalizeLogin_log)
  then show ?thesis by (simp add: legacy_request_def)
qed

text \<open>
  When the SRP exchange succeeds, the fallback that sends the password is not taken: nothing is sent after the
  exchange, except, once the login is complete, one \<open>GET\<close> for the wrapped account key.
\<close>

theorem srp_login_requests:
  assumes "form_complete p"
    and "srp_login sha (recording srv) rnd srpLoaded p (toLowerCase (trim (lp_username p))) (s, []) = (Inr result, (s1, log))"
  shows "snd (snd (snd (submitPrimaryLogin sha env (recording srv) rnd now loaded srpLoaded (p, v, (s, []))))) =
    log @ (if loaded \<and> \<not> (truthy result \<and> truthy (getp result ''mfa_required''))
           then [\<lparr>rq_method = GET, rq_url = ''/api/v1/account-key/me'', rq_body = None\<rparr>] else [])"
  using assms(2) unfolding form_complete_submit [OF assms(1)]
  by (simp add: Let_def catchI_def finalizeLogin_log get_request_def)

definition demo_login :: login_page where
  "demo_login =
     \<lparr>lp_username = '' Bob'', lp_mailDomain = ''x.org'', lp_password = ''secret'', lp_rememberTrustedDevice = False, lp_phase = ''idle'',
      lp_msg = No_Notice, lp_nextOk = [], lp_challenge = JNull, lp_mfaCode = [], lp_mfaMethod = ''totp'', lp_capWidgetURL = [], lp_capToken = [],
      lp_href = None\<rparr>"

lemma demo_login_complete: "form_complete demo_login" by code_simp

text \<open>A server that refuses every request.\<close>

definition refusing_server :: "unit server" where
  "refusing_server s rq = (Inr \<lparr>rs_status = 500, rs_body = []\<rparr>, s)"

theorem password_sent_in_clear_witness:
  "\<exists>more. snd (snd (snd (submitPrimaryLogin (\<lambda>b. b) (demo_env 0) (recording refusing_server) [] 0 True False (demo_login, demo_vault, ((), []))))) =
    json_request POST ''/api/auth/login'' (JObj [(''username'', JStr ''bob''), (''password'', JStr ''secret'')]) # more"
proof -
  have name: "toLowerCase (trim (lp_username demo_login)) = ''bob''" "cap_fields demo_login = []" "lp_password demo_login = ''secret''" by code_simp+
  have "srp_login (\<lambda>b. b) (recording refusing_server) [] False demo_login ''bob'' ((), []) = (Inl (Error ''SRP subsystem not loaded''), ((), []))"
    by (simp add: srp_login_def throwI_def)
  from password_sent_in_clear [OF demo_login_complete, unfolded name, OF this, of "demo_env 0" 0 True demo_vault] show ?thesis by simp
qed

definition granting_server :: "unit server" where
  "granting_server s rq = (Inr \<lparr>rs_status = 200, rs_body = utf8_encode ''{}''\<rparr>, s)"

lemma granting_exchange:
  "\<exists>log. srp_login sha (recording granting_server) rnd True demo_login u ((), []) = (Inr (JObj []), ((), log)) \<and> length log = 2"
proof -
  have j: "resp_json \<lparr>rs_status = 200, rs_body = utf8_encode ''{}''\<rparr> = Inr (JObj [])" by code_simp
  have b: "b64ToBytes JUndef = Inr []" by code_simp
  show ?thesis
    by (simp add: srp_login_def cap_fields_def demo_login_def exchange_def fetch_def recording_def granting_server_def bindI_def liftI_def returnI_def
        resp_json_or_empty_def j resp_ok_def getR_def b Let_def nullish_def)
qed

theorem srp_login_requests_witness:
  "\<exists>log. length log = 2 \<and>
     snd (snd (snd (submitPrimaryLogin (\<lambda>b. b) (demo_env 0) (recording granting_server) [] 0 True True (demo_login, demo_vault, ((), []))))) =
       log @ [\<lparr>rq_method = GET, rq_url = ''/api/v1/account-key/me'', rq_body = None\<rparr>]"
proof -
  obtain log where log: "srp_login (\<lambda>b. b) (recording granting_server) [] True demo_login (toLowerCase (trim (lp_username demo_login))) ((), [])
      = (Inr (JObj []), ((), log))" "length log = 2"
    using granting_exchange [of "\<lambda>b. b" "[]"] by blast
  from srp_login_requests [OF demo_login_complete log(1), of "demo_env 0" 0 True demo_vault] log(2) show ?thesis by auto
qed

section \<open>The second factor\<close>

text \<open>
  C32. A server that asks for a second factor is obeyed: after the exchange the page is in the phase of
  the second factor, it opens no other page and the vault is as before; and when the server then refuses the
  code, that is still so.
\<close>

theorem second_factor_required:
  assumes "form_complete p"
    and "srp_login sha srv rnd srpLoaded p (toLowerCase (trim (lp_username p))) s = (Inr result, s1)"
    and "truthy result" and "truthy (getp result ''mfa_required'')" and "truthy (getp result ''challenge_id'')" and "trim code \<noteq> []"
    and "post_checked srv (if mfa_method result = ''recovery'' then ''/api/auth/2fa/login/recovery'' else ''/api/auth/2fa/login/totp'')
           (JObj [(''challenge_id'', getp result ''challenge_id''), (''code'', JStr (trim code))]) ''Verification failed'' s1 = (Inl e, s2)"
  shows "let st1 = submitPrimaryLogin sha env srv rnd now loaded srpLoaded (p, v, s);
             st2 = submitCode env srv now loaded ((fst st1)\<lparr>lp_mfaCode := code\<rparr>, snd st1) in
     lp_phase (fst st1) = ''mfa'' \<and> lp_href (fst st1) = lp_href p \<and> fst (snd st1) = v
     \<and> lp_phase (fst st2) = ''mfa'' \<and> lp_href (fst st2) = lp_href p \<and> fst (snd st2) = v"
proof -
  define p1 where "p1 = p\<lparr>lp_phase := ''mfa'', lp_msg := Second_Factor, lp_challenge := result, lp_mfaCode := [], lp_mfaMethod := mfa_method result\<rparr>"
  have st1: "submitPrimaryLogin sha env srv rnd now loaded srpLoaded (p, v, s) = (p1, v, s1)"
    unfolding form_complete_submit [OF assms(1)] p1_def using assms(2-4) by (simp add: Let_def catchI_def)
  have sel: "lp_challenge p1 = result" "lp_mfaMethod p1 = mfa_method result" "lp_phase p1 = ''mfa''" "lp_href p1 = lp_href p" by (simp_all add: p1_def)
  have "submitCode env srv now loaded (p1\<lparr>lp_mfaCode := code\<rparr>, v, s1) =
      (mfa_failed e ''Verification failed'' (p1\<lparr>lp_mfaCode := code, lp_phase := ''mfa_loading'',
         lp_msg := (if mfa_method result = ''recovery'' then Checking_Recovery else Checking_Code)\<rparr>), v, s2)"
    using assms(3,5-7) sel(1,2) by (simp add: submitCode_def Let_def)
  then show ?thesis using st1 sel(3,4) by (simp add: mfa_failed_def)
qed

definition demo_challenge :: jsval where
  "demo_challenge = JObj [(''mfa_required'', JBool True), (''challenge_id'', JStr ''c'')]"

text \<open>A server that asks for a second factor at the end of the exchange and then refuses the code.\<close>

definition mfa_server :: "nat server" where
  "mfa_server n rq = (Inr (if n < 2 then \<lparr>rs_status = 200, rs_body = utf8_encode ''{\"mfa_required\":true,\"challenge_id\":\"c\"}''\<rparr>
     else \<lparr>rs_status = 401, rs_body = utf8_encode ''{}''\<rparr>), Suc n)"

theorem second_factor_required_witness:
  "lp_href (fst (submitPrimaryLogin (\<lambda>b. b) (demo_env 0) mfa_server [] 0 True True (demo_login, demo_vault, 0))) = None"
proof -
  have j: "resp_json \<lparr>rs_status = 200, rs_body = utf8_encode ''{\"mfa_required\":true,\"challenge_id\":\"c\"}''\<rparr> = Inr demo_challenge"
    "resp_json \<lparr>rs_status = 401, rs_body = utf8_encode ''{}''\<rparr> = Inr (JObj [])" by code_simp+
  have b: "b64ToBytes JUndef = Inr []" by code_simp
  have run: "srp_login (\<lambda>b. b) mfa_server [] True demo_login (toLowerCase (trim (lp_username demo_login))) 0 = (Inr demo_challenge, 2)"
    by (simp add: srp_login_def cap_fields_def demo_login_def exchange_def fetch_def mfa_server_def bindI_def liftI_def returnI_def
        resp_json_or_empty_def j resp_ok_def getR_def b Let_def nullish_def demo_challenge_def)
  have refused: "post_checked mfa_server url body ''Verification failed'' 2 = (Inl (Error ''Verification failed''), 3)" for url body
    by (simp add: post_checked_def fetch_def mfa_server_def bindI_def resp_json_or_empty_def j resp_ok_def server_error_def getR_def nullish_def throwI_def js_or_def)
  have "trim ''1'' \<noteq> []" by code_simp
  from second_factor_required [OF demo_login_complete run _ _ _ this refused, of "demo_env 0" 0 True demo_vault]
  show ?thesis by (simp add: demo_challenge_def Let_def demo_login_def)
qed

section \<open>Registration\<close>

text \<open>
  The button of the registration form tells the truth: it is enabled exactly when no registration is
  under way and the form would be accepted.
\<close>

theorem register_button_honest: "canSubmit p \<longleftrightarrow> rp_phase p \<noteq> ''loading'' \<and> register_refusal p = None"
proof -
  have "trim [] = []" by code_simp
  then show ?thesis by (auto simp: canSubmit_def register_refusal_def)
qed

text \<open>
  Registering sends at most one request, and only for a form that is complete and after the keys were
  generated here; what it carries of the password is the SRP verifier and the keys wrapped under it.
\<close>

theorem register_sends_once:
  "let log = snd (snd (register_submit sha cr (recording srv) keygen srpLoaded rnd (p, (s, [])))) in
    (log = [] \<or> (register_refusal p = None \<and> (\<exists>acc ident.
          bootstrap cr (fst rnd) (fst (snd rnd)) (normalizedUsername p @ ''@'' @ rp_mailDomain p) (rp_password p) = Inr (acc, ident)
          \<and> log = [json_request POST ''/api/auth/register''
                (register_body p (createRegistration sha (snd (snd rnd)) (normalizedUsername p) (rp_password p)) acc ident)])))"
proof -
  have same: "register_refusal (p\<lparr>rp_loadingStep := x\<rparr>) = register_refusal p" "normalizedUsername (p\<lparr>rp_loadingStep := x\<rparr>) = normalizedUsername p"
    "register_body (p\<lparr>rp_loadingStep := x\<rparr>) = register_body p" for x
    by (simp_all add: register_refusal_def normalizedUsername_def register_body_def fun_eq_iff)
  show ?thesis
    unfolding register_submit_def Let_def fst_conv snd_conv same
    by (auto simp: fetch_def recording_def bindR_eq_Inr split: option.split sum.split prod.split if_split)
qed

end
