(* ===== verification/Compose_Form.thy ===== *)
theory Compose_Form
  imports Reply_Draft Vault_Decrypt Pgp_Mail
begin

text \<open>
  The form of \<^verbatim>\<open>static/mail/compose.jsx\<close>: opening and closing it, finding the key of the recipient, keys entered by
  hand, and sending. Armored keys are texts, as the server stores them. The conversion of the edited HTML to
  text is an argument of the handler.
\<close>

section \<open>State\<close>

record key_meta =
  km_source :: jsval
  km_fingerprint :: jsval
  km_email :: string
  km_armoredPublic :: string

record compose_form =
  cf_open :: bool
  cf_mode :: string
  cf_from :: string
  cf_to :: string
  cf_cc :: string
  cf_bcc :: string
  cf_showCc :: bool
  cf_inReplyTo :: string
  cf_references :: string
  cf_subject :: string
  cf_body :: string
  cf_recipientArmored :: string
  cf_recipientMeta :: "key_meta option"
  cf_keyError :: string
  cf_saveToAddressBook :: bool
  cf_lookupBusy :: bool
  cf_keyStatus :: string
  cf_manualKeyOverride :: bool
  cf_manualKeyEmail :: string
  cf_uploadedKeyName :: string
  cf_pwd :: string
  cf_pwdConfirm :: string
  cf_ttlSeconds :: int
  cf_maxViews :: int
  cf_notify :: bool
  cf_linkResult :: jsval
  cf_attachPublicKey :: bool
  cf_busy :: bool
  cf_err :: string
  cf_lookupSeq :: nat
  cf_toast :: "string option"

definition no_key :: "compose_form \<Rightarrow> compose_form" where
  "no_key f = f\<lparr>cf_recipientArmored := [], cf_recipientMeta := None\<rparr>"

definition form_closed :: "compose_form \<Rightarrow> compose_form" where
  "form_closed f =
     (no_key f)\<lparr>cf_open := False, cf_body := [], cf_subject := [], cf_to := [], cf_cc := [], cf_bcc := [], cf_showCc := False,
       cf_inReplyTo := [], cf_references := [], cf_keyError := [], cf_keyStatus := ''idle'', cf_manualKeyOverride := False,
       cf_manualKeyEmail := [], cf_uploadedKeyName := [], cf_lookupBusy := False, cf_pwd := [], cf_pwdConfirm := [],
       cf_linkResult := JNull, cf_err := [], cf_mode := ''pgp'', cf_attachPublicKey := False\<rparr>"

definition blank_draft :: reply_draft where
  "blank_draft = \<lparr>rd_to = [], rd_cc = [], rd_bcc = [], rd_subject = [], rd_bodyHtml = [], rd_inReplyTo = [], rd_references = [], rd_showCc = False\<rparr>"

definition form_opened :: "reply_draft option \<Rightarrow> string \<Rightarrow> compose_form \<Rightarrow> compose_form" where
  "form_opened initialDraft defaultFrom f =
     (let d = (case initialDraft of Some d \<Rightarrow> d | None \<Rightarrow> blank_draft) in
      f\<lparr>cf_open := True, cf_to := rd_to d, cf_cc := rd_cc d, cf_bcc := rd_bcc d, cf_subject := rd_subject d, cf_body := rd_bodyHtml d,
        cf_showCc := rd_showCc d, cf_inReplyTo := rd_inReplyTo d, cf_references := rd_references d,
        cf_from := (if defaultFrom \<noteq> [] then defaultFrom else cf_from f)\<rparr>)"

section \<open>The key of the recipient\<close>

definition usable_hit :: "jsval \<Rightarrow> bool" where
  "usable_hit hit = (truthy hit \<and> truthy (getp hit ''armored_public''))"

definition found_key :: "string \<Rightarrow> jsval \<Rightarrow> jsval \<Rightarrow> key_meta" where
  "found_key target contactHit hit =
     \<lparr>km_source = js_or (getp hit ''source'') (JStr (if truthy contactHit then ''address-book'' else ''?'')),
      km_fingerprint = getp hit ''fingerprint'', km_email = target, km_armoredPublic = to_string (getp hit ''armored_public'')\<rparr>"

definition key_lookup :: "'s server \<Rightarrow> string \<Rightarrow> string \<Rightarrow> ('s, key_meta option) io" where
  "key_lookup srv origin target =
     bindI (getContactKey srv target) (\<lambda>contactHit.
     bindI (if usable_hit contactHit then returnI contactHit else lookupKey srv origin target) (\<lambda>hit.
     returnI (if usable_hit hit then Some (found_key target contactHit hit) else None)))"

text \<open>A lookup under way: its number, for whom it asks, and the values it captured when it started.\<close>

record key_request =
  kr_seq :: nat
  kr_target :: string
  kr_preserveManual :: bool
  kr_force :: bool

definition manual_match :: "compose_form \<Rightarrow> string \<Rightarrow> bool" where
  "manual_match f recipient = (cf_manualKeyOverride f \<and> cf_manualKeyEmail f = recipient \<and> cf_recipientArmored f \<noteq> [])"

definition detect_started :: "bool \<Rightarrow> compose_form \<Rightarrow> key_request option \<times> compose_form" where
  "detect_started force f =
     (case toRecipientsForPGP (cf_to f) of
        [] \<Rightarrow> (None, f\<lparr>cf_keyStatus := ''idle'', cf_keyError := (if force then ''enter a recipient first'' else cf_keyError f)\<rparr>)
      | [target] \<Rightarrow>
          (Some \<lparr>kr_seq = cf_lookupSeq f + 1, kr_target = target, kr_preserveManual = manual_match f target, kr_force = force\<rparr>,
           f\<lparr>cf_lookupSeq := cf_lookupSeq f + 1, cf_lookupBusy := True, cf_keyError := (if force then [] else cf_keyError f),
             cf_keyStatus := ''checking''\<rparr>)
      | _ \<Rightarrow>
          (None, f\<lparr>cf_keyStatus := ''needs-single'',
                   cf_keyError := (if force then ''PGP direct encrypts to one To address (Cc/Bcc are copied on headers only)'' else cf_keyError f)\<rparr>))"

definition detect_answered :: "key_request \<Rightarrow> key_meta option result \<Rightarrow> compose_form \<Rightarrow> key_meta option \<times> compose_form" where
  "detect_answered q r f =
     (if kr_seq q \<noteq> cf_lookupSeq f then (None, f)
      else
        (let g = f\<lparr>cf_lookupBusy := False\<rparr>; keep = kr_preserveManual q in
         case r of
           Inr None \<Rightarrow>
             (None, (if keep then g else no_key g)
                \<lparr>cf_keyStatus := ''missing'', cf_keyError := (if kr_force q then ''no key found for '' @ kr_target q else cf_keyError f)\<rparr>)
         | Inr (Some meta) \<Rightarrow>
             (Some meta, (if keep then g
                          else g\<lparr>cf_recipientArmored := km_armoredPublic meta, cf_recipientMeta := Some meta,
                                 cf_manualKeyOverride := False, cf_manualKeyEmail := [], cf_uploadedKeyName := []\<rparr>)
                \<lparr>cf_keyStatus := ''found''\<rparr>)
         | Inl e \<Rightarrow>
             (None, (if keep then g else g\<lparr>cf_recipientMeta := None\<rparr>)
                \<lparr>cf_keyStatus := ''error'', cf_keyError := (if kr_force q then exn_message e else cf_keyError f)\<rparr>)))"

definition detectRecipientKey :: "'s server \<Rightarrow> string \<Rightarrow> bool \<Rightarrow> compose_form \<times> 's \<Rightarrow> key_meta option \<times> compose_form \<times> 's" where
  "detectRecipientKey srv origin force st =
     (case detect_started force (fst st) of
        (None, f) \<Rightarrow> (None, f, snd st)
      | (Some q, f) \<Rightarrow>
          (case key_lookup srv origin (kr_target q) (snd st) of
             (r, s) \<Rightarrow> (case detect_answered q r f of (m, g) \<Rightarrow> (m, g, s))))"

text \<open>The effect that follows a change of the recipients; with one of them it sets a timer for \<open>detectRecipientKey\<close>.\<close>

definition key_effect :: "compose_form \<Rightarrow> compose_form" where
  "key_effect f =
     (let g = f\<lparr>cf_lookupSeq := cf_lookupSeq f + 1, cf_lookupBusy := False\<rparr>;
          h = (if cf_manualKeyOverride f then g else no_key g)
      in
      if cf_mode f \<noteq> ''pgp'' then g
      else
        (case toRecipientsForPGP (cf_to f) of
           [] \<Rightarrow> h\<lparr>cf_keyStatus := ''idle''\<rparr>
         | [_] \<Rightarrow> f
         | _ \<Rightarrow> h\<lparr>cf_keyStatus := ''needs-single''\<rparr>))"

definition clearManualKey :: "compose_form \<Rightarrow> compose_form" where
  "clearManualKey f =
     (no_key f)\<lparr>cf_manualKeyOverride := False, cf_manualKeyEmail := [], cf_uploadedKeyName := [], cf_keyError := [], cf_keyStatus := ''idle''\<rparr>"

definition manual_fingerprint :: "compose_form \<Rightarrow> jsval" where
  "manual_fingerprint f =
     (case cf_recipientMeta f of
        Some k \<Rightarrow> if startsWith (str_or_empty (km_source k)) ''manual'' then km_fingerprint k else JStr []
      | None \<Rightarrow> JStr [])"

definition handleManualKeyChange :: "string \<Rightarrow> compose_form \<Rightarrow> compose_form" where
  "handleManualKeyChange nextValue f =
     (let target = singleComposeRecipient (cf_to f); g = f\<lparr>cf_recipientArmored := nextValue, cf_uploadedKeyName := [], cf_keyError := []\<rparr> in
      if trim nextValue \<noteq> [] then
        g\<lparr>cf_manualKeyOverride := True, cf_manualKeyEmail := target,
          cf_recipientMeta := Some \<lparr>km_source = JStr ''manual'', km_fingerprint = manual_fingerprint f, km_email = target, km_armoredPublic = nextValue\<rparr>,
          cf_keyStatus := ''manual''\<rparr>
      else g\<lparr>cf_manualKeyOverride := False, cf_manualKeyEmail := [], cf_recipientMeta := None, cf_keyStatus := ''idle''\<rparr>)"

text \<open>\<open>name\<close> and \<open>text\<close> are those of the file, whose reading may fail.\<close>

definition uploaded_key :: "crypto \<Rightarrow> string result \<Rightarrow> (string \<times> string) result" where
  "uploaded_key cr text =
     bindR text (\<lambda>t.
       let armored = trim t; upper = toUpperCase armored in
       if armored = [] then Inl (Error ''public key file is empty'')
       else if str_includes upper ''BEGIN PGP PRIVATE KEY'' \<or> str_includes upper ''BEGIN PRIVATE KEY''
       then Inl (Error ''private key material is not allowed here'')
       else bindR (pgpFingerprint cr armored) (\<lambda>fp. Inr (armored, fp)))"

definition handleManualKeyUpload :: "crypto \<Rightarrow> string \<Rightarrow> string result \<Rightarrow> compose_form \<Rightarrow> compose_form" where
  "handleManualKeyUpload cr name text f =
     (let target = singleComposeRecipient (cf_to f) in
      case uploaded_key cr text of
        Inl e \<Rightarrow> f\<lparr>cf_keyError := exn_message e\<rparr>
      | Inr (armored, fingerprint) \<Rightarrow>
          f\<lparr>cf_keyError := [], cf_recipientArmored := armored,
            cf_recipientMeta := Some \<lparr>km_source = JStr ''manual upload'', km_fingerprint = JStr fingerprint, km_email = target, km_armoredPublic = armored\<rparr>,
            cf_manualKeyOverride := True, cf_manualKeyEmail := target, cf_uploadedKeyName := name, cf_keyStatus := ''manual''\<rparr>)"

text \<open>The second effect of opening: whether the own key is attached is a setting of the account.\<close>

definition attach_setting :: "jsval result \<Rightarrow> compose_form \<Rightarrow> compose_form" where
  "attach_setting payload f =
     (let settings = (case payload of Inr p \<Rightarrow> if truthy p \<and> truthy (getp p ''settings'') then getp p ''settings'' else JObj [] | Inl _ \<Rightarrow> JObj []) in
      f\<lparr>cf_attachPublicKey := truthy (getp settings ''attach_public_key_default'')\<rparr>)"

section \<open>Sending\<close>

text \<open>The key known for the recipient, or else a new lookup; the handler goes on with the values of the form it was called with.\<close>

definition routing :: "'s server \<Rightarrow> string \<Rightarrow> string \<Rightarrow> compose_form \<times> 's \<Rightarrow> key_meta option \<times> compose_form \<times> 's" where
  "routing srv origin recipient st =
     (let f = fst st in
      if \<not> manual_match f recipient \<and> (case cf_recipientMeta f of None \<Rightarrow> True | Some k \<Rightarrow> km_email k \<noteq> recipient)
      then detectRecipientKey srv origin True st
      else (cf_recipientMeta f, st))"

definition meta_key :: "key_meta option \<Rightarrow> string" where
  "meta_key meta = (case meta of Some k \<Rightarrow> km_armoredPublic k | None \<Rightarrow> [])"

definition local_delivery :: "compose_form \<Rightarrow> string \<Rightarrow> key_meta option \<Rightarrow> bool" where
  "local_delivery f recipient meta =
     (\<not> manual_match f recipient \<and> (case meta of Some k \<Rightarrow> km_source k = JStr ''local'' \<and> km_email k = recipient | None \<Rightarrow> False))"

definition route_armored :: "compose_form \<Rightarrow> string \<Rightarrow> key_meta option \<Rightarrow> string" where
  "route_armored f recipient meta =
     (if manual_match f recipient then cf_recipientArmored f
      else if local_delivery f recipient meta \<and> meta_key meta \<noteq> [] then meta_key meta
      else if cf_recipientArmored f \<noteq> [] then cf_recipientArmored f else meta_key meta)"

definition sender_identity :: "string \<Rightarrow> jsval list \<Rightarrow> jsval option" where
  "sender_identity sender identities = List.find (\<lambda>i. truthy i \<and> strict_eq (getp i ''email'') (JStr sender)) identities"

definition pgp_message :: "compose_form \<Rightarrow> string \<Rightarrow> key_meta option \<Rightarrow> string \<Rightarrow> string \<Rightarrow> string \<Rightarrow> pgp_form" where
  "pgp_message f recipient meta body senderArmored senderFingerprint =
     \<lparr>pf_from = cf_from f, pf_recipient = recipient, pf_subject = cf_subject f, pf_body = body,
      pf_recipientArmored = route_armored f recipient meta, pf_senderArmored = senderArmored, pf_senderFingerprint = senderFingerprint,
      pf_localDelivery = local_delivery f recipient meta, pf_attachPublicKey = cf_attachPublicKey f,
      pf_cc = AddrList (splitAddressList (cf_cc f)), pf_bcc = AddrList (splitAddressList (cf_bcc f)),
      pf_inReplyTo = cf_inReplyTo f, pf_references = cf_references f\<rparr>"

text \<open>What is saved to the address book: address, key and source.\<close>

definition address_entry :: "compose_form \<Rightarrow> string \<Rightarrow> key_meta option \<Rightarrow> (string \<times> string \<times> jsval) option" where
  "address_entry f recipient meta =
     (if manual_match f recipient
      then Some (recipient, cf_recipientArmored f, JStr (if cf_uploadedKeyName f \<noteq> [] then ''manual upload'' else ''manual''))
      else
        (case meta of
           Some k \<Rightarrow> if km_email k \<noteq> [] then Some (km_email k, route_armored f recipient meta, km_source k) else None
         | None \<Rightarrow> None))"

definition save_entry :: "'s server \<Rightarrow> compose_form \<Rightarrow> (string \<times> string \<times> jsval) option \<Rightarrow> 's \<Rightarrow> 's" where
  "save_entry srv f entry s =
     (case entry of
        Some (email, armored, source) \<Rightarrow>
          if cf_saveToAddressBook f \<and> email \<noteq> [] then snd (putContactKey srv (JStr email) (JStr armored) source (JBool True) s) else s
      | None \<Rightarrow> s)"

definition outbox_id :: "jsval \<Rightarrow> string result" where
  "outbox_id r =
     (if truthy r \<and> truthy (getp r ''id'')
      then (case getp r ''id'' of JStr i \<Rightarrow> Inr (take 8 i) | JArr xs \<Rightarrow> Inr (to_string (JArr (take 8 xs))) | _ \<Rightarrow> Inl TypeError)
      else Inr [])"

definition sent_toast :: "bool \<Rightarrow> jsval \<Rightarrow> string result" where
  "sent_toast localDelivery r =
     (if localDelivery then Inr ''Delivered signed PGP message locally''
      else bindR (outbox_id r) (\<lambda>i. Inr (''Queued signed PGP message - outbox '' @ i)))"

text \<open>From the found key to the request: the sender's identity, the message, and the delivery.\<close>

definition deliver_pgp ::
  "bool \<Rightarrow> vault_env \<Rightarrow> 's server \<Rightarrow> int \<Rightarrow> compose_env \<Rightarrow> compose_env \<Rightarrow> jsval list \<Rightarrow> compose_form \<Rightarrow> string \<Rightarrow> key_meta option \<Rightarrow> string
   \<Rightarrow> ('s, jsval) vio" where
  "deliver_pgp loaded env srv now inner outer identities f recipient meta body =
     (if cf_recipientArmored f = [] \<and> meta_key meta = [] then throwI (Error ''recipient public key required'')
      else
        (case sender_identity (cf_from f) identities of
           None \<Rightarrow> throwI (Error ''sender identity public key unavailable'')
         | Some i \<Rightarrow>
             if \<not> truthy (getp i ''armored_public'') then throwI (Error ''sender identity public key unavailable'')
             else
               bindI (if truthy (getp i ''fingerprint'') then returnI (to_string (getp i ''fingerprint''))
                      else ensureIdentityUnlockedByEmail env srv now (JStr (cf_from f)) None) (\<lambda>fp.
               if fp = [] then throwI (Error ''sender identity signing key unavailable'')
               else sendPGPDirect loaded env srv now inner outer
                      (pgp_message f recipient meta body (to_string (getp i ''armored_public'')) fp))))"

definition send_pgp ::
  "bool \<Rightarrow> vault_env \<Rightarrow> 's server \<Rightarrow> string \<Rightarrow> int \<Rightarrow> compose_env \<Rightarrow> compose_env \<Rightarrow> jsval list \<Rightarrow> string
   \<Rightarrow> compose_form \<times> vault \<times> 's \<Rightarrow> string result \<times> compose_form \<times> vault \<times> 's" where
  "send_pgp loaded env srv origin now inner outer identities body st =
     (case st of (f, v, s) \<Rightarrow>
        (case toRecipientsForPGP (cf_to f) of
           [recipient] \<Rightarrow>
             (case routing srv origin recipient (f, s) of (meta, g, s1) \<Rightarrow>
                (case deliver_pgp loaded env srv now inner outer identities f recipient meta body (v, s1) of
                   (Inl e, (v1, s2)) \<Rightarrow> (Inl e, g, v1, s2)
                 | (Inr r, (v1, s2)) \<Rightarrow>
                     (sent_toast (local_delivery f recipient meta) r, g, v1, save_entry srv f (address_entry f recipient meta) s2)))
         | [] \<Rightarrow> (Inl (Error ''recipient (To:) required''), st)
         | _ \<Rightarrow> (Inl (Error ''PGP direct encrypts to exactly one To address. Cc/Bcc are added to headers only; use a protected link for multi-recipient delivery.''), st)))"

definition link_refusal :: "compose_form \<Rightarrow> string \<Rightarrow> string option" where
  "link_refusal f body =
     (if cf_pwd f = [] then Some ''password required''
      else if length (cf_pwd f) < 12 then Some ''password must be at least 12 chars''
      else if cf_pwd f \<noteq> cf_pwdConfirm f then Some ''passwords do not match''
      else if body = [] then Some ''body required''
      else None)"

definition link_message :: "compose_form \<Rightarrow> string \<Rightarrow> link_form" where
  "link_message f body =
     \<lparr>lk_from = cf_from f, lk_to = cf_to f, lk_cc = cf_cc f, lk_subject = cf_subject f, lk_body = body, lk_password = cf_pwd f,
      lk_ttlSeconds = cf_ttlSeconds f, lk_maxViews = cf_maxViews f, lk_notify = cf_notify f\<rparr>"

definition send_link :: "bool \<Rightarrow> crypto \<Rightarrow> link_random \<Rightarrow> 's server \<Rightarrow> string \<Rightarrow> compose_form \<times> 's \<Rightarrow> compose_form \<times> 's" where
  "send_link loaded cr rnd srv body st =
     (case link_refusal (fst st) body of
        Some e \<Rightarrow> ((fst st)\<lparr>cf_err := e\<rparr>, snd st)
      | None \<Rightarrow>
          (case sendProtectedLink loaded cr rnd srv (link_message (fst st) body) (snd st) of
             (Inl e, s) \<Rightarrow> ((fst st)\<lparr>cf_err := exn_message e\<rparr>, s)
           | (Inr r, s) \<Rightarrow> ((fst st)\<lparr>cf_linkResult := r, cf_toast := Some ''Protected link created''\<rparr>, s)))"

text \<open>\<open>toPlain\<close> is \<open>htmlToPlainText\<close>. A message that was sent closes the form.\<close>

definition handleSend ::
  "bool \<Rightarrow> vault_env \<Rightarrow> 's server \<Rightarrow> string \<Rightarrow> int \<Rightarrow> compose_env \<Rightarrow> compose_env \<Rightarrow> link_random \<Rightarrow> (string \<Rightarrow> string) \<Rightarrow> jsval list
   \<Rightarrow> compose_form \<times> vault \<times> 's \<Rightarrow> compose_form \<times> vault \<times> 's" where
  "handleSend loaded env srv origin now inner outer rnd toPlain identities st =
     (case st of (f0, v, s) \<Rightarrow>
        if cf_busy f0 then st
        else
          (let f = f0\<lparr>cf_err := []\<rparr>; body = toPlain (cf_body f) in
           if cf_mode f = ''pgp'' then
             (case send_pgp loaded env srv origin now inner outer identities body (f, v, s) of
                (Inl e, g, v1, s1) \<Rightarrow> (g\<lparr>cf_err := exn_message e\<rparr>, v1, s1)
              | (Inr toast, g, v1, s1) \<Rightarrow> (form_closed (g\<lparr>cf_toast := Some toast\<rparr>), v1, s1))
           else if cf_mode f = ''link'' then (case send_link loaded (ve_cr env) rnd srv body (f, s) of (g, s1) \<Rightarrow> (g, v, s1))
           else (f, v, s)))"

section \<open>The form as a machine\<close>

text \<open>
  Lookups are answered at any later time, and the fields change meanwhile. \<open>cn_offers\<close> collects which key was
  given for which address: by an answer of the server, or by the user while that address was the only
  recipient.
\<close>

record compose_run =
  cn_form :: compose_form
  cn_requests :: "key_request list"
  cn_offers :: "(string \<times> string) list"

definition answer_for :: "string \<Rightarrow> key_meta option result \<Rightarrow> bool" where
  "answer_for target r = (case r of Inr (Some k) \<Rightarrow> km_email k = target | _ \<Rightarrow> True)"

definition answered_key :: "key_meta option result \<Rightarrow> (string \<times> string) list" where
  "answered_key r = (case r of Inr (Some k) \<Rightarrow> [(km_email k, km_armoredPublic k)] | _ \<Rightarrow> [])"

definition opt_list :: "'a option \<Rightarrow> 'a list" where
  "opt_list x = (case x of None \<Rightarrow> [] | Some y \<Rightarrow> [y])"

inductive form_step :: "compose_run \<Rightarrow> compose_run \<Rightarrow> bool" where
  edited: "form_step c (c\<lparr>cn_form := (cn_form c)\<lparr>cf_to := t, cf_mode := m, cf_from := fr, cf_cc := cc, cf_bcc := bcc\<rparr>\<rparr>)"
| effect: "form_step c (c\<lparr>cn_form := key_effect (cn_form c)\<rparr>)"
| lookup: "detect_started force (cn_form c) = (q, f) \<Longrightarrow>
    form_step c (c\<lparr>cn_form := f, cn_requests := opt_list q @ cn_requests c\<rparr>)"
| answered: "q \<in> set (cn_requests c) \<Longrightarrow> answer_for (kr_target q) r \<Longrightarrow>
    form_step c (c\<lparr>cn_form := snd (detect_answered q r (cn_form c)), cn_offers := cn_offers c @ answered_key r\<rparr>)"
| typed: "form_step c (c\<lparr>cn_form := handleManualKeyChange t (cn_form c),
    cn_offers := cn_offers c @ [(singleComposeRecipient (cf_to (cn_form c)), t)]\<rparr>)"
| uploaded: "form_step c (c\<lparr>cn_form := handleManualKeyUpload cr name text (cn_form c),
    cn_offers := cn_offers c @ (case uploaded_key cr text of Inr (k, _) \<Rightarrow> [(singleComposeRecipient (cf_to (cn_form c)), k)] | Inl _ \<Rightarrow> [])\<rparr>)"
| cleared: "form_step c (c\<lparr>cn_form := clearManualKey (cn_form c)\<rparr>)"
| opened: "form_step c (c\<lparr>cn_form := form_opened draft fr (cn_form c)\<rparr>)"
| closed: "form_step c (c\<lparr>cn_form := form_closed (cn_form c)\<rparr>)"

definition new_form :: "compose_run \<Rightarrow> bool" where
  "new_form c =
     (cf_recipientArmored (cn_form c) = [] \<and> cf_recipientMeta (cn_form c) = None \<and> \<not> cf_manualKeyOverride (cn_form c)
      \<and> cn_requests c = [] \<and> cn_offers c = [])"

definition keys_offered :: "compose_form \<Rightarrow> (string \<times> string) set \<Rightarrow> bool" where
  "keys_offered f offers =
     ((case cf_recipientMeta f of
         Some k \<Rightarrow> cf_recipientArmored f = km_armoredPublic k \<and> (km_email k, km_armoredPublic k) \<in> offers
       | None \<Rightarrow> True)
      \<and> (cf_manualKeyOverride f \<and> cf_recipientArmored f \<noteq> [] \<longrightarrow> (cf_manualKeyEmail f, cf_recipientArmored f) \<in> offers))"

definition form_inv :: "compose_run \<Rightarrow> bool" where
  "form_inv c = keys_offered (cn_form c) (set (cn_offers c))"

lemma key_lookup_target: "answer_for target (fst (key_lookup srv origin target s))"
  by (auto simp: key_lookup_def answer_for_def found_key_def bindI_def returnI_def split: prod.splits sum.splits)

lemma keys_offered_mono: "keys_offered f offers \<Longrightarrow> offers \<subseteq> offers' \<Longrightarrow> keys_offered f offers'"
  by (auto simp: keys_offered_def split: option.splits)

lemma keys_offered_cong:
  assumes "cf_recipientMeta g = cf_recipientMeta f" and "cf_recipientArmored g = cf_recipientArmored f"
    and "cf_manualKeyOverride g = cf_manualKeyOverride f" and "cf_manualKeyEmail g = cf_manualKeyEmail f"
  shows "keys_offered g offers = keys_offered f offers"
  using assms by (simp add: keys_offered_def split: option.splits)

lemma no_key_offered [simp]: "keys_offered ((no_key f)\<lparr>cf_keyStatus := s\<rparr>) offers" "keys_offered (no_key f) offers"
  by (simp_all add: keys_offered_def no_key_def)

lemma detect_started_offered: "detect_started force f = (q, g) \<Longrightarrow> keys_offered g offers = keys_offered f offers"
  by (rule keys_offered_cong) (auto simp: detect_started_def split: list.splits)

lemma detect_answered_offered:
  assumes "keys_offered f offers"
  shows "keys_offered (snd (detect_answered q r f)) (offers \<union> set (answered_key r))"
  using assms
  by (auto simp: detect_answered_def keys_offered_def answered_key_def no_key_def Let_def split: sum.splits option.splits)

lemma key_effect_offered: "keys_offered f offers \<Longrightarrow> keys_offered (key_effect f) offers"
  by (auto simp: key_effect_def keys_offered_def no_key_def Let_def split: list.splits option.splits)

lemma edits_offered:
  "keys_offered (f\<lparr>cf_to := t, cf_mode := m, cf_from := fr, cf_cc := cc, cf_bcc := bcc\<rparr>) offers = keys_offered f offers"
  "keys_offered (form_opened draft fr f) offers = keys_offered f offers"
  by (rule keys_offered_cong; simp add: form_opened_def Let_def)+

lemma manual_offered:
  "keys_offered (handleManualKeyChange t f) (insert (singleComposeRecipient (cf_to f), t) offers)"
  "keys_offered (clearManualKey f) offers" "keys_offered (form_closed f) offers"
  by (simp_all add: keys_offered_def handleManualKeyChange_def clearManualKey_def form_closed_def no_key_def Let_def)

lemma upload_offered:
  assumes "keys_offered f offers"
  shows "keys_offered (handleManualKeyUpload cr name content f)
    (offers \<union> set (case uploaded_key cr content of Inr (k, _) \<Rightarrow> [(singleComposeRecipient (cf_to f), k)] | Inl _ \<Rightarrow> []))"
  using assms by (cases "uploaded_key cr content") (auto simp: handleManualKeyUpload_def keys_offered_def Let_def split: option.splits)

lemma form_inv_step:
  assumes "form_inv c" and "form_step c c'"
  shows "form_inv c'"
  using assms(2)
proof cases
  case (uploaded cr name content)
  then show ?thesis using upload_offered [of "cn_form c"] assms(1) by (simp add: form_inv_def)
qed (use assms(1) in \<open>auto simp: form_inv_def edits_offered manual_offered detect_started_offered detect_answered_offered key_effect_offered\<close>)

interpretation compose_machine: invariant_system new_form form_step form_inv
proof
  show "form_inv c" if "new_form c" for c using that by (simp add: new_form_def form_inv_def keys_offered_def)
qed (rule form_inv_step)

section \<open>Which key a message is encrypted to\<close>

definition key_known :: "compose_form \<Rightarrow> string \<Rightarrow> bool" where
  "key_known f recipient = (manual_match f recipient \<or> (case cf_recipientMeta f of Some k \<Rightarrow> km_email k = recipient | None \<Rightarrow> False))"

lemma routing_known: "key_known f r \<Longrightarrow> routing srv origin r (f, s) = (cf_recipientMeta f, (f, s))"
  by (auto simp: routing_def key_known_def Let_def split: option.splits)

lemma route_offered:
  assumes "keys_offered f offers" and "key_known f r"
  shows "(r, route_armored f r (cf_recipientMeta f)) \<in> offers"
  using assms by (auto simp: keys_offered_def key_known_def route_armored_def meta_key_def manual_match_def split: option.splits if_splits)

lemma entry_offered:
  assumes "keys_offered f offers" and "key_known f r" and "address_entry f r (cf_recipientMeta f) = Some (email, k, source)"
  shows "email = r" and "(email, k) \<in> offers"
proof -
  show "email = r" using assms(2,3) by (auto simp: address_entry_def key_known_def split: if_splits option.splits)
  then show "(email, k) \<in> offers" using route_offered [OF assms(1,2)] assms(3)
    by (auto simp: address_entry_def route_armored_def split: if_splits option.splits)
qed

text \<open>
  C17. When the form knows a key for its recipient, sending asks nobody, and the key the message is encrypted
  to was given for that very address, by the server or by the user, however the fields were edited and
  in whatever order the lookups were answered; so was the key that goes to the address book.
\<close>

theorem known_key_is_recipients:
  assumes "reach new_form form_step c" and "key_known (cn_form c) r"
  shows "routing srv origin r (cn_form c, s) = (cf_recipientMeta (cn_form c), (cn_form c, s))
    \<and> (r, pf_recipientArmored (pgp_message (cn_form c) r (cf_recipientMeta (cn_form c)) body senderArmored fp)) \<in> set (cn_offers c)
    \<and> (case address_entry (cn_form c) r (cf_recipientMeta (cn_form c)) of
         Some (email, k, _) \<Rightarrow> email = r \<and> (email, k) \<in> set (cn_offers c) | None \<Rightarrow> True)"
proof -
  have inv: "keys_offered (cn_form c) (set (cn_offers c))" using compose_machine.reach_inv [OF assms(1)] by (simp add: form_inv_def)
  show ?thesis
    using routing_known [OF assms(2)] route_offered [OF inv assms(2)] entry_offered [OF inv assms(2)]
    by (auto simp: pgp_message_def split: option.splits)
qed

lemma stale_route:
  assumes "toRecipientsForPGP (cf_to f) = [r]" and "\<not> key_known f r" and "key_lookup srv origin r s = (Inr (Some k), s1)"
  shows "fst (routing srv origin r (f, s)) = Some k" and "snd (snd (routing srv origin r (f, s))) = s1"
  using assms by (auto simp: routing_def key_known_def manual_match_def detectRecipientKey_def detect_started_def detect_answered_def Let_def split: option.splits)

lemma stale_armored:
  assumes "\<not> key_known f r" and "cf_recipientArmored f \<noteq> []" and "km_source k \<noteq> JStr ''local''"
  shows "route_armored f r (Some k) = cf_recipientArmored f"
  using assms by (auto simp: route_armored_def local_delivery_def key_known_def)


definition empty_form :: compose_form where
  "empty_form =
     \<lparr>cf_open = True, cf_mode = ''pgp'', cf_from = [], cf_to = [], cf_cc = [], cf_bcc = [], cf_showCc = False, cf_inReplyTo = [], cf_references = [],
      cf_subject = [], cf_body = [], cf_recipientArmored = [], cf_recipientMeta = None, cf_keyError = [], cf_saveToAddressBook = True,
      cf_lookupBusy = False, cf_keyStatus = ''idle'', cf_manualKeyOverride = False, cf_manualKeyEmail = [], cf_uploadedKeyName = [],
      cf_pwd = [], cf_pwdConfirm = [], cf_ttlSeconds = 604800, cf_maxViews = 0, cf_notify = True, cf_linkResult = JNull,
      cf_attachPublicKey = False, cf_busy = False, cf_err = [], cf_lookupSeq = 0, cf_toast = None\<rparr>"

text \<open>A form whose recipient was looked up, and was then changed.\<close>

definition looked_up :: "key_meta \<Rightarrow> string \<Rightarrow> compose_form" where
  "looked_up k tb =
     empty_form\<lparr>cf_to := tb, cf_recipientArmored := km_armoredPublic k, cf_recipientMeta := Some k, cf_keyStatus := ''found'', cf_lookupSeq := 1\<rparr>"

lemma reach_edited:
  "reach new_form form_step c \<Longrightarrow>
   reach new_form form_step (c\<lparr>cn_form := (cn_form c)\<lparr>cf_to := t, cf_mode := m, cf_from := fr, cf_cc := cc, cf_bcc := bcc\<rparr>\<rparr>)"
  by (erule reach_step) (rule form_step.edited)

lemma reach_looked_up:
  assumes "reach new_form form_step c" and "detect_started force (cn_form c) = (Some q, f)" and "answer_for (kr_target q) r"
  shows "\<exists>qs. reach new_form form_step \<lparr>cn_form = snd (detect_answered q r f), cn_requests = qs, cn_offers = cn_offers c @ answered_key r\<rparr>"
proof -
  let ?c1 = "c\<lparr>cn_form := f, cn_requests := opt_list (Some q) @ cn_requests c\<rparr>"
  have "reach new_form form_step ?c1" using form_step.lookup [OF assms(2)] by (rule reach_step [OF assms(1)])
  moreover have "q \<in> set (cn_requests ?c1)" by (simp add: opt_list_def)
  ultimately have "reach new_form form_step (?c1\<lparr>cn_form := snd (detect_answered q r (cn_form ?c1)), cn_offers := cn_offers ?c1 @ answered_key r\<rparr>)"
    using form_step.answered [of q ?c1 r] assms(3) by (blast intro: reach_step)
  then show ?thesis by (cases c) auto
qed

lemma looked_up_reached:
  assumes "toRecipientsForPGP ta = [km_email k]"
  shows "\<exists>qs. reach new_form form_step \<lparr>cn_form = looked_up k tb, cn_requests = qs, cn_offers = [(km_email k, km_armoredPublic k)]\<rparr>"
proof -
  let ?q = "\<lparr>kr_seq = 1, kr_target = km_email k, kr_preserveManual = False, kr_force = False\<rparr>"
  let ?c0 = "\<lparr>cn_form = empty_form, cn_requests = [], cn_offers = []\<rparr>"
  let ?c1 = "?c0\<lparr>cn_form := (cn_form ?c0)\<lparr>cf_to := ta, cf_mode := ''pgp'', cf_from := [], cf_cc := [], cf_bcc := []\<rparr>\<rparr>"
  let ?f = "snd (detect_started False (cn_form ?c1))"
  have "reach new_form form_step ?c0" by (rule reach_init) (simp add: new_form_def empty_form_def)
  then have "reach new_form form_step ?c1" by (rule reach_edited)
  moreover have "detect_started False (cn_form ?c1) = (Some ?q, ?f)"
    using assms by (simp add: detect_started_def empty_form_def manual_match_def)
  moreover have "answer_for (kr_target ?q) (Inr (Some k))" by (simp add: answer_for_def)
  ultimately obtain qs where "reach new_form form_step \<lparr>cn_form = snd (detect_answered ?q (Inr (Some k)) ?f), cn_requests = qs,
      cn_offers = cn_offers ?c1 @ answered_key (Inr (Some k))\<rparr>" (is "reach _ _ ?c2") using reach_looked_up by blast
  then have "reach new_form form_step
      (?c2\<lparr>cn_form := (cn_form ?c2)\<lparr>cf_to := tb, cf_mode := ''pgp'', cf_from := [], cf_cc := [], cf_bcc := []\<rparr>\<rparr>)" by (rule reach_edited)
  then show ?thesis
    using assms by (auto simp: looked_up_def detect_started_def detect_answered_def empty_form_def answered_key_def Let_def)
qed

text \<open>
  The lookup need not even succeed. When the lookup for a new recipient fails, the form has no key for it
  any more but still the text of the old key, and that is what is sent, until a lookup succeeds.
\<close>

theorem failed_lookup_keeps_key:
  fixes k :: key_meta
  assumes "toRecipientsForPGP ta = [km_email k]" and "toRecipientsForPGP tb = [b]" and "km_email k \<noteq> b" and "km_armoredPublic k \<noteq> []"
  shows "\<exists>c. reach new_form form_step c \<and> toRecipientsForPGP (cf_to (cn_form c)) = [b] \<and> cf_keyStatus (cn_form c) = ''error''
    \<and> cf_recipientMeta (cn_form c) = None \<and> route_armored (cn_form c) b None = km_armoredPublic k
    \<and> (b, km_armoredPublic k) \<notin> set (cn_offers c)"
proof -
  let ?q = "\<lparr>kr_seq = 2, kr_target = b, kr_preserveManual = False, kr_force = False\<rparr>"
  obtain qs where c: "reach new_form form_step \<lparr>cn_form = looked_up k tb, cn_requests = qs, cn_offers = [(km_email k, km_armoredPublic k)]\<rparr>"
    (is "reach _ _ ?c") using looked_up_reached [OF assms(1)] by blast
  let ?f = "snd (detect_started False (cn_form ?c))"
  have start: "detect_started False (cn_form ?c) = (Some ?q, ?f)"
    using assms(2) by (simp add: detect_started_def looked_up_def empty_form_def manual_match_def)
  have "answer_for (kr_target ?q) (Inl TypeError)" by (simp add: answer_for_def)
  from reach_looked_up [OF c start this] obtain qs' where "reach new_form form_step
    \<lparr>cn_form = snd (detect_answered ?q (Inl TypeError) ?f), cn_requests = qs', cn_offers = cn_offers ?c @ answered_key (Inl TypeError)\<rparr>"
    (is "reach _ _ ?c'") by blast
  then show ?thesis
    by (rule_tac exI [of _ ?c'], intro conjI; use assms in \<open>simp add: detect_started_def detect_answered_def looked_up_def empty_form_def
        answered_key_def route_armored_def manual_match_def local_delivery_def Let_def\<close>)
qed

section \<open>Examples\<close>

definition key_of_al :: key_meta where
  "key_of_al = \<lparr>km_source = JStr ''wkd'', km_fingerprint = JStr ''A'', km_email = ''al@x.org'', km_armoredPublic = ''KA''\<rparr>"

lemma demo_recipients: "toRecipientsForPGP ''al@x.org'' = [''al@x.org'']" "toRecipientsForPGP ''bo@x.org'' = [''bo@x.org'']"
  by code_simp+

theorem known_key_is_recipients_witness:
  "key_known (looked_up key_of_al ''al@x.org'') ''al@x.org''
   \<and> pf_recipientArmored (pgp_message (looked_up key_of_al ''al@x.org'') ''al@x.org'' (Some key_of_al) [] [] []) = ''KA''"
proof -
  let ?a = "km_email key_of_al" and ?f = "looked_up key_of_al (km_email key_of_al)"
  have "toRecipientsForPGP ?a = [?a]" by (simp add: demo_recipients key_of_al_def)
  from looked_up_reached [OF this, of ?a] obtain qs where
    c: "reach new_form form_step \<lparr>cn_form = ?f, cn_requests = qs, cn_offers = [(?a, km_armoredPublic key_of_al)]\<rparr>" by blast
  have known: "key_known ?f ?a" and meta: "cf_recipientMeta ?f = Some key_of_al" by (simp_all add: key_known_def looked_up_def)
  have "pf_recipientArmored (pgp_message ?f ?a (Some key_of_al) [] [] []) = km_armoredPublic key_of_al"
    using known_key_is_recipients [OF c, of ?a, THEN conjunct2, THEN conjunct1] known meta by simp
  then show ?thesis using known by (simp only: key_of_al_def key_meta.simps simp_thms)
qed

theorem failed_lookup_keeps_key_witness:
  "\<exists>c. reach new_form form_step c \<and> toRecipientsForPGP (cf_to (cn_form c)) = [''bo@x.org''] \<and> route_armored (cn_form c) ''bo@x.org'' None = ''KA''"
  using failed_lookup_keeps_key [of "''al@x.org''" key_of_al "''bo@x.org''"] demo_recipients by (auto simp: key_of_al_def)

text \<open>A server that notes the requests and gives the same answer to all of them.\<close>

definition demo_answer :: jsval where
  "demo_answer = JObj [(''armored_public'', JStr ''KB''), (''source'', JStr ''wkd''), (''id'', JStr ''o1'')]"

definition key_server :: "http_request list server" where
  "key_server log rq = (Inr \<lparr>rs_status = 200, rs_body = utf8_encode (json_str demo_answer)\<rparr>, log @ [rq])"

lemma demo_answer_read: "resp_json \<lparr>rs_status = 200, rs_body = utf8_encode (json_str demo_answer)\<rparr> = Inr demo_answer"
  by code_simp

definition sending_vault :: vault where
  "sending_vault = touch 0 (demo_unlocked\<lparr>v_identities := [(fingerprintKeyId16 (JStr ''I''),
     \<lparr>vi_email = JUndef, vi_privateKey = ''I'', vi_publicKey = ''I'', vi_armoredPub = ''I'', vi_armoredPriv = ''I''\<rparr>)]\<rparr>)"

definition changed_form :: compose_form where
  "changed_form = (looked_up key_of_al ''bo@x.org'')\<lparr>cf_from := ''me@x.org''\<rparr>"

definition own_identity :: jsval where
  "own_identity = JObj [(''email'', JStr ''me@x.org''), (''armored_public'', JStr ''I''), (''fingerprint'', JStr ''I'')]"

lemma own_identity_sel:
  "sender_identity ''me@x.org'' [own_identity] = Some own_identity" "getp own_identity ''armored_public'' = JStr ''I''"
  "getp own_identity ''fingerprint'' = JStr ''I''"
  by code_simp+

lemma changed_form_sel:
  "cf_from changed_form = ''me@x.org''" "cf_recipientArmored changed_form = ''KA''" "cf_mode changed_form = ''pgp''" "\<not> cf_busy changed_form"
  "cf_saveToAddressBook changed_form" "cf_to changed_form = ''bo@x.org''" "\<not> key_known changed_form ''bo@x.org''"
  by code_simp+

lemma sending_vault_sel:
  "touch 0 sending_vault = sending_vault" "isUnlocked sending_vault"
  "map_of (v_identities sending_vault) (fingerprintKeyId16 (JStr ''I'')) =
     Some \<lparr>vi_email = JUndef, vi_privateKey = ''I'', vi_publicKey = ''I'', vi_armoredPub = ''I'', vi_armoredPriv = ''I''\<rparr>"
  by (simp_all add: sending_vault_def touch_def isUnlocked_def demo_unlocked_def hydrated_def)

lemma sending_encrypts:
  "encryptAndSignToRecipient (demo_env 0) srv 0 k (CBytes bs) (JStr ''I'') (sending_vault, s) = (Inr (k @ map char_of_byte bs), (sending_vault, s))"
  "encryptToRecipient (demo_env 0) 0 k (CText t) (sending_vault, s) = (Inr (k @ t), (sending_vault, s))"
proof -
  have kid: "fingerprintKeyId16 (JStr ''I'') \<noteq> []" "toUpperCase ''I'' = ''I''" by code_simp+
  show "encryptAndSignToRecipient (demo_env 0) srv 0 k (CBytes bs) (JStr ''I'') (sending_vault, s) = (Inr (k @ map char_of_byte bs), (sending_vault, s))"
    using kid by (simp add: encryptAndSignToRecipient_def ensureIdentityUnlocked_def Let_def bindI_def returnI_def liftI_def read_vault_def getIdentity_def
        sending_vault_sel demo_env_def demo_pgp_def str_or_empty_def js_or_def)
  show "encryptToRecipient (demo_env 0) 0 k (CText t) (sending_vault, s) = (Inr (k @ t), (sending_vault, s))"
    by (simp add: encryptToRecipient_def bindI_def returnI_def liftI_def read_vault_def sending_vault_sel demo_env_def demo_pgp_def)
qed

lemma demo_lookup:
  "\<exists>log'. key_lookup key_server origin r log = (Inr (Some (found_key r demo_answer demo_answer)), log')"
proof -
  have "usable_hit demo_answer" by code_simp
  then show ?thesis
    by (simp add: key_lookup_def getContactKey_def call_def bindI_def returnI_def liftI_def fetch_def key_server_def json_or_status_def resp_ok_def demo_answer_read)
qed

lemma demo_delivery:
  assumes "cf_from f = ''me@x.org''" and "cf_recipientArmored f \<noteq> []" and "\<not> local_delivery f r meta"
  shows "\<exists>st. deliver_pgp True (demo_env 0) key_server 0 ce ce' [own_identity] f r meta body (sending_vault, log) = (Inr demo_answer, st)"
proof -
  let ?m = "pgp_message f r meta body ''I'' ''I''"
  have m: "pf_senderArmored ?m = ''I''" "pf_senderFingerprint ?m = ''I''" "\<not> pf_localDelivery ?m" using assms(3) by (simp_all add: pgp_message_def)
  have post: "\<exists>st. on_server (postOutbox key_server a b c d e) st0 = (Inr demo_answer, st)" for a b c d e st0
    by (simp add: on_server_def postOutbox_def call_def bindI_def liftI_def fetch_def key_server_def json_or_status_def resp_ok_def demo_answer_read)
  have "\<exists>st. sendPGPDirect True (demo_env 0) key_server 0 ce ce' ?m (sending_vault, log) = (Inr demo_answer, st)"
    using post by (simp add: sendPGPDirect_def m Let_def bindI_def returnI_def sending_encrypts)
  then show ?thesis
    using assms by (simp add: deliver_pgp_def own_identity_sel bindI_def returnI_def)
qed


end
