(* ===== verification/Message_Pane.thy ===== *)
theory Message_Pane
  imports Signer_Trust Recovered_Header
begin

text \<open>
  \<open>MessageDetail\<close> of \<^verbatim>\<open>static/mail/mail-app.jsx\<close>: the pane that shows the selected message. Decrypting the body, fetching the
  blob for a cached body, verifying the signature and trusting a key take their time, while the selection may
  change; each is a task that ends later.
\<close>

section \<open>State\<close>

record pane =
  pn_message :: "jsval option"
  pn_unlocked :: bool
  pn_bodyText :: "string option"
  pn_bodyHtml :: string
  pn_bodyView :: string
  pn_attachments :: "attachment list"
  pn_bodyErr :: string
  pn_signature :: signature_state
  pn_busy :: bool
  pn_trustBusy :: bool
  pn_trustErr :: string
  pn_attempted :: jsval
  pn_run :: nat

definition pane_id :: "pane \<Rightarrow> jsval option" where
  "pane_id p = map_option (\<lambda>m. getp m ''id'') (pn_message p)"

text \<open>The effect of another id, and the properties passed by the page.\<close>

definition pane_reset :: "pane \<Rightarrow> pane" where
  "pane_reset p =
     p\<lparr>pn_bodyText := None, pn_bodyHtml := [], pn_bodyView := ''plain'', pn_attachments := [], pn_bodyErr := [],
       pn_signature := NoSignatureState, pn_trustErr := [], pn_attempted := JStr [], pn_run := pn_run p + 1\<rparr>"

definition pane_selected :: "jsval option \<Rightarrow> pane \<Rightarrow> pane" where
  "pane_selected message p =
     (let q = p\<lparr>pn_message := message\<rparr> in if pane_id q = pane_id p then q else pane_reset q)"

text \<open>\<open>decryptBody\<close> begins; the effect calls it, and so does the button.\<close>

definition decrypt_started :: "pane \<Rightarrow> pane" where
  "decrypt_started p = p\<lparr>pn_busy := True, pn_bodyErr := []\<rparr>"

definition pane_effect :: "pane \<Rightarrow> pane option" where
  "pane_effect p =
     (case pn_message p of
        None \<Rightarrow> None
      | Some m \<Rightarrow>
          (let messageID = js_or (getp m ''id'') (JStr []) in
           if \<not> truthy messageID \<or> \<not> pn_unlocked p \<or> pn_busy p \<or> pn_bodyText p \<noteq> None then None
           else if pn_attempted p = messageID then None
           else Some (decrypt_started (p\<lparr>pn_attempted := messageID\<rparr>))))"

definition pane_button :: "pane \<Rightarrow> pane option" where
  "pane_button p = (if pn_message p = None \<or> pn_busy p \<or> pn_bodyText p \<noteq> None then None else Some (decrypt_started p))"

definition show_body :: "string \<Rightarrow> string \<Rightarrow> attachment list \<Rightarrow> pane \<Rightarrow> pane" where
  "show_body bodyText bodyHtml attachments p =
     (let html = trim bodyHtml in
      p\<lparr>pn_bodyText := Some bodyText, pn_bodyHtml := html, pn_bodyView := (if html \<noteq> [] then ''html'' else ''plain''),
        pn_attachments := attachments\<rparr>)"

text \<open>\<open>verifyBodySignature\<close> up to its first \<open>await\<close>, and what follows the last: \<open>proper\<close> says that it has a blob and a fingerprint.\<close>

definition verify_started :: "bool \<Rightarrow> pane \<Rightarrow> pane" where
  "verify_started proper p =
     (if proper then p\<lparr>pn_run := pn_run p + 1, pn_signature := Checking\<rparr> else p\<lparr>pn_signature := NoSignatureState\<rparr>)"

definition verify_ended :: "nat \<Rightarrow> signature_state \<Rightarrow> pane \<Rightarrow> pane" where
  "verify_ended runID verdict p = (if pn_run p \<noteq> runID then p else p\<lparr>pn_signature := verdict\<rparr>)"

definition decrypt_failed :: "exn \<Rightarrow> pane \<Rightarrow> pane" where
  "decrypt_failed e p = p\<lparr>pn_bodyErr := exn_message e, pn_signature := NoSignatureState, pn_busy := False\<rparr>"

text \<open>
  The fetched body: the blob, what is displayed of it, its metadata, and the fingerprint of the key that opened it,
  with the sender whose signature is looked for.
\<close>

definition open_blob ::
  "app_env \<Rightarrow> vault_env \<Rightarrow> 's server \<Rightarrow> bool \<Rightarrow> int \<Rightarrow> jsval list \<Rightarrow> jsval \<Rightarrow> ('s, bytes \<times> mime_entity \<times> metadata option \<times> jsval) vio" where
  "open_blob ae env srv loaded now identities message =
     bindI (on_server (fetchBlob srv (to_string (getp message ''id'')))) (\<lambda>blob.
     bindI (decryptMessageBlobLocally loaded env srv now (CBytes blob) identities) (\<lambda>res.
     liftI (bindR (extractDisplayEnvelope ae (fst res)) (\<lambda>envelope.
            bindR (extractDecryptedMessageMetadata ae (fst res) (Some envelope)) (\<lambda>recovered.
            Inr (blob, envelope, recovered, snd res))))))"

definition signature_from :: "metadata option \<Rightarrow> jsval \<Rightarrow> string" where
  "signature_from recovered message =
     (let fromAddr = (case recovered of Some md \<Rightarrow> md_from_addr md | None \<Rightarrow> []) in
      if fromAddr \<noteq> [] then fromAddr else str_or_empty (getp message ''from_addr''))"

section \<open>Trusting a key\<close>

definition trustable :: "pane \<Rightarrow> trust_state option" where
  "trustable p =
     (case pn_signature p of
        Verdict t \<Rightarrow> if tr_trustArmored t = [] \<or> tr_senderEmail t = [] then None else Some t
      | _ \<Rightarrow> None)"

definition trust_request :: "'s server \<Rightarrow> trust_state \<Rightarrow> ('s, jsval) io" where
  "trust_request srv t =
     putContactKey srv (JStr (tr_senderEmail t)) (JStr (tr_trustArmored t))
       (JStr (if tr_trustSource t \<noteq> [] then ''trusted:'' @ take 48 (tr_trustSource t) else ''message'')) (JBool True)"

definition trust_started :: "pane \<Rightarrow> pane" where
  "trust_started p = p\<lparr>pn_trustBusy := True, pn_trustErr := []\<rparr>"

definition trust_ended :: "exn option \<Rightarrow> pane \<Rightarrow> pane" where
  "trust_ended e p = p\<lparr>pn_trustBusy := False, pn_trustErr := (case e of Some x \<Rightarrow> exn_message x | None \<Rightarrow> pn_trustErr p)\<rparr>"

section \<open>The pane as a machine\<close>

text \<open>
  A task carries the id of the message it works for. \<open>dt_bodyOf\<close>, \<open>dt_errorOf\<close> and \<open>dt_signatureOf\<close> record whose body, error and
  verdict are shown; \<open>dt_lastOf\<close> whose blob the references for another verification hold.
\<close>

datatype pane_task =
    Opening "jsval option"
  | Fetching "jsval option"
  | Verifying nat "jsval option"
  | Trusting
  | Reverifying nat "jsval option"

record detail =
  dt_pane :: pane
  dt_tasks :: "pane_task list"
  dt_bodyOf :: "jsval option"
  dt_errorOf :: "jsval option"
  dt_signatureOf :: "jsval option"
  dt_lastOf :: "jsval option"

definition selected :: "jsval option \<Rightarrow> detail \<Rightarrow> detail" where
  "selected message d = d\<lparr>dt_pane := pane_selected message (dt_pane d)\<rparr>"

definition body_opening :: "pane \<Rightarrow> detail \<Rightarrow> detail" where
  "body_opening p d = d\<lparr>dt_pane := p, dt_tasks := Opening (pane_id p) # dt_tasks d\<rparr>"

text \<open>A call of \<open>verifyBodySignature\<close> for message \<open>i\<close>.\<close>

definition verifying :: "bool \<Rightarrow> jsval option \<Rightarrow> detail \<Rightarrow> detail" where
  "verifying proper i d =
     (let p = verify_started proper (dt_pane d) in
      if proper then d\<lparr>dt_pane := p, dt_tasks := Verifying (pn_run p) i # dt_tasks d, dt_signatureOf := i, dt_lastOf := i\<rparr>
      else d\<lparr>dt_pane := p\<rparr>)"

text \<open>The same from \<open>onTrustSigner\<close>, with the references of the last call; it waits for the end.\<close>

definition reverifying :: "detail \<Rightarrow> detail" where
  "reverifying d =
     (let p = verify_started True (dt_pane d) in
      d\<lparr>dt_pane := p, dt_tasks := Reverifying (pn_run p) (dt_lastOf d) # dt_tasks d, dt_signatureOf := dt_lastOf d\<rparr>)"

definition task_ended :: "pane_task \<Rightarrow> detail \<Rightarrow> detail" where
  "task_ended t d = d\<lparr>dt_tasks := remove1 t (dt_tasks d)\<rparr>"

definition not_busy :: "detail \<Rightarrow> detail" where
  "not_busy d = d\<lparr>dt_pane := (dt_pane d)\<lparr>pn_busy := False\<rparr>\<rparr>"

definition body_shown :: "jsval option \<Rightarrow> string \<Rightarrow> string \<Rightarrow> attachment list \<Rightarrow> detail \<Rightarrow> detail" where
  "body_shown i bodyText bodyHtml atts d = d\<lparr>dt_pane := show_body bodyText bodyHtml atts (dt_pane d), dt_bodyOf := i\<rparr>"

inductive pane_step :: "detail \<Rightarrow> detail \<Rightarrow> bool" where
  selected: "pane_step d (selected message d)"
| unlocked: "pane_step d (d\<lparr>dt_pane := (dt_pane d)\<lparr>pn_unlocked := b\<rparr>\<rparr>)"
| effect: "pane_effect (dt_pane d) = Some p \<Longrightarrow> pane_step d (body_opening p d)"
| button: "pane_button (dt_pane d) = Some p \<Longrightarrow> pane_step d (body_opening p d)"
| from_cache: "Opening i \<in> set (dt_tasks d) \<Longrightarrow>
    pane_step d (body_shown i bodyText bodyHtml [] ((task_ended (Opening i) d)\<lparr>dt_tasks := Fetching i # dt_tasks (task_ended (Opening i) d)\<rparr>))"
| fetched: "Fetching i \<in> set (dt_tasks d) \<Longrightarrow> pane_step d (not_busy (verifying proper i (task_ended (Fetching i) d)))"
| not_fetched: "Fetching i \<in> set (dt_tasks d) \<Longrightarrow> pane_step d (not_busy (task_ended (Fetching i) d))"
| decrypted: "Opening i \<in> set (dt_tasks d) \<Longrightarrow>
    pane_step d (not_busy (verifying proper i (body_shown i bodyText bodyHtml atts (task_ended (Opening i) d))))"
| failed: "Opening i \<in> set (dt_tasks d) \<Longrightarrow>
    pane_step d ((task_ended (Opening i) d)\<lparr>dt_pane := decrypt_failed e (dt_pane d), dt_errorOf := i\<rparr>)"
| verified: "Verifying runID i \<in> set (dt_tasks d) \<Longrightarrow>
    pane_step d ((task_ended (Verifying runID i) d)\<lparr>dt_pane := verify_ended runID verdict (dt_pane d)\<rparr>)"
| trust: "trustable (dt_pane d) = Some t \<Longrightarrow> \<not> pn_trustBusy (dt_pane d) \<Longrightarrow>
    pane_step d (d\<lparr>dt_pane := trust_started (dt_pane d), dt_tasks := Trusting # dt_tasks d\<rparr>)"
| trust_refused: "Trusting \<in> set (dt_tasks d) \<Longrightarrow>
    pane_step d ((task_ended Trusting d)\<lparr>dt_pane := trust_ended (Some e) (dt_pane d)\<rparr>)"
| trust_stored: "Trusting \<in> set (dt_tasks d) \<Longrightarrow> pane_step d (reverifying (task_ended Trusting d))"
| reverified: "Reverifying runID i \<in> set (dt_tasks d) \<Longrightarrow>
    pane_step d ((task_ended (Reverifying runID i) d)\<lparr>dt_pane := trust_ended None (verify_ended runID verdict (dt_pane d))\<rparr>)"

definition new_pane :: "detail \<Rightarrow> bool" where
  "new_pane d =
     (pn_message (dt_pane d) = None \<and> pn_bodyText (dt_pane d) = None \<and> pn_bodyErr (dt_pane d) = [] \<and> pn_signature (dt_pane d) = NoSignatureState
      \<and> \<not> pn_busy (dt_pane d) \<and> \<not> pn_trustBusy (dt_pane d) \<and> dt_tasks d = [])"

text \<open>Steps of a reader who waits: the selection moves to another message only when nothing is being opened or trusted.\<close>

definition waits :: "detail \<Rightarrow> detail \<Rightarrow> bool" where
  "waits d d' =
     (pane_step d d'
      \<and> (pane_id (dt_pane d') \<noteq> pane_id (dt_pane d) \<longrightarrow> \<not> pn_busy (dt_pane d) \<and> \<not> pn_trustBusy (dt_pane d)))"

fun opens :: "pane_task \<Rightarrow> bool" where
  "opens (Opening i) = True"
| "opens (Fetching i) = True"
| "opens _ = False"

fun trusts :: "pane_task \<Rightarrow> bool" where
  "trusts Trusting = True"
| "trusts (Reverifying r i) = True"
| "trusts _ = False"

fun task_run :: "pane_task \<Rightarrow> nat" where
  "task_run (Verifying r i) = r"
| "task_run (Reverifying r i) = r"
| "task_run _ = 0"

definition how_many :: "(pane_task \<Rightarrow> bool) \<Rightarrow> pane_task list \<Rightarrow> nat" where
  "how_many P ts = length (filter P ts)"

lemma how_many_simps [simp]: "how_many P [] = 0" "how_many P (t # ts) = of_bool (P t) + how_many P ts"
  by (simp_all add: how_many_def)

lemma how_many_remove1: "t \<in> set ts \<Longrightarrow> how_many P ts = of_bool (P t) + how_many P (remove1 t ts)"
  by (induction ts) auto

lemma how_many_none: "how_many P ts = 0 \<longleftrightarrow> (\<forall>t \<in> set ts. \<not> P t)"
  by (simp add: how_many_def filter_empty_conv)

text \<open>Nothing is done twice at a time, and the tasks that verify have numbers that were given.\<close>

definition pane_inv :: "detail \<Rightarrow> bool" where
  "pane_inv d =
     (how_many opens (dt_tasks d) = of_bool (pn_busy (dt_pane d))
      \<and> how_many trusts (dt_tasks d) = of_bool (pn_trustBusy (dt_pane d))
      \<and> (\<forall>t \<in> set (dt_tasks d). task_run t \<le> pn_run (dt_pane d)))"

lemmas pane_defs = selected_def pane_selected_def pane_reset_def body_opening_def decrypt_started_def body_shown_def show_body_def
  task_ended_def not_busy_def verifying_def reverifying_def verify_started_def verify_ended_def decrypt_failed_def
  trust_started_def trust_ended_def pane_id_def Let_def

lemma pane_effectD: "pane_effect p = Some q \<Longrightarrow> \<not> pn_busy p \<and> (\<exists>a. q = decrypt_started (p\<lparr>pn_attempted := a\<rparr>))"
  by (auto simp: pane_effect_def Let_def split: option.splits if_splits)

lemma pane_buttonD: "pane_button p = Some q \<Longrightarrow> \<not> pn_busy p \<and> q = decrypt_started p"
  by (auto simp: pane_button_def split: if_splits)

lemma Suc_of_bool [simp]: "Suc n = of_bool b \<longleftrightarrow> b \<and> n = 0"
  by (cases b) auto

text \<open>What a state looks like to the task that ends in it.\<close>

lemma pane_inv_task:
  assumes "pane_inv d" and "t \<in> set (dt_tasks d)"
  shows "of_bool (opens t) + how_many opens (remove1 t (dt_tasks d)) = of_bool (pn_busy (dt_pane d))"
    and "of_bool (trusts t) + how_many trusts (remove1 t (dt_tasks d)) = of_bool (pn_trustBusy (dt_pane d))"
    and "\<forall>u \<in> set (remove1 t (dt_tasks d)). task_run u \<le> pn_run (dt_pane d)" and "task_run t \<le> pn_run (dt_pane d)"
  using assms how_many_remove1 [OF assms(2)] notin_set_remove1 by (auto simp: pane_inv_def)

lemma pane_inv_step:
  assumes "pane_inv d" and "pane_step d d'"
  shows "pane_inv d'"
  using assms(2,1)
proof cases
  case (effect p)
  then show ?thesis using assms(1) by (auto dest!: pane_effectD simp: pane_inv_def pane_defs)
next
  case (button p)
  then show ?thesis using assms(1) by (auto dest!: pane_buttonD simp: pane_inv_def pane_defs)
next
  case (decrypted i proper bodyText bodyHtml atts)
  then show ?thesis using pane_inv_task [OF assms(1) decrypted(2)] by (auto simp: pane_inv_def pane_defs le_SucI split: if_splits)
next
  case (fetched i proper)
  then show ?thesis using pane_inv_task [OF assms(1) fetched(2)] by (auto simp: pane_inv_def pane_defs le_SucI split: if_splits)
next
  case (from_cache i bodyText bodyHtml)
  then show ?thesis using pane_inv_task [OF assms(1) from_cache(2)] by (auto simp: pane_inv_def pane_defs)
next
  case (not_fetched i)
  then show ?thesis using pane_inv_task [OF assms(1) not_fetched(2)] by (auto simp: pane_inv_def pane_defs)
next
  case (failed i e)
  then show ?thesis using pane_inv_task [OF assms(1) failed(2)] by (auto simp: pane_inv_def pane_defs)
next
  case (verified runID i verdict)
  then show ?thesis using pane_inv_task [OF assms(1) verified(2)] by (auto simp: pane_inv_def pane_defs)
next
  case (trust_refused e)
  then show ?thesis using pane_inv_task [OF assms(1) trust_refused(2)] by (auto simp: pane_inv_def pane_defs)
next
  case trust_stored
  then show ?thesis using pane_inv_task [OF assms(1) trust_stored(2)] by (auto simp: pane_inv_def pane_defs le_SucI)
next
  case (reverified runID i verdict)
  then show ?thesis using pane_inv_task [OF assms(1) reverified(2)] by (auto simp: pane_inv_def pane_defs)
qed (use assms(1) in \<open>auto simp: pane_inv_def pane_defs le_SucI\<close>)

section \<open>Whose body is shown\<close>

text \<open>A task that works for the message with id \<open>i\<close>, or can no longer have an effect.\<close>

fun own_task :: "nat \<Rightarrow> jsval option \<Rightarrow> jsval option \<Rightarrow> pane_task \<Rightarrow> bool" where
  "own_task run i l (Opening j) = (j = i)"
| "own_task run i l (Fetching j) = (j = i)"
| "own_task run i l (Verifying r j) = (r = run \<longrightarrow> j = i)"
| "own_task run i l Trusting = (l = i)"
| "own_task run i l (Reverifying r j) = (r = run \<longrightarrow> j = i)"

definition shows_own :: "detail \<Rightarrow> bool" where
  "shows_own d =
     (let p = dt_pane d; i = pane_id p in
      (pn_bodyText p \<noteq> None \<longrightarrow> dt_bodyOf d = i) \<and> (pn_bodyErr p \<noteq> [] \<longrightarrow> dt_errorOf d = i)
      \<and> (pn_signature p \<noteq> NoSignatureState \<longrightarrow> dt_signatureOf d = i \<and> dt_lastOf d = i))"

definition owned :: "detail \<Rightarrow> bool" where
  "owned d =
     (pane_inv d \<and> shows_own d
      \<and> (\<forall>t \<in> set (dt_tasks d). own_task (pn_run (dt_pane d)) (pane_id (dt_pane d)) (dt_lastOf d) t)
      \<and> (\<forall>t \<in> set (dt_tasks d). \<forall>j. (t = Verifying (pn_run (dt_pane d)) j \<or> t = Reverifying (pn_run (dt_pane d)) j)
           \<longrightarrow> dt_signatureOf d = j \<and> dt_lastOf d = j))"

lemma own_task_next: "own_task run i l t \<Longrightarrow> task_run t \<le> run \<Longrightarrow> own_task (Suc run) i i t"
  by (cases t) auto

lemma own_task_stale: "task_run t \<le> run \<Longrightarrow> \<not> opens t \<Longrightarrow> \<not> trusts t \<Longrightarrow> own_task (Suc run) i l t"
  by (cases t) auto

lemma run_not_next: "\<forall>t \<in> set ts. task_run t \<le> run \<Longrightarrow> Verifying (Suc run) j \<notin> set ts \<and> Reverifying (Suc run) j \<notin> set ts"
  by force

lemma owned_task:
  assumes "owned d" and "t \<in> set (dt_tasks d)"
  shows "own_task (pn_run (dt_pane d)) (pane_id (dt_pane d)) (dt_lastOf d) t"
    and "t = Verifying (pn_run (dt_pane d)) j \<or> t = Reverifying (pn_run (dt_pane d)) j \<Longrightarrow> dt_signatureOf d = j \<and> dt_lastOf d = j"
  using assms by (auto simp: owned_def)

lemma owned_remove:
  assumes "owned d"
  shows "\<forall>u \<in> set (remove1 t (dt_tasks d)). own_task (pn_run (dt_pane d)) (pane_id (dt_pane d)) (dt_lastOf d) u \<and> task_run u \<le> pn_run (dt_pane d)
      \<and> (\<forall>j. u = Verifying (pn_run (dt_pane d)) j \<or> u = Reverifying (pn_run (dt_pane d)) j \<longrightarrow> dt_signatureOf d = j \<and> dt_lastOf d = j)"
  using assms notin_set_remove1 by (auto simp: owned_def pane_inv_def)

lemma owned_selected:
  assumes "owned d" and "pane_id (dt_pane (selected m d)) \<noteq> pane_id (dt_pane d) \<longrightarrow> \<not> pn_busy (dt_pane d) \<and> \<not> pn_trustBusy (dt_pane d)"
  shows "owned (selected m d)"
proof -
  let ?p = "(dt_pane d)\<lparr>pn_message := m\<rparr>"
  have inv: "pane_inv (selected m d)" using assms(1) pane_inv_step [OF _ pane_step.selected] by (simp add: owned_def)
  show ?thesis
  proof (cases "pane_id ?p = pane_id (dt_pane d)")
    case True
    then show ?thesis using assms(1) inv by (simp add: owned_def shows_own_def selected_def pane_selected_def Let_def)
  next
    case False
    then have p: "dt_pane (selected m d) = pane_reset ?p" by (simp add: selected_def pane_selected_def Let_def)
    moreover have "pane_id (pane_reset ?p) = pane_id ?p" by (simp add: pane_reset_def pane_id_def)
    ultimately have idle: "\<not> pn_busy (dt_pane d)" "\<not> pn_trustBusy (dt_pane d)" using assms(2) False by auto
    have t: "task_run t \<le> pn_run (dt_pane d) \<and> \<not> opens t \<and> \<not> trusts t" if "t \<in> set (dt_tasks d)" for t
      using assms(1) idle that by (auto simp: owned_def pane_inv_def how_many_none)
    have "\<forall>t \<in> set (dt_tasks d). own_task (Suc (pn_run (dt_pane d))) i l t" for i l using t own_task_stale by blast
    moreover have "Verifying (Suc (pn_run (dt_pane d))) j \<notin> set (dt_tasks d) \<and> Reverifying (Suc (pn_run (dt_pane d))) j \<notin> set (dt_tasks d)" for j
      using run_not_next t by blast
    moreover have "dt_tasks (selected m d) = dt_tasks d" "pn_run (dt_pane (selected m d)) = Suc (pn_run (dt_pane d))"
      by (simp_all add: p) (simp_all add: selected_def pane_reset_def)
    ultimately show ?thesis using inv by (auto simp: owned_def shows_own_def p Let_def) (auto simp: pane_reset_def)
  qed
qed

lemma owned_step:
  assumes "owned d" and "waits d d'"
  shows "owned d'"
proof -
  have step: "pane_step d d'" and calm: "pane_id (dt_pane d') \<noteq> pane_id (dt_pane d) \<longrightarrow> \<not> pn_busy (dt_pane d) \<and> \<not> pn_trustBusy (dt_pane d)"
    using assms(2) by (simp_all add: waits_def)
  have inv: "pane_inv d'" using assms(1) step by (auto simp: owned_def intro: pane_inv_step)
  have own: "shows_own d" using assms(1) by (simp add: owned_def)
  from step show ?thesis
  proof cases
    case (selected m)
    then show ?thesis using owned_selected [OF assms(1)] calm by blast
  next
    case (effect p)
    then show ?thesis using assms(1) inv by (auto dest!: pane_effectD simp: owned_def shows_own_def pane_defs)
  next
    case (button p)
    then show ?thesis using assms(1) inv by (auto dest!: pane_buttonD simp: owned_def shows_own_def pane_defs)
  next
    case (decrypted i proper bodyText bodyHtml atts)
    then show ?thesis using owned_task(1) [OF assms(1) decrypted(2)] owned_remove [OF assms(1), of "Opening i"] own inv
      by (auto simp: owned_def shows_own_def pane_defs own_task_next split: if_splits)
  next
    case (fetched i proper)
    then show ?thesis using owned_task(1) [OF assms(1) fetched(2)] owned_remove [OF assms(1), of "Fetching i"] own inv
      by (auto simp: owned_def shows_own_def pane_defs own_task_next split: if_splits)
  next
    case (from_cache i bodyText bodyHtml)
    then show ?thesis using owned_task(1) [OF assms(1) from_cache(2)] owned_remove [OF assms(1), of "Opening i"] own inv
      by (auto simp: owned_def shows_own_def pane_defs)
  next
    case (not_fetched i)
    then show ?thesis using owned_remove [OF assms(1), of "Fetching i"] own inv by (auto simp: owned_def shows_own_def pane_defs)
  next
    case (failed i e)
    then show ?thesis using owned_task(1) [OF assms(1) failed(2)] owned_remove [OF assms(1), of "Opening i"] own inv
      by (auto simp: owned_def shows_own_def pane_defs)
  next
    case (verified runID i verdict)
    then show ?thesis using owned_task [OF assms(1) verified(2)] owned_remove [OF assms(1), of "Verifying runID i"] own inv
      by (auto simp: owned_def shows_own_def pane_defs split: if_splits)
  next
    case (trust_refused e)
    then show ?thesis using owned_remove [OF assms(1), of Trusting] own inv by (auto simp: owned_def shows_own_def pane_defs)
  next
    case trust_stored
    then show ?thesis using owned_task(1) [OF assms(1) trust_stored(2)] owned_remove [OF assms(1), of Trusting] own inv
      by (auto simp: owned_def shows_own_def pane_defs own_task_next)
  next
    case (reverified runID i verdict)
    then show ?thesis using owned_task [OF assms(1) reverified(2)] owned_remove [OF assms(1), of "Reverifying runID i"] own inv
      by (auto simp: owned_def shows_own_def pane_defs split: if_splits)
  next
    case (unlocked b)
    then show ?thesis using assms(1) inv by (auto simp: owned_def shows_own_def pane_defs)
  next
    case (trust t)
    then show ?thesis using assms(1) inv by (auto simp: owned_def shows_own_def pane_defs trustable_def split: signature_state.splits)
  qed
qed

interpretation patient_pane: invariant_system new_pane waits owned
proof
  show "owned d" if "new_pane d" for d using that by (auto simp: new_pane_def owned_def pane_inv_def shows_own_def)
qed (rule owned_step)

interpretation message_pane: invariant_system new_pane pane_step pane_inv
proof
  show "pane_inv d" if "new_pane d" for d using that by (auto simp: new_pane_def pane_inv_def)
qed (rule pane_inv_step)


section \<open>A reader who does not wait\<close>

definition empty_detail :: detail where
  "empty_detail =
     \<lparr>dt_pane = \<lparr>pn_message = None, pn_unlocked = True, pn_bodyText = None, pn_bodyHtml = [], pn_bodyView = ''plain'', pn_attachments = [],
        pn_bodyErr = [], pn_signature = NoSignatureState, pn_busy = False, pn_trustBusy = False, pn_trustErr = [], pn_attempted = JStr [], pn_run = 0\<rparr>,
      dt_tasks = [], dt_bodyOf = None, dt_errorOf = None, dt_signatureOf = None, dt_lastOf = None\<rparr>"

definition opening_first :: "jsval \<Rightarrow> detail" where
  "opening_first a =
     (let d = selected (Some a) empty_detail in body_opening (decrypt_started ((dt_pane d)\<lparr>pn_attempted := getp a ''id''\<rparr>)) d)"

lemma opening_first_reached:
  assumes "truthy (getp a ''id'')" and "getp a ''id'' \<noteq> JStr []"
  shows "waits (selected (Some a) empty_detail) (opening_first a)" and "waits empty_detail (selected (Some a) empty_detail)"
proof -
  let ?d = "selected (Some a) empty_detail"
  have "pane_effect (dt_pane ?d) = Some (decrypt_started ((dt_pane ?d)\<lparr>pn_attempted := getp a ''id''\<rparr>))"
    using assms by (simp add: pane_effect_def selected_def pane_selected_def pane_reset_def pane_id_def empty_detail_def js_or_def Let_def)
  then have "pane_step ?d (opening_first a)" unfolding opening_first_def Let_def by (rule pane_step.effect)
  moreover have "pane_id (dt_pane (opening_first a)) = pane_id (dt_pane ?d)"
    by (simp add: opening_first_def body_opening_def decrypt_started_def pane_id_def Let_def)
  ultimately show "waits ?d (opening_first a)" by (simp add: waits_def)
  show "waits empty_detail ?d" by (simp add: waits_def pane_step.selected) (simp add: empty_detail_def)
qed

lemma waits_reach: "reach new_pane waits d \<Longrightarrow> reach new_pane pane_step d"
  by (induction rule: reach.induct) (auto simp: waits_def intro: reach_init reach_step)

lemma opening_first_reach:
  assumes "truthy (getp a ''id'')" and "getp a ''id'' \<noteq> JStr []"
  shows "reach new_pane waits (opening_first a)"
proof -
  have "new_pane empty_detail" by (simp add: new_pane_def empty_detail_def)
  then show ?thesis using opening_first_reached [OF assms] by (blast intro: reach_init reach_step)
qed

text \<open>
  C21. A reader who moves on to another message while the first is still being decrypted gets the wrong
  one: there is a run after which the second message is selected, with the body of the first below its
  header, and the verdict on the signature of the first; nothing is under way any more, and neither the
  effect nor the button decrypts the second message.
\<close>

theorem wrong_body_shown:
  assumes "truthy (getp a ''id'')" and "getp a ''id'' \<noteq> JStr []" and "getp b ''id'' \<noteq> getp a ''id''"
  shows "\<exists>d. reach new_pane pane_step d \<and> pn_message (dt_pane d) = Some b
    \<and> pn_bodyText (dt_pane d) = Some bodyText \<and> dt_bodyOf d = Some (getp a ''id'')
    \<and> pn_signature (dt_pane d) = verdict \<and> dt_signatureOf d = Some (getp a ''id'')
    \<and> dt_tasks d = [] \<and> pane_effect (dt_pane d) = None \<and> pane_button (dt_pane d) = None"
proof -
  let ?i = "Some (getp a ''id'')"
  let ?d1 = "selected (Some b) (opening_first a)"
  let ?d2 = "not_busy (verifying True ?i (body_shown ?i bodyText [] [] (task_ended (Opening ?i) ?d1)))"
  let ?r = "pn_run (dt_pane ?d2)"
  let ?d3 = "(task_ended (Verifying ?r ?i) ?d2)\<lparr>dt_pane := verify_ended ?r verdict (dt_pane ?d2)\<rparr>"
  have t1: "dt_tasks ?d1 = [Opening ?i]"
    by (simp add: selected_def opening_first_def body_opening_def empty_detail_def pane_id_def decrypt_started_def pane_selected_def pane_reset_def Let_def)
  have t2: "dt_tasks ?d2 = [Verifying ?r ?i]"
    using t1 by (simp add: not_busy_def verifying_def verify_started_def body_shown_def task_ended_def Let_def)
  have "reach new_pane pane_step ?d1"
    using waits_reach [OF opening_first_reach [OF assms(1,2)]] by (rule reach_step) (rule pane_step.selected)
  then have "reach new_pane pane_step ?d2" using t1 by (elim reach_step) (rule pane_step.decrypted, simp)
  then have r: "reach new_pane pane_step ?d3" using t2 by (elim reach_step) (rule pane_step.verified, simp)
  have m: "pn_message (dt_pane ?d1) = Some b" by (simp add: selected_def pane_selected_def pane_reset_def Let_def)
  show ?thesis
    by (rule exI [of _ ?d3], intro conjI r; use m t2 in \<open>simp add: verify_ended_def task_ended_def not_busy_def verifying_def verify_started_def
        body_shown_def show_body_def pane_effect_def pane_button_def Let_def split: option.split\<close>)
qed


theorem wrong_body_shown_witness:
  "\<exists>d. reach new_pane pane_step d \<and> pn_message (dt_pane d) = Some (JObj [(''id'', JStr ''m2'')])
    \<and> pn_bodyText (dt_pane d) = Some ''text of m1'' \<and> dt_bodyOf d = Some (JStr ''m1'') \<and> pane_effect (dt_pane d) = None"
proof -
  let ?a = "JObj [(''id'', JStr ''m1'')]" and ?b = "JObj [(''id'', JStr ''m2'')]"
  have i: "getp ?a ''id'' = JStr ''m1''" "getp ?b ''id'' = JStr ''m2''" "truthy (JStr ''m1'')" by code_simp+
  then have "truthy (getp ?a ''id'')" "getp ?a ''id'' \<noteq> JStr []" "getp ?b ''id'' \<noteq> getp ?a ''id''" by (simp_all only: i) simp_all
  from wrong_body_shown [OF this, of "''text of m1''" NoSignatureState] show ?thesis unfolding i(1) by blast
qed

end
