(* ===== verification/Unlock_Guard.thy ===== *)
theory Unlock_Guard
  imports Vault_Account Mail_Api
begin

text \<open>
  \<^verbatim>\<open>static/mail/unlock-modal.jsx\<close>: the guard that asks the vault every second whether it is unlocked, and the
  dialogue that unlocks it in place, with the requests it makes. Progress texts are not modelled.
\<close>

section \<open>The guard\<close>

record guard =
  gd_vaultHydrated :: bool
  gd_unlocked :: bool
  gd_modalOpen :: bool
  gd_idleLockout :: bool
  gd_prevUnlocked :: bool

definition guard_disabled :: "guard \<Rightarrow> guard" where
  "guard_disabled g = \<lparr>gd_vaultHydrated = True, gd_unlocked = False, gd_modalOpen = False, gd_idleLockout = False, gd_prevUnlocked = False\<rparr>"

definition guard_started :: "guard \<Rightarrow> guard" where
  "guard_started g = g\<lparr>gd_vaultHydrated := False, gd_prevUnlocked := False\<rparr>"

definition guard_hydrated :: "vault_env \<Rightarrow> string \<Rightarrow> int \<Rightarrow> guard \<times> vault \<Rightarrow> guard \<times> vault" where
  "guard_hydrated env accountEmail now st =
     (let v = snd (tryRestoreAccountFromSession env now (JStr accountEmail) (snd st)); isUnl = isUnlocked v in
      ((fst st)\<lparr>gd_prevUnlocked := isUnl, gd_unlocked := isUnl, gd_modalOpen := \<not> isUnl, gd_vaultHydrated := True\<rparr>, v))"

text \<open>The effect of a change of \<open>unlocked\<close> opens the dialogue.\<close>

definition unlocked_changed :: "guard \<Rightarrow> guard \<Rightarrow> guard" where
  "unlocked_changed before g =
     (if gd_unlocked g = gd_unlocked before \<or> gd_unlocked g \<or> \<not> gd_vaultHydrated g then g else g\<lparr>gd_modalOpen := True\<rparr>)"

definition tick :: "vault_env \<Rightarrow> string \<Rightarrow> int \<Rightarrow> guard \<times> vault \<Rightarrow> guard \<times> vault" where
  "tick env accountEmail now st =
     (let g = fst st;
          v = (if \<not> isUnlocked (snd st) \<and> accountEmail \<noteq> [] then snd (tryRestoreAccountFromSession env now (JStr accountEmail) (snd st)) else snd st);
          isUnl = isUnlocked v; prev = gd_prevUnlocked g;
          g1 = (if prev \<and> \<not> isUnl then g\<lparr>gd_idleLockout := True, gd_modalOpen := True\<rparr>
                else if \<not> prev \<and> isUnl then g\<lparr>gd_modalOpen := False, gd_idleLockout := False\<rparr> else g)
      in (unlocked_changed g (g1\<lparr>gd_prevUnlocked := isUnl, gd_unlocked := isUnl\<rparr>), v))"

definition openModal :: "guard \<Rightarrow> guard" where
  "openModal g = g\<lparr>gd_modalOpen := True\<rparr>"

definition closeModal :: "guard \<Rightarrow> guard" where
  "closeModal g = g\<lparr>gd_modalOpen := False\<rparr>"

definition onUnlocked :: "guard \<Rightarrow> guard" where
  "onUnlocked g = g\<lparr>gd_unlocked := True, gd_modalOpen := False, gd_idleLockout := False\<rparr>"

text \<open>A click on the state of the vault in \<^verbatim>\<open>mail-app.jsx\<close> locks it.\<close>

definition onVaultClick :: "vault_env \<Rightarrow> bool \<Rightarrow> guard \<times> vault \<Rightarrow> guard \<times> vault" where
  "onVaultClick env hasMailCache st =
     (let v = (if gd_unlocked (fst st) then vault_zero env hasMailCache True False (snd st) else snd st)
      in (openModal (fst st), v))"

section \<open>The dialogue\<close>

record unlock_modal =
  um_password :: string
  um_busy :: bool
  um_err :: string
  um_needsBootstrap :: bool
  um_activeStage :: string

definition modal_closed :: "unlock_modal \<Rightarrow> unlock_modal" where
  "modal_closed m = m\<lparr>um_password := [], um_err := [], um_needsBootstrap := False, um_activeStage := ''idle''\<rparr>"

definition modal_probed :: "http_response result \<Rightarrow> unlock_modal \<Rightarrow> unlock_modal" where
  "modal_probed answer m =
     (case answer of
        Inl _ \<Rightarrow> m
      | Inr r \<Rightarrow>
          if \<not> resp_ok r then m
          else (case resp_json r of Inr j \<Rightarrow> if nullish j then m else m\<lparr>um_needsBootstrap := \<not> truthy (getp j ''bootstrapped'')\<rparr> | Inl _ \<Rightarrow> m))"

definition stageState :: "unlock_modal \<Rightarrow> string \<Rightarrow> string" where
  "stageState m stageId =
     (let order = [''session'', ''secure'', ''open''];
          index = (\<lambda>x. if x \<in> set order then length (takeWhile (\<lambda>y. y \<noteq> x) order) else 3)
      in
      if um_activeStage m = ''idle'' then ''pending''
      else if um_activeStage m = ''done'' then ''complete''
      else if index (um_activeStage m) = 3 \<or> index stageId = 3 then ''pending''
      else if index stageId < index (um_activeStage m) then ''complete''
      else if index stageId = index (um_activeStage m) then ''active''
      else ''pending'')"

definition bootstrap_body :: "bootstrap_account \<Rightarrow> bootstrap_identity \<Rightarrow> jsval" where
  "bootstrap_body acc ident =
     JObj [(''armored_public'', JStr (ba_armored_public acc)), (''wrapped_secret_b64'', JStr (ba_wrapped_secret_b64 acc)),
           (''kdf'', JStr (ba_kdf acc)), (''kdf_salt_b64'', JStr (ba_kdf_salt_b64 acc)),
           (''kdf_params_json'', JStr (json_str (js_or (ba_kdf_params acc) (JObj [])))),
           (''identities'', JArr [JObj
              [(''email'', JStr (bi_email ident)), (''armored_public'', JStr (bi_armored_public ident)), (''primary_uid'', JStr (bi_email ident)),
               (''wrapped_secret_b64'', JStr (kg_bytesToB64 (utf8_encode (bi_wrapped_secret_armored ident)))), (''is_default'', JBool True)]])]"

text \<open>\<open>if (!r.ok) throw new Error(label + (j.error || r.status))\<close>.\<close>

definition upload_checked :: "string \<Rightarrow> http_response \<Rightarrow> unit result" where
  "upload_checked label r =
     (if resp_ok r then Inr ()
      else bindR (getR (resp_json_or_empty r) ''error'') (\<lambda>e.
           Inl (Error (label @ to_string (js_or e (JStr (status_string r)))))))"

definition bootstrapNew :: "vault_env \<Rightarrow> 's server \<Rightarrow> bytes \<times> bytes \<Rightarrow> string \<Rightarrow> string \<Rightarrow> ('s, unit) vio" where
  "bootstrapNew env srv rnd email password =
     bindI (liftI (bootstrap (ve_cr env) (fst rnd) (snd rnd) email password)) (\<lambda>(acc, ident).
     bindI (fetch_v srv (json_request POST ''/api/v1/account-key/bootstrap'' (bootstrap_body acc ident))) (\<lambda>r.
     liftI (upload_checked ''bootstrap upload failed: '' r)))"

definition mint_body :: "string \<Rightarrow> string \<Rightarrow> string \<Rightarrow> jsval" where
  "mint_body email publicKey wrappedArmored =
     JObj [(''email'', JStr email), (''armored_public'', JStr publicKey), (''primary_uid'', JStr email),
           (''wrapped_secret_b64'', JStr (kg_bytesToB64 (utf8_encode wrappedArmored))), (''is_default'', JBool True)]"

definition mintIdentity :: "vault_env \<Rightarrow> 's server \<Rightarrow> string \<Rightarrow> string \<Rightarrow> ('s, unit) vio" where
  "mintIdentity env srv email accountArmoredPublic =
     bindI (liftI (cr_generateKey (ve_cr env) email email)) (\<lambda>idKp.
     bindI (liftI (pgpWrapToAccount (ve_cr env) (kp_private idKp) accountArmoredPublic)) (\<lambda>wrappedArmored.
     bindI (fetch_v srv (json_request POST ''/api/v1/identities'' (mint_body email (kp_public idKp) wrappedArmored))) (\<lambda>r.
     liftI (upload_checked ''identity mint failed: '' r))))"

text \<open>The three stages of \<open>submit\<close>: the session's user, the row of the account's key, and unlocking.\<close>

definition session_user :: "'s server \<Rightarrow> ('s, string) vio" where
  "session_user srv =
     bindI (fetch_v srv (get_request ''/api/auth/me'')) (\<lambda>r.
     if \<not> resp_ok r then throwI (Error ''not logged in (refresh and try again)'')
     else
       bindI (liftI (resp_json r)) (\<lambda>meAuth.
       let user = (if truthy meAuth then getp meAuth ''user'' else meAuth);
           userEmail = (if truthy user then getp user ''email'' else user)
       in if truthy userEmail then returnI (to_string userEmail) else throwI (Error ''session has no user email'')))"

definition account_key_row :: "'s server \<Rightarrow> string \<Rightarrow> ('s, jsval) vio" where
  "account_key_row srv label =
     bindI (fetch_v srv (get_request ''/api/v1/account-key/me'')) (\<lambda>r.
     if \<not> resp_ok r then throwI (Error (label @ status_string r @ '')''))
     else liftI (resp_json r))"

definition secure_stage :: "vault_env \<Rightarrow> 's server \<Rightarrow> bytes \<times> bytes \<Rightarrow> string \<Rightarrow> string \<Rightarrow> ('s, jsval) vio" where
  "secure_stage env srv rnd email password =
     bindI (account_key_row srv ''account key fetch failed ('') (\<lambda>me.
     bindI (liftI (getR me ''bootstrapped'')) (\<lambda>b.
     if truthy b then returnI me
     else
       bindI (bootstrapNew env srv rnd email password) (\<lambda>_.
       bindI (account_key_row srv ''account key re-fetch failed ('') (\<lambda>me'.
       bindI (liftI (getR me' ''bootstrapped'')) (\<lambda>b'.
       if truthy b' then returnI me' else throwI (Error ''bootstrap upload did not persist''))))))"

definition identity_rows :: "jsval \<Rightarrow> jsval list result" where
  "identity_rows idJson = bindR (getR idJson ''identities'') (\<lambda>ids. Inr (if isArray ids then js_elems ids else []))"

definition open_stage :: "vault_env \<Rightarrow> 's server \<Rightarrow> int \<Rightarrow> string \<Rightarrow> string \<Rightarrow> jsval \<Rightarrow> ('s, unit) vio" where
  "open_stage env srv now email password me =
     bindI (with_vault (unlockAccount env now me password (JStr email))) (\<lambda>_.
     bindI (fetch_v srv (get_request ''/api/v1/identities'')) (\<lambda>r.
     if \<not> resp_ok r then throwI (Error (''identities fetch failed ('' @ status_string r @ '')''))
     else
       bindI (liftI (bindR (resp_json r) identity_rows)) (\<lambda>list.
       if list \<noteq> [] then returnI ()
       else
         bindI (mintIdentity env srv email (to_string (getp me ''armored_public''))) (\<lambda>_.
         bindI (fetch_v srv (get_request ''/api/v1/identities'')) (\<lambda>r'.
         if \<not> resp_ok r' then returnI () else bindI (liftI (bindR (resp_json r') identity_rows)) (\<lambda>_. returnI ()))))))"

definition unlock_submit ::
  "bool \<Rightarrow> vault_env \<Rightarrow> 's server \<Rightarrow> int \<Rightarrow> bytes \<times> bytes \<Rightarrow> unlock_modal \<times> guard \<Rightarrow> vault \<times> 's \<Rightarrow> (unlock_modal \<times> guard) \<times> vault \<times> 's" where
  "unlock_submit loaded env srv now rnd mg st =
     (let m = (fst mg)\<lparr>um_err := []\<rparr>; g = snd mg; failed = (\<lambda>stage e. (m\<lparr>um_activeStage := stage, um_err := exn_message e\<rparr>, g)) in
      if um_busy (fst mg) then (mg, st)
      else if \<not> loaded then ((m\<lparr>um_err := ''crypto subsystem not loaded''\<rparr>, g), st)
      else if length (um_password m) < 10 then ((m\<lparr>um_err := ''password must be at least 10 characters''\<rparr>, g), st)
      else
        (case session_user srv st of
           (Inl e, st1) \<Rightarrow> (failed ''session'' e, st1)
         | (Inr email, st1) \<Rightarrow>
             (case secure_stage env srv rnd email (um_password m) st1 of
                (Inl e, st2) \<Rightarrow> (failed ''secure'' e, st2)
              | (Inr me, st2) \<Rightarrow>
                  (case open_stage env srv now email (um_password m) me st2 of
                     (Inl e, st3) \<Rightarrow> (failed ''open'' e, st3)
                   | (Inr _, st3) \<Rightarrow> ((m\<lparr>um_activeStage := ''done''\<rparr>, onUnlocked g), st3)))))"

section \<open>What the guard does with a locked vault\<close>

text \<open>A vault that is locked and has no account in the storages, under a guard that has noticed it.\<close>

definition locked_out :: "guard \<times> vault \<Rightarrow> bool" where
  "locked_out st \<longleftrightarrow> \<not> isUnlocked (snd st) \<and> (\<forall>a. area_item (snd st) a PERSIST_KEY = None)
     \<and> \<not> gd_unlocked (fst st) \<and> \<not> gd_prevUnlocked (fst st) \<and> gd_modalOpen (fst st) \<and> gd_idleLockout (fst st)"

lemma tick_without_cache:
  assumes "\<not> isUnlocked v" and "\<And>a. area_item v a PERSIST_KEY = None"
  obtains v' where "tick env acct now (g, v) =
      (unlocked_changed g ((if gd_prevUnlocked g then g\<lparr>gd_idleLockout := True, gd_modalOpen := True\<rparr> else g)
         \<lparr>gd_prevUnlocked := False, gd_unlocked := False\<rparr>), v')"
    and "\<not> isUnlocked v'" and "\<And>a. area_item v' a PERSIST_KEY = None"
proof
  let ?v = "if acct \<noteq> [] then clearAllPersistedCaches v else v"
  show un: "\<not> isUnlocked ?v" using assms(1) by (simp add: isUnlocked_memory vault_simps)
  show "area_item ?v a PERSIST_KEY = None" for a using assms(2) by (simp add: area_item_clear)
  show "tick env acct now (g, v) =
      (unlocked_changed g ((if gd_prevUnlocked g then g\<lparr>gd_idleLockout := True, gd_modalOpen := True\<rparr> else g)
         \<lparr>gd_prevUnlocked := False, gd_unlocked := False\<rparr>), ?v)"
    using assms(1) un by (cases "acct = []") (simp_all add: tick_def restore_without_cache [OF assms(2)] Let_def)
qed

lemma tick_locked_out:
  assumes "locked_out st"
  shows "locked_out (tick env acct now st)"
proof (cases st)
  case (Pair g v)
  then have v: "\<not> isUnlocked v" "area_item v a PERSIST_KEY = None" for a using assms by (simp_all add: locked_out_def)
  show ?thesis
    by (rule tick_without_cache [OF v, where env = env and acct = acct and now = now and g = g])
      (use assms Pair in \<open>simp add: locked_out_def unlocked_changed_def\<close>)
qed

text \<open>
  C8. A vault locked by hand stays locked: after a click on its state the account is gone from the memory
  and from both storages, and whatever number of seconds later the vault is locked, and the dialogue that asks for the
  password is shown. It carries the mark of the idle timeout, though nothing timed out.
\<close>

theorem manual_lock_shown:
  assumes "gd_unlocked g" and "gd_prevUnlocked g"
  shows "locked_out (fold (tick env acct) (now # nows) (onVaultClick env hasMailCache (g, v)))"
proof -
  have v: "\<not> isUnlocked (vault_zero env hasMailCache True False v)" "area_item (vault_zero env hasMailCache True False v) a PERSIST_KEY = None" for a
    by (simp_all add: isUnlocked_memory vault_simps zero_item)
  have "locked_out (tick env acct now (onVaultClick env hasMailCache (g, v)))"
    by (rule tick_without_cache [OF v, where env = env and acct = acct and now = now and g = "openModal g"])
      (use assms in \<open>simp add: onVaultClick_def locked_out_def unlocked_changed_def openModal_def\<close>)
  moreover have "locked_out st \<Longrightarrow> locked_out (fold (tick env acct) ts st)" for st ts
    by (induction ts arbitrary: st) (simp_all add: tick_locked_out)
  ultimately show ?thesis by simp
qed

definition watching :: guard where
  "watching = \<lparr>gd_vaultHydrated = True, gd_unlocked = True, gd_modalOpen = False, gd_idleLockout = False, gd_prevUnlocked = True\<rparr>"

theorem manual_lock_shown_witness:
  "locked_out (fold (tick (demo_env 0) ''Me@x'') [1000, 2000] (onVaultClick (demo_env 0) True (watching, demo_vault)))"
  by (rule manual_lock_shown) (simp_all add: watching_def)

lemma unlock_unlocks:
  assumes "pgp_ok env" and "unlockAccount env now row pw email v = (Inr fp, v1)"
  shows "isUnlocked v1"
proof -
  obtain armored pub v0 where "hydrateUnlockedAccount env now armored pub (getp row ''fingerprint'') v = (Inr fp, v0)"
      "vault_memory v1 = vault_memory v0"
    using assms(2) by (auto simp: unlockAccount_def Let_def vault_simps split: if_splits sum.splits prod.splits)
  then show ?thesis using hydrate_cases [OF assms(1)] by (fastforce simp: isUnlocked_memory vault_simps)
qed



end
