(* ===== verification/Spec2Isabelle.thy ===== *)
theory Spec2Isabelle
  imports Filter_Pass Filter_Editor Domain_Setup Account_Security Mail_Api Vault_Invariant Vault_Decrypt Mail_Cache Local_Search Service_Worker Pgp_Mail Link_Delivery Attached_Key Reply_Draft Mail_Actions Folder_Load Sign_In Compose_Form Message_Pane Unlock_Guard
begin

text \<open>
  \<^bold>\<open>Elvish mail: the browser client.\<close> The program is an end-to-end encrypted mail client in
  JavaScript. The server keeps wrapped keys and ciphertext; what makes the mail readable runs in the
  browser, and that is what these theories model. All paths below are relative to \<^verbatim>\<open>src/\<close>.

  \<^bold>\<open>Parts and how they interact.\<close>
  Signing in (\<^verbatim>\<open>static/auth/auth-login.jsx\<close>) is an SRP exchange (\<^verbatim>\<open>srp.js\<close>), with a second factor (\<^verbatim>\<open>webauthn.js\<close>)
  where the server asks for one. At registration \<^verbatim>\<open>static/auth/keygen.js\<close> makes an
  OpenPGP key, derives a key from the password and uploads the wrapped secret; \<^verbatim>\<open>static/auth/unlock.js\<close>,
  the key vault, opens it again, keeps it in memory and in the web storages, and decrypts mail.
  \<^verbatim>\<open>static/mail/mail-manifest.js\<close> holds the API calls; \<^verbatim>\<open>mail-filter-engine.js\<close> runs the user's
  filter rules through them and notes in \<^verbatim>\<open>mail-filter-ledger.js\<close> what it did. \<^verbatim>\<open>mail-cache.js\<close> and the
  search (\<^verbatim>\<open>static/mail/search/\<close>) keep sealed copies in IndexedDB. \<^verbatim>\<open>mail-app.jsx\<close> lists folders, opens
  messages with the vault and acts on them; \<^verbatim>\<open>unlock-modal.jsx\<close> watches the vault and asks for the
  password. \<^verbatim>\<open>compose.jsx\<close> sends PGP mail, or a
  protected link that the recipient opens with a password on the page of \<^verbatim>\<open>static/protected/open.js\<close>;
  between them stands the server of \<^verbatim>\<open>internal/maillinks/links.go\<close>. \<^verbatim>\<open>static/sw.js\<close> caches pages and assets.

  \<^bold>\<open>The language and its libraries.\<close>
  \<^item> \<open>JS_Prelude\<close>: values (\<open>jsval\<close>: undefined, null, booleans, numbers, strings, arrays, plain objects
    as association lists in the order of insertion), truthiness, coercions, property access and update,
    \<open>result\<close> (a thrown error is \<open>Inl\<close>), string methods; the locales \<open>codec\<close> (decoding inverts encoding)
    and \<open>invariant_system\<close> (invariants of reachable states).
  \<^item> \<open>JS_Json\<close>, \<open>JS_Numbers\<close>, \<open>JS_Bytes\<close>: \<open>JSON.stringify\<close> and \<open>JSON.parse\<close>, number texts and base 16,
    UTF-8 and base 64, each encoder with its decoder as an interpretation of \<open>codec\<close>.
  \<^item> \<open>Http\<close>: requests, answers and computations against a server (a state with a function); URI
    encoding. \<open>Web_Storage\<close>: the two web storages, behind the locale \<open>item_store\<close>.
  \<^item> \<open>Stable_Sort\<close> (\<open>Array.prototype.sort\<close>, locale \<open>total_preorder\<close>) and \<open>Grouping\<close> (loops that collect
    values in a \<open>Map\<close>).

  \<^bold>\<open>The components.\<close>
  \<^item> \<open>Filter_Ledger\<close>: every operation of the ledger on the JSON text in \<open>localStorage\<close>. The abstract
    ledger is a hash with a partial map, and the operations refine it whatever the text was; the locale
    \<open>applied_ledger\<close> is what the engine relies on.
  \<^item> \<open>Filter_Engine\<close>: normalising, hashing and matching rules. The normalised rules are the stable
    sorted first fifty of those the code can evaluate, and the first match wins.
  \<^item> \<open>Filter_Pass\<close>: \<open>runInboxFilterPass\<close> as a step relation of microtasks. Every schedule ends with the
    promise resolved; at most three chains run at a time; each call is justified by a rule that matches;
    and where the ledger fails to keep a pass from repeating itself.
  \<^item> \<open>Srp\<close>: both ends of the exchange agree on the proofs; square-and-multiply computes powers; the
    encodings are inverse; when the client checks the proof of the server.
  \<^item> \<open>Keygen\<close>: key derivation with its fallback, wrapping, bootstrap, rewrapping for a new password.
  \<^item> \<open>Mail_Text\<close>, \<open>Vault_Mime\<close>, \<open>Mime_Lines\<close>: HTML to text, addresses, labels; finding OpenPGP material in
    MIME messages; lemmas on lines and header fields.
  \<^item> \<open>Key_Vault\<close> (state \<open>vault\<close> and all operations of \<^verbatim>\<open>unlock.js\<close>), \<open>Vault_Account\<close> (locking is final,
    unlocking binds the published key, idling and restoring), \<open>Vault_Invariant\<close> (one invariant, kept by every
    operation, the idle timer and other tabs), \<open>Vault_Decrypt\<close> (signature verdicts, search for the key).
  \<^item> \<open>Mail_Api\<close>: the requests of the API module, the errors they report, the order of a password change,
    generated addresses.
  \<^item> \<open>Index_Db\<close>, \<open>Mail_Cache\<close>: sealed values under the transaction rules of IndexedDB; a cached message is
    given back, each write is inside a live transaction, purging erases.
  \<^item> \<open>Tokenize\<close>, \<open>Search_Worker\<close>, \<open>Local_Search\<close>: tokens against a reference definition, the index, its worker
    and its client as state machines: the index stays empty and the client never becomes ready.
  \<^item> \<open>Service_Worker\<close>: only good answers are cached, and pages of a session never.
  \<^item> \<open>Compose\<close>, \<open>Pgp_Mail\<close>: what the composer writes, and that the vault recognises it.
  \<^item> \<open>Compose_Form\<close>: the form of the composer with its key lookups as a state machine: a key the form knows is
    that of its recipient; the one way in which a message goes out under the key of another.
  \<^item> \<open>Message_View\<close>, \<open>Mail_Delivery\<close>, \<open>Attached_Key\<close>, \<open>Signer_Trust\<close>, \<open>Reply_Draft\<close>: the reader in
    \<^verbatim>\<open>mail-app.jsx\<close>: MIME and metadata, what the composer wrote is what is shown, the key that gets lost,
    whose signatures are shown as trusted, drafts of replies.
  \<^item> \<open>Recovered_Header\<close>, \<open>Background_Recovery\<close>, \<open>Folder_Load\<close>: headers recovered from bodies, their recovery in the
    background as a step relation that ends and attempts all, and the loading of folders out of order.
  \<^item> \<open>Mail_List\<close>, \<open>Mail_Actions\<close>, \<open>Message_Pane\<close>: the selection under clicks and keys, moving and deleting with
    confirmations, emptying the trash, and the pane of a message with the decryptions and
    verifications under way: when it shows the body of the selected message, and when that of another.
  \<^item> \<open>Sign_In\<close>, \<open>Webauthn\<close>: the pages for signing in and registering with every request they send, and the
    encodings of the security keys.
  \<^item> \<open>Filter_Editor\<close>, \<open>Domain_Setup\<close>, \<open>Account_Security\<close>: of \<^verbatim>\<open>mail-settings.jsx\<close> the editor of filter rules, whose
    rules mean to the filter engine what its labels say; the custom domains, with exactly the DNS domains accepted; second
    factors, the password form and the retry of actions that need a fresh factor.
  \<^item> \<open>Unlock_Guard\<close>: the guard of \<^verbatim>\<open>unlock-modal.jsx\<close> and its dialogue: locking by hand lasts, the idle timeout does not.
  \<^item> \<open>Protected_Open\<close>, \<open>Protected_Link\<close>, \<open>Link_Server\<close>, \<open>Link_Delivery\<close>: the recipient's page, the page as a state
    machine, the server, and the three together: the message sent is the message shown, the password never
    leaves the page, and the views are limited.
  \<^item> This theory: the account registered by \<open>Keygen\<close> can be signed in to and unlocks the vault; and the first
    run of the dialogue takes a session without keys to the open mailbox.

  \<^bold>\<open>Parameters and what is assumed of them.\<close> WebCrypto, argon2 and openpgp are the records \<open>crypto\<close>,
  \<open>key_env\<close> and the fields of \<open>vault_env\<close>; \<open>crypto_ok\<close> and \<open>key_env_ok\<close> say that AES-GCM decrypts what it encrypted
  under the same key and nonce, \<open>pgp_ok\<close> that a public key with a fingerprint can be read, \<open>keys_fit\<close> that the
  halves of a generated pair have one fingerprint, \<open>decoder_ok\<close> and \<open>reads_utf8\<close> that \<open>TextDecoder\<close> reads UTF-8. The \<open>DOMParser\<close>, the
  sanitiser, \<open>localeCompare\<close>, \<open>Intl.Segmenter\<close>, date formatters, the network, random bytes and the clock
  are arguments too. Each theorem that assumes something of them has a witness with concrete functions.

  \<^bold>\<open>Bounds and simplifications.\<close>
  \<^item> Strings are sequences of code units below 256; dashes and ellipses of labels are written in ASCII.
    Numbers are integers where the code computes with integers, and real numbers in the scores of the search.
  \<^item> The JSON parser has fuel, one more than the length of the text, which the round trip shows to be enough for what
    the encoder writes. The MIME readers recurse to depth eight, as the code does. The mutual recursion of
    \<open>storage\<close> and \<open>readTrustedDeviceFlag\<close> is bounded by the number of free stack frames, since
    running out of them is how the code ends it. Every other loop terminates by itself.
  \<^item> An asynchronous operation runs to its end before the next one, but where its interleaving is what matters: the
    microtasks of the filter pass, recoveries in the background, loads of folders, key lookups of the
    composer and the tasks of the message pane are step relations, and in the computations on IndexedDB
    each \<open>await\<close> of something else ends the transaction. The server of protected links runs each handler in one database transaction. Durations
    of links are 64-bit words, as in Go.

  \<^bold>\<open>Not modelled.\<close> What React renders, and of \<^verbatim>\<open>mail-app.jsx\<close> the sidebar, the wiring of the search and the profiles of
  senders; the rich text editor of the composer; the other sections of \<^verbatim>\<open>mail-settings.jsx\<close> and the administration and
  console applications, which are forms over single API calls. Their state lives in hooks and their effect is the DOM. The
  scripts of the public site, the performance beacons, the build script, generated bundles and vendored libraries.
  The Go services but for the SRP session, the redirect check and the protected links, and the native clients: other languages.
\<close>

section \<open>From registration to the unlocked vault\<close>

text \<open>The row of the account as the server gives it back.\<close>

definition account_row :: "bootstrap_account \<Rightarrow> jsval" where
  "account_row acc =
     JObj [(''bootstrapped'', JBool True), (''fingerprint'', JStr (ba_fingerprint acc)),
           (''armored_public'', JStr (ba_armored_public acc)), (''wrapped_secret_b64'', JStr (ba_wrapped_secret_b64 acc)),
           (''kdf'', JStr (ba_kdf acc)), (''kdf_salt_b64'', JStr (ba_kdf_salt_b64 acc)),
           (''kdf_params_json'', JStr (json_str (ba_kdf_params acc)))]"

text \<open>The halves of a generated key pair can be read, and have the same fingerprint.\<close>

definition keys_fit :: "vault_env \<Rightarrow> pgp_keypair \<Rightarrow> bool" where
  "keys_fit env kp =
     (case (pg_readPrivateKey (ve_pg env) (kp_private kp), cr_getFingerprint (ve_cr env) (kp_public kp)) of
        (Inr priv, Inr f) \<Rightarrow>
          normalizeFingerprint (JStr (toUpperCase f)) \<noteq> []
          \<and> normalizeFingerprint (JStr (pg_privFingerprint (ve_pg env) priv)) = normalizeFingerprint (JStr (toUpperCase f))
      | _ \<Rightarrow> False)"

lemma unwrap_bootstrapped:
  assumes "crypto_ok (ve_cr env)" and "\<forall>s. ve_td env (utf8_encode s) = s" and "length nonce = 12"
    and "bootstrap (ve_cr env) salt nonce email password = Inr (acc, ident)"
  obtains account where "generateAccountKey (ve_cr env) email = Inr account"
    and "unwrap_account env (account_row acc) password = Inr (ak_armoredPriv account)"
    and "ba_armored_public acc = ak_armoredPub account"
    and "pgpFingerprint (ve_cr env) (ak_armoredPub account) = Inr (ba_fingerprint acc)"
proof -
  obtain account d w where acc: "generateAccountKey (ve_cr env) email = Inr account"
      "deriveKEK (ve_cr env) password salt (JStr (ba_kdf acc)) (parse_kdf_params (JStr (json_str (ba_kdf_params acc)))) = Inr d"
      "ba_wrapped_secret_b64 acc = kg_bytesToB64 w" "ba_kdf_salt_b64 acc = kg_bytesToB64 salt"
      "aesUnwrap (ve_cr env) (d_key d) w = Inr (utf8_encode (ak_armoredPriv account))"
      "ba_armored_public acc = ak_armoredPub account"
      "pgpFingerprint (ve_cr env) (ak_armoredPub account) = Inr (ba_fingerprint acc)"
    using bootstrapD [OF assms(1,3,4)] .
  have sel: "getp (account_row acc) ''kdf_params_json'' = JStr (json_str (ba_kdf_params acc))"
      "getp (account_row acc) ''kdf_salt_b64'' = JStr (kg_bytesToB64 salt)" "getp (account_row acc) ''kdf'' = JStr (ba_kdf acc)"
      "getp (account_row acc) ''wrapped_secret_b64'' = JStr (kg_bytesToB64 w)"
    by (simp_all add: account_row_def acc(3,4))
  show ?thesis
    using that [OF acc(1) _ acc(6,7)] acc(2,5) assms(2)
    unfolding unwrap_account_def sel by (simp add: kg_b64_roundtrip Let_def)
qed

lemma registered_account_unlocks:
  assumes "crypto_ok (ve_cr env)" and "pgp_ok env" and "\<forall>s. ve_td env (utf8_encode s) = s" and "length nonce = 12"
    and "bootstrap (ve_cr env) salt nonce email password = Inr (acc, ident)"
    and "\<And>kp. cr_generateKey (ve_cr env) (''elvish-account:'' @ email) email = Inr kp \<Longrightarrow> keys_fit env kp"
  shows "\<exists>account fp v'. generateAccountKey (ve_cr env) email = Inr account
    \<and> unlockAccount env now (account_row acc) password sessionEmail v = (Inr fp, v')
    \<and> isUnlocked v' \<and> v_accountArmoredPriv v' = ak_armoredPriv account
    \<and> fingerprintsEquivalent (JStr (ba_fingerprint acc)) (JStr fp)"
proof -
  obtain account where acc: "generateAccountKey (ve_cr env) email = Inr account"
      "unwrap_account env (account_row acc) password = Inr (ak_armoredPriv account)"
      "ba_armored_public acc = ak_armoredPub account"
      "pgpFingerprint (ve_cr env) (ak_armoredPub account) = Inr (ba_fingerprint acc)"
    using unwrap_bootstrapped [OF assms(1,3,4,5)] .
  obtain kp where kp: "cr_openpgp_defined (ve_cr env)" "cr_generateKey (ve_cr env) (''elvish-account:'' @ email) email = Inr kp"
      "ak_armoredPub account = kp_public kp" "ak_armoredPriv account = kp_private kp"
    using acc(1) by (auto simp: generateAccountKey_def bindR_eq_Inr split: if_splits)
  obtain priv f where fit: "pg_readPrivateKey (ve_pg env) (kp_private kp) = Inr priv" "cr_getFingerprint (ve_cr env) (kp_public kp) = Inr f"
      "normalizeFingerprint (JStr (toUpperCase f)) \<noteq> []"
      "normalizeFingerprint (JStr (pg_privFingerprint (ve_pg env) priv)) = normalizeFingerprint (JStr (toUpperCase f))"
    using assms(6) [OF kp(2)] by (auto simp: keys_fit_def split: sum.splits)
  define fp where "fp = normalizeFingerprint (JStr (toUpperCase f))"
  obtain pubKey where pub: "pg_readKey (ve_pg env) (kp_public kp) = Inr pubKey" using assms(2) fit(2) by (auto simp: pgp_ok_def)
  have reg: "ba_fingerprint acc = toUpperCase f" using acc(4) fit(2) kp(3) by (simp add: pgpFingerprint_def)
  have eqv: "fingerprintsEquivalent (JStr (ba_fingerprint acc)) (JStr fp)"
    using fit(3) by (simp add: fingerprintsEquivalent_def Let_def reg fp_def)
  have "key_matches env priv (kp_public kp) fp" using fit by (simp add: key_matches_def fp_def pgpFingerprint_def)
  then have hyd: "hydrateUnlockedAccount env now (ak_armoredPriv account) (kp_public kp) (JStr (ba_fingerprint acc)) v =
      (Inr fp, touch now (hydrated priv pubKey (ak_armoredPriv account) fp v))"
    using eqv by (intro hydrate_ok [OF kp(1) _ pub]) (simp_all add: kp(4) fit(1))
  have sel: "getp (account_row acc) ''armored_public'' = JStr (kp_public kp)"
      "getp (account_row acc) ''fingerprint'' = JStr (ba_fingerprint acc)" "\<not> nullish (account_row acc)"
    using acc(3) kp(3) by (simp_all add: account_row_def)
  define v' where "v' = persistAccountCache env now sessionEmail (str_or_empty (JStr (kp_public kp)))
      (touch now (hydrated priv pubKey (ak_armoredPriv account) fp v))"
  have "unlockAccount env now (account_row acc) password sessionEmail v = (Inr fp, v')"
    using kp(1) sel(3) unfolding unlockAccount_def acc(2) sel(1,2) by (simp add: hyd v'_def Let_def)
  moreover have "vault_memory v' = vault_memory (touch now (hydrated priv pubKey (ak_armoredPriv account) fp v))"
    by (simp add: v'_def vault_simps)
  then have "isUnlocked v'" "v_accountArmoredPriv v' = ak_armoredPriv account"
    by (simp_all add: vault_memory_def isUnlocked_def hydrated_def touch_def)
  ultimately show ?thesis using acc(1) eqv by blast
qed


definition paired_env :: vault_env where
  "paired_env = (demo_env 0)\<lparr>ve_pg := demo_pgp\<lparr>pg_privFingerprint := (\<lambda>k. ''pub:'' @ drop 5 k)\<rparr>, ve_td := greedy_decoder\<rparr>"

lemma paired_env_sel: "ve_cr paired_env = demo_crypto" "ve_td paired_env = greedy_decoder"
  by (simp_all add: paired_env_def demo_env_def)

lemma paired_env_ok: "pgp_ok paired_env"
  by (simp add: pgp_ok_def paired_env_def demo_env_def demo_pgp_def)

lemma paired_bootstrap: "pw \<noteq> [] \<Longrightarrow> \<exists>acc ident. bootstrap (ve_cr paired_env) [1] (replicate 12 7) ''a@b'' pw = Inr (acc, ident)"
  by (simp add: paired_env_sel bootstrap_def generateAccountKey_def generateIdentityKey_def deriveKEK_def
      deriveKEKWithArgon2id_def importKEKFromBytes_def aesWrap_def pgpWrapToAccount_def pgpFingerprint_def
      demo_crypto_def Let_def)

lemma paired_keys_fit:
  assumes "cr_generateKey (ve_cr paired_env) (''elvish-account:'' @ ''a@b'') ''a@b'' = Inr kp"
  shows "keys_fit paired_env kp"
proof -
  have "keys_fit paired_env \<lparr>kp_public = ''pub:elvish-account:a@b'', kp_private = ''priv:elvish-account:a@b'', kp_revocation = []\<rparr>"
    by code_simp
  then show ?thesis using assms by (auto simp: paired_env_sel demo_crypto_def)
qed

text \<open>A server that answers every request with one value.\<close>

definition answering :: "jsval \<Rightarrow> unit server" where
  "answering j s rq = (Inr \<lparr>rs_status = 200, rs_body = utf8_encode (json_str j)\<rparr>, s)"


section \<open>From an empty account to the open mailbox\<close>

text \<open>A conversation in which the server answers each request with a status of success and the given value.\<close>

fun replies :: "'s server \<Rightarrow> 's \<Rightarrow> (http_request \<times> jsval) list \<Rightarrow> 's \<Rightarrow> bool" where
  "replies srv s [] s' = (s' = s)"
| "replies srv s ((rq, j) # c) s' =
     (case srv s rq of (Inr r, s1) \<Rightarrow> resp_ok r \<and> resp_json r = Inr j \<and> replies srv s1 c s' | (Inl _, _) \<Rightarrow> False)"

lemma replies_ConsD:
  assumes "replies srv s ((rq, j) # c) s'"
  obtains r s1 where "srv s rq = (Inr r, s1)" "resp_ok r" "resp_json r = Inr j" "replies srv s1 c s'"
  using assms by (auto split: prod.splits sum.splits)

text \<open>The requests of the dialogue on the first run, with the answers of a server that stores the keys.\<close>

definition first_run :: "jsval \<Rightarrow> jsval \<Rightarrow> bootstrap_account \<Rightarrow> bootstrap_identity \<Rightarrow> jsval \<Rightarrow> jsval \<Rightarrow> (http_request \<times> jsval) list" where
  "first_run meAuth me acc ident stored idJson =
     [(get_request ''/api/auth/me'', meAuth), (get_request ''/api/v1/account-key/me'', me),
      (json_request POST ''/api/v1/account-key/bootstrap'' (bootstrap_body acc ident), stored),
      (get_request ''/api/v1/account-key/me'', account_row acc), (get_request ''/api/v1/identities'', idJson)]"

lemma session_user_ok:
  assumes "srv s (get_request ''/api/auth/me'') = (Inr r, s1)" "resp_ok r" "resp_json r = Inr meAuth"
    and "getp (getp meAuth ''user'') ''email'' = JStr email" and "email \<noteq> []"
  shows "session_user srv (v, s) = (Inr email, (v, s1))"
proof -
  have user: "truthy x" if "getp x k = JStr e" for x k e using that by (cases x) (auto split: if_splits option.splits)
  have "truthy (getp meAuth ''user'')" by (rule user [OF assms(4)])
  moreover from this have "truthy meAuth" by (cases meAuth) (auto split: if_splits option.splits)
  ultimately show ?thesis
    using assms by (simp add: session_user_def bindI_def fetch_v_def liftI_def returnI_def)
qed

lemma secure_stage_first_run:
  assumes "bootstrap (ve_cr env) salt nonce email password = Inr (acc, ident)" and "\<not> nullish me" and "\<not> truthy (getp me ''bootstrapped'')"
    and "srv s (get_request ''/api/v1/account-key/me'') = (Inr r1, sa)" "resp_ok r1" "resp_json r1 = Inr me"
    and "srv sa (json_request POST ''/api/v1/account-key/bootstrap'' (bootstrap_body acc ident)) = (Inr r2, sb)" "resp_ok r2"
    and "srv sb (get_request ''/api/v1/account-key/me'') = (Inr r3, sc)" "resp_ok r3" "resp_json r3 = Inr (account_row acc)"
  shows "secure_stage env srv (salt, nonce) email password (v, s) = (Inr (account_row acc), (v, sc))"
proof -
  have row: "\<not> nullish (account_row acc)" "truthy (getp (account_row acc) ''bootstrapped'')" by (simp_all add: account_row_def nullish_def)
  have "account_key_row srv l (v, s) = (Inr me, (v, sa))" "account_key_row srv l (v, sb) = (Inr (account_row acc), (v, sc))" for l
    using assms by (simp_all add: account_key_row_def bindI_def fetch_v_def liftI_def)
  moreover have "bootstrapNew env srv (salt, nonce) email password (v, sa) = (Inr (), (v, sb))"
    using assms by (simp add: bootstrapNew_def bindI_def liftI_def fetch_v_def upload_checked_def)
  ultimately show ?thesis
    using assms(2,3) row by (simp add: secure_stage_def bindI_def liftI_def getR_def returnI_def)
qed


text \<open>A server that gives prepared answers one after the other.\<close>

definition scripted :: "jsval list \<Rightarrow> nat server" where
  "scripted js n rq = (Inr \<lparr>rs_status = 200, rs_body = utf8_encode (json_str (js ! n))\<rparr>, Suc n)"

lemma scripted_now: "scripted (ds @ j # js) (length ds) rq = (Inr \<lparr>rs_status = 200, rs_body = utf8_encode (json_str j)\<rparr>, Suc (length ds))"
  by (simp add: scripted_def)

lemma scripted_replies:
  assumes "\<And>j. j \<in> snd ` set c \<Longrightarrow> json_ok j"
  shows "replies (scripted (ds @ map snd c)) (length ds) c (length ds + length c)"
  using assms
proof (induction c arbitrary: ds)
  case (Cons x c)
  have "resp_ok \<lparr>rs_status = 200, rs_body = utf8_encode (json_str (snd x))\<rparr>" by (simp add: resp_ok_def)
  moreover have "resp_json \<lparr>rs_status = 200, rs_body = utf8_encode (json_str (snd x))\<rparr> = Inr (snd x)"
    using Cons.prems [of "snd x"] by (intro resp_json_encoded) simp
  moreover have "replies (scripted ((ds @ [snd x]) @ map snd c)) (length (ds @ [snd x])) c (length (ds @ [snd x]) + length c)"
    using Cons.prems by (intro Cons.IH) simp
  ultimately show ?case by (cases x) (simp add: scripted_now)
qed simp

definition first_run_modal :: unlock_modal where
  "first_run_modal = \<lparr>um_password = ''0123456789'', um_busy = False, um_err = [], um_needsBootstrap = True, um_activeStage = ''idle''\<rparr>"


end
